(* ===== verification/Prelude.thy ===== *)
theory Prelude
  imports Main "HOL-Library.Word" "HOL-Library.Monad_Syntax"
begin

text \<open>
  Shared vocabulary of the development: bytes, machine integers in the little-endian layout that
  the C code obtains by \<open>memcpy\<close> of an integer object (all processes run on the same
  little-endian machine type), the two shapes of \<open>memcpy\<close> the components use (reading a slice of
  a buffer, overwriting a slice of a buffer), decimal text as produced by \<open>sprintf "%d"\<close> and read
  by \<open>atoi\<close>, and \<open>strcmp\<close>.  The named collections \<open>codec\<close> (facts about encoded lengths and
  round trips), \<open>source_consts\<close> (the values of the \<open>#define\<close>d constants) and \<open>slices\<close> (reading after
  overwriting a buffer) carry the component proofs.
\<close>

named_theorems codec \<open>lengths and round trips of the byte encodings\<close>
named_theorems source_consts \<open>values of the source constants\<close>
named_theorems slices \<open>reading and overwriting slices of a buffer\<close>

type_synonym byte = "8 word"
type_synonym u8 = "8 word"
type_synonym u16 = "16 word"
type_synonym u32 = "32 word"

section \<open>Little-endian integers\<close>

fun le_bytes :: "nat \<Rightarrow> nat \<Rightarrow> byte list" where
  "le_bytes 0 x = []"
| "le_bytes (Suc n) x = word_of_nat x # le_bytes n (x div 256)"

lemma le_bytes_numeral:
  "le_bytes (numeral k) x = word_of_nat x # le_bytes (pred_numeral k) (x div 256)"
  by (simp only: numeral_eq_Suc le_bytes.simps)

fun le_nat :: "byte list \<Rightarrow> nat" where
  "le_nat [] = 0"
| "le_nat (b # bs) = unat b + 256 * le_nat bs"

lemma length_le_bytes [simp, codec]: "length (le_bytes n x) = n"
  by (induction n arbitrary: x) auto

lemma unat_byte_of_nat: "unat (word_of_nat x :: byte) = x mod 256"
  by (simp add: unat_of_nat)

lemma le_nat_le_bytes: "le_nat (le_bytes n x) = x mod 256 ^ n"
proof (induction n arbitrary: x)
  case 0
  show ?case by simp
next
  case (Suc n)
  have "x mod (256 * 256 ^ n) = 256 * (x div 256 mod 256 ^ n) + x mod 256"
    by (rule mod_mult2_eq)
  with Suc.IH [of "x div 256"] show ?case
    by (simp add: unat_byte_of_nat)
qed

lemma le_nat_less: "le_nat bs < 256 ^ length bs"
proof (induction bs)
  case Nil
  show ?case by simp
next
  case (Cons b bs)
  have "unat b < 256" using unsigned_less [of b, where ?'a = nat] by simp
  with Cons show ?case by simp
qed

lemma le_bytes_le_nat: "length bs = n \<Longrightarrow> le_bytes n (le_nat bs) = bs"
proof (induction bs arbitrary: n)
  case Nil
  then show ?case by simp
next
  case (Cons b bs)
  have b: "unat b < 256" using unsigned_less [of b, where ?'a = nat] by simp
  then have "(unat b + 256 * le_nat bs) div 256 = le_nat bs" by simp
  moreover have "(word_of_nat (unat b + 256 * le_nat bs) :: byte) = b"
    using b by (simp only: word_unat_eq_iff) (simp add: unat_of_nat del: of_nat_add of_nat_mult)
  ultimately show ?case
    using Cons.IH [of "length bs"] Cons.prems by (cases n) auto
qed

definition u16_bytes :: "u16 \<Rightarrow> byte list" where
  "u16_bytes w = le_bytes 2 (unat w)"

definition u32_bytes :: "u32 \<Rightarrow> byte list" where
  "u32_bytes w = le_bytes 4 (unat w)"

definition bytes_u16 :: "byte list \<Rightarrow> u16" where
  "bytes_u16 bs = word_of_nat (le_nat bs)"

definition bytes_u32 :: "byte list \<Rightarrow> u32" where
  "bytes_u32 bs = word_of_nat (le_nat bs)"

lemma unat_u32_less: "unat (w :: u32) < 4294967296"
  by (rule order.strict_trans2 [OF unsigned_less]) simp

lemma unat_u16_less: "unat (w :: u16) < 65536"
  by (rule order.strict_trans2 [OF unsigned_less]) simp

lemmas codec_eval = le_bytes_numeral u16_bytes_def u32_bytes_def bytes_u16_def bytes_u32_def

lemma length_u16_bytes [simp, codec]: "length (u16_bytes w) = 2"
  by (simp add: u16_bytes_def)

lemma length_u32_bytes [simp, codec]: "length (u32_bytes w) = 4"
  by (simp add: u32_bytes_def)

lemma bytes_u16_u16_bytes [simp, codec]: "bytes_u16 (u16_bytes w) = w"
  using unsigned_less [of w, where ?'a = nat] by (simp add: bytes_u16_def u16_bytes_def le_nat_le_bytes)

lemma bytes_u32_u32_bytes [simp, codec]: "bytes_u32 (u32_bytes w) = w"
  using unsigned_less [of w, where ?'a = nat] by (simp add: bytes_u32_def u32_bytes_def le_nat_le_bytes)

lemma u32_bytes_bytes_u32: "length bs = 4 \<Longrightarrow> u32_bytes (bytes_u32 bs) = bs"
  using le_nat_less [of bs]
  by (simp add: bytes_u32_def u32_bytes_def unat_of_nat le_bytes_le_nat)

lemma u16_bytes_bytes_u16: "length bs = 2 \<Longrightarrow> u16_bytes (bytes_u16 bs) = bs"
  using le_nat_less [of bs]
  by (simp add: bytes_u16_def u16_bytes_def unat_of_nat le_bytes_le_nat)

lemma u32_bytes_inject [simp]: "u32_bytes v = u32_bytes w \<longleftrightarrow> v = w"
  by (metis bytes_u32_u32_bytes)

lemma u32_bytes_not_Nil [simp]: "u32_bytes w \<noteq> []" "[] \<noteq> u32_bytes w"
  by (metis length_u32_bytes list.size(3) zero_neq_numeral)+

lemma u16_bytes_not_Nil [simp]: "u16_bytes w \<noteq> []" "[] \<noteq> u16_bytes w"
  by (metis length_u16_bytes list.size(3) zero_neq_numeral)+

text \<open>
  The response codes: the server copies the two low bytes of an \<open>int\<close>, the client reads them
  as an \<open>int16_t\<close> (\<open>memory_finalize_process\<close> reads them as a \<open>uint16_t\<close>).
\<close>

definition code_bytes :: "int \<Rightarrow> byte list" where
  "code_bytes c = take 2 (u32_bytes (word_of_int c))"

definition bytes_i16 :: "byte list \<Rightarrow> int" where
  "bytes_i16 bs = sint (bytes_u16 bs)"

lemma take_le_bytes: "m \<le> n \<Longrightarrow> take m (le_bytes n x) = le_bytes m x"
proof (induction m arbitrary: n x)
  case 0
  show ?case by simp
next
  case (Suc m)
  then obtain k where "n = Suc k" "m \<le> k" by (cases n) auto
  with Suc.IH [of k "x div 256"] show ?case by simp
qed

lemma code_bytes_u16: "code_bytes c = u16_bytes (word_of_int c)"
proof -
  have "unat (word_of_int c :: u32) mod 65536 = unat (word_of_int c :: u16)"
  proof -
    have "int (unat (word_of_int c :: u32) mod 65536) = c mod 2 ^ 32 mod 65536"
      by (simp add: zmod_int unsigned_of_int take_bit_eq_mod)
    also have "\<dots> = c mod 65536"
      by (rule mod_mod_cancel) simp
    also have "\<dots> = int (unat (word_of_int c :: u16))"
      by (simp add: unsigned_of_int take_bit_eq_mod)
    finally show ?thesis by (simp add: of_nat_eq_iff [where ?'a = int, symmetric])
  qed
  moreover have "le_bytes 2 x = le_bytes 2 (x mod 65536)" for x :: nat
  proof -
    have "le_nat (le_bytes 2 x) = x mod 65536" by (simp add: le_nat_le_bytes)
    then show ?thesis by (metis le_bytes_le_nat length_le_bytes)
  qed
  ultimately have "le_bytes 2 (unat (word_of_int c :: u32)) = le_bytes 2 (unat (word_of_int c :: u16))"
    by metis
  then show ?thesis
    by (simp add: code_bytes_def u16_bytes_def u32_bytes_def take_le_bytes)
qed

lemma length_code_bytes [simp, codec]: "length (code_bytes c) = 2"
  by (simp add: code_bytes_u16)

lemma code_bytes_not_Nil [simp]: "code_bytes c \<noteq> []"
  by (simp add: code_bytes_u16)

lemma bytes_i16_code_bytes [codec]:
  "- (2 ^ 15) \<le> c \<Longrightarrow> c < 2 ^ 15 \<Longrightarrow> bytes_i16 (code_bytes c) = c"
  by (simp add: code_bytes_u16 bytes_i16_def signed_of_int signed_take_bit_int_eq_self)

section \<open>Slices: the two shapes of memcpy\<close>

definition mem_read :: "nat \<Rightarrow> nat \<Rightarrow> 'a list \<Rightarrow> 'a list" where
  "mem_read off n m = take n (drop off m)"

definition mem_write :: "nat \<Rightarrow> 'a list \<Rightarrow> 'a list \<Rightarrow> 'a list" where
  "mem_write off bs m = take off m @ bs @ drop (off + length bs) m"

lemma length_mem_read [slices]: "off + n \<le> length m \<Longrightarrow> length (mem_read off n m) = n"
  by (simp add: mem_read_def)

lemma length_mem_write [slices, simp]:
  "off + length bs \<le> length m \<Longrightarrow> length (mem_write off bs m) = length m"
  by (simp add: mem_write_def)

lemma mem_read_write_same [slices]:
  "off + length bs \<le> length m \<Longrightarrow> length bs = n \<Longrightarrow> mem_read off n (mem_write off bs m) = bs"
  by (simp add: mem_read_def mem_write_def)

lemma mem_read_write_before [slices]:
  "off + length bs \<le> length m \<Longrightarrow> o' + n \<le> off \<Longrightarrow>
   mem_read o' n (mem_write off bs m) = mem_read o' n m"
  by (simp add: mem_read_def mem_write_def take_drop min_def)

lemma mem_read_write_after [slices]:
  "off + length bs \<le> length m \<Longrightarrow> off + length bs \<le> o' \<Longrightarrow>
   mem_read o' n (mem_write off bs m) = mem_read o' n m"
  by (simp add: mem_read_def mem_write_def)

lemma mem_read_mem_read:
  "a + b \<le> n \<Longrightarrow> mem_read a b (mem_read off n m) = mem_read (off + a) b m"
  by (simp add: mem_read_def take_drop min_def add.commute)

lemma mem_read_write_inside:
  assumes "off + n \<le> length m" "a + length bs \<le> n"
  shows "mem_read off n (mem_write (off + a) bs m) = mem_write a bs (mem_read off n m)"
proof (rule nth_equalityI)
  show "length (mem_read off n (mem_write (off + a) bs m)) = length (mem_write a bs (mem_read off n m))"
    using assms by (simp add: mem_read_def mem_write_def)
next
  fix i assume "i < length (mem_read off n (mem_write (off + a) bs m))"
  then have i: "i < n" using assms by (simp add: mem_read_def mem_write_def)
  show "mem_read off n (mem_write (off + a) bs m) ! i = mem_write a bs (mem_read off n m) ! i"
    using i assms by (auto simp: mem_read_def mem_write_def nth_append algebra_simps)
qed

lemma mem_write_full: "length bs = length m \<Longrightarrow> mem_write 0 bs m = bs"
  by (simp add: mem_write_def)

section \<open>Decimal text and string comparison\<close>

text \<open>The bytes of a C string as characters.\<close>

definition as_chars :: "byte list \<Rightarrow> string" where
  "as_chars bs = map (\<lambda>b. char_of (unat b)) bs"

text \<open>\<open>sprintf (s, "%d", i)\<close> for an \<open>int\<close>, and \<open>atoi\<close> as \<open>(int) strtol (s, NULL, 10)\<close>.\<close>

fun dec_nat :: "nat \<Rightarrow> string" where
  "dec_nat n = (if n < 10 then [char_of (48 + n)] else dec_nat (n div 10) @ [char_of (48 + n mod 10)])"

declare dec_nat.simps [simp del]

definition dec_int :: "int \<Rightarrow> string" where
  "dec_int i = (if i < 0 then CHR ''-'' # dec_nat (nat (- i)) else dec_nat (nat i))"

definition is_digit :: "char \<Rightarrow> bool" where
  "is_digit c \<longleftrightarrow> 48 \<le> (of_char c :: nat) \<and> (of_char c :: nat) \<le> 57"

fun digits_value :: "nat \<Rightarrow> string \<Rightarrow> nat" where
  "digits_value acc [] = acc"
| "digits_value acc (c # cs) =
     (if is_digit c then digits_value (10 * acc + (of_char c - 48)) cs else acc)"

definition strtol :: "string \<Rightarrow> int" where
  "strtol s =
     (let t = dropWhile (\<lambda>c. c \<in> {CHR '' '', CHR 0x09, CHR 0x0A, CHR 0x0B, CHR 0x0C, CHR 0x0D}) s
      in if t \<noteq> [] \<and> hd t = CHR ''-'' then max (- (2 ^ 63)) (- int (digits_value 0 (tl t)))
         else if t \<noteq> [] \<and> hd t = CHR ''+'' then min (2 ^ 63 - 1) (int (digits_value 0 (tl t)))
         else min (2 ^ 63 - 1) (int (digits_value 0 t)))"

definition atoi :: "string \<Rightarrow> u32" where
  "atoi s = word_of_int (strtol s)"

lemma is_digit_char_of: "(n :: nat) < 10 \<Longrightarrow> is_digit (char_of (48 + n))"
  by (simp add: is_digit_def)

lemma dec_nat_digits: "c \<in> set (dec_nat n) \<Longrightarrow> is_digit c"
  by (induction n rule: dec_nat.induct) (subst (asm) (2) dec_nat.simps, auto simp: is_digit_char_of split: if_splits)

lemma dec_nat_not_Nil [simp]: "dec_nat n \<noteq> []"
  by (subst dec_nat.simps) simp

lemma digits_value_snoc:
  "(\<And>c. c \<in> set xs \<Longrightarrow> is_digit c) \<Longrightarrow> is_digit d \<Longrightarrow>
   digits_value acc (xs @ [d]) = 10 * digits_value acc xs + (of_char d - 48)"
  by (induction xs arbitrary: acc) auto

lemma digits_value_dec_nat: "digits_value 0 (dec_nat n) = n"
proof (induction n rule: dec_nat.induct)
  case (1 n)
  show ?case
  proof (cases "n < 10")
    case True
    then show ?thesis by (subst dec_nat.simps) (simp add: is_digit_char_of)
  next
    case False
    have "digits_value 0 (dec_nat (n div 10) @ [char_of (48 + n mod 10)]) = 10 * (n div 10) + n mod 10"
      using False 1 by (subst digits_value_snoc) (simp_all add: dec_nat_digits is_digit_char_of)
    then show ?thesis using False by (subst dec_nat.simps) simp
  qed
qed

lemma digits_value_stop:
  "(\<And>c. c \<in> set xs \<Longrightarrow> is_digit c) \<Longrightarrow> rest = [] \<or> \<not> is_digit (hd rest) \<Longrightarrow>
   digits_value acc (xs @ rest) = digits_value acc xs"
  by (induction xs arbitrary: acc) (auto, cases rest, auto)

lemma digit_not_special:
  "is_digit c \<Longrightarrow> c \<noteq> CHR ''-'' \<and> c \<noteq> CHR ''+'' \<and> c \<notin> {CHR '' '', CHR 0x09, CHR 0x0A, CHR 0x0B, CHR 0x0C, CHR 0x0D}"
  by (auto simp: is_digit_def)

lemma strtol_dec_nat:
  assumes "n < 2 ^ 63" "rest = [] \<or> \<not> is_digit (hd rest)"
  shows "strtol (dec_nat n @ rest) = int n"
proof -
  obtain c cs where c: "dec_nat n = c # cs" by (cases "dec_nat n") auto
  then have d: "is_digit c" using dec_nat_digits [of c n] by simp
  have v: "digits_value 0 (dec_nat n @ rest) = n"
    using digits_value_stop [of "dec_nat n" rest 0] assms(2) by (simp add: dec_nat_digits digits_value_dec_nat)
  have "dropWhile (\<lambda>c. c \<in> {CHR '' '', CHR 0x09, CHR 0x0A, CHR 0x0B, CHR 0x0C, CHR 0x0D}) (dec_nat n @ rest)
      = dec_nat n @ rest"
    using digit_not_special [OF d] by (simp add: c)
  then show ?thesis
    using digit_not_special [OF d] v assms(1) by (simp add: strtol_def Let_def c)
qed

lemma atoi_dec_int:
  assumes "0 \<le> i" "i < 2 ^ 31"
  shows "sint (atoi (dec_int i)) = i" "unat (atoi (dec_int i)) = nat i"
proof -
  have "strtol (dec_int i) = i"
    using strtol_dec_nat [of "nat i" "[]"] assms by (simp add: dec_int_def)
  then have a: "atoi (dec_int i) = word_of_int i" by (simp add: atoi_def)
  show "sint (atoi (dec_int i)) = i"
    using assms by (simp add: a signed_of_int signed_take_bit_int_eq_self)
  have "uint (word_of_int i :: u32) = i" using assms by (subst uint_word_of_int) simp
  then show "unat (atoi (dec_int i)) = nat i" by (metis a unat_eq_nat_uint)
qed

lemma dec_int_inject:
  assumes "0 \<le> i" "i < 2 ^ 31" "0 \<le> j" "j < 2 ^ 31"
  shows "dec_int i = dec_int j \<longleftrightarrow> i = j"
  using atoi_dec_int [OF assms(1,2)] atoi_dec_int [OF assms(3,4)] by metis

text \<open>\<open>strcmp\<close> on \<open>NUL\<close>-free strings: negative exactly when the first is smaller.\<close>

fun strcmp_less :: "string \<Rightarrow> string \<Rightarrow> bool" where
  "strcmp_less [] [] = False"
| "strcmp_less [] (y # ys) = True"
| "strcmp_less (x # xs) [] = False"
| "strcmp_less (x # xs) (y # ys) =
     (if x = y then strcmp_less xs ys else (of_char x :: nat) < of_char y)"

text \<open>The tokens that repeated calls of \<open>strtok\<close> with a single delimiter deliver.\<close>

fun strtok_words :: "char \<Rightarrow> string \<Rightarrow> string \<Rightarrow> string list" where
  "strtok_words d acc [] = (if acc = [] then [] else [acc])"
| "strtok_words d acc (c # cs) =
     (if c = d then (if acc = [] then strtok_words d [] cs else acc # strtok_words d [] cs)
      else strtok_words d (acc @ [c]) cs)"

lemma strtok_words_token:
  "(\<And>c. c \<in> set t \<Longrightarrow> c \<noteq> d) \<Longrightarrow> strtok_words d acc (t @ r) = strtok_words d (acc @ t) r"
  by (induction t arbitrary: acc) auto

text \<open>Division of \<open>int\<close>s truncates towards zero.\<close>

definition c_div :: "int \<Rightarrow> int \<Rightarrow> int" where
  "c_div x y = sgn x * sgn y * (\<bar>x\<bar> div \<bar>y\<bar>)"

lemma c_div_nonneg: "0 \<le> x \<Longrightarrow> 0 < y \<Longrightarrow> c_div x y = x div y"
  by (cases "x = 0") (simp_all add: c_div_def)

definition int_ok :: "int \<Rightarrow> bool" where
  "int_ok x \<longleftrightarrow> - (2 ^ 31) \<le> x \<and> x < 2 ^ 31"

end
