(* ===== verification/Commons.thy ===== *)
theory Commons
  imports Prelude
begin

text \<open>
  The part of the so-commons library the program calls on its linked lists
  (\<open>commons/collections/list.h\<close>).  The library is not part of the repository, so its operations
  are a parameter: a record \<open>t_list_ops\<close> that every definition using a list takes as an argument.
  A \<open>t_list *\<close> holding elements owned by the list is represented by the sequence of its elements,
  and the field \<open>elements_count\<close> the code reads directly by the length of that sequence.  The
  locale \<open>t_list_laws\<close> states the documented behaviour the code relies on: \<open>list_add\<close> appends at
  the end, \<open>list_get\<close> returns the element at an index of the list, \<open>list_remove\<close> takes the element
  at an index of the list out of it.  Nothing is said about an index outside the list.

  \<open>list_search\<close> is the search loop the code writes again and again over such a list; inside the
  locale it is shown to find the first element that satisfies the test.
\<close>

record 'a t_list_ops =
  list_add :: "'a list \<Rightarrow> 'a \<Rightarrow> 'a list"
  list_get :: "'a list \<Rightarrow> nat \<Rightarrow> 'a"
  list_remove :: "'a list \<Rightarrow> nat \<Rightarrow> 'a \<times> 'a list"

definition remove_at :: "nat \<Rightarrow> 'a list \<Rightarrow> 'a list" where
  "remove_at i l = take i l @ drop (Suc i) l"

lemma length_remove_at [simp]: "i < length l \<Longrightarrow> length (remove_at i l) = length l - 1"
  by (simp add: remove_at_def)

lemma set_remove_at_subset: "set (remove_at i l) \<subseteq> set l"
  using set_take_subset [of i l] set_drop_subset [of "Suc i" l] by (auto simp: remove_at_def)

lemma distinct_remove_at: "distinct l \<Longrightarrow> distinct (remove_at i l)"
  by (auto simp: remove_at_def set_take_disj_set_drop_if_distinct)

lemma distinct_map_remove_at: "distinct (map f l) \<Longrightarrow> distinct (map f (remove_at i l))"
  using distinct_remove_at [of "map f l" i] by (simp add: remove_at_def take_map drop_map)

lemma set_remove_at_distinct:
  assumes "distinct l" "i < length l"
  shows "set (remove_at i l) = set l - {l ! i}"
proof -
  have l: "l = take i l @ l ! i # drop (Suc i) l"
    using assms(2) by (rule id_take_nth_drop)
  then have "set l = set (remove_at i l) \<union> {l ! i}"
    by (metis remove_at_def set_append list.simps(15) Un_insert_right insert_is_Un sup_commute
        sup_bot_right sup_assoc)
  moreover have "l ! i \<notin> set (remove_at i l)"
    using assms l by (metis distinct.simps(2) distinct_append disjoint_insert(1) list.simps(15)
        remove_at_def set_append Un_iff)
  ultimately show ?thesis by auto
qed

lemma remove_at_split: "remove_at (length xs) (xs @ y # ys) = xs @ ys"
  by (simp add: remove_at_def)

function list_search :: "'a t_list_ops \<Rightarrow> ('a \<Rightarrow> bool) \<Rightarrow> 'a list \<Rightarrow> nat \<Rightarrow> nat option" where
  "list_search L P l index =
     (if index < length l then
        if P (list_get L l index) then Some index else list_search L P l (Suc index)
      else None)"
  by pat_completeness auto
termination
  by (relation "measure (\<lambda>(L, P, l, index). length l - index)") auto

declare list_search.simps [simp del]

text \<open>The first position of a list that satisfies a predicate: the reference of the loop.\<close>

fun find_index :: "('a \<Rightarrow> bool) \<Rightarrow> 'a list \<Rightarrow> nat option" where
  "find_index P [] = None"
| "find_index P (x # xs) = (if P x then Some 0 else map_option Suc (find_index P xs))"

lemma find_index_Some_iff:
  "find_index P l = Some i \<longleftrightarrow> i < length l \<and> P (l ! i) \<and> (\<forall>j < i. \<not> P (l ! j))"
proof (induction l arbitrary: i)
  case Nil
  show ?case by simp
next
  case (Cons x xs)
  show ?case
  proof (cases i)
    case 0
    then show ?thesis by (auto split: option.splits)
  next
    case (Suc k)
    with Cons.IH [of k] show ?thesis by (auto simp: All_less_Suc2)
  qed
qed

lemma find_index_None_iff: "find_index P l = None \<longleftrightarrow> (\<forall>x \<in> set l. \<not> P x)"
  by (induction l) auto

lemma find_index_SomeD:
  assumes "find_index P l = Some i"
  shows "i < length l" "P (l ! i)" "l ! i \<in> set l"
  using assms by (auto simp: find_index_Some_iff)

lemma find_index_drop:
  "i \<le> length l \<Longrightarrow>
   map_option ((+) i) (find_index P (drop i l)) =
     (if i < length l \<and> P (l ! i) then Some i
      else if i < length l then map_option ((+) (Suc i)) (find_index P (drop (Suc i) l)) else None)"
  by (cases "i < length l") (auto simp: Cons_nth_drop_Suc [symmetric] option.map_comp o_def plus_nat.simps fun_eq_iff cong: option.map_cong)

locale t_list_laws =
  fixes L :: "'a t_list_ops"
  assumes list_add: "list_add L l x = l @ [x]"
    and list_get: "i < length l \<Longrightarrow> list_get L l i = l ! i"
    and list_remove: "i < length l \<Longrightarrow> list_remove L l i = (l ! i, remove_at i l)"
begin

lemma list_search_from:
  "i \<le> length l \<Longrightarrow> list_search L P l i = map_option ((+) i) (find_index P (drop i l))"
proof (induction "length l - i" arbitrary: i)
  case 0
  then show ?case by (simp add: list_search.simps)
next
  case (Suc n)
  then have i: "i < length l" and "n = length l - Suc i" by auto
  with Suc.hyps(1) [of "Suc i"]
  have "list_search L P l (Suc i) = map_option ((+) (Suc i)) (find_index P (drop (Suc i) l))"
    by simp
  with i find_index_drop [of i l P] show ?case
    by (simp add: list_search.simps [of L P l i] list_get)
qed

lemma list_search_eq [simp]: "list_search L P l 0 = find_index P l"
  by (cases "find_index P l") (simp_all add: list_search_from)

lemma list_remove_found:
  "find_index P l = Some i \<Longrightarrow> list_remove L l i = (l ! i, remove_at i l)"
  by (rule list_remove) (rule find_index_SomeD)

lemma list_get_found: "find_index P l = Some i \<Longrightarrow> list_get L l i = l ! i"
  by (rule list_get) (rule find_index_SomeD)

end

text \<open>
  Functions with exactly the documented behaviour exist: the sequence operations of HOL.  They
  instantiate the parameter in the witnesses.
\<close>

definition seq_list_ops :: "'a t_list_ops" where
  "seq_list_ops = \<lparr>list_add = (\<lambda>l x. l @ [x]), list_get = (!), list_remove = (\<lambda>l i. (l ! i, remove_at i l))\<rparr>"

interpretation seq_ops: t_list_laws seq_list_ops
  by unfold_locales (simp_all add: seq_list_ops_def)

end
