(* ===== verification/Sockets.thy ===== *)
theory Sockets
  imports Commons
begin

text \<open>
  The socket wrappers of \<open>shared-library/socket.c\<close>.  A connected socket is the sequence of bytes
  its peer has still to deliver before it closes the connection (\<open>sk_in\<close>) and the sequence of
  bytes sent so far (\<open>sk_out\<close>); a stream socket keeps order and loses nothing.
  \<open>socket_recv\<close> is \<open>recv\<close> with \<open>MSG_WAITALL\<close>: it blocks until the whole amount has arrived or the
  peer closes, so it delivers the requested bytes, or fewer when the stream ends first, and
  nothing (return value 0) when the stream has ended.  Requested sizes are below \<open>2^31\<close>.

  A receive that stops short fills only the front of its destination.  The destination of every
  receive of the program is fresh storage (a \<open>malloc\<close>ed object or an uninitialised local), whose
  content C leaves indeterminate: it is the parameter \<open>junk\<close>, the byte found at each offset of
  such storage.
\<close>

record sock =
  sk_in :: "byte list"
  sk_out :: "byte list"

type_synonym storage = "nat \<Rightarrow> byte"

definition socket_send :: "byte list \<Rightarrow> sock \<Rightarrow> sock" where
  "socket_send buffer s = s\<lparr>sk_out := sk_out s @ buffer\<rparr>"

definition socket_write :: "byte list \<Rightarrow> sock \<Rightarrow> sock" where
  "socket_write response s = s\<lparr>sk_out := sk_out s @ response\<rparr>"

definition socket_recv :: "nat \<Rightarrow> sock \<Rightarrow> byte list \<times> sock" where
  "socket_recv buffer_size s = (take buffer_size (sk_in s), s\<lparr>sk_in := drop buffer_size (sk_in s)\<rparr>)"

text \<open>
  Receiving into fresh storage of \<open>n\<close> bytes and testing \<open>received_bytes <= 0\<close>: \<open>None\<close> when the
  test succeeds, otherwise the content of the storage afterwards.
\<close>

definition recv_storage :: "storage \<Rightarrow> nat \<Rightarrow> sock \<Rightarrow> byte list option \<times> sock" where
  "recv_storage junk n s =
     (case socket_recv n s of
        (got, s') \<Rightarrow> if got = [] then (None, s') else (Some (got @ map junk [length got..<n]), s'))"

definition junk_bytes :: "storage \<Rightarrow> nat \<Rightarrow> byte list" where
  "junk_bytes junk n = map junk [0..<n]"

lemma recv_storage_full [simp]:
  "sk_in s = bs @ rest \<Longrightarrow> length bs = n \<Longrightarrow> bs \<noteq> [] \<Longrightarrow>
   recv_storage junk n s = (Some bs, s\<lparr>sk_in := rest\<rparr>)"
  by (auto simp: recv_storage_def socket_recv_def)

lemma recv_storage_closed [simp]:
  "sk_in s = [] \<Longrightarrow> recv_storage junk n s = (None, s)"
  by (simp add: recv_storage_def socket_recv_def)

lemma recv_storage_short:
  "sk_in s = bs \<Longrightarrow> bs \<noteq> [] \<Longrightarrow> length bs < n \<Longrightarrow>
   recv_storage junk n s = (Some (bs @ map junk [length bs..<n]), s\<lparr>sk_in := []\<rparr>)"
  by (simp add: recv_storage_def socket_recv_def)

lemma recv_storage_in: "recv_storage junk n s = (r, s') \<Longrightarrow> sk_in s' = drop n (sk_in s)"
  by (auto simp: recv_storage_def socket_recv_def split: if_splits)

lemma recv_storage_out: "recv_storage junk n s = (r, s') \<Longrightarrow> sk_out s' = sk_out s"
  by (auto simp: recv_storage_def socket_recv_def split: if_splits)

lemma recv_storage_None_iff:
  "recv_storage junk n s = (None, s') \<longleftrightarrow> (n = 0 \<or> sk_in s = []) \<and> s' = s"
  by (auto simp: recv_storage_def socket_recv_def split: if_splits)

lemma recv_storage_length: "recv_storage junk n s = (Some bs, s') \<Longrightarrow> length bs = n"
  by (auto simp: recv_storage_def socket_recv_def split: if_splits)

lemma recv_storage_progress:
  "recv_storage junk n s = (Some bs, s') \<Longrightarrow> length (sk_in s') < length (sk_in s)"
  by (auto simp: recv_storage_def socket_recv_def split: if_splits)

text \<open>
  The input of a socket only shrinks, by dropping a prefix: what every receiving routine keeps.
\<close>

definition consumes :: "sock \<Rightarrow> sock \<Rightarrow> bool" where
  "consumes s s' \<longleftrightarrow> (\<exists>n. sk_in s' = drop n (sk_in s)) \<and> sk_out s' = sk_out s"

lemma consumes_refl [simp]: "consumes s s"
  by (auto simp: consumes_def intro: exI [of _ 0])

lemma consumes_trans: "consumes s s' \<Longrightarrow> consumes s' s'' \<Longrightarrow> consumes s s''"
  by (auto simp: consumes_def)

lemma consumes_recv: "recv_storage junk n s = (r, s') \<Longrightarrow> consumes s s'"
  by (auto simp: consumes_def dest: recv_storage_in recv_storage_out)

lemma consumes_length: "consumes s s' \<Longrightarrow> length (sk_in s') \<le> length (sk_in s)"
  by (auto simp: consumes_def)

text \<open>A handler reads some of the input and appends to the output.\<close>

definition advances :: "sock \<Rightarrow> sock \<Rightarrow> bool" where
  "advances s s' \<longleftrightarrow> (\<exists>n. sk_in s' = drop n (sk_in s)) \<and> (\<exists>a. sk_out s' = sk_out s @ a)"

lemma advances_write [simp]: "consumes s s' \<Longrightarrow> advances s (socket_write bs s')"
  by (auto simp: consumes_def advances_def socket_write_def)

lemma advances_consumes [simp]: "consumes s s' \<Longrightarrow> advances s s'"
  by (auto simp: consumes_def advances_def)

lemma advances_refl [simp]: "advances s s"
  by (auto simp: advances_def intro: exI [of _ 0])

lemma advances_length: "advances s s' \<Longrightarrow> length (sk_in s') \<le> length (sk_in s)"
  by (auto simp: advances_def)

end
