(* ===== verification/Memory_Prot.thy ===== *)
theory Memory_Prot
  imports Sockets
begin

text \<open>
  The memory protocol of \<open>shared-library/memory_prot.h\<close> and \<open>memory_prot.c\<close>: the request structures,
  for every operation the client call (it sends one request and waits for the answer), the
  server-side parser of the request and the server-side answer.  A \<open>pid\<close>, \<open>page\<close>, \<open>offset\<close> or
  \<open>size\<close> is a 32-bit word; \<open>sint\<close> reads it as the \<open>int\<close> of a parameter, \<open>unat\<close> as the \<open>uint32_t\<close>
  of a structure.  Return codes are integers.  A call whose \<open>memcpy\<close> would read past its buffer is
  \<open>None\<close>.  Logging is left out.

  The lemmas show that the parser of each operation recovers the fields the client call sent and
  leaves the rest of the stream alone, that the codes survive the two-byte answer, and what the
  parsers do with a stream that ends early.
\<close>

section \<open>Constants\<close>

definition HANDSHAKE_OC :: int where [source_consts]: "HANDSHAKE_OC = 1"
definition INIT_PROCESS_OC :: int where [source_consts]: "INIT_PROCESS_OC = 2"
definition ASSIGN_PAGE_OC :: int where [source_consts]: "ASSIGN_PAGE_OC = 3"
definition DELETE_PAGE_OC :: int where [source_consts]: "DELETE_PAGE_OC = 4"
definition READ_OC :: int where [source_consts]: "READ_OC = 5"
definition WRITE_OC :: int where [source_consts]: "WRITE_OC = 6"
definition END_PROCESS_OC :: int where [source_consts]: "END_PROCESS_OC = 7"

definition SUCCESS :: int where [source_consts]: "SUCCESS = 1"
definition DISCONNECTED_CLIENT :: int where [source_consts]: "DISCONNECTED_CLIENT = -201"
definition DISCONNECTED_SERVER :: int where [source_consts]: "DISCONNECTED_SERVER = -202"
definition ENOSPC :: int where [source_consts]: "ENOSPC = -203"
definition OUT_OF_FRAME :: int where [source_consts]: "OUT_OF_FRAME = -204"
definition PAGE_FAULT :: int where [source_consts]: "PAGE_FAULT = -205"
definition SEGMENTATION_FAULT :: int where [source_consts]: "SEGMENTATION_FAULT = -206"
definition UNDEFINED_STACK_SIZE :: int where [source_consts]: "UNDEFINED_STACK_SIZE = -207"

text \<open>The byte that carries an operation code, and the codes a two-byte answer carries.\<close>

definition oc_byte :: "int \<Rightarrow> byte" where
  "oc_byte oc = word_of_int oc"

definition junk_u32 :: "storage \<Rightarrow> u32" where
  "junk_u32 junk = bytes_u32 (junk_bytes junk 4)"

definition recv_u32 :: "storage \<Rightarrow> sock \<Rightarrow> u32 option \<times> sock" where
  "recv_u32 junk s = (case recv_storage junk 4 s of (r, s') \<Rightarrow> (map_option bytes_u32 r, s'))"

lemma recv_u32_word [simp]:
  "sk_in s = u32_bytes w @ rest \<Longrightarrow> recv_u32 junk s = (Some w, s\<lparr>sk_in := rest\<rparr>)"
  by (simp add: recv_u32_def)

lemma recv_u32_closed [simp]: "sk_in s = [] \<Longrightarrow> recv_u32 junk s = (None, s)"
  by (simp add: recv_u32_def)

lemma consumes_recv_u32: "recv_u32 junk s = (r, s') \<Longrightarrow> consumes s s'"
  by (auto simp: recv_u32_def split: prod.splits dest: consumes_recv)

section \<open>Operation code\<close>

definition recv_operation_code :: "storage \<Rightarrow> sock \<Rightarrow> int \<times> sock" where
  "recv_operation_code junk s =
     (case recv_storage junk 1 s of
        (None, s') \<Rightarrow> (DISCONNECTED_CLIENT, s')
      | (Some bs, s') \<Rightarrow> (int (unat (hd bs)), s'))"

lemma recv_operation_code_progress:
  "recv_operation_code junk s = (oc, s') \<Longrightarrow> oc \<noteq> DISCONNECTED_CLIENT \<Longrightarrow> length (sk_in s') < length (sk_in s)"
  by (auto simp: recv_operation_code_def split: prod.splits option.splits dest: recv_storage_progress)

section \<open>Handshake\<close>

record t_handshake_request =
  hs_exec_code :: int
  hs_type :: byte
  hs_stack_size :: u8

definition handshake :: "storage \<Rightarrow> byte \<Rightarrow> u32 \<Rightarrow> sock \<Rightarrow> int \<times> sock" where
  "handshake junk type stack_size s =
     (if type = of_char CHR ''k'' \<and> \<not> (stack_size \<noteq> 0 \<and> 0 < sint stack_size)
      then (UNDEFINED_STACK_SIZE, s)
      else
        (let request = [oc_byte HANDSHAKE_OC, type] @
                       (if type = of_char CHR ''k'' then [ucast stack_size] else []);
             s1 = socket_send request s
         in case recv_u32 junk s1 of
              (None, s2) \<Rightarrow> (DISCONNECTED_SERVER, s2)
            | (Some memory_size, s2) \<Rightarrow> (sint memory_size, s2)))"

definition handshake_recv_req :: "storage \<Rightarrow> sock \<Rightarrow> t_handshake_request \<times> sock" where
  "handshake_recv_req junk s =
     (let request = \<lparr>hs_exec_code = 0, hs_type = junk 0, hs_stack_size = junk 0\<rparr>
      in case recv_storage junk 1 s of
           (None, s1) \<Rightarrow> (request\<lparr>hs_exec_code := DISCONNECTED_CLIENT\<rparr>, s1)
         | (Some t, s1) \<Rightarrow>
             (let request = request\<lparr>hs_type := hd t\<rparr>
              in if hs_type request = of_char CHR ''k'' then
                   (case recv_storage junk 1 s1 of
                      (None, s2) \<Rightarrow> (request\<lparr>hs_exec_code := DISCONNECTED_CLIENT\<rparr>, s2)
                    | (Some k, s2) \<Rightarrow>
                        (request\<lparr>hs_stack_size := hd k, hs_exec_code := SUCCESS\<rparr>, s2))
                 else (request\<lparr>hs_stack_size := 0, hs_exec_code := SUCCESS\<rparr>, s1)))"

definition handshake_resp :: "u32 \<Rightarrow> sock \<Rightarrow> sock" where
  "handshake_resp memory_size s = socket_write (u32_bytes memory_size) s"

section \<open>Answers that are one code\<close>

text \<open>
  The client side of every one-code answer: two bytes read as an \<open>int16_t\<close>.
\<close>

definition recv_code :: "storage \<Rightarrow> sock \<Rightarrow> int \<times> sock" where
  "recv_code junk s =
     (case recv_storage junk 2 s of
        (None, s') \<Rightarrow> (DISCONNECTED_SERVER, s')
      | (Some bs, s') \<Rightarrow> (bytes_i16 bs, s'))"

section \<open>Init process\<close>

record t_init_process_request =
  ip_exec_code :: int
  ip_pid :: u32
  ip_pages :: u32

definition memory_init_process :: "storage \<Rightarrow> u32 \<Rightarrow> u32 \<Rightarrow> sock \<Rightarrow> int \<times> sock" where
  "memory_init_process junk pid pages s =
     (let request = [oc_byte INIT_PROCESS_OC] @ u32_bytes pid @ u32_bytes pages
      in recv_code junk (socket_send request s))"

definition init_process_recv_req :: "storage \<Rightarrow> sock \<Rightarrow> t_init_process_request \<times> sock" where
  "init_process_recv_req junk s =
     (let request = \<lparr>ip_exec_code = 0, ip_pid = junk_u32 junk, ip_pages = junk_u32 junk\<rparr>
      in case recv_u32 junk s of
           (None, s1) \<Rightarrow> (request\<lparr>ip_exec_code := DISCONNECTED_CLIENT\<rparr>, s1)
         | (Some p, s1) \<Rightarrow>
             (let request = request\<lparr>ip_pid := p\<rparr>
              in case recv_u32 junk s1 of
                   (None, s2) \<Rightarrow> (request\<lparr>ip_exec_code := DISCONNECTED_CLIENT\<rparr>, s2)
                 | (Some n, s2) \<Rightarrow> (request\<lparr>ip_pages := n, ip_exec_code := SUCCESS\<rparr>, s2)))"

definition init_process_send_resp :: "int \<Rightarrow> sock \<Rightarrow> sock" where
  "init_process_send_resp resp_code s = socket_write (code_bytes resp_code) s"

section \<open>Write\<close>

record t_write_request =
  wr_exec_code :: int
  wr_pid :: u32
  wr_page :: u32
  wr_offset :: u32
  wr_size :: u32
  wr_buffer :: "byte list"

definition memory_write ::
    "storage \<Rightarrow> u32 \<Rightarrow> u32 \<Rightarrow> u32 \<Rightarrow> u32 \<Rightarrow> u32 \<Rightarrow> byte list \<Rightarrow> sock \<Rightarrow> (int \<times> sock) option" where
  "memory_write junk pid page offset sz buffer_size buffer s =
     (if length buffer < unat buffer_size then None
      else
        (let request = [oc_byte WRITE_OC] @ u32_bytes pid @ u32_bytes page @ u32_bytes offset
                       @ u32_bytes sz @ u32_bytes buffer_size @ take (unat buffer_size) buffer
         in Some (recv_code junk (socket_send request s))))"

definition write_recv_req :: "storage \<Rightarrow> sock \<Rightarrow> t_write_request \<times> sock" where
  "write_recv_req junk s =
     (let request = \<lparr>wr_exec_code = 0, wr_pid = junk_u32 junk, wr_page = junk_u32 junk,
                      wr_offset = junk_u32 junk, wr_size = junk_u32 junk, wr_buffer = []\<rparr>
      in case recv_u32 junk s of
        (None, s1) \<Rightarrow> (request\<lparr>wr_exec_code := DISCONNECTED_CLIENT\<rparr>, s1)
      | (Some pid, s1) \<Rightarrow> (let request = request\<lparr>wr_pid := pid\<rparr> in case recv_u32 junk s1 of
        (None, s2) \<Rightarrow> (request\<lparr>wr_exec_code := DISCONNECTED_CLIENT\<rparr>, s2)
      | (Some page, s2) \<Rightarrow> (let request = request\<lparr>wr_page := page\<rparr> in case recv_u32 junk s2 of
        (None, s3) \<Rightarrow> (request\<lparr>wr_exec_code := DISCONNECTED_CLIENT\<rparr>, s3)
      | (Some offset, s3) \<Rightarrow> (let request = request\<lparr>wr_offset := offset\<rparr> in case recv_u32 junk s3 of
        (None, s4) \<Rightarrow> (request\<lparr>wr_exec_code := DISCONNECTED_CLIENT\<rparr>, s4)
      | (Some sz, s4) \<Rightarrow> (let request = request\<lparr>wr_size := sz\<rparr> in case recv_u32 junk s4 of
        (None, s5) \<Rightarrow> (request\<lparr>wr_exec_code := DISCONNECTED_CLIENT\<rparr>, s5)
      | (Some buffer_size, s5) \<Rightarrow>
          (let request = request\<lparr>wr_buffer := junk_bytes junk (unat buffer_size)\<rparr>
           in case recv_storage junk (unat buffer_size) s5 of
        (None, s6) \<Rightarrow> (request\<lparr>wr_exec_code := DISCONNECTED_CLIENT\<rparr>, s6)
      | (Some buffer, s6) \<Rightarrow>
          (request\<lparr>wr_buffer := buffer, wr_exec_code := SUCCESS\<rparr>, s6)))))))"

definition write_send_resp :: "int \<Rightarrow> sock \<Rightarrow> sock" where
  "write_send_resp resp_code s = socket_write (code_bytes resp_code) s"

section \<open>Read\<close>

record t_read_request =
  rd_exec_code :: int
  rd_pid :: u32
  rd_page :: u32
  rd_offset :: u32
  rd_size :: u32

text \<open>\<open>rr_buffer\<close> is \<open>None\<close> while the pointer \<open>buffer\<close> has not been assigned.\<close>

record t_read_response =
  rr_exec_code :: int
  rr_buffer_size :: u32
  rr_buffer :: "byte list option"

definition memory_read ::
    "storage \<Rightarrow> u32 \<Rightarrow> u32 \<Rightarrow> u32 \<Rightarrow> u32 \<Rightarrow> sock \<Rightarrow> t_read_response \<times> sock" where
  "memory_read junk pid page offset sz s =
     (let request = [oc_byte READ_OC] @ u32_bytes pid @ u32_bytes page @ u32_bytes offset
                    @ u32_bytes sz;
          s0 = socket_send request s;
          response = \<lparr>rr_exec_code = 0, rr_buffer_size = junk_u32 junk, rr_buffer = None\<rparr>
      in case recv_storage junk 2 s0 of
        (None, s1) \<Rightarrow> (response\<lparr>rr_exec_code := DISCONNECTED_SERVER\<rparr>, s1)
      | (Some code, s1) \<Rightarrow> (let response = response\<lparr>rr_exec_code := bytes_i16 code\<rparr>
          in case recv_u32 junk s1 of
        (None, s2) \<Rightarrow> (response\<lparr>rr_exec_code := DISCONNECTED_SERVER\<rparr>, s2)
      | (Some buffer_size, s2) \<Rightarrow> (let response = response\<lparr>rr_buffer_size := buffer_size\<rparr>
          in if 0 < unat buffer_size then
               (let response = response\<lparr>rr_buffer := Some (junk_bytes junk (unat buffer_size))\<rparr>
                in case recv_storage junk (unat buffer_size) s2 of
                     (None, s3) \<Rightarrow> (response\<lparr>rr_exec_code := DISCONNECTED_SERVER\<rparr>, s3)
                   | (Some buffer, s3) \<Rightarrow> (response\<lparr>rr_buffer := Some buffer\<rparr>, s3))
             else (response, s2))))"

definition read_recv_req :: "storage \<Rightarrow> sock \<Rightarrow> t_read_request \<times> sock" where
  "read_recv_req junk s =
     (let request = \<lparr>rd_exec_code = 0, rd_pid = junk_u32 junk, rd_page = junk_u32 junk,
                      rd_offset = junk_u32 junk, rd_size = junk_u32 junk\<rparr>
      in case recv_u32 junk s of
        (None, s1) \<Rightarrow> (request\<lparr>rd_exec_code := DISCONNECTED_CLIENT\<rparr>, s1)
      | (Some pid, s1) \<Rightarrow> (let request = request\<lparr>rd_pid := pid\<rparr> in case recv_u32 junk s1 of
        (None, s2) \<Rightarrow> (request\<lparr>rd_exec_code := DISCONNECTED_CLIENT\<rparr>, s2)
      | (Some page, s2) \<Rightarrow> (let request = request\<lparr>rd_page := page\<rparr> in case recv_u32 junk s2 of
        (None, s3) \<Rightarrow> (request\<lparr>rd_exec_code := DISCONNECTED_CLIENT\<rparr>, s3)
      | (Some offset, s3) \<Rightarrow> (let request = request\<lparr>rd_offset := offset\<rparr> in case recv_u32 junk s3 of
        (None, s4) \<Rightarrow> (request\<lparr>rd_exec_code := DISCONNECTED_CLIENT\<rparr>, s4)
      | (Some sz, s4) \<Rightarrow> (request\<lparr>rd_size := sz, rd_exec_code := SUCCESS\<rparr>, s4)))))"

definition read_send_resp :: "int \<Rightarrow> u32 \<Rightarrow> byte list \<Rightarrow> sock \<Rightarrow> sock option" where
  "read_send_resp resp_code buffer_size buffer s =
     (if 0 < sint buffer_size \<and> length buffer < unat buffer_size then None
      else
        (let response = code_bytes resp_code @ u32_bytes buffer_size
                        @ (if 0 < sint buffer_size then take (unat buffer_size) buffer else [])
         in Some (socket_write response s)))"

section \<open>Assign pages\<close>

record t_assign_pages_request =
  ap_exec_code :: int
  ap_pid :: u32
  ap_pages :: u32

definition memory_assign_pages :: "storage \<Rightarrow> u32 \<Rightarrow> u32 \<Rightarrow> sock \<Rightarrow> int \<times> sock" where
  "memory_assign_pages junk pid pages s =
     (let request = [oc_byte ASSIGN_PAGE_OC] @ u32_bytes pid @ u32_bytes pages
      in recv_code junk (socket_send request s))"

definition assign_pages_recv_req :: "storage \<Rightarrow> sock \<Rightarrow> t_assign_pages_request \<times> sock" where
  "assign_pages_recv_req junk s =
     (let request = \<lparr>ap_exec_code = 0, ap_pid = junk_u32 junk, ap_pages = junk_u32 junk\<rparr>
      in case recv_u32 junk s of
           (None, s1) \<Rightarrow> (request\<lparr>ap_exec_code := DISCONNECTED_CLIENT\<rparr>, s1)
         | (Some p, s1) \<Rightarrow>
             (let request = request\<lparr>ap_pid := p\<rparr>
              in case recv_u32 junk s1 of
                   (None, s2) \<Rightarrow> (request\<lparr>ap_exec_code := DISCONNECTED_CLIENT\<rparr>, s2)
                 | (Some n, s2) \<Rightarrow> (request\<lparr>ap_pages := n, ap_exec_code := SUCCESS\<rparr>, s2)))"

definition assign_pages_send_resp :: "int \<Rightarrow> sock \<Rightarrow> sock" where
  "assign_pages_send_resp resp_code s = socket_write (code_bytes resp_code) s"

section \<open>Delete page\<close>

record t_delete_page_request =
  dp_exec_code :: int
  dp_pid :: u32
  dp_page :: u32

definition memory_delete_page :: "storage \<Rightarrow> u32 \<Rightarrow> u32 \<Rightarrow> sock \<Rightarrow> int \<times> sock" where
  "memory_delete_page junk pid page s =
     (let request = [oc_byte DELETE_PAGE_OC] @ u32_bytes pid @ u32_bytes page
      in recv_code junk (socket_send request s))"

definition delete_page_recv_req :: "storage \<Rightarrow> sock \<Rightarrow> t_delete_page_request \<times> sock" where
  "delete_page_recv_req junk s =
     (let request = \<lparr>dp_exec_code = 0, dp_pid = junk_u32 junk, dp_page = junk_u32 junk\<rparr>
      in case recv_u32 junk s of
           (None, s1) \<Rightarrow> (request\<lparr>dp_exec_code := DISCONNECTED_CLIENT\<rparr>, s1)
         | (Some p, s1) \<Rightarrow>
             (let request = request\<lparr>dp_pid := p\<rparr>
              in case recv_u32 junk s1 of
                   (None, s2) \<Rightarrow> (request\<lparr>dp_exec_code := DISCONNECTED_CLIENT\<rparr>, s2)
                 | (Some n, s2) \<Rightarrow> (request\<lparr>dp_page := n, dp_exec_code := SUCCESS\<rparr>, s2)))"

definition delete_page_send_resp :: "int \<Rightarrow> sock \<Rightarrow> sock" where
  "delete_page_send_resp resp_code s = socket_write (code_bytes resp_code) s"

section \<open>Finalize process\<close>

record t_finalize_process_request =
  fp_exec_code :: int
  fp_pid :: u32

text \<open>Unlike the other calls, the two bytes of the answer are read as a \<open>uint16_t\<close>.\<close>

definition memory_finalize_process :: "storage \<Rightarrow> u32 \<Rightarrow> sock \<Rightarrow> int \<times> sock" where
  "memory_finalize_process junk pid s =
     (let request = [oc_byte END_PROCESS_OC] @ u32_bytes pid
      in case recv_storage junk 2 (socket_send request s) of
           (None, s') \<Rightarrow> (DISCONNECTED_SERVER, s')
         | (Some bs, s') \<Rightarrow> (int (unat (bytes_u16 bs)), s'))"

definition finalize_process_recv_req :: "storage \<Rightarrow> sock \<Rightarrow> t_finalize_process_request \<times> sock" where
  "finalize_process_recv_req junk s =
     (let request = \<lparr>fp_exec_code = 0, fp_pid = junk_u32 junk\<rparr>
      in case recv_u32 junk s of
           (None, s1) \<Rightarrow> (request\<lparr>fp_exec_code := DISCONNECTED_CLIENT\<rparr>, s1)
         | (Some p, s1) \<Rightarrow> (request\<lparr>fp_pid := p, fp_exec_code := SUCCESS\<rparr>, s1))"

definition finalize_process_send_resp :: "int \<Rightarrow> sock \<Rightarrow> sock" where
  "finalize_process_send_resp resp_code s = socket_write (code_bytes resp_code) s"

section \<open>The wire format of a request\<close>

text \<open>
  What client and server agree on for one operation: \<open>body\<close> gives the bytes the client sends after
  the operation code, \<open>parse\<close> is the server's parser and \<open>req\<close> the structure it must return.  The
  laws are that the parser recovers the structure from the body and touches nothing behind it, and
  that it only ever consumes input.
\<close>

locale wire_request =
  fixes body :: "'r \<Rightarrow> byte list"
    and valid :: "'r \<Rightarrow> bool"
    and parse :: "storage \<Rightarrow> sock \<Rightarrow> 'q \<times> sock"
    and req :: "'r \<Rightarrow> 'q"
  assumes parse_body: "valid r \<Longrightarrow> sk_in s = body r @ rest \<Longrightarrow> parse junk s = (req r, s\<lparr>sk_in := rest\<rparr>)"
    and parse_consumes: "parse junk s = (q, s') \<Longrightarrow> consumes s s'"
begin

lemma body_unambiguous:
  assumes "valid r" "valid r'" "body r @ rest = body r' @ rest'"
  shows "req r = req r' \<and> rest = rest'"
proof -
  define s where "s = \<lparr>sk_in = body r @ rest, sk_out = []\<rparr>"
  have "parse (\<lambda>_. 0) s = (req r, s\<lparr>sk_in := rest\<rparr>)"
    using assms(1) by (rule parse_body) (simp add: s_def)
  moreover have "parse (\<lambda>_. 0) s = (req r', s\<lparr>sk_in := rest'\<rparr>)"
    using assms(2) by (rule parse_body) (simp add: s_def assms(3))
  ultimately show ?thesis by (simp add: s_def)
qed

text \<open>A request behind its operation code, as the dispatch loop of a server reads it.\<close>

lemma recv_request:
  assumes "valid r" "sk_in s = b # body r @ rest"
  shows "recv_operation_code junk s = (int (unat b), s\<lparr>sk_in := body r @ rest\<rparr>)"
    and "parse junk (s\<lparr>sk_in := body r @ rest\<rparr>) = (req r, s\<lparr>sk_in := rest\<rparr>)"
proof -
  have "recv_storage junk 1 s = (Some [b], s\<lparr>sk_in := body r @ rest\<rparr>)"
    by (rule recv_storage_full) (simp_all add: assms(2))
  then show "recv_operation_code junk s = (int (unat b), s\<lparr>sk_in := body r @ rest\<rparr>)"
    by (simp add: recv_operation_code_def)
  show "parse junk (s\<lparr>sk_in := body r @ rest\<rparr>) = (req r, s\<lparr>sk_in := rest\<rparr>)"
    using parse_body [OF assms(1), of "s\<lparr>sk_in := body r @ rest\<rparr>" rest junk] by simp
qed

end

lemma recv_u32_eq_iff_None: "recv_u32 junk s = (None, s') \<longleftrightarrow> sk_in s = [] \<and> s' = s"
  by (auto simp: recv_u32_def split: prod.splits
      dest!: recv_storage_None_iff [THEN iffD1])

definition init_body :: "u32 \<times> u32 \<Rightarrow> byte list" where
  "init_body r = u32_bytes (fst r) @ u32_bytes (snd r)"

interpretation init_wire: wire_request init_body "\<lambda>_. True" init_process_recv_req
    "\<lambda>(p, n). \<lparr>ip_exec_code = SUCCESS, ip_pid = p, ip_pages = n\<rparr>"
  by unfold_locales
     (auto simp: init_body_def init_process_recv_req_def Let_def split: prod.splits option.splits
           dest!: consumes_recv_u32 intro: consumes_trans)

interpretation assign_wire: wire_request init_body "\<lambda>_. True" assign_pages_recv_req
    "\<lambda>(p, n). \<lparr>ap_exec_code = SUCCESS, ap_pid = p, ap_pages = n\<rparr>"
  by unfold_locales
     (auto simp: init_body_def assign_pages_recv_req_def Let_def split: prod.splits option.splits
           dest!: consumes_recv_u32 intro: consumes_trans)

interpretation delete_wire: wire_request init_body "\<lambda>_. True" delete_page_recv_req
    "\<lambda>(p, n). \<lparr>dp_exec_code = SUCCESS, dp_pid = p, dp_page = n\<rparr>"
  by unfold_locales
     (auto simp: init_body_def delete_page_recv_req_def Let_def split: prod.splits option.splits
           dest!: consumes_recv_u32 intro: consumes_trans)

interpretation finalize_wire: wire_request u32_bytes "\<lambda>_. True" finalize_process_recv_req
    "\<lambda>p. \<lparr>fp_exec_code = SUCCESS, fp_pid = p\<rparr>"
  by unfold_locales
     (auto simp: finalize_process_recv_req_def Let_def split: prod.splits option.splits
           dest!: consumes_recv_u32 intro: consumes_trans)

definition read_body :: "u32 \<times> u32 \<times> u32 \<times> u32 \<Rightarrow> byte list" where
  "read_body r = (case r of (pid, page, offset, sz) \<Rightarrow>
     u32_bytes pid @ u32_bytes page @ u32_bytes offset @ u32_bytes sz)"

definition write_body :: "u32 \<times> u32 \<times> u32 \<times> u32 \<times> byte list \<Rightarrow> byte list" where
  "write_body r = (case r of (pid, page, offset, sz, buffer) \<Rightarrow>
     u32_bytes pid @ u32_bytes page @ u32_bytes offset @ u32_bytes sz
     @ u32_bytes (word_of_nat (length buffer)) @ buffer)"

text \<open>An empty buffer cannot be sent: a receive of zero bytes is taken for a closed connection.\<close>

definition write_valid :: "u32 \<times> u32 \<times> u32 \<times> u32 \<times> byte list \<Rightarrow> bool" where
  "write_valid r = (case r of (pid, page, offset, sz, buffer) \<Rightarrow> buffer \<noteq> [] \<and> length buffer < 2 ^ 32)"

lemma read_parse_consumes: "read_recv_req junk s = (q, s') \<Longrightarrow> consumes s s'"
  by (auto simp: read_recv_req_def Let_def split: prod.splits option.splits
           dest!: consumes_recv_u32 intro: consumes_trans)

lemma write_parse_consumes: "write_recv_req junk s = (q, s') \<Longrightarrow> consumes s s'"
  by (auto simp: write_recv_req_def Let_def split: prod.splits option.splits
           dest!: consumes_recv_u32 consumes_recv intro: consumes_trans) (meson consumes_trans)+

interpretation read_wire: wire_request read_body "\<lambda>_. True" read_recv_req
    "\<lambda>(pid, page, offset, sz). \<lparr>rd_exec_code = SUCCESS, rd_pid = pid, rd_page = page,
       rd_offset = offset, rd_size = sz\<rparr>"
  by (unfold_locales; (erule read_parse_consumes | auto simp: read_body_def read_recv_req_def))

interpretation write_wire: wire_request write_body write_valid write_recv_req
    "\<lambda>(pid, page, offset, sz, buffer). \<lparr>wr_exec_code = SUCCESS, wr_pid = pid, wr_page = page,
       wr_offset = offset, wr_size = sz, wr_buffer = buffer\<rparr>"
  by (unfold_locales; (erule write_parse_consumes
        | auto simp: write_body_def write_valid_def write_recv_req_def unat_of_nat))

section \<open>Properties of the protocol\<close>

lemma recv_code_exchange:
  "- (2 ^ 15) \<le> c \<Longrightarrow> c < 2 ^ 15 \<Longrightarrow> sk_in s = code_bytes c @ rest \<Longrightarrow>
   recv_code junk s = (c, s\<lparr>sk_in := rest\<rparr>)"
  by (simp add: recv_code_def bytes_i16_code_bytes)

lemma oc_byte_code: "0 \<le> oc \<Longrightarrow> oc < 256 \<Longrightarrow> uint (oc_byte oc) = oc"
  by (simp add: oc_byte_def unsigned_of_int take_bit_int_eq_self)

lemma write_request_parsed:
  fixes bsz :: u32
  assumes "0 < unat bsz" "unat bsz \<le> length buffer"
  shows "\<exists>s1. recv_operation_code junk
            \<lparr>sk_in = oc_byte WRITE_OC # write_body (pid, page, off, sz, take (unat bsz) buffer) @ rest,
             sk_out = out\<rparr> = (WRITE_OC, s1) \<and>
          write_recv_req junk s1 =
            (\<lparr>wr_exec_code = SUCCESS, wr_pid = pid, wr_page = page, wr_offset = off, wr_size = sz,
              wr_buffer = take (unat bsz) buffer\<rparr>, \<lparr>sk_in = rest, sk_out = out\<rparr>)"
proof -
  let ?r = "(pid, page, off, sz, take (unat bsz) buffer)"
  let ?s = "\<lparr>sk_in = oc_byte WRITE_OC # write_body ?r @ rest, sk_out = out\<rparr>"
  have "write_valid ?r"
    using assms unat_u32_less [of bsz] by (auto simp: write_valid_def)
  from write_wire.recv_request [OF this, of ?s "oc_byte WRITE_OC" rest junk]
  show ?thesis by (simp add: oc_byte_code source_consts)
qed

text \<open>
  The bytes that \<open>memory_write\<close> puts on the connection are read back by the server, through
  \<open>recv_operation_code\<close> and \<open>write_recv_req\<close>, as the operation code \<open>WRITE_OC\<close> and a request that
  carries exactly the caller's process, page, offset, size and the first \<open>buffer_size\<close> bytes of its
  buffer; whatever follows the request on the connection is left for the next operation.  The
  buffer must not be empty.
\<close>

theorem memory_write_request_roundtrip:
  assumes "0 < unat bsz"
    and "memory_write junk pid page off sz bsz buffer c = Some (r, c')"
  shows "\<exists>msg. sk_out c' = sk_out c @ msg \<and>
    (\<forall>junk' rest out. \<exists>s1.
       recv_operation_code junk' \<lparr>sk_in = msg @ rest, sk_out = out\<rparr> = (WRITE_OC, s1) \<and>
       write_recv_req junk' s1 =
         (\<lparr>wr_exec_code = SUCCESS, wr_pid = pid, wr_page = page, wr_offset = off, wr_size = sz,
           wr_buffer = take (unat bsz) buffer\<rparr>, \<lparr>sk_in = rest, sk_out = out\<rparr>))"
proof -
  let ?msg = "oc_byte WRITE_OC # write_body (pid, page, off, sz, take (unat bsz) buffer)"
  from assms(2) have len: "unat bsz \<le> length buffer"
    by (auto simp: memory_write_def split: if_splits)
  then have bsz: "word_of_nat (length (take (unat bsz) buffer)) = bsz"
    by simp
  have "sk_out c' = sk_out c @ ?msg"
    using assms(2) len bsz
    by (auto simp: memory_write_def recv_code_def socket_send_def write_body_def Let_def
        split: prod.splits option.splits dest!: recv_storage_out)
  moreover have "\<forall>junk' rest out. \<exists>s1.
       recv_operation_code junk' \<lparr>sk_in = ?msg @ rest, sk_out = out\<rparr> = (WRITE_OC, s1) \<and>
       write_recv_req junk' s1 =
         (\<lparr>wr_exec_code = SUCCESS, wr_pid = pid, wr_page = page, wr_offset = off, wr_size = sz,
           wr_buffer = take (unat bsz) buffer\<rparr>, \<lparr>sk_in = rest, sk_out = out\<rparr>)"
    using write_request_parsed [OF assms(1) len] by simp
  ultimately show ?thesis by blast
qed

theorem memory_write_request_roundtrip_witness:
  "\<exists>msg. sk_out (snd (the (memory_write (\<lambda>_. 0) 3 2 8 2 2 [7, 9] \<lparr>sk_in = [1, 0], sk_out = []\<rparr>))) = msg \<and>
    (\<exists>s1. recv_operation_code (\<lambda>_. 0) \<lparr>sk_in = msg @ [5], sk_out = []\<rparr> = (WRITE_OC, s1) \<and>
       write_recv_req (\<lambda>_. 0) s1 =
         (\<lparr>wr_exec_code = SUCCESS, wr_pid = 3, wr_page = 2, wr_offset = 8, wr_size = 2,
           wr_buffer = [7, 9]\<rparr>, \<lparr>sk_in = [5], sk_out = []\<rparr>))"
proof -
  let ?c = "\<lparr>sk_in = [1, 0], sk_out = []\<rparr> :: sock"
  have "memory_write (\<lambda>_. 0) 3 2 8 2 2 [7, 9] ?c =
          Some (the (memory_write (\<lambda>_. 0) 3 2 8 2 2 [7, 9] ?c))"
    by (simp add: memory_write_def)
  then have e: "memory_write (\<lambda>_. 0) 3 2 8 2 2 [7, 9] ?c =
          Some (fst (the (memory_write (\<lambda>_. 0) 3 2 8 2 2 [7, 9] ?c)),
                snd (the (memory_write (\<lambda>_. 0) 3 2 8 2 2 [7, 9] ?c)))"
    by simp
  show ?thesis
    using memory_write_request_roundtrip [OF _ e] by fastforce
qed

text \<open>
  A read is answered in full: when the memory process answers a read with a code and a buffer
  (\<open>read_send_resp\<close>), \<open>memory_read\<close> returns that code, the size, and the bytes of the buffer, and
  leaves the connection at the end of the answer.  This covers the failure answers, which carry no
  buffer, for every code that fits the two bytes of the answer.
\<close>

theorem memory_read_response_roundtrip:
  assumes "- (2 ^ 15) \<le> code" "code < 2 ^ 15" "0 \<le> sint n"
    and "read_send_resp code n buffer srv = Some srv'"
    and "sk_out srv' = sk_out srv @ answer"
    and "sk_in c = answer @ rest"
  shows "\<exists>c'. memory_read junk pid page off sz c =
     (\<lparr>rr_exec_code = code, rr_buffer_size = n,
       rr_buffer = (if 0 < unat n then Some (take (unat n) buffer) else None)\<rparr>, c') \<and> sk_in c' = rest"
proof -
  have pos: "0 < sint n \<longleftrightarrow> n \<noteq> 0" and pos': "0 < unat n \<longleftrightarrow> n \<noteq> 0"
    using assms(3) by (auto simp: less_le signed_eq_0_iff unat_eq_0)
  from assms(4,5) have ans: "answer = code_bytes code @ u32_bytes n @ (if n \<noteq> 0 then take (unat n) buffer else [])"
    and len: "n \<noteq> 0 \<Longrightarrow> unat n \<le> length buffer"
    by (auto simp: read_send_resp_def socket_write_def pos Let_def split: if_splits)
  show ?thesis
  proof (cases "n = 0")
    case True
    then show ?thesis
      using assms(1,2,6) ans
      by (simp add: memory_read_def socket_send_def bytes_i16_code_bytes Let_def)
  next
    case False
    then have "take (unat n) buffer \<noteq> []" "length (take (unat n) buffer) = unat n"
      using len [OF False] pos' by auto
    then show ?thesis
      using assms(1,2,6) ans False
      by (simp add: memory_read_def socket_send_def bytes_i16_code_bytes Let_def pos')
  qed
qed

theorem memory_read_response_roundtrip_witness:
  "\<exists>c'. memory_read (\<lambda>_. 0) 3 2 0 2 \<lparr>sk_in = [1, 0, 2, 0, 0, 0, 7, 9], sk_out = []\<rparr> =
     (\<lparr>rr_exec_code = SUCCESS, rr_buffer_size = 2, rr_buffer = Some [7, 9]\<rparr>, c') \<and> sk_in c' = []"
proof -
  have "read_send_resp SUCCESS 2 [7, 9] \<lparr>sk_in = [], sk_out = []\<rparr> =
          Some \<lparr>sk_in = [], sk_out = [1, 0, 2, 0, 0, 0, 7, 9]\<rparr>"
    by (simp add: read_send_resp_def socket_write_def code_bytes_u16 codec_eval
        source_consts)
  from memory_read_response_roundtrip [OF _ _ _ this, of "[1, 0, 2, 0, 0, 0, 7, 9]"
      "\<lparr>sk_in = [1, 0, 2, 0, 0, 0, 7, 9], sk_out = []\<rparr>" "[]"]
  show ?thesis by (simp add: source_consts)
qed

text \<open>
  Every operation that is answered by one code reports to its caller the code the server sent:
  for each code in the range of an \<open>int16_t\<close>, the calls \<open>memory_init_process\<close>,
  \<open>memory_assign_pages\<close>, \<open>memory_delete_page\<close> and \<open>memory_write\<close> return exactly the code written by
  the corresponding \<open>send_resp\<close> routine.
\<close>

theorem response_codes_roundtrip:
  assumes "- (2 ^ 15) \<le> code" "code < 2 ^ 15"
    and "sk_in c = sk_out (init_process_send_resp code \<lparr>sk_in = [], sk_out = []\<rparr>) @ rest"
    and "length buffer = unat bsz"
  shows "fst (memory_init_process junk pid n c) = code \<and>
         fst (memory_assign_pages junk pid n c) = code \<and>
         fst (memory_delete_page junk pid n c) = code \<and>
         (\<exists>c'. memory_write junk pid n off sz bsz buffer c = Some (code, c'))"
  using assms recv_code_exchange [OF assms(1,2)]
  by (simp add: memory_init_process_def memory_assign_pages_def memory_delete_page_def
      memory_write_def init_process_send_resp_def socket_write_def socket_send_def)

theorem response_codes_roundtrip_witness:
  "fst (memory_init_process (\<lambda>_. 0) 3 2 \<lparr>sk_in = code_bytes ENOSPC, sk_out = []\<rparr>) = ENOSPC \<and>
   fst (memory_delete_page (\<lambda>_. 0) 3 2 \<lparr>sk_in = code_bytes ENOSPC, sk_out = []\<rparr>) = ENOSPC"
  using response_codes_roundtrip [of ENOSPC "\<lparr>sk_in = code_bytes ENOSPC, sk_out = []\<rparr>" "[]" "[]" 0
      "\<lambda>_. 0" 3 2]
  by (simp add: source_consts init_process_send_resp_def socket_write_def)

end
