(* ===== verification/Memoria_Frames.thy ===== *)
theory Memoria_Frames
  imports Memory_Prot
begin

text \<open>
  The frame administration of the memory process (\<open>memoria/src/memoria.c\<close>): its state, \<open>load\<close>, the
  inverted page table with its hash function and overflow lists, and the assignment, look-up and
  release of the pages of a process.

  The inverted table is not a separate array: \<open>invert_table\<close> points at the start of the very block
  \<open>memory_ptr\<close> whose frames are handed out.  The model keeps that aliasing: the state has one byte
  sequence \<open>memory\<close>, and a table entry is read from and written to bytes \<open>16 * frame\<close> onwards, in the
  layout of \<open>t_reg_invert_table\<close> (\<open>uint32_t frame; int32_t pid; uint32_t page; char segment\<close> and three
  bytes of padding).

  Process ids and page numbers are 32-bit words, read with \<open>sint\<close> where the code uses an \<open>int\<close>.
  Frames are natural numbers.  The lists of so-commons are the parameter \<open>mem_lib\<close>, which also has
  \<open>temporal_get_string_time\<close> as the function \<open>string_time\<close> from the number of calls made so far to
  the text returned.  A handler runs to its end before another one starts here; the mutex and the
  read/write locks are in the theories about threads.
\<close>

section \<open>State\<close>

record t_memory_conf =
  frames :: u32
  frame_size :: u32
  cache_entries :: u32
  cache_x_process :: u32
  memory_delay :: u32

record t_reg_invert_table =
  it_frame :: u32
  it_pid :: u32
  it_page :: u32
  it_segment :: byte

record t_reg_pages_process_table =
  pp_pid :: u32
  pp_pages_count :: u32

record t_cache_memory =
  cm_pid :: u32
  cm_page :: u32
  cm_content :: "byte list"

record t_cache_x_process =
  cx_pid :: u32
  cx_entries :: u16

record mem_lib =
  frame_ops :: "nat t_list_ops"
  pages_ops :: "t_reg_pages_process_table t_list_ops"
  cxp_ops :: "t_cache_x_process t_list_ops"
  string_time :: "nat \<Rightarrow> string"

record mem_state =
  memory_conf :: t_memory_conf
  memory :: "byte list"
  available_frame_list :: "nat list"
  pages_per_process_list :: "t_reg_pages_process_table list"
  overflow :: "nat list list"
  cache_memory :: "t_cache_memory list"
  last_used_time :: "string option list"
  cache_x_process_list :: "t_cache_x_process list"
  stack_size :: u32
  kernel_client :: int
  time_calls :: nat

definition CODE_SEGMENT :: byte where [source_consts]: "CODE_SEGMENT = of_char CHR ''c''"
definition STACK_SEGMENT :: byte where [source_consts]: "STACK_SEGMENT = of_char CHR ''s''"
definition HEAP_SEGMENT :: byte where [source_consts]: "HEAP_SEGMENT = of_char CHR ''h''"
definition NO_SEGMENT :: byte where [source_consts]: "NO_SEGMENT = of_char CHR '' ''"

abbreviation n_frames :: "mem_state \<Rightarrow> nat" where
  "n_frames st \<equiv> unat (frames (memory_conf st))"

abbreviation page_bytes :: "mem_state \<Rightarrow> nat" where
  "page_bytes st \<equiv> unat (frame_size (memory_conf st))"

section \<open>The inverted table inside the memory block\<close>

definition reg_size :: nat where
  "reg_size = 16"

definition get_reg :: "byte list \<Rightarrow> nat \<Rightarrow> t_reg_invert_table" where
  "get_reg m f = \<lparr>it_frame = bytes_u32 (mem_read (reg_size * f) 4 m),
                  it_pid = bytes_u32 (mem_read (reg_size * f + 4) 4 m),
                  it_page = bytes_u32 (mem_read (reg_size * f + 8) 4 m),
                  it_segment = hd (mem_read (reg_size * f + 12) 1 m)\<rparr>"

definition set_reg :: "nat \<Rightarrow> u32 \<Rightarrow> u32 \<Rightarrow> byte \<Rightarrow> byte list \<Rightarrow> byte list" where
  "set_reg f pid page segment m =
     mem_write (reg_size * f + 12) [segment]
       (mem_write (reg_size * f + 8) (u32_bytes page)
         (mem_write (reg_size * f + 4) (u32_bytes pid) m))"

text \<open>The bytes of a whole structure, as \<open>load\<close> copies it; the padding is indeterminate.\<close>

definition reg_bytes :: "storage \<Rightarrow> t_reg_invert_table \<Rightarrow> byte list" where
  "reg_bytes junk r = u32_bytes (it_frame r) @ u32_bytes (it_pid r) @ u32_bytes (it_page r)
     @ [it_segment r] @ map junk [13..<16]"

lemma length_reg_bytes [simp]: "length (reg_bytes junk r) = 16"
  by (simp add: reg_bytes_def)

lemma length_set_reg [simp]:
  "16 * f + 16 \<le> length m \<Longrightarrow> length (set_reg f pid page segment m) = length m"
  by (simp add: set_reg_def reg_size_def)

lemma get_reg_set_reg_same:
  "16 * f + 16 \<le> length m \<Longrightarrow>
   get_reg (set_reg f pid page segment m) f =
     \<lparr>it_frame = it_frame (get_reg m f), it_pid = pid, it_page = page, it_segment = segment\<rparr>"
  by (simp add: get_reg_def set_reg_def reg_size_def slices)

lemma get_reg_set_reg_other:
  assumes "f \<noteq> g" "16 * g + 16 \<le> length m"
  shows "get_reg (set_reg g pid page segment m) f = get_reg m f"
proof (cases "f < g")
  case True
  then show ?thesis using assms(2) by (simp add: get_reg_def set_reg_def reg_size_def slices)
next
  case False
  with assms(1) have "g < f" by simp
  then show ?thesis using assms(2) by (simp add: get_reg_def set_reg_def reg_size_def slices)
qed

lemma get_reg_set_reg:
  "16 * g + 16 \<le> length m \<Longrightarrow>
   get_reg (set_reg g pid page segment m) f =
     (if f = g then \<lparr>it_frame = it_frame (get_reg m g), it_pid = pid, it_page = page, it_segment = segment\<rparr>
      else get_reg m f)"
  by (simp add: get_reg_set_reg_same get_reg_set_reg_other)

lemma get_reg_mem_write_above:
  "off + length bs \<le> length m \<Longrightarrow> 16 * f + 16 \<le> off \<Longrightarrow> get_reg (mem_write off bs m) f = get_reg m f"
  by (simp add: get_reg_def reg_size_def slices)

lemma get_reg_load_same:
  assumes "16 * f + 16 \<le> length m"
  shows "get_reg (mem_write (16 * f) (reg_bytes junk r) m) f = r"
proof -
  let ?m = "mem_write (16 * f) (reg_bytes junk r) m"
  have rd: "mem_read (16 * f) 16 ?m = reg_bytes junk r"
    using assms by (intro mem_read_write_same) simp_all
  have "mem_read (16 * f + a) b ?m = mem_read a b (reg_bytes junk r)" if "a + b \<le> 16" for a b
    using mem_read_mem_read [OF that, of "16 * f" ?m] rd by simp
  from this [of 0 4] this [of 4 4] this [of 8 4] this [of 12 1] show ?thesis
    by (cases r) (simp add: get_reg_def reg_size_def reg_bytes_def mem_read_def)
qed

lemma get_reg_load_other:
  "f \<noteq> g \<Longrightarrow> 16 * g + 16 \<le> length m \<Longrightarrow> get_reg (mem_write (16 * g) (reg_bytes junk r) m) f = get_reg m f"
  by (cases "f < g") (simp_all add: get_reg_def reg_size_def slices)

section \<open>Start-up\<close>

definition first_free_frame :: "t_memory_conf \<Rightarrow> nat" where
  "first_free_frame c =
     (let invert_table_size = 16 * frames c
      in unat (invert_table_size div frame_size c
               + (if 0 < invert_table_size mod frame_size c then 1 else 0)))"

fun load_frames ::
    "mem_lib \<Rightarrow> storage \<Rightarrow> nat \<Rightarrow> nat \<Rightarrow> nat \<Rightarrow> byte list \<Rightarrow> nat list \<Rightarrow> (byte list \<times> nat list) option" where
  "load_frames M junk first frame 0 m av = Some (m, av)"
| "load_frames M junk first frame (Suc n) m av =
     (let reg = (if frame < first
                 then \<lparr>it_frame = word_of_nat frame, it_pid = - 1, it_page = word_of_nat frame,
                       it_segment = NO_SEGMENT\<rparr>
                 else \<lparr>it_frame = word_of_nat frame, it_pid = 0, it_page = 0,
                       it_segment = NO_SEGMENT\<rparr>);
          av' = (if frame < first then av else list_add (frame_ops M) av frame)
      in if length m < reg_size * frame + reg_size then None
         else load_frames M junk first (Suc frame) n
                (mem_write (reg_size * frame) (reg_bytes junk reg) m) av')"

definition load :: "mem_lib \<Rightarrow> storage \<Rightarrow> t_memory_conf \<Rightarrow> mem_state option" where
  "load M junk c =
     (if frame_size c = 0 then None
      else do {
        (m, av) \<leftarrow> load_frames M junk (first_free_frame c) 0 (unat (frames c))
                    (junk_bytes junk (unat (frames c * frame_size c))) [];
        Some \<lparr>memory_conf = c, memory = m, available_frame_list = av,
              pages_per_process_list = [], overflow = replicate (unat (frames c)) [],
              cache_memory = replicate (unat (cache_entries c))
                \<lparr>cm_pid = - 1, cm_page = - 1, cm_content = junk_bytes junk (unat (frame_size c))\<rparr>,
              last_used_time = replicate (unat (cache_entries c)) None,
              cache_x_process_list = [], stack_size = 0, kernel_client = 0, time_calls = 0\<rparr>
      })"

section \<open>Pages and frames\<close>

text \<open>
  \<open>hashing\<close> writes the two numbers in decimal one after the other into \<open>char str_1[20]\<close>; with 20 characters or more the array
  overflows (\<open>None\<close>).  Everything that goes through \<open>hashing\<close> is partial for this reason.
\<close>

definition hashing :: "t_memory_conf \<Rightarrow> u32 \<Rightarrow> u32 \<Rightarrow> nat option" where
  "hashing c pid page =
     (let str_1 = dec_int (sint pid) @ dec_int (sint page)
      in if length str_1 < 20 then Some (unat (atoi str_1 mod frames c)) else None)"

text \<open>The pages whose numbers fit, and the frame they hash to.\<close>

definition hash_ok :: "u32 \<Rightarrow> u32 \<Rightarrow> bool" where
  "hash_ok pid page \<longleftrightarrow> length (dec_int (sint pid)) + length (dec_int (sint page)) < 20"

definition hash_frame :: "t_memory_conf \<Rightarrow> u32 \<Rightarrow> u32 \<Rightarrow> nat" where
  "hash_frame c pid page = unat (atoi (dec_int (sint pid) @ dec_int (sint page)) mod frames c)"

lemma hashing_eq: "hashing c pid page = (if hash_ok pid page then Some (hash_frame c pid page) else None)"
  by (simp add: hashing_def hash_ok_def hash_frame_def)

lemma length_dec_nat: "n < 10 ^ Suc k \<Longrightarrow> length (dec_nat n) \<le> Suc k"
proof (induction k arbitrary: n)
  case 0
  then show ?case by (subst dec_nat.simps) simp
next
  case (Suc k)
  have "n div 10 < 10 ^ Suc k" using Suc.prems by (intro less_mult_imp_div_less) (simp add: mult.commute)
  from Suc.IH [OF this] show ?case by (simp add: dec_nat.simps [of n])
qed

lemma hash_ok_small:
  assumes "unat pid < 10 ^ 9" "unat page < 10 ^ 9"
  shows "hash_ok pid page"
proof -
  have "length (dec_int (sint w)) \<le> 9" if "unat w < 10 ^ 9" for w :: u32
  proof -
    have "unat w < 1000000000" using that by simp
    then have "int (unat w) < 1000000000" by linarith
    then have "uint w < 1000000000" by simp
    then have "signed_take_bit 31 (uint w) = uint w"
      by (intro signed_take_bit_int_eq_self) (auto intro: order_trans [OF _ uint_ge_0])
    then have "sint w = int (unat w)" by (simp add: sint_uint)
    moreover have "length (dec_nat (unat w)) \<le> 9"
      using that length_dec_nat [of "unat w" 8] by simp
    ultimately show ?thesis by (metis dec_int_def nat_int of_nat_less_0_iff)
  qed
  from this [OF assms(1)] this [OF assms(2)] show ?thesis by (simp add: hash_ok_def)
qed

definition page_is_right :: "mem_state \<Rightarrow> nat \<Rightarrow> u32 \<Rightarrow> u32 \<Rightarrow> bool" where
  "page_is_right st frame pid page \<longleftrightarrow>
     it_pid (get_reg (memory st) frame) = pid \<and> it_page (get_reg (memory st) frame) = page"

definition get_available_frame :: "mem_lib \<Rightarrow> mem_state \<Rightarrow> nat \<times> mem_state" where
  "get_available_frame M st =
     (case list_remove (frame_ops M) (available_frame_list st) 0 of
        (frame, av) \<Rightarrow> (frame, st\<lparr>available_frame_list := av\<rparr>))"

definition frame_is_available :: "mem_lib \<Rightarrow> nat \<Rightarrow> mem_state \<Rightarrow> bool \<times> mem_state" where
  "frame_is_available M frame st =
     (case list_search (frame_ops M) (\<lambda>f. frame = f) (available_frame_list st) 0 of
        Some index \<Rightarrow>
          (True, st\<lparr>available_frame_list := snd (list_remove (frame_ops M) (available_frame_list st) index)\<rparr>)
      | None \<Rightarrow> (False, st))"

definition add_to_overflow :: "mem_lib \<Rightarrow> nat \<Rightarrow> nat \<Rightarrow> mem_state \<Rightarrow> mem_state" where
  "add_to_overflow M o_frame frame st =
     st\<lparr>overflow := (overflow st)[o_frame := list_add (frame_ops M) (overflow st ! o_frame) frame]\<rparr>"

definition remove_from_overflow :: "mem_lib \<Rightarrow> nat \<Rightarrow> nat \<Rightarrow> mem_state \<Rightarrow> mem_state" where
  "remove_from_overflow M o_frame frame st =
     (case list_search (frame_ops M) (\<lambda>f. frame = f) (overflow st ! o_frame) 0 of
        Some index \<Rightarrow>
          st\<lparr>overflow := (overflow st)[o_frame := snd (list_remove (frame_ops M) (overflow st ! o_frame) index)]\<rparr>
      | None \<Rightarrow> st)"

definition inicialize_page :: "mem_lib \<Rightarrow> u32 \<Rightarrow> u32 \<Rightarrow> byte \<Rightarrow> mem_state \<Rightarrow> mem_state option" where
  "inicialize_page M pid page segment st = do {
     h_frame \<leftarrow> hashing (memory_conf st) pid page;
     (let (assigned_frame, st1) =
            (case frame_is_available M h_frame st of
               (True, st1) \<Rightarrow> (h_frame, st1)
             | (False, st1) \<Rightarrow>
                 (case get_available_frame M st1 of
                    (f, st2) \<Rightarrow> (f, add_to_overflow M h_frame f st2)))
      in Some (st1\<lparr>memory := set_reg assigned_frame pid page segment (memory st1)\<rparr>))
   }"

text \<open>
  The loop of \<open>assign_pages_to_process\<close>; \<open>index\<close> is the position of the structure that
  \<open>pages_per_process\<close> points to, \<open>n\<close> the number of iterations left.
\<close>

fun assign_loop :: "mem_lib \<Rightarrow> u32 \<Rightarrow> nat \<Rightarrow> bool \<Rightarrow> nat \<Rightarrow> int \<Rightarrow> mem_state \<Rightarrow> mem_state option" where
  "assign_loop M pid index init 0 code_pages st = Some st"
| "assign_loop M pid index init (Suc n) code_pages st =
     (let r = pages_per_process_list st ! index;
          count = pp_pages_count r + 1;
          st1 = st\<lparr>pages_per_process_list := (pages_per_process_list st)[index := r\<lparr>pp_pages_count := count\<rparr>]\<rparr>;
          segment = (if init then if 0 < code_pages then CODE_SEGMENT else STACK_SEGMENT
                     else HEAP_SEGMENT)
      in do {
        st2 \<leftarrow> inicialize_page M pid (count - 1) segment st1;
        assign_loop M pid index init n (if init then code_pages - 1 else code_pages) st2
      })"

definition assign_pages_to_process ::
    "mem_lib \<Rightarrow> u32 \<Rightarrow> u32 \<Rightarrow> bool \<Rightarrow> mem_state \<Rightarrow> (int \<times> mem_state) option" where
  "assign_pages_to_process M pid required_pages init st =
     (if int (length (available_frame_list st)) < sint required_pages then Some (ENOSPC, st)
      else
        (let (index, st1) =
           (case list_search (pages_ops M) (\<lambda>r. pp_pid r = pid) (pages_per_process_list st) 0 of
              Some i \<Rightarrow> (i, st)
            | None \<Rightarrow> (length (pages_per_process_list st),
                 st\<lparr>pages_per_process_list :=
                     list_add (pages_ops M) (pages_per_process_list st) \<lparr>pp_pid = pid, pp_pages_count = 0\<rparr>\<rparr>));
             code_pages = sint required_pages - sint (stack_size st)
         in map_option (Pair SUCCESS) (assign_loop M pid index init (nat (sint required_pages)) code_pages st1)))"

definition searching_on_overflow :: "mem_lib \<Rightarrow> nat \<Rightarrow> u32 \<Rightarrow> u32 \<Rightarrow> mem_state \<Rightarrow> nat option" where
  "searching_on_overflow M o_frame pid page st =
     (case list_search (frame_ops M) (\<lambda>f. page_is_right st f pid page) (overflow st ! o_frame) 0 of
        Some index \<Rightarrow> Some (list_get (frame_ops M) (overflow st ! o_frame) index)
      | None \<Rightarrow> None)"

text \<open>\<open>Some None\<close> is the result \<open>-1\<close>.\<close>

definition get_frame :: "mem_lib \<Rightarrow> u32 \<Rightarrow> u32 \<Rightarrow> mem_state \<Rightarrow> nat option option" where
  "get_frame M pid page st = do {
     h_frame \<leftarrow> hashing (memory_conf st) pid page;
     Some (if page_is_right st h_frame pid page then Some h_frame
           else searching_on_overflow M h_frame pid page st)
   }"

section \<open>Releasing frames\<close>

text \<open>
  The first half of \<open>delete_page_process\<close>.  When the page is not found the code goes on with the
  last frame the search looked at; when the search looked at none, the variable \<open>frame\<close> was never
  assigned (\<open>None\<close>).
\<close>

definition delete_page_frame :: "mem_lib \<Rightarrow> u32 \<Rightarrow> u32 \<Rightarrow> mem_state \<Rightarrow> mem_state option" where
  "delete_page_frame M pid page st = do {
     h_frame \<leftarrow> hashing (memory_conf st) pid page;
     (let ov = overflow st ! h_frame;
          (frame, st1) =
            (if page_is_right st h_frame pid page then (Some h_frame, st)
             else case list_search (frame_ops M) (\<lambda>f. page_is_right st f pid page) ov 0 of
                    Some index \<Rightarrow>
                      (Some (list_get (frame_ops M) ov index),
                       st\<lparr>overflow := (overflow st)[h_frame := snd (list_remove (frame_ops M) ov index)]\<rparr>)
                  | None \<Rightarrow>
                      (if ov = [] then None else Some (list_get (frame_ops M) ov (length ov - 1)), st))
      in case frame of
           None \<Rightarrow> None
         | Some f \<Rightarrow>
             Some (st1\<lparr>memory := set_reg f 0 0 NO_SEGMENT (memory st1),
                       available_frame_list := list_add (frame_ops M) (available_frame_list st1) f\<rparr>))
   }"

text \<open>The loop over the table at the start of \<open>cleaning_process_entries\<close>.\<close>

fun clean_frames :: "mem_lib \<Rightarrow> u32 \<Rightarrow> nat \<Rightarrow> nat \<Rightarrow> mem_state \<Rightarrow> mem_state option" where
  "clean_frames M pid frame 0 st = Some st"
| "clean_frames M pid frame (Suc n) st =
     (let r = get_reg (memory st) frame in do {
        st1 \<leftarrow> (if it_pid r = pid then do {
                   h_frame \<leftarrow> hashing (memory_conf st) (it_pid r) (it_page r);
                   (let st1 = (if frame \<noteq> h_frame then remove_from_overflow M h_frame frame st else st)
                    in Some (st1\<lparr>memory := set_reg frame 0 0 NO_SEGMENT (memory st1),
                                 available_frame_list := list_add (frame_ops M) (available_frame_list st1) frame\<rparr>))
                 } else Some st);
        clean_frames M pid (Suc frame) n st1
      })"

section \<open>Invariant\<close>

definition conf_ok :: "t_memory_conf \<Rightarrow> bool" where
  "conf_ok c \<longleftrightarrow> 0 < unat (frames c) \<and> 16 \<le> unat (frame_size c)
     \<and> unat (frames c) * unat (frame_size c) < 2 ^ 31"

abbreviation pid_of :: "mem_state \<Rightarrow> nat \<Rightarrow> u32" where
  "pid_of st f \<equiv> it_pid (get_reg (memory st) f)"

abbreviation page_of :: "mem_state \<Rightarrow> nat \<Rightarrow> u32" where
  "page_of st f \<equiv> it_page (get_reg (memory st) f)"

abbreviation hash_of :: "mem_state \<Rightarrow> nat \<Rightarrow> nat" where
  "hash_of st f \<equiv> hash_frame (memory_conf st) (pid_of st f) (page_of st f)"

text \<open>A frame beyond the table, and one of those that is not on the list of available frames.\<close>

definition user_frame :: "mem_state \<Rightarrow> nat \<Rightarrow> bool" where
  "user_frame st f \<longleftrightarrow> first_free_frame (memory_conf st) \<le> f \<and> f < n_frames st"

definition used :: "mem_state \<Rightarrow> nat \<Rightarrow> bool" where
  "used st f \<longleftrightarrow> user_frame st f \<and> f \<notin> set (available_frame_list st)"

definition inv_shape :: "mem_state \<Rightarrow> bool" where
  "inv_shape st \<longleftrightarrow> conf_ok (memory_conf st) \<and> length (memory st) = n_frames st * page_bytes st
     \<and> length (overflow st) = n_frames st"

definition inv_free :: "mem_state \<Rightarrow> bool" where
  "inv_free st \<longleftrightarrow> distinct (available_frame_list st)
     \<and> (\<forall>f \<in> set (available_frame_list st). user_frame st f \<and> pid_of st f = 0)
     \<and> (\<forall>f < first_free_frame (memory_conf st). pid_of st f = - 1)"

definition inv_used :: "mem_state \<Rightarrow> bool" where
  "inv_used st \<longleftrightarrow> (\<forall>f. used st f \<longrightarrow> 0 < sint (pid_of st f) \<and> hash_ok (pid_of st f) (page_of st f)
     \<and> (f = hash_of st f \<or> f \<in> set (overflow st ! hash_of st f)))
     \<and> (\<forall>f g. used st f \<longrightarrow> used st g \<longrightarrow> pid_of st f = pid_of st g \<longrightarrow> page_of st f = page_of st g \<longrightarrow> f = g)"

definition inv_overflow :: "mem_state \<Rightarrow> bool" where
  "inv_overflow st \<longleftrightarrow> (\<forall>h < n_frames st. distinct (overflow st ! h)
     \<and> (\<forall>f \<in> set (overflow st ! h). used st f \<and> hash_of st f = h \<and> f \<noteq> h))"

definition inv_pages :: "mem_state \<Rightarrow> bool" where
  "inv_pages st \<longleftrightarrow> distinct (map pp_pid (pages_per_process_list st))
     \<and> (\<forall>f. used st f \<longrightarrow> (\<exists>r \<in> set (pages_per_process_list st).
          pp_pid r = pid_of st f \<and> page_of st f < pp_pages_count r))"

definition frame_inv :: "mem_state \<Rightarrow> bool" where
  "frame_inv st \<longleftrightarrow> inv_shape st \<and> inv_free st \<and> inv_used st \<and> inv_overflow st \<and> inv_pages st"

lemmas frame_inv_parts = frame_inv_def inv_shape_def inv_free_def inv_used_def inv_overflow_def inv_pages_def

lemma hash_frame_less: "0 < unat (frames c) \<Longrightarrow> hash_frame c pid page < unat (frames c)"
  by (simp add: hash_frame_def unat_mod)

lemma first_free_frame_nat:
  assumes "conf_ok c"
  shows "first_free_frame c = (16 * unat (frames c) + unat (frame_size c) - 1) div unat (frame_size c)"
proof -
  let ?n = "unat (frames c)" and ?s = "unat (frame_size c)"
  have s: "16 \<le> ?s" "0 < ?n" and "?n * ?s < 2 ^ 31" using assms by (auto simp: conf_ok_def)
  moreover have "16 * ?n \<le> ?n * ?s" using s by simp
  ultimately have b: "16 * ?n < 2 ^ 31" by linarith
  then have t: "unat (16 * frames c) = 16 * ?n"
    by (simp add: unat_word_ariths)
  have d: "unat (16 * frames c div frame_size c) = 16 * ?n div ?s"
    by (simp add: unat_div t)
  have "16 * ?n div ?s \<le> 16 * ?n" by (rule div_le_dividend)
  with b have lt: "16 * ?n div ?s < 2 ^ 31" by (rule le_less_trans [rotated])
  have r: "0 < 16 * frames c mod frame_size c \<longleftrightarrow> 0 < 16 * ?n mod ?s"
    by (simp add: word_less_nat_alt unat_mod t)
  have "first_free_frame c = 16 * ?n div ?s + (if 0 < 16 * ?n mod ?s then 1 else 0)"
    using lt by (simp add: first_free_frame_def r unat_word_ariths(1) d)
  also have "\<dots> = (16 * ?n + ?s - 1) div ?s"
  proof -
    define q where "q = 16 * ?n div ?s"
    define m where "m = 16 * ?n mod ?s"
    have eq: "16 * ?n = q * ?s + m" and m: "m < ?s"
      using s by (simp_all add: q_def m_def)
    show ?thesis
    proof (cases "m = 0")
      case True
      then have "(16 * ?n + ?s - 1) div ?s = q"
        using eq s by (intro div_nat_eqI) (simp_all add: algebra_simps)
      then show ?thesis using True by (simp add: q_def [symmetric] m_def [symmetric])
    next
      case False
      then have "(16 * ?n + ?s - 1) div ?s = q + 1"
        using eq s m by (intro div_nat_eqI) (simp_all add: algebra_simps)
      then show ?thesis using False by (simp add: q_def [symmetric] m_def [symmetric])
    qed
  qed
  finally show ?thesis .
qed

lemma first_free_frame_bounds:
  assumes "conf_ok c"
  shows "16 * unat (frames c) \<le> first_free_frame c * unat (frame_size c)"
    and "first_free_frame c \<le> unat (frames c)"
proof -
  let ?n = "unat (frames c)" and ?s = "unat (frame_size c)"
  have s: "16 \<le> ?s" "0 < ?n" using assms by (auto simp: conf_ok_def)
  let ?x = "16 * ?n + ?s - 1"
  have "?x div ?s * ?s + ?x mod ?s = ?x" by simp
  moreover have "?x mod ?s < ?s" using s by simp
  ultimately show "16 * ?n \<le> first_free_frame c * ?s"
    unfolding first_free_frame_nat [OF assms] using s by linarith
  have "16 * ?n \<le> ?n * ?s" using s by simp
  moreover have "(?n + 1) * ?s = ?n * ?s + ?s" by (simp add: add_mult_distrib)
  ultimately have "?x < (?n + 1) * ?s" using s by linarith
  then show "first_free_frame c \<le> ?n"
    unfolding first_free_frame_nat [OF assms] using s
    by (simp add: less_mult_imp_div_less less_Suc_eq_le [symmetric])
qed

end
