(* ===== verification/Memoria_Inv.thy ===== *)
theory Memoria_Inv
  imports Memoria_Frames
begin

text \<open>
  Correctness of the frame administration: the invariant \<open>frame_inv\<close> is established by \<open>load\<close> and
  kept by every operation, the hashed look-up agrees with a scan of the whole table, and each
  operation changes exactly the mappings it is meant to change.

  Every operation is reduced to two elementary steps on the table, taking an available frame for a
  page and giving a used frame back; the invariant is shown for those two steps once.
\<close>

section \<open>Frames and the table\<close>

lemma frame_invD:
  assumes "frame_inv st"
  shows "inv_shape st" "inv_free st" "inv_used st" "inv_overflow st" "inv_pages st"
  using assms by (simp_all add: frame_inv_def)

lemma inv_shapeD:
  assumes "inv_shape st"
  shows "conf_ok (memory_conf st)" "length (memory st) = n_frames st * page_bytes st"
    "length (overflow st) = n_frames st" "0 < n_frames st"
  using assms by (simp_all add: inv_shape_def conf_ok_def)

lemma reg_in_memory: "inv_shape st \<Longrightarrow> f < n_frames st \<Longrightarrow> 16 * f + 16 \<le> length (memory st)"
proof -
  assume i: "inv_shape st" and f: "f < n_frames st"
  have "16 * (f + 1) \<le> page_bytes st * n_frames st"
    by (rule mult_le_mono) (use i f in \<open>simp_all add: inv_shape_def conf_ok_def\<close>)
  with i show ?thesis by (simp add: inv_shape_def mult.commute)
qed

lemma hash_less: "inv_shape st \<Longrightarrow> hash_frame (memory_conf st) pid page < n_frames st"
  by (rule hash_frame_less) (simp add: inv_shape_def conf_ok_def)

lemma usedD: "used st f \<Longrightarrow> f < n_frames st" "used st f \<Longrightarrow> f \<notin> set (available_frame_list st)"
  by (simp_all add: used_def user_frame_def)

section \<open>Taking a frame\<close>

text \<open>
  Frame \<open>f\<close> leaves the available list and is entered in the table for \<open>(pid, page)\<close>; it is
  appended to the overflow list of its hash value unless it is the hashed frame itself.
\<close>

definition claim_frame :: "nat \<Rightarrow> u32 \<Rightarrow> u32 \<Rightarrow> byte \<Rightarrow> nat list \<Rightarrow> mem_state \<Rightarrow> mem_state" where
  "claim_frame f pid page segment av st =
     (let h = hash_frame (memory_conf st) pid page
      in st\<lparr>available_frame_list := av,
            overflow := (if f = h then overflow st else (overflow st)[h := overflow st ! h @ [f]]),
            memory := set_reg f pid page segment (memory st)\<rparr>)"

definition takes :: "nat list \<Rightarrow> nat \<Rightarrow> nat list \<Rightarrow> bool" where
  "takes av f av' \<longleftrightarrow> f \<in> set av \<and> set av' = set av - {f} \<and> distinct av' \<and> length av = Suc (length av')"

lemma takes_remove_at: "distinct av \<Longrightarrow> i < length av \<Longrightarrow> takes av (av ! i) (remove_at i av)"
  by (auto simp: takes_def set_remove_at_distinct distinct_remove_at)

lemma takesD:
  assumes "takes av f av'"
  shows "f \<in> set av" "set av' = set av - {f}" "distinct av'" "length av = Suc (length av')"
  using assms by (auto simp: takes_def)

lemma claim_conf [simp]:
  "memory_conf (claim_frame f pid page segment av st) = memory_conf st"
  "pages_per_process_list (claim_frame f pid page segment av st) = pages_per_process_list st"
  "available_frame_list (claim_frame f pid page segment av st) = av"
  "user_frame (claim_frame f pid page segment av st) g = user_frame st g"
  by (simp_all add: claim_frame_def Let_def user_frame_def)

lemma available_user_frame:
  "frame_inv st \<Longrightarrow> f \<in> set (available_frame_list st) \<Longrightarrow> user_frame st f \<and> f < n_frames st \<and> \<not> used st f"
  by (auto simp: frame_inv_def inv_free_def used_def user_frame_def)

lemma claim_used:
  assumes "frame_inv st" "takes (available_frame_list st) f av"
  shows "used (claim_frame f pid page segment av st) g \<longleftrightarrow> used st g \<or> g = f"
  using assms available_user_frame [OF assms(1)] takesD [OF assms(2)] by (auto simp: used_def)

lemma claim_reg:
  assumes "frame_inv st" "takes (available_frame_list st) f av"
  shows "get_reg (memory (claim_frame f pid page segment av st)) g =
    (if g = f then \<lparr>it_frame = it_frame (get_reg (memory st) f), it_pid = pid, it_page = page, it_segment = segment\<rparr>
     else get_reg (memory st) g)"
  using available_user_frame [OF assms(1) takesD(1) [OF assms(2)]] reg_in_memory frame_invD(1) [OF assms(1)]
  by (simp add: claim_frame_def Let_def get_reg_set_reg)

lemma claim_overflow:
  assumes "frame_inv st" "h < n_frames st"
  shows "overflow (claim_frame f pid page segment av st) ! h =
    (if f \<noteq> hash_frame (memory_conf st) pid page \<and> h = hash_frame (memory_conf st) pid page
     then overflow st ! h @ [f] else overflow st ! h)"
  using assms inv_shapeD(3) [OF frame_invD(1) [OF assms(1)]] hash_less [OF frame_invD(1) [OF assms(1)]]
  by (auto simp: claim_frame_def Let_def nth_list_update)

text \<open>
  Taking a frame keeps the invariant, provided the page is new for a process that has an entry with
  a larger page count.
\<close>

lemma claim_inv:
  assumes inv: "frame_inv st" and tk: "takes (available_frame_list st) f av"
    and pid: "0 < sint pid" "hash_ok pid page"
    and new: "\<And>g. used st g \<Longrightarrow> pid_of st g = pid \<Longrightarrow> page_of st g \<noteq> page"
    and r: "r \<in> set (pages_per_process_list st)" "pp_pid r = pid" "page < pp_pages_count r"
  shows "frame_inv (claim_frame f pid page segment av st)"
proof -
  let ?st = "claim_frame f pid page segment av st"
  note U = claim_used [OF inv tk] and R = claim_reg [OF inv tk] and O = claim_overflow [OF inv]
  note I = frame_invD [OF inv] and S = inv_shapeD [OF frame_invD(1) [OF inv]]
  note fav = takesD [OF tk] available_user_frame [OF inv takesD(1) [OF tk]]
  have "inv_shape ?st"
    using I(1) reg_in_memory [OF I(1)] fav(5) by (simp add: inv_shape_def claim_frame_def Let_def)
  moreover have "inv_free ?st"
    using I(2) fav by (auto simp: inv_free_def R user_frame_def)
  moreover have "inv_used ?st"
    using I(3) pid new S fav hash_less [OF I(1)]
    by (auto simp: inv_used_def U R O)
  moreover have "inv_overflow ?st"
    using I(4) fav S by (auto simp: inv_overflow_def U R O)
  moreover have "inv_pages ?st"
    using I(5) r by (auto simp: inv_pages_def U R)
  ultimately show ?thesis by (simp add: frame_inv_def)
qed

section \<open>Giving a frame back\<close>

text \<open>
  The table entry of the used frame \<open>f\<close> is cleared, the frame is appended to the available list and
  taken out of the overflow list it may be on; \<open>ov\<close> is that list without it.
\<close>

definition release_frame :: "nat \<Rightarrow> nat list \<Rightarrow> mem_state \<Rightarrow> mem_state" where
  "release_frame f ov st =
     st\<lparr>overflow := (overflow st)[hash_of st f := ov],
        memory := set_reg f 0 0 NO_SEGMENT (memory st),
        available_frame_list := available_frame_list st @ [f]\<rparr>"

definition drops :: "nat list \<Rightarrow> nat \<Rightarrow> nat list \<Rightarrow> bool" where
  "drops l f l' \<longleftrightarrow> set l' = set l - {f} \<and> distinct l'"

lemma release_conf [simp]:
  "memory_conf (release_frame f ov st) = memory_conf st"
  "pages_per_process_list (release_frame f ov st) = pages_per_process_list st"
  "available_frame_list (release_frame f ov st) = available_frame_list st @ [f]"
  "user_frame (release_frame f ov st) g = user_frame st g"
  by (simp_all add: release_frame_def user_frame_def)

lemma release_used: "used (release_frame f ov st) g \<longleftrightarrow> used st g \<and> g \<noteq> f"
  by (auto simp: used_def)

lemma release_reg:
  assumes "frame_inv st" "used st f"
  shows "get_reg (memory (release_frame f ov st)) g =
    (if g = f then \<lparr>it_frame = it_frame (get_reg (memory st) f), it_pid = 0, it_page = 0, it_segment = NO_SEGMENT\<rparr>
     else get_reg (memory st) g)"
  using usedD(1) [OF assms(2)] reg_in_memory frame_invD(1) [OF assms(1)]
  by (simp add: release_frame_def get_reg_set_reg)

lemma release_overflow:
  assumes "frame_inv st" "h < n_frames st"
  shows "overflow (release_frame f ov st) ! h = (if h = hash_of st f then ov else overflow st ! h)"
  using assms inv_shapeD(3) [OF frame_invD(1) [OF assms(1)]] by (simp add: release_frame_def nth_list_update)

lemma release_inv:
  assumes inv: "frame_inv st" and f: "used st f"
    and ov: "drops (overflow st ! hash_of st f) f ov"
  shows "frame_inv (release_frame f ov st)"
proof -
  let ?st = "release_frame f ov st"
  note U = release_used [of f ov st] and R = release_reg [OF inv f] and O = release_overflow [OF inv]
  note I = frame_invD [OF inv] and S = inv_shapeD [OF frame_invD(1) [OF inv]]
  have "inv_shape ?st"
    using I(1) reg_in_memory [OF I(1)] usedD(1) [OF f] by (simp add: inv_shape_def release_frame_def)
  moreover have "inv_free ?st"
    using I(2) f by (auto simp: inv_free_def R used_def user_frame_def)
  moreover have "inv_used ?st"
    using I(3) hash_less [OF I(1)] ov by (auto simp: inv_used_def U R O drops_def)
  moreover have "inv_overflow ?st"
    using I(4) ov f hash_less [OF I(1)] by (auto simp: inv_overflow_def U R O drops_def)
  moreover have "inv_pages ?st"
    using I(5) by (auto simp: inv_pages_def U R)
  ultimately show ?thesis by (simp add: frame_inv_def)
qed

section \<open>The mapping of pages to frames\<close>

definition maps :: "mem_state \<Rightarrow> u32 \<Rightarrow> u32 \<Rightarrow> nat \<Rightarrow> bool" where
  "maps st pid page f \<longleftrightarrow> used st f \<and> pid_of st f = pid \<and> page_of st f = page"

definition mapped :: "mem_state \<Rightarrow> u32 \<Rightarrow> u32 \<Rightarrow> bool" where
  "mapped st pid page \<longleftrightarrow> (\<exists>f. maps st pid page f)"

text \<open>A scan of the whole table, the reference of the hashed look-up.\<close>

definition scan_table :: "u32 \<Rightarrow> u32 \<Rightarrow> mem_state \<Rightarrow> nat option" where
  "scan_table pid page st =
     find (\<lambda>f. f \<notin> set (available_frame_list st) \<and> page_is_right st f pid page)
       [first_free_frame (memory_conf st)..<n_frames st]"

lemma maps_unique: "frame_inv st \<Longrightarrow> maps st pid page f \<Longrightarrow> maps st pid page g \<Longrightarrow> f = g"
  by (auto simp: frame_inv_def inv_used_def maps_def)

lemma maps_hash_ok: "frame_inv st \<Longrightarrow> maps st pid page f \<Longrightarrow> hash_ok pid page"
  by (auto simp: frame_inv_def inv_used_def maps_def)

lemma mapped_hash_ok: "frame_inv st \<Longrightarrow> mapped st pid page \<Longrightarrow> hash_ok pid page"
  by (auto simp: mapped_def dest: maps_hash_ok)

lemma maps_pid: "frame_inv st \<Longrightarrow> maps st pid page f \<Longrightarrow> 0 < sint pid"
  by (auto simp: frame_inv_def inv_used_def maps_def)

lemma maps_frame: "maps st pid page f \<Longrightarrow> first_free_frame (memory_conf st) \<le> f \<and> f < n_frames st"
  by (simp add: maps_def used_def user_frame_def)

lemma scan_table_iff:
  assumes "frame_inv st"
  shows "scan_table pid page st = Some f \<longleftrightarrow> maps st pid page f"
proof
  assume "scan_table pid page st = Some f"
  then show "maps st pid page f"
    by (auto simp: scan_table_def find_Some_iff maps_def used_def user_frame_def page_is_right_def)
next
  assume m: "maps st pid page f"
  then have "scan_table pid page st \<noteq> None"
    by (auto simp: scan_table_def find_None_iff maps_def used_def user_frame_def page_is_right_def)
  then obtain g where "scan_table pid page st = Some g" by auto
  moreover from this have "maps st pid page g"
    by (auto simp: scan_table_def find_Some_iff maps_def used_def user_frame_def page_is_right_def)
  ultimately show "scan_table pid page st = Some f" using maps_unique [OF assms m] by simp
qed

lemma claim_maps:
  assumes "frame_inv st" "takes (available_frame_list st) f av"
  shows "maps (claim_frame f pid page segment av st) p q g \<longleftrightarrow> maps st p q g \<or> (g = f \<and> p = pid \<and> q = page)"
  using available_user_frame [OF assms(1) takesD(1) [OF assms(2)]]
  by (auto simp: maps_def claim_used [OF assms] claim_reg [OF assms])

lemma release_maps:
  assumes "frame_inv st" "used st f"
  shows "maps (release_frame f ov st) p q g \<longleftrightarrow> maps st p q g \<and> g \<noteq> f"
  by (auto simp: maps_def release_used release_reg [OF assms])

lemma right_used:
  assumes inv: "frame_inv st" and pid: "0 < sint pid" and f: "f < n_frames st"
  shows "page_is_right st f pid page \<longleftrightarrow> maps st pid page f"
proof
  assume r: "page_is_right st f pid page"
  have "pid \<noteq> 0" "pid \<noteq> - 1" using pid by auto
  with r inv have "\<not> f < first_free_frame (memory_conf st)" "f \<notin> set (available_frame_list st)"
    by (auto simp: page_is_right_def frame_inv_def inv_free_def)
  with f have "used st f" by (simp add: used_def user_frame_def)
  with r show "maps st pid page f" by (simp add: maps_def page_is_right_def)
qed (simp add: maps_def page_is_right_def)

text \<open>Changes of the list of page counts: the new list must still account for every used frame.\<close>

lemma pages_list_frame [simp]:
  "used (st\<lparr>pages_per_process_list := l\<rparr>) = used st"
  "inv_shape (st\<lparr>pages_per_process_list := l\<rparr>) = inv_shape st"
  "inv_free (st\<lparr>pages_per_process_list := l\<rparr>) = inv_free st"
  "inv_used (st\<lparr>pages_per_process_list := l\<rparr>) = inv_used st"
  "inv_overflow (st\<lparr>pages_per_process_list := l\<rparr>) = inv_overflow st"
  by (simp_all add: fun_eq_iff inv_shape_def inv_free_def inv_used_def inv_overflow_def used_def
      user_frame_def)

lemma pages_list_inv:
  assumes inv: "frame_inv st" and d: "distinct (map pp_pid l)"
    and ex: "\<And>p q. \<exists>r \<in> set (pages_per_process_list st). pp_pid r = p \<and> q < pp_pages_count r \<Longrightarrow>
               \<exists>r \<in> set l. pp_pid r = p \<and> q < pp_pages_count r"
  shows "frame_inv (st\<lparr>pages_per_process_list := l\<rparr>)"
proof -
  have "\<exists>r \<in> set l. pp_pid r = pid_of st f \<and> page_of st f < pp_pages_count r" if "used st f" for f
    using frame_invD(5) [OF inv] that by (intro ex) (auto simp: inv_pages_def)
  then have "inv_pages (st\<lparr>pages_per_process_list := l\<rparr>)"
    by (simp add: inv_pages_def d)
  with frame_invD [OF inv] show ?thesis
    by (simp add: frame_inv_def)
qed

lemma raise_count_inv:
  assumes inv: "frame_inv st" and i: "i < length (pages_per_process_list st)"
    and le: "pp_pages_count (pages_per_process_list st ! i) \<le> c"
  shows "frame_inv (st\<lparr>pages_per_process_list :=
     (pages_per_process_list st)[i := (pages_per_process_list st ! i)\<lparr>pp_pages_count := c\<rparr>]\<rparr>)"
proof -
  let ?l = "pages_per_process_list st"
  let ?l' = "?l[i := (?l ! i)\<lparr>pp_pages_count := c\<rparr>]"
  have m: "map pp_pid ?l' = map pp_pid ?l"
    using i by (intro nth_equalityI) (auto simp: nth_list_update)
  have ex: "\<exists>r \<in> set ?l'. pp_pid r = p \<and> q < pp_pages_count r"
    if "\<exists>r \<in> set ?l. pp_pid r = p \<and> q < pp_pages_count r" for p q
  proof -
    from that obtain j where j: "j < length ?l" "pp_pid (?l ! j) = p" "q < pp_pages_count (?l ! j)"
      by (auto simp: in_set_conv_nth)
    then have "?l' ! j \<in> set ?l'" by (intro nth_mem) simp
    moreover have "pp_pid (?l' ! j) = p \<and> q < pp_pages_count (?l' ! j)"
      using j le i by (cases "i = j") auto
    ultimately show ?thesis by blast
  qed
  show ?thesis
    by (rule pages_list_inv [OF inv _ ex]) (use frame_invD(5) [OF inv] m in \<open>simp_all add: inv_pages_def\<close>)
qed

text \<open>
  What assigning the \<open>n\<close> pages from \<open>c\<close> on to process \<open>pid\<close> must achieve: the invariant holds
  again, \<open>n\<close> frames are gone from the available list, the page count has grown by \<open>n\<close>, every old
  mapping is kept with its table entry, exactly the new pages are mapped in addition, and the
  \<open>k\<close>-th of them has segment \<open>seg k\<close>.
\<close>

definition assigned :: "u32 \<Rightarrow> nat \<Rightarrow> u32 \<Rightarrow> nat \<Rightarrow> (nat \<Rightarrow> byte) \<Rightarrow> mem_state \<Rightarrow> mem_state \<Rightarrow> bool" where
  "assigned pid i c n seg st st' \<longleftrightarrow> frame_inv st' \<and> memory_conf st' = memory_conf st
     \<and> length (available_frame_list st) = length (available_frame_list st') + n
     \<and> pages_per_process_list st' =
         (pages_per_process_list st)[i := (pages_per_process_list st ! i)\<lparr>pp_pages_count := c + word_of_nat n\<rparr>]
     \<and> (\<forall>p q g. maps st p q g \<longrightarrow> maps st' p q g \<and> get_reg (memory st') g = get_reg (memory st) g)
     \<and> (\<forall>p q g. maps st' p q g \<longrightarrow> maps st p q g \<or>
          (p = pid \<and> (\<exists>k < n. q = c + word_of_nat k \<and> it_segment (get_reg (memory st') g) = seg k)))
     \<and> (\<forall>k < n. mapped st' pid (c + word_of_nat k))"

definition page_segment :: "bool \<Rightarrow> int \<Rightarrow> nat \<Rightarrow> byte" where
  "page_segment init code_pages k =
     (if init then if int k < code_pages then CODE_SEGMENT else STACK_SEGMENT else HEAP_SEGMENT)"

lemma assigned_trans:
  assumes a: "assigned pid i c 1 (\<lambda>_. seg 0) st st1"
    and b: "assigned pid i (c + 1) n (\<lambda>k. seg (Suc k)) st1 st2"
  shows "assigned pid i c (Suc n) seg st st2"
proof -
  have old: "maps st1 p q g \<and> get_reg (memory st1) g = get_reg (memory st) g"
    if "maps st p q g" for p q g using a that by (simp add: assigned_def)
  have old2: "maps st2 p q g \<and> get_reg (memory st2) g = get_reg (memory st1) g"
    if "maps st1 p q g" for p q g using b that by (simp add: assigned_def)
  have new: "maps st p q g \<or> p = pid \<and> q = c \<and> it_segment (get_reg (memory st1) g) = seg 0"
    if "maps st1 p q g" for p q g using a that by (auto simp: assigned_def)
  have new2: "maps st1 p q g \<or> p = pid \<and> (\<exists>k < n. q = c + 1 + word_of_nat k \<and>
      it_segment (get_reg (memory st2) g) = seg (Suc k))"
    if "maps st2 p q g" for p q g using b that by (auto simp: assigned_def)
  have c1: "mapped st1 pid c" and c2: "\<And>k. k < n \<Longrightarrow> mapped st2 pid (c + 1 + word_of_nat k)"
    using a b by (auto simp: assigned_def)
  have c0: "mapped st2 pid c" using c1 old2 by (auto simp: mapped_def)
  have "mapped st2 pid (c + word_of_nat k)" if "k < Suc n" for k
    using c0 c2 that by (cases k) (simp_all add: add.assoc)
  moreover have "maps st p q g \<or> (p = pid \<and> (\<exists>k < Suc n. q = c + word_of_nat k \<and>
      it_segment (get_reg (memory st2) g) = seg k))" if "maps st2 p q g" for p q g
    using new2 [OF that]
  proof
    assume "maps st1 p q g"
    with new [OF this] old2 [OF this] show ?thesis by (auto intro!: exI [of _ 0])
  next
    assume "p = pid \<and> (\<exists>k < n. q = c + 1 + word_of_nat k \<and> it_segment (get_reg (memory st2) g) = seg (Suc k))"
    then show ?thesis by (auto simp: add.assoc intro!: exI [of _ "Suc _"])
  qed
  moreover have "pages_per_process_list st2 = (pages_per_process_list st)
      [i := (pages_per_process_list st ! i)\<lparr>pp_pages_count := c + word_of_nat (Suc n)\<rparr>]"
    using a b by (cases "i < length (pages_per_process_list st)")
      (simp_all add: assigned_def add.assoc list_update_beyond)
  moreover have "maps st2 p q g \<and> get_reg (memory st2) g = get_reg (memory st) g"
    if "maps st p q g" for p q g
    using old [OF that] old2 [of p q g] by simp
  ultimately show ?thesis
    using a b unfolding assigned_def by simp
qed

text \<open>The entry of the process in the list of page counts is appended when it is missing.\<close>

definition with_entry :: "u32 \<Rightarrow> mem_state \<Rightarrow> mem_state" where
  "with_entry pid st =
     (if pid \<in> pp_pid ` set (pages_per_process_list st) then st
      else st\<lparr>pages_per_process_list := pages_per_process_list st @ [\<lparr>pp_pid = pid, pp_pages_count = 0\<rparr>]\<rparr>)"

lemma with_entry_inv: "frame_inv st \<Longrightarrow> frame_inv (with_entry pid st)"
  unfolding with_entry_def
  by (auto intro!: pages_list_inv simp: frame_inv_def inv_pages_def)

section \<open>The operations with the lists of so-commons\<close>

locale mem_commons =
  fixes M :: mem_lib
  assumes frame_laws: "t_list_laws (frame_ops M)"
    and pages_laws: "t_list_laws (pages_ops M)"
    and cxp_laws: "t_list_laws (cxp_ops M)"

sublocale mem_commons \<subseteq> fr: t_list_laws "frame_ops M"
  by (rule frame_laws)

sublocale mem_commons \<subseteq> pg: t_list_laws "pages_ops M"
  by (rule pages_laws)

sublocale mem_commons \<subseteq> cx: t_list_laws "cxp_ops M"
  by (rule cxp_laws)

context mem_commons
begin

lemma get_frame_iff:
  assumes inv: "frame_inv st" and pid: "0 < sint pid"
  shows "get_frame M pid page st = Some (Some f) \<longleftrightarrow> maps st pid page f"
proof (cases "hash_ok pid page")
  case False
  then show ?thesis using maps_hash_ok [OF inv] by (auto simp: get_frame_def hashing_eq)
next
  case hok: True
  let ?h = "hash_frame (memory_conf st) pid page"
  have h: "?h < n_frames st" by (rule hash_less [OF frame_invD(1) [OF inv]])
  have ov: "g < n_frames st" if "g \<in> set (overflow st ! ?h)" for g
    using inv h that usedD(1) by (auto simp: frame_inv_def inv_overflow_def)
  show ?thesis
  proof (cases "page_is_right st ?h pid page")
    case True
    then show ?thesis
      using right_used [OF inv pid h] maps_unique [OF inv] by (auto simp: get_frame_def hashing_eq hok)
  next
    case False
    show ?thesis
    proof (cases "find_index (\<lambda>g. page_is_right st g pid page) (overflow st ! ?h)")
      case None
      have "\<not> maps st pid page f"
      proof
        assume m: "maps st pid page f"
        then have "f = ?h \<or> f \<in> set (overflow st ! ?h)"
          using inv by (auto simp: frame_inv_def inv_used_def maps_def)
        with m None False right_used [OF inv pid h] show False
          using right_used [OF inv pid ov] by (auto simp: find_index_None_iff)
      qed
      with None False show ?thesis
        by (simp add: get_frame_def hashing_eq hok searching_on_overflow_def)
    next
      case (Some i)
      let ?g = "overflow st ! ?h ! i"
      have "maps st pid page ?g"
        using right_used [OF inv pid ov] find_index_SomeD [OF Some] by auto
      with Some False show ?thesis
        using maps_unique [OF inv] fr.list_get_found [OF Some]
        by (auto simp: get_frame_def hashing_eq hok searching_on_overflow_def)
    qed
  qed
qed

lemma get_frame_defined: "get_frame M pid page st = None \<longleftrightarrow> \<not> hash_ok pid page"
  by (simp add: get_frame_def hashing_eq)

lemma get_frame_scan:
  assumes "frame_inv st" "0 < sint pid"
  shows "get_frame M pid page st = (if hash_ok pid page then Some (scan_table pid page st) else None)"
proof (cases "get_frame M pid page st")
  case None
  then show ?thesis by (simp add: get_frame_defined)
next
  case (Some r)
  then have "hash_ok pid page" using get_frame_defined [of pid page st] by simp
  moreover have "r = scan_table pid page st"
    using get_frame_iff [OF assms, of page] scan_table_iff [OF assms(1), of pid page] Some by (metis not_None_eq option.inject)
  ultimately show ?thesis using Some by simp
qed

lemma inicialize_page_claim:
  assumes inv: "frame_inv st" and ne: "available_frame_list st \<noteq> []" and hok: "hash_ok pid page"
  shows "\<exists>f av. takes (available_frame_list st) f av \<and>
     inicialize_page M pid page segment st = Some (claim_frame f pid page segment av st)"
proof -
  let ?h = "hash_frame (memory_conf st) pid page" and ?av = "available_frame_list st"
  have d: "distinct ?av" using inv by (simp add: frame_inv_def inv_free_def)
  show ?thesis
  proof (cases "find_index ((=) ?h) ?av")
    case None
    then have h: "?h \<notin> set ?av" by (auto simp: find_index_None_iff)
    let ?f = "?av ! 0"
    have "?f \<in> set ?av" using ne by simp
    with h have "?f \<noteq> ?h" by metis
    moreover have "list_remove (frame_ops M) ?av 0 = (?f, remove_at 0 ?av)"
      using ne by (intro fr.list_remove) simp
    ultimately have "inicialize_page M pid page segment st = Some (claim_frame ?f pid page segment (remove_at 0 ?av) st)"
      using None
      by (simp add: inicialize_page_def hashing_eq hok frame_is_available_def get_available_frame_def
          add_to_overflow_def claim_frame_def Let_def fr.list_add)
    moreover have "takes ?av ?f (remove_at 0 ?av)"
      using d ne by (intro takes_remove_at) simp_all
    ultimately show ?thesis by blast
  next
    case (Some i)
    have i: "i < length ?av" "?av ! i = ?h" using find_index_SomeD [OF Some] by auto
    have "inicialize_page M pid page segment st = Some (claim_frame ?h pid page segment (remove_at i ?av) st)"
      using Some fr.list_remove_found [OF Some]
      by (simp add: inicialize_page_def hashing_eq hok frame_is_available_def claim_frame_def Let_def)
    moreover have "takes ?av ?h (remove_at i ?av)"
      using takes_remove_at [OF d i(1)] i(2) by simp
    ultimately show ?thesis by blast
  qed
qed

lemma inicialize_page_hash_ok: "inicialize_page M pid page segment st = Some st' \<Longrightarrow> hash_ok pid page"
  by (auto simp: inicialize_page_def hashing_eq split: if_splits)

text \<open>One iteration of the loop of \<open>assign_pages_to_process\<close>.\<close>

lemma assign_step:
  assumes inv: "frame_inv st" and ne: "available_frame_list st \<noteq> []" and pid: "0 < sint pid"
    and i: "i < length (pages_per_process_list st)" "pp_pid (pages_per_process_list st ! i) = pid"
    and c: "c = pp_pages_count (pages_per_process_list st ! i)" "unat c + 1 < 2 ^ 32" and hok: "hash_ok pid c"
    and st1: "st1 = st\<lparr>pages_per_process_list :=
        (pages_per_process_list st)[i := (pages_per_process_list st ! i)\<lparr>pp_pages_count := c + 1\<rparr>]\<rparr>"
  shows "\<exists>f av. takes (available_frame_list st) f av \<and>
     inicialize_page M pid c segment st1 = Some (claim_frame f pid c segment av st1) \<and>
     frame_inv (claim_frame f pid c segment av st1) \<and>
     (\<forall>p q g. maps (claim_frame f pid c segment av st1) p q g \<longleftrightarrow>
        maps st p q g \<or> (g = f \<and> p = pid \<and> q = c)) \<and>
     (\<forall>g. get_reg (memory (claim_frame f pid c segment av st1)) g =
        (if g = f then \<lparr>it_frame = it_frame (get_reg (memory st) f), it_pid = pid, it_page = c, it_segment = segment\<rparr>
         else get_reg (memory st) g))"
proof -
  let ?l = "pages_per_process_list st"
  have lt: "c < c + 1"
    using c(2) by (simp add: word_less_nat_alt unat_word_ariths)
  have inv1: "frame_inv st1"
    unfolding st1 by (rule raise_count_inv [OF inv i(1)]) (use lt c(1) in simp)
  have av1: "available_frame_list st1 = available_frame_list st" and m1: "maps st1 = maps st"
    and mem1: "memory st1 = memory st" and u1: "used st1 = used st"
    by (simp_all add: st1 fun_eq_iff maps_def used_def user_frame_def)
  obtain f av where tk: "takes (available_frame_list st1) f av"
    and eq: "inicialize_page M pid c segment st1 = Some (claim_frame f pid c segment av st1)"
    using inicialize_page_claim [OF inv1 _ hok, of segment] ne av1 by metis
  have new: "page_of st1 g \<noteq> c" if g: "used st1 g" "pid_of st1 g = pid" for g
  proof -
    from g frame_invD(5) [OF inv] obtain r where r: "r \<in> set ?l" "pp_pid r = pid" "page_of st g < pp_pages_count r"
      by (auto simp: inv_pages_def u1 mem1)
    have "r = ?l ! i"
      using r i frame_invD(5) [OF inv]
      by (auto simp: inv_pages_def distinct_conv_nth in_set_conv_nth)
    with r c(1) show ?thesis by (auto simp: mem1)
  qed
  have "frame_inv (claim_frame f pid c segment av st1)"
  proof (rule claim_inv [OF inv1 tk pid hok new])
    show "(?l ! i)\<lparr>pp_pages_count := c + 1\<rparr> \<in> set (pages_per_process_list st1)"
      using i by (simp add: st1 set_update_memI)
  qed (use i lt in simp_all)
  then show ?thesis
    using tk eq claim_maps [OF inv1 tk] claim_reg [OF inv1 tk]
    by (intro exI [of _ f] exI [of _ av]) (simp add: av1 m1 mem1)
qed

lemma assign_loop_assigned:
  assumes "frame_inv st" "n \<le> length (available_frame_list st)" "0 < sint pid"
    and "i < length (pages_per_process_list st)" "pp_pid (pages_per_process_list st ! i) = pid"
    and "unat (pp_pages_count (pages_per_process_list st ! i)) + n < 2 ^ 32"
    and "assign_loop M pid i init n cp st = Some st'"
  shows "assigned pid i (pp_pages_count (pages_per_process_list st ! i)) n (page_segment init cp) st st'"
  using assms
proof (induction n arbitrary: st cp)
  case 0
  then show ?case by (simp add: assigned_def)
next
  case (Suc n)
  let ?l = "pages_per_process_list st"
  define c where "c = pp_pages_count (?l ! i)"
  define st1 where "st1 = st\<lparr>pages_per_process_list := ?l[i := (?l ! i)\<lparr>pp_pages_count := c + 1\<rparr>]\<rparr>"
  obtain st2 where ini: "inicialize_page M pid c (page_segment init cp 0) st1 = Some st2"
    and rest: "assign_loop M pid i init n (if init then cp - 1 else cp) st2 = Some st'"
  proof -
    have "Option.bind (inicialize_page M pid c (page_segment init cp 0) st1)
        (assign_loop M pid i init n (if init then cp - 1 else cp)) = Some st'"
      using Suc.prems(7) by (cases init; cases "0 < cp") (simp_all add: st1_def c_def page_segment_def Let_def)
    then show ?thesis using that by (auto simp: bind_eq_Some_conv)
  qed
  have ne: "available_frame_list st \<noteq> []" and c1: "unat c + 1 < 2 ^ 32"
    using Suc.prems by (auto simp: c_def)
  from assign_step [OF Suc.prems(1) ne Suc.prems(3,4,5) c_def c1 inicialize_page_hash_ok [OF ini] st1_def, of "page_segment init cp 0"]
  obtain f av where f: "takes (available_frame_list st) f av"
      "st2 = claim_frame f pid c (page_segment init cp 0) av st1" "frame_inv st2"
      "\<And>p q g. maps st2 p q g \<longleftrightarrow> maps st p q g \<or> (g = f \<and> p = pid \<and> q = c)"
      "\<And>g. get_reg (memory st2) g =
        (if g = f then \<lparr>it_frame = it_frame (get_reg (memory st) f), it_pid = pid, it_page = c,
            it_segment = page_segment init cp 0\<rparr> else get_reg (memory st) g)"
    using ini by auto
  have pl: "pages_per_process_list st2 = ?l[i := (?l ! i)\<lparr>pp_pages_count := c + 1\<rparr>]"
    and av: "available_frame_list st2 = av" and cf: "memory_conf st2 = memory_conf st"
    by (simp_all add: f(2) st1_def)
  have nf: "\<not> maps st p q f" for p q
    using available_user_frame [OF Suc.prems(1) takesD(1) [OF f(1)]] by (simp add: maps_def)
  have a: "assigned pid i c 1 (\<lambda>_. page_segment init cp 0) st st2"
    using f(3) takesD(4) [OF f(1)] nf
    by (auto simp: assigned_def pl av cf f(4,5) mapped_def)
  have uc: "unat (c + 1) = unat c + 1" using c1 by (simp add: unat_word_ariths)
  have "assigned pid i (pp_pages_count (pages_per_process_list st2 ! i)) n
      (page_segment init (if init then cp - 1 else cp)) st2 st'"
    using Suc.prems takesD(4) [OF f(1)] uc
    by (intro Suc.IH [OF f(3) _ _ _ _ _ rest]) (simp_all add: pl av c_def)
  moreover have "page_segment init (if init then cp - 1 else cp) = (\<lambda>k. page_segment init cp (Suc k))"
    by (auto simp: page_segment_def fun_eq_iff)
  moreover have "pp_pages_count (pages_per_process_list st2 ! i) = c + 1"
    using Suc.prems(4) by (simp add: pl)
  ultimately have "assigned pid i (c + 1) n (\<lambda>k. page_segment init cp (Suc k)) st2 st'"
    by simp
  then show ?case
    using assigned_trans [where seg = "page_segment init cp", OF a] unfolding c_def by simp
qed

text \<open>
  The whole of \<open>assign_pages_to_process\<close>: the entry of the process is found or appended, and the loop
  runs on it.
\<close>

lemma assign_pages_loop:
  assumes fit: "sint n \<le> int (length (available_frame_list st))"
  shows "\<exists>i. assign_pages_to_process M pid n init st = map_option (Pair SUCCESS)
       (assign_loop M pid i init (nat (sint n)) (sint n - sint (stack_size st)) (with_entry pid st)) \<and>
     i < length (pages_per_process_list (with_entry pid st)) \<and>
     pp_pid (pages_per_process_list (with_entry pid st) ! i) = pid"
proof (cases "find_index (\<lambda>r. pp_pid r = pid) (pages_per_process_list st)")
  case None
  then have "pid \<notin> pp_pid ` set (pages_per_process_list st)" by (auto simp: find_index_None_iff)
  with None fit show ?thesis
    by (intro exI [of _ "length (pages_per_process_list st)"])
      (simp add: assign_pages_to_process_def with_entry_def pg.list_add Let_def)
next
  case (Some i)
  from find_index_SomeD [OF this] have "pid \<in> pp_pid ` set (pages_per_process_list st)" by auto
  with Some find_index_SomeD [OF Some] fit show ?thesis
    by (intro exI [of _ i]) (simp add: assign_pages_to_process_def with_entry_def Let_def)
qed

lemma assign_pages_enough:
  assumes inv: "frame_inv st" and pid: "0 < sint pid"
    and fit: "sint n \<le> int (length (available_frame_list st))"
    and cnt: "\<And>r. r \<in> set (pages_per_process_list st) \<Longrightarrow> pp_pid r = pid \<Longrightarrow>
               unat (pp_pages_count r) + nat (sint n) < 2 ^ 32"
    and run: "assign_pages_to_process M pid n init st = Some (rc, st')"
  shows "\<exists>i c. rc = SUCCESS \<and>
     i < length (pages_per_process_list (with_entry pid st)) \<and>
     pages_per_process_list (with_entry pid st) ! i = \<lparr>pp_pid = pid, pp_pages_count = c\<rparr> \<and>
     assigned pid i c (nat (sint n)) (page_segment init (sint n - sint (stack_size st))) (with_entry pid st) st'"
proof -
  let ?l = "pages_per_process_list st" and ?e = "\<lparr>pp_pid = pid, pp_pages_count = 0\<rparr>"
  let ?cp = "sint n - sint (stack_size st)"
  have sn: "nat (sint n) < 2 ^ 32"
    using sint_lt [of n] by simp
  obtain i where i: "assign_pages_to_process M pid n init st =
       map_option (Pair SUCCESS) (assign_loop M pid i init (nat (sint n)) ?cp (with_entry pid st))"
     "i < length (pages_per_process_list (with_entry pid st))"
     "pp_pid (pages_per_process_list (with_entry pid st) ! i) = pid"
    using assign_pages_loop [OF fit] by blast
  then have run': "rc = SUCCESS" "assign_loop M pid i init (nat (sint n)) ?cp (with_entry pid st) = Some st'"
    using run by (auto simp: map_option_case split: option.splits)
  let ?r = "pages_per_process_list (with_entry pid st) ! i"
  have "unat (pp_pages_count ?r) + nat (sint n) < 2 ^ 32"
  proof (cases "?r \<in> set ?l")
    case True
    with cnt i(3) show ?thesis by blast
  next
    case False
    then have "?r = ?e"
      using nth_mem [OF i(2)] by (auto simp: with_entry_def split: if_splits)
    with sn show ?thesis by simp
  qed
  then have "assigned pid i (pp_pages_count ?r) (nat (sint n)) (page_segment init ?cp) (with_entry pid st) st'"
    using fit by (intro assign_loop_assigned [OF with_entry_inv [OF inv] _ pid i(2,3) _ run'(2)]) (simp_all add: with_entry_def)
  with i run' show ?thesis
    by (intro exI [of _ i] exI [of _ "pp_pages_count ?r"]) simp
qed

text \<open>The loop gets through when the numbers of all new pages fit into the array of \<open>hashing\<close>.\<close>

lemma inicialize_page_some:
  "hash_ok pid page \<Longrightarrow> \<exists>st'. inicialize_page M pid page segment st = Some st' \<and>
     pages_per_process_list st' = pages_per_process_list st"
  by (auto simp: inicialize_page_def hashing_eq frame_is_available_def get_available_frame_def add_to_overflow_def Let_def
      split: prod.splits option.splits bool.splits)

lemma assign_loop_some:
  assumes "i < length (pages_per_process_list st)"
    and "\<And>k. k < n \<Longrightarrow> hash_ok pid (pp_pages_count (pages_per_process_list st ! i) + word_of_nat k)"
  shows "\<exists>st'. assign_loop M pid i init n cp st = Some st'"
  using assms
proof (induction n arbitrary: st cp)
  case (Suc n)
  let ?l = "pages_per_process_list st" and ?c = "pp_pages_count (pages_per_process_list st ! i)"
  let ?st1 = "st\<lparr>pages_per_process_list := ?l[i := (?l ! i)\<lparr>pp_pages_count := ?c + 1\<rparr>]\<rparr>"
  have "hash_ok pid ?c" using Suc.prems(2) [of 0] by simp
  then obtain st2 where st2: "inicialize_page M pid ?c (page_segment init cp 0) ?st1 = Some st2"
      "pages_per_process_list st2 = pages_per_process_list ?st1"
    using inicialize_page_some by blast
  have "hash_ok pid (pp_pages_count (pages_per_process_list st2 ! i) + word_of_nat k)" if "k < n" for k
    using Suc.prems(2) [of "Suc k"] that Suc.prems(1) by (simp add: st2(2) add.assoc)
  then obtain st' where "assign_loop M pid i init n (if init then cp - 1 else cp) st2 = Some st'"
    using Suc.IH [of st2] Suc.prems(1) st2(2) by auto
  with st2(1) show ?case by (auto simp: page_segment_def Let_def)
qed simp

section \<open>Release\<close>

lemma delete_page_release:
  assumes inv: "frame_inv st" and m: "maps st pid page f"
  shows "\<exists>ov. drops (overflow st ! hash_of st f) f ov \<and>
     delete_page_frame M pid page st = Some (release_frame f ov st)"
proof -
  have pid: "0 < sint pid" by (rule maps_pid [OF inv m])
  let ?h = "hash_frame (memory_conf st) pid page"
  have h: "?h < n_frames st" by (rule hash_less [OF frame_invD(1) [OF inv]])
  have hok: "hash_ok pid page" by (rule maps_hash_ok [OF inv m])
  have hf: "hash_of st f = ?h" using m by (simp add: maps_def)
  let ?ov = "overflow st ! ?h"
  have O: "distinct ?ov" "\<And>g. g \<in> set ?ov \<Longrightarrow> g < n_frames st" "?h \<notin> set ?ov"
    using frame_invD(4) [OF inv] h usedD(1) by (auto simp: inv_overflow_def)
  show ?thesis
  proof (cases "page_is_right st ?h pid page")
    case True
    then have "f = ?h" using right_used [OF inv pid h] maps_unique [OF inv m] by simp
    then show ?thesis
      using True O hf
      by (intro exI [of _ ?ov])
        (simp add: drops_def delete_page_frame_def hashing_eq hok release_frame_def Let_def fr.list_add)
  next
    case False
    have "f \<noteq> ?h" using False m by (auto simp: maps_def page_is_right_def)
    then have fo: "f \<in> set ?ov"
      using frame_invD(3) [OF inv] m by (auto simp: inv_used_def maps_def)
    then obtain i where i: "find_index (\<lambda>g. page_is_right st g pid page) ?ov = Some i"
      using m by (cases "find_index (\<lambda>g. page_is_right st g pid page) ?ov")
        (auto simp: find_index_None_iff maps_def page_is_right_def)
    have g: "?ov ! i = f"
      using find_index_SomeD [OF i] right_used [OF inv pid O(2)] maps_unique [OF inv _ m] by auto
    have "drops ?ov f (remove_at i ?ov)"
      using find_index_SomeD(1) [OF i] O(1) g
      by (auto simp: drops_def set_remove_at_distinct distinct_remove_at)
    then show ?thesis
      using False i g hf fr.list_get_found [OF i] fr.list_remove_found [OF i]
      by (intro exI [of _ "remove_at i ?ov"])
        (simp add: delete_page_frame_def hashing_eq hok release_frame_def Let_def fr.list_add)
  qed
qed

text \<open>
  Deleting a page that is not mapped while its bucket has an overflow list: the last frame of the
  list is given back, although it holds a page of its own.
\<close>

lemma delete_unmapped_frame:
  assumes inv: "frame_inv st" and pid: "0 < sint pid" and nm: "\<not> mapped st pid page"
    and hok: "hash_ok pid page" and ne: "overflow st ! hash_frame (memory_conf st) pid page \<noteq> []"
  shows "\<exists>p q f. maps st p q f \<and> f = last (overflow st ! hash_frame (memory_conf st) pid page) \<and>
     delete_page_frame M pid page st =
       Some (st\<lparr>memory := set_reg f 0 0 NO_SEGMENT (memory st),
                available_frame_list := available_frame_list st @ [f]\<rparr>)"
proof -
  let ?h = "hash_frame (memory_conf st) pid page"
  let ?ov = "overflow st ! ?h" and ?f = "last (overflow st ! ?h)"
  have h: "?h < n_frames st" by (rule hash_less [OF frame_invD(1) [OF inv]])
  have O: "\<And>g. g \<in> set ?ov \<Longrightarrow> used st g"
    using frame_invD(4) [OF inv] h by (auto simp: inv_overflow_def)
  then have f: "used st ?f" using ne last_in_set by blast
  have "\<not> page_is_right st ?h pid page"
    using nm right_used [OF inv pid h] by (auto simp: mapped_def)
  moreover have "find_index (\<lambda>g. page_is_right st g pid page) ?ov = None"
    using nm right_used [OF inv pid usedD(1) [OF O]] by (auto simp: mapped_def find_index_None_iff)
  moreover have "list_get (frame_ops M) ?ov (length ?ov - 1) = ?f"
    using ne by (simp add: fr.list_get last_conv_nth)
  ultimately show ?thesis
    using ne f
    by (intro exI [of _ "pid_of st ?f"] exI [of _ "page_of st ?f"] exI [of _ ?f])
      (simp add: delete_page_frame_def hashing_eq hok Let_def fr.list_add maps_def)
qed

lemma remove_from_overflow_eq:
  assumes "distinct (overflow st ! h)" "f \<in> set (overflow st ! h)"
  shows "\<exists>ov. drops (overflow st ! h) f ov \<and>
     remove_from_overflow M h f st = st\<lparr>overflow := (overflow st)[h := ov]\<rparr>"
proof -
  obtain i where i: "find_index ((=) f) (overflow st ! h) = Some i"
    using assms(2) by (cases "find_index ((=) f) (overflow st ! h)") (auto simp: find_index_None_iff)
  have "drops (overflow st ! h) f (remove_at i (overflow st ! h))"
    using find_index_SomeD [OF i] assms(1)
    by (auto simp: drops_def set_remove_at_distinct distinct_remove_at)
  then show ?thesis
    using i fr.list_remove_found [OF i] by (intro exI) (auto simp: remove_from_overflow_def)
qed

text \<open>
  After the loop of \<open>cleaning_process_entries\<close> has passed the frames from \<open>frame\<close> on, exactly the
  mappings of the process to those frames are gone, and their frames are available again.
\<close>

lemma clean_frames_release:
  assumes "frame_inv st" "0 < sint pid" "frame + n = n_frames st"
  shows "\<exists>st'. clean_frames M pid frame n st = Some st' \<and> frame_inv st' \<and> memory_conf st' = memory_conf st \<and>
    pages_per_process_list st' = pages_per_process_list st \<and>
    (\<forall>p q g. maps st' p q g \<longleftrightarrow> maps st p q g \<and> \<not> (p = pid \<and> frame \<le> g)) \<and>
    (\<forall>p q g. maps st' p q g \<longrightarrow> get_reg (memory st') g = get_reg (memory st) g)"
  using assms
proof (induction n arbitrary: frame st)
  case 0
  then show ?case by (auto dest: maps_frame)
next
  case (Suc n)
  let ?r = "get_reg (memory st) frame"
  have fn: "frame < n_frames st" using Suc.prems by simp
  show ?case
  proof (cases "it_pid ?r = pid")
    case False
    have nm: "\<not> maps st pid q frame" for q using False by (simp add: maps_def)
    have gt: "Suc frame \<le> g \<longleftrightarrow> frame \<le> g" if "maps st pid q g" for q g
      using nm that by (metis Suc_leD not_less_eq_eq le_antisym)
    have "clean_frames M pid frame (Suc n) st = clean_frames M pid (Suc frame) n st"
      using False by simp
    moreover note Suc.IH [of st "Suc frame"]
    ultimately show ?thesis using Suc.prems gt by (fastforce simp del: clean_frames.simps)
  next
    case True
    have m: "maps st pid (it_page ?r) frame"
      using right_used [OF Suc.prems(1,2) fn] True by (auto simp: page_is_right_def)
    then have u: "used st frame" by (simp add: maps_def)
    let ?h = "hash_of st frame"
    have hok: "hash_ok pid (it_page ?r)" by (rule maps_hash_ok [OF Suc.prems(1) m])
    have h: "?h < n_frames st" by (rule hash_less [OF frame_invD(1) [OF Suc.prems(1)]])
    have O: "distinct (overflow st ! ?h)" "?h \<notin> set (overflow st ! ?h)"
      using frame_invD(4) [OF Suc.prems(1)] h by (auto simp: inv_overflow_def)
    obtain ov where ov: "drops (overflow st ! ?h) frame ov"
      "clean_frames M pid frame (Suc n) st = clean_frames M pid (Suc frame) n (release_frame frame ov st)"
    proof (cases "frame = ?h")
      case fh: True
      then have "drops (overflow st ! ?h) frame (overflow st ! ?h)"
        using O by (simp add: drops_def)
      moreover have "clean_frames M pid frame (Suc n) st =
          clean_frames M pid (Suc frame) n (release_frame frame (overflow st ! ?h) st)"
        using True fh hok by (simp add: release_frame_def Let_def fr.list_add hashing_eq)
      ultimately show ?thesis by (rule that)
    next
      case fh: False
      then have "frame \<in> set (overflow st ! ?h)"
        using frame_invD(3) [OF Suc.prems(1)] u by (auto simp: inv_used_def)
      from remove_from_overflow_eq [OF O(1) this] obtain ov where
        "drops (overflow st ! ?h) frame ov"
        "remove_from_overflow M ?h frame st = st\<lparr>overflow := (overflow st)[?h := ov]\<rparr>" by blast
      moreover from this have "clean_frames M pid frame (Suc n) st =
          clean_frames M pid (Suc frame) n (release_frame frame ov st)"
        using True fh hok by (simp add: release_frame_def Let_def fr.list_add hashing_eq)
      ultimately show ?thesis by (intro that)
    qed
    let ?st = "release_frame frame ov st"
    have inv': "frame_inv ?st" by (rule release_inv [OF Suc.prems(1) u ov(1)])
    obtain st' where st': "clean_frames M pid (Suc frame) n ?st = Some st'" "frame_inv st'"
        "memory_conf st' = memory_conf ?st" "pages_per_process_list st' = pages_per_process_list ?st"
        "\<And>p q g. maps st' p q g \<longleftrightarrow> maps ?st p q g \<and> \<not> (p = pid \<and> Suc frame \<le> g)"
        "\<And>p q g. maps st' p q g \<Longrightarrow> get_reg (memory st') g = get_reg (memory ?st) g"
      using Suc.IH [OF inv' Suc.prems(2), of "Suc frame"] Suc.prems(3) by auto
    have step: "maps ?st p q g \<and> \<not> (p = pid \<and> Suc frame \<le> g) \<longleftrightarrow>
        maps st p q g \<and> \<not> (p = pid \<and> frame \<le> g)" for p q g
    proof -
      have "p = pid" if "maps st p q frame" using that True by (simp add: maps_def)
      then show ?thesis by (auto simp: release_maps [OF Suc.prems(1) u] Suc_le_eq)
    qed
    show ?thesis
      unfolding ov(2) using st' step release_reg [OF Suc.prems(1) u]
      by (intro exI [of _ st']) (auto simp: release_maps [OF Suc.prems(1) u])
  qed
qed

end

section \<open>Start-up\<close>

definition initial_reg :: "nat \<Rightarrow> nat \<Rightarrow> t_reg_invert_table" where
  "initial_reg first f =
     (if f < first
      then \<lparr>it_frame = word_of_nat f, it_pid = - 1, it_page = word_of_nat f, it_segment = NO_SEGMENT\<rparr>
      else \<lparr>it_frame = word_of_nat f, it_pid = 0, it_page = 0, it_segment = NO_SEGMENT\<rparr>)"

definition page_count :: "u32 \<Rightarrow> mem_state \<Rightarrow> u32" where
  "page_count pid st =
     (case find (\<lambda>r. pp_pid r = pid) (pages_per_process_list st) of
        None \<Rightarrow> 0 | Some r \<Rightarrow> pp_pages_count r)"

lemma page_count_at:
  assumes "distinct (map pp_pid (pages_per_process_list st))" "i < length (pages_per_process_list st)"
    and "pp_pid (pages_per_process_list st ! i) = pid"
  shows "page_count pid st = pp_pages_count (pages_per_process_list st ! i)"
proof -
  have "find (\<lambda>r. pp_pid r = pid) (pages_per_process_list st) = Some (pages_per_process_list st ! i)"
    unfolding find_Some_iff
    using assms by (intro exI [of _ i]) (auto simp: distinct_conv_nth)
  then show ?thesis by (simp add: page_count_def)
qed

lemma find_None_append: "find P xs = None \<Longrightarrow> find P (xs @ ys) = find P ys"
  by (induction xs) (auto split: if_splits)

lemma page_count_with_entry [simp]: "page_count pid (with_entry pid st) = page_count pid st"
proof (cases "pid \<in> pp_pid ` set (pages_per_process_list st)")
  case False
  then have "find (\<lambda>r. pp_pid r = pid) (pages_per_process_list st) = None"
    by (auto simp: find_None_iff)
  with False show ?thesis by (simp add: page_count_def with_entry_def find_None_append)
qed (simp add: with_entry_def)

lemma with_entry_frame [simp]:
  "maps (with_entry pid st) = maps st"
  "available_frame_list (with_entry pid st) = available_frame_list st"
  "memory (with_entry pid st) = memory st"
  "memory_conf (with_entry pid st) = memory_conf st"
  by (simp_all add: with_entry_def fun_eq_iff maps_def used_def user_frame_def)

context mem_commons
begin

lemma load_frames_spec:
  assumes "16 * (frame + n) \<le> length m"
  shows "\<exists>m'. load_frames M junk first frame n m av = Some (m', av @ [max first frame..<frame + n]) \<and>
     length m' = length m \<and>
     (\<forall>f. get_reg m' f = (if frame \<le> f \<and> f < frame + n then initial_reg first f else get_reg m f))"
  using assms
proof (induction n arbitrary: frame m av)
  case 0
  then show ?case by auto
next
  case (Suc n)
  let ?m = "mem_write (16 * frame) (reg_bytes junk (initial_reg first frame)) m"
  let ?av = "if frame < first then av else av @ [frame]"
  have len: "length ?m = length m" using Suc.prems by simp
  from Suc.IH [of "Suc frame" ?m ?av] Suc.prems obtain m' where
    m': "load_frames M junk first (Suc frame) n ?m ?av = Some (m', ?av @ [max first (Suc frame)..<Suc frame + n])"
      "length m' = length m"
      "\<And>f. get_reg m' f = (if Suc frame \<le> f \<and> f < Suc frame + n then initial_reg first f else get_reg ?m f)"
    using len by auto
  have "load_frames M junk first frame (Suc n) m av = load_frames M junk first (Suc frame) n ?m ?av"
    using Suc.prems by (simp add: initial_reg_def reg_size_def fr.list_add Let_def)
  moreover have "?av @ [max first (Suc frame)..<Suc frame + n] = av @ [max first frame..<frame + Suc n]"
    by (cases "first = Suc frame") (auto simp: max_def upt_conv_Cons)
  moreover have "get_reg m' f = (if frame \<le> f \<and> f < frame + Suc n then initial_reg first f else get_reg m f)" for f
    using Suc.prems by (auto simp: m'(3) get_reg_load_same get_reg_load_other not_le less_Suc_eq_le)
  ultimately show ?case using m' by (intro exI [of _ m']) simp
qed

lemma load_inv:
  assumes c: "conf_ok c"
  shows "\<exists>st. load M junk c = Some st \<and> frame_inv st \<and> memory_conf st = c \<and>
     available_frame_list st = [first_free_frame c..<unat (frames c)] \<and>
     pages_per_process_list st = [] \<and> overflow st = replicate (unat (frames c)) [] \<and> cache_x_process_list st = [] \<and> kernel_client st = 0 \<and> stack_size st = 0 \<and>
     last_used_time st = replicate (unat (cache_entries c)) None \<and>
     cache_memory st = replicate (unat (cache_entries c))
       \<lparr>cm_pid = - 1, cm_page = - 1, cm_content = junk_bytes junk (unat (frame_size c))\<rparr>"
proof -
  let ?n = "unat (frames c)" and ?s = "unat (frame_size c)"
  let ?m = "junk_bytes junk (unat (frames c * frame_size c))"
  have b: "?n * ?s < 2 ^ 31" "16 \<le> ?s" "0 < ?n" using c by (auto simp: conf_ok_def)
  then have len: "length ?m = ?n * ?s"
    by (simp add: junk_bytes_def unat_word_ariths)
  have "16 * ?n \<le> ?n * ?s" using b by simp
  from load_frames_spec [of 0 ?n ?m junk "first_free_frame c" "[]"] this len obtain m where
    m: "load_frames M junk (first_free_frame c) 0 ?n ?m [] = Some (m, [first_free_frame c..<?n])"
      "length m = ?n * ?s" "\<And>f. f < ?n \<Longrightarrow> get_reg m f = initial_reg (first_free_frame c) f"
    by auto
  have fs: "frame_size c \<noteq> 0" using b by auto
  obtain st where st: "load M junk c = Some st" "memory_conf st = c" "memory st = m"
    "available_frame_list st = [first_free_frame c..<?n]" "pages_per_process_list st = []"
    "overflow st = replicate ?n []" "cache_x_process_list st = []" "kernel_client st = 0" "stack_size st = 0"
    "last_used_time st = replicate (unat (cache_entries c)) None"
    "cache_memory st = replicate (unat (cache_entries c))
       \<lparr>cm_pid = - 1, cm_page = - 1, cm_content = junk_bytes junk (unat (frame_size c))\<rparr>"
    using fs m(1) by (simp add: load_def)
  have nu: "\<not> used st f" for f
    using st by (auto simp: used_def user_frame_def)
  have "frame_inv st"
    using c m st nu first_free_frame_bounds(2) [OF c]
    by (auto simp: frame_inv_parts user_frame_def initial_reg_def)
  with st show ?thesis by blast
qed

lemma assign_pages_mapped:
  assumes inv: "frame_inv st" and pid: "0 < sint pid"
    and fit: "sint n \<le> int (length (available_frame_list st))"
    and cnt: "unat (page_count pid st) + nat (sint n) < 2 ^ 32"
    and run: "assign_pages_to_process M pid n init st = Some (rc, st')"
  shows "\<exists>i. assigned pid i (page_count pid st) (nat (sint n))
       (page_segment init (sint n - sint (stack_size st))) (with_entry pid st) st' \<and>
     rc = SUCCESS \<and> page_count pid st' = page_count pid st + word_of_nat (nat (sint n))"
proof -
  have d: "distinct (map pp_pid (pages_per_process_list st))" "distinct (map pp_pid (pages_per_process_list (with_entry pid st)))"
    using inv with_entry_inv [OF inv, of pid] by (simp_all add: frame_inv_def inv_pages_def)
  have "unat (pp_pages_count r) + nat (sint n) < 2 ^ 32"
    if "r \<in> set (pages_per_process_list st)" "pp_pid r = pid" for r
    using that cnt page_count_at [OF d(1)] by (auto simp: in_set_conv_nth)
  from assign_pages_enough [OF inv pid fit this run] obtain i c where
    i: "rc = SUCCESS"
      "i < length (pages_per_process_list (with_entry pid st))"
      "pages_per_process_list (with_entry pid st) ! i = \<lparr>pp_pid = pid, pp_pages_count = c\<rparr>"
      "assigned pid i c (nat (sint n)) (page_segment init (sint n - sint (stack_size st))) (with_entry pid st) st'"
    by auto
  have c: "c = page_count pid st"
    using page_count_at [OF d(2) i(2)] i(3) by simp
  have l: "pages_per_process_list st' = (pages_per_process_list (with_entry pid st))
        [i := \<lparr>pp_pid = pid, pp_pages_count = c + word_of_nat (nat (sint n))\<rparr>]"
    and inv': "frame_inv st'"
    using i(4) by (simp_all add: assigned_def i(3))
  have "page_count pid st' = c + word_of_nat (nat (sint n))"
    using page_count_at [of st' i pid] inv' i(2) by (simp add: l frame_inv_def inv_pages_def)
  with i c show ?thesis by auto
qed

lemma assign_pages_some:
  assumes inv: "frame_inv st"
    and hok: "\<And>k. int k < sint n \<Longrightarrow> hash_ok pid (page_count pid st + word_of_nat k)"
  shows "\<exists>rc st'. assign_pages_to_process M pid n init st = Some (rc, st')"
proof (cases "sint n \<le> int (length (available_frame_list st))")
  case True
  from assign_pages_loop [OF this, of pid init] obtain i where
    i: "assign_pages_to_process M pid n init st = map_option (Pair SUCCESS)
       (assign_loop M pid i init (nat (sint n)) (sint n - sint (stack_size st)) (with_entry pid st))"
     "i < length (pages_per_process_list (with_entry pid st))"
     "pp_pid (pages_per_process_list (with_entry pid st) ! i) = pid" by blast
  have "distinct (map pp_pid (pages_per_process_list (with_entry pid st)))"
    using with_entry_inv [OF inv, of pid] by (simp add: frame_inv_def inv_pages_def)
  from page_count_at [OF this i(2,3)]
  have "hash_ok pid (pp_pages_count (pages_per_process_list (with_entry pid st) ! i) + word_of_nat k)"
    if "k < nat (sint n)" for k
    using hok [of k] that by simp
  from assign_loop_some [OF i(2) this] obtain st' where
    "assign_loop M pid i init (nat (sint n)) (sint n - sint (stack_size st)) (with_entry pid st) = Some st'" by blast
  with i(1) show ?thesis by auto
qed (simp add: assign_pages_to_process_def)

lemma assign_pages_hash_ok:
  assumes inv: "frame_inv st" and pid: "0 < sint pid"
    and fit: "sint n \<le> int (length (available_frame_list st))"
    and cnt: "unat (page_count pid st) + nat (sint n) < 2 ^ 32"
    and run: "assign_pages_to_process M pid n init st = Some (rc, st')" and k: "int k < sint n"
  shows "hash_ok pid (page_count pid st + word_of_nat k)"
proof -
  obtain i where "assigned pid i (page_count pid st) (nat (sint n))
       (page_segment init (sint n - sint (stack_size st))) (with_entry pid st) st'"
    using assign_pages_mapped [OF inv pid fit cnt run] by blast
  then have "frame_inv st'" "mapped st' pid (page_count pid st + word_of_nat k)"
    using k by (auto simp: assigned_def)
  then show ?thesis by (rule mapped_hash_ok)
qed

end

text \<open>A library with the documented behaviour, and the interface it satisfies.\<close>

definition seq_mem_lib :: mem_lib where
  "seq_mem_lib = \<lparr>frame_ops = seq_list_ops, pages_ops = seq_list_ops, cxp_ops = seq_list_ops,
                  string_time = (\<lambda>n. dec_nat (n + 100))\<rparr>"

interpretation seq_mem: mem_commons seq_mem_lib
  by unfold_locales (simp_all add: seq_mem_lib_def seq_list_ops_def)


text \<open>A memory of eight 64-byte frames, the first two of them taken by the table.\<close>

definition demo_conf :: t_memory_conf where
  "demo_conf = \<lparr>frames = 8, frame_size = 64, cache_entries = 3, cache_x_process = 2, memory_delay = 0\<rparr>"

lemma demo_conf_ok: "conf_ok demo_conf" "first_free_frame demo_conf = 2"
proof -
  show ok: "conf_ok demo_conf" by (simp add: conf_ok_def demo_conf_def)
  show "first_free_frame demo_conf = 2"
    by (simp add: first_free_frame_nat [OF ok]) (simp add: demo_conf_def)
qed

lemma demo_load:
  "\<exists>st. load seq_mem_lib (\<lambda>_. 0) demo_conf = Some st \<and> frame_inv st \<and> memory_conf st = demo_conf \<and>
     length (available_frame_list st) = 6 \<and> page_count pid st = 0 \<and> stack_size st = 0 \<and> (\<forall>p q. \<not> mapped st p q)"
  using seq_mem.load_inv [OF demo_conf_ok(1), of "\<lambda>_. 0"] demo_conf_ok(2)
  by (auto simp: page_count_def demo_conf_def mapped_def maps_def used_def user_frame_def)

lemma demo_assign:
  assumes "frame_inv st" "length (available_frame_list st) = 6" "page_count 5 st = 0" "\<And>p q. \<not> mapped st p q"
    and n: "sint n \<in> {0..6}"
  shows "\<exists>st'. assign_pages_to_process seq_mem_lib 5 n True st = Some (SUCCESS, st') \<and> frame_inv st' \<and>
     (\<forall>p q. mapped st' p q \<longleftrightarrow> p = 5 \<and> (\<exists>k < nat (sint n). q = word_of_nat k))"
proof -
  have "hash_ok 5 (page_count 5 st + word_of_nat k)" if "int k < sint n" for k
    using that n by (intro hash_ok_small) (simp_all add: assms(3) unat_of_nat)
  from seq_mem.assign_pages_some [OF assms(1) this, where init = True] obtain rc st' where
    run: "assign_pages_to_process seq_mem_lib 5 n True st = Some (rc, st')" by blast
  obtain i where "assigned 5 i 0 (nat (sint n)) (page_segment True (sint n - sint (stack_size st))) (with_entry 5 st) st'" "rc = SUCCESS"
  proof -
    have "nat (sint n) \<le> 6" using n by (simp add: nat_le_iff)
    then show ?thesis using that seq_mem.assign_pages_mapped [OF assms(1) _ _ _ run] assms(2,3) n by auto
  qed
  with run assms(4) show ?thesis
    by (auto simp: assigned_def mapped_def) blast+
qed

section \<open>Properties of the frame administration\<close>

text \<open>
  Start-up succeeds for every configuration with at least one frame, frames of at least 16 bytes
  and a memory below 2 GiB, and establishes the invariant of the frame administration: the inverted
  table lies inside the frames below \<open>first_free_frame\<close>, exactly the other frames are available and
  no page is mapped.
\<close>

theorem load_establishes_invariant:
  assumes "mem_commons M" "conf_ok c"
  shows "\<exists>st. load M junk c = Some st \<and> frame_inv st \<and> memory_conf st = c \<and>
     available_frame_list st = [first_free_frame c..<unat (frames c)] \<and>
     16 * unat (frames c) \<le> first_free_frame c * unat (frame_size c) \<and>
     (\<forall>pid page. \<not> mapped st pid page)"
  using mem_commons.load_inv [OF assms, of junk] first_free_frame_bounds(1) [OF assms(2)]
  by (auto simp: mapped_def maps_def used_def user_frame_def)

theorem load_establishes_invariant_witness:
  "\<exists>st. load seq_mem_lib (\<lambda>_. 7) demo_conf = Some st \<and> frame_inv st \<and> available_frame_list st = [2..<8]"
  using load_establishes_invariant [OF seq_mem.mem_commons_axioms demo_conf_ok(1), of "\<lambda>_. 7"] demo_conf_ok(2)
  by (auto simp: demo_conf_def)

text \<open>
  C1: The hashed look-up is exact: for every process id above 0, \<open>get_frame\<close> (the frame given by
  \<open>hashing\<close>, then the overflow list of that frame) finds a frame for a page exactly when a scan of
  the whole table would, and it finds the same frame.  This holds for every page whose number and process id have together fewer
  than 20 decimal characters (\<open>hash_ok\<close>); for the others \<open>hashing\<close> overflows its array and there is no result.
\<close>

theorem get_frame_equals_scan:
  assumes "mem_commons M" "frame_inv st" "0 < sint pid"
  shows "get_frame M pid page st = (if hash_ok pid page then Some (scan_table pid page st) else None)"
  by (rule mem_commons.get_frame_scan [OF assms])

theorem get_frame_equals_scan_witness:
  "\<exists>st st'. load seq_mem_lib (\<lambda>_. 0) demo_conf = Some st \<and>
     assign_pages_to_process seq_mem_lib 5 3 True st = Some (SUCCESS, st') \<and>
     (\<exists>f. get_frame seq_mem_lib 5 2 st' = Some (Some f) \<and> scan_table 5 2 st' = Some f) \<and>
     get_frame seq_mem_lib 5 3 st' = Some None"
proof -
  obtain st where st: "load seq_mem_lib (\<lambda>_. 0) demo_conf = Some st" "frame_inv st"
    "length (available_frame_list st) = 6" "page_count 5 st = 0" and nm: "\<And>p q. \<not> mapped st p q"
    using demo_load [of 5] by blast
  from demo_assign [OF st(2-4) nm, of 3] obtain st' where st': "assign_pages_to_process seq_mem_lib 5 3 True st = Some (SUCCESS, st')"
      "frame_inv st'" "\<And>p q. mapped st' p q \<longleftrightarrow> p = 5 \<and> (\<exists>k < 3. q = word_of_nat k)" by auto
  have three: "(\<exists>k < 3. Q k) \<longleftrightarrow> Q 0 \<or> Q 1 \<or> Q (2 :: nat)" for Q
    by (auto simp: numeral_eq_Suc less_Suc_eq)
  have "mapped st' 5 2" "\<not> mapped st' 5 3" unfolding st'(3) three by simp_all
  then obtain f where "scan_table 5 2 st' = Some f" "scan_table 5 3 st' = None"
    using scan_table_iff [OF st'(2)] by (fastforce simp: mapped_def)
  moreover have "hash_ok 5 2" "hash_ok 5 3" by code_simp+
  ultimately show ?thesis
    using st(1) st'(1) get_frame_equals_scan [OF seq_mem.mem_commons_axioms st'(2), of 5] by auto
qed

text \<open>
  C2: A request for pages that fits is served in full: \<open>assign_pages_to_process\<close> answers \<open>SUCCESS\<close>,
  keeps the invariant, takes exactly the requested number of frames off the available list, leaves
  every mapping of every process in place, and maps exactly the next page numbers of the process
  (from its page count on) in addition.  When a process is started, the last \<open>stack_size\<close> of its
  pages are stack pages and the ones before them code pages; pages assigned later are heap pages.  The numbers of the new pages
  must fit into the array of \<open>hashing\<close>, which they do for every process id and page number below \<open>10 ^ 9\<close>.
\<close>

theorem assign_pages_success:
  assumes "mem_commons M" "frame_inv st" "0 < sint pid"
    and "sint n \<le> int (length (available_frame_list st))"
    and "unat (page_count pid st) + nat (sint n) < 2 ^ 32"
    and "\<And>k. int k < sint n \<Longrightarrow> hash_ok pid (page_count pid st + word_of_nat k)"
  shows "\<exists>st'. assign_pages_to_process M pid n init st = Some (SUCCESS, st') \<and> frame_inv st' \<and>
     length (available_frame_list st) = length (available_frame_list st') + nat (sint n) \<and>
     page_count pid st' = page_count pid st + word_of_nat (nat (sint n)) \<and>
     (\<forall>p q f. maps st p q f \<longrightarrow> maps st' p q f \<and> get_reg (memory st') f = get_reg (memory st) f) \<and>
     (\<forall>p q. mapped st' p q \<longleftrightarrow>
        mapped st p q \<or> (p = pid \<and> (\<exists>k < nat (sint n). q = page_count pid st + word_of_nat k))) \<and>
     (\<forall>q f. maps st' pid q f \<longrightarrow> maps st pid q f \<or>
        (\<exists>k < nat (sint n). q = page_count pid st + word_of_nat k \<and>
           it_segment (get_reg (memory st') f) =
             (if \<not> init then HEAP_SEGMENT
              else if int k < sint n - sint (stack_size st) then CODE_SEGMENT else STACK_SEGMENT)))"
proof -
  from mem_commons.assign_pages_some [OF assms(1,2,6), where init = init] obtain rc st' where
    run: "assign_pages_to_process M pid n init st = Some (rc, st')" by blast
  from mem_commons.assign_pages_mapped [OF assms(1-5) run] obtain i where
    a: "assigned pid i (page_count pid st) (nat (sint n))
       (page_segment init (sint n - sint (stack_size st))) (with_entry pid st) st'"
    "rc = SUCCESS" "page_count pid st' = page_count pid st + word_of_nat (nat (sint n))"
    by blast
  have seg: "(if \<not> init then HEAP_SEGMENT else if int k < cp then CODE_SEGMENT else STACK_SEGMENT) =
      page_segment init cp k" for k cp
    by (simp add: page_segment_def)
  have "mapped st' p q \<longleftrightarrow>
        mapped st p q \<or> (p = pid \<and> (\<exists>k < nat (sint n). q = page_count pid st + word_of_nat k))" for p q
    using a(1) by (auto simp: assigned_def mapped_def) blast+
  moreover have "maps st pid q f \<or> (\<exists>k < nat (sint n). q = page_count pid st + word_of_nat k \<and>
           it_segment (get_reg (memory st') f) =
             (if \<not> init then HEAP_SEGMENT
              else if int k < sint n - sint (stack_size st) then CODE_SEGMENT else STACK_SEGMENT))"
    if "maps st' pid q f" for q f
    unfolding seg using a(1) that unfolding assigned_def with_entry_frame by blast
  ultimately show ?thesis
    using a run by (intro exI [of _ st']) (simp add: assigned_def)
qed

theorem assign_pages_success_witness:
  "\<exists>st st'. load seq_mem_lib (\<lambda>_. 0) demo_conf = Some st \<and>
     assign_pages_to_process seq_mem_lib 3 4 True st = Some (SUCCESS, st') \<and> frame_inv st' \<and>
     length (available_frame_list st') = 2 \<and> mapped st' 3 0 \<and> mapped st' 3 3 \<and> \<not> mapped st' 3 4"
proof -
  obtain st where st: "load seq_mem_lib (\<lambda>_. 0) demo_conf = Some st" "frame_inv st"
    "length (available_frame_list st) = 6" "page_count 3 st = 0" "memory_conf st = demo_conf"
    and nm: "\<And>p q. \<not> mapped st p q"
    using demo_load [of 3] by blast
  have "hash_ok 3 (page_count 3 st + word_of_nat k)" if "int k < sint (4 :: u32)" for k
    using that by (intro hash_ok_small) (simp_all add: st unat_of_nat)
  from assign_pages_success [OF seq_mem.mem_commons_axioms st(2) _ _ _ this, where init = True and n = 4] st nm obtain st' where
    st': "assign_pages_to_process seq_mem_lib 3 4 True st = Some (SUCCESS, st')" "frame_inv st'"
      "length (available_frame_list st') = 2"
      "\<And>p q. mapped st' p q \<longleftrightarrow> p = 3 \<and> (\<exists>k < 4. q = word_of_nat k)"
    by auto
  have four: "(\<exists>k < 4. Q k) \<longleftrightarrow> Q 0 \<or> Q 1 \<or> Q 2 \<or> Q (3 :: nat)" for Q
    by (auto simp: numeral_eq_Suc less_Suc_eq)
  have "mapped st' 3 0" "mapped st' 3 3" "\<not> mapped st' 3 4"
    unfolding st'(4) four by simp_all
  with st st' show ?thesis by blast
qed

text \<open>
  C32: A request for more pages than there are available frames is refused without a trace: the
  answer is \<open>ENOSPC\<close> exactly when the available frames do not suffice, and then the state is
  unchanged.
\<close>

theorem assign_pages_no_space:
  "assign_pages_to_process M pid n init st = Some (ENOSPC, st') \<longleftrightarrow>
     int (length (available_frame_list st)) < sint n \<and> st' = st"
  by (auto simp: assign_pages_to_process_def source_consts Let_def split: prod.splits if_splits)

theorem assign_pages_no_space_witness:
  "\<exists>st. load seq_mem_lib (\<lambda>_. 0) demo_conf = Some st \<and>
     assign_pages_to_process seq_mem_lib 3 7 True st = Some (ENOSPC, st)"
proof -
  obtain st where st: "load seq_mem_lib (\<lambda>_. 0) demo_conf = Some st" "length (available_frame_list st) = 6"
    using demo_load by blast
  with assign_pages_no_space [of seq_mem_lib 3 7 True st st]
  show ?thesis by (intro exI [of _ st]) simp
qed

end
