(* ===== verification/Memoria_Cache.thy ===== *)
theory Memoria_Cache
  imports Memoria_Inv
begin

text \<open>
  The cache of the memory process (\<open>memoria/src/memoria.c\<close>): look-up, choice of the entry to fill
  (first free entry, least recently used entry, or the least recently used entry of the process when
  it has reached its limit), filling an entry with the accounting of the entries per process, and the
  parts of \<open>delete_page_process\<close>, \<open>cleaning_process_entries\<close> and of the console command \<open>flush\<close> that
  empty entries.

  \<open>cache_memory\<close> and \<open>last_used_time\<close> are the two arrays of \<open>cache_entries\<close> elements.  The time of an
  entry is \<open>None\<close> while its pointer does not point to a string.  An outer \<open>None\<close> of an operation means
  that the C code has no defined behaviour there: a dangling time pointer is read, a \<open>memcpy\<close> leaves
  its object, the entry number is \<open>-1\<close>, or \<open>list_remove\<close> is called with \<open>index\<close>, which in
  \<open>update_cache\<close> is not a variable but the address of the library function of that name.
\<close>

section \<open>Operations\<close>

text \<open>\<open>None\<close> is \<open>CACHE_MISS\<close>.\<close>

definition get_cache_entry :: "u32 \<Rightarrow> u32 \<Rightarrow> mem_state \<Rightarrow> nat option" where
  "get_cache_entry pid page st = find_index (\<lambda>c. cm_pid c = pid \<and> cm_page c = page) (cache_memory st)"

text \<open>The variable \<open>lru_cache_entry\<close> is \<open>None\<close> while it is negative.\<close>

definition least_recently_used :: "mem_state \<Rightarrow> nat \<Rightarrow> nat option \<Rightarrow> nat option option" where
  "least_recently_used st cache_entry lru_cache_entry =
     (case lru_cache_entry of
        None \<Rightarrow> Some (Some cache_entry)
      | Some lru \<Rightarrow> do {
          last_used \<leftarrow> last_used_time st ! cache_entry;
          lru_time \<leftarrow> last_used_time st ! lru;
          Some (Some (if strcmp_less last_used lru_time then cache_entry else lru))
        })"

fun cache_scan :: "mem_state \<Rightarrow> bool \<Rightarrow> u32 \<Rightarrow> nat \<Rightarrow> nat \<Rightarrow> nat option \<Rightarrow> nat option option" where
  "cache_scan st max_entries_exceeded pid cache_entry 0 lru = Some lru"
| "cache_scan st max_entries_exceeded pid cache_entry (Suc n) lru =
     (if max_entries_exceeded then
        if cm_pid (cache_memory st ! cache_entry) = pid then do {
          lru' \<leftarrow> least_recently_used st cache_entry lru;
          cache_scan st max_entries_exceeded pid (Suc cache_entry) n lru'
        }
        else cache_scan st max_entries_exceeded pid (Suc cache_entry) n lru
      else if sint (cm_pid (cache_memory st ! cache_entry)) < 0 then Some (Some cache_entry)
      else do {
        lru' \<leftarrow> least_recently_used st cache_entry lru;
        cache_scan st max_entries_exceeded pid (Suc cache_entry) n lru'
      })"

definition max_entries_exceeded :: "mem_lib \<Rightarrow> u32 \<Rightarrow> mem_state \<Rightarrow> bool" where
  "max_entries_exceeded M pid st =
     (case list_search (cxp_ops M) (\<lambda>r. cx_pid r = pid) (cache_x_process_list st) 0 of
        Some pos \<Rightarrow> cache_x_process (memory_conf st) \<le>
                      scast (cx_entries (list_get (cxp_ops M) (cache_x_process_list st) pos))
      | None \<Rightarrow> False)"

definition assign_cache_entry :: "mem_lib \<Rightarrow> u32 \<Rightarrow> mem_state \<Rightarrow> nat option option" where
  "assign_cache_entry M pid st =
     cache_scan st (max_entries_exceeded M pid st) pid 0 (unat (cache_entries (memory_conf st))) None"

text \<open>
  The loop of \<open>update_cache\<close> over the list of entries per process; the result is the value of
  \<open>updated\<close> and the list.
\<close>

function update_entries ::
    "t_cache_x_process t_list_ops \<Rightarrow> u32 \<Rightarrow> u32 \<Rightarrow> bool \<Rightarrow> bool \<Rightarrow> nat \<Rightarrow> t_cache_x_process list \<Rightarrow>
     (bool \<times> t_cache_x_process list) option" where
  "update_entries L previous_pid pid updated previous_updated pos l =
     (if \<not> pos < length l then Some (updated, l)
      else
        (let r = list_get L l pos in
         if sint previous_pid < 0 then
           if cx_pid r = pid then Some (True, l[pos := r\<lparr>cx_entries := cx_entries r + 1\<rparr>])
           else update_entries L previous_pid pid updated previous_updated (Suc pos) l
         else if cx_pid r = previous_pid then
           if sint (cx_entries r - 1) \<le> 0 then None
           else if updated then Some (updated, l[pos := r\<lparr>cx_entries := cx_entries r - 1\<rparr>])
           else update_entries L previous_pid pid updated True (Suc pos)
                  (l[pos := r\<lparr>cx_entries := cx_entries r - 1\<rparr>])
         else if cx_pid r = pid then
           if previous_updated then Some (True, l[pos := r\<lparr>cx_entries := cx_entries r + 1\<rparr>])
           else update_entries L previous_pid pid True previous_updated (Suc pos)
                  (l[pos := r\<lparr>cx_entries := cx_entries r + 1\<rparr>])
         else update_entries L previous_pid pid updated previous_updated (Suc pos) l))"
  by pat_completeness auto
termination
  by (relation "measure (\<lambda>(L, pp, pid, u, pu, pos, l). length l - pos)") auto

declare update_entries.simps [simp del]

definition update_cache ::
    "mem_lib \<Rightarrow> nat option \<Rightarrow> u32 \<Rightarrow> u32 \<Rightarrow> u32 \<Rightarrow> u32 \<Rightarrow> byte list \<Rightarrow> mem_state \<Rightarrow> mem_state option" where
  "update_cache M cache_entry pid page offset sz buffer st =
     (case cache_entry of
        None \<Rightarrow> None
      | Some e \<Rightarrow>
          (let c = cache_memory st ! e;
               previous_pid = cm_pid c
           in if sint offset < 0 \<or> sint sz < 0 \<or> length (cm_content c) < unat offset + unat sz
                 \<or> length buffer < unat sz then None
              else
                (let c' = \<lparr>cm_pid = pid, cm_page = page,
                           cm_content = mem_write (unat offset) (take (unat sz) buffer) (cm_content c)\<rparr>;
                     st1 = st\<lparr>cache_memory := (cache_memory st)[e := c'],
                              last_used_time := (last_used_time st)[e := Some (string_time M (time_calls st))],
                              time_calls := Suc (time_calls st)\<rparr>
                 in if sint previous_pid < 0 \<or> pid \<noteq> previous_pid then do {
                      (updated, l) \<leftarrow> update_entries (cxp_ops M) previous_pid pid False False 0
                                        (cache_x_process_list st1);
                      Some (st1\<lparr>cache_x_process_list :=
                              (if updated then l
                               else list_add (cxp_ops M) l \<lparr>cx_pid = pid, cx_entries = 1\<rparr>)\<rparr>)
                    }
                    else Some st1)))"

definition writing_cache :: "mem_lib \<Rightarrow> t_write_request \<Rightarrow> mem_state \<Rightarrow> mem_state option" where
  "writing_cache M w_req st = do {
     cache_entry_to_write \<leftarrow>
       (case get_cache_entry (wr_pid w_req) (wr_page w_req) st of
          Some e \<Rightarrow> Some (Some e)
        | None \<Rightarrow> assign_cache_entry M (wr_pid w_req) st);
     update_cache M cache_entry_to_write (wr_pid w_req) (wr_page w_req) (wr_offset w_req) (wr_size w_req)
       (wr_buffer w_req) st
   }"

definition read_cache_entry_and_send ::
    "mem_lib \<Rightarrow> t_read_request \<Rightarrow> nat \<Rightarrow> sock \<Rightarrow> mem_state \<Rightarrow> (sock \<times> mem_state) option" where
  "read_cache_entry_and_send M r_req cache_entry s st =
     (let c = cache_memory st ! cache_entry in
      if length (cm_content c) < unat (rd_offset r_req) + unat (rd_size r_req) then None
      else do {
        s' \<leftarrow> read_send_resp SUCCESS (rd_size r_req)
               (mem_read (unat (rd_offset r_req)) (unat (rd_size r_req)) (cm_content c)) s;
        Some (s', st\<lparr>last_used_time := (last_used_time st)[cache_entry := Some (string_time M (time_calls st))],
                     time_calls := Suc (time_calls st)\<rparr>)
      })"

text \<open>The Boolean result is \<open>True\<close> for \<open>CACHE_HIT\<close> and \<open>False\<close> for \<open>CACHE_MISS\<close>.\<close>

definition reading_cache ::
    "mem_lib \<Rightarrow> t_read_request \<Rightarrow> sock \<Rightarrow> mem_state \<Rightarrow> (bool \<times> sock \<times> mem_state) option" where
  "reading_cache M r_req s st =
     (case get_cache_entry (rd_pid r_req) (rd_page r_req) st of
        None \<Rightarrow> Some (False, s, st)
      | Some e \<Rightarrow> map_option (Pair True) (read_cache_entry_and_send M r_req e s st))"

text \<open>Decrementing the entries of a process, as \<open>delete_page_process\<close> does.\<close>

definition drop_entry :: "mem_lib \<Rightarrow> u32 \<Rightarrow> t_cache_x_process list \<Rightarrow> t_cache_x_process list" where
  "drop_entry M pid l =
     (case list_search (cxp_ops M) (\<lambda>r. cx_pid r = pid) l 0 of
        None \<Rightarrow> l
      | Some index \<Rightarrow>
          (let r = list_get (cxp_ops M) l index;
               r' = r\<lparr>cx_entries := cx_entries r - 1\<rparr>;
               l' = l[index := r']
           in if sint (cx_entries r') \<le> 0 then snd (list_remove (cxp_ops M) l' index) else l'))"

text \<open>Emptying an entry: the process and the page become \<open>-1\<close>, the content stays, the time is freed.\<close>

definition clear_entry :: "nat \<Rightarrow> mem_state \<Rightarrow> mem_state" where
  "clear_entry e st =
     st\<lparr>cache_memory := (cache_memory st)[e := (cache_memory st ! e)\<lparr>cm_pid := - 1, cm_page := - 1\<rparr>],
        last_used_time := (last_used_time st)[e := None]\<rparr>"

definition delete_page_process :: "mem_lib \<Rightarrow> u32 \<Rightarrow> u32 \<Rightarrow> mem_state \<Rightarrow> mem_state option" where
  "delete_page_process M pid page st = do {
     st1 \<leftarrow> delete_page_frame M pid page st;
     Some (case get_cache_entry pid page st1 of
             None \<Rightarrow> st1
           | Some e \<Rightarrow>
               (clear_entry e st1)\<lparr>cache_x_process_list := drop_entry M pid (cache_x_process_list st1)\<rparr>)
   }"

fun clean_cache :: "u32 \<Rightarrow> nat \<Rightarrow> nat \<Rightarrow> mem_state \<Rightarrow> mem_state" where
  "clean_cache pid cache_entry 0 st = st"
| "clean_cache pid cache_entry (Suc n) st =
     clean_cache pid (Suc cache_entry) n
       (if cm_pid (cache_memory st ! cache_entry) = pid then clear_entry cache_entry st else st)"

definition cleaning_process_entries :: "mem_lib \<Rightarrow> u32 \<Rightarrow> mem_state \<Rightarrow> mem_state option" where
  "cleaning_process_entries M pid st = do {
     st1 \<leftarrow> clean_frames M pid 0 (n_frames st) st;
     (let st2 = (case list_search (pages_ops M) (\<lambda>r. pp_pid r = pid) (pages_per_process_list st1) 0 of
                   Some index \<Rightarrow> st1\<lparr>pages_per_process_list :=
                                      snd (list_remove (pages_ops M) (pages_per_process_list st1) index)\<rparr>
                 | None \<Rightarrow> st1);
          st3 = (case list_search (cxp_ops M) (\<lambda>r. cx_pid r = pid) (cache_x_process_list st2) 0 of
                   Some index \<Rightarrow> st2\<lparr>cache_x_process_list :=
                                      snd (list_remove (cxp_ops M) (cache_x_process_list st2) index)\<rparr>
                 | None \<Rightarrow> st2)
      in Some (clean_cache pid 0 (unat (cache_entries (memory_conf st3))) st3))
   }"


section \<open>Choice of an entry\<close>

lemma strcmp_less_irrefl [simp]: "\<not> strcmp_less s s"
  by (induction s) auto

lemma strcmp_less_trans: "strcmp_less a b \<Longrightarrow> strcmp_less b c \<Longrightarrow> strcmp_less a c"
proof (induction a b arbitrary: c rule: strcmp_less.induct)
  case (2 y ys)
  then show ?case by (cases c) auto
next
  case (4 x xs y ys)
  then show ?case by (cases c) (auto split: if_splits)
qed simp_all

text \<open>
  \<open>lru\<close> is the least recently used of the entries below \<open>m\<close> that are candidates; it is \<open>None\<close>
  exactly when there is none.
\<close>

definition time_of :: "mem_state \<Rightarrow> nat \<Rightarrow> string" where
  "time_of st e = the (last_used_time st ! e)"

definition is_lru :: "mem_state \<Rightarrow> (nat \<Rightarrow> bool) \<Rightarrow> nat \<Rightarrow> nat option \<Rightarrow> bool" where
  "is_lru st C m lru \<longleftrightarrow>
     (case lru of
        None \<Rightarrow> \<forall>f < m. \<not> C f
      | Some l \<Rightarrow> l < m \<and> C l \<and> (\<forall>f < m. C f \<longrightarrow> \<not> strcmp_less (time_of st f) (time_of st l)))"

lemma is_lru_skip: "is_lru st C m lru \<Longrightarrow> \<not> C m \<Longrightarrow> is_lru st C (Suc m) lru"
  by (auto simp: is_lru_def less_Suc_eq split: option.splits)

lemma is_lru_step:
  assumes l: "is_lru st C m lru" and c: "C m" and t: "\<And>f. C f \<Longrightarrow> f \<le> m \<Longrightarrow> last_used_time st ! f \<noteq> None"
  shows "\<exists>l. least_recently_used st m lru = Some (Some l) \<and> is_lru st C (Suc m) (Some l)"
proof (cases lru)
  case None
  with l c show ?thesis
    by (auto simp: least_recently_used_def is_lru_def less_Suc_eq)
next
  case (Some k)
  with l have k: "k < m" "C k" "\<And>f. f < m \<Longrightarrow> C f \<Longrightarrow> \<not> strcmp_less (time_of st f) (time_of st k)"
    by (auto simp: is_lru_def)
  have tk: "last_used_time st ! k = Some (time_of st k)" "last_used_time st ! m = Some (time_of st m)"
    using t [of k] t [of m] k c by (auto simp: time_of_def)
  show ?thesis
  proof (cases "strcmp_less (time_of st m) (time_of st k)")
    case True
    then have "\<not> strcmp_less (time_of st f) (time_of st m)" if "f < m" "C f" for f
      using k(3) [OF that] strcmp_less_trans by blast
    with True c Some tk show ?thesis
      by (auto simp: least_recently_used_def is_lru_def less_Suc_eq)
  next
    case False
    with k c Some tk show ?thesis
      by (auto simp: least_recently_used_def is_lru_def less_Suc_eq)
  qed
qed

lemma cache_scan_exceeded:
  assumes "is_lru st (\<lambda>f. cm_pid (cache_memory st ! f) = pid) e lru"
    and "\<And>f. f < e + n \<Longrightarrow> cm_pid (cache_memory st ! f) = pid \<Longrightarrow> last_used_time st ! f \<noteq> None"
  shows "\<exists>lru'. cache_scan st True pid e n lru = Some lru' \<and>
     is_lru st (\<lambda>f. cm_pid (cache_memory st ! f) = pid) (e + n) lru'"
  using assms
proof (induction n arbitrary: e lru)
  case 0
  then show ?case by simp
next
  case (Suc n)
  let ?C = "\<lambda>f. cm_pid (cache_memory st ! f) = pid"
  show ?case
  proof (cases "?C e")
    case True
    obtain l where "least_recently_used st e lru = Some (Some l)" "is_lru st ?C (Suc e) (Some l)"
      using is_lru_step [where C = ?C, OF Suc.prems(1) True] Suc.prems(2) by auto
    with Suc.IH [of "Suc e" "Some l"] Suc.prems(2) True show ?thesis by simp
  next
    case False
    with Suc.IH [OF is_lru_skip [where C = ?C, OF Suc.prems(1)]] Suc.prems(2) show ?thesis by simp
  qed
qed

lemma cache_scan_free:
  assumes "is_lru st (\<lambda>f. True) e lru" "\<And>f. f < e \<Longrightarrow> 0 \<le> sint (cm_pid (cache_memory st ! f))"
    and "\<And>f. f < e + n \<Longrightarrow> 0 \<le> sint (cm_pid (cache_memory st ! f)) \<Longrightarrow> last_used_time st ! f \<noteq> None"
  shows "(\<exists>f. cache_scan st False pid e n lru = Some (Some f) \<and> f < e + n \<and>
            sint (cm_pid (cache_memory st ! f)) < 0 \<and> (\<forall>g < f. 0 \<le> sint (cm_pid (cache_memory st ! g)))) \<or>
         (\<exists>lru'. cache_scan st False pid e n lru = Some lru' \<and> is_lru st (\<lambda>f. True) (e + n) lru' \<and>
            (\<forall>f < e + n. 0 \<le> sint (cm_pid (cache_memory st ! f))))"
  using assms
proof (induction n arbitrary: e lru)
  case 0
  then show ?case by simp
next
  case (Suc n)
  show ?case
  proof (cases "sint (cm_pid (cache_memory st ! e)) < 0")
    case True
    then show ?thesis using Suc.prems(2) by auto
  next
    case False
    have "last_used_time st ! f \<noteq> None" if "f \<le> e" for f
      using Suc.prems(3) [of f] Suc.prems(2) [of f] False that by (cases "f = e") auto
    with is_lru_step [where C = "\<lambda>_. True", OF Suc.prems(1)]
    obtain l where l: "least_recently_used st e lru = Some (Some l)" "is_lru st (\<lambda>f. True) (Suc e) (Some l)"
      by auto
    have "cache_scan st False pid e (Suc n) lru = cache_scan st False pid (Suc e) n (Some l)"
      using False l by simp
    moreover have "\<And>f. f < Suc e \<Longrightarrow> 0 \<le> sint (cm_pid (cache_memory st ! f))"
      using Suc.prems(2) False by (auto simp: less_Suc_eq)
    ultimately show ?thesis
      using Suc.IH [OF l(2)] Suc.prems(3) by (simp del: cache_scan.simps)
  qed
qed

section \<open>Invariant\<close>

definition cache_conf_ok :: "t_memory_conf \<Rightarrow> bool" where
  "cache_conf_ok c \<longleftrightarrow> 0 < unat (cache_entries c) \<and> unat (cache_entries c) < 2 ^ 15 - 1 \<and> 0 < cache_x_process c"

definition entry_count :: "u32 \<Rightarrow> t_cache_memory list \<Rightarrow> int" where
  "entry_count p cs = int (length (filter (\<lambda>c. cm_pid c = p) cs))"

definition entries_of :: "u32 \<Rightarrow> t_cache_x_process list \<Rightarrow> int" where
  "entries_of p l = (case find (\<lambda>r. cx_pid r = p) l of None \<Rightarrow> 0 | Some r \<Rightarrow> sint (cx_entries r))"

definition cache_shape :: "mem_state \<Rightarrow> bool" where
  "cache_shape st \<longleftrightarrow> cache_conf_ok (memory_conf st)
     \<and> length (cache_memory st) = unat (cache_entries (memory_conf st))
     \<and> length (last_used_time st) = unat (cache_entries (memory_conf st))
     \<and> (\<forall>c \<in> set (cache_memory st). length (cm_content c) = page_bytes st)"

text \<open>An entry is either empty, or holds a mapped page that no other entry holds and has a time.\<close>

definition cache_valid :: "mem_state \<Rightarrow> bool" where
  "cache_valid st \<longleftrightarrow>
     (\<forall>e < length (cache_memory st). let c = cache_memory st ! e in
        (cm_pid c = - 1 \<and> cm_page c = - 1) \<or>
        (0 < sint (cm_pid c) \<and> last_used_time st ! e \<noteq> None \<and> mapped st (cm_pid c) (cm_page c) \<and>
         (\<forall>f < length (cache_memory st). cm_pid (cache_memory st ! f) = cm_pid c \<longrightarrow>
            cm_page (cache_memory st ! f) = cm_page c \<longrightarrow> f = e)))"

text \<open>The list of entries per process counts the entries, and no process has more than its share.\<close>

definition cache_account :: "mem_state \<Rightarrow> bool" where
  "cache_account st \<longleftrightarrow> distinct (map cx_pid (cache_x_process_list st))
     \<and> (\<forall>r \<in> set (cache_x_process_list st). 0 < sint (cx_pid r) \<and> 0 < sint (cx_entries r))
     \<and> (\<forall>p. 0 < sint p \<longrightarrow> entries_of p (cache_x_process_list st) = entry_count p (cache_memory st)
          \<and> entry_count p (cache_memory st) \<le> uint (cache_x_process (memory_conf st)))"

definition cache_inv :: "mem_state \<Rightarrow> bool" where
  "cache_inv st \<longleftrightarrow> cache_shape st \<and> cache_valid st \<and> cache_account st"

lemma cache_invD:
  assumes "cache_inv st"
  shows "cache_shape st" "cache_valid st" "cache_account st"
  using assms by (simp_all add: cache_inv_def)

lemma entry_count_update:
  "e < length cs \<Longrightarrow> entry_count p (cs[e := c]) =
     entry_count p cs - of_bool (cm_pid (cs ! e) = p) + of_bool (cm_pid c = p)"
proof (induction cs arbitrary: e)
  case (Cons x xs)
  then show ?case by (cases e) (auto simp: entry_count_def)
qed simp

lemma entry_count_le: "entry_count p cs \<le> int (length cs)"
  by (simp add: entry_count_def)

lemma entry_count_0_iff: "entry_count p cs = 0 \<longleftrightarrow> (\<forall>c \<in> set cs. cm_pid c \<noteq> p)"
  by (auto simp: entry_count_def filter_empty_conv)

lemma entry_count_nonneg [simp]: "0 \<le> entry_count p cs"
  by (simp add: entry_count_def)

lemma entries_of_Cons:
  "entries_of p (r # l) = (if cx_pid r = p then sint (cx_entries r) else entries_of p l)"
  by (simp add: entries_of_def)

lemma entries_of_absent: "p \<notin> cx_pid ` set l \<Longrightarrow> entries_of p l = 0"
  by (induction l) (auto simp: entries_of_def)

lemma entries_of_append:
  "entries_of p (l @ m) = (if p \<in> cx_pid ` set l then entries_of p l else entries_of p m)"
  by (induction l) (auto simp: entries_of_Cons)

lemma entries_of_mem:
  "distinct (map cx_pid l) \<Longrightarrow> r \<in> set l \<Longrightarrow> entries_of (cx_pid r) l = sint (cx_entries r)"
  by (induction l) (auto simp: entries_of_Cons)

lemma sint_u16_of_int: "- (2 ^ 15) \<le> k \<Longrightarrow> k < 2 ^ 15 \<Longrightarrow> sint (word_of_int k :: u16) = k"
  by (simp add: signed_of_int signed_take_bit_int_eq_self)

lemma sint_u16_range: "- (2 ^ 15) \<le> sint (w :: u16)" "sint (w :: u16) < 2 ^ 15"
  using sint_ge [of w] sint_lt [of w] by simp_all

lemma sint_u16_inc: "sint (w :: u16) + 1 < 2 ^ 15 \<Longrightarrow> sint (w + 1) = sint w + 1"
  using sint_u16_of_int [of "sint w + 1"] sint_u16_range [of w] by simp

lemma sint_u16_dec: "0 \<le> sint (w :: u16) \<Longrightarrow> sint (w - 1) = sint w - 1"
  using sint_u16_of_int [of "sint w - 1"] sint_u16_range [of w] by simp

lemma uint_scast_u16: "0 \<le> sint (w :: u16) \<Longrightarrow> uint (scast w :: u32) = sint w"
proof -
  assume p: "0 \<le> sint w"
  have "uint (word_of_int (sint w) :: u32) = sint w"
    using p sint_u16_range [of w] by (subst uint_word_of_int) simp
  then show ?thesis by simp
qed

section \<open>Accounting of the entries per process\<close>

definition adjust :: "u32 \<Rightarrow> u32 \<Rightarrow> t_cache_x_process \<Rightarrow> t_cache_x_process" where
  "adjust previous_pid pid r =
     (if cx_pid r = previous_pid then r\<lparr>cx_entries := cx_entries r - 1\<rparr>
      else if cx_pid r = pid then r\<lparr>cx_entries := cx_entries r + 1\<rparr> else r)"

lemma cx_pid_adjust [simp]: "cx_pid (adjust previous_pid pid r) = cx_pid r"
  by (simp add: adjust_def)

lemma map_adjust_id:
  "previous_pid \<notin> cx_pid ` set l \<Longrightarrow> pid \<notin> cx_pid ` set l \<Longrightarrow> map (adjust previous_pid pid) l = l"
  by (induction l) (auto simp: adjust_def)

context mem_commons
begin

lemma update_entries_from:
  assumes "previous_pid \<noteq> pid" "distinct (map cx_pid ys)"
    and "updated \<Longrightarrow> pid \<notin> cx_pid ` set ys" "previous_updated \<Longrightarrow> previous_pid \<notin> cx_pid ` set ys"
    and "sint previous_pid < 0 \<Longrightarrow> previous_pid \<notin> cx_pid ` set ys"
  shows "update_entries (cxp_ops M) previous_pid pid updated previous_updated (length xs) (xs @ ys) =
    (if \<exists>r \<in> set ys. cx_pid r = previous_pid \<and> sint (cx_entries r - 1) \<le> 0 then None
     else Some (updated \<or> pid \<in> cx_pid ` set ys, xs @ map (adjust previous_pid pid) ys))"
  using assms
proof (induction ys arbitrary: xs updated previous_updated)
  case Nil
  then show ?case by (simp add: update_entries.simps)
next
  case (Cons r ys)
  have get: "list_get (cxp_ops M) (xs @ r # ys) (length xs) = r"
    by (simp add: cx.list_get)
  have "(xs @ r # ys)[length xs := r'] = xs @ r' # ys" for r' by simp
  note step = update_entries.simps [of "cxp_ops M" previous_pid pid updated previous_updated "length xs" "xs @ r # ys"]
  have ih: "update_entries (cxp_ops M) previous_pid pid u pu (Suc (length xs)) (xs @ r' # ys) =
      (if \<exists>r \<in> set ys. cx_pid r = previous_pid \<and> sint (cx_entries r - 1) \<le> 0 then None
       else Some (u \<or> pid \<in> cx_pid ` set ys, xs @ r' # map (adjust previous_pid pid) ys))"
    if "u \<Longrightarrow> pid \<notin> cx_pid ` set ys" "pu \<Longrightarrow> previous_pid \<notin> cx_pid ` set ys" for u pu r'
    using Cons.IH [of u pu "xs @ [r']"] Cons.prems that by simp
  consider "cx_pid r = previous_pid" | "cx_pid r = pid" | "cx_pid r \<noteq> previous_pid" "cx_pid r \<noteq> pid"
    by blast
  then show ?case
  proof cases
    case 1
    then have "0 \<le> sint previous_pid" "previous_pid \<notin> cx_pid ` set ys" using Cons.prems by auto
    with 1 Cons.prems map_adjust_id [of previous_pid ys pid] show ?thesis
      by (auto simp: step get Let_def ih adjust_def [of previous_pid pid r]) (metis imageI)+
  next
    case 2
    then have "pid \<notin> cx_pid ` set ys" using Cons.prems by auto
    with 2 Cons.prems map_adjust_id [of previous_pid ys pid] show ?thesis
      by (auto simp: step get Let_def ih adjust_def [of previous_pid pid r])
  next
    case 3
    with Cons.prems show ?thesis by (auto simp: step get Let_def ih adjust_def [of previous_pid pid r])
  qed
qed

lemma update_entries_eq:
  assumes "previous_pid \<noteq> pid" "distinct (map cx_pid l)" "sint previous_pid < 0 \<Longrightarrow> previous_pid \<notin> cx_pid ` set l"
  shows "update_entries (cxp_ops M) previous_pid pid False False 0 l =
    (if \<exists>r \<in> set l. cx_pid r = previous_pid \<and> sint (cx_entries r - 1) \<le> 0 then None
     else Some (pid \<in> cx_pid ` set l, map (adjust previous_pid pid) l))"
  using update_entries_from [of previous_pid pid l False False "[]"] assms by simp

lemma max_entries_iff:
  assumes inv: "cache_inv st" and pid: "0 < sint pid"
  shows "max_entries_exceeded M pid st \<longleftrightarrow>
    entry_count pid (cache_memory st) = uint (cache_x_process (memory_conf st))"
proof -
  let ?l = "cache_x_process_list st"
  have pos: "0 < uint (cache_x_process (memory_conf st))"
    using cache_invD(1) [OF inv] by (simp add: cache_shape_def cache_conf_ok_def word_less_def)
  have A: "distinct (map cx_pid ?l)" "\<And>r. r \<in> set ?l \<Longrightarrow> 0 < sint (cx_entries r)"
    "entries_of pid ?l = entry_count pid (cache_memory st)"
    "entry_count pid (cache_memory st) \<le> uint (cache_x_process (memory_conf st))"
    using cache_invD(3) [OF inv] pid by (auto simp: cache_account_def)
  show ?thesis
  proof (cases "find_index (\<lambda>r. cx_pid r = pid) ?l")
    case None
    then have "pid \<notin> cx_pid ` set ?l" by (auto simp: find_index_None_iff)
    with None A(3) pos show ?thesis by (simp add: max_entries_exceeded_def entries_of_absent)
  next
    case (Some i)
    let ?r = "?l ! i"
    have r: "?r \<in> set ?l" "cx_pid ?r = pid" using find_index_SomeD [OF Some] by auto
    have "uint (scast (cx_entries ?r) :: u32) = sint (cx_entries ?r)"
      using A(2) [OF r(1)] by (simp add: uint_scast_u16)
    moreover have "sint (cx_entries ?r) = entry_count pid (cache_memory st)"
      using entries_of_mem [OF A(1) r(1)] r(2) A(3) by simp
    ultimately show ?thesis
      using Some A(4) cx.list_get_found [OF Some]
      by (auto simp: max_entries_exceeded_def word_le_def)
  qed
qed

lemma assign_cache_entry_choice:
  assumes inv: "cache_inv st" and pid: "0 < sint pid"
  shows "\<exists>e. assign_cache_entry M pid st = Some (Some e) \<and> e < length (cache_memory st) \<and>
    (if entry_count pid (cache_memory st) = uint (cache_x_process (memory_conf st))
     then is_lru st (\<lambda>f. cm_pid (cache_memory st ! f) = pid) (length (cache_memory st)) (Some e)
     else (sint (cm_pid (cache_memory st ! e)) < 0 \<and> (\<forall>g < e. 0 \<le> sint (cm_pid (cache_memory st ! g)))) \<or>
          ((\<forall>g < length (cache_memory st). 0 \<le> sint (cm_pid (cache_memory st ! g))) \<and>
           is_lru st (\<lambda>f. True) (length (cache_memory st)) (Some e)))"
proof -
  let ?cs = "cache_memory st"
  have S: "length ?cs = unat (cache_entries (memory_conf st))" "0 < length ?cs"
      "0 < uint (cache_x_process (memory_conf st))"
    using cache_invD(1) [OF inv] by (simp_all add: cache_shape_def cache_conf_ok_def word_less_def)
  have T: "last_used_time st ! f \<noteq> None" if "f < length ?cs" "0 \<le> sint (cm_pid (?cs ! f))" for f
    using cache_invD(2) [OF inv] that by (auto simp: cache_valid_def Let_def)
  show ?thesis
  proof (cases "max_entries_exceeded M pid st")
    case True
    let ?C = "\<lambda>f. cm_pid (?cs ! f) = pid"
    have ex: "entry_count pid ?cs = uint (cache_x_process (memory_conf st))"
      using True max_entries_iff [OF inv pid] by simp
    then have "\<exists>f < length ?cs. ?C f"
      using S(3) entry_count_0_iff [of pid ?cs] by (auto simp: in_set_conv_nth)
    moreover obtain lru where "assign_cache_entry M pid st = Some lru" "is_lru st ?C (length ?cs) lru"
      using cache_scan_exceeded [of st pid 0 None "length ?cs"] T pid True S(1)
      by (auto simp: assign_cache_entry_def is_lru_def)
    ultimately show ?thesis using ex by (cases lru) (auto simp: is_lru_def)
  next
    case False
    have "is_lru st (\<lambda>f. True) 0 None" by (simp add: is_lru_def)
    from cache_scan_free [OF this, of "length ?cs" pid] T False S
    show ?thesis
      by (auto simp: assign_cache_entry_def max_entries_iff [OF inv pid] is_lru_def split: option.splits)
  qed
qed

end

lemma entries_of_adjust:
  assumes "previous_pid \<noteq> pid" "\<And>r. r \<in> set l \<Longrightarrow> 0 \<le> sint (cx_entries r) \<and> sint (cx_entries r) + 1 < 2 ^ 15"
  shows "entries_of p (map (adjust previous_pid pid) l) =
    entries_of p l + of_bool (p \<in> cx_pid ` set l) * (of_bool (p = pid) - of_bool (p = previous_pid))"
  using assms(2)
proof (induction l)
  case Nil
  then show ?case by (simp add: entries_of_def)
next
  case (Cons r l)
  from Cons.prems [of r] have "sint (cx_entries r + 1) = sint (cx_entries r) + 1"
      "sint (cx_entries r - 1) = sint (cx_entries r) - 1"
    by (simp_all add: sint_u16_inc sint_u16_dec)
  with Cons assms(1) show ?case by (auto simp: entries_of_Cons adjust_def [of previous_pid pid r])
qed


section \<open>Filling an entry\<close>

lemma cache_fields_frame [simp]:
  "frame_inv (st\<lparr>cache_memory := a\<rparr>) = frame_inv st"
  "frame_inv (st\<lparr>last_used_time := b\<rparr>) = frame_inv st"
  "frame_inv (st\<lparr>cache_x_process_list := c\<rparr>) = frame_inv st"
  "frame_inv (st\<lparr>time_calls := d\<rparr>) = frame_inv st"
  by (simp_all add: frame_inv_parts used_def user_frame_def)

lemma cache_fields_maps [simp]:
  "maps (st\<lparr>cache_memory := a\<rparr>) = maps st" "maps (st\<lparr>last_used_time := b\<rparr>) = maps st"
  "maps (st\<lparr>cache_x_process_list := c\<rparr>) = maps st" "maps (st\<lparr>time_calls := d\<rparr>) = maps st"
  "mapped (st\<lparr>cache_memory := a\<rparr>) = mapped st" "mapped (st\<lparr>last_used_time := b\<rparr>) = mapped st"
  "mapped (st\<lparr>cache_x_process_list := c\<rparr>) = mapped st" "mapped (st\<lparr>time_calls := d\<rparr>) = mapped st"
  by (simp_all add: fun_eq_iff mapped_def maps_def used_def user_frame_def)

text \<open>
  The page \<open>(pid, page)\<close> is in entry \<open>e\<close>, or in no entry: what makes filling entry \<open>e\<close> with it keep
  pages unique.
\<close>

definition fillable :: "u32 \<Rightarrow> u32 \<Rightarrow> nat \<Rightarrow> mem_state \<Rightarrow> bool" where
  "fillable pid page e st \<longleftrightarrow> e < length (cache_memory st) \<and>
     (\<forall>f < length (cache_memory st).
        cm_pid (cache_memory st ! f) = pid \<longrightarrow> cm_page (cache_memory st ! f) = page \<longrightarrow> f = e)"

definition fill_entry ::
    "nat \<Rightarrow> u32 \<Rightarrow> u32 \<Rightarrow> byte list \<Rightarrow> string \<Rightarrow> t_cache_x_process list \<Rightarrow> mem_state \<Rightarrow> mem_state" where
  "fill_entry e pid page x t l st =
     st\<lparr>cache_memory := (cache_memory st)[e := \<lparr>cm_pid = pid, cm_page = page, cm_content = x\<rparr>],
        last_used_time := (last_used_time st)[e := Some t],
        time_calls := Suc (time_calls st), cache_x_process_list := l\<rparr>"

definition last_entry_of_other :: "u32 \<Rightarrow> nat \<Rightarrow> mem_state \<Rightarrow> bool" where
  "last_entry_of_other pid e st \<longleftrightarrow>
     (let p = cm_pid (cache_memory st ! e)
      in 0 \<le> sint p \<and> p \<noteq> pid \<and> entry_count p (cache_memory st) = 1)"

lemma cache_valid_fill:
  assumes v: "cache_valid st" and f: "fillable pid page e st" and pid: "0 < sint pid" and m: "mapped st pid page"
    and len: "length (last_used_time st) = length (cache_memory st)"
    and st': "cache_memory st' = (cache_memory st)[e := \<lparr>cm_pid = pid, cm_page = page, cm_content = x\<rparr>]"
      "last_used_time st' = (last_used_time st)[e := Some t]" "mapped st' = mapped st"
  shows "cache_valid st'"
proof -
  let ?cs = "cache_memory st"
  have e: "e < length ?cs" and u: "\<And>f. f < length ?cs \<Longrightarrow> cm_pid (?cs ! f) = pid \<Longrightarrow> cm_page (?cs ! f) = page \<Longrightarrow> f = e"
    using f by (auto simp: fillable_def)
  have nn: "pid \<noteq> - 1" using pid by auto
  show ?thesis
    unfolding cache_valid_def Let_def st'
  proof (intro allI impI)
    fix g assume g: "g < length (?cs[e := \<lparr>cm_pid = pid, cm_page = page, cm_content = x\<rparr>])"
    let ?c = "?cs[e := \<lparr>cm_pid = pid, cm_page = page, cm_content = x\<rparr>] ! g"
    show "cm_pid ?c = - 1 \<and> cm_page ?c = - 1 \<or>
      0 < sint (cm_pid ?c) \<and> (last_used_time st)[e := Some t] ! g \<noteq> None \<and> mapped st (cm_pid ?c) (cm_page ?c) \<and>
      (\<forall>f < length (?cs[e := \<lparr>cm_pid = pid, cm_page = page, cm_content = x\<rparr>]).
         cm_pid (?cs[e := \<lparr>cm_pid = pid, cm_page = page, cm_content = x\<rparr>] ! f) = cm_pid ?c \<longrightarrow>
         cm_page (?cs[e := \<lparr>cm_pid = pid, cm_page = page, cm_content = x\<rparr>] ! f) = cm_page ?c \<longrightarrow> f = g)"
    proof (cases "g = e")
      case True
      then show ?thesis using e len pid m u by (auto simp: nth_list_update)
    next
      case False
      then show ?thesis
        using v g u e by (auto simp: cache_valid_def Let_def nth_list_update)
    qed
  qed
qed

context mem_commons
begin

lemma cache_account_fill:
  assumes inv: "cache_inv st" and pid: "0 < sint pid" and e: "e < length (cache_memory st)"
    and room: "cm_pid (cache_memory st ! e) = pid \<or>
               entry_count pid (cache_memory st) < uint (cache_x_process (memory_conf st))"
    and prev: "previous_pid = cm_pid (cache_memory st ! e)" "previous_pid \<noteq> pid"
    and upd: "update_entries (cxp_ops M) previous_pid pid False False 0 (cache_x_process_list st) = Some (u, l)"
    and st': "cache_memory st' = (cache_memory st)[e := \<lparr>cm_pid = pid, cm_page = page, cm_content = x\<rparr>]"
      "cache_x_process_list st' = (if u then l else l @ [\<lparr>cx_pid = pid, cx_entries = 1\<rparr>])"
      "memory_conf st' = memory_conf st"
  shows "cache_account st'"
proof -
  let ?l = "cache_x_process_list st" and ?cs = "cache_memory st"
  note A = cache_invD(3) [OF inv, unfolded cache_account_def]
  have d: "distinct (map cx_pid ?l)" and pos: "\<And>r. r \<in> set ?l \<Longrightarrow> 0 < sint (cx_pid r) \<and> 0 < sint (cx_entries r)"
    and cnt: "\<And>p. 0 < sint p \<Longrightarrow> entries_of p ?l = entry_count p ?cs"
    and lim: "\<And>p. 0 < sint p \<Longrightarrow> entry_count p ?cs \<le> uint (cache_x_process (memory_conf st))"
    using A by auto
  have neg: "previous_pid \<notin> cx_pid ` set ?l" if "sint previous_pid < 0"
    using pos that by fastforce
  have n: "length ?cs < 2 ^ 15 - 1"
    using cache_invD(1) [OF inv] by (simp add: cache_shape_def cache_conf_ok_def)
  have bnd: "0 \<le> sint (cx_entries r) \<and> sint (cx_entries r) + 1 < 2 ^ 15" if "r \<in> set ?l" for r
    using pos [OF that] entries_of_mem [OF d that] cnt [of "cx_pid r"] entry_count_le [of "cx_pid r" ?cs] n
    by auto
  from upd have nd: "\<And>r. r \<in> set ?l \<Longrightarrow> cx_pid r = previous_pid \<Longrightarrow> 0 < sint (cx_entries r - 1)"
    and u: "u \<longleftrightarrow> pid \<in> cx_pid ` set ?l" and l: "l = map (adjust previous_pid pid) ?l"
    by (auto simp: update_entries_eq [OF prev(2) d neg] split: if_splits)
  have "distinct (map cx_pid (cache_x_process_list st'))"
    using d u by (auto simp: st' l comp_def)
  moreover have "0 < sint (cx_pid r) \<and> 0 < sint (cx_entries r)" if "r \<in> set (cache_x_process_list st')" for r
  proof -
    have "0 < sint (cx_entries (adjust previous_pid pid r'))" if "r' \<in> set ?l" for r'
      using nd [OF that] pos [OF that] bnd [OF that] by (auto simp: adjust_def sint_u16_inc)
    with that pos pid show ?thesis by (auto simp: st' l split: if_splits)
  qed
  moreover have "entries_of p (cache_x_process_list st') = entry_count p (cache_memory st')"
    and "entry_count p (cache_memory st') \<le> uint (cache_x_process (memory_conf st'))" if p: "0 < sint p" for p
  proof -
    have zero: "p \<notin> cx_pid ` set ?l \<Longrightarrow> entry_count p ?cs = 0"
      using cnt [OF p] entries_of_absent [of p ?l] by simp
    have one: "0 < entry_count p ?cs" if "p = previous_pid"
      using that prev(1) e entry_count_0_iff [of p ?cs] entry_count_nonneg [of p ?cs]
      by (auto simp: less_le)
    have mem: "p \<in> cx_pid ` set ?l" if "p = previous_pid"
      using one [OF that] zero by (metis less_irrefl)
    have c': "entry_count p (cache_memory st') = entry_count p ?cs - of_bool (previous_pid = p) + of_bool (pid = p)"
      using e by (simp add: st' entry_count_update prev(1))
    have "entries_of p (cache_x_process_list st') =
        (if p \<in> cx_pid ` set ?l then entries_of p l else of_bool (p = pid))"
      using u by (auto simp: st' l entries_of_append entries_of_absent entries_of_Cons image_image)
    also have "\<dots> = entry_count p ?cs - of_bool (previous_pid = p) + of_bool (pid = p)"
      using zero mem cnt [OF p] prev(2)
      by (auto simp: l entries_of_adjust [OF prev(2) bnd])
    finally show "entries_of p (cache_x_process_list st') = entry_count p (cache_memory st')"
      by (simp add: c')
    show "entry_count p (cache_memory st') \<le> uint (cache_x_process (memory_conf st'))"
      using lim [OF p] room prev by (auto simp: c' st'(3))
  qed
  ultimately show ?thesis by (simp add: cache_account_def)
qed

lemma last_entry_iff:
  assumes inv: "cache_inv st" and e: "e < length (cache_memory st)" and pp: "pp = cm_pid (cache_memory st ! e)"
  shows "(\<exists>r \<in> set (cache_x_process_list st). cx_pid r = pp \<and> sint (cx_entries r - 1) \<le> 0) \<longleftrightarrow>
     0 \<le> sint pp \<and> entry_count pp (cache_memory st) = 1"
proof -
  let ?l = "cache_x_process_list st" and ?cs = "cache_memory st"
  have d: "distinct (map cx_pid ?l)" and pos: "\<And>r. r \<in> set ?l \<Longrightarrow> 0 < sint (cx_pid r) \<and> 0 < sint (cx_entries r)"
    and cnt: "\<And>p. 0 < sint p \<Longrightarrow> entries_of p ?l = entry_count p ?cs"
    using cache_invD(3) [OF inv] by (auto simp: cache_account_def)
  have ppp: "0 < sint pp" if "0 \<le> sint pp"
    using cache_invD(2) [OF inv] e that pp by (fastforce simp: cache_valid_def Let_def)
  show ?thesis
  proof
    assume "\<exists>r \<in> set ?l. cx_pid r = pp \<and> sint (cx_entries r - 1) \<le> 0"
    then obtain r where r: "r \<in> set ?l" "cx_pid r = pp" "sint (cx_entries r - 1) \<le> 0" by blast
    then have "sint (cx_entries r) = 1" using pos [OF r(1)] sint_u16_dec [of "cx_entries r"] by simp
    then show "0 \<le> sint pp \<and> entry_count pp ?cs = 1"
      using pos [OF r(1)] cnt [of pp] entries_of_mem [OF d r(1)] r(2) by simp
  next
    assume a: "0 \<le> sint pp \<and> entry_count pp ?cs = 1"
    then have c: "entries_of pp ?l = 1" using cnt ppp by simp
    then obtain r where r: "r \<in> set ?l" "cx_pid r = pp" using entries_of_absent [of pp ?l] by auto
    then have "sint (cx_entries r) = 1" using entries_of_mem [OF d r(1)] c by simp
    then have "sint (cx_entries r - 1) \<le> 0" by (simp add: sint_u16_dec)
    with r show "\<exists>r \<in> set ?l. cx_pid r = pp \<and> sint (cx_entries r - 1) \<le> 0" by blast
  qed
qed

text \<open>
  Filling an entry keeps the invariant.  It is undefined exactly when the entry is the only one of
  another process.
\<close>

lemma update_cache_inv:
  assumes inv: "cache_inv st" and pid: "0 < sint pid" and m: "mapped st pid page"
    and f: "fillable pid page e st"
    and room: "cm_pid (cache_memory st ! e) = pid \<or>
               entry_count pid (cache_memory st) < uint (cache_x_process (memory_conf st))"
    and sz: "0 \<le> sint off" "0 \<le> sint sz" "unat off + unat sz \<le> page_bytes st" "unat sz \<le> length buffer"
    and x: "x = mem_write (unat off) (take (unat sz) buffer) (cm_content (cache_memory st ! e))"
  shows "if last_entry_of_other pid e st then update_cache M (Some e) pid page off sz buffer st = None
         else \<exists>l. update_cache M (Some e) pid page off sz buffer st =
                Some (fill_entry e pid page x (string_time M (time_calls st)) l st) \<and>
              cache_inv (fill_entry e pid page x (string_time M (time_calls st)) l st)"
proof -
  let ?cs = "cache_memory st" and ?l = "cache_x_process_list st" and ?pp = "cm_pid (cache_memory st ! e)"
  let ?st = "\<lambda>l. fill_entry e pid page x (string_time M (time_calls st)) l st"
  note S = cache_invD(1) [OF inv, unfolded cache_shape_def]
  have e: "e < length ?cs" using f by (simp add: fillable_def)
  have len: "length (cm_content (?cs ! e)) = page_bytes st" using S e by simp
  have ok: "\<not> (sint off < 0 \<or> sint sz < 0 \<or> length (cm_content (?cs ! e)) < unat off + unat sz \<or> length buffer < unat sz)"
    using sz len by simp
  have shape: "cache_shape (?st l)" for l
    using S sz len x by (auto simp: cache_shape_def fill_entry_def dest!: subsetD [OF set_update_subset_insert])
  have valid: "cache_valid (?st l)" for l
    by (rule cache_valid_fill [OF cache_invD(2) [OF inv] f pid m]) (use S in \<open>simp_all add: fill_entry_def\<close>)
  show ?thesis
  proof (cases "?pp = pid")
    case True
    have "cache_account (?st ?l)"
      using cache_invD(3) [OF inv] e True by (simp add: cache_account_def entry_count_update fill_entry_def)
    then have "cache_inv (?st ?l)" using shape valid by (simp add: cache_inv_def)
    moreover have "update_cache M (Some e) pid page off sz buffer st = Some (?st ?l)"
      using ok True pid x by (simp add: update_cache_def fill_entry_def Let_def)
    ultimately show ?thesis using True by (auto simp: last_entry_of_other_def Let_def)
  next
    case False
    have neg: "?pp \<notin> cx_pid ` set ?l" if "sint ?pp < 0"
      using cache_invD(3) [OF inv] that by (fastforce simp: cache_account_def)
    then have U: "update_entries (cxp_ops M) ?pp pid False False 0 ?l =
        (if last_entry_of_other pid e st then None else Some (pid \<in> cx_pid ` set ?l, map (adjust ?pp pid) ?l))"
      using last_entry_iff [OF inv e refl] False cache_invD(3) [OF inv]
      by (subst update_entries_eq) (auto simp: last_entry_of_other_def Let_def cache_account_def)
    let ?g = "\<lambda>u l. if u then l else l @ [\<lparr>cx_pid = pid, cx_entries = 1\<rparr>]"
    have up: "update_cache M (Some e) pid page off sz buffer st =
        (case update_entries (cxp_ops M) ?pp pid False False 0 ?l of None \<Rightarrow> None | Some (u, l) \<Rightarrow> Some (?st (?g u l)))"
      using ok False x
      by (auto simp: update_cache_def fill_entry_def Let_def cx.list_add split: option.splits bind_splits)
    have "cache_inv (?st (?g u l))"
      if "update_entries (cxp_ops M) ?pp pid False False 0 ?l = Some (u, l)" for u l
    proof -
      have "cache_account (?st (?g u l))"
        by (rule cache_account_fill [OF inv pid e room refl False that]) (simp_all add: fill_entry_def)
      then show ?thesis using shape valid by (simp add: cache_inv_def)
    qed
    with up U show ?thesis by auto
  qed
qed

end


section \<open>Emptying entries\<close>

definition emptied :: "u32 \<Rightarrow> t_cache_memory \<Rightarrow> t_cache_memory" where
  "emptied pid c = (if cm_pid c = pid then c\<lparr>cm_pid := - 1, cm_page := - 1\<rparr> else c)"

lemma entry_count_card: "entry_count p cs = int (card {i. i < length cs \<and> cm_pid (cs ! i) = p})"
  by (simp add: entry_count_def length_filter_conv_card)

lemma clean_cache_frame:
  "\<exists>cs ts. clean_cache pid e n st = st\<lparr>cache_memory := cs, last_used_time := ts\<rparr>"
proof (induction n arbitrary: e st)
  case 0
  show ?case by (intro exI [of _ "cache_memory st"] exI [of _ "last_used_time st"]) simp
next
  case (Suc n)
  from Suc.IH [of "Suc e" "if cm_pid (cache_memory st ! e) = pid then clear_entry e st else st"]
  show ?case by (auto simp: clear_entry_def split: if_splits)
qed

lemma clean_cache_entries:
  assumes "e + n = length (cache_memory st)" "length (last_used_time st) = length (cache_memory st)"
  shows "cache_memory (clean_cache pid e n st) = take e (cache_memory st) @ map (emptied pid) (drop e (cache_memory st)) \<and>
     length (last_used_time (clean_cache pid e n st)) = length (last_used_time st) \<and>
     (\<forall>f < length (cache_memory st). last_used_time (clean_cache pid e n st) ! f =
        (if e \<le> f \<and> cm_pid (cache_memory st ! f) = pid then None else last_used_time st ! f))"
  using assms
proof (induction n arbitrary: e st)
  case 0
  then show ?case by simp
next
  case (Suc n)
  let ?st = "if cm_pid (cache_memory st ! e) = pid then clear_entry e st else st"
  have e: "e < length (cache_memory st)" using Suc.prems by simp
  have cs: "cache_memory ?st = (cache_memory st)[e := emptied pid (cache_memory st ! e)]"
    by (simp add: clear_entry_def emptied_def)
  have ts: "last_used_time ?st =
      (last_used_time st)[e := if cm_pid (cache_memory st ! e) = pid then None else last_used_time st ! e]"
    by (simp add: clear_entry_def)
  have dr: "drop e (cache_memory st) = cache_memory st ! e # drop (Suc e) (cache_memory st)"
    using e by (simp add: Cons_nth_drop_Suc)
  have ih: "cache_memory (clean_cache pid (Suc e) n ?st) =
        take (Suc e) (cache_memory ?st) @ map (emptied pid) (drop (Suc e) (cache_memory ?st)) \<and>
     length (last_used_time (clean_cache pid (Suc e) n ?st)) = length (last_used_time ?st) \<and>
     (\<forall>f < length (cache_memory ?st). last_used_time (clean_cache pid (Suc e) n ?st) ! f =
        (if Suc e \<le> f \<and> cm_pid (cache_memory ?st ! f) = pid then None else last_used_time ?st ! f))"
    by (rule Suc.IH) (use Suc.prems in \<open>auto simp: clear_entry_def\<close>)
  have "take (Suc e) (cache_memory ?st) @ map (emptied pid) (drop (Suc e) (cache_memory ?st)) =
      take e (cache_memory st) @ map (emptied pid) (drop e (cache_memory st))"
    using e by (simp add: cs dr take_Suc_conv_app_nth)
  moreover have "(if Suc e \<le> f \<and> cm_pid (cache_memory ?st ! f) = pid then None else last_used_time ?st ! f) =
      (if e \<le> f \<and> cm_pid (cache_memory st ! f) = pid then None else last_used_time st ! f)"
    if "f < length (cache_memory st)" for f
    using that e Suc.prems(2) by (auto simp: cs ts nth_list_update Suc_le_eq le_less)
  moreover have "clean_cache pid e (Suc n) st = clean_cache pid (Suc e) n ?st" by simp
  ultimately show ?case using ih by (simp add: cs ts del: clean_cache.simps)
qed

lemma entries_of_remove:
  assumes "distinct (map cx_pid l)" "i < length l"
  shows "entries_of p (remove_at i l) = (if p = cx_pid (l ! i) then 0 else entries_of p l)"
  using assms
proof (induction l arbitrary: i)
  case (Cons r l)
  show ?case
  proof (cases i)
    case 0
    then show ?thesis using Cons.prems by (auto simp: remove_at_def entries_of_Cons entries_of_absent)
  next
    case (Suc k)
    have "remove_at (Suc k) (r # l) = r # remove_at k l" by (simp add: remove_at_def)
    moreover have "cx_pid (l ! k) \<noteq> cx_pid r" using Cons.prems Suc by (metis Suc_less_eq
          distinct.simps(2) image_eqI length_Cons list.simps(9) nth_mem set_map)
    ultimately show ?thesis using Cons Suc by (auto simp: entries_of_Cons)
  qed
qed simp

lemma entries_of_list_update:
  assumes "distinct (map cx_pid l)" "i < length l" "cx_pid r = cx_pid (l ! i)"
  shows "entries_of p (l[i := r]) = (if p = cx_pid r then sint (cx_entries r) else entries_of p l)"
  using assms
proof (induction l arbitrary: i)
  case (Cons x l)
  show ?case
  proof (cases i)
    case 0
    then show ?thesis using Cons.prems by (simp add: entries_of_Cons)
  next
    case (Suc k)
    then have "cx_pid (l ! k) \<in> cx_pid ` set l" using Cons.prems by simp
    then have "cx_pid x \<noteq> cx_pid r" using Cons.prems Suc by auto
    with Cons Suc show ?thesis by (auto simp: entries_of_Cons)
  qed
qed simp

lemma map_cx_pid_update: "cx_pid r = cx_pid (l ! i) \<Longrightarrow> map cx_pid (l[i := r]) = map cx_pid l"
  by (metis list_update_id map_update)

context mem_commons
begin

lemma drop_entry_account:
  assumes d: "distinct (map cx_pid l)" and pos: "\<And>r. r \<in> set l \<Longrightarrow> 0 < sint (cx_pid r) \<and> 0 < sint (cx_entries r)"
  shows "distinct (map cx_pid (drop_entry M pid l))"
    and "r \<in> set (drop_entry M pid l) \<Longrightarrow> 0 < sint (cx_pid r) \<and> 0 < sint (cx_entries r)"
    and "entries_of p (drop_entry M pid l) = entries_of p l - of_bool (p = pid \<and> pid \<in> cx_pid ` set l)"
proof (atomize (full), cases "find_index (\<lambda>r. cx_pid r = pid) l")
  case None
  then show "distinct (map cx_pid (drop_entry M pid l)) \<and>
      (r \<in> set (drop_entry M pid l) \<longrightarrow> 0 < sint (cx_pid r) \<and> 0 < sint (cx_entries r)) \<and>
      entries_of p (drop_entry M pid l) = entries_of p l - of_bool (p = pid \<and> pid \<in> cx_pid ` set l)"
    using d pos find_index_None_iff [of "\<lambda>r. cx_pid r = pid" l] by (auto simp: drop_entry_def)
next
  case (Some i)
  let ?r = "(l ! i)\<lparr>cx_entries := cx_entries (l ! i) - 1\<rparr>"
  have i: "i < length l" "cx_pid (l ! i) = pid" "l ! i \<in> set l" using find_index_SomeD [OF Some] by auto
  have dec: "sint (cx_entries (l ! i) - 1) = entries_of pid l - 1"
    using entries_of_mem [OF d i(3)] i(2) pos [OF i(3)] by (simp add: sint_u16_dec)
  have m: "pid \<in> cx_pid ` set l" using i by auto
  have du: "distinct (map cx_pid (l[i := ?r]))" using d by (simp add: map_cx_pid_update)
  have pu: "0 < sint (cx_pid r) \<and> 0 < sint (cx_entries r)"
    if "r \<in> set (l[i := ?r])" "r \<noteq> ?r" for r
    using that pos set_update_subset_insert [of l i ?r] by auto
  have eq: "drop_entry M pid l = (if sint (cx_entries ?r) \<le> 0 then remove_at i (l[i := ?r]) else l[i := ?r])"
    using Some cx.list_get_found [OF Some] i(1)
    by (simp add: drop_entry_def Let_def cx.list_remove)
  show "distinct (map cx_pid (drop_entry M pid l)) \<and>
      (r \<in> set (drop_entry M pid l) \<longrightarrow> 0 < sint (cx_pid r) \<and> 0 < sint (cx_entries r)) \<and>
      entries_of p (drop_entry M pid l) = entries_of p l - of_bool (p = pid \<and> pid \<in> cx_pid ` set l)"
  proof (cases "sint (cx_entries ?r) \<le> 0")
    case True
    have "r \<noteq> ?r" if "r \<in> set (remove_at i (l[i := ?r]))"
      using that du i set_remove_at_distinct [of "l[i := ?r]" i] by (auto simp: distinct_map)
    moreover have "entries_of pid l = 1"
      using True dec entries_of_mem [OF d i(3)] i(2) pos [OF i(3)] by simp
    ultimately show ?thesis
      using True du pu set_remove_at_subset [of i "l[i := ?r]"] i m d
      by (auto simp: eq distinct_map_remove_at entries_of_remove entries_of_list_update)
  next
    case False
    then have "0 < sint (cx_pid r) \<and> 0 < sint (cx_entries r)" if "r \<in> set (l[i := ?r])"
      using that pu pos [OF i(3)] by (cases "r = ?r") auto
    with False show ?thesis
      using du d i m dec by (simp add: eq entries_of_list_update)
  qed
qed

end

end
