(* ===== verification/Memoria_Release.thy ===== *)
theory Memoria_Release
  imports Memoria_Cache
begin

text \<open>
  The whole of \<open>delete_page_process\<close> and \<open>cleaning_process_entries\<close>, on frames and cache together:
  both keep the invariants and remove exactly the pages they are asked to remove.  The theory ends
  with the properties of the cache and of the release operations.
\<close>

section \<open>Emptied entries keep the cache invariant\<close>

definition emptied_from :: "mem_state \<Rightarrow> mem_state \<Rightarrow> bool" where
  "emptied_from st st' \<longleftrightarrow> memory_conf st' = memory_conf st
     \<and> length (cache_memory st') = length (cache_memory st)
     \<and> length (last_used_time st') = length (last_used_time st)
     \<and> (\<forall>f < length (cache_memory st). cm_content (cache_memory st' ! f) = cm_content (cache_memory st ! f)
          \<and> ((cm_pid (cache_memory st' ! f) = - 1 \<and> cm_page (cache_memory st' ! f) = - 1) \<or>
             (cache_memory st' ! f = cache_memory st ! f \<and> last_used_time st' ! f = last_used_time st ! f \<and>
              (mapped st (cm_pid (cache_memory st ! f)) (cm_page (cache_memory st ! f)) \<longrightarrow>
               mapped st' (cm_pid (cache_memory st ! f)) (cm_page (cache_memory st ! f))))))"

lemma emptied_shape:
  assumes "emptied_from st st'" "cache_shape st"
  shows "cache_shape st'"
proof -
  have "length (cm_content c) = page_bytes st" if c: "c \<in> set (cache_memory st')" for c
  proof -
    from c obtain i where i: "i < length (cache_memory st')" "c = cache_memory st' ! i"
      by (auto simp: in_set_conv_nth)
    then have "cm_content c = cm_content (cache_memory st ! i)" "cache_memory st ! i \<in> set (cache_memory st)"
      using assms(1) by (simp_all add: emptied_from_def)
    then show ?thesis using assms(2) by (simp add: cache_shape_def)
  qed
  then show ?thesis using assms by (simp add: emptied_from_def cache_shape_def)
qed

lemma emptied_valid:
  assumes e: "emptied_from st st'" and v: "cache_valid st"
  shows "cache_valid st'"
  unfolding cache_valid_def Let_def
proof (intro allI impI)
  let ?cs = "cache_memory st" and ?cs' = "cache_memory st'"
  fix g assume "g < length ?cs'"
  then have g: "g < length ?cs" using e by (simp add: emptied_from_def)
  let ?c = "?cs' ! g"
  show "cm_pid ?c = - 1 \<and> cm_page ?c = - 1 \<or>
      0 < sint (cm_pid ?c) \<and> last_used_time st' ! g \<noteq> None \<and> mapped st' (cm_pid ?c) (cm_page ?c) \<and>
      (\<forall>f < length ?cs'. cm_pid (?cs' ! f) = cm_pid ?c \<longrightarrow> cm_page (?cs' ! f) = cm_page ?c \<longrightarrow> f = g)"
  proof (cases "cm_pid ?c = - 1 \<and> cm_page ?c = - 1")
    case True
    then show ?thesis by simp
  next
    case False
    then have same: "?c = ?cs ! g" "last_used_time st' ! g = last_used_time st ! g"
        "mapped st (cm_pid ?c) (cm_page ?c) \<Longrightarrow> mapped st' (cm_pid ?c) (cm_page ?c)"
      using e g by (auto simp: emptied_from_def)
    then have vg: "0 < sint (cm_pid ?c)" "last_used_time st ! g \<noteq> None" "mapped st (cm_pid ?c) (cm_page ?c)"
        "\<And>f. f < length ?cs \<Longrightarrow> cm_pid (?cs ! f) = cm_pid ?c \<Longrightarrow> cm_page (?cs ! f) = cm_page ?c \<Longrightarrow> f = g"
      using v g False by (auto simp: cache_valid_def Let_def)
    have "f = g" if f: "f < length ?cs'" "cm_pid (?cs' ! f) = cm_pid ?c" "cm_page (?cs' ! f) = cm_page ?c" for f
    proof -
      have fl: "f < length ?cs" using f(1) e by (simp add: emptied_from_def)
      have "cm_pid (?cs' ! f) \<noteq> - 1" using f(2) vg(1) by auto
      then have "?cs' ! f = ?cs ! f" using e fl by (auto simp: emptied_from_def)
      with f vg(4) fl show ?thesis by simp
    qed
    with vg same show ?thesis by auto
  qed
qed

lemma release_cache [simp]:
  "cache_memory (release_frame f ov st) = cache_memory st"
  "last_used_time (release_frame f ov st) = last_used_time st"
  "cache_x_process_list (release_frame f ov st) = cache_x_process_list st"
  by (simp_all add: release_frame_def)

lemma mapped_release:
  assumes "frame_inv st" "maps st pid page f"
  shows "mapped (release_frame f ov st) p q \<longleftrightarrow> mapped st p q \<and> \<not> (p = pid \<and> q = page)"
proof -
  have "used st f" "\<And>p q. maps st p q f \<Longrightarrow> p = pid \<and> q = page"
    using assms(2) by (auto simp: maps_def)
  then show ?thesis
    unfolding mapped_def release_maps [OF assms(1) \<open>used st f\<close>]
    using assms(2) maps_unique [OF assms(1)] by blast
qed

section \<open>Deleting a page\<close>

context mem_commons
begin

lemma cache_account_clear:
  assumes ci: "cache_inv st" and e: "e < length (cache_memory st)" "cm_pid (cache_memory st ! e) = pid"
    and pid: "0 < sint pid"
    and st': "cache_memory st' = (cache_memory st)[e := (cache_memory st ! e)\<lparr>cm_pid := - 1, cm_page := - 1\<rparr>]"
      "cache_x_process_list st' = drop_entry M pid (cache_x_process_list st)"
      "memory_conf st' = memory_conf st"
  shows "cache_account st'"
proof -
  let ?cs = "cache_memory st" and ?l = "cache_x_process_list st"
  note A = cache_invD(3) [OF ci, unfolded cache_account_def]
  have d: "distinct (map cx_pid ?l)"
    and pos: "\<And>r. r \<in> set ?l \<Longrightarrow> 0 < sint (cx_pid r) \<and> 0 < sint (cx_entries r)"
    using A by auto
  have "entry_count pid ?cs \<noteq> 0" using e by (auto simp: entry_count_0_iff)
  then have mem: "pid \<in> cx_pid ` set ?l"
    using A pid entries_of_absent [of pid ?l] by auto
  have "entries_of p (cache_x_process_list st') = entry_count p (cache_memory st') \<and>
      entry_count p (cache_memory st') \<le> uint (cache_x_process (memory_conf st'))" if p: "0 < sint p" for p
  proof -
    have "p \<noteq> - 1" using p by auto
    then have cnt: "entry_count p (cache_memory st') = entry_count p ?cs - of_bool (p = pid)"
      using e by (auto simp: st' entry_count_update)
    have "entries_of p ?l = entry_count p ?cs" "entry_count p ?cs \<le> uint (cache_x_process (memory_conf st))"
      using A p by blast+
    moreover have "entries_of p (drop_entry M pid ?l) = entries_of p ?l - of_bool (p = pid)"
      using drop_entry_account(3) [OF d pos, of p pid] mem by simp
    ultimately show ?thesis
      unfolding cnt st'(2,3) by (cases "p = pid") simp_all
  qed
  then show ?thesis
    using drop_entry_account(1,2) [OF d pos] by (simp add: cache_account_def st'(2))
qed

lemma delete_page_process_ok:
  assumes inv: "frame_inv st" and ci: "cache_inv st" and m: "maps st pid page f"
  shows "\<exists>st'. delete_page_process M pid page st = Some st' \<and> frame_inv st' \<and> cache_inv st' \<and>
     (\<forall>p q g. maps st' p q g \<longleftrightarrow> maps st p q g \<and> g \<noteq> f) \<and>
     available_frame_list st' = available_frame_list st @ [f] \<and> memory_conf st' = memory_conf st"
proof -
  obtain ov where ov: "drops (overflow st ! hash_of st f) f ov"
    and del: "delete_page_frame M pid page st = Some (release_frame f ov st)"
    using delete_page_release [OF inv m] by blast
  let ?st1 = "release_frame f ov st" and ?cs = "cache_memory st"
  have pid: "0 < sint pid" by (rule maps_pid [OF inv m])
  have u: "used st f" using m by (simp add: maps_def)
  have inv1: "frame_inv ?st1" by (rule release_inv [OF inv u ov])
  note mp = mapped_release [OF inv m, of ov]
  show ?thesis
  proof (cases "get_cache_entry pid page ?st1")
    case None
    then have "\<not> (cm_pid (?cs ! g) = pid \<and> cm_page (?cs ! g) = page)" if "g < length ?cs" for g
      using that by (auto simp: get_cache_entry_def find_index_None_iff)
    then have "emptied_from st ?st1" by (auto simp: emptied_from_def mp)
    then have "cache_shape ?st1" "cache_valid ?st1"
      using cache_invD [OF ci] by (auto intro: emptied_shape emptied_valid)
    moreover have "cache_account ?st1" using cache_invD(3) [OF ci] by (simp add: cache_account_def)
    ultimately have "cache_inv ?st1" by (simp add: cache_inv_def)
    with None del inv1 show ?thesis
      by (simp add: delete_page_process_def release_maps [OF inv u])
  next
    case (Some e)
    then have e: "e < length ?cs" "cm_pid (?cs ! e) = pid" "cm_page (?cs ! e) = page"
      using find_index_SomeD [OF Some [unfolded get_cache_entry_def]] by auto
    let ?st2 = "(clear_entry e ?st1)\<lparr>cache_x_process_list := drop_entry M pid (cache_x_process_list ?st1)\<rparr>"
    have fr: "maps ?st2 = maps ?st1" "mapped ?st2 = mapped ?st1" "frame_inv ?st2 = frame_inv ?st1"
      by (simp_all add: clear_entry_def)
    have "g = e" if "g < length ?cs" "cm_pid (?cs ! g) = pid" "cm_page (?cs ! g) = page" for g
      using cache_invD(2) [OF ci] e that pid by (fastforce simp: cache_valid_def Let_def)
    then have "emptied_from st ?st2"
      using e(1) unfolding emptied_from_def fr mp by (auto simp: clear_entry_def nth_list_update)
    then have "cache_shape ?st2" "cache_valid ?st2"
      using cache_invD [OF ci] by (auto intro: emptied_shape emptied_valid)
    moreover have "cache_account ?st2"
      by (rule cache_account_clear [OF ci e(1,2) pid]) (simp_all add: clear_entry_def)
    ultimately have "cache_inv ?st2" by (simp add: cache_inv_def)
    moreover have "delete_page_process M pid page st = Some ?st2"
      using del Some by (simp add: delete_page_process_def)
    moreover have "available_frame_list ?st2 = available_frame_list st @ [f]" "memory_conf ?st2 = memory_conf st"
      by (simp_all add: clear_entry_def)
    ultimately show ?thesis
      using inv1 fr by (simp add: release_maps [OF inv u])
  qed
qed

end

section \<open>Finalising a process\<close>

lemma remove_from_overflow_frame [simp]:
  "cache_memory (remove_from_overflow M h g st) = cache_memory st"
  "last_used_time (remove_from_overflow M h g st) = last_used_time st"
  "cache_x_process_list (remove_from_overflow M h g st) = cache_x_process_list st"
  "memory_conf (remove_from_overflow M h g st) = memory_conf st"
  by (simp_all add: remove_from_overflow_def split: option.splits)

lemma clean_frames_cache:
  "clean_frames M pid f n st = Some st' \<Longrightarrow>
   cache_memory st' = cache_memory st \<and> last_used_time st' = last_used_time st \<and>
   cache_x_process_list st' = cache_x_process_list st \<and> memory_conf st' = memory_conf st"
proof (induction n arbitrary: f st)
  case (Suc n)
  then obtain st1 where "clean_frames M pid (Suc f) n st1 = Some st'"
    "cache_memory st1 = cache_memory st \<and> last_used_time st1 = last_used_time st \<and>
     cache_x_process_list st1 = cache_x_process_list st \<and> memory_conf st1 = memory_conf st"
    by (auto simp: Let_def bind_eq_Some_conv split: if_splits)
  with Suc.IH show ?case by metis
qed simp

context mem_commons
begin

text \<open>Taking the entry of a process out of a list of records, as the two loops after the table do.\<close>

lemma remove_pages_entry:
  assumes inv: "frame_inv st" and nm: "\<And>q. \<not> mapped st pid q"
  shows "frame_inv (case find_index (\<lambda>r. pp_pid r = pid) (pages_per_process_list st) of
       Some i \<Rightarrow> st\<lparr>pages_per_process_list := remove_at i (pages_per_process_list st)\<rparr> | None \<Rightarrow> st)"
proof (cases "find_index (\<lambda>r. pp_pid r = pid) (pages_per_process_list st)")
  case None
  with inv show ?thesis by simp
next
  case (Some i)
  let ?l = "pages_per_process_list st"
  have i: "i < length ?l" "pp_pid (?l ! i) = pid" using find_index_SomeD [OF Some] by auto
  have d: "distinct (map pp_pid ?l)" using inv by (simp add: frame_inv_def inv_pages_def)
  have rem: "r \<in> set (remove_at i ?l)" if "r \<in> set ?l" "pp_pid r \<noteq> pid" for r
    using that i set_remove_at_distinct [OF _ i(1)] d by (auto simp: distinct_map)
  have "\<exists>r \<in> set (remove_at i ?l). pp_pid r = pid_of st f \<and> page_of st f < pp_pages_count r" if u: "used st f" for f
  proof -
    have "pid_of st f \<noteq> pid" using nm u by (auto simp: mapped_def maps_def)
    then show ?thesis using frame_invD(5) [OF inv] u rem by (fastforce simp: inv_pages_def)
  qed
  then have "inv_pages (st\<lparr>pages_per_process_list := remove_at i ?l\<rparr>)"
    using d by (simp add: inv_pages_def distinct_map_remove_at)
  with frame_invD [OF inv] Some show ?thesis by (simp add: frame_inv_def)
qed

lemma entry_count_emptied:
  "0 < sint p \<Longrightarrow> entry_count p (map (emptied pid) cs) = (if p = pid then 0 else entry_count p cs)"
proof -
  assume "0 < sint p"
  then have "p \<noteq> - 1" by auto
  then show ?thesis
    by (cases "p = pid", simp add: entry_count_def filter_empty_conv emptied_def)
      (induction cs, simp_all add: entry_count_def emptied_def)
qed

lemma cache_account_finalize:
  assumes ci: "cache_inv st" and pid: "0 < sint pid"
    and st': "cache_memory st' = map (emptied pid) (cache_memory st)" "memory_conf st' = memory_conf st"
      "cache_x_process_list st' = (case find_index (\<lambda>r. cx_pid r = pid) (cache_x_process_list st) of
         Some i \<Rightarrow> remove_at i (cache_x_process_list st) | None \<Rightarrow> cache_x_process_list st)"
  shows "cache_account st'"
proof -
  let ?l = "cache_x_process_list st"
  note A = cache_invD(3) [OF ci, unfolded cache_account_def]
  have d: "distinct (map cx_pid ?l)" using A by blast
  have en: "entries_of p (cache_x_process_list st') = (if p = pid then 0 else entries_of p ?l)" for p
  proof (cases "find_index (\<lambda>r. cx_pid r = pid) ?l")
    case None
    then have "pid \<notin> cx_pid ` set ?l" by (auto simp: find_index_None_iff)
    with None show ?thesis by (simp add: st' entries_of_absent)
  next
    case (Some i)
    then show ?thesis using find_index_SomeD [OF Some] d by (simp add: st' entries_of_remove)
  qed
  have sub: "set (cache_x_process_list st') \<subseteq> set ?l" and "distinct (map cx_pid (cache_x_process_list st'))"
    using d by (auto simp: st' distinct_map_remove_at dest: subsetD [OF set_remove_at_subset]
        split: option.splits)
  then show ?thesis
    using A by (auto simp: cache_account_def st'(1,2) en entry_count_emptied)
qed

lemma cleaning_process_entries_parts:
  assumes inv: "frame_inv st" and ci: "cache_inv st" and pid: "0 < sint pid"
  shows "\<exists>st2 cs ts. cleaning_process_entries M pid st = Some (st2\<lparr>cache_memory := cs, last_used_time := ts\<rparr>) \<and>
     frame_inv st2 \<and> memory_conf st2 = memory_conf st \<and>
     (\<forall>p q g. maps st2 p q g \<longleftrightarrow> maps st p q g \<and> p \<noteq> pid) \<and>
     (\<forall>p q g. maps st2 p q g \<longrightarrow> get_reg (memory st2) g = get_reg (memory st) g) \<and>
     cs = map (emptied pid) (cache_memory st) \<and> length ts = length (last_used_time st) \<and>
     (\<forall>f < length (cache_memory st). ts ! f =
        (if cm_pid (cache_memory st ! f) = pid then None else last_used_time st ! f)) \<and>
     cache_x_process_list st2 = (case find_index (\<lambda>r. cx_pid r = pid) (cache_x_process_list st) of
         Some i \<Rightarrow> remove_at i (cache_x_process_list st) | None \<Rightarrow> cache_x_process_list st)"
proof -
  obtain st0 where st0: "clean_frames M pid 0 (n_frames st) st = Some st0"
    and C: "frame_inv st0" "memory_conf st0 = memory_conf st"
      "\<And>p q g. maps st0 p q g \<longleftrightarrow> maps st p q g \<and> p \<noteq> pid"
      "\<And>p q g. maps st0 p q g \<Longrightarrow> get_reg (memory st0) g = get_reg (memory st) g"
    using clean_frames_release [OF inv pid, of 0 "n_frames st"] by auto
  define st1 where "st1 = (case find_index (\<lambda>r. pp_pid r = pid) (pages_per_process_list st0) of
       Some i \<Rightarrow> st0\<lparr>pages_per_process_list := remove_at i (pages_per_process_list st0)\<rparr> | None \<Rightarrow> st0)"
  define st2 where "st2 = (case find_index (\<lambda>r. cx_pid r = pid) (cache_x_process_list st1) of
       Some i \<Rightarrow> st1\<lparr>cache_x_process_list := remove_at i (cache_x_process_list st1)\<rparr> | None \<Rightarrow> st1)"
  note F = clean_frames_cache [OF st0]
  have "frame_inv st1"
    unfolding st1_def by (rule remove_pages_entry) (use C in \<open>auto simp: mapped_def\<close>)
  then have inv2: "frame_inv st2" by (simp add: st2_def split: option.splits)
  have m1: "maps st1 = maps st0" "memory st1 = memory st0" "memory_conf st1 = memory_conf st0"
    "cache_memory st1 = cache_memory st0" "last_used_time st1 = last_used_time st0"
    "cache_x_process_list st1 = cache_x_process_list st0"
    by (simp_all add: st1_def fun_eq_iff maps_def used_def user_frame_def split: option.splits)
  have m2: "maps st2 = maps st1" "memory st2 = memory st1" "memory_conf st2 = memory_conf st1"
    "cache_memory st2 = cache_memory st1" "last_used_time st2 = last_used_time st1"
    by (simp_all add: st2_def fun_eq_iff split: option.splits)
  have len: "unat (cache_entries (memory_conf st2)) = length (cache_memory st2)"
    "length (last_used_time st2) = length (cache_memory st2)"
    using cache_invD(1) [OF ci] C F m1 m2 by (simp_all add: cache_shape_def)
  have s1: "(case list_search (pages_ops M) (\<lambda>r. pp_pid r = pid) (pages_per_process_list st0) 0 of
       Some index \<Rightarrow> st0\<lparr>pages_per_process_list := snd (list_remove (pages_ops M) (pages_per_process_list st0) index)\<rparr>
     | None \<Rightarrow> st0) = st1"
    by (auto simp: st1_def pg.list_remove_found split: option.splits)
  have s2: "(case list_search (cxp_ops M) (\<lambda>r. cx_pid r = pid) (cache_x_process_list st1) 0 of
       Some index \<Rightarrow> st1\<lparr>cache_x_process_list := snd (list_remove (cxp_ops M) (cache_x_process_list st1) index)\<rparr>
     | None \<Rightarrow> st1) = st2"
    by (auto simp: st2_def cx.list_remove_found split: option.splits)
  have eq: "cleaning_process_entries M pid st = Some (clean_cache pid 0 (length (cache_memory st2)) st2)"
    unfolding cleaning_process_entries_def st0 bind.bind_lunit Let_def s1 s2 len(1) ..
  obtain cs ts where ct: "clean_cache pid 0 (length (cache_memory st2)) st2 = st2\<lparr>cache_memory := cs, last_used_time := ts\<rparr>"
    using clean_cache_frame by blast
  from clean_cache_entries [of 0 "length (cache_memory st2)" st2 pid] len(2)
  have "cs = map (emptied pid) (cache_memory st)" "length ts = length (last_used_time st)"
    "\<forall>f < length (cache_memory st). ts ! f = (if cm_pid (cache_memory st ! f) = pid then None else last_used_time st ! f)"
    unfolding ct using m1 m2 F by simp_all
  moreover have "cache_x_process_list st2 = (case find_index (\<lambda>r. cx_pid r = pid) (cache_x_process_list st) of
         Some i \<Rightarrow> remove_at i (cache_x_process_list st) | None \<Rightarrow> cache_x_process_list st)"
    by (simp add: st2_def m1 F split: option.splits)
  ultimately show ?thesis
    using eq ct inv2 C m1 m2 by (intro exI [of _ st2] exI [of _ cs] exI [of _ ts]) simp
qed

lemma cleaning_process_entries_ok:
  assumes inv: "frame_inv st" and ci: "cache_inv st" and pid: "0 < sint pid"
  shows "\<exists>st'. cleaning_process_entries M pid st = Some st' \<and> frame_inv st' \<and> cache_inv st' \<and>
     (\<forall>p q g. maps st' p q g \<longleftrightarrow> maps st p q g \<and> p \<noteq> pid) \<and>
     (\<forall>p q g. maps st' p q g \<longrightarrow> get_reg (memory st') g = get_reg (memory st) g) \<and>
     (\<forall>q f. maps st pid q f \<longrightarrow> f \<in> set (available_frame_list st')) \<and>
     (\<forall>c \<in> set (cache_memory st'). cm_pid c \<noteq> pid)"
proof -
  let ?cs = "cache_memory st" and ?l = "cache_x_process_list st"
  have np: "pid \<noteq> - 1" using pid by auto
  obtain st2 cs ts where P: "cleaning_process_entries M pid st = Some (st2\<lparr>cache_memory := cs, last_used_time := ts\<rparr>)"
     "frame_inv st2" "memory_conf st2 = memory_conf st"
     "\<And>p q g. maps st2 p q g \<longleftrightarrow> maps st p q g \<and> p \<noteq> pid"
     "\<And>p q g. maps st2 p q g \<Longrightarrow> get_reg (memory st2) g = get_reg (memory st) g"
     "cs = map (emptied pid) ?cs" "length ts = length (last_used_time st)"
     "\<And>f. f < length ?cs \<Longrightarrow> ts ! f = (if cm_pid (?cs ! f) = pid then None else last_used_time st ! f)"
     "cache_x_process_list st2 = (case find_index (\<lambda>r. cx_pid r = pid) ?l of Some i \<Rightarrow> remove_at i ?l | None \<Rightarrow> ?l)"
    using cleaning_process_entries_parts [OF inv ci pid] by (elim exE conjE) (rule that; blast)
  let ?st = "st2\<lparr>cache_memory := cs, last_used_time := ts\<rparr>"
  have "emptied_from st ?st"
    unfolding emptied_from_def using P by (auto simp: emptied_def mapped_def)
  then have "cache_shape ?st" "cache_valid ?st"
    using cache_invD [OF ci] by (auto intro: emptied_shape emptied_valid)
  moreover have "cache_account ?st"
    using cache_account_finalize [OF ci pid] P(3,6,9) by simp
  ultimately have "cache_inv ?st" by (simp add: cache_inv_def)
  moreover have "f \<in> set (available_frame_list ?st)" if m: "maps st pid q f" for q f
  proof (rule ccontr)
    assume n: "f \<notin> set (available_frame_list ?st)"
    then have u: "used st2 f" using maps_frame [OF m] P(3) by (simp add: used_def user_frame_def)
    then have "maps st2 (pid_of st2 f) (page_of st2 f) f" by (simp add: maps_def)
    then have "maps st (pid_of st2 f) (page_of st2 f) f \<and> pid_of st2 f \<noteq> pid"
      using P(4) by blast
    with m show False by (auto simp: maps_def)
  qed
  moreover have "\<forall>c \<in> set (cache_memory ?st). cm_pid c \<noteq> pid"
    using np by (auto simp: P(6) emptied_def)
  moreover have "frame_inv ?st" using P(2) by simp
  moreover have "maps ?st p q g \<longleftrightarrow> maps st p q g \<and> p \<noteq> pid" for p q g
    using P(4) [of p q g] by simp
  moreover have "get_reg (memory ?st) g = get_reg (memory st) g" if "maps ?st p q g" for p q g
    using P(5) [of p q g] that by simp
  ultimately show ?thesis unfolding P(1) by blast
qed

end


section \<open>Assigning pages and start-up\<close>

lemma inicialize_page_cache:
  "inicialize_page M p q s st = Some st' \<Longrightarrow>
   cache_memory st' = cache_memory st \<and> last_used_time st' = last_used_time st \<and>
   cache_x_process_list st' = cache_x_process_list st \<and> stack_size st' = stack_size st \<and>
   kernel_client st' = kernel_client st"
  by (auto simp: inicialize_page_def frame_is_available_def get_available_frame_def add_to_overflow_def
      Let_def bind_eq_Some_conv split: prod.splits option.splits bool.splits)

lemma assign_loop_cache:
  "assign_loop M pid i init n cp st = Some st' \<Longrightarrow>
   cache_memory st' = cache_memory st \<and> last_used_time st' = last_used_time st \<and>
   cache_x_process_list st' = cache_x_process_list st \<and> stack_size st' = stack_size st \<and>
   kernel_client st' = kernel_client st"
proof (induction n arbitrary: cp st)
  case (Suc n)
  let ?r = "pages_per_process_list st ! i"
  let ?st1 = "st\<lparr>pages_per_process_list := (pages_per_process_list st)[i := ?r\<lparr>pp_pages_count := pp_pages_count ?r + 1\<rparr>]\<rparr>"
  have "Option.bind (inicialize_page M pid (pp_pages_count ?r) (page_segment init cp 0) ?st1)
      (assign_loop M pid i init n (if init then cp - 1 else cp)) = Some st'"
    using Suc.prems by (cases init; cases "0 < cp") (simp_all add: page_segment_def Let_def)
  then obtain st2 where "inicialize_page M pid (pp_pages_count ?r) (page_segment init cp 0) ?st1 = Some st2"
      "assign_loop M pid i init n (if init then cp - 1 else cp) st2 = Some st'"
    by (auto simp: bind_eq_Some_conv)
  from inicialize_page_cache [OF this(1)] Suc.IH [OF this(2)] show ?case by simp
qed simp

lemma assign_pages_cache:
  assumes "assign_pages_to_process M pid n init st = Some (rc, st')"
  shows "cache_memory st' = cache_memory st" "last_used_time st' = last_used_time st"
    "cache_x_process_list st' = cache_x_process_list st" "stack_size st' = stack_size st"
    "kernel_client st' = kernel_client st"
  using assms by (auto simp: assign_pages_to_process_def Let_def dest!: assign_loop_cache split: prod.splits option.splits if_splits)

context mem_commons
begin

lemma assign_pages_inv:
  assumes inv: "frame_inv st" and ci: "cache_inv st" and pid: "0 < sint pid"
    and fit: "sint n \<le> int (length (available_frame_list st))"
    and cnt: "unat (page_count pid st) + nat (sint n) < 2 ^ 32"
    and run: "assign_pages_to_process M pid n init st = Some (rc, st')"
  shows "frame_inv st'" and "cache_inv st'" and "\<And>p q f. maps st p q f \<Longrightarrow> maps st' p q f"
    and "memory_conf st' = memory_conf st"
proof -
  from assign_pages_mapped [OF inv pid fit cnt run] obtain i where
    a: "assigned pid i (page_count pid st) (nat (sint n))
       (page_segment init (sint n - sint (stack_size st))) (with_entry pid st) st'" by blast
  then show "frame_inv st'" by (simp add: assigned_def)
  show mm: "maps st' p q f" if "maps st p q f" for p q f
    using a that by (simp add: assigned_def)
  show cf: "memory_conf st' = memory_conf st" using a by (simp add: assigned_def)
  have "emptied_from st st'"
    using mm by (auto simp: emptied_from_def cf assign_pages_cache [OF run] mapped_def)
  then have "cache_shape st'" "cache_valid st'"
    using cache_invD [OF ci] by (auto intro: emptied_shape emptied_valid)
  moreover have "cache_account st'"
    using cache_invD(3) [OF ci] by (simp add: cache_account_def assign_pages_cache [OF run] cf)
  ultimately show "cache_inv st'" by (simp add: cache_inv_def)
qed

lemma load_cache_inv:
  assumes "conf_ok c" "cache_conf_ok c" "load M junk c = Some st"
  shows "cache_inv st"
proof -
  note L = load_inv [OF assms(1), of junk, unfolded assms(3)]
  have "entry_count p (cache_memory st) = 0" if "0 < sint p" for p
  proof -
    have "p \<noteq> - 1" using that by auto
    then show ?thesis using L by (auto simp: entry_count_0_iff)
  qed
  then show ?thesis
    using L assms(2)
    by (auto simp: cache_inv_def cache_shape_def cache_valid_def cache_account_def Let_def
        junk_bytes_def entries_of_def)
qed

end

section \<open>Properties of the release operations\<close>

text \<open>A memory of four 32-byte frames, the first two taken by the table, with one cache entry.\<close>

definition tiny_conf :: t_memory_conf where
  "tiny_conf = \<lparr>frames = 4, frame_size = 32, cache_entries = 1, cache_x_process = 1, memory_delay = 0\<rparr>"

definition tiny_state :: mem_state where
  "tiny_state = snd (the (assign_pages_to_process seq_mem_lib 2 1 True (the (load seq_mem_lib (\<lambda>_. 0) tiny_conf))))"

lemma tiny_conf_ok: "conf_ok tiny_conf" "first_free_frame tiny_conf = 2" "cache_conf_ok tiny_conf"
proof -
  show ok: "conf_ok tiny_conf" by (simp add: conf_ok_def tiny_conf_def)
  show "first_free_frame tiny_conf = 2"
    by (simp add: first_free_frame_nat [OF ok]) (simp add: tiny_conf_def)
  show "cache_conf_ok tiny_conf" by (simp add: cache_conf_ok_def tiny_conf_def)
qed

lemma tiny_lists: "[2..<unat (frames tiny_conf)] = [2, 3]" "replicate (unat (frames tiny_conf)) x = [x, x, x, x]"
proof -
  have four: "unat (frames tiny_conf) = Suc (Suc (Suc (Suc 0)))" by (simp add: tiny_conf_def)
  show "[2..<unat (frames tiny_conf)] = [2, 3]" unfolding four by (simp add: upt_rec numeral_eq_Suc)
  show "replicate (unat (frames tiny_conf)) x = [x, x, x, x]" unfolding four by simp
qed

lemma tiny_hash: "hash_frame tiny_conf 2 0 = 0" "hash_frame tiny_conf 4 0 = 0" "hash_ok 2 0" "hash_ok 4 0"
  by code_simp+

lemma tiny_state:
  "frame_inv tiny_state" "cache_inv tiny_state" "mapped tiny_state p q \<longleftrightarrow> p = 2 \<and> q = 0"
  "memory_conf tiny_state = tiny_conf" "overflow tiny_state = [[2], [], [], []]"
  "cache_memory tiny_state = [\<lparr>cm_pid = - 1, cm_page = - 1, cm_content = junk_bytes (\<lambda>_. 0) 32\<rparr>]"
  "kernel_client tiny_state = 0" "last_used_time tiny_state = [None]" "stack_size tiny_state = 0"
proof -
  obtain st where st: "load seq_mem_lib (\<lambda>_. 0) tiny_conf = Some st" "frame_inv st" "memory_conf st = tiny_conf"
      "available_frame_list st = [2, 3]" "pages_per_process_list st = []" "overflow st = [[], [], [], []]"
      "kernel_client st = 0" "stack_size st = 0" "last_used_time st = replicate (unat (cache_entries tiny_conf)) None"
      "cache_memory st = replicate (unat (cache_entries tiny_conf))
         \<lparr>cm_pid = - 1, cm_page = - 1, cm_content = junk_bytes (\<lambda>_. 0) (unat (frame_size tiny_conf))\<rparr>"
    using seq_mem.load_inv [OF tiny_conf_ok(1), of "\<lambda>_. 0"] unfolding tiny_conf_ok(2) tiny_lists by blast
  have ci: "cache_inv st" by (rule seq_mem.load_cache_inv [OF tiny_conf_ok(1,3) st(1)])
  have pc: "page_count 2 st = 0" by (simp add: page_count_def st)
  have "hash_ok 2 (page_count 2 st + word_of_nat k)" if "int k < sint (1 :: u32)" for k
    using that tiny_hash(3) by (simp add: pc)
  from seq_mem.assign_pages_some [OF st(2) this, where init = True] obtain rc st' where
    "assign_pages_to_process seq_mem_lib 2 1 True st = Some (rc, st')" by blast
  moreover from this have "tiny_state = st'" by (simp add: tiny_state_def st(1))
  ultimately have ts: "assign_pages_to_process seq_mem_lib 2 1 True st = Some (rc, tiny_state)" by simp
  note I = seq_mem.assign_pages_inv [OF st(2) ci _ _ _ ts]
  show "frame_inv tiny_state" "cache_inv tiny_state" "memory_conf tiny_state = tiny_conf"
    using I by (simp_all add: st pc)
  show "cache_memory tiny_state = [\<lparr>cm_pid = - 1, cm_page = - 1, cm_content = junk_bytes (\<lambda>_. 0) 32\<rparr>]"
      "kernel_client tiny_state = 0" "last_used_time tiny_state = [None]" "stack_size tiny_state = 0"
    using st(7-10) by (simp_all add: assign_pages_cache [OF ts]) (simp_all add: tiny_conf_def)
  from seq_mem.assign_pages_mapped [OF st(2) _ _ _ ts] obtain i where
    a: "assigned 2 i 0 1 (page_segment True (1 - sint (stack_size st))) (with_entry 2 st) tiny_state"
    by (auto simp: st pc)
  have none: "\<not> maps st p q f" for p q f
  proof -
    have "unat (frames tiny_conf) = 4" by (simp add: tiny_conf_def)
    then show ?thesis using st tiny_conf_ok(2) by (auto simp: maps_def used_def user_frame_def)
  qed
  have "mapped tiny_state 2 0" using a by (simp add: assigned_def)
  moreover have "p = 2 \<and> q = 0" if "maps tiny_state p q g" for g
    using a none that by (fastforce simp: assigned_def)
  ultimately show "mapped tiny_state p q \<longleftrightarrow> p = 2 \<and> q = 0"
    by (auto simp: mapped_def)
  have "map_option (\<lambda>r. overflow (snd r)) (assign_pages_to_process seq_mem_lib 2 1 True st) = Some [[2], [], [], []]"
    by (simp add: assign_pages_to_process_def st Let_def inicialize_page_def tiny_hash hashing_eq frame_is_available_def
        get_available_frame_def add_to_overflow_def seq_mem.fr.list_add seq_mem.pg.list_add
        seq_mem.fr.list_remove)
  then show "overflow tiny_state = [[2], [], [], []]" by (simp add: ts)
qed


text \<open>
  C29: Deleting a mapped page removes exactly that page: \<open>delete_page_process\<close> is defined, keeps the
  invariants of frames and cache, gives the page's frame back at the end of the available list, and
  leaves the mapping of every other page as it was.  In particular no other entry of the overflow
  list is lost and no stale cache entry of the page remains.
\<close>

theorem delete_page_exact:
  assumes "mem_commons M" "frame_inv st" "cache_inv st" "maps st pid page f"
  shows "\<exists>st'. delete_page_process M pid page st = Some st' \<and> frame_inv st' \<and> cache_inv st' \<and>
     (\<forall>p q g. maps st' p q g \<longleftrightarrow> maps st p q g \<and> g \<noteq> f) \<and>
     available_frame_list st' = available_frame_list st @ [f]"
  using mem_commons.delete_page_process_ok [OF assms] by blast

theorem delete_page_exact_witness:
  "\<exists>st'. delete_page_process seq_mem_lib 2 0 tiny_state = Some st' \<and> frame_inv st' \<and> cache_inv st' \<and>
     (\<forall>p q. \<not> mapped st' p q)"
proof -
  obtain f where f: "maps tiny_state 2 0 f" using tiny_state(3) by (auto simp: mapped_def)
  have "g = f" if "maps tiny_state p q g" for p q g
    using that f tiny_state(3) [of p q] maps_unique [OF tiny_state(1)] by (auto simp: mapped_def)
  with delete_page_exact [OF seq_mem.mem_commons_axioms tiny_state(1,2) f]
  show ?thesis by (auto simp: mapped_def)
qed

text \<open>
  Deleting a page that is not mapped is not refused.  When the bucket of the page has overflow
  frames, \<open>delete_page_process\<close> clears the table entry of the last of them, which holds a page of
  its own (possibly of another process), and puts that frame on the available list; the victim page
  is no longer found afterwards.
\<close>

theorem delete_unmapped_page_frees_other:
  assumes "mem_commons M" "frame_inv st" "0 < sint pid" "\<not> mapped st pid page"
    and "hash_ok pid page" and "overflow st ! hash_frame (memory_conf st) pid page \<noteq> []"
  shows "\<exists>p q f st'. maps st p q f \<and> (p, q) \<noteq> (pid, page) \<and> delete_page_process M pid page st = Some st' \<and>
     f \<in> set (available_frame_list st') \<and> \<not> mapped st' p q"
proof -
  from mem_commons.delete_unmapped_frame [OF assms] obtain p q f where m: "maps st p q f"
    and del: "delete_page_frame M pid page st =
       Some (st\<lparr>memory := set_reg f 0 0 NO_SEGMENT (memory st),
                available_frame_list := available_frame_list st @ [f]\<rparr>)" by blast
  let ?st = "st\<lparr>memory := set_reg f 0 0 NO_SEGMENT (memory st), available_frame_list := available_frame_list st @ [f]\<rparr>"
  have ne: "(p, q) \<noteq> (pid, page)" using m assms(4) by (auto simp: mapped_def)
  have len: "16 * f + 16 \<le> length (memory st)"
    using reg_in_memory [OF frame_invD(1) [OF assms(2)]] maps_frame [OF m] by simp
  have nm: "\<not> mapped ?st p q"
  proof
    assume "mapped ?st p q"
    then obtain g where g: "maps ?st p q g" by (auto simp: mapped_def)
    then have "g \<noteq> f" by (auto simp: maps_def used_def)
    moreover from this g have "maps st p q g"
      using len by (simp add: maps_def used_def user_frame_def get_reg_set_reg)
    ultimately show False using maps_unique [OF assms(2) m] by blast
  qed
  obtain st' where st': "delete_page_process M pid page st = Some st'"
    "mapped st' = mapped ?st" "available_frame_list st' = available_frame_list ?st"
    using del by (cases "get_cache_entry pid page ?st") (auto simp: delete_page_process_def clear_entry_def)
  with m ne nm show ?thesis by auto
qed

theorem delete_unmapped_page_frees_other_witness:
  "\<exists>f st'. maps tiny_state 2 0 f \<and> delete_page_process seq_mem_lib 4 0 tiny_state = Some st' \<and>
     f \<in> set (available_frame_list st') \<and> \<not> mapped st' 2 0"
proof -
  have "\<not> mapped tiny_state 4 0" "overflow tiny_state ! hash_frame (memory_conf tiny_state) 4 0 \<noteq> []"
    using tiny_state(3) [of 4 0] by (simp_all add: tiny_state(4,5) tiny_hash)
  from delete_unmapped_page_frees_other [OF seq_mem.mem_commons_axioms tiny_state(1) _ this(1) tiny_hash(4) this(2)]
  obtain p q f st' where "maps tiny_state p q f" "delete_page_process seq_mem_lib 4 0 tiny_state = Some st'"
    "f \<in> set (available_frame_list st')" "\<not> mapped st' p q" by auto
  moreover from this(1) have "p = 2 \<and> q = 0" using tiny_state(3) [of p q] by (auto simp: mapped_def)
  ultimately show ?thesis by blast
qed

text \<open>
  C30: Finalising a process removes exactly its pages: \<open>cleaning_process_entries\<close> is defined, keeps the invariants,
  unmaps every page of the process and no other page, makes all its frames available, leaves the
  table entries of the other pages alone, and leaves no cache entry of the process.
\<close>

theorem finalize_process_exact:
  assumes "mem_commons M" "frame_inv st" "cache_inv st" "0 < sint pid"
  shows "\<exists>st'. cleaning_process_entries M pid st = Some st' \<and> frame_inv st' \<and> cache_inv st' \<and>
     (\<forall>p q g. maps st' p q g \<longleftrightarrow> maps st p q g \<and> p \<noteq> pid) \<and>
     (\<forall>p q g. maps st' p q g \<longrightarrow> get_reg (memory st') g = get_reg (memory st) g) \<and>
     (\<forall>q f. maps st pid q f \<longrightarrow> f \<in> set (available_frame_list st')) \<and>
     (\<forall>c \<in> set (cache_memory st'). cm_pid c \<noteq> pid)"
  by (rule mem_commons.cleaning_process_entries_ok [OF assms])

theorem finalize_process_exact_witness:
  "\<exists>st'. cleaning_process_entries seq_mem_lib 2 tiny_state = Some st' \<and> frame_inv st' \<and> (\<forall>p q. \<not> mapped st' p q)"
proof -
  have only: "\<not> (maps tiny_state p q g \<and> p \<noteq> 2)" for p q g
    using tiny_state(3) [of p q] by (auto simp: mapped_def)
  have pos: "0 < sint (2 :: u32)" by simp
  obtain st' where "cleaning_process_entries seq_mem_lib 2 tiny_state = Some st'" "frame_inv st'"
      "\<forall>p q g. maps st' p q g \<longleftrightarrow> maps tiny_state p q g \<and> p \<noteq> 2"
    using finalize_process_exact [OF seq_mem.mem_commons_axioms tiny_state(1,2) pos] by blast
  then show ?thesis using only by (auto simp: mapped_def)
qed

section \<open>Properties of the cache\<close>

text \<open>
  C31: \<open>assign_cache_entry\<close> follows the replacement policy and reads only live time stamps.  A process
  that has used up its share (\<open>cache_x_process\<close>) gets the least recently used of its own entries;
  any other process gets the first free entry or, when no entry is free, the least recently used
  of all entries (no candidate has a time that is smaller in the \<open>strcmp\<close> order).
\<close>

theorem cache_replacement_policy:
  assumes "mem_commons M" "cache_inv st" "0 < sint pid"
  shows "\<exists>e. assign_cache_entry M pid st = Some (Some e) \<and> e < length (cache_memory st) \<and>
    (if entry_count pid (cache_memory st) = uint (cache_x_process (memory_conf st))
     then is_lru st (\<lambda>f. cm_pid (cache_memory st ! f) = pid) (length (cache_memory st)) (Some e)
     else (sint (cm_pid (cache_memory st ! e)) < 0 \<and> (\<forall>g < e. 0 \<le> sint (cm_pid (cache_memory st ! g)))) \<or>
          ((\<forall>g < length (cache_memory st). 0 \<le> sint (cm_pid (cache_memory st ! g))) \<and>
           is_lru st (\<lambda>f. True) (length (cache_memory st)) (Some e)))"
  by (rule mem_commons.assign_cache_entry_choice [OF assms])

theorem cache_replacement_policy_witness:
  "\<exists>e. assign_cache_entry seq_mem_lib 2 tiny_state = Some (Some e) \<and> e < length (cache_memory tiny_state)"
  using cache_replacement_policy [OF seq_mem.mem_commons_axioms tiny_state(2), of 2] by auto

text \<open>
  Filling a cache entry keeps the accounting exact: after \<open>update_cache\<close> every page is in at most
  one entry, the list of entries per process counts the entries of each process, and no process has
  more entries than \<open>cache_x_process\<close>.  The one exception is an entry that is the last one of another
  process: there \<open>update_cache\<close> calls \<open>list_remove\<close> with \<open>index\<close>, which is not a position but the
  C library function \<open>index\<close>, and has no defined result.
\<close>

theorem update_cache_invariant:
  assumes "mem_commons M" "cache_inv st" "0 < sint pid" "mapped st pid page" "fillable pid page e st"
    and "cm_pid (cache_memory st ! e) = pid \<or>
         entry_count pid (cache_memory st) < uint (cache_x_process (memory_conf st))"
    and "0 \<le> sint off" "0 \<le> sint sz" "unat off + unat sz \<le> page_bytes st" "unat sz \<le> length buffer"
  shows "(update_cache M (Some e) pid page off sz buffer st = None \<longleftrightarrow> last_entry_of_other pid e st) \<and>
    (\<forall>st'. update_cache M (Some e) pid page off sz buffer st = Some st' \<longrightarrow> cache_inv st' \<and>
       cache_memory st' = (cache_memory st)[e := \<lparr>cm_pid = pid, cm_page = page,
         cm_content = mem_write (unat off) (take (unat sz) buffer) (cm_content (cache_memory st ! e))\<rparr>] \<and>
       memory st' = memory st)"
  using mem_commons.update_cache_inv [OF assms refl]
  by (auto simp: fill_entry_def split: if_splits)

theorem update_cache_invariant_witness:
  "\<exists>st'. update_cache seq_mem_lib (Some 0) 2 0 4 2 [7, 9] tiny_state = Some st' \<and> cache_inv st'"
proof -
  note c = tiny_state(6)
  have "page_bytes tiny_state = 32" "cache_x_process (memory_conf tiny_state) = 1"
    by (simp_all add: tiny_state(4)) (simp_all add: tiny_conf_def)
  with update_cache_invariant [OF seq_mem.mem_commons_axioms tiny_state(2), of 2 0 0 4 2 "[7, 9]"] tiny_state(3) [of 2 0]
  show ?thesis
    by (auto simp: c fillable_def entry_count_def last_entry_of_other_def)
qed

end
