(* ===== verification/Memoria_Server.thy ===== *)
theory Memoria_Server
  imports Memoria_Release
begin

text \<open>
  The request handlers of the memory process and its dispatch loop \<open>process_request\<close>
  (\<open>memoria/src/memoria.c\<close>).  A handler takes the connection and the state and returns both; \<open>client\<close>
  is the descriptor of the connection, which the code compares with \<open>kernel_client\<close>.  \<open>None\<close> means that
  the C code has no defined behaviour (see the theory of the cache), including every \<open>memcpy\<close> that
  would leave the memory block, a cache entry or the buffer of the request.  The configured delay is
  left out.
\<close>

section \<open>Handlers\<close>

definition mem_handshake :: "storage \<Rightarrow> int \<Rightarrow> sock \<Rightarrow> mem_state \<Rightarrow> sock \<times> mem_state" where
  "mem_handshake junk client s st =
     (case handshake_recv_req junk s of
        (hs_req, s1) \<Rightarrow>
          (let st1 = (if hs_type hs_req = of_char CHR ''k''
                      then st\<lparr>kernel_client := client, stack_size := ucast (hs_stack_size hs_req)\<rparr>
                      else st)
           in (handshake_resp (frame_size (memory_conf st1)) s1, st1)))"

definition inicialize_process :: "mem_lib \<Rightarrow> storage \<Rightarrow> sock \<Rightarrow> mem_state \<Rightarrow> (sock \<times> mem_state) option" where
  "inicialize_process M junk s st =
     (case init_process_recv_req junk s of
        (init_req, s1) \<Rightarrow>
          if ip_exec_code init_req = DISCONNECTED_CLIENT then Some (s1, st)
          else do {
            (resp_code, st1) \<leftarrow> assign_pages_to_process M (ip_pid init_req) (ip_pages init_req) True st;
            Some (init_process_send_resp resp_code s1, st1)
          })"

text \<open>The address of a position of a frame; the product is computed on 32 bits.\<close>

definition frame_pos :: "t_memory_conf \<Rightarrow> nat \<Rightarrow> nat" where
  "frame_pos c frame = unat (word_of_nat frame * frame_size c)"

definition writing_memory :: "mem_lib \<Rightarrow> t_write_request \<Rightarrow> int \<Rightarrow> mem_state \<Rightarrow> (int \<times> mem_state) option" where
  "writing_memory M w_req client st =
     (case get_frame M (wr_pid w_req) (wr_page w_req) st of
        None \<Rightarrow> None
      | Some None \<Rightarrow> Some (PAGE_FAULT, st)
      | Some (Some frame) \<Rightarrow>
          if kernel_client st \<noteq> client \<and> it_segment (get_reg (memory st) frame) = CODE_SEGMENT
          then Some (SEGMENTATION_FAULT, st)
          else
            (let write_pos = frame_pos (memory_conf st) frame + unat (wr_offset w_req)
             in if length (memory st) < write_pos + unat (wr_size w_req)
                   \<or> length (wr_buffer w_req) < unat (wr_size w_req) then None
                else Some (SUCCESS, st\<lparr>memory := mem_write write_pos
                             (take (unat (wr_size w_req)) (wr_buffer w_req)) (memory st)\<rparr>)))"

definition write_page :: "mem_lib \<Rightarrow> storage \<Rightarrow> int \<Rightarrow> sock \<Rightarrow> mem_state \<Rightarrow> (sock \<times> mem_state) option" where
  "write_page M junk client s st =
     (case write_recv_req junk s of
        (w_req, s1) \<Rightarrow>
          if wr_exec_code w_req = DISCONNECTED_CLIENT then Some (s1, st)
          else if frame_size (memory_conf st) \<le> wr_offset w_req
                  \<or> frame_size (memory_conf st) < wr_offset w_req + wr_size w_req
          then Some (write_send_resp OUT_OF_FRAME s1, st)
          else do {
            (res, st1) \<leftarrow> writing_memory M w_req client st;
            st2 \<leftarrow> (if res = SUCCESS then writing_cache M w_req st1 else Some st1);
            Some (write_send_resp res s1, st2)
          })"

definition readind_memory :: "mem_lib \<Rightarrow> t_read_request \<Rightarrow> sock \<Rightarrow> mem_state \<Rightarrow> (sock \<times> mem_state) option" where
  "readind_memory M r_req s st =
     (case get_frame M (rd_pid r_req) (rd_page r_req) st of
        None \<Rightarrow> None
      | Some None \<Rightarrow> map_option (\<lambda>s1. (s1, st)) (read_send_resp PAGE_FAULT 0 [] s)
      | Some (Some frame) \<Rightarrow>
          (let memory_read_pos = frame_pos (memory_conf st) frame in do {
             lru_cache_entry \<leftarrow> assign_cache_entry M (rd_pid r_req) st;
             st1 \<leftarrow> update_cache M lru_cache_entry (rd_pid r_req) (rd_page r_req) 0
                      (frame_size (memory_conf st)) (drop memory_read_pos (memory st)) st;
             s1 \<leftarrow> (if length (memory st1) < memory_read_pos + unat (rd_offset r_req) + unat (rd_size r_req)
                    then None
                    else read_send_resp SUCCESS (rd_size r_req)
                           (mem_read (memory_read_pos + unat (rd_offset r_req)) (unat (rd_size r_req)) (memory st1)) s);
             Some (s1, st1)
           }))"

definition read_page :: "mem_lib \<Rightarrow> storage \<Rightarrow> sock \<Rightarrow> mem_state \<Rightarrow> (sock \<times> mem_state) option" where
  "read_page M junk s st =
     (case read_recv_req junk s of
        (r_req, s1) \<Rightarrow>
          if rd_exec_code r_req = DISCONNECTED_CLIENT then Some (s1, st)
          else if frame_size (memory_conf st) \<le> rd_offset r_req
                  \<or> frame_size (memory_conf st) < rd_offset r_req + rd_size r_req
          then map_option (\<lambda>s2. (s2, st)) (read_send_resp OUT_OF_FRAME 0 [] s1)
          else do {
            (hit, s2, st1) \<leftarrow> reading_cache M r_req s1 st;
            (if hit then Some (s2, st1) else readind_memory M r_req s2 st1)
          })"

definition assign_page :: "mem_lib \<Rightarrow> storage \<Rightarrow> sock \<Rightarrow> mem_state \<Rightarrow> (sock \<times> mem_state) option" where
  "assign_page M junk s st =
     (case init_process_recv_req junk s of
        (assign_req, s1) \<Rightarrow>
          if ip_exec_code assign_req = DISCONNECTED_CLIENT then Some (s1, st)
          else do {
            (resp_code, st1) \<leftarrow> assign_pages_to_process M (ip_pid assign_req) (ip_pages assign_req) False st;
            Some (init_process_send_resp resp_code s1, st1)
          })"

text \<open>\<open>delete_page_process\<close> returns \<open>EXIT_SUCCESS\<close>, which is \<open>0\<close>.\<close>

definition delete_page :: "mem_lib \<Rightarrow> storage \<Rightarrow> sock \<Rightarrow> mem_state \<Rightarrow> (sock \<times> mem_state) option" where
  "delete_page M junk s st =
     (case delete_page_recv_req junk s of
        (delete_req, s1) \<Rightarrow>
          if dp_exec_code delete_req = DISCONNECTED_CLIENT then Some (s1, st)
          else do {
            st1 \<leftarrow> delete_page_process M (dp_pid delete_req) (dp_page delete_req) st;
            Some (delete_page_send_resp 0 s1, st1)
          })"

definition finalize_process :: "mem_lib \<Rightarrow> storage \<Rightarrow> sock \<Rightarrow> mem_state \<Rightarrow> (sock \<times> mem_state) option" where
  "finalize_process M junk s st =
     (case finalize_process_recv_req junk s of
        (finalize_req, s1) \<Rightarrow>
          if fp_exec_code finalize_req = DISCONNECTED_CLIENT then Some (s1, st)
          else do {
            st1 \<leftarrow> cleaning_process_entries M (fp_pid finalize_req) st;
            Some (finalize_process_send_resp SUCCESS s1, st1)
          })"

section \<open>The dispatch loop\<close>

definition serve_operation ::
    "mem_lib \<Rightarrow> storage \<Rightarrow> int \<Rightarrow> int \<Rightarrow> sock \<Rightarrow> mem_state \<Rightarrow> (sock \<times> mem_state) option" where
  "serve_operation M junk client ope_code s st =
     (if ope_code = HANDSHAKE_OC then Some (mem_handshake junk client s st)
      else if ope_code = INIT_PROCESS_OC then inicialize_process M junk s st
      else if ope_code = READ_OC then read_page M junk s st
      else if ope_code = WRITE_OC then write_page M junk client s st
      else if ope_code = ASSIGN_PAGE_OC then assign_page M junk s st
      else if ope_code = DELETE_PAGE_OC then delete_page M junk s st
      else if ope_code = END_PROCESS_OC then finalize_process M junk s st
      else Some (s, st))"

lemma read_send_resp_advances: "read_send_resp c n bs s' = Some s'' \<Longrightarrow> consumes s s' \<Longrightarrow> advances s s''"
  by (auto simp: read_send_resp_def Let_def split: if_splits)

lemma handshake_consumes: "handshake_recv_req junk s = (q, s') \<Longrightarrow> consumes s s'"
  by (auto simp: handshake_recv_req_def Let_def split: prod.splits option.splits if_splits
           dest!: consumes_recv intro: consumes_trans)

lemma serve_operation_advances:
  assumes "serve_operation M junk client oc s st = Some (s', st')"
  shows "advances s s'"
proof -
  have "advances s (fst (mem_handshake junk client s st))"
    by (auto simp: mem_handshake_def handshake_resp_def Let_def split: prod.splits dest: handshake_consumes)
  moreover have "advances s s'" if "inicialize_process M junk s st = Some (s', st')"
    using that by (auto simp: inicialize_process_def init_process_send_resp_def split: prod.splits bind_splits if_splits dest: init_wire.parse_consumes)
  moreover have "advances s s'" if "assign_page M junk s st = Some (s', st')"
    using that by (auto simp: assign_page_def init_process_send_resp_def split: prod.splits bind_splits if_splits dest: init_wire.parse_consumes)
  moreover have "advances s s'" if "finalize_process M junk s st = Some (s', st')"
    using that by (auto simp: finalize_process_def finalize_process_send_resp_def split: prod.splits bind_splits if_splits dest: finalize_wire.parse_consumes)
  moreover have "advances s s'" if "delete_page M junk s st = Some (s', st')"
    using that by (auto simp: delete_page_def delete_page_send_resp_def split: prod.splits bind_splits if_splits
        dest: delete_wire.parse_consumes)
  moreover have "advances s s'" if "write_page M junk client s st = Some (s', st')"
    using that by (auto simp: write_page_def write_send_resp_def split: prod.splits bind_splits if_splits
        dest: write_wire.parse_consumes)
  moreover have "advances s s'" if "read_page M junk s st = Some (s', st')"
    using that by (auto simp: read_page_def reading_cache_def read_cache_entry_and_send_def readind_memory_def Let_def
        split: prod.splits bind_splits if_splits option.splits
        dest!: read_wire.parse_consumes intro: read_send_resp_advances)
  ultimately show ?thesis
    using assms by (auto simp: serve_operation_def split: if_splits)
qed

text \<open>
  One thread of the process: requests are served until the peer closes.  The loop ends for every
  input, because each round reads at least the operation code.
\<close>

function process_request :: "mem_lib \<Rightarrow> storage \<Rightarrow> int \<Rightarrow> sock \<Rightarrow> mem_state \<Rightarrow> (sock \<times> mem_state) option" where
  "process_request M junk client s st =
     (case recv_operation_code junk s of
        (ope_code, s1) \<Rightarrow>
          if ope_code = DISCONNECTED_CLIENT then Some (s1, st)
          else (case serve_operation M junk client ope_code s1 st of
                  None \<Rightarrow> None
                | Some (s2, st2) \<Rightarrow> process_request M junk client s2 st2))"
  by pat_completeness auto
termination
  by (relation "measure (\<lambda>(M, junk, client, s, st). length (sk_in s))")
    (auto dest!: recv_operation_code_progress [OF sym] serve_operation_advances advances_length)

declare process_request.simps [simp del]

end
