(* ===== verification/Memoria_Access.thy ===== *)
theory Memoria_Access
  imports Memoria_Server
begin

text \<open>
  What reading and writing pages through the memory process guarantees: answers and effects of
  \<open>write_page\<close> and \<open>read_page\<close> for every kind of request, protection of the inverted table and of the
  pages of other processes, and the agreement of the cache with the memory.
\<close>

section \<open>Writing into a frame\<close>

definition page_content :: "mem_state \<Rightarrow> nat \<Rightarrow> byte list" where
  "page_content st f = mem_read (f * page_bytes st) (page_bytes st) (memory st)"

definition poke :: "nat \<Rightarrow> nat \<Rightarrow> byte list \<Rightarrow> mem_state \<Rightarrow> mem_state" where
  "poke f off bs st = st\<lparr>memory := mem_write (f * page_bytes st + off) bs (memory st)\<rparr>"

lemma poke_fields [simp]:
  "memory_conf (poke f off bs st) = memory_conf st"
  "available_frame_list (poke f off bs st) = available_frame_list st"
  "overflow (poke f off bs st) = overflow st"
  "pages_per_process_list (poke f off bs st) = pages_per_process_list st"
  "cache_memory (poke f off bs st) = cache_memory st"
  "last_used_time (poke f off bs st) = last_used_time st"
  "cache_x_process_list (poke f off bs st) = cache_x_process_list st"
  "kernel_client (poke f off bs st) = kernel_client st"
  "stack_size (poke f off bs st) = stack_size st"
  "time_calls (poke f off bs st) = time_calls st"
  by (simp_all add: poke_def)

lemma frame_pos_eq:
  assumes "conf_ok c" "f < unat (frames c)"
  shows "frame_pos c f = f * unat (frame_size c)"
proof -
  have "f * unat (frame_size c) \<le> unat (frames c) * unat (frame_size c)"
    using assms(2) by (intro mult_le_mono1) simp
  moreover have "unat (frames c) * unat (frame_size c) < 2 ^ 31" using assms(1) by (simp add: conf_ok_def)
  ultimately have b: "f * unat (frame_size c) < 2 ^ 31" by (rule le_less_trans)
  have "unat (frames c) < 2 ^ 32" using unat_u32_less [of "frames c"] by simp
  then have "f < 2 ^ 32" using assms(2) by simp
  with b show ?thesis by (simp add: frame_pos_def unat_word_ariths unat_of_nat)
qed

lemma frame_in_memory:
  assumes "inv_shape st" "f < n_frames st"
  shows "f * page_bytes st + page_bytes st \<le> length (memory st)"
proof -
  have "(f + 1) * page_bytes st \<le> n_frames st * page_bytes st"
    using assms(2) by (intro mult_le_mono1) simp
  then show ?thesis using inv_shapeD(2) [OF assms(1)] by simp
qed

lemma poke_reg:
  assumes "inv_shape st" "user_frame st f" "off + length bs \<le> page_bytes st" "g < n_frames st"
  shows "get_reg (memory (poke f off bs st)) g = get_reg (memory st) g"
proof -
  have "16 * n_frames st \<le> first_free_frame (memory_conf st) * page_bytes st"
    by (rule first_free_frame_bounds(1)) (use assms(1) in \<open>simp add: inv_shape_def\<close>)
  also have "\<dots> \<le> f * page_bytes st"
    using assms(2) by (intro mult_le_mono1) (simp add: user_frame_def)
  finally have "16 * g + 16 \<le> f * page_bytes st" using assms(4) by linarith
  moreover have "f * page_bytes st + page_bytes st \<le> length (memory st)"
    by (rule frame_in_memory) (use assms in \<open>simp_all add: user_frame_def\<close>)
  ultimately show ?thesis
    using assms(3) by (simp add: poke_def get_reg_mem_write_above)
qed

text \<open>The invariant depends on the memory only through the table.\<close>

lemma frame_inv_same_table:
  assumes inv: "frame_inv st" and m: "length m = length (memory st)"
    and r: "\<And>g. g < n_frames st \<Longrightarrow> get_reg m g = get_reg (memory st) g"
  shows "frame_inv (st\<lparr>memory := m\<rparr>)" and "maps (st\<lparr>memory := m\<rparr>) = maps st"
proof -
  let ?st = "st\<lparr>memory := m\<rparr>"
  note I = frame_invD [OF inv]
  have u: "used ?st = used st" "user_frame ?st = user_frame st"
    by (simp_all add: fun_eq_iff used_def user_frame_def)
  have ru: "get_reg m g = get_reg (memory st) g" if "used st g" for g
    using r usedD(1) that by blast
  have rf: "get_reg m g = get_reg (memory st) g" if "user_frame st g" for g
    using r that by (simp add: user_frame_def)
  have rt: "get_reg m g = get_reg (memory st) g" if "g < first_free_frame (memory_conf st)" for g
    using r that first_free_frame_bounds(2) [OF inv_shapeD(1) [OF I(1)]] by simp
  show "maps ?st = maps st" using ru by (auto simp: fun_eq_iff maps_def u)
  have "inv_shape ?st" using I(1) m by (simp add: inv_shape_def)
  moreover have "inv_free ?st" using I(2) rf rt by (simp add: inv_free_def u)
  moreover have "inv_used ?st" using I(3) ru by (simp add: inv_used_def u)
  moreover have "inv_overflow ?st" using I(4) ru by (simp add: inv_overflow_def u)
  moreover have "inv_pages ?st" using I(5) ru by (simp add: inv_pages_def u)
  ultimately show "frame_inv ?st" by (simp add: frame_inv_def)
qed

lemma poke_inv:
  assumes inv: "frame_inv st" and f: "used st f" and b: "off + length bs \<le> page_bytes st"
  shows "frame_inv (poke f off bs st)" and "maps (poke f off bs st) = maps st"
    and "mapped (poke f off bs st) = mapped st"
proof -
  have uf: "user_frame st f" using f by (simp add: used_def)
  have len: "length (memory (poke f off bs st)) = length (memory st)"
    using frame_in_memory [OF frame_invD(1) [OF inv] usedD(1) [OF f]] b by (simp add: poke_def)
  have reg: "get_reg (memory (poke f off bs st)) g = get_reg (memory st) g" if "g < n_frames st" for g
    by (rule poke_reg [OF frame_invD(1) [OF inv] uf b that])
  have eq: "poke f off bs st = st\<lparr>memory := memory (poke f off bs st)\<rparr>" by (simp add: poke_def)
  show "frame_inv (poke f off bs st)" and m: "maps (poke f off bs st) = maps st"
    using frame_inv_same_table [OF inv len reg] eq by simp_all
  then show "mapped (poke f off bs st) = mapped st" by (simp add: fun_eq_iff mapped_def)
qed

lemma poke_content:
  assumes "inv_shape st" "f < n_frames st" "g < n_frames st" "off + length bs \<le> page_bytes st"
  shows "page_content (poke f off bs st) g =
    (if g = f then mem_write off bs (page_content st f) else page_content st g)"
proof -
  let ?s = "page_bytes st"
  note F = frame_in_memory [OF assms(1,2)] and G = frame_in_memory [OF assms(1,3)]
  consider "g = f" | "g < f" | "f < g" by linarith
  then show ?thesis
  proof cases
    case 1
    then show ?thesis using F assms(4) by (simp add: page_content_def poke_def mem_read_write_inside)
  next
    case 2
    then have "g * ?s + ?s \<le> f * ?s"
      by (metis add.commute mult_Suc mult_le_mono1 Suc_leI)
    then show ?thesis using 2 F assms(4) by (simp add: page_content_def poke_def mem_read_write_before)
  next
    case 3
    then have "f * ?s + ?s \<le> g * ?s"
      by (metis add.commute mult_Suc mult_le_mono1 Suc_leI)
    then show ?thesis using 3 F assms(4) by (simp add: page_content_def poke_def mem_read_write_after)
  qed
qed

lemma cache_inv_poke:
  assumes "frame_inv st" "used st f" "off + length bs \<le> page_bytes st" "cache_inv st"
  shows "cache_inv (poke f off bs st)"
proof -
  have "cache_shape (poke f off bs st) = cache_shape st" "cache_account (poke f off bs st) = cache_account st"
    by (simp_all add: cache_shape_def cache_account_def)
  moreover have "cache_valid (poke f off bs st) = cache_valid st"
    by (simp add: cache_valid_def poke_inv(3) [OF assms(1-3)])
  ultimately show ?thesis using assms(4) by (simp add: cache_inv_def)
qed

section \<open>The entry a request uses\<close>

definition victim :: "mem_lib \<Rightarrow> u32 \<Rightarrow> u32 \<Rightarrow> mem_state \<Rightarrow> nat" where
  "victim M pid page st =
     (case get_cache_entry pid page st of
        Some e \<Rightarrow> e | None \<Rightarrow> the (the (assign_cache_entry M pid st)))"

lemma sint_nonneg_u32: "unat (w :: u32) < 2 ^ 31 \<Longrightarrow> 0 \<le> sint w"
proof -
  assume "unat w < 2 ^ 31"
  then have "int (unat w) < int (2 ^ 31)" by (simp only: of_nat_less_iff)
  then have "uint w < 2 ^ 31" by simp
  moreover have "- (2 ^ 31) \<le> uint w" by (rule order_trans [of _ 0]) simp_all
  ultimately have "signed_take_bit 31 (uint w) = uint w" by (intro signed_take_bit_int_eq_self) simp_all
  then have "sint w = uint w" by (simp add: sint_uint)
  then show ?thesis by simp
qed

context mem_commons
begin

lemma victim_ok:
  assumes ci: "cache_inv st" and pid: "0 < sint pid"
  shows "fillable pid page (victim M pid page st) st"
    and "cm_pid (cache_memory st ! victim M pid page st) = pid \<or>
         entry_count pid (cache_memory st) < uint (cache_x_process (memory_conf st))"
    and "get_cache_entry pid page st = None \<Longrightarrow> assign_cache_entry M pid st = Some (Some (victim M pid page st))"
proof (atomize (full), cases "get_cache_entry pid page st")
  case None
  have lim: "entry_count pid (cache_memory st) \<le> uint (cache_x_process (memory_conf st))"
    using cache_invD(3) [OF ci] pid by (simp add: cache_account_def)
  obtain e where e: "assign_cache_entry M pid st = Some (Some e)" "e < length (cache_memory st)"
    "entry_count pid (cache_memory st) = uint (cache_x_process (memory_conf st)) \<Longrightarrow>
       cm_pid (cache_memory st ! e) = pid"
    using assign_cache_entry_choice [OF ci pid] by (auto simp: is_lru_def split: if_splits)
  have v: "victim M pid page st = e" using None e by (simp add: victim_def)
  have "fillable pid page e st"
    using None e(2) by (auto simp: fillable_def get_cache_entry_def find_index_None_iff)
  with e v lim None show "fillable pid page (victim M pid page st) st \<and>
      (cm_pid (cache_memory st ! victim M pid page st) = pid \<or>
       entry_count pid (cache_memory st) < uint (cache_x_process (memory_conf st))) \<and>
      (get_cache_entry pid page st = None \<longrightarrow> assign_cache_entry M pid st = Some (Some (victim M pid page st)))"
    by auto
next
  case (Some e)
  have e: "e < length (cache_memory st)" "cm_pid (cache_memory st ! e) = pid" "cm_page (cache_memory st ! e) = page"
    using find_index_SomeD [OF Some [unfolded get_cache_entry_def]] by auto
  moreover have "fillable pid page e st"
    using cache_invD(2) [OF ci] e pid by (auto simp: fillable_def cache_valid_def Let_def)
  ultimately show "fillable pid page (victim M pid page st) st \<and>
      (cm_pid (cache_memory st ! victim M pid page st) = pid \<or>
       entry_count pid (cache_memory st) < uint (cache_x_process (memory_conf st))) \<and>
      (get_cache_entry pid page st = None \<longrightarrow> assign_cache_entry M pid st = Some (Some (victim M pid page st)))"
    using Some by (simp add: victim_def)
qed

lemma writing_cache_victim:
  assumes "cache_inv st" "0 < sint (wr_pid w)"
  shows "writing_cache M w st =
     update_cache M (Some (victim M (wr_pid w) (wr_page w) st)) (wr_pid w) (wr_page w) (wr_offset w)
       (wr_size w) (wr_buffer w) st"
proof (cases "get_cache_entry (wr_pid w) (wr_page w) st")
  case None
  with victim_ok(3) [OF assms None] show ?thesis by (simp add: writing_cache_def)
next
  case (Some e)
  then show ?thesis by (simp add: writing_cache_def victim_def)
qed

lemma get_frame_cases:
  assumes "frame_inv st" "0 < sint pid"
  shows "maps st pid page f \<Longrightarrow> get_frame M pid page st = Some (Some f)"
    and "\<not> mapped st pid page \<Longrightarrow> hash_ok pid page \<Longrightarrow> get_frame M pid page st = Some None"
proof -
  show "get_frame M pid page st = Some (Some f)" if "maps st pid page f"
    using get_frame_iff [OF assms] that by simp
  assume nm: "\<not> mapped st pid page" and "hash_ok pid page"
  then obtain r where "get_frame M pid page st = Some r" using get_frame_defined [of pid page st] by auto
  moreover from this nm have "r = None"
    using get_frame_iff [OF assms, of page] by (cases r) (auto simp: mapped_def)
  ultimately show "get_frame M pid page st = Some None" by simp
qed

lemma writing_memory_poke:
  assumes inv: "frame_inv st" and m: "maps st (wr_pid w) (wr_page w) f"
    and ok: "kernel_client st = client \<or> it_segment (get_reg (memory st) f) \<noteq> CODE_SEGMENT"
    and b: "unat (wr_offset w) + unat (wr_size w) \<le> page_bytes st" "unat (wr_size w) \<le> length (wr_buffer w)"
  shows "writing_memory M w client st =
     Some (SUCCESS, poke f (unat (wr_offset w)) (take (unat (wr_size w)) (wr_buffer w)) st)"
proof -
  have g: "get_frame M (wr_pid w) (wr_page w) st = Some (Some f)"
    by (rule get_frame_cases(1) [OF inv maps_pid [OF inv m] m])
  have f: "f < n_frames st" using maps_frame [OF m] by simp
  have p: "frame_pos (memory_conf st) f = f * page_bytes st"
    by (rule frame_pos_eq [OF inv_shapeD(1) [OF frame_invD(1) [OF inv]] f])
  have "f * page_bytes st + unat (wr_offset w) + unat (wr_size w) \<le> length (memory st)"
    using frame_in_memory [OF frame_invD(1) [OF inv] f] b(1) by simp
  with g ok b(2) p show ?thesis by (auto simp: writing_memory_def poke_def Let_def)
qed

text \<open>The request passes the bound check of the two page handlers.\<close>

lemma bound_check:
  assumes "frame_inv st" "unat off + unat sz \<le> page_bytes st" "unat off < page_bytes st"
  shows "\<not> (frame_size (memory_conf st) \<le> off \<or> frame_size (memory_conf st) < off + sz)"
proof -
  have "page_bytes st < 2 ^ 32" using unat_u32_less [of "frame_size (memory_conf st)"] by simp
  with assms(2) have "unat (off + sz) = unat off + unat sz"
    by (simp add: unat_word_ariths)
  with assms show ?thesis by (simp add: word_le_nat_alt word_less_nat_alt)
qed

lemma page_bytes_small:
  assumes "frame_inv st"
  shows "page_bytes st < 2 ^ 31"
proof -
  have c: "conf_ok (memory_conf st)" by (rule inv_shapeD(1) [OF frame_invD(1) [OF assms]])
  then have "page_bytes st \<le> n_frames st * page_bytes st" by (simp add: conf_ok_def)
  with c show ?thesis unfolding conf_ok_def by linarith
qed

lemma write_page_parsed:
  assumes "write_valid (pid, page, off, sz, buf)" "sk_in s = write_body (pid, page, off, sz, buf) @ rest"
    and "frame_inv st" "unat off + unat sz \<le> page_bytes st" "unat off < page_bytes st"
  shows "write_page M junk client s st =
     (let w = \<lparr>wr_exec_code = SUCCESS, wr_pid = pid, wr_page = page, wr_offset = off, wr_size = sz, wr_buffer = buf\<rparr>
      in do { (res, st1) \<leftarrow> writing_memory M w client st;
              st2 \<leftarrow> (if res = SUCCESS then writing_cache M w st1 else Some st1);
              Some (s\<lparr>sk_in := rest, sk_out := sk_out s @ code_bytes res\<rparr>, st2) })"
  using write_wire.parse_body [OF assms(1,2)] bound_check [OF assms(3-5)]
  by (simp add: write_page_def write_send_resp_def socket_write_def Let_def source_consts)

end

section \<open>Agreement of cache and memory\<close>

definition coherent :: "mem_state \<Rightarrow> u32 \<Rightarrow> u32 \<Rightarrow> bool" where
  "coherent st pid page \<longleftrightarrow>
     (\<forall>e < length (cache_memory st). \<forall>f. cm_pid (cache_memory st ! e) = pid \<longrightarrow>
        cm_page (cache_memory st ! e) = page \<longrightarrow> maps st pid page f \<longrightarrow>
        cm_content (cache_memory st ! e) = page_content st f)"

lemma least_recently_used_poke: "least_recently_used (poke f off bs st) = least_recently_used st"
  by (intro ext) (simp add: least_recently_used_def split: option.splits)

lemma cache_scan_poke: "cache_scan (poke f off bs st) b pid e n = cache_scan st b pid e n"
proof (induction n arbitrary: b e)
  case (Suc n)
  show ?case by (rule ext) (simp add: Suc.IH least_recently_used_poke)
qed (rule ext, simp)

lemma assign_cache_entry_poke: "assign_cache_entry M pid (poke f off bs st) = assign_cache_entry M pid st"
  unfolding assign_cache_entry_def max_entries_exceeded_def cache_scan_poke poke_fields ..

lemma victim_poke [simp]: "victim M pid page (poke f off bs st) = victim M pid page st"
  unfolding victim_def get_cache_entry_def assign_cache_entry_poke by simp

lemma last_entry_poke [simp]: "last_entry_of_other pid e (poke f off bs st) = last_entry_of_other pid e st"
  by (simp add: last_entry_of_other_def)

lemma fill_entry_frame [simp]:
  "memory (fill_entry e pid page x t l st) = memory st"
  "memory_conf (fill_entry e pid page x t l st) = memory_conf st"
  "maps (fill_entry e pid page x t l st) = maps st"
  "frame_inv (fill_entry e pid page x t l st) = frame_inv st"
  "page_content (fill_entry e pid page x t l st) = page_content st"
  "cache_memory (fill_entry e pid page x t l st) =
     (cache_memory st)[e := \<lparr>cm_pid = pid, cm_page = page, cm_content = x\<rparr>]"
  by (simp_all add: fill_entry_def page_content_def fun_eq_iff)

text \<open>
  Filling an entry with the content of the page keeps the agreement of every page; what the entry
  held before does not matter, because it is replaced as a whole.
\<close>

lemma coherent_fill:
  assumes "coherent st p q" "e < length (cache_memory st)"
    and "\<And>f. p = pid \<Longrightarrow> q = page \<Longrightarrow> maps st pid page f \<Longrightarrow> x = page_content st f"
  shows "coherent (fill_entry e pid page x t l st) p q"
  using assms by (auto simp: coherent_def nth_list_update)

context mem_commons
begin

lemma write_page_effect:
  assumes inv: "frame_inv st" and ci: "cache_inv st" and m: "maps st pid page f"
    and ok: "kernel_client st = client \<or> it_segment (get_reg (memory st) f) \<noteq> CODE_SEGMENT"
    and v: "write_valid (pid, page, off, sz, buf)" "sk_in s = write_body (pid, page, off, sz, buf) @ rest"
    and b: "unat off + unat sz \<le> page_bytes st" "unat off < page_bytes st" "unat sz \<le> length buf"
    and safe: "\<not> last_entry_of_other pid (victim M pid page st) st"
    and st1: "st1 = poke f (unat off) (take (unat sz) buf) st"
    and x: "x = mem_write (unat off) (take (unat sz) buf) (cm_content (cache_memory st ! victim M pid page st))"
  shows "\<exists>l. write_page M junk client s st =
     Some (s\<lparr>sk_in := rest, sk_out := sk_out s @ code_bytes SUCCESS\<rparr>,
           fill_entry (victim M pid page st) pid page x (string_time M (time_calls st)) l st1) \<and>
     cache_inv (fill_entry (victim M pid page st) pid page x (string_time M (time_calls st)) l st1) \<and>
     frame_inv st1 \<and> maps st1 = maps st"
proof -
  let ?w = "\<lparr>wr_exec_code = SUCCESS, wr_pid = pid, wr_page = page, wr_offset = off, wr_size = sz, wr_buffer = buf\<rparr>"
  have pid: "0 < sint pid" by (rule maps_pid [OF inv m])
  have u: "used st f" using m by (simp add: maps_def)
  have bl: "unat off + length (take (unat sz) buf) \<le> page_bytes st" using b by simp
  note P = poke_inv [OF inv u bl, folded st1]
  have ci1: "cache_inv st1" unfolding st1 by (rule cache_inv_poke [OF inv u bl ci])
  have ps: "unat off < 2 ^ 31" "unat sz < 2 ^ 31" using b page_bytes_small [OF inv] by simp_all
  have "mapped st1 pid page" using m P(3) by (auto simp: mapped_def)
  note U = update_cache_inv [OF ci1 pid this victim_ok(1,2) [OF ci1 pid], of off sz buf x]
  have "\<exists>l. update_cache M (Some (victim M pid page st1)) pid page off sz buf st1 =
       Some (fill_entry (victim M pid page st1) pid page x (string_time M (time_calls st1)) l st1) \<and>
     cache_inv (fill_entry (victim M pid page st1) pid page x (string_time M (time_calls st1)) l st1)"
    using U safe b ps x by (simp add: sint_nonneg_u32 st1)
  then obtain l where l: "writing_cache M ?w st1 =
       Some (fill_entry (victim M pid page st) pid page x (string_time M (time_calls st)) l st1)"
     "cache_inv (fill_entry (victim M pid page st) pid page x (string_time M (time_calls st)) l st1)"
    using writing_cache_victim [OF ci1, of ?w] pid by (auto simp: st1)
  have "writing_memory M ?w client st = Some (SUCCESS, st1)"
    unfolding st1 using writing_memory_poke [OF inv, of ?w f client] m ok b by simp
  with l P(1,2) show ?thesis
    using write_page_parsed [OF v inv b(1,2), of junk client] by (intro exI [of _ l]) (simp add: Let_def)
qed

lemma read_page_parsed:
  assumes "sk_in s = read_body (pid, page, off, sz) @ rest"
    and "frame_inv st" "unat off + unat sz \<le> page_bytes st" "unat off < page_bytes st"
  shows "read_page M junk s st =
     (let r = \<lparr>rd_exec_code = SUCCESS, rd_pid = pid, rd_page = page, rd_offset = off, rd_size = sz\<rparr>
      in do { (hit, s2, st1) \<leftarrow> reading_cache M r (s\<lparr>sk_in := rest\<rparr>) st;
              (if hit then Some (s2, st1) else readind_memory M r s2 st1) })"
  using read_wire.parse_body [OF TrueI assms(1)] bound_check [OF assms(2-4)]
  by (simp add: read_page_def Let_def source_consts)

lemma read_send_resp_data:
  assumes "length bs = unat n" "unat n < 2 ^ 31"
  shows "read_send_resp c n bs s = Some (s\<lparr>sk_out := sk_out s @ code_bytes c @ u32_bytes n @ bs\<rparr>)"
proof -
  have "0 \<le> sint n" by (rule sint_nonneg_u32 [OF assms(2)])
  then have "0 < sint n \<longleftrightarrow> bs \<noteq> []"
    using assms(1) by (auto simp: less_le signed_eq_0_iff unat_eq_0)
  with assms(1) show ?thesis by (auto simp: read_send_resp_def socket_write_def Let_def)
qed

text \<open>A read that finds its page in the cache.\<close>

lemma read_page_hit:
  assumes inv: "frame_inv st" and ci: "cache_inv st" and h: "get_cache_entry pid page st = Some e"
    and s: "sk_in s = read_body (pid, page, off, sz) @ rest"
    and b: "unat off + unat sz \<le> page_bytes st" "unat off < page_bytes st"
  shows "read_page M junk s st =
     Some (s\<lparr>sk_in := rest, sk_out := sk_out s @ code_bytes SUCCESS @ u32_bytes sz @
              mem_read (unat off) (unat sz) (cm_content (cache_memory st ! e))\<rparr>,
           st\<lparr>last_used_time := (last_used_time st)[e := Some (string_time M (time_calls st))],
              time_calls := Suc (time_calls st)\<rparr>)"
proof -
  have "e < length (cache_memory st)" using find_index_SomeD [OF h [unfolded get_cache_entry_def]] by simp
  then have len: "length (cm_content (cache_memory st ! e)) = page_bytes st"
    using cache_invD(1) [OF ci] by (simp add: cache_shape_def)
  have "unat sz < 2 ^ 31" using b page_bytes_small [OF inv] by simp
  moreover have "length (mem_read (unat off) (unat sz) (cm_content (cache_memory st ! e))) = unat sz"
    using b len by (simp add: length_mem_read)
  ultimately show ?thesis
    using read_page_parsed [OF s inv b, of junk] h b len
    by (simp add: reading_cache_def read_cache_entry_and_send_def read_send_resp_data Let_def)
qed

text \<open>A read that loads its page into the cache.\<close>

lemma read_page_miss:
  assumes inv: "frame_inv st" and ci: "cache_inv st" and h: "get_cache_entry pid page st = None"
    and m: "maps st pid page f" and s: "sk_in s = read_body (pid, page, off, sz) @ rest"
    and b: "unat off + unat sz \<le> page_bytes st" "unat off < page_bytes st"
    and safe: "\<not> last_entry_of_other pid (victim M pid page st) st"
  shows "\<exists>l. read_page M junk s st =
     Some (s\<lparr>sk_in := rest, sk_out := sk_out s @ code_bytes SUCCESS @ u32_bytes sz @
              mem_read (unat off) (unat sz) (page_content st f)\<rparr>,
           fill_entry (victim M pid page st) pid page (page_content st f) (string_time M (time_calls st)) l st) \<and>
     cache_inv (fill_entry (victim M pid page st) pid page (page_content st f) (string_time M (time_calls st)) l st)"
proof -
  let ?e = "victim M pid page st" and ?n = "page_bytes st" and ?fs = "frame_size (memory_conf st)"
  have pid: "0 < sint pid" by (rule maps_pid [OF inv m])
  have f: "f < n_frames st" using maps_frame [OF m] by simp
  have pos: "frame_pos (memory_conf st) f = f * ?n"
    by (rule frame_pos_eq [OF inv_shapeD(1) [OF frame_invD(1) [OF inv]] f])
  note F = frame_in_memory [OF frame_invD(1) [OF inv] f]
  have mp: "mapped st pid page" using m by (auto simp: mapped_def)
  have "?e < length (cache_memory st)" using victim_ok(1) [OF ci pid] by (simp add: fillable_def)
  then have len: "length (cm_content (cache_memory st ! ?e)) = ?n"
    using cache_invD(1) [OF ci] by (simp add: cache_shape_def)
  have tk: "take ?n (drop (f * ?n) (memory st)) = page_content st f"
    by (simp add: page_content_def mem_read_def)
  have x: "page_content st f = mem_write (unat 0) (take (unat ?fs) (drop (f * ?n) (memory st))) (cm_content (cache_memory st ! ?e))"
    using F len by (simp add: tk mem_write_full page_content_def length_mem_read)
  have "\<exists>l. update_cache M (Some ?e) pid page 0 ?fs (drop (f * ?n) (memory st)) st =
       Some (fill_entry ?e pid page (page_content st f) (string_time M (time_calls st)) l st) \<and>
     cache_inv (fill_entry ?e pid page (page_content st f) (string_time M (time_calls st)) l st)"
    using update_cache_inv [OF ci pid mp victim_ok(1,2) [OF ci pid], of 0 ?fs "drop (f * ?n) (memory st)"] x
      safe F page_bytes_small [OF inv] by (simp add: sint_nonneg_u32)
  then obtain l where l: "update_cache M (Some ?e) pid page 0 ?fs (drop (f * ?n) (memory st)) st =
       Some (fill_entry ?e pid page (page_content st f) (string_time M (time_calls st)) l st)"
     "cache_inv (fill_entry ?e pid page (page_content st f) (string_time M (time_calls st)) l st)" by blast
  have rd: "mem_read (f * ?n + unat off) (unat sz) (memory st) = mem_read (unat off) (unat sz) (page_content st f)"
    using b by (simp add: page_content_def mem_read_mem_read)
  have "length (mem_read (unat off) (unat sz) (page_content st f)) = unat sz"
    using b F by (simp add: length_mem_read page_content_def)
  moreover have "unat sz < 2 ^ 31" using b page_bytes_small [OF inv] by simp
  ultimately show ?thesis
    using l F b read_page_parsed [OF s inv b, of junk] get_frame_cases(1) [OF inv pid m] victim_ok(3) [OF ci pid h] h
    by (intro exI [of _ l])
      (simp add: reading_cache_def readind_memory_def pos rd read_send_resp_data Let_def)
qed

end


section \<open>Properties\<close>

lemma tiny_cache: "cache_memory tiny_state = [\<lparr>cm_pid = - 1, cm_page = - 1, cm_content = junk_bytes (\<lambda>_. 0) 32\<rparr>]"
  "kernel_client tiny_state = 0" "page_bytes tiny_state = 32"
proof -
  show "page_bytes tiny_state = 32" unfolding tiny_state(4) by (simp add: tiny_conf_def)
  show "cache_memory tiny_state = [\<lparr>cm_pid = - 1, cm_page = - 1, cm_content = junk_bytes (\<lambda>_. 0) 32\<rparr>]"
    "kernel_client tiny_state = 0" by (rule tiny_state)+
qed

lemma tiny_victim:
  assumes "0 < sint pid"
  shows "victim seq_mem_lib pid page tiny_state = 0" "get_cache_entry pid page tiny_state = None"
    "\<not> last_entry_of_other pid (victim seq_mem_lib pid page tiny_state) tiny_state"
proof -
  have "pid \<noteq> - 1" using assms by auto
  then show "get_cache_entry pid page tiny_state = None"
    by (simp add: get_cache_entry_def tiny_cache)
  show v: "victim seq_mem_lib pid page tiny_state = 0"
    using seq_mem.victim_ok(1) [OF tiny_state(2) assms] by (simp add: fillable_def tiny_cache)
  show "\<not> last_entry_of_other pid (victim seq_mem_lib pid page tiny_state) tiny_state"
    unfolding v by (simp add: last_entry_of_other_def tiny_cache)
qed

text \<open>
  C3: A write request for a mapped page, inside the page, whose buffer covers its size, sent by the
  kernel's connection or aimed at a page that is not a code page, is answered with \<open>SUCCESS\<close> and
  changes exactly the addressed bytes: the inverted table (which lives in the same memory block),
  every mapping and the content of every other frame, of this and of other processes, stay as they
  were, and the invariants hold afterwards.  The request must not need the last cache entry of
  another process.
\<close>

theorem write_page_success:
  assumes "mem_commons M" "frame_inv st" "cache_inv st" "maps st pid page f"
    and "kernel_client st = client \<or> it_segment (get_reg (memory st) f) \<noteq> CODE_SEGMENT"
    and "write_valid (pid, page, off, sz, buf)" "sk_in s = write_body (pid, page, off, sz, buf) @ rest"
    and "unat off + unat sz \<le> page_bytes st" "unat off < page_bytes st" "unat sz \<le> length buf"
    and "\<not> last_entry_of_other pid (victim M pid page st) st"
  shows "\<exists>st'. write_page M junk client s st =
       Some (s\<lparr>sk_in := rest, sk_out := sk_out s @ code_bytes SUCCESS\<rparr>, st') \<and>
     frame_inv st' \<and> cache_inv st' \<and> maps st' = maps st \<and>
     (\<forall>g < n_frames st. get_reg (memory st') g = get_reg (memory st) g) \<and>
     (\<forall>g < n_frames st. page_content st' g =
        (if g = f then mem_write (unat off) (take (unat sz) buf) (page_content st f) else page_content st g))"
proof -
  let ?bs = "take (unat sz) buf"
  have u: "used st f" "f < n_frames st" using assms(4) maps_frame by (auto simp: maps_def)
  have bl: "unat off + length ?bs \<le> page_bytes st" using assms(8,10) by simp
  note sh = frame_invD(1) [OF assms(2)]
  obtain st' l x t where st': "write_page M junk client s st =
       Some (s\<lparr>sk_in := rest, sk_out := sk_out s @ code_bytes SUCCESS\<rparr>, st')" "cache_inv st'"
     "st' = fill_entry (victim M pid page st) pid page x t l (poke f (unat off) ?bs st)"
     "frame_inv (poke f (unat off) ?bs st)" "maps (poke f (unat off) ?bs st) = maps st"
    using mem_commons.write_page_effect [OF assms refl refl] by blast
  have "get_reg (memory st') g = get_reg (memory st) g" if "g < n_frames st" for g
    using poke_reg [OF sh _ bl that, of f] u by (simp add: st'(3) used_def)
  moreover have "page_content st' g = (if g = f then mem_write (unat off) ?bs (page_content st f) else page_content st g)"
    if "g < n_frames st" for g
    using poke_content [OF sh u(2) that bl] by (simp add: st'(3))
  ultimately show ?thesis using st' by auto
qed

theorem write_page_success_witness:
  "\<exists>st'. write_page seq_mem_lib (\<lambda>_. 0) 0 \<lparr>sk_in = write_body (2, 0, 4, 2, [7, 9]), sk_out = []\<rparr> tiny_state =
     Some (\<lparr>sk_in = [], sk_out = code_bytes SUCCESS\<rparr>, st') \<and> frame_inv st' \<and> cache_inv st' \<and> maps st' = maps tiny_state"
proof -
  obtain f where f: "maps tiny_state 2 0 f" using tiny_state(3) by (auto simp: mapped_def)
  have "\<not> last_entry_of_other 2 (victim seq_mem_lib 2 0 tiny_state) tiny_state" by (rule tiny_victim) simp
  with write_page_success [OF seq_mem.mem_commons_axioms tiny_state(1,2) f, of 0 4 2 "[7, 9]"
      "\<lparr>sk_in = write_body (2, 0, 4, 2, [7, 9]), sk_out = []\<rparr>" "[]" "\<lambda>_. 0"]
  show ?thesis by (auto simp: tiny_cache write_valid_def)
qed

text \<open>
  C33: The refusals of \<open>write_page\<close> leave the memory alone: a request for a page that is not mapped is
  answered \<open>PAGE_FAULT\<close>, provided its number fits into the array of \<open>hashing\<close>, and a request of a client other than the kernel
  for a code page is answered \<open>SEGMENTATION_FAULT\<close>, in both cases with the state unchanged.
\<close>

theorem write_page_refused:
  assumes "mem_commons M" "frame_inv st" "0 < sint pid"
    and "write_valid (pid, page, off, sz, buf)" "sk_in s = write_body (pid, page, off, sz, buf) @ rest"
    and "unat off + unat sz \<le> page_bytes st" "unat off < page_bytes st"
  shows "(\<not> mapped st pid page \<and> hash_ok pid page \<longrightarrow> write_page M junk client s st =
            Some (s\<lparr>sk_in := rest, sk_out := sk_out s @ code_bytes PAGE_FAULT\<rparr>, st)) \<and>
         (\<forall>f. maps st pid page f \<and> client \<noteq> kernel_client st \<and>
              it_segment (get_reg (memory st) f) = CODE_SEGMENT \<longrightarrow>
            write_page M junk client s st =
              Some (s\<lparr>sk_in := rest, sk_out := sk_out s @ code_bytes SEGMENTATION_FAULT\<rparr>, st))"
  using mem_commons.write_page_parsed [OF assms(1) assms(4,5,2,6,7), of junk client]
    mem_commons.get_frame_cases [OF assms(1-3), of page]
  by (auto simp: Let_def writing_memory_def source_consts)

theorem write_page_refused_witness:
  "write_page seq_mem_lib (\<lambda>_. 0) 5 \<lparr>sk_in = write_body (2, 1, 4, 2, [7, 9]), sk_out = []\<rparr> tiny_state =
     Some (\<lparr>sk_in = [], sk_out = code_bytes PAGE_FAULT\<rparr>, tiny_state)"
  using write_page_refused [OF seq_mem.mem_commons_axioms tiny_state(1), of 2 1 4 2 "[7, 9]"
      "\<lparr>sk_in = write_body (2, 1, 4, 2, [7, 9]), sk_out = []\<rparr>" "[]" "\<lambda>_. 0" 5] tiny_state(3) [of 2 1]
    hash_ok_small [of 2 1]
  by (simp add: tiny_cache write_valid_def)

lemma read_page_ok:
  assumes "mem_commons M" "frame_inv st" "cache_inv st" "maps st pid page f" "coherent st pid page"
    and "sk_in s = read_body (pid, page, off, sz) @ rest"
    and "unat off + unat sz \<le> page_bytes st" "unat off < page_bytes st"
    and "\<not> last_entry_of_other pid (victim M pid page st) st"
  shows "\<exists>st'. read_page M junk s st =
       Some (s\<lparr>sk_in := rest, sk_out := sk_out s @ code_bytes SUCCESS @ u32_bytes sz @
                mem_read (unat off) (unat sz) (page_content st f)\<rparr>, st') \<and>
     memory st' = memory st \<and> frame_inv st' \<and> cache_inv st' \<and> maps st' = maps st \<and>
     (\<forall>p q. coherent st p q \<longrightarrow> coherent st' p q)"
proof (cases "get_cache_entry pid page st")
  case None
  have "fillable pid page (victim M pid page st) st"
    by (rule mem_commons.victim_ok(1) [OF assms(1,3) maps_pid [OF assms(2,4)]])
  then have e: "victim M pid page st < length (cache_memory st)" by (simp add: fillable_def)
  obtain l t where "read_page M junk s st =
       Some (s\<lparr>sk_in := rest, sk_out := sk_out s @ code_bytes SUCCESS @ u32_bytes sz @
                mem_read (unat off) (unat sz) (page_content st f)\<rparr>,
             fill_entry (victim M pid page st) pid page (page_content st f) t l st)"
     "cache_inv (fill_entry (victim M pid page st) pid page (page_content st f) t l st)"
    using mem_commons.read_page_miss [OF assms(1-3) None assms(4,6-9)] by blast
  moreover have "coherent (fill_entry (victim M pid page st) pid page (page_content st f) t l st) p q"
    if "coherent st p q" for p q
    by (rule coherent_fill [OF that e]) (use maps_unique [OF assms(2,4)] in auto)
  ultimately show ?thesis using assms(2) by auto
next
  case (Some e)
  have e: "e < length (cache_memory st)" "cm_pid (cache_memory st ! e) = pid" "cm_page (cache_memory st ! e) = page"
    using find_index_SomeD [OF Some [unfolded get_cache_entry_def]] by auto
  let ?st = "st\<lparr>last_used_time := (last_used_time st)[e := Some (string_time M (time_calls st))],
              time_calls := Suc (time_calls st)\<rparr>"
  have "cm_content (cache_memory st ! e) = page_content st f"
    using assms(4,5) e by (auto simp: coherent_def)
  moreover have "cache_inv ?st"
    using assms(3) e(1) by (auto simp: cache_inv_def cache_shape_def cache_valid_def cache_account_def Let_def nth_list_update)
  moreover have "coherent ?st = coherent st"
    by (simp add: fun_eq_iff coherent_def page_content_def)
  ultimately show ?thesis
    using mem_commons.read_page_hit [OF assms(1-3) Some assms(6-8), of junk] assms(2) by simp
qed

text \<open>
  C4: A read returns the bytes of the page: for a mapped page on which cache and memory agree, a
  request inside the page is answered \<open>SUCCESS\<close> with the size and exactly the requested bytes of the
  frame, whether the page is in the cache or has to be loaded.  The memory is unchanged, the
  invariants hold, and every page on which cache and memory agreed still agrees.
\<close>

theorem read_page_returns_memory:
  assumes "mem_commons M" "frame_inv st" "cache_inv st" "maps st pid page f" "coherent st pid page"
    and "sk_in s = read_body (pid, page, off, sz) @ rest"
    and "unat off + unat sz \<le> page_bytes st" "unat off < page_bytes st"
    and "\<not> last_entry_of_other pid (victim M pid page st) st"
  shows "\<exists>st'. read_page M junk s st =
       Some (s\<lparr>sk_in := rest, sk_out := sk_out s @ code_bytes SUCCESS @ u32_bytes sz @
                mem_read (unat off) (unat sz) (page_content st f)\<rparr>, st') \<and>
     memory st' = memory st \<and> frame_inv st' \<and> cache_inv st' \<and> maps st' = maps st \<and>
     (\<forall>p q. coherent st p q \<longrightarrow> coherent st' p q)"
  using assms by (rule read_page_ok)

lemma tiny_coherent: "coherent tiny_state 2 0"
  by (simp add: coherent_def tiny_cache)

theorem read_page_returns_memory_witness:
  "\<exists>f st'. maps tiny_state 2 0 f \<and>
     read_page seq_mem_lib (\<lambda>_. 0) \<lparr>sk_in = read_body (2, 0, 4, 2), sk_out = []\<rparr> tiny_state =
       Some (\<lparr>sk_in = [], sk_out = code_bytes SUCCESS @ u32_bytes 2 @ mem_read 4 2 (page_content tiny_state f)\<rparr>, st')"
proof -
  obtain f where f: "maps tiny_state 2 0 f" using tiny_state(3) by (auto simp: mapped_def)
  have "\<not> last_entry_of_other 2 (victim seq_mem_lib 2 0 tiny_state) tiny_state" by (rule tiny_victim) simp
  with read_page_returns_memory [OF seq_mem.mem_commons_axioms tiny_state(1,2) f tiny_coherent,
      of "\<lparr>sk_in = read_body (2, 0, 4, 2), sk_out = []\<rparr>" 4 2 "[]" "\<lambda>_. 0"] f
  show ?thesis by (auto simp: tiny_cache)
qed


text \<open>Agreement after a write, for the written page and for the others.\<close>

lemma coherent_poke_other:
  assumes "frame_inv st" "maps st pid page f" "unat off + length bs \<le> page_bytes st"
    and "coherent st p q" "(p, q) \<noteq> (pid, page)"
  shows "coherent (poke f (unat off) bs st) p q"
proof -
  have u: "used st f" "f < n_frames st" using assms(2) maps_frame by (auto simp: maps_def)
  have "page_content (poke f (unat off) bs st) g = page_content st g" if "maps st p q g" for g
    using that assms(2,5) poke_content [OF frame_invD(1) [OF assms(1)] u(2) _ assms(3), of g] maps_frame [OF that]
    by (auto simp: maps_def)
  then show ?thesis
    using assms(4) by (auto simp: coherent_def poke_inv(2) [OF assms(1) u(1) assms(3)])
qed

lemma coherent_fill_same:
  assumes "fillable pid page e st" "\<And>f. maps st pid page f \<Longrightarrow> x = page_content st f"
  shows "coherent (fill_entry e pid page x t l st) pid page"
  using assms by (auto simp: coherent_def fillable_def nth_list_update)

lemma coherent_after_write:
  assumes "mem_commons M" "frame_inv st" "cache_inv st" "maps st pid page f"
    and b: "unat off + unat sz \<le> page_bytes st" "unat sz \<le> length buf"
    and cached: "get_cache_entry pid page st \<noteq> None \<or> unat sz = page_bytes st"
    and c: "coherent st pid page" "coherent st p q"
  shows "coherent (fill_entry (victim M pid page st) pid page
    (mem_write (unat off) (take (unat sz) buf) (cm_content (cache_memory st ! victim M pid page st))) t l
    (poke f (unat off) (take (unat sz) buf) st)) p q"
proof -
  let ?bs = "take (unat sz) buf" and ?e = "victim M pid page st"
  let ?st1 = "poke f (unat off) ?bs st" and ?x = "mem_write (unat off) ?bs (cm_content (cache_memory st ! ?e))"
  have u: "used st f" "f < n_frames st" using assms(4) maps_frame by (auto simp: maps_def)
  have bl: "unat off + length ?bs \<le> page_bytes st" using b by simp
  have fl: "fillable pid page ?e st"
    by (rule mem_commons.victim_ok(1) [OF assms(1,3) maps_pid [OF assms(2,4)]])
  then have e: "?e < length (cache_memory st)" by (simp add: fillable_def)
  have pc: "page_content ?st1 f = mem_write (unat off) ?bs (page_content st f)"
    using poke_content [OF frame_invD(1) [OF assms(2)] u(2,2) bl] by simp
  have x: "?x = page_content ?st1 g" if g: "maps ?st1 pid page g" for g
  proof -
    have "g = f" using g maps_unique [OF assms(2,4)] by (simp add: poke_inv(2) [OF assms(2) u(1) bl])
    moreover have "?x = mem_write (unat off) ?bs (page_content st f)"
    proof (cases "get_cache_entry pid page st")
      case None
      then have full: "unat off = 0" "length ?bs = page_bytes st" using b cached by auto
      have "length (cm_content (cache_memory st ! ?e)) = page_bytes st"
        using e cache_invD(1) [OF assms(3)] by (simp add: cache_shape_def)
      moreover have "length (page_content st f) = page_bytes st"
        using frame_in_memory [OF frame_invD(1) [OF assms(2)] u(2)] by (simp add: page_content_def length_mem_read)
      ultimately show ?thesis unfolding full(1) using full(2) by (simp add: mem_write_full)
    next
      case (Some i)
      then have "?e = i" by (simp add: victim_def)
      then have "cm_content (cache_memory st ! ?e) = page_content st f"
        using c(1) assms(4) find_index_SomeD [OF Some [unfolded get_cache_entry_def]] by (auto simp: coherent_def)
      then show ?thesis by simp
    qed
    ultimately show ?thesis by (simp add: pc)
  qed
  show ?thesis
  proof (cases "(p, q) = (pid, page)")
    case True
    have "coherent (fill_entry ?e pid page ?x t l ?st1) pid page"
      by (rule coherent_fill_same [OF _ x]) (use fl in \<open>simp add: fillable_def\<close>)
    then show ?thesis using True by simp
  next
    case False
    show ?thesis
      by (rule coherent_fill [OF coherent_poke_other [OF assms(2,4) bl c(2) False]]) (use e False in simp_all)
  qed
qed

text \<open>
  Writes keep cache and memory in agreement when the page is already in the cache or when the
  request covers the whole page: every page on which they agreed before agrees afterwards, so that
  a later read returns what was written.
\<close>

theorem write_page_keeps_agreement:
  assumes "mem_commons M" "frame_inv st" "cache_inv st" "maps st pid page f"
    and "kernel_client st = client \<or> it_segment (get_reg (memory st) f) \<noteq> CODE_SEGMENT"
    and "write_valid (pid, page, off, sz, buf)" "sk_in s = write_body (pid, page, off, sz, buf) @ rest"
    and "unat off + unat sz \<le> page_bytes st" "unat off < page_bytes st" "unat sz \<le> length buf"
    and "\<not> last_entry_of_other pid (victim M pid page st) st"
    and "get_cache_entry pid page st \<noteq> None \<or> unat sz = page_bytes st"
  shows "\<exists>s' st'. write_page M junk client s st = Some (s', st') \<and>
     (\<forall>p q. coherent st pid page \<and> coherent st p q \<longrightarrow> coherent st' p q)"
  using mem_commons.write_page_effect [OF assms(1-11) refl refl, of junk]
    coherent_after_write [OF assms(1-4,8,10,12)] by blast

theorem write_page_keeps_agreement_witness:
  "\<exists>s' st'. write_page seq_mem_lib (\<lambda>_. 0) 0
      \<lparr>sk_in = write_body (2, 0, 0, 32, replicate 32 7), sk_out = []\<rparr> tiny_state = Some (s', st') \<and> coherent st' 2 0"
proof -
  obtain f where f: "maps tiny_state 2 0 f" using tiny_state(3) by (auto simp: mapped_def)
  have "\<not> last_entry_of_other 2 (victim seq_mem_lib 2 0 tiny_state) tiny_state" by (rule tiny_victim) simp
  with write_page_keeps_agreement [OF seq_mem.mem_commons_axioms tiny_state(1,2) f, of 0 0 32 "replicate 32 7"
      "\<lparr>sk_in = write_body (2, 0, 0, 32, replicate 32 7), sk_out = []\<rparr>" "[]" "\<lambda>_. 0"] tiny_coherent
  show ?thesis by (auto simp: tiny_cache write_valid_def)
qed

text \<open>
  A write of a part of a page that is not in the cache breaks the agreement.  \<open>writing_cache\<close> enters
  the page in a cache entry although only the written bytes are copied there: a later read of any
  other part of the page is answered with the bytes that the entry held before (of whatever page of
  whatever process it was used for last), not with the content of the page.
\<close>

theorem partial_write_serves_stale_bytes:
  assumes "mem_commons M" "frame_inv st" "cache_inv st" "maps st pid page f"
    and "kernel_client st = client \<or> it_segment (get_reg (memory st) f) \<noteq> CODE_SEGMENT"
    and "write_valid (pid, page, off, sz, buf)" "sk_in s = write_body (pid, page, off, sz, buf) @ rest"
    and "unat off + unat sz \<le> page_bytes st" "unat off < page_bytes st" "unat sz \<le> length buf"
    and "\<not> last_entry_of_other pid (victim M pid page st) st"
    and "get_cache_entry pid page st = None"
    and "sk_in r = read_body (pid, page, off', sz') @ rest'"
    and "unat off' + unat sz' \<le> page_bytes st" "unat off' < page_bytes st"
    and "unat off' + unat sz' \<le> unat off \<or> unat off + unat sz \<le> unat off'"
  shows "\<exists>s' st' st''. write_page M junk client s st = Some (s', st') \<and>
     read_page M junk r st' =
       Some (r\<lparr>sk_in := rest', sk_out := sk_out r @ code_bytes SUCCESS @ u32_bytes sz' @
                mem_read (unat off') (unat sz') (cm_content (cache_memory st ! victim M pid page st))\<rparr>, st'')"
proof -
  let ?bs = "take (unat sz) buf" and ?e = "victim M pid page st"
  let ?c = "cm_content (cache_memory st ! ?e)"
  let ?x = "mem_write (unat off) ?bs ?c" and ?st1 = "poke f (unat off) (take (unat sz) buf) st"
  have fl: "fillable pid page ?e st"
    by (rule mem_commons.victim_ok(1) [OF assms(1,3) maps_pid [OF assms(2,4)]])
  then have e: "?e < length (cache_memory st)" by (simp add: fillable_def)
  obtain s' st' l t where w: "write_page M junk client s st = Some (s', st')" "cache_inv st'"
    "st' = fill_entry ?e pid page ?x t l ?st1" "frame_inv ?st1"
    using mem_commons.write_page_effect [OF assms(1-11) refl refl] by blast
  have "find_index (\<lambda>c. cm_pid c = pid \<and> cm_page c = page) (cache_memory st') = Some ?e"
    using assms(12) e by (auto simp: get_cache_entry_def find_index_None_iff find_index_Some_iff w(3) nth_list_update)
  then have hit: "get_cache_entry pid page st' = Some ?e" by (simp add: get_cache_entry_def)
  have len: "length ?c = page_bytes st" using e cache_invD(1) [OF assms(3)] by (simp add: cache_shape_def)
  have "mem_read (unat off') (unat sz') ?x = mem_read (unat off') (unat sz') ?c"
    using assms(8,10,16) len by (auto simp: slices)
  moreover have "cm_content (cache_memory st' ! ?e) = ?x" using e by (simp add: w(3))
  ultimately show ?thesis
    using w mem_commons.read_page_hit [OF assms(1) _ w(2) hit assms(13), of junk] assms(14,15) by auto
qed

theorem partial_write_serves_stale_bytes_witness:
  "\<exists>s' st' st''. write_page seq_mem_lib (\<lambda>_. 0) 0
      \<lparr>sk_in = write_body (2, 0, 4, 2, [7, 9]), sk_out = []\<rparr> tiny_state = Some (s', st') \<and>
    read_page seq_mem_lib (\<lambda>_. 0) \<lparr>sk_in = read_body (2, 0, 8, 3), sk_out = []\<rparr> st' =
      Some (\<lparr>sk_in = [], sk_out = code_bytes SUCCESS @ u32_bytes 3 @ mem_read 8 3 (junk_bytes (\<lambda>_. 0) 32)\<rparr>, st'')"
proof -
  obtain f where f: "maps tiny_state 2 0 f" using tiny_state(3) by (auto simp: mapped_def)
  have "\<not> last_entry_of_other 2 (victim seq_mem_lib 2 0 tiny_state) tiny_state"
    "victim seq_mem_lib 2 0 tiny_state = 0" "get_cache_entry 2 0 tiny_state = None"
    using tiny_victim [of 2 0] by auto
  with partial_write_serves_stale_bytes [OF seq_mem.mem_commons_axioms tiny_state(1,2) f, of 0 4 2 "[7, 9]"
      "\<lparr>sk_in = write_body (2, 0, 4, 2, [7, 9]), sk_out = []\<rparr>" "[]"
      "\<lparr>sk_in = read_body (2, 0, 8, 3), sk_out = []\<rparr>" 8 3 "[]" "\<lambda>_. 0"]
  show ?thesis by (simp add: tiny_cache write_valid_def)
qed

lemma unat_u32_minus: "0 < unat (w :: u32) \<Longrightarrow> unat (- w) = 2 ^ 32 - unat w"
proof -
  assume "0 < unat w"
  then have "w \<noteq> 0" by auto
  then have "uint w \<noteq> 0" by (simp add: unsigned_eq_0_iff)
  moreover have "0 \<le> uint w" "uint w < 2 ^ 32" using uint_lt2p [of w] by simp_all
  ultimately have u: "0 < uint w" "uint w < 2 ^ 32" by linarith+
  then have "(- uint w) mod 2 ^ 32 = 2 ^ 32 - uint w"
    by (simp add: zmod_zminus1_eq_if mod_pos_pos_trivial)
  then have "uint (- w) = 2 ^ 32 - uint w" by (simp add: uint_word_ariths)
  then have "unat (- w) = nat (2 ^ 32 - uint w)" by (simp only: unat_eq_nat_uint)
  also have "\<dots> = 2 ^ 32 - unat w" using u by (simp add: nat_diff_distrib)
  finally show ?thesis .
qed

text \<open>
  The bound check of \<open>write_page\<close> computes \<open>offset + size\<close> on 32 bits and can wrap: a request for a
  mapped page with an offset inside the page and a size of \<open>2^32 - offset\<close> is not answered
  \<open>OUT_OF_FRAME\<close> but copied, which leaves the memory block (the behaviour is undefined).
\<close>

theorem write_page_bound_wraps:
  assumes "mem_commons M" "frame_inv st" "maps st pid page f"
    and "kernel_client st = client \<or> it_segment (get_reg (memory st) f) \<noteq> CODE_SEGMENT"
    and "write_valid (pid, page, off, - off, buf)" "sk_in s = write_body (pid, page, off, - off, buf) @ rest"
    and "0 < unat off" "unat off < page_bytes st"
  shows "write_page M junk client s st = None"
proof -
  have pos: "frame_pos (memory_conf st) f = f * page_bytes st"
    using frame_pos_eq [OF inv_shapeD(1) [OF frame_invD(1) [OF assms(2)]]] maps_frame [OF assms(3)] by simp
  have "unat (- off) = 2 ^ 32 - unat off" using assms(7) by (rule unat_u32_minus)
  moreover have "length (memory st) < 2 ^ 31"
    using inv_shapeD(1,2) [OF frame_invD(1) [OF assms(2)]] by (simp add: conf_ok_def)
  ultimately have "length (memory st) < f * page_bytes st + unat off + unat (- off)"
    using unat_u32_less [of off] by simp
  moreover have "\<not> (frame_size (memory_conf st) \<le> off \<or> frame_size (memory_conf st) < off + - off)"
    using assms(8) by (simp add: word_le_nat_alt)
  ultimately show ?thesis
    using write_wire.parse_body [OF assms(5,6)] assms(4) pos
      mem_commons.get_frame_cases(1) [OF assms(1,2) maps_pid [OF assms(2,3)] assms(3)]
    by (auto simp: write_page_def writing_memory_def Let_def source_consts)
qed

theorem write_page_bound_wraps_witness:
  "write_page seq_mem_lib (\<lambda>_. 0) 0 \<lparr>sk_in = write_body (2, 0, 4, - 4, [7]), sk_out = []\<rparr> tiny_state = None"
proof -
  obtain f where f: "maps tiny_state 2 0 f" using tiny_state(3) by (auto simp: mapped_def)
  from write_page_bound_wraps [OF seq_mem.mem_commons_axioms tiny_state(1) f, of 0 4 "[7]"
      "\<lparr>sk_in = write_body (2, 0, 4, - 4, [7]), sk_out = []\<rparr>" "[]" "\<lambda>_. 0"]
  show ?thesis by (simp add: tiny_cache write_valid_def)
qed

end
