(* ===== verification/Memoria_Console.thy ===== *)
theory Memoria_Console
  imports Memoria_Access
begin

text \<open>
  The console of the memory process (\<open>memory_console\<close> and \<open>print_frame_content\<close> of
  \<open>memoria/src/memoria.c\<close>): splitting a line into command and parameter, and the commands \<open>delay\<close>,
  \<open>dump\<close>, \<open>size\<close> and \<open>flush\<close> with what they print and what they change.

  The search loop of \<open>flush\<close> never advances its index, so it is a \<open>partial_function\<close>: \<open>None\<close> is a loop
  that does not end.
\<close>

section \<open>Frame contents\<close>

definition escape_byte :: "char \<Rightarrow> string" where
  "escape_byte c =
     (if c = CHR 0x00 then CHR 0x5C # ''0''
      else if c = CHR 0x07 then CHR 0x5C # ''a''
      else if c = CHR 0x08 then CHR 0x5C # ''b''
      else if c = CHR 0x0C then CHR 0x5C # ''f''
      else if c = CHR 0x0A then CHR 0x5C # ''n''
      else if c = CHR 0x0D then CHR 0x5C # ''r''
      else if c = CHR 0x09 then CHR 0x5C # ''t''
      else if c = CHR 0x0B then CHR 0x5C # ''v''
      else if c = CHR 0x5C then [CHR 0x5C, CHR 0x5C]
      else if c = CHR 0x27 then [CHR 0x5C, CHR 0x27]
      else if c = CHR 0x22 then [CHR 0x5C, CHR 0x22]
      else if c = CHR ''?'' then CHR 0x5C # ''?''
      else [c])"

definition print_frame_content :: "string \<Rightarrow> string" where
  "print_frame_content frame_content = concat (map escape_byte frame_content)"

section \<open>Commands\<close>

partial_function (option) flush_search ::
    "t_cache_x_process t_list_ops \<Rightarrow> u32 \<Rightarrow> nat \<Rightarrow> t_cache_x_process list \<Rightarrow> t_cache_x_process list option" where
  "flush_search L previous_pid index l =
     (if index < length l then
        (let r = list_get L l 0 in
         if cx_pid r = previous_pid then
           (let l' = l[0 := r\<lparr>cx_entries := cx_entries r - 1\<rparr>] in
            Some (if sint (cx_entries r - 1) \<le> 0 then snd (list_remove L l' 0) else l'))
         else flush_search L previous_pid index l)
      else Some l)"

fun flush_entries :: "mem_lib \<Rightarrow> nat \<Rightarrow> nat \<Rightarrow> mem_state \<Rightarrow> mem_state option" where
  "flush_entries M cache_entry 0 st = Some st"
| "flush_entries M cache_entry (Suc n) st =
     (let previous_pid = cm_pid (cache_memory st ! cache_entry);
          st1 = clear_entry cache_entry st
      in if 0 \<le> sint previous_pid then do {
           l \<leftarrow> flush_search (cxp_ops M) previous_pid 0 (cache_x_process_list st1);
           flush_entries M (Suc cache_entry) n (st1\<lparr>cache_x_process_list := l\<rparr>)
         }
         else flush_entries M (Suc cache_entry) n st1)"

definition flush_command :: "mem_lib \<Rightarrow> mem_state \<Rightarrow> (string \<times> mem_state) option" where
  "flush_command M st = do {
     st1 \<leftarrow> flush_entries M 0 (unat (cache_entries (memory_conf st))) st;
     Some ('' >> cleaning cache...'' @ [CHR 0x0A] @ '' >> cache cleaned'' @ [CHR 0x0A], st1)
   }"

definition delay_command :: "string \<Rightarrow> mem_state \<Rightarrow> string \<times> mem_state" where
  "delay_command param st =
     (let new_delay_value = atoi param;
          out = '' >> setting delay value...''
      in if 0 < new_delay_value then
           (out @ [CHR 0x0A] @ ''    value '' @ dec_int (sint (memory_delay (memory_conf st)))
              @ [CHR 0x0A] @ ''    new value '' @ dec_int (sint new_delay_value) @ [CHR 0x0A],
            st\<lparr>memory_conf := (memory_conf st)\<lparr>memory_delay := new_delay_value\<rparr>\<rparr>)
         else (out @ [CHR 0x0A] @ ''    invalid value : '' @ dec_int (sint new_delay_value) @ [CHR 0x0A], st))"

definition size_command :: "mem_lib \<Rightarrow> string \<Rightarrow> mem_state \<Rightarrow> string" where
  "size_command M param st =
     (if param = ''memory'' then
        '' >> memory size'' @ [CHR 0x0A] @ ''    frames ------------> '' @ dec_int (sint (frames (memory_conf st)))
          @ [CHR 0x0A] @ ''    available frames --> '' @ dec_int (int (length (available_frame_list st)))
          @ [CHR 0x0A] @ ''    busy frames -------> ''
          @ dec_int (sint (frames (memory_conf st) - word_of_nat (length (available_frame_list st)))) @ [CHR 0x0A]
      else
        (let pid = atoi param in
         if 0 \<le> sint pid then
           (case list_search (pages_ops M) (\<lambda>r. pp_pid r = pid) (pages_per_process_list st) 0 of
              Some index \<Rightarrow>
                (let r = list_get (pages_ops M) (pages_per_process_list st) index in
                 '' >> memory size : pid '' @ dec_int (sint pid)
                   @ [CHR 0x0A] @ ''    frames ------------> '' @ dec_int (sint (pp_pages_count r))
                   @ [CHR 0x0A] @ ''    size --------------> ''
                   @ dec_int (sint (pp_pages_count r * frame_size (memory_conf st))) @ '' bytes'')
            | None \<Rightarrow> []) @ [CHR 0x0A]
         else '' >> memory size : invalid pid'' @ [CHR 0x0A]))"

text \<open>The three \<open>dump\<close> commands.  Passing a null pointer to \<open>%s\<close>, as for an empty cache entry, is undefined.\<close>

definition pad_left :: "nat \<Rightarrow> string \<Rightarrow> string" where
  "pad_left w s = replicate (w - length s) (CHR '' '') @ s"

definition dump_cache_row :: "nat \<Rightarrow> t_cache_memory \<Rightarrow> string option \<Rightarrow> string option" where
  "dump_cache_row n e t =
     (if sint (cm_pid e) < 0 \<or> t = None \<or> length (cm_content e) < n then None
      else Some ([CHR 0x0A] @ ''    '' @ pad_left 10 (dec_int (sint (cm_pid e))) @ '' | ''
             @ pad_left 10 (dec_int (sint (cm_page e))) @ '' | '' @ pad_left 15 (the t) @ '' | ''
             @ print_frame_content (as_chars (take n (cm_content e)))))"

fun dump_cache_rows :: "nat \<Rightarrow> t_cache_memory list \<Rightarrow> string option list \<Rightarrow> string option" where
  "dump_cache_rows n (e # es) (t # ts) = do {
     row \<leftarrow> dump_cache_row n e t;
     out \<leftarrow> dump_cache_rows n es ts;
     Some (row @ out) }"
| "dump_cache_rows n es ts = Some [CHR 0x0A]"

definition dump_cache_header :: string where
  "dump_cache_header = '' >> cache content'' @ [CHR 0x0A] @ ''          #pid        #page   #last used time   #content''
     @ [CHR 0x0A] @ ''    __________   __________   _______________   ''"

definition dump_cache :: "mem_state \<Rightarrow> string option" where
  "dump_cache st =
     map_option ((@) dump_cache_header) (dump_cache_rows (unat (frame_size (memory_conf st))) (cache_memory st) (last_used_time st))"

definition dump_struct :: "mem_state \<Rightarrow> string" where
  "dump_struct st =
     [CHR 0x0A] @ '' >> invert table'' @ [CHR 0x0A] @ ''        #frame         #pid        #page    #seg_type''
     @ [CHR 0x0A] @ ''    __________   __________   __________   __________''
     @ concat (map (\<lambda>frame. (let r = get_reg (memory st) frame in
           [CHR 0x0A] @ ''    '' @ pad_left 10 (dec_int (sint (it_frame r))) @ '' | '' @ pad_left 10 (dec_int (sint (it_pid r)))
           @ '' | '' @ pad_left 10 (dec_int (sint (it_page r))) @ '' | '' @ pad_left 9 (as_chars [it_segment r])))
         [0..<unat (frames (memory_conf st))])
     @ [CHR 0x0A]"

definition dump_content_row :: "mem_state \<Rightarrow> nat \<Rightarrow> string" where
  "dump_content_row st frame = [CHR 0x0A] @ ''    '' @ pad_left 10 (dec_int (int frame)) @ '' | ''
     @ print_frame_content (as_chars (mem_read (frame * unat (frame_size (memory_conf st)))
                                       (unat (frame_size (memory_conf st))) (memory st)))"

definition dump_content_header :: string where
  "dump_content_header = '' >> memory content'' @ [CHR 0x0A] @ ''        #frame   #content'' @ [CHR 0x0A] @ ''    __________   ''"

definition dump_content :: "mem_state \<Rightarrow> string" where
  "dump_content st = dump_content_header @ concat (map (dump_content_row st) [0..<unat (frames (memory_conf st))]) @ [CHR 0x0A]"

definition dump_command :: "string \<Rightarrow> mem_state \<Rightarrow> string option" where
  "dump_command param st =
     (if param = ''cache'' then dump_cache st
      else if param = ''struct'' then Some (dump_struct st)
      else if param = ''content'' then Some (dump_content st)
      else Some [])"

text \<open>
  One line of input.  \<open>command\<close> and \<open>param\<close> keep their pointers from one line to the next; \<open>old_command\<close>
  and \<open>old_param\<close> are the strings these pointers denote when the line has no such word, \<open>None\<close> for a null
  or dangling pointer.
\<close>

definition console_line ::
    "mem_lib \<Rightarrow> string option \<Rightarrow> string option \<Rightarrow> string \<Rightarrow> mem_state \<Rightarrow> (string \<times> mem_state) option" where
  "console_line M old_command old_param input st =
     (let tokens = strtok_words (CHR '' '') [] input;
          param = (case tokens of _ # p # _ \<Rightarrow> Some p | _ \<Rightarrow> old_param)
      in do {
        command \<leftarrow> (case tokens of c # _ \<Rightarrow> Some c | [] \<Rightarrow> old_command);
        (if command = ''delay'' then map_option (\<lambda>p. delay_command p st) param
         else if command = ''dump'' then do { p \<leftarrow> param; out \<leftarrow> dump_command p st; Some (out, st) }
         else if command = ''flush'' then flush_command M st
         else if command = ''size'' then map_option (\<lambda>p. (size_command M p st, st)) param
         else Some ([], st))
      })"

section \<open>Rendering is unambiguous\<close>

lemma escape_byte_shape:
  "(escape_byte c = [c] \<and> c \<noteq> CHR 0x5C) \<or> (\<exists>d. escape_byte c = [CHR 0x5C, d])"
  by (simp add: escape_byte_def)

lemma escape_byte_inj: "escape_byte c = escape_byte d \<Longrightarrow> c = d"
  by (simp add: escape_byte_def split: if_splits)

lemma escape_byte_prefix:
  assumes "escape_byte c @ xs = escape_byte d @ ys"
  shows "c = d \<and> xs = ys"
proof -
  have "escape_byte c = escape_byte d"
    using escape_byte_shape [of c] escape_byte_shape [of d] assms by auto
  with assms show ?thesis using escape_byte_inj by auto
qed

lemma escape_byte_not_Nil [simp]: "escape_byte c \<noteq> []"
  using escape_byte_shape [of c] by auto

text \<open>
  The rendering of a frame in the console loses nothing: two frame contents that are printed the
  same are the same, although special bytes are shown as escape sequences.
\<close>

theorem print_frame_content_injective:
  "print_frame_content a = print_frame_content b \<longleftrightarrow> a = b"
proof
  show "a = b" if "print_frame_content a = print_frame_content b"
    using that
  proof (induction a arbitrary: b)
    case Nil
    then show ?case by (cases b) (auto simp: print_frame_content_def)
  next
    case (Cons c a)
    then obtain d b' where b: "b = d # b'" by (cases b) (auto simp: print_frame_content_def)
    with Cons.prems have "c = d \<and> print_frame_content a = print_frame_content b'"
      by (intro escape_byte_prefix) (simp add: print_frame_content_def)
    with Cons.IH b show ?case by simp
  qed
qed simp

section \<open>The flush command\<close>

lemma flush_search_found:
  "l \<noteq> [] \<Longrightarrow> cx_pid (list_get L l 0) = p \<Longrightarrow> flush_search L p 0 l =
     Some (if sint (cx_entries (list_get L l 0) - 1) \<le> 0
           then snd (list_remove L (l[0 := (list_get L l 0)\<lparr>cx_entries := cx_entries (list_get L l 0) - 1\<rparr>]) 0)
           else l[0 := (list_get L l 0)\<lparr>cx_entries := cx_entries (list_get L l 0) - 1\<rparr>])"
  by (subst flush_search.simps) (simp add: Let_def)

text \<open>When the first record is one of another process, every iteration is like the one before.\<close>

lemma flush_search_diverges:
  assumes "index < length l" "cx_pid (list_get L l 0) \<noteq> p"
  shows "flush_search L p index l = None"
proof -
  have "index < length l \<longrightarrow> cx_pid (list_get L l 0) \<noteq> p \<longrightarrow> False"
    if "flush_search L p index l = Some y" for y
    using that by (rule flush_search.raw_induct [rotated]) (auto simp: Let_def split: if_splits)
  with assms have "flush_search L p index l \<noteq> Some y" for y by blast
  then show ?thesis by (cases "flush_search L p index l") auto
qed


definition single_account :: "u32 \<Rightarrow> int \<Rightarrow> t_cache_x_process list" where
  "single_account p k = (if k = 0 then [] else [\<lparr>cx_pid = p, cx_entries = word_of_int k\<rparr>])"

context mem_commons
begin

lemma flush_search_single:
  assumes "0 < k" "k < 2 ^ 15"
  shows "flush_search (cxp_ops M) p 0 (single_account p k) = Some (single_account p (k - 1))"
proof -
  let ?r = "\<lparr>cx_pid = p, cx_entries = word_of_int k :: u16\<rparr>"
  have "sint (word_of_int (k - 1) :: u16) = k - 1"
    by (rule sint_u16_of_int) (use assms in auto)
  then have k: "sint ((word_of_int k :: u16) - 1) = k - 1" by simp
  have get: "list_get (cxp_ops M) [?r] 0 = ?r" by (simp add: cx.list_get)
  have rem: "snd (list_remove (cxp_ops M) [x] 0) = []" for x by (simp add: cx.list_remove remove_at_def)
  show ?thesis
    using assms k flush_search_found [of "[?r]" "cxp_ops M" p] by (auto simp: single_account_def get rem)
qed

lemma flush_entries_single:
  assumes "e + n = length (cache_memory st)" "n < 2 ^ 15" "0 < sint p"
    and "\<And>c. c \<in> set (drop e (cache_memory st)) \<Longrightarrow> cm_pid c = - 1 \<or> cm_pid c = p"
    and "cache_x_process_list st = single_account p (entry_count p (drop e (cache_memory st)))"
  shows "\<exists>ts. flush_entries M e n st = Some (st\<lparr>cache_memory := take e (cache_memory st) @
       map (\<lambda>c. c\<lparr>cm_pid := - 1, cm_page := - 1\<rparr>) (drop e (cache_memory st)), last_used_time := ts,
       cache_x_process_list := []\<rparr>) \<and> length ts = length (last_used_time st)"
  using assms
proof (induction n arbitrary: e st)
  case 0
  then have "st = st\<lparr>cache_memory := take e (cache_memory st) @
       map (\<lambda>c. c\<lparr>cm_pid := - 1, cm_page := - 1\<rparr>) (drop e (cache_memory st)),
       last_used_time := last_used_time st, cache_x_process_list := []\<rparr>"
    by (simp add: single_account_def entry_count_def)
  then show ?case by (intro exI [of _ "last_used_time st"]) simp
next
  case (Suc n)
  let ?cs = "cache_memory st" and ?c = "cache_memory st ! e"
  let ?k = "entry_count p (drop (Suc e) ?cs)"
  have e: "e < length ?cs" using Suc.prems by simp
  have dr: "drop e ?cs = ?c # drop (Suc e) ?cs" using e by (simp add: Cons_nth_drop_Suc)
  have np: "p \<noteq> - 1" using Suc.prems(3) by auto
  let ?st1 = "(clear_entry e st)\<lparr>cache_x_process_list := single_account p ?k\<rparr>"
  have cnt: "entry_count p (drop e ?cs) = ?k + of_bool (cm_pid ?c = p)"
    by (simp add: dr entry_count_def)
  have small: "0 \<le> ?k" "?k < 2 ^ 15 - 1" using entry_count_le [of p "drop (Suc e) ?cs"] Suc.prems(1,2) by simp_all
  have step: "flush_entries M e (Suc n) st = flush_entries M (Suc e) n ?st1"
  proof (cases "cm_pid ?c = p")
    case True
    have "flush_search (cxp_ops M) p 0 (single_account p (?k + 1)) = Some (single_account p ?k)"
      using flush_search_single [of "?k + 1" p] small by simp
    then show ?thesis using True Suc.prems(3,5) cnt by (simp add: clear_entry_def Let_def)
  next
    case False
    then have "cm_pid ?c = - 1" using Suc.prems(4) [of ?c] by (auto simp: dr)
    moreover have "?st1 = clear_entry e st"
      using False Suc.prems(5) cnt by (simp add: clear_entry_def flip: Suc.prems(5))
    ultimately show ?thesis by (simp add: Let_def)
  qed
  have cs1: "cache_memory ?st1 = ?cs[e := ?c\<lparr>cm_pid := - 1, cm_page := - 1\<rparr>]" by (simp add: clear_entry_def)
  have dr1: "drop (Suc e) (cache_memory ?st1) = drop (Suc e) ?cs" by (simp add: cs1)
  have "\<exists>ts. flush_entries M (Suc e) n ?st1 = Some (?st1\<lparr>cache_memory := take (Suc e) (cache_memory ?st1) @
       map (\<lambda>c. c\<lparr>cm_pid := - 1, cm_page := - 1\<rparr>) (drop (Suc e) (cache_memory ?st1)), last_used_time := ts,
       cache_x_process_list := []\<rparr>) \<and> length ts = length (last_used_time ?st1)"
  proof (rule Suc.IH)
    show "Suc e + n = length (cache_memory ?st1)" "n < 2 ^ 15" using Suc.prems by (simp_all add: cs1)
    show "0 < sint p" by (rule Suc.prems(3))
    show "cm_pid c = - 1 \<or> cm_pid c = p" if "c \<in> set (drop (Suc e) (cache_memory ?st1))" for c
      using that Suc.prems(4) [of c] dr1 by (simp add: dr)
    show "cache_x_process_list ?st1 = single_account p (entry_count p (drop (Suc e) (cache_memory ?st1)))"
      unfolding dr1 by simp
  qed
  then obtain ts where ts: "flush_entries M (Suc e) n ?st1 = Some (?st1\<lparr>cache_memory := take (Suc e) (cache_memory ?st1) @
       map (\<lambda>c. c\<lparr>cm_pid := - 1, cm_page := - 1\<rparr>) (drop (Suc e) ?cs), last_used_time := ts,
       cache_x_process_list := []\<rparr>)" "length ts = length (last_used_time st)"
    unfolding dr1 by (auto simp: clear_entry_def)
  have "take (Suc e) (cache_memory ?st1) @ map (\<lambda>c. c\<lparr>cm_pid := - 1, cm_page := - 1\<rparr>) (drop (Suc e) ?cs) =
      take e ?cs @ map (\<lambda>c. c\<lparr>cm_pid := - 1, cm_page := - 1\<rparr>) (drop e ?cs)"
    using e by (simp add: cs1 dr take_Suc_conv_app_nth)
  with ts show ?case
    unfolding step by (intro exI [of _ ts]) (simp add: clear_entry_def)
qed

end

text \<open>
  C40: The console command \<open>flush\<close> can hang for ever: its search for the record of a process looks at
  the first record of the list again and again.  When the first cache entry belongs to a process
  whose record is not the first of the list, the command does not end, and since it holds the mutex
  the whole memory process is blocked.
\<close>

theorem flush_command_hangs:
  assumes "mem_commons M" "0 < unat (cache_entries (memory_conf st))"
    and "0 \<le> sint (cm_pid (cache_memory st ! 0))"
    and "cache_x_process_list st = r # l" "cx_pid r \<noteq> cm_pid (cache_memory st ! 0)"
  shows "flush_command M st = None"
proof -
  have "list_get (cxp_ops M) (r # l) 0 = r"
    using t_list_laws.list_get [OF mem_commons.cxp_laws [OF assms(1)], of 0 "r # l"] by simp
  then have "flush_search (cxp_ops M) (cm_pid (cache_memory st ! 0)) 0 (r # l) = None"
    using assms(5) by (intro flush_search_diverges) simp_all
  moreover obtain n where "unat (cache_entries (memory_conf st)) = Suc n"
    using assms(2) by (cases "unat (cache_entries (memory_conf st))") auto
  ultimately show ?thesis
    using assms(3,4) by (simp add: flush_command_def clear_entry_def Let_def)
qed

theorem flush_command_hangs_witness:
  "flush_command seq_mem_lib (tiny_state\<lparr>cache_memory := [\<lparr>cm_pid = 2, cm_page = 0, cm_content = []\<rparr>],
     cache_x_process_list := [\<lparr>cx_pid = 4, cx_entries = 1\<rparr>, \<lparr>cx_pid = 2, cx_entries = 1\<rparr>]\<rparr>) = None"
proof -
  let ?st = "tiny_state\<lparr>cache_memory := [\<lparr>cm_pid = 2, cm_page = 0, cm_content = []\<rparr>],
     cache_x_process_list := [\<lparr>cx_pid = 4, cx_entries = 1\<rparr>, \<lparr>cx_pid = 2, cx_entries = 1\<rparr>]\<rparr>"
  have "unat (cache_entries (memory_conf ?st)) = 1" by (simp add: tiny_state(4)) (simp add: tiny_conf_def)
  with flush_command_hangs [OF seq_mem.mem_commons_axioms, of ?st "\<lparr>cx_pid = 4, cx_entries = 1\<rparr>"
      "[\<lparr>cx_pid = 2, cx_entries = 1\<rparr>]"]
  show ?thesis by simp
qed

text \<open>
  As long as at most one process has cache entries, \<open>flush\<close> does what it announces: it ends, every
  cache entry is empty afterwards, no record of entries per process is left, and neither the memory
  nor the page table is touched.
\<close>

theorem flush_command_single_process:
  assumes "mem_commons M" "cache_inv st" "0 < sint p"
    and "\<forall>c \<in> set (cache_memory st). cm_pid c = - 1 \<or> cm_pid c = p"
  shows "\<exists>out st'. flush_command M st = Some (out, st') \<and> memory st' = memory st \<and> maps st' = maps st \<and>
     cache_x_process_list st' = [] \<and> length (cache_memory st') = length (cache_memory st) \<and>
     (\<forall>c \<in> set (cache_memory st'). cm_pid c = - 1 \<and> cm_page c = - 1)"
proof -
  let ?cs = "cache_memory st" and ?l = "cache_x_process_list st"
  have len: "unat (cache_entries (memory_conf st)) = length ?cs" "length ?cs < 2 ^ 15"
    using cache_invD(1) [OF assms(2)] by (simp_all add: cache_shape_def cache_conf_ok_def)
  note A = cache_invD(3) [OF assms(2), unfolded cache_account_def]
  have d: "distinct (map cx_pid ?l)" using A by blast
  have only: "cx_pid r = p" if "r \<in> set ?l" for r
  proof (rule ccontr)
    assume n: "cx_pid r \<noteq> p"
    have pos: "0 < sint (cx_pid r)" "0 < sint (cx_entries r)" using A that by auto
    then have "cx_pid r \<noteq> - 1" by auto
    then have "entry_count (cx_pid r) ?cs = 0" using assms(4) n by (force simp: entry_count_0_iff)
    moreover have "entries_of (cx_pid r) ?l = entry_count (cx_pid r) ?cs" using A pos(1) by blast
    ultimately show False using pos(2) entries_of_mem [OF d that] by simp
  qed
  have "?l = single_account p (entry_count p ?cs)"
  proof (cases ?l)
    case Nil
    then show ?thesis using A assms(3) by (auto simp: single_account_def entries_of_def)
  next
    case (Cons r l)
    then have p: "cx_pid r = p" "p \<notin> cx_pid ` set l" using only [of r] d by auto
    have "r' \<notin> set l" for r' using only [of r'] Cons p(2) by auto
    then have "l = []" by (metis list.set_intros(1) neq_Nil_conv)
    moreover have "sint (cx_entries r) = entry_count p ?cs"
      using conjunct2 [OF conjunct2 [OF A], rule_format, OF assms(3)] Cons p by (simp add: entries_of_def)
    moreover have "0 < sint (cx_entries r)" using A Cons by simp
    moreover have "cx_entries r = word_of_int (sint (cx_entries r))" by simp
    ultimately show ?thesis using Cons p by (cases r) (auto simp: single_account_def)
  qed
  then obtain ts where "flush_entries M 0 (length ?cs) st = Some (st\<lparr>cache_memory :=
       map (\<lambda>c. c\<lparr>cm_pid := - 1, cm_page := - 1\<rparr>) ?cs, last_used_time := ts, cache_x_process_list := []\<rparr>)"
    using mem_commons.flush_entries_single [OF assms(1), of 0 "length ?cs" st p] len assms(3,4) by auto
  then show ?thesis by (auto simp: flush_command_def len)
qed

theorem flush_command_single_process_witness:
  "\<exists>out st'. flush_command seq_mem_lib tiny_state = Some (out, st') \<and> memory st' = memory tiny_state"
  using flush_command_single_process [OF seq_mem.mem_commons_axioms tiny_state(2), of 2] by (auto simp: tiny_cache)

end
