(* ===== verification/Memoria_Run.thy ===== *)
theory Memoria_Run
  imports Memoria_Access
begin

text \<open>
  The memory process serving many clients.  Every connection has a thread of its own that runs \<open>process_request\<close>; one round of its
  loop, the code and the body of one request, is an atomic step here, and a run is a sequence of steps of the clients in any order.  A request is
  admissible when it names a process (a positive pid), does not overflow the 32-bit sums of the handlers, and, for a release, names a mapped page.
\<close>

section \<open>Steps and runs\<close>

record mem_server =
  ms_state :: mem_state
  ms_clients :: "int \<Rightarrow> sock"

definition atender_pedido :: "mem_lib \<Rightarrow> storage \<Rightarrow> int \<Rightarrow> mem_server \<Rightarrow> mem_server option" where
  "atender_pedido M junk client sv =
     (case recv_operation_code junk (ms_clients sv client) of
        (ope_code, s) \<Rightarrow>
          if ope_code = DISCONNECTED_CLIENT then Some (sv\<lparr>ms_clients := (ms_clients sv)(client := s)\<rparr>)
          else map_option (\<lambda>(s', st). sv\<lparr>ms_clients := (ms_clients sv)(client := s'), ms_state := st\<rparr>)
                 (serve_operation M junk client ope_code s (ms_state sv)))"

fun atender_pedidos :: "mem_lib \<Rightarrow> storage \<Rightarrow> int list \<Rightarrow> mem_server \<Rightarrow> mem_server option" where
  "atender_pedidos M junk [] sv = Some sv"
| "atender_pedidos M junk (c # cs) sv = do {
     sv1 \<leftarrow> atender_pedido M junk c sv;
     atender_pedidos M junk cs sv1 }"

section \<open>Admissible requests\<close>

definition access_ok :: "u32 \<Rightarrow> u32 \<Rightarrow> u32 \<Rightarrow> bool" where
  "access_ok pid off sz \<longleftrightarrow> 0 < sint pid \<and> unat off + unat sz < 2 ^ 32"

definition pages_ok :: "u32 \<Rightarrow> u32 \<Rightarrow> mem_state \<Rightarrow> bool" where
  "pages_ok pid n st \<longleftrightarrow> 0 < sint pid \<and> unat (page_count pid st) + nat (sint n) < 2 ^ 32"

definition pedido_ok :: "storage \<Rightarrow> int \<Rightarrow> sock \<Rightarrow> mem_state \<Rightarrow> bool" where
  "pedido_ok junk ope_code s st =
     (if ope_code = INIT_PROCESS_OC \<or> ope_code = ASSIGN_PAGE_OC
      then (let r = fst (init_process_recv_req junk s) in ip_exec_code r = DISCONNECTED_CLIENT \<or> pages_ok (ip_pid r) (ip_pages r) st)
      else if ope_code = READ_OC
      then (let r = fst (read_recv_req junk s) in rd_exec_code r = DISCONNECTED_CLIENT \<or> access_ok (rd_pid r) (rd_offset r) (rd_size r))
      else if ope_code = WRITE_OC
      then (let r = fst (write_recv_req junk s) in wr_exec_code r = DISCONNECTED_CLIENT \<or> access_ok (wr_pid r) (wr_offset r) (wr_size r))
      else if ope_code = DELETE_PAGE_OC
      then (let r = fst (delete_page_recv_req junk s) in dp_exec_code r = DISCONNECTED_CLIENT \<or> mapped st (dp_pid r) (dp_page r))
      else if ope_code = END_PROCESS_OC
      then (let r = fst (finalize_process_recv_req junk s) in fp_exec_code r = DISCONNECTED_CLIENT \<or> 0 < sint (fp_pid r))
      else True)"

fun pedidos_ok :: "mem_lib \<Rightarrow> storage \<Rightarrow> int list \<Rightarrow> mem_server \<Rightarrow> bool" where
  "pedidos_ok M junk [] sv = True"
| "pedidos_ok M junk (c # cs) sv =
     ((case recv_operation_code junk (ms_clients sv c) of
         (ope_code, s) \<Rightarrow> ope_code = DISCONNECTED_CLIENT \<or> pedido_ok junk ope_code s (ms_state sv)) \<and>
      (case atender_pedido M junk c sv of None \<Rightarrow> True | Some sv1 \<Rightarrow> pedidos_ok M junk cs sv1))"

section \<open>Every request keeps the invariants\<close>

definition mem_inv :: "mem_state \<Rightarrow> bool" where
  "mem_inv st \<longleftrightarrow> frame_inv st \<and> cache_inv st"

lemma mem_invD: "mem_inv st \<Longrightarrow> frame_inv st" "mem_inv st \<Longrightarrow> cache_inv st"
  by (simp_all add: mem_inv_def)

lemma bound_passed:
  assumes "\<not> (frame_size (memory_conf st) \<le> off \<or> frame_size (memory_conf st) < off + sz)" "unat off + unat sz < 2 ^ 32"
  shows "unat off + unat sz \<le> page_bytes st" "unat off < page_bytes st"
proof -
  have "unat (off + sz) = unat off + unat sz" using assms(2) by (simp add: unat_word_ariths)
  then show "unat off + unat sz \<le> page_bytes st" "unat off < page_bytes st"
    using assms(1) by (simp_all add: word_le_nat_alt word_less_nat_alt)
qed

lemma frame_inv_other [simp]:
  "frame_inv (st\<lparr>kernel_client := c, stack_size := n\<rparr>) = frame_inv st" "cache_inv (st\<lparr>kernel_client := c, stack_size := n\<rparr>) = cache_inv st"
  "frame_inv (st\<lparr>last_used_time := ts, time_calls := m\<rparr>) = frame_inv st"
  by (simp_all add: frame_inv_parts cache_inv_def cache_shape_def cache_valid_def cache_account_def mapped_def maps_def used_def user_frame_def)

lemma cache_inv_touch:
  assumes "cache_inv st" "e < length (cache_memory st)"
  shows "cache_inv (st\<lparr>last_used_time := (last_used_time st)[e := Some t], time_calls := m\<rparr>)"
  using assms by (auto simp: cache_inv_def cache_shape_def cache_valid_def cache_account_def Let_def nth_list_update)

context mem_commons
begin

lemma assign_keeps:
  assumes "mem_inv st" "pages_ok pid n st" "assign_pages_to_process M pid n init st = Some (rc, st')"
  shows "mem_inv st'"
proof (cases "int (length (available_frame_list st)) < sint n")
  case True
  then show ?thesis using assms(1,3) by (simp add: assign_pages_to_process_def)
next
  case False
  then show ?thesis using assign_pages_inv(1,2) [OF mem_invD [OF assms(1)] _ _ _ assms(3)] assms(2) by (simp add: pages_ok_def mem_inv_def)
qed

lemma fill_keeps:
  assumes inv: "mem_inv st" and pid: "0 < sint pid" and m: "mapped st pid page"
    and b: "unat off + unat sz \<le> page_bytes st" "unat sz \<le> length buf"
    and up: "update_cache M (Some (victim M pid page st)) pid page off sz buf st = Some st'"
  shows "mem_inv st'"
proof -
  note fc = mem_invD [OF inv]
  have "unat off < 2 ^ 31" "unat sz < 2 ^ 31" using b page_bytes_small [OF fc(1)] by simp_all
  then show ?thesis
    using update_cache_inv [OF fc(2) pid m victim_ok(1,2) [OF fc(2) pid] _ _ b refl] up fc(1)
    by (auto simp: mem_inv_def sint_nonneg_u32 split: if_splits)
qed

lemma write_keeps:
  assumes inv: "mem_inv st" and run: "write_page M junk client s st = Some (s', st')"
    and ok: "wr_exec_code (fst (write_recv_req junk s)) = DISCONNECTED_CLIENT \<or>
      access_ok (wr_pid (fst (write_recv_req junk s))) (wr_offset (fst (write_recv_req junk s))) (wr_size (fst (write_recv_req junk s)))"
  shows "mem_inv st'"
proof -
  note fc = mem_invD [OF inv]
  obtain w s1 where w: "write_recv_req junk s = (w, s1)" by fastforce
  show ?thesis
  proof (cases "wr_exec_code w = DISCONNECTED_CLIENT \<or> frame_size (memory_conf st) \<le> wr_offset w \<or> frame_size (memory_conf st) < wr_offset w + wr_size w")
    case True
    then show ?thesis using run inv by (auto simp: write_page_def w split: if_splits)
  next
    case False
    then have pid: "0 < sint (wr_pid w)" and b: "unat (wr_offset w) + unat (wr_size w) \<le> page_bytes st"
      using ok bound_passed [of st "wr_offset w" "wr_size w"] by (simp_all add: w access_ok_def)
    obtain res st1 where r: "writing_memory M w client st = Some (res, st1)"
      and st': "(if res = SUCCESS then writing_cache M w st1 else Some st1) = Some st'"
      using run False by (auto simp: write_page_def w bind_eq_Some_conv)
    show ?thesis
    proof (cases "res = SUCCESS")
      case False
      then show ?thesis using r st' inv
        by (auto simp: writing_memory_def Let_def split: option.splits if_splits)
    next
      case True
      then obtain f where f: "get_frame M (wr_pid w) (wr_page w) st = Some (Some f)"
        and allowed: "kernel_client st = client \<or> it_segment (get_reg (memory st) f) \<noteq> CODE_SEGMENT"
        and buf: "unat (wr_size w) \<le> length (wr_buffer w)"
        using r by (auto simp: writing_memory_def Let_def PAGE_FAULT_def SEGMENTATION_FAULT_def SUCCESS_def split: option.splits if_splits)
      have m: "maps st (wr_pid w) (wr_page w) f" using f get_frame_iff [OF fc(1) pid] by simp
      then have u: "used st f" by (simp add: maps_def)
      have st1: "st1 = poke f (unat (wr_offset w)) (take (unat (wr_size w)) (wr_buffer w)) st"
        using writing_memory_poke [OF fc(1) m allowed b buf] r by simp
      have bl: "unat (wr_offset w) + length (take (unat (wr_size w)) (wr_buffer w)) \<le> page_bytes st" using b buf by simp
      have inv1: "mem_inv st1"
        unfolding st1 mem_inv_def using poke_inv(1) [OF fc(1) u bl] cache_inv_poke [OF fc(1) u bl fc(2)] by simp
      have "mapped st1 (wr_pid w) (wr_page w)" using m poke_inv(2) [OF fc(1) u bl] by (auto simp: st1 mapped_def)
      then show ?thesis
        using fill_keeps [OF inv1 pid _ _ buf] st' b True writing_cache_victim [OF mem_invD(2) [OF inv1] pid] by (simp add: st1)
    qed
  qed
qed

lemma read_keeps:
  assumes inv: "mem_inv st" and run: "read_page M junk s st = Some (s', st')"
    and ok: "rd_exec_code (fst (read_recv_req junk s)) = DISCONNECTED_CLIENT \<or>
      access_ok (rd_pid (fst (read_recv_req junk s))) (rd_offset (fst (read_recv_req junk s))) (rd_size (fst (read_recv_req junk s)))"
  shows "mem_inv st'"
proof -
  note fc = mem_invD [OF inv]
  obtain r s1 where r: "read_recv_req junk s = (r, s1)" by fastforce
  show ?thesis
  proof (cases "rd_exec_code r = DISCONNECTED_CLIENT \<or> frame_size (memory_conf st) \<le> rd_offset r \<or> frame_size (memory_conf st) < rd_offset r + rd_size r")
    case True
    then show ?thesis using run inv by (auto simp: read_page_def r split: if_splits)
  next
    case False
    then have pid: "0 < sint (rd_pid r)" using ok by (simp add: r access_ok_def)
    show ?thesis
    proof (cases "get_cache_entry (rd_pid r) (rd_page r) st")
      case (Some e)
      then have e: "e < length (cache_memory st)" using find_index_SomeD [OF Some [unfolded get_cache_entry_def]] by simp
      obtain s2 where "read_cache_entry_and_send M r e s1 st = Some (s2, st')"
        using run False Some by (auto simp: read_page_def r reading_cache_def bind_eq_Some_conv)
      then show ?thesis
        using cache_inv_touch [OF fc(2) e] fc(1)
        by (auto simp: read_cache_entry_and_send_def mem_inv_def Let_def bind_eq_Some_conv split: if_splits)
    next
      case None
      then have rd: "readind_memory M r s1 st = Some (s', st')"
        using run False by (auto simp: read_page_def r reading_cache_def)
      show ?thesis
      proof (cases "get_frame M (rd_pid r) (rd_page r) st")
        case None
        then show ?thesis using rd by (simp add: readind_memory_def)
      next
        case (Some fo)
        then show ?thesis
        proof (cases fo)
        case None
        then show ?thesis using rd inv Some by (auto simp: readind_memory_def)
      next
        case (Some f)
        note Some = \<open>get_frame M (rd_pid r) (rd_page r) st = Some fo\<close> [unfolded Some]
        then have m: "maps st (rd_pid r) (rd_page r) f" using get_frame_iff [OF fc(1) pid] by simp
        have f: "f < n_frames st" using maps_frame [OF m] by simp
        have "frame_pos (memory_conf st) f = f * page_bytes st"
          by (rule frame_pos_eq [OF inv_shapeD(1) [OF frame_invD(1) [OF fc(1)]] f])
        then have len: "page_bytes st \<le> length (drop (frame_pos (memory_conf st) f) (memory st))"
          using frame_in_memory [OF frame_invD(1) [OF fc(1)] f] by simp
        have up: "update_cache M (Some (victim M (rd_pid r) (rd_page r) st)) (rd_pid r) (rd_page r) 0 (frame_size (memory_conf st))
            (drop (frame_pos (memory_conf st) f) (memory st)) st = Some st'"
          using rd Some victim_ok(3) [OF fc(2) pid \<open>get_cache_entry (rd_pid r) (rd_page r) st = None\<close>]
          by (auto simp: readind_memory_def Let_def bind_eq_Some_conv split: if_splits)
        have "mapped st (rd_pid r) (rd_page r)" using m by (auto simp: mapped_def)
        from fill_keeps [OF inv pid this _ _ up] len show ?thesis by simp
      qed
      qed
    qed
  qed
qed

lemma delete_keeps:
  assumes inv: "mem_inv st" and run: "delete_page M junk s st = Some (s', st')"
    and ok: "dp_exec_code (fst (delete_page_recv_req junk s)) = DISCONNECTED_CLIENT \<or>
      mapped st (dp_pid (fst (delete_page_recv_req junk s))) (dp_page (fst (delete_page_recv_req junk s)))"
  shows "mem_inv st'"
proof -
  obtain d s1 where d: "delete_page_recv_req junk s = (d, s1)" by fastforce
  show ?thesis
  proof (cases "dp_exec_code d = DISCONNECTED_CLIENT")
    case True
    then show ?thesis using run inv by (simp add: delete_page_def d)
  next
    case False
    then obtain f where "maps st (dp_pid d) (dp_page d) f" using ok by (auto simp: d mapped_def)
    from delete_page_process_ok [OF mem_invD [OF inv] this] show ?thesis
      using run False by (auto simp: delete_page_def d mem_inv_def)
  qed
qed

lemma serve_keeps:
  assumes inv: "mem_inv st" and ok: "pedido_ok junk oc s st" and run: "serve_operation M junk client oc s st = Some (s', st')"
  shows "mem_inv st'"
proof -
  note oc = HANDSHAKE_OC_def INIT_PROCESS_OC_def READ_OC_def WRITE_OC_def ASSIGN_PAGE_OC_def DELETE_PAGE_OC_def END_PROCESS_OC_def
  consider (handshake) "oc = HANDSHAKE_OC" | (start) "oc = INIT_PROCESS_OC" | (rd) "oc = READ_OC" | (wr) "oc = WRITE_OC"
    | (assign) "oc = ASSIGN_PAGE_OC" | (delete) "oc = DELETE_PAGE_OC" | (finish) "oc = END_PROCESS_OC"
    | (other) "oc \<notin> {HANDSHAKE_OC, INIT_PROCESS_OC, READ_OC, WRITE_OC, ASSIGN_PAGE_OC, DELETE_PAGE_OC, END_PROCESS_OC}" by blast
  then show ?thesis
  proof cases
    case handshake
    then show ?thesis using run inv by (auto simp: serve_operation_def mem_handshake_def mem_inv_def split: prod.splits if_splits)
  next
    case start
    then have "inicialize_process M junk s st = Some (s', st')" using run by (simp add: serve_operation_def oc)
    then show ?thesis using inv ok assign_keeps [OF inv]
      by (auto simp: inicialize_process_def pedido_ok_def start Let_def bind_eq_Some_conv split: prod.splits if_splits)
  next
    case assign
    then have "assign_page M junk s st = Some (s', st')" using run by (simp add: serve_operation_def oc)
    then show ?thesis using inv ok assign_keeps [OF inv]
      by (auto simp: assign_page_def pedido_ok_def assign Let_def bind_eq_Some_conv split: prod.splits if_splits)
  next
    case rd
    then show ?thesis using read_keeps [OF inv, of junk s s' st'] run ok by (simp add: serve_operation_def pedido_ok_def oc Let_def)
  next
    case wr
    then show ?thesis using write_keeps [OF inv, of junk client s s' st'] run ok by (simp add: serve_operation_def pedido_ok_def oc Let_def)
  next
    case delete
    then show ?thesis using delete_keeps [OF inv, of junk s s' st'] run ok by (simp add: serve_operation_def pedido_ok_def oc Let_def)
  next
    case finish
    then have "finalize_process M junk s st = Some (s', st')" using run by (simp add: serve_operation_def oc)
    then show ?thesis using inv ok cleaning_process_entries_ok [OF mem_invD [OF inv]]
      by (fastforce simp: finalize_process_def pedido_ok_def finish oc Let_def mem_inv_def bind_eq_Some_conv split: prod.splits if_splits)
  next
    case other
    then show ?thesis using run inv by (simp add: serve_operation_def)
  qed
qed

lemma run_keeps:
  assumes "atender_pedidos M junk cs sv = Some sv'" "pedidos_ok M junk cs sv" "mem_inv (ms_state sv)"
  shows "mem_inv (ms_state sv')"
  using assms
proof (induction cs arbitrary: sv)
  case (Cons c cs)
  then obtain sv1 where sv1: "atender_pedido M junk c sv = Some sv1" "atender_pedidos M junk cs sv1 = Some sv'"
    by (auto simp: bind_eq_Some_conv)
  obtain oc s where r: "recv_operation_code junk (ms_clients sv c) = (oc, s)" by fastforce
  have "mem_inv (ms_state sv1)"
  proof (cases "oc = DISCONNECTED_CLIENT")
    case True
    then show ?thesis using sv1(1) Cons.prems(3) by (auto simp: atender_pedido_def r)
  next
    case False
    then obtain s' where "serve_operation M junk c oc s (ms_state sv) = Some (s', ms_state sv1)"
      using sv1(1) by (auto simp: atender_pedido_def r)
    then show ?thesis using serve_keeps [OF Cons.prems(3), of junk oc s c s' "ms_state sv1"] Cons.prems(2) False by (simp add: r)
  qed
  then show ?case using Cons.IH [OF sv1(2)] Cons.prems(2) sv1(1) by simp
qed simp

end

section \<open>A thread is a run of one client\<close>

lemma thread_run:
  assumes "process_request M junk client s st = Some (s', st')" and "ms_clients sv client = s" and "ms_state sv = st"
  shows "\<exists>n. atender_pedidos M junk (replicate n client) sv =
    Some (sv\<lparr>ms_clients := (ms_clients sv)(client := s'), ms_state := st'\<rparr>)"
  using assms
proof (induction M junk client s st arbitrary: sv rule: process_request.induct)
  case (1 M junk client s st)
  obtain oc s1 where r: "recv_operation_code junk s = (oc, s1)" by fastforce
  show ?case
  proof (cases "oc = DISCONNECTED_CLIENT")
    case True
    then have "s1 = s'" "st = st'" using "1.prems"(1) by (subst (asm) process_request.simps, simp add: r)+
    then show ?thesis using True r "1.prems"(2,3) by (intro exI [of _ 1]) (cases sv, simp add: atender_pedido_def fun_upd_def)
  next
    case False
    then obtain s2 st2 where so: "serve_operation M junk client oc s1 st = Some (s2, st2)"
      and pr: "process_request M junk client s2 st2 = Some (s', st')"
      using "1.prems"(1) by (subst (asm) process_request.simps) (auto simp: r split: option.splits)
    let ?sv = "sv\<lparr>ms_clients := (ms_clients sv)(client := s2), ms_state := st2\<rparr>"
    have "\<exists>n. atender_pedidos M junk (replicate n client) ?sv =
        Some (?sv\<lparr>ms_clients := (ms_clients ?sv)(client := s'), ms_state := st'\<rparr>)"
      by (rule "1.IH" [OF r [symmetric] False so refl pr]) simp_all
    then obtain n where "atender_pedidos M junk (replicate n client) ?sv =
        Some (?sv\<lparr>ms_clients := (ms_clients ?sv)(client := s'), ms_state := st'\<rparr>)" by (rule exE)
    moreover have "atender_pedido M junk client sv = Some ?sv" using "1.prems"(2,3) False so by (simp add: atender_pedido_def r)
    ultimately show ?thesis by (intro exI [of _ "Suc n"]) (simp add: fun_upd_def cong: if_cong)
  qed
qed

section \<open>Properties of the server\<close>

text \<open>
  C15: The memory process keeps its invariants whatever its clients do.  From the state that start-up builds, after any number of admissible requests of
  any number of clients in any order, with whatever else in their messages, the inverted table, its overflow lists, the list of
  available frames, the page counts and the cache with its accounting are consistent.
\<close>

theorem memory_server_invariant:
  assumes "mem_commons M" and "conf_ok c" and "cache_conf_ok c" and "load M junk c = Some st"
    and "atender_pedidos M junk cs \<lparr>ms_state = st, ms_clients = clients\<rparr> = Some sv'"
    and "pedidos_ok M junk cs \<lparr>ms_state = st, ms_clients = clients\<rparr>"
  shows "frame_inv (ms_state sv') \<and> cache_inv (ms_state sv')"
proof -
  have "mem_inv st"
    using mem_commons.load_inv [OF assms(1,2), of junk] mem_commons.load_cache_inv [OF assms(1-4)] assms(4) by (auto simp: mem_inv_def)
  with mem_commons.run_keeps [OF assms(1,5,6)] show ?thesis by (simp add: mem_inv_def)
qed

theorem memory_server_invariant_witness:
  "\<exists>sv'. atender_pedidos seq_mem_lib (\<lambda>_. 0) [1, 3]
      \<lparr>ms_state = the (load seq_mem_lib (\<lambda>_. 0) tiny_conf),
       ms_clients = (\<lambda>c. \<lparr>sk_in = (if c = 1 then [oc_byte INIT_PROCESS_OC] @ init_body (2, 1) else []), sk_out = []\<rparr>)\<rparr> = Some sv' \<and>
    frame_inv (ms_state sv') \<and> cache_inv (ms_state sv')"
proof -
  obtain st where st: "load seq_mem_lib (\<lambda>_. 0) tiny_conf = Some st" "pages_per_process_list st = []" "frame_inv st"
    using seq_mem.load_inv [OF tiny_conf_ok(1), of "\<lambda>_. 0"] unfolding tiny_conf_ok(2) tiny_lists by blast
  let ?cl = "\<lambda>c :: int. \<lparr>sk_in = (if c = 1 then [oc_byte INIT_PROCESS_OC] @ init_body (2, 1) else []), sk_out = []\<rparr>"
  have code: "recv_operation_code (\<lambda>_. 0) \<lparr>sk_in = oc_byte INIT_PROCESS_OC # init_body (2, 1), sk_out = []\<rparr> =
      (INIT_PROCESS_OC, \<lparr>sk_in = init_body (2, 1), sk_out = []\<rparr>)"
    using oc_byte_code [of INIT_PROCESS_OC] by (simp add: recv_operation_code_def recv_storage_def socket_recv_def INIT_PROCESS_OC_def)
  have closed: "recv_operation_code (\<lambda>_. 0) \<lparr>sk_in = [], sk_out = []\<rparr> = (DISCONNECTED_CLIENT, \<lparr>sk_in = [], sk_out = []\<rparr>)"
    by (simp add: recv_operation_code_def)
  have body: "init_process_recv_req (\<lambda>_. 0) \<lparr>sk_in = init_body (2, 1), sk_out = []\<rparr> =
      (\<lparr>ip_exec_code = SUCCESS, ip_pid = 2, ip_pages = 1\<rparr>, \<lparr>sk_in = [], sk_out = []\<rparr>)"
    using init_wire.parse_body [OF TrueI, of "\<lparr>sk_in = init_body (2, 1), sk_out = []\<rparr>" "(2, 1)" "[]" "\<lambda>_. 0"] by simp
  have "hash_ok 2 (page_count 2 st + word_of_nat k)" if "int k < sint (1 :: u32)" for k
    using that tiny_hash(3) by (simp add: page_count_def st(2))
  from seq_mem.assign_pages_some [OF st(3) this, where init = True] obtain rc st1 where
    "assign_pages_to_process seq_mem_lib 2 1 True st = Some (rc, st1)" by blast
  then obtain sv' where sv': "atender_pedidos seq_mem_lib (\<lambda>_. 0) [1, 3] \<lparr>ms_state = st, ms_clients = ?cl\<rparr> = Some sv'"
    and ok: "pedidos_ok seq_mem_lib (\<lambda>_. 0) [1, 3] \<lparr>ms_state = st, ms_clients = ?cl\<rparr>"
    using closed
    by (simp add: atender_pedido_def code [unfolded source_consts] serve_operation_def inicialize_process_def body pedido_ok_def pages_ok_def page_count_def st(2)
        source_consts split: prod.splits)
  from memory_server_invariant [OF seq_mem.mem_commons_axioms tiny_conf_ok(1,3) st(1) sv' ok] sv' show ?thesis by (simp add: st(1))
qed

end
