(* ===== verification/Cerrojos.thy ===== *)
theory Cerrojos
  imports Prelude "HOL-Library.Multiset"
begin

text \<open>
  Threads that share a state and take locks, as \<open>pthread_mutex_lock\<close> and \<open>pthread_rwlock_rdlock\<close>, \<open>pthread_rwlock_wrlock\<close> do.  What a
  thread still has to do is a tree: it ends with a result, takes a lock, gives a lock back, or acts on the shared state in one atomic step and goes on
  depending on what it saw.  An action that is undefined, or that never ends, is \<open>None\<close>.  A mutex is a lock that is only
  taken exclusively.
\<close>

section \<open>Threads and locks\<close>

datatype modo = Compartido | Exclusivo

datatype ('c, 's, 'r) hilo =
    Listo 'r
  | Tomar 'c modo "('c, 's, 'r) hilo"
  | Soltar 'c "('c, 's, 'r) hilo"
  | Hacer "'s \<Rightarrow> 's option" "'s \<Rightarrow> ('c, 's, 'r) hilo"

text \<open>An action that only looks at the state, and one that has a result beside its effect.\<close>

abbreviation Mirar :: "('s \<Rightarrow> ('c, 's, 'r) hilo) \<Rightarrow> ('c, 's, 'r) hilo" where
  "Mirar \<equiv> Hacer Some"

definition Obrar :: "('s \<Rightarrow> ('a \<times> 's) option) \<Rightarrow> ('a \<Rightarrow> ('c, 's, 'r) hilo) \<Rightarrow> ('c, 's, 'r) hilo" where
  "Obrar g k = Hacer (\<lambda>s. map_option snd (g s)) (\<lambda>s. k (fst (the (g s))))"

record ('c, 's, 'r) tarea =
  pendiente :: "('c, 's, 'r) hilo"
  tomados :: "('c \<times> modo) list"

record ('c, 's, 'r) sistema =
  compartido :: 's
  tareas :: "('c, 's, 'r) tarea list"

primrec quitar :: "'c \<Rightarrow> ('c \<times> modo) list \<Rightarrow> ('c \<times> modo) list" where
  "quitar c [] = []"
| "quitar c (p # ps) = (if fst p = c then ps else p # quitar c ps)"

definition compatible :: "'c \<Rightarrow> modo \<Rightarrow> 'c \<times> modo \<Rightarrow> bool" where
  "compatible c m p \<longleftrightarrow> (fst p = c \<longrightarrow> m = Compartido \<and> snd p = Compartido)"

definition libre :: "'c \<Rightarrow> modo \<Rightarrow> ('c, 's, 'r) sistema \<Rightarrow> bool" where
  "libre c m sys \<longleftrightarrow> list_all (\<lambda>t. list_all (compatible c m) (tomados t)) (tareas sys)"

text \<open>A step of thread \<open>i\<close>; \<open>None\<close> when it has ended, has to wait for a lock, or is at an undefined action.\<close>

definition paso :: "nat \<Rightarrow> ('c, 's, 'r) sistema \<Rightarrow> ('c, 's, 'r) sistema option" where
  "paso i sys =
     (if i < length (tareas sys) then
        (let t = tareas sys ! i in
         case pendiente t of
           Listo r \<Rightarrow> None
         | Tomar c m h \<Rightarrow>
             if libre c m sys then Some (sys\<lparr>tareas := (tareas sys)[i := \<lparr>pendiente = h, tomados = (c, m) # tomados t\<rparr>]\<rparr>) else None
         | Soltar c h \<Rightarrow>
             if c \<in> fst ` set (tomados t)
             then Some (sys\<lparr>tareas := (tareas sys)[i := \<lparr>pendiente = h, tomados = quitar c (tomados t)\<rparr>]\<rparr>) else None
         | Hacer a k \<Rightarrow>
             map_option (\<lambda>s. sys\<lparr>compartido := s, tareas := (tareas sys)[i := \<lparr>pendiente = k (compartido sys), tomados = tomados t\<rparr>]\<rparr>)
               (a (compartido sys)))
      else None)"

text \<open>A schedule lets threads go on and new ones arrive.\<close>

datatype ('c, 's, 'r) turno = Avanza nat | Llega "('c, 's, 'r) hilo"

fun correr :: "('c, 's, 'r) turno list \<Rightarrow> ('c, 's, 'r) sistema \<Rightarrow> ('c, 's, 'r) sistema option" where
  "correr [] sys = Some sys"
| "correr (Avanza i # ts) sys = do { sys1 \<leftarrow> paso i sys; correr ts sys1 }"
| "correr (Llega h # ts) sys = correr ts (sys\<lparr>tareas := tareas sys @ [\<lparr>pendiente = h, tomados = []\<rparr>]\<rparr>)"

definition terminada :: "('c, 's, 'r) tarea \<Rightarrow> bool" where
  "terminada t \<longleftrightarrow> (case pendiente t of Listo r \<Rightarrow> True | _ \<Rightarrow> False)"

text \<open>The next action of a thread has no result: the code has undefined behaviour there, or stays there.\<close>

definition atascada :: "('c, 's, 'r) sistema \<Rightarrow> ('c, 's, 'r) tarea \<Rightarrow> bool" where
  "atascada sys t \<longleftrightarrow> (case pendiente t of Hacer a k \<Rightarrow> a (compartido sys) = None | _ \<Rightarrow> False)"

section \<open>A discipline of locks\<close>

text \<open>
  A thread with the locks \<open>H\<close> is disciplined when it only takes a lock that is above all it holds, only gives back what it holds, and ends with nothing.
\<close>

primrec ordenado :: "('c :: linorder, 's, 'r) hilo \<Rightarrow> ('c \<times> modo) list \<Rightarrow> bool" where
  "ordenado (Listo r) H \<longleftrightarrow> H = []"
| "ordenado (Tomar c m h) H \<longleftrightarrow> (\<forall>p \<in> set H. fst p < c) \<and> ordenado h ((c, m) # H)"
| "ordenado (Soltar c h) H \<longleftrightarrow> c \<in> fst ` set H \<and> ordenado h (quitar c H)"
| "ordenado (Hacer a k) H \<longleftrightarrow> (\<forall>s. a s \<noteq> None \<longrightarrow> ordenado (k s) H)"

definition disciplinado :: "('c :: linorder, 's, 'r) sistema \<Rightarrow> bool" where
  "disciplinado sys \<longleftrightarrow> (\<forall>t \<in> set (tareas sys). ordenado (pendiente t) (tomados t))"

text \<open>No two threads hold a lock that one of them has exclusively.\<close>

definition excluyente :: "('c, 's, 'r) sistema \<Rightarrow> bool" where
  "excluyente sys \<longleftrightarrow> (\<forall>i < length (tareas sys). \<forall>j < length (tareas sys). i \<noteq> j \<longrightarrow>
     (\<forall>p \<in> set (tomados (tareas sys ! i)). \<forall>q \<in> set (tomados (tareas sys ! j)). compatible (fst p) (snd p) q))"

lemma in_quitar: "p \<in> set (quitar c ps) \<Longrightarrow> p \<in> set ps"
  by (induction ps) (auto split: if_splits)

lemma pasoE:
  assumes "paso i sys = Some sys'"
  obtains t t' where "i < length (tareas sys)" "t = tareas sys ! i" "tareas sys' = (tareas sys)[i := t']"
    "(\<exists>c m h. pendiente t = Tomar c m h \<and> libre c m sys \<and> t' = \<lparr>pendiente = h, tomados = (c, m) # tomados t\<rparr> \<and> compartido sys' = compartido sys) \<or>
     (\<exists>c h. pendiente t = Soltar c h \<and> c \<in> fst ` set (tomados t) \<and> t' = \<lparr>pendiente = h, tomados = quitar c (tomados t)\<rparr> \<and>
        compartido sys' = compartido sys) \<or>
     (\<exists>a k. pendiente t = Hacer a k \<and> a (compartido sys) = Some (compartido sys') \<and>
        t' = \<lparr>pendiente = k (compartido sys), tomados = tomados t\<rparr>)"
proof -
  have "i < length (tareas sys)" using assms by (auto simp: paso_def split: if_splits)
  with assms that [of "tareas sys ! i"] show ?thesis
    by (auto simp: paso_def Let_def split: hilo.splits if_splits)
qed

lemma paso_disciplinado:
  assumes "disciplinado sys" "paso i sys = Some sys'"
  shows "disciplinado sys'"
  using assms(2)
proof (cases rule: pasoE)
  case (1 t t')
  have "ordenado (pendiente t) (tomados t)" using assms(1) 1(1,2) by (auto simp: disciplinado_def)
  then have "ordenado (pendiente t') (tomados t')" using 1(4) by auto
  then show ?thesis using assms(1) by (auto simp: disciplinado_def 1(3) dest!: set_update_subset_insert [THEN subsetD])
qed

lemma libreD: "libre c m sys \<Longrightarrow> t \<in> set (tareas sys) \<Longrightarrow> p \<in> set (tomados t) \<Longrightarrow> compatible c m p"
  by (auto simp: libre_def list_all_iff)

lemma compatible_sym: "compatible (fst p) (snd p) q \<longleftrightarrow> compatible (fst q) (snd q) p"
  by (auto simp: compatible_def)

lemma paso_excluyente:
  assumes "excluyente sys" "paso i sys = Some sys'"
  shows "excluyente sys'"
  using assms(2)
proof (cases rule: pasoE)
  case (1 t t')
  have new: "compatible (fst p) (snd p) q"
    if "p \<in> set (tomados t')" "j < length (tareas sys)" "j \<noteq> i" "q \<in> set (tomados (tareas sys ! j))" for p q j
  proof (cases "p \<in> set (tomados t)")
    case True
    then show ?thesis using assms(1) 1(1,2) that by (auto simp: excluyente_def)
  next
    case False
    then have "libre (fst p) (snd p) sys" using 1(4) that(1) by (auto dest: in_quitar)
    then show ?thesis by (rule libreD [OF _ nth_mem [OF that(2)] that(4)])
  qed
  show ?thesis
    unfolding excluyente_def 1(3)
  proof (intro allI impI ballI)
    fix a b p q
    assume ab: "a < length ((tareas sys)[i := t'])" "b < length ((tareas sys)[i := t'])" "a \<noteq> b"
      and p: "p \<in> set (tomados ((tareas sys)[i := t'] ! a))" and q: "q \<in> set (tomados ((tareas sys)[i := t'] ! b))"
    consider "a = i" | "b = i" "a \<noteq> i" | "a \<noteq> i" "b \<noteq> i" by blast
    then show "compatible (fst p) (snd p) q"
    proof cases
      case 1
      with ab p q show ?thesis by (auto intro: new)
    next
      case 2
      with ab p q have "compatible (fst q) (snd q) p" by (auto intro: new)
      then show ?thesis by (simp only: compatible_sym)
    next
      case 3
      with ab p q assms(1) show ?thesis by (auto simp: excluyente_def)
    qed
  qed
qed

lemma correr_disciplinado:
  assumes "correr ts sys = Some sys'" "disciplinado sys" "excluyente sys" "\<forall>h. Llega h \<in> set ts \<longrightarrow> ordenado h []"
  shows "disciplinado sys' \<and> excluyente sys'"
  using assms
proof (induction ts sys rule: correr.induct)
  case (2 i ts sys)
  then show ?case using paso_disciplinado paso_excluyente by (fastforce simp: bind_eq_Some_conv)
next
  case (3 h ts sys)
  have "excluyente (sys\<lparr>tareas := tareas sys @ [\<lparr>pendiente = h, tomados = []\<rparr>]\<rparr>)"
    using 3(4) by (auto simp: excluyente_def nth_append less_Suc_eq)
  then show ?case using 3 by (auto simp: disciplinado_def)
qed simp_all

section \<open>No deadlock\<close>

text \<open>
  Take the waiting thread whose lock is the highest: who holds that lock does not wait, since it would wait for a higher one.
\<close>

theorem sin_abrazo_mortal:
  assumes "disciplinado sys"
  shows "list_all terminada (tareas sys) \<or> (\<exists>i. paso i sys \<noteq> None) \<or> list_ex (atascada sys) (tareas sys)"
proof (rule ccontr)
  assume "\<not> ?thesis"
  then have stuck: "\<And>i. paso i sys = None" and some: "\<exists>t \<in> set (tareas sys). \<not> terminada t"
    and fine: "\<And>t. t \<in> set (tareas sys) \<Longrightarrow> \<not> atascada sys t"
    by (auto simp: list_all_iff list_ex_iff)
  define W where "W = {c. \<exists>t m h. t \<in> set (tareas sys) \<and> pendiente t = Tomar c m h \<and> \<not> libre c m sys}"
  have waits: "\<exists>c m h. pendiente t = Tomar c m h \<and> \<not> libre c m sys" if a: "t \<in> set (tareas sys)" "\<not> terminada t" for t
  proof -
    obtain i where i: "i < length (tareas sys)" "tareas sys ! i = t" using a(1) by (auto simp: in_set_conv_nth)
    have "ordenado (pendiente t) (tomados t)" using assms a(1) by (simp add: disciplinado_def)
    then show ?thesis using stuck [of i] i(1) a(2) fine [OF a(1)]
      by (auto simp: paso_def Let_def i(2) terminada_def atascada_def split: hilo.splits if_splits)
  qed
  have "W \<subseteq> (\<lambda>t. case pendiente t of Tomar c m h \<Rightarrow> c) ` set (tareas sys)"
    unfolding W_def by force
  then have fin: "finite W" by (rule finite_subset) simp
  have "W \<noteq> {}" using some waits by (fastforce simp: W_def)
  then have max: "Max W \<in> W" using fin by simp
  then obtain t m h where t: "t \<in> set (tareas sys)" "pendiente t = Tomar (Max W) m h" "\<not> libre (Max W) m sys" by (auto simp: W_def)
  then obtain u p where u: "u \<in> set (tareas sys)" "p \<in> set (tomados u)" "fst p = Max W"
    by (auto simp: libre_def list_all_iff compatible_def)
  have od: "ordenado (pendiente u) (tomados u)" using assms u(1) by (simp add: disciplinado_def)
  have "\<not> terminada u" using od u(2) by (auto simp: terminada_def split: hilo.splits)
  then obtain c m' h' where c: "pendiente u = Tomar c m' h'" "\<not> libre c m' sys" using waits u(1) by blast
  then have "Max W < c" using od u(2,3) by auto
  moreover have "c \<in> W" using c u(1) by (auto simp: W_def)
  ultimately show False using Max_ge [OF fin, of c] by simp
qed

section \<open>Every run ends\<close>

inductive_set sigue_a :: "(('c, 's, 'r) hilo \<times> ('c, 's, 'r) hilo) set" where
  "(h, Tomar c m h) \<in> sigue_a"
| "(h, Soltar c h) \<in> sigue_a"
| "(k s, Hacer a k) \<in> sigue_a"

lemma wf_sigue_a: "wf (sigue_a :: (('c, 's, 'r) hilo \<times> ('c, 's, 'r) hilo) set)"
proof (rule wfUNIVI)
  fix P :: "('c, 's, 'r) hilo \<Rightarrow> bool" and h
  assume step: "\<forall>h. (\<forall>g. (g, h) \<in> sigue_a \<longrightarrow> P g) \<longrightarrow> P h"
  show "P h"
  proof (induction h)
    case (Hacer a k)
    then show ?case by (intro step [THEN spec, THEN mp]) (auto elim: sigue_a.cases)
  next
    case (Listo r)
    then show ?case by (intro step [THEN spec, THEN mp]) (auto elim: sigue_a.cases)
  next
    case (Tomar c m g)
    then show ?case by (intro step [THEN spec, THEN mp]) (auto elim: sigue_a.cases)
  next
    case (Soltar c g)
    then show ?case by (intro step [THEN spec, THEN mp]) (auto elim: sigue_a.cases)
  qed
qed

definition avance :: "(('c, 's, 'r) sistema \<times> ('c, 's, 'r) sistema) set" where
  "avance = {(sys', sys). \<exists>i. paso i sys = Some sys'}"

lemma wf_avance: "wf (avance :: (('c, 's, 'r) sistema \<times> ('c, 's, 'r) sistema) set)"
proof (rule wf_subset)
  let ?m = "inv_image (mult sigue_a) (\<lambda>sys :: ('c, 's, 'r) sistema. image_mset pendiente (mset (tareas sys)))"
  show "wf ?m"
    by (intro wf_inv_image wf_mult wf_sigue_a)
  show "avance \<subseteq> ?m"
  proof safe
    fix sys sys' :: "('c, 's, 'r) sistema"
    assume "(sys', sys) \<in> avance"
    then obtain i where "paso i sys = Some sys'" by (auto simp: avance_def)
    then show "(sys', sys) \<in> ?m"
    proof (cases rule: pasoE)
      case (1 t t')
      have "(pendiente t', pendiente t) \<in> sigue_a" using 1(4) by (auto intro: sigue_a.intros)
      moreover have "image_mset pendiente (mset (tareas sys)) = image_mset pendiente (mset (tareas sys) - {#t#}) + {#pendiente t#}"
        using 1(1,2) by (simp flip: image_mset_add_mset)
      moreover have "image_mset pendiente (mset (tareas sys')) = image_mset pendiente (mset (tareas sys) - {#t#}) + {#pendiente t'#}"
        using 1(1,2) by (simp add: 1(3) mset_update)
      ultimately show ?thesis
        by (simp only: in_inv_image) (rule one_step_implies_mult, auto)
    qed
  qed
qed

lemma ordenado_Obrar [simp]: "ordenado (Obrar g k) H \<longleftrightarrow> (\<forall>s a s'. g s = Some (a, s') \<longrightarrow> ordenado (k a) H)"
  by (fastforce simp: Obrar_def)

section \<open>A thread alone\<close>

text \<open>What a thread does when no other one moves; no lock makes it wait.\<close>

primrec solo :: "('c, 's, 'r) hilo \<Rightarrow> 's \<Rightarrow> ('r \<times> 's) option" where
  "solo (Listo r) s = Some (r, s)"
| "solo (Tomar c m h) s = solo h s"
| "solo (Soltar c h) s = solo h s"
| "solo (Hacer a k) s = (case a s of None \<Rightarrow> None | Some s' \<Rightarrow> solo (k s) s')"

lemma solo_Obrar [simp]: "solo (Obrar g k) s = (case g s of None \<Rightarrow> None | Some (a, s') \<Rightarrow> solo (k a) s')"
  by (simp add: Obrar_def split: option.splits)

text \<open>
  Steps of one thread while the others, who hold the locks \<open>X\<close>, do not move: the thread goes on from what it has to do, the locks it holds and the
  shared state.
\<close>

inductive anda :: "('c \<times> modo) list \<Rightarrow> ('c, 's, 'r) hilo \<Rightarrow> ('c \<times> modo) list \<Rightarrow> 's \<Rightarrow>
    ('c, 's, 'r) hilo \<Rightarrow> ('c \<times> modo) list \<Rightarrow> 's \<Rightarrow> bool" for X where
  aqui: "anda X h H s h H s"
| toma: "list_all (compatible c m) (X @ H) \<Longrightarrow> anda X h ((c, m) # H) s h' H' s' \<Longrightarrow> anda X (Tomar c m h) H s h' H' s'"
| suelta: "c \<in> fst ` set H \<Longrightarrow> anda X h (quitar c H) s h' H' s' \<Longrightarrow> anda X (Soltar c h) H s h' H' s'"
| hace: "a s = Some s1 \<Longrightarrow> anda X (k s) H s1 h' H' s' \<Longrightarrow> anda X (Hacer a k) H s h' H' s'"

lemma anda_Obrar: "g s = Some (a, s1) \<Longrightarrow> anda X (k a) H s1 h' H' s' \<Longrightarrow> anda X (Obrar g k) H s h' H' s'"
  by (simp add: Obrar_def anda.hace)

lemma anda_Mirar: "anda X (k s) H s h' H' s' \<Longrightarrow> anda X (Mirar k) H s h' H' s'"
  by (rule anda.hace) simp_all

lemma anda_trans: "anda X h H s h1 H1 s1 \<Longrightarrow> anda X h1 H1 s1 h2 H2 s2 \<Longrightarrow> anda X h H s h2 H2 s2"
  by (induction rule: anda.induct) (auto intro: anda.intros)

lemma anda_correr:
  assumes "anda X h H s h' H' s'" "i < length ts" "ts ! i = \<lparr>pendiente = h, tomados = H\<rparr>"
    and "\<forall>j < length ts. j \<noteq> i \<longrightarrow> set (tomados (ts ! j)) \<subseteq> set X"
  shows "\<exists>n. correr (replicate n (Avanza i)) \<lparr>compartido = s, tareas = ts\<rparr> =
    Some \<lparr>compartido = s', tareas = ts[i := \<lparr>pendiente = h', tomados = H'\<rparr>]\<rparr>"
  using assms
proof (induction arbitrary: ts rule: anda.induct)
  case (aqui h H s)
  then show ?case by (metis correr.simps(1) list_update_id replicate_0)
next
  case (toma c m H h s h' H' s')
  have "libre c m \<lparr>compartido = s, tareas = ts\<rparr>"
    unfolding libre_def list_all_iff
  proof (intro ballI)
    fix t p
    assume t: "t \<in> set (tareas \<lparr>compartido = s, tareas = ts\<rparr>)" "p \<in> set (tomados t)"
    then obtain j where "j < length ts" "t = ts ! j" by (auto simp: in_set_conv_nth)
    with t(2) toma.prems have "p \<in> set (X @ H)" by (cases "j = i") auto
    with toma.hyps(1) show "compatible c m p" by (simp add: list_all_iff)
  qed
  then have p: "paso i \<lparr>compartido = s, tareas = ts\<rparr> = Some \<lparr>compartido = s, tareas = ts[i := \<lparr>pendiente = h, tomados = (c, m) # H\<rparr>]\<rparr>"
    using toma.prems by (simp add: paso_def)
  from toma.IH [of "ts[i := \<lparr>pendiente = h, tomados = (c, m) # H\<rparr>]"] toma.prems obtain n where
    "correr (replicate n (Avanza i)) \<lparr>compartido = s, tareas = ts[i := \<lparr>pendiente = h, tomados = (c, m) # H\<rparr>]\<rparr> =
      Some \<lparr>compartido = s', tareas = ts[i := \<lparr>pendiente = h', tomados = H'\<rparr>]\<rparr>" by auto
  with p show ?case by (intro exI [of _ "Suc n"]) simp
next
  case (suelta c H h s h' H' s')
  then have p: "paso i \<lparr>compartido = s, tareas = ts\<rparr> = Some \<lparr>compartido = s, tareas = ts[i := \<lparr>pendiente = h, tomados = quitar c H\<rparr>]\<rparr>"
    by (simp add: paso_def)
  from suelta.IH [of "ts[i := \<lparr>pendiente = h, tomados = quitar c H\<rparr>]"] suelta.prems obtain n where
    "correr (replicate n (Avanza i)) \<lparr>compartido = s, tareas = ts[i := \<lparr>pendiente = h, tomados = quitar c H\<rparr>]\<rparr> =
      Some \<lparr>compartido = s', tareas = ts[i := \<lparr>pendiente = h', tomados = H'\<rparr>]\<rparr>" by auto
  with p show ?case by (intro exI [of _ "Suc n"]) simp
next
  case (hace a s s1 k H h' H' s')
  then have p: "paso i \<lparr>compartido = s, tareas = ts\<rparr> = Some \<lparr>compartido = s1, tareas = ts[i := \<lparr>pendiente = k s, tomados = H\<rparr>]\<rparr>"
    by (simp add: paso_def)
  from hace.IH [of "ts[i := \<lparr>pendiente = k s, tomados = H\<rparr>]"] hace.prems obtain n where
    "correr (replicate n (Avanza i)) \<lparr>compartido = s1, tareas = ts[i := \<lparr>pendiente = k s, tomados = H\<rparr>]\<rparr> =
      Some \<lparr>compartido = s', tareas = ts[i := \<lparr>pendiente = h', tomados = H'\<rparr>]\<rparr>" by auto
  with p show ?case by (intro exI [of _ "Suc n"]) simp
qed

lemma correr_append: "correr (ts @ us) sys = Option.bind (correr ts sys) (correr us)"
proof (induction ts sys rule: correr.induct)
  case (2 i ts sys)
  then show ?case by (cases "paso i sys") simp_all
qed simp_all

text \<open>A disciplined thread is never stopped by its own locks.\<close>

lemma solo_anda: "solo h s = Some (r, s') \<Longrightarrow> ordenado h H \<Longrightarrow> anda [] h H s (Listo r) [] s'"
proof (induction h arbitrary: s H)
  case (Listo r')
  then show ?case by (auto intro: anda.aqui)
next
  case (Tomar c m h)
  then show ?case by (intro anda.toma) (auto simp: list_all_iff compatible_def)
next
  case (Soltar c h)
  then show ?case by (intro anda.suelta) auto
next
  case (Hacer a k)
  then obtain s1 where "a s = Some s1" "solo (k s) s1 = Some (r, s')" by (auto split: option.splits)
  then show ?case using Hacer.IH [OF rangeI] Hacer.prems(2) by (auto intro: anda.hace)
qed

end
