(* ===== verification/Memoria_Hilos.thy ===== *)
theory Memoria_Hilos
  imports Memoria_Run Memoria_Console Cerrojos
begin

text \<open>
  The threads of the memory process with their locks (\<open>memoria/src/memoria.c\<close>): one thread for each connection and one for the console share the
  state, which is guarded by \<open>mutex_lock\<close>, a read/write lock for each frame (\<open>memory_locks\<close>) and one for each cache entry
  (\<open>cache_memory_locks\<close>).  Every function that takes a lock is a program of the kind of the theory of locks, with what its caller does next as its last
  argument \<open>k\<close>.  What a thread does between taking a lock and giving it back is one atomic action, or several where the code does
  it under a shared lock; what it does without a lock is an action of its own.  The delays are left out.
\<close>

section \<open>The locks\<close>

datatype cerrojo = Marco nat | Entrada nat | Mutex

text \<open>Their order: frames, then cache entries from the first to the last, then the mutex.\<close>

fun nivel :: "cerrojo \<Rightarrow> nat \<times> nat" where
  "nivel (Marco f) = (0, f)"
| "nivel (Entrada e) = (1, e)"
| "nivel Mutex = (2, 0)"

instantiation cerrojo :: linorder
begin

definition less_eq_cerrojo :: "cerrojo \<Rightarrow> cerrojo \<Rightarrow> bool" where
  "c \<le> d \<longleftrightarrow> fst (nivel c) < fst (nivel d) \<or> fst (nivel c) = fst (nivel d) \<and> snd (nivel c) \<le> snd (nivel d)"

definition less_cerrojo :: "cerrojo \<Rightarrow> cerrojo \<Rightarrow> bool" where
  "c < d \<longleftrightarrow> fst (nivel c) < fst (nivel d) \<or> fst (nivel c) = fst (nivel d) \<and> snd (nivel c) < snd (nivel d)"

instance
proof
  fix c d e :: cerrojo
  show "c < d \<longleftrightarrow> c \<le> d \<and> \<not> d \<le> c" by (auto simp: less_eq_cerrojo_def less_cerrojo_def)
  show "c \<le> c" by (simp add: less_eq_cerrojo_def)
  show "c \<le> d \<Longrightarrow> d \<le> e \<Longrightarrow> c \<le> e" by (auto simp: less_eq_cerrojo_def)
  show "c \<le> d \<Longrightarrow> d \<le> c \<Longrightarrow> c = d" by (cases c; cases d) (auto simp: less_eq_cerrojo_def)
  show "c \<le> d \<or> d \<le> c" by (auto simp: less_eq_cerrojo_def)
qed

end

lemma orden [simp]:
  "Marco f < Entrada e" "Marco f < Mutex" "Entrada e < Mutex" "Entrada e < Entrada e' \<longleftrightarrow> e < e'"
  by (simp_all add: less_cerrojo_def)

type_synonym 'r mem_hilo = "(cerrojo, mem_state, 'r) hilo"

abbreviation entradas :: "mem_state \<Rightarrow> nat" where
  "entradas st \<equiv> unat (cache_entries (memory_conf st))"

section \<open>Frames\<close>

definition get_frame_hilo :: "mem_lib \<Rightarrow> u32 \<Rightarrow> u32 \<Rightarrow> (nat option \<Rightarrow> 'r mem_hilo) \<Rightarrow> 'r mem_hilo" where
  "get_frame_hilo M pid page k =
     Obrar (\<lambda>st. map_option (\<lambda>h_frame. (h_frame, st)) (hashing (memory_conf st) pid page)) (\<lambda>h_frame.
       Tomar Mutex Exclusivo (Mirar (\<lambda>st. Soltar Mutex
         (k (if page_is_right st h_frame pid page then Some h_frame else searching_on_overflow M h_frame pid page st)))))"

definition assign_pages_to_process_hilo :: "mem_lib \<Rightarrow> u32 \<Rightarrow> u32 \<Rightarrow> bool \<Rightarrow> (int \<Rightarrow> 'r mem_hilo) \<Rightarrow> 'r mem_hilo" where
  "assign_pages_to_process_hilo M pid required_pages init k =
     Tomar Mutex Exclusivo (Obrar (assign_pages_to_process M pid required_pages init) (\<lambda>res. Soltar Mutex (k res)))"

section \<open>The cache\<close>

fun get_cache_entry_desde :: "u32 \<Rightarrow> u32 \<Rightarrow> modo \<Rightarrow> nat \<Rightarrow> nat \<Rightarrow> (nat option \<Rightarrow> 'r mem_hilo) \<Rightarrow> 'r mem_hilo" where
  "get_cache_entry_desde pid page read_write cache_entry 0 k = k None"
| "get_cache_entry_desde pid page read_write cache_entry (Suc n) k =
     Tomar (Entrada cache_entry) read_write (Mirar (\<lambda>st.
       if cm_pid (cache_memory st ! cache_entry) = pid \<and> cm_page (cache_memory st ! cache_entry) = page then k (Some cache_entry)
       else Soltar (Entrada cache_entry) (get_cache_entry_desde pid page read_write (Suc cache_entry) n k)))"

definition get_cache_entry_hilo :: "u32 \<Rightarrow> u32 \<Rightarrow> modo \<Rightarrow> (nat option \<Rightarrow> 'r mem_hilo) \<Rightarrow> 'r mem_hilo" where
  "get_cache_entry_hilo pid page read_write k = Mirar (\<lambda>st. get_cache_entry_desde pid page read_write 0 (entradas st) k)"

definition least_recently_used_hilo :: "nat \<Rightarrow> nat option \<Rightarrow> (nat option \<Rightarrow> 'r mem_hilo) \<Rightarrow> 'r mem_hilo" where
  "least_recently_used_hilo cache_entry lru_cache_entry k =
     Obrar (\<lambda>st. map_option (\<lambda>lru. (lru, st)) (least_recently_used st cache_entry lru_cache_entry)) (\<lambda>lru.
       case lru_cache_entry of
         None \<Rightarrow> k lru
       | Some l \<Rightarrow> Soltar (Entrada (if lru = Some cache_entry then l else cache_entry)) (k lru))"

fun assign_cache_entry_desde :: "bool \<Rightarrow> u32 \<Rightarrow> nat \<Rightarrow> nat \<Rightarrow> nat option \<Rightarrow> (nat option \<Rightarrow> 'r mem_hilo) \<Rightarrow> 'r mem_hilo" where
  "assign_cache_entry_desde exceeded pid cache_entry 0 lru k = k lru"
| "assign_cache_entry_desde exceeded pid cache_entry (Suc n) lru k =
     Tomar (Entrada cache_entry) Exclusivo (Mirar (\<lambda>st.
       if exceeded then
         if cm_pid (cache_memory st ! cache_entry) = pid
         then least_recently_used_hilo cache_entry lru (\<lambda>lru'. assign_cache_entry_desde exceeded pid (Suc cache_entry) n lru' k)
         else Soltar (Entrada cache_entry) (assign_cache_entry_desde exceeded pid (Suc cache_entry) n lru k)
       else if sint (cm_pid (cache_memory st ! cache_entry)) < 0 then
         (case lru of None \<Rightarrow> k (Some cache_entry) | Some l \<Rightarrow> Soltar (Entrada l) (k (Some cache_entry)))
       else least_recently_used_hilo cache_entry lru (\<lambda>lru'. assign_cache_entry_desde exceeded pid (Suc cache_entry) n lru' k)))"

definition assign_cache_entry_hilo :: "mem_lib \<Rightarrow> u32 \<Rightarrow> (nat option \<Rightarrow> 'r mem_hilo) \<Rightarrow> 'r mem_hilo" where
  "assign_cache_entry_hilo M pid k = Tomar Mutex Exclusivo (Obrar (\<lambda>st. Some (max_entries_exceeded M pid st, st)) (\<lambda>exceeded.
     Soltar Mutex (Mirar (\<lambda>st. assign_cache_entry_desde exceeded pid 0 (entradas st) None k))))"

text \<open>
  \<open>free\<close> of a time that has been freed before is undefined.  \<open>update_cache\<close> fills its entry under the lock of the entry, which its caller has
  taken, and counts the entries of the processes after giving it back.
\<close>

definition fill_cache_entry :: "mem_lib \<Rightarrow> nat \<Rightarrow> u32 \<Rightarrow> u32 \<Rightarrow> u32 \<Rightarrow> u32 \<Rightarrow> byte list \<Rightarrow> mem_state \<Rightarrow> (u32 \<times> mem_state) option" where
  "fill_cache_entry M e pid page offset sz buffer st =
     (let c = cache_memory st ! e
      in if 0 \<le> sint (cm_pid c) \<and> last_used_time st ! e = None then None
         else if sint offset < 0 \<or> sint sz < 0 \<or> length (cm_content c) < unat offset + unat sz \<or> length buffer < unat sz then None
         else Some (cm_pid c, st\<lparr>cache_memory := (cache_memory st)[e := \<lparr>cm_pid = pid, cm_page = page,
                                   cm_content = mem_write (unat offset) (take (unat sz) buffer) (cm_content c)\<rparr>],
                                 last_used_time := (last_used_time st)[e := Some (string_time M (time_calls st))],
                                 time_calls := Suc (time_calls st)\<rparr>))"

definition count_entries :: "mem_lib \<Rightarrow> u32 \<Rightarrow> u32 \<Rightarrow> mem_state \<Rightarrow> mem_state option" where
  "count_entries M previous_pid pid st = do {
     (updated, l) \<leftarrow> update_entries (cxp_ops M) previous_pid pid False False 0 (cache_x_process_list st);
     Some (st\<lparr>cache_x_process_list := (if updated then l else list_add (cxp_ops M) l \<lparr>cx_pid = pid, cx_entries = 1\<rparr>)\<rparr>) }"

definition update_cache_hilo ::
    "mem_lib \<Rightarrow> nat option \<Rightarrow> u32 \<Rightarrow> u32 \<Rightarrow> u32 \<Rightarrow> u32 \<Rightarrow> (mem_state \<Rightarrow> byte list) \<Rightarrow> 'r mem_hilo \<Rightarrow> 'r mem_hilo" where
  "update_cache_hilo M cache_entry pid page offset sz buffer k =
     (case cache_entry of
        None \<Rightarrow> Hacer (\<lambda>st. None) (\<lambda>st. k)
      | Some e \<Rightarrow> Obrar (\<lambda>st. fill_cache_entry M e pid page offset sz (buffer st) st) (\<lambda>previous_pid.
          Soltar (Entrada e)
            (if sint previous_pid < 0 \<or> pid \<noteq> previous_pid
             then Tomar Mutex Exclusivo (Hacer (count_entries M previous_pid pid) (\<lambda>st. Soltar Mutex k))
             else k)))"

section \<open>Writing\<close>

definition writing_cache_hilo :: "mem_lib \<Rightarrow> t_write_request \<Rightarrow> 'r mem_hilo \<Rightarrow> 'r mem_hilo" where
  "writing_cache_hilo M w_req k =
     (let update = (\<lambda>e. update_cache_hilo M e (wr_pid w_req) (wr_page w_req) (wr_offset w_req) (wr_size w_req) (\<lambda>st. wr_buffer w_req) k)
      in get_cache_entry_hilo (wr_pid w_req) (wr_page w_req) Exclusivo (\<lambda>e.
           case e of Some i \<Rightarrow> update (Some i) | None \<Rightarrow> assign_cache_entry_hilo M (wr_pid w_req) update))"

definition write_frame :: "t_write_request \<Rightarrow> nat \<Rightarrow> mem_state \<Rightarrow> mem_state option" where
  "write_frame w_req frame st =
     (let write_pos = frame_pos (memory_conf st) frame + unat (wr_offset w_req)
      in if length (memory st) < write_pos + unat (wr_size w_req) \<or> length (wr_buffer w_req) < unat (wr_size w_req) then None
         else Some (st\<lparr>memory := mem_write write_pos (take (unat (wr_size w_req)) (wr_buffer w_req)) (memory st)\<rparr>))"

definition writing_memory_hilo :: "mem_lib \<Rightarrow> t_write_request \<Rightarrow> int \<Rightarrow> (int \<Rightarrow> 'r mem_hilo) \<Rightarrow> 'r mem_hilo" where
  "writing_memory_hilo M w_req client k =
     get_frame_hilo M (wr_pid w_req) (wr_page w_req) (\<lambda>f.
       case f of
         None \<Rightarrow> k PAGE_FAULT
       | Some frame \<Rightarrow> Mirar (\<lambda>st.
           if kernel_client st \<noteq> client \<and> it_segment (get_reg (memory st) frame) = CODE_SEGMENT then k SEGMENTATION_FAULT
           else Tomar (Marco frame) Exclusivo (Hacer (write_frame w_req frame) (\<lambda>st. Soltar (Marco frame) (k SUCCESS)))))"

definition write_page_hilo :: "mem_lib \<Rightarrow> storage \<Rightarrow> int \<Rightarrow> sock \<Rightarrow> (sock \<Rightarrow> 'r mem_hilo) \<Rightarrow> 'r mem_hilo" where
  "write_page_hilo M junk client s k =
     (case write_recv_req junk s of
        (w_req, s1) \<Rightarrow>
          if wr_exec_code w_req = DISCONNECTED_CLIENT then k s1
          else Mirar (\<lambda>st.
            if frame_size (memory_conf st) \<le> wr_offset w_req \<or> frame_size (memory_conf st) < wr_offset w_req + wr_size w_req
            then k (write_send_resp OUT_OF_FRAME s1)
            else writing_memory_hilo M w_req client (\<lambda>res.
              let answer = k (write_send_resp res s1) in if res = SUCCESS then writing_cache_hilo M w_req answer else answer)))"

section \<open>Reading\<close>

text \<open>The bytes of an answer are copied and sent under a shared lock.\<close>

definition send_cache_entry :: "t_read_request \<Rightarrow> nat \<Rightarrow> sock \<Rightarrow> mem_state \<Rightarrow> sock option" where
  "send_cache_entry r_req cache_entry s st =
     (let c = cache_memory st ! cache_entry
      in if length (cm_content c) < unat (rd_offset r_req) + unat (rd_size r_req) then None
         else read_send_resp SUCCESS (rd_size r_req) (mem_read (unat (rd_offset r_req)) (unat (rd_size r_req)) (cm_content c)) s)"

definition free_time :: "nat \<Rightarrow> mem_state \<Rightarrow> mem_state option" where
  "free_time e st = (if last_used_time st ! e = None then None else Some (st\<lparr>last_used_time := (last_used_time st)[e := None]\<rparr>))"

definition set_time :: "mem_lib \<Rightarrow> nat \<Rightarrow> mem_state \<Rightarrow> mem_state" where
  "set_time M e st = st\<lparr>last_used_time := (last_used_time st)[e := Some (string_time M (time_calls st))], time_calls := Suc (time_calls st)\<rparr>"

definition read_cache_entry_and_send_hilo :: "mem_lib \<Rightarrow> t_read_request \<Rightarrow> nat \<Rightarrow> sock \<Rightarrow> (sock \<Rightarrow> 'r mem_hilo) \<Rightarrow> 'r mem_hilo" where
  "read_cache_entry_and_send_hilo M r_req cache_entry s k =
     Obrar (\<lambda>st. map_option (\<lambda>s'. (s', st)) (send_cache_entry r_req cache_entry s st)) (\<lambda>s'.
       Hacer (free_time cache_entry) (\<lambda>st. Hacer (\<lambda>st. Some (set_time M cache_entry st)) (\<lambda>st. Soltar (Entrada cache_entry) (k s'))))"

definition reading_cache_hilo ::
    "mem_lib \<Rightarrow> t_read_request \<Rightarrow> sock \<Rightarrow> (bool \<times> sock \<Rightarrow> 'r mem_hilo) \<Rightarrow> 'r mem_hilo" where
  "reading_cache_hilo M r_req s k =
     get_cache_entry_hilo (rd_pid r_req) (rd_page r_req) Compartido (\<lambda>e.
       case e of None \<Rightarrow> k (False, s) | Some i \<Rightarrow> read_cache_entry_and_send_hilo M r_req i s (\<lambda>s'. k (True, s')))"

definition send_frame_bytes :: "t_read_request \<Rightarrow> nat \<Rightarrow> sock \<Rightarrow> mem_state \<Rightarrow> sock option" where
  "send_frame_bytes r_req memory_read_pos s st =
     (if length (memory st) < memory_read_pos + unat (rd_offset r_req) + unat (rd_size r_req) then None
      else read_send_resp SUCCESS (rd_size r_req)
             (mem_read (memory_read_pos + unat (rd_offset r_req)) (unat (rd_size r_req)) (memory st)) s)"

definition readind_memory_hilo :: "mem_lib \<Rightarrow> t_read_request \<Rightarrow> sock \<Rightarrow> (sock \<Rightarrow> 'r mem_hilo) \<Rightarrow> 'r mem_hilo" where
  "readind_memory_hilo M r_req s k =
     get_frame_hilo M (rd_pid r_req) (rd_page r_req) (\<lambda>f.
       case f of
         None \<Rightarrow> Obrar (\<lambda>st. map_option (\<lambda>s1. (s1, st)) (read_send_resp PAGE_FAULT 0 [] s)) k
       | Some frame \<Rightarrow> Tomar (Marco frame) Compartido (Obrar (\<lambda>st. Some (memory_conf st, st)) (\<lambda>conf.
           let memory_read_pos = frame_pos conf frame
           in assign_cache_entry_hilo M (rd_pid r_req) (\<lambda>lru_cache_entry.
                update_cache_hilo M lru_cache_entry (rd_pid r_req) (rd_page r_req) 0 (frame_size conf) (\<lambda>st. drop memory_read_pos (memory st))
                  (Obrar (\<lambda>st. map_option (\<lambda>s1. (s1, st)) (send_frame_bytes r_req memory_read_pos s st)) (\<lambda>s1. Soltar (Marco frame) (k s1)))))))"

definition read_page_hilo :: "mem_lib \<Rightarrow> storage \<Rightarrow> sock \<Rightarrow> (sock \<Rightarrow> 'r mem_hilo) \<Rightarrow> 'r mem_hilo" where
  "read_page_hilo M junk s k =
     (case read_recv_req junk s of
        (r_req, s1) \<Rightarrow>
          if rd_exec_code r_req = DISCONNECTED_CLIENT then k s1
          else Mirar (\<lambda>st.
            if frame_size (memory_conf st) \<le> rd_offset r_req \<or> frame_size (memory_conf st) < rd_offset r_req + rd_size r_req
            then Obrar (\<lambda>st. map_option (\<lambda>s2. (s2, st)) (read_send_resp OUT_OF_FRAME 0 [] s1)) k
            else reading_cache_hilo M r_req s1 (\<lambda>(hit, s2). if hit then k s2 else readind_memory_hilo M r_req s2 k)))"

section \<open>Releasing\<close>

text \<open>Emptying an entry frees its time.\<close>

definition free_entry :: "nat \<Rightarrow> mem_state \<Rightarrow> mem_state option" where
  "free_entry e st = (if last_used_time st ! e = None then None else Some (clear_entry e st))"

fun drop_page_desde :: "mem_lib \<Rightarrow> u32 \<Rightarrow> u32 \<Rightarrow> nat \<Rightarrow> nat \<Rightarrow> 'r mem_hilo \<Rightarrow> 'r mem_hilo" where
  "drop_page_desde M pid page cache_entry 0 k = k"
| "drop_page_desde M pid page cache_entry (Suc n) k =
     Tomar (Entrada cache_entry) Exclusivo (Obrar (\<lambda>st.
       if cm_pid (cache_memory st ! cache_entry) = pid \<and> cm_page (cache_memory st ! cache_entry) = page
       then map_option (Pair True) (free_entry cache_entry st) else Some (False, st)) (\<lambda>found.
       Soltar (Entrada cache_entry)
         (if found
          then Tomar Mutex Exclusivo (Hacer (\<lambda>st. Some (st\<lparr>cache_x_process_list := drop_entry M pid (cache_x_process_list st)\<rparr>)) (\<lambda>st. Soltar Mutex k))
          else drop_page_desde M pid page (Suc cache_entry) n k)))"

definition delete_page_process_hilo :: "mem_lib \<Rightarrow> u32 \<Rightarrow> u32 \<Rightarrow> 'r mem_hilo \<Rightarrow> 'r mem_hilo" where
  "delete_page_process_hilo M pid page k =
     Tomar Mutex Exclusivo (Hacer (delete_page_frame M pid page) (\<lambda>st. Soltar Mutex (Mirar (\<lambda>st. drop_page_desde M pid page 0 (entradas st) k))))"

definition delete_page_hilo :: "mem_lib \<Rightarrow> storage \<Rightarrow> sock \<Rightarrow> (sock \<Rightarrow> 'r mem_hilo) \<Rightarrow> 'r mem_hilo" where
  "delete_page_hilo M junk s k =
     (case delete_page_recv_req junk s of
        (delete_req, s1) \<Rightarrow>
          if dp_exec_code delete_req = DISCONNECTED_CLIENT then k s1
          else delete_page_process_hilo M (dp_pid delete_req) (dp_page delete_req) (k (delete_page_send_resp 0 s1)))"

text \<open>The part of \<open>cleaning_process_entries\<close> under the mutex: the table, the pages of the process and its count of entries.\<close>

definition clean_tables :: "mem_lib \<Rightarrow> u32 \<Rightarrow> mem_state \<Rightarrow> mem_state option" where
  "clean_tables M pid st = do {
     st1 \<leftarrow> clean_frames M pid 0 (n_frames st) st;
     (let st2 = (case list_search (pages_ops M) (\<lambda>r. pp_pid r = pid) (pages_per_process_list st1) 0 of
                   Some index \<Rightarrow> st1\<lparr>pages_per_process_list := snd (list_remove (pages_ops M) (pages_per_process_list st1) index)\<rparr>
                 | None \<Rightarrow> st1)
      in Some (case list_search (cxp_ops M) (\<lambda>r. cx_pid r = pid) (cache_x_process_list st2) 0 of
                 Some index \<Rightarrow> st2\<lparr>cache_x_process_list := snd (list_remove (cxp_ops M) (cache_x_process_list st2) index)\<rparr>
               | None \<Rightarrow> st2))
   }"

fun clean_cache_desde :: "u32 \<Rightarrow> nat \<Rightarrow> nat \<Rightarrow> 'r mem_hilo \<Rightarrow> 'r mem_hilo" where
  "clean_cache_desde pid cache_entry 0 k = k"
| "clean_cache_desde pid cache_entry (Suc n) k =
     Tomar (Entrada cache_entry) Exclusivo (Hacer
       (\<lambda>st. if cm_pid (cache_memory st ! cache_entry) = pid then free_entry cache_entry st else Some st)
       (\<lambda>st. Soltar (Entrada cache_entry) (clean_cache_desde pid (Suc cache_entry) n k)))"

definition cleaning_process_entries_hilo :: "mem_lib \<Rightarrow> u32 \<Rightarrow> 'r mem_hilo \<Rightarrow> 'r mem_hilo" where
  "cleaning_process_entries_hilo M pid k =
     Tomar Mutex Exclusivo (Hacer (clean_tables M pid) (\<lambda>st.
       Soltar Mutex (Mirar (\<lambda>st. clean_cache_desde pid 0 (entradas st) k))))"

definition finalize_process_hilo :: "mem_lib \<Rightarrow> storage \<Rightarrow> sock \<Rightarrow> (sock \<Rightarrow> 'r mem_hilo) \<Rightarrow> 'r mem_hilo" where
  "finalize_process_hilo M junk s k =
     (case finalize_process_recv_req junk s of
        (finalize_req, s1) \<Rightarrow>
          if fp_exec_code finalize_req = DISCONNECTED_CLIENT then k s1
          else cleaning_process_entries_hilo M (fp_pid finalize_req) (k (finalize_process_send_resp SUCCESS s1)))"

section \<open>The request of a client\<close>

definition asignar_hilo :: "mem_lib \<Rightarrow> storage \<Rightarrow> bool \<Rightarrow> sock \<Rightarrow> (sock \<Rightarrow> 'r mem_hilo) \<Rightarrow> 'r mem_hilo" where
  "asignar_hilo M junk init s k =
     (case init_process_recv_req junk s of
        (req, s1) \<Rightarrow>
          if ip_exec_code req = DISCONNECTED_CLIENT then k s1
          else assign_pages_to_process_hilo M (ip_pid req) (ip_pages req) init (\<lambda>resp_code. k (init_process_send_resp resp_code s1)))"

definition serve_operation_hilo :: "mem_lib \<Rightarrow> storage \<Rightarrow> int \<Rightarrow> int \<Rightarrow> sock \<Rightarrow> (sock \<Rightarrow> 'r mem_hilo) \<Rightarrow> 'r mem_hilo" where
  "serve_operation_hilo M junk client ope_code s k =
     (if ope_code = HANDSHAKE_OC then Obrar (\<lambda>st. Some (mem_handshake junk client s st)) k
      else if ope_code = INIT_PROCESS_OC then asignar_hilo M junk True s k
      else if ope_code = READ_OC then read_page_hilo M junk s k
      else if ope_code = WRITE_OC then write_page_hilo M junk client s k
      else if ope_code = ASSIGN_PAGE_OC then asignar_hilo M junk False s k
      else if ope_code = DELETE_PAGE_OC then delete_page_hilo M junk s k
      else if ope_code = END_PROCESS_OC then finalize_process_hilo M junk s k
      else k s)"

section \<open>The console\<close>

fun flush_desde :: "mem_lib \<Rightarrow> nat \<Rightarrow> nat \<Rightarrow> 'r mem_hilo \<Rightarrow> 'r mem_hilo" where
  "flush_desde M cache_entry 0 k = k"
| "flush_desde M cache_entry (Suc n) k =
     Tomar (Entrada cache_entry) Exclusivo (Obrar
       (\<lambda>st. let previous_pid = cm_pid (cache_memory st ! cache_entry)
             in if 0 \<le> sint previous_pid \<and> last_used_time st ! cache_entry = None then None else Some (previous_pid, clear_entry cache_entry st))
       (\<lambda>previous_pid. Soltar (Entrada cache_entry)
         (if 0 \<le> sint previous_pid
          then Tomar Mutex Exclusivo (Hacer
            (\<lambda>st. map_option (\<lambda>l. st\<lparr>cache_x_process_list := l\<rparr>) (flush_search (cxp_ops M) previous_pid 0 (cache_x_process_list st)))
            (\<lambda>st. Soltar Mutex (flush_desde M (Suc cache_entry) n k)))
          else flush_desde M (Suc cache_entry) n k)))"

fun dump_cache_desde :: "nat \<Rightarrow> nat \<Rightarrow> string \<Rightarrow> (string \<Rightarrow> 'r mem_hilo) \<Rightarrow> 'r mem_hilo" where
  "dump_cache_desde cache_entry 0 out k = k (out @ [CHR 0x0A])"
| "dump_cache_desde cache_entry (Suc n) out k =
     Tomar (Entrada cache_entry) Compartido (Obrar
       (\<lambda>st. map_option (\<lambda>row. (row, st)) (dump_cache_row (page_bytes st) (cache_memory st ! cache_entry) (last_used_time st ! cache_entry)))
       (\<lambda>row. Soltar (Entrada cache_entry) (dump_cache_desde (Suc cache_entry) n (out @ row) k)))"

fun dump_content_desde :: "nat \<Rightarrow> nat \<Rightarrow> string \<Rightarrow> (string \<Rightarrow> 'r mem_hilo) \<Rightarrow> 'r mem_hilo" where
  "dump_content_desde frame 0 out k = k (out @ [CHR 0x0A])"
| "dump_content_desde frame (Suc n) out k =
     Tomar (Marco frame) Compartido (Mirar (\<lambda>st. Soltar (Marco frame) (dump_content_desde (Suc frame) n (out @ dump_content_row st frame) k)))"

definition dump_command_hilo :: "string \<Rightarrow> (string \<Rightarrow> 'r mem_hilo) \<Rightarrow> 'r mem_hilo" where
  "dump_command_hilo param k =
     (if param = ''cache'' then Mirar (\<lambda>st. dump_cache_desde 0 (entradas st) dump_cache_header k)
      else if param = ''struct'' then Tomar Mutex Exclusivo (Mirar (\<lambda>st. Soltar Mutex (k (dump_struct st))))
      else if param = ''content'' then Mirar (\<lambda>st. dump_content_desde 0 (n_frames st) dump_content_header k)
      else k [])"

definition size_command_hilo :: "mem_lib \<Rightarrow> string \<Rightarrow> (string \<Rightarrow> 'r mem_hilo) \<Rightarrow> 'r mem_hilo" where
  "size_command_hilo M param k =
     (if param = ''memory'' \<or> 0 \<le> sint (atoi param) then Tomar Mutex Exclusivo (Mirar (\<lambda>st. Soltar Mutex (k (size_command M param st))))
      else Mirar (\<lambda>st. k (size_command M param st)))"

definition flush_command_hilo :: "mem_lib \<Rightarrow> (string \<Rightarrow> 'r mem_hilo) \<Rightarrow> 'r mem_hilo" where
  "flush_command_hilo M k = Mirar (\<lambda>st. flush_desde M 0 (entradas st)
     (k ('' >> cleaning cache...'' @ [CHR 0x0A] @ '' >> cache cleaned'' @ [CHR 0x0A])))"

definition console_line_hilo :: "mem_lib \<Rightarrow> string option \<Rightarrow> string option \<Rightarrow> string \<Rightarrow> (string \<Rightarrow> 'r mem_hilo) \<Rightarrow> 'r mem_hilo" where
  "console_line_hilo M old_command old_param input k =
     (let tokens = strtok_words (CHR '' '') [] input;
          param = (case tokens of _ # p # _ \<Rightarrow> Some p | _ \<Rightarrow> old_param);
          con_param = (\<lambda>f. Obrar (\<lambda>st. map_option (\<lambda>p. (p, st)) param) f)
      in Obrar (\<lambda>st. map_option (\<lambda>c. (c, st)) (case tokens of c # _ \<Rightarrow> Some c | [] \<Rightarrow> old_command)) (\<lambda>command.
           if command = ''delay'' then con_param (\<lambda>p. Obrar (\<lambda>st. Some (delay_command p st)) k)
           else if command = ''dump'' then con_param (\<lambda>p. dump_command_hilo p k)
           else if command = ''flush'' then flush_command_hilo M k
           else if command = ''size'' then con_param (\<lambda>p. size_command_hilo M p k)
           else k []))"

section \<open>The threads of the process\<close>

datatype llegada = Pedido int int sock | Linea "string option" "string option" string

fun hilo_de :: "mem_lib \<Rightarrow> storage \<Rightarrow> llegada \<Rightarrow> (sock + string) mem_hilo" where
  "hilo_de M junk (Pedido client ope_code s) = serve_operation_hilo M junk client ope_code s (\<lambda>s'. Listo (Inl s'))"
| "hilo_de M junk (Linea old_command old_param input) = console_line_hilo M old_command old_param input (\<lambda>out. Listo (Inr out))"

section \<open>Every thread keeps the order of the locks\<close>

definition solo_marcos :: "(cerrojo \<times> modo) list \<Rightarrow> bool" where
  "solo_marcos H \<longleftrightarrow> (\<forall>p \<in> set H. \<exists>f. fst p = Marco f)"

lemma solo_marcos [simp]: "solo_marcos []" "solo_marcos ((Marco f, m) # H) \<longleftrightarrow> solo_marcos H"
  by (auto simp: solo_marcos_def)

lemma marcos_below: "solo_marcos H \<Longrightarrow> \<forall>p \<in> set H. fst p < Entrada e" "solo_marcos H \<Longrightarrow> \<forall>p \<in> set H. fst p < Mutex"
  by (force simp: solo_marcos_def)+

lemma quitar_marcos: "solo_marcos H \<Longrightarrow> quitar (Entrada e) H = H" "solo_marcos H \<Longrightarrow> quitar Mutex H = H"
  by (induction H) (auto simp: solo_marcos_def)

lemma ordenado_get_frame:
  "solo_marcos H \<Longrightarrow> (\<And>f. ordenado (k f) H) \<Longrightarrow> ordenado (get_frame_hilo M pid page k) H"
  using marcos_below(2) by (auto simp: get_frame_hilo_def Obrar_def)

lemma ordenado_get_cache_entry:
  assumes "solo_marcos H" "ordenado (k None) H" "\<And>e. ordenado (k (Some e)) ((Entrada e, m) # H)"
  shows "ordenado (get_cache_entry_hilo pid page m k) H"
proof -
  have "ordenado (get_cache_entry_desde pid page m e n k) H" for e n
    using marcos_below(1) [OF assms(1)] assms(2,3) by (induction n arbitrary: e) auto
  then show ?thesis by (simp add: get_cache_entry_hilo_def)
qed

lemma ordenado_assign_desde:
  assumes "solo_marcos H" "ordenado (k None) H" "\<And>e. ordenado (k (Some e)) ((Entrada e, Exclusivo) # H)"
    and "case lru of None \<Rightarrow> True | Some l \<Rightarrow> l < e"
  shows "ordenado (assign_cache_entry_desde exceeded pid e n lru k) (case lru of None \<Rightarrow> H | Some l \<Rightarrow> (Entrada l, Exclusivo) # H)"
  using assms(4)
proof (induction n arbitrary: e lru)
  case 0
  then show ?case using assms(2,3) by (simp split: option.splits)
next
  case (Suc n)
  let ?H = "case lru of None \<Rightarrow> H | Some l \<Rightarrow> (Entrada l, Exclusivo) # H"
  have below: "\<forall>p \<in> set ?H. fst p < Entrada e" using marcos_below(1) [OF assms(1)] Suc.prems by (auto split: option.splits)
  have keep: "ordenado (assign_cache_entry_desde exceeded pid (Suc e) n lru k) ?H"
    using Suc.IH [of "Suc e" lru] Suc.prems by (auto split: option.splits)
  have siguiente: "ordenado (assign_cache_entry_desde exceeded pid (Suc e) n (Some l) k) ((Entrada l, Exclusivo) # H)" if "l \<le> e" for l
    using Suc.IH [of "Suc e" "Some l"] that by simp
  have lru: "ordenado (least_recently_used_hilo e lru (\<lambda>lru'. assign_cache_entry_desde exceeded pid (Suc e) n lru' k)) ((Entrada e, Exclusivo) # ?H)"
    using Suc.prems by (auto simp: least_recently_used_hilo_def least_recently_used_def bind_eq_Some_conv intro!: siguiente split: option.splits)
  show ?case
    using below keep lru assms(2,3) Suc.prems by (auto split: option.splits)
qed

lemma ordenado_assign:
  assumes "solo_marcos H" "ordenado (k None) H" "\<And>e. ordenado (k (Some e)) ((Entrada e, Exclusivo) # H)"
  shows "ordenado (assign_cache_entry_hilo M pid k) H"
  using ordenado_assign_desde [OF assms, where lru = None] marcos_below(2) [OF assms(1)] by (simp add: assign_cache_entry_hilo_def)

lemma ordenado_update:
  assumes "solo_marcos H" "ordenado k H"
  shows "ordenado (update_cache_hilo M None pid page off sz buf k) H"
    "ordenado (update_cache_hilo M (Some e) pid page off sz buf k) ((Entrada e, Exclusivo) # H)"
  using assms(2) marcos_below(2) [OF assms(1)] by (auto simp: update_cache_hilo_def)

lemma ordenado_writing_cache: "solo_marcos H \<Longrightarrow> ordenado k H \<Longrightarrow> ordenado (writing_cache_hilo M w k) H"
  unfolding writing_cache_hilo_def Let_def
  by (intro ordenado_get_cache_entry) (auto intro!: ordenado_assign ordenado_update)

lemma ordenado_write_page: "(\<And>s'. ordenado (k s') []) \<Longrightarrow> ordenado (write_page_hilo M junk client s k) []"
  by (auto simp: write_page_hilo_def writing_memory_hilo_def Let_def split: prod.splits option.splits
      intro!: ordenado_get_frame ordenado_writing_cache)

lemma ordenado_reading_cache: "(\<And>r. ordenado (k r) []) \<Longrightarrow> ordenado (reading_cache_hilo M r s k) []"
  unfolding reading_cache_hilo_def
  by (intro ordenado_get_cache_entry) (auto simp: read_cache_entry_and_send_hilo_def)

lemma ordenado_readind_memory:
  assumes "\<And>s'. ordenado (k s') []"
  shows "ordenado (readind_memory_hilo M r s k) []"
  unfolding readind_memory_hilo_def
  using assms by (intro ordenado_get_frame) (auto simp: Let_def split: option.splits intro!: ordenado_assign ordenado_update)

lemma ordenado_read_page: "(\<And>s'. ordenado (k s') []) \<Longrightarrow> ordenado (read_page_hilo M junk s k) []"
  by (auto simp: read_page_hilo_def split: prod.splits intro!: ordenado_reading_cache ordenado_readind_memory)

lemma ordenado_delete_page:
  assumes "\<And>s'. ordenado (k s') []"
  shows "ordenado (delete_page_hilo M junk s k) []"
proof -
  have "ordenado (drop_page_desde M pid page e n h) []" if "ordenado h []" for pid page e n and h :: "'a mem_hilo"
    using that by (induction n arbitrary: e) (auto split: if_splits)
  with assms show ?thesis by (auto simp: delete_page_hilo_def delete_page_process_hilo_def split: prod.splits)
qed

lemma ordenado_finalize:
  assumes "\<And>s'. ordenado (k s') []"
  shows "ordenado (finalize_process_hilo M junk s k) []"
proof -
  have "ordenado (clean_cache_desde pid e n h) []" if "ordenado h []" for pid e n and h :: "'a mem_hilo"
    using that by (induction n arbitrary: e) (auto split: if_splits)
  with assms show ?thesis by (auto simp: finalize_process_hilo_def cleaning_process_entries_hilo_def split: prod.splits)
qed

lemma ordenado_asignar: "(\<And>s'. ordenado (k s') []) \<Longrightarrow> ordenado (asignar_hilo M junk init s k) []"
  by (auto simp: asignar_hilo_def assign_pages_to_process_hilo_def split: prod.splits)

lemma ordenado_serve: "(\<And>s'. ordenado (k s') []) \<Longrightarrow> ordenado (serve_operation_hilo M junk client oc s k) []"
  by (auto simp: serve_operation_hilo_def
      intro!: ordenado_asignar ordenado_read_page ordenado_write_page ordenado_delete_page ordenado_finalize)

lemma ordenado_dump:
  assumes "\<And>out. ordenado (k out) []"
  shows "ordenado (dump_command_hilo param k) []"
proof -
  have "ordenado (dump_cache_desde e n out k) []" for e n out
    using assms by (induction n arbitrary: e out) auto
  moreover have "ordenado (dump_content_desde f n out k) []" for f n out
    using assms by (induction n arbitrary: f out) auto
  ultimately show ?thesis using assms by (simp add: dump_command_hilo_def)
qed

lemma ordenado_flush:
  assumes "\<And>out. ordenado (k out) []"
  shows "ordenado (flush_command_hilo M k) []"
proof -
  have "ordenado (flush_desde M e n h) []" if "ordenado h []" for e n and h :: "'a mem_hilo"
    using that by (induction n arbitrary: e) auto
  with assms show ?thesis by (simp add: flush_command_hilo_def)
qed

lemma ordenado_hilo_de: "ordenado (hilo_de M junk l) []"
proof (cases l)
  case (Pedido client oc s)
  then show ?thesis by (simp add: ordenado_serve)
next
  case (Linea c p input)
  have "ordenado (console_line_hilo M c p input k) []" if "\<And>out. ordenado (k out) []" for k :: "string \<Rightarrow> (sock + string) mem_hilo"
    using that ordenado_dump [OF that] ordenado_flush [OF that] by (simp add: console_line_hilo_def size_command_hilo_def Let_def)
  then show ?thesis by (simp add: Linea)
qed

section \<open>A thread alone is the handler\<close>

definition tiempos_ok :: "mem_state \<Rightarrow> bool" where
  "tiempos_ok st \<longleftrightarrow> length (cache_memory st) = entradas st \<and> length (last_used_time st) = entradas st \<and>
     (\<forall>e < entradas st. 0 \<le> sint (cm_pid (cache_memory st ! e)) \<longrightarrow> last_used_time st ! e \<noteq> None)"

lemma cache_inv_tiempos:
  assumes "cache_inv st"
  shows "tiempos_ok st"
proof -
  have "sint (- 1 :: u32) < 0" by simp
  with assms show ?thesis by (fastforce simp: cache_inv_def cache_shape_def cache_valid_def tiempos_ok_def Let_def)
qed

lemma tiempos_okD:
  assumes "tiempos_ok st"
  shows "length (cache_memory st) = entradas st" "length (last_used_time st) = entradas st"
    "e < entradas st \<Longrightarrow> 0 \<le> sint (cm_pid (cache_memory st ! e)) \<Longrightarrow> last_used_time st ! e \<noteq> None"
  using assms by (auto simp: tiempos_ok_def)

lemma tiempos_clear:
  assumes "tiempos_ok st"
  shows "tiempos_ok (clear_entry e st)"
proof -
  have "last_used_time (clear_entry e st) ! i \<noteq> None"
    if "i < entradas st" "0 \<le> sint (cm_pid (cache_memory (clear_entry e st) ! i))" for i
    using that assms by (cases "i = e") (auto simp: tiempos_ok_def clear_entry_def)
  then show ?thesis using assms by (simp add: tiempos_ok_def) (simp add: clear_entry_def)
qed

lemma tiempos_otros [simp]:
  "tiempos_ok (st\<lparr>memory := m\<rparr>) = tiempos_ok st" "tiempos_ok (st\<lparr>cache_x_process_list := l\<rparr>) = tiempos_ok st"
  by (simp_all add: tiempos_ok_def)

lemma solo_get_frame [simp]:
  "solo (get_frame_hilo M pid page k) st = (case get_frame M pid page st of None \<Rightarrow> None | Some f \<Rightarrow> solo (k f) st)"
  by (cases "hashing (memory_conf st) pid page") (simp_all add: get_frame_hilo_def get_frame_def)

lemma solo_get_cache_entry:
  assumes "length (cache_memory st) = entradas st"
  shows "solo (get_cache_entry_hilo pid page m k) st = solo (k (get_cache_entry pid page st)) st"
proof -
  let ?P = "\<lambda>c. cm_pid c = pid \<and> cm_page c = page"
  have "solo (get_cache_entry_desde pid page m e n k) st = solo (k (map_option ((+) e) (find_index ?P (drop e (cache_memory st))))) st"
    if "e + n = length (cache_memory st)" for e n
    using that
  proof (induction n arbitrary: e)
    case (Suc n)
    then have "drop e (cache_memory st) = cache_memory st ! e # drop (Suc e) (cache_memory st)" by (simp add: Cons_nth_drop_Suc)
    then show ?case using Suc by (simp add: option.map_comp comp_def)
  qed simp
  from this [of 0 "entradas st"] show ?thesis
    using assms by (simp add: get_cache_entry_hilo_def get_cache_entry_def option.map_ident [unfolded id_def] flip: id_def cong: option.map_cong)
qed

lemma solo_assign [simp]:
  "solo (assign_cache_entry_hilo M pid k) st = (case assign_cache_entry M pid st of None \<Rightarrow> None | Some r \<Rightarrow> solo (k r) st)"
proof -
  have "solo (assign_cache_entry_desde ex pid e n lru k) st = (case cache_scan st ex pid e n lru of None \<Rightarrow> None | Some r \<Rightarrow> solo (k r) st)"
    for ex e n lru
  proof (induction n arbitrary: e lru)
    case (Suc n)
    then show ?case by (cases "least_recently_used st e lru") (auto simp: least_recently_used_hilo_def split: option.splits)
  qed simp
  then show ?thesis by (simp add: assign_cache_entry_hilo_def assign_cache_entry_def)
qed

lemma cache_scan_bound:
  "cache_scan st ex pid e n lru = Some (Some r) \<Longrightarrow> (\<forall>l. lru = Some l \<longrightarrow> l < e) \<Longrightarrow> r < e + n"
proof (induction n arbitrary: e lru)
  case (Suc n)
  have l: "\<exists>l. lru' = Some l \<and> l < Suc e" if "least_recently_used st e lru = Some lru'" for lru'
    using that Suc.prems(2) by (auto simp: least_recently_used_def bind_eq_Some_conv split: option.splits if_splits)
  show ?case
    using Suc.prems Suc.IH [of "Suc e"] by (fastforce simp: bind_eq_Some_conv split: if_splits dest: l)
qed auto

lemma assign_bound: "assign_cache_entry M pid st = Some (Some e) \<Longrightarrow> e < entradas st"
  using cache_scan_bound [of st _ pid 0 _ None e] by (simp add: assign_cache_entry_def)

lemma solo_update:
  assumes "\<And>e. ce = Some e \<Longrightarrow> 0 \<le> sint (cm_pid (cache_memory st ! e)) \<Longrightarrow> last_used_time st ! e \<noteq> None"
  shows "solo (update_cache_hilo M ce pid page off sz buf k) st =
    (case update_cache M ce pid page off sz (buf st) st of None \<Rightarrow> None | Some st' \<Rightarrow> solo k st')"
proof (cases ce)
  case None
  then show ?thesis by (simp add: update_cache_hilo_def update_cache_def)
next
  case (Some e)
  let ?c = "cache_memory st ! e"
  show ?thesis
  proof (cases "sint off < 0 \<or> sint sz < 0 \<or> length (cm_content ?c) < unat off + unat sz \<or> length (buf st) < unat sz")
    case True
    then show ?thesis by (auto simp: Some update_cache_hilo_def update_cache_def fill_cache_entry_def Let_def)
  next
    case False
    let ?st1 = "st\<lparr>cache_memory := (cache_memory st)[e := \<lparr>cm_pid = pid, cm_page = page,
        cm_content = mem_write (unat off) (take (unat sz) (buf st)) (cm_content ?c)\<rparr>],
      last_used_time := (last_used_time st)[e := Some (string_time M (time_calls st))], time_calls := Suc (time_calls st)\<rparr>"
    have f: "fill_cache_entry M e pid page off sz (buf st) st = Some (cm_pid ?c, ?st1)"
      using False assms [OF Some] by (auto simp: fill_cache_entry_def Let_def)
    have u: "update_cache M ce pid page off sz (buf st) st =
        (if sint (cm_pid ?c) < 0 \<or> pid \<noteq> cm_pid ?c then count_entries M (cm_pid ?c) pid ?st1 else Some ?st1)"
      using False by (simp add: Some update_cache_def count_entries_def Let_def)
    show ?thesis unfolding u by (simp add: Some update_cache_hilo_def f del: fun_upd_apply split: option.split)
  qed
qed

lemma solo_writing_cache:
  assumes "tiempos_ok st"
  shows "solo (writing_cache_hilo M w k) st = (case writing_cache M w st of None \<Rightarrow> None | Some st' \<Rightarrow> solo k st')"
proof -
  note get = solo_get_cache_entry [OF tiempos_okD(1) [OF assms]]
  have up: "solo (update_cache_hilo M r (wr_pid w) (wr_page w) (wr_offset w) (wr_size w) (\<lambda>st. wr_buffer w) k) st =
      (case update_cache M r (wr_pid w) (wr_page w) (wr_offset w) (wr_size w) (wr_buffer w) st of None \<Rightarrow> None | Some st' \<Rightarrow> solo k st')"
    if "\<And>e. r = Some e \<Longrightarrow> e < entradas st" for r
    by (rule solo_update) (use that tiempos_okD(3) [OF assms] in auto)
  show ?thesis
  proof (cases "get_cache_entry (wr_pid w) (wr_page w) st")
    case None
    show ?thesis
    proof (cases "assign_cache_entry M (wr_pid w) st")
      case (Some r)
      then have "\<And>e. r = Some e \<Longrightarrow> e < entradas st" by (auto dest: assign_bound)
      then show ?thesis by (simp add: writing_cache_hilo_def writing_cache_def get None Some up)
    qed (simp add: writing_cache_hilo_def writing_cache_def get None)
  next
    case (Some e)
    then have "e < entradas st" using find_index_SomeD tiempos_okD(1) [OF assms] by (fastforce simp: get_cache_entry_def)
    with up [of "Some e"] show ?thesis by (simp add: writing_cache_hilo_def writing_cache_def get Some)
  qed
qed

lemma solo_write_page:
  assumes "tiempos_ok st"
  shows "solo (write_page_hilo M junk client s k) st =
    (case write_page M junk client s st of None \<Rightarrow> None | Some (s', st') \<Rightarrow> solo (k s') st')"
proof -
  obtain w s1 where w: "write_recv_req junk s = (w, s1)" by fastforce
  have mem: "solo (writing_memory_hilo M w client h) st =
      (case writing_memory M w client st of None \<Rightarrow> None | Some (res, st') \<Rightarrow> solo (h res) st')" for h
    by (auto simp: writing_memory_hilo_def writing_memory_def write_frame_def Let_def split: option.splits)
  have ok: "tiempos_ok st'" if "writing_memory M w client st = Some (res, st')" for res st'
    using that assms by (auto simp: writing_memory_def Let_def split: option.splits if_splits)
  show ?thesis
    by (auto simp: write_page_hilo_def write_page_def w mem Let_def solo_writing_cache ok split: option.splits prod.splits)
qed

lemma solo_reading_cache:
  assumes "tiempos_ok st" "0 \<le> sint (rd_pid r)"
  shows "solo (reading_cache_hilo M r s k) st =
    (case reading_cache M r s st of None \<Rightarrow> None | Some (hit, s', st') \<Rightarrow> solo (k (hit, s')) st')"
proof (cases "get_cache_entry (rd_pid r) (rd_page r) st")
  case None
  then show ?thesis by (simp add: reading_cache_hilo_def reading_cache_def solo_get_cache_entry [OF tiempos_okD(1) [OF assms(1)]])
next
  case (Some e)
  then have "e < entradas st" "cm_pid (cache_memory st ! e) = rd_pid r"
    using find_index_SomeD tiempos_okD(1) [OF assms(1)] by (fastforce simp: get_cache_entry_def)+
  then obtain t where "last_used_time st ! e = Some t" using tiempos_okD(3) [OF assms(1), of e] assms(2) by auto
  then show ?thesis
    by (simp add: reading_cache_hilo_def reading_cache_def solo_get_cache_entry [OF tiempos_okD(1) [OF assms(1)]] Some
        read_cache_entry_and_send_hilo_def read_cache_entry_and_send_def send_cache_entry_def free_time_def set_time_def Let_def
        split: option.splits)
qed

lemma solo_readind_memory:
  assumes "tiempos_ok st"
  shows "solo (readind_memory_hilo M r s k) st =
    (case readind_memory M r s st of None \<Rightarrow> None | Some (s', st') \<Rightarrow> solo (k s') st')"
proof (cases "\<exists>f. get_frame M (rd_pid r) (rd_page r) st = Some (Some f)")
  case False
  then show ?thesis by (auto simp: readind_memory_hilo_def readind_memory_def split: option.splits)
next
  case True
  then obtain f where Some: "get_frame M (rd_pid r) (rd_page r) st = Some (Some f)" by blast
  let ?pos = "frame_pos (memory_conf st) f"
  show ?thesis
  proof (cases "assign_cache_entry M (rd_pid r) st")
    case None
    with Some show ?thesis by (simp add: readind_memory_hilo_def readind_memory_def Let_def)
  next
    case (Some lru)
    have up: "solo (update_cache_hilo M lru (rd_pid r) (rd_page r) 0 (frame_size (memory_conf st)) (\<lambda>st. drop ?pos (memory st)) h) st =
        (case update_cache M lru (rd_pid r) (rd_page r) 0 (frame_size (memory_conf st)) (drop ?pos (memory st)) st of
          None \<Rightarrow> None | Some st' \<Rightarrow> solo h st')" for h
      by (rule solo_update) (use Some assign_bound tiempos_okD(3) [OF assms] in auto)
    show ?thesis
      by (auto simp: readind_memory_hilo_def readind_memory_def Let_def Some \<open>get_frame M (rd_pid r) (rd_page r) st = Some (Some f)\<close> up
          send_frame_bytes_def split: option.splits)
  qed
qed

lemma solo_read_page:
  assumes "tiempos_ok st" "rd_exec_code (fst (read_recv_req junk s)) = DISCONNECTED_CLIENT \<or> 0 \<le> sint (rd_pid (fst (read_recv_req junk s)))"
  shows "solo (read_page_hilo M junk s k) st = (case read_page M junk s st of None \<Rightarrow> None | Some (s', st') \<Rightarrow> solo (k s') st')"
proof -
  obtain r s1 where r: "read_recv_req junk s = (r, s1)" by fastforce
  have ok: "tiempos_ok st'" if "reading_cache M r s1 st = Some (False, s', st')" for s' st'
    using that assms(1) by (auto simp: reading_cache_def split: option.splits)
  show ?thesis
  proof (cases "rd_exec_code r = DISCONNECTED_CLIENT")
    case False
    with assms(2) r have "0 \<le> sint (rd_pid r)" by simp
    then show ?thesis
      using False by (auto simp: read_page_hilo_def read_page_def r solo_reading_cache [OF assms(1)] solo_readind_memory ok
          split: option.splits prod.splits)
  qed (simp add: read_page_hilo_def read_page_def r)
qed

lemma clear_frame [simp]: "entradas (clear_entry e st) = entradas st" "length (cache_memory (clear_entry e st)) = length (cache_memory st)"
  "cache_x_process_list (clear_entry e st) = cache_x_process_list st"
  by (simp_all add: clear_entry_def)

lemma tiempos_free:
  assumes "tiempos_ok st" "e < entradas st" "0 \<le> sint (cm_pid (cache_memory st ! e))"
  shows "free_entry e st = Some (clear_entry e st)"
  using tiempos_okD(3) [OF assms] by (simp add: free_entry_def)

lemma delete_page_frame_cache:
  assumes "delete_page_frame M pid page st = Some st'"
  shows "tiempos_ok st' = tiempos_ok st" "cache_memory st' = cache_memory st" "entradas st' = entradas st"
    "cache_x_process_list st' = cache_x_process_list st"
  using assms by (auto simp: delete_page_frame_def Let_def tiempos_ok_def bind_eq_Some_conv split: option.splits if_splits prod.splits)

lemma solo_delete_page:
  assumes "tiempos_ok st" "dp_exec_code (fst (delete_page_recv_req junk s)) = DISCONNECTED_CLIENT \<or> 0 \<le> sint (dp_pid (fst (delete_page_recv_req junk s)))"
  shows "solo (delete_page_hilo M junk s k) st = (case delete_page M junk s st of None \<Rightarrow> None | Some (s', st') \<Rightarrow> solo (k s') st')"
proof -
  obtain r s1 where r: "delete_page_recv_req junk s = (r, s1)" by fastforce
  have "solo (drop_page_desde M pid page e n h) st1 = solo h
      (case find_index (\<lambda>c. cm_pid c = pid \<and> cm_page c = page) (drop e (cache_memory st1)) of
         None \<Rightarrow> st1
       | Some i \<Rightarrow> (clear_entry (e + i) st1)\<lparr>cache_x_process_list := drop_entry M pid (cache_x_process_list st1)\<rparr>)"
    if "e + n = length (cache_memory st1)" "tiempos_ok st1" "0 \<le> sint pid" for pid page e n st1 and h :: "'a mem_hilo"
    using that
  proof (induction n arbitrary: e)
    case (Suc n)
    then have "drop e (cache_memory st1) = cache_memory st1 ! e # drop (Suc e) (cache_memory st1)" "e < entradas st1"
      using tiempos_okD(1) [OF Suc.prems(2)] by (simp_all add: Cons_nth_drop_Suc)
    then show ?case using Suc by (auto simp: tiempos_free split: option.splits)
  qed simp
  note from_0 = this [where e = 0]
  have drop: "solo (drop_page_desde M pid page 0 (entradas st1) h) st1 = solo h
      (case get_cache_entry pid page st1 of None \<Rightarrow> st1
       | Some i \<Rightarrow> (clear_entry i st1)\<lparr>cache_x_process_list := drop_entry M pid (cache_x_process_list st1)\<rparr>)"
    if "tiempos_ok st1" "0 \<le> sint pid" for pid page st1 and h :: "'a mem_hilo"
    using from_0 [of "entradas st1" st1 pid page h] that tiempos_okD(1) [OF that(1)] by (simp add: get_cache_entry_def cong: option.case_cong)
  show ?thesis
  proof (cases "dp_exec_code r = DISCONNECTED_CLIENT")
    case False
    with assms(2) r have "0 \<le> sint (dp_pid r)" by simp
    with False assms(1) show ?thesis
      by (auto simp: delete_page_hilo_def delete_page_def r delete_page_process_hilo_def delete_page_process_def drop
          delete_page_frame_cache(1) bind_eq_Some_conv split: option.splits)
  qed (simp add: delete_page_hilo_def delete_page_def r)
qed

lemma clean_tables_cache:
  "clean_tables M pid st = Some st' \<Longrightarrow> tiempos_ok st' = tiempos_ok st \<and> entradas st' = entradas st"
  by (auto simp: clean_tables_def Let_def tiempos_ok_def bind_eq_Some_conv dest!: clean_frames_cache split: option.splits)

lemma solo_finalize:
  assumes "tiempos_ok st" "fp_exec_code (fst (finalize_process_recv_req junk s)) = DISCONNECTED_CLIENT \<or> 0 \<le> sint (fp_pid (fst (finalize_process_recv_req junk s)))"
  shows "solo (finalize_process_hilo M junk s k) st =
    (case finalize_process M junk s st of None \<Rightarrow> None | Some (s', st') \<Rightarrow> solo (k s') st')"
proof -
  obtain r s1 where r: "finalize_process_recv_req junk s = (r, s1)" by fastforce
  have clean: "solo (clean_cache_desde pid e n h) st1 = solo h (clean_cache pid e n st1)"
    if "e + n \<le> entradas st1" "tiempos_ok st1" "0 \<le> sint pid" for pid e n st1 and h :: "'a mem_hilo"
    using that by (induction n arbitrary: e st1) (auto simp: tiempos_free tiempos_clear)
  have eq: "cleaning_process_entries M pid st = map_option (\<lambda>st'. clean_cache pid 0 (entradas st') st') (clean_tables M pid st)" for pid
    by (cases "clean_frames M pid 0 (n_frames st) st") (simp_all add: cleaning_process_entries_def clean_tables_def Let_def)
  show ?thesis
  proof (cases "fp_exec_code r = DISCONNECTED_CLIENT")
    case False
    with assms(2) r have "0 \<le> sint (fp_pid r)" by simp
    with False assms(1) show ?thesis
      by (auto simp: finalize_process_hilo_def finalize_process_def r cleaning_process_entries_hilo_def eq clean
          dest: clean_tables_cache split: option.splits)
  qed (simp add: finalize_process_hilo_def finalize_process_def r)
qed

lemma solo_asignar: "solo (asignar_hilo M junk init s k) st =
    (case (if init then inicialize_process M junk s st else assign_page M junk s st) of None \<Rightarrow> None | Some (s', st') \<Rightarrow> solo (k s') st')"
  by (auto simp: asignar_hilo_def inicialize_process_def assign_page_def assign_pages_to_process_hilo_def split: prod.split option.split)

lemma pedido_pid:
  "pedido_ok junk READ_OC s st \<Longrightarrow> rd_exec_code (fst (read_recv_req junk s)) = DISCONNECTED_CLIENT \<or> 0 \<le> sint (rd_pid (fst (read_recv_req junk s)))"
  "pedido_ok junk END_PROCESS_OC s st \<Longrightarrow> fp_exec_code (fst (finalize_process_recv_req junk s)) = DISCONNECTED_CLIENT \<or>
     0 \<le> sint (fp_pid (fst (finalize_process_recv_req junk s)))"
  by (auto simp: pedido_ok_def access_ok_def source_consts Let_def)

lemma pedido_pid_delete:
  assumes "mem_inv st" "pedido_ok junk DELETE_PAGE_OC s st"
  shows "dp_exec_code (fst (delete_page_recv_req junk s)) = DISCONNECTED_CLIENT \<or> 0 \<le> sint (dp_pid (fst (delete_page_recv_req junk s)))"
  using assms maps_pid [OF mem_invD(1)] by (fastforce simp: pedido_ok_def source_consts Let_def mapped_def)

lemma solo_serve:
  assumes "mem_inv st" "pedido_ok junk oc s st"
  shows "solo (serve_operation_hilo M junk client oc s k) st =
    (case serve_operation M junk client oc s st of None \<Rightarrow> None | Some (s', st') \<Rightarrow> solo (k s') st')"
proof -
  have t: "tiempos_ok st" by (rule cache_inv_tiempos [OF mem_invD(2) [OF assms(1)]])
  consider "oc = READ_OC" | "oc = DELETE_PAGE_OC" | "oc = END_PROCESS_OC" | "oc \<notin> {READ_OC, DELETE_PAGE_OC, END_PROCESS_OC}" by blast
  then show ?thesis
  proof cases
    case 1
    have pid: "rd_exec_code (fst (read_recv_req junk s)) = DISCONNECTED_CLIENT \<or> 0 \<le> sint (rd_pid (fst (read_recv_req junk s)))"
      using pedido_pid(1) [of junk s st] assms(2) 1 by blast
    show ?thesis by (simp add: solo_read_page [OF t pid] 1 serve_operation_hilo_def serve_operation_def source_consts split: prod.split)
  next
    case 2
    have pid: "dp_exec_code (fst (delete_page_recv_req junk s)) = DISCONNECTED_CLIENT \<or> 0 \<le> sint (dp_pid (fst (delete_page_recv_req junk s)))"
      using pedido_pid_delete [OF assms(1), of junk s] assms(2) 2 by blast
    show ?thesis by (simp add: solo_delete_page [OF t pid] 2 serve_operation_hilo_def serve_operation_def source_consts split: prod.split)
  next
    case 3
    have pid: "fp_exec_code (fst (finalize_process_recv_req junk s)) = DISCONNECTED_CLIENT \<or> 0 \<le> sint (fp_pid (fst (finalize_process_recv_req junk s)))"
      using pedido_pid(2) [of junk s st] assms(2) 3 by blast
    show ?thesis by (simp add: solo_finalize [OF t pid] 3 serve_operation_hilo_def serve_operation_def source_consts split: prod.split)
  next
    case 4
    then show ?thesis
      by (simp add: serve_operation_hilo_def serve_operation_def solo_asignar solo_write_page [OF t] split: prod.split)
  qed
qed

text \<open>The same for the commands of the console.\<close>

lemma solo_dump_cache:
  assumes "length (cache_memory st) = entradas st" "length (last_used_time st) = entradas st"
  shows "solo (dump_cache_desde 0 (entradas st) dump_cache_header k) st = (case dump_cache st of None \<Rightarrow> None | Some out \<Rightarrow> solo (k out) st)"
proof -
  have "solo (dump_cache_desde e n out k) st =
      (case dump_cache_rows (page_bytes st) (drop e (cache_memory st)) (drop e (last_used_time st)) of None \<Rightarrow> None | Some r \<Rightarrow> solo (k (out @ r)) st)"
    if "e + n = entradas st" for e n out
    using that
  proof (induction n arbitrary: e out)
    case (Suc n)
    then have "drop e (cache_memory st) = cache_memory st ! e # drop (Suc e) (cache_memory st)"
      "drop e (last_used_time st) = last_used_time st ! e # drop (Suc e) (last_used_time st)" using assms by (simp_all add: Cons_nth_drop_Suc)
    then show ?case using Suc by (auto split: option.splits)
  qed (simp add: assms)
  from this [of 0] show ?thesis by (simp add: dump_cache_def split: option.splits)
qed

lemma solo_dump_content:
  "solo (dump_content_desde 0 (n_frames st) dump_content_header k) st = solo (k (dump_content st)) st"
proof -
  have "solo (dump_content_desde f n out k) st = solo (k (out @ concat (map (dump_content_row st) [f..<f + n]) @ [CHR 0x0A])) st" for f n out
    by (induction n arbitrary: f out) (simp_all add: upt_conv_Cons del: upt_Suc)
  from this [of 0] show ?thesis by (simp add: dump_content_def)
qed

lemma solo_flush:
  assumes "tiempos_ok st" "e + n \<le> entradas st"
  shows "solo (flush_desde M e n k) st = (case flush_entries M e n st of None \<Rightarrow> None | Some st' \<Rightarrow> solo k st')"
  using assms
proof (induction n arbitrary: e st)
  case (Suc n)
  then have "\<not> (0 \<le> sint (cm_pid (cache_memory st ! e)) \<and> last_used_time st ! e = None)" using tiempos_okD(3) [of st e] by auto
  then show ?case using Suc.prems
    by (auto simp: Let_def Suc.IH tiempos_clear split: option.splits)
qed simp

lemma solo_console:
  assumes "tiempos_ok st"
  shows "solo (console_line_hilo M c p input k) st = (case console_line M c p input st of None \<Rightarrow> None | Some (out, st') \<Rightarrow> solo (k out) st')"
proof -
  note T = tiempos_okD(1,2) [OF assms]
  have dump: "solo (dump_command_hilo q k) st = (case dump_command q st of None \<Rightarrow> None | Some out \<Rightarrow> solo (k out) st)" for q
    by (simp add: dump_command_hilo_def dump_command_def solo_dump_cache [OF T] solo_dump_content)
  have flush: "solo (flush_command_hilo M k) st = (case flush_command M st of None \<Rightarrow> None | Some (out, st') \<Rightarrow> solo (k out) st')"
    by (cases "flush_entries M 0 (entradas st) st") (simp_all add: flush_command_hilo_def flush_command_def solo_flush [OF assms])
  have size: "solo (size_command_hilo M q k) st = solo (k (size_command M q st)) st" for q
    by (simp add: size_command_hilo_def)
  show ?thesis
    by (auto simp: console_line_hilo_def console_line_def Let_def dump flush size split: option.splits prod.splits)
qed

fun atomico :: "mem_lib \<Rightarrow> storage \<Rightarrow> llegada \<Rightarrow> mem_state \<Rightarrow> ((sock + string) \<times> mem_state) option" where
  "atomico M junk (Pedido client ope_code s) st = map_option (\<lambda>(s', st'). (Inl s', st')) (serve_operation M junk client ope_code s st)"
| "atomico M junk (Linea old_command old_param input) st =
     map_option (\<lambda>(out, st'). (Inr out, st')) (console_line M old_command old_param input st)"

fun llegada_ok :: "storage \<Rightarrow> llegada \<Rightarrow> mem_state \<Rightarrow> bool" where
  "llegada_ok junk (Pedido client ope_code s) st = pedido_ok junk ope_code s st"
| "llegada_ok junk (Linea old_command old_param input) st = True"

lemma solo_hilo_de:
  assumes "mem_inv st" "llegada_ok junk l st"
  shows "solo (hilo_de M junk l) st = atomico M junk l st"
proof (cases l)
  case (Pedido client oc s)
  then show ?thesis using assms by (simp add: solo_serve split: option.splits prod.splits)
next
  case (Linea c p input)
  then show ?thesis
    by (cases "console_line M c p input st") (auto simp: solo_console [OF cache_inv_tiempos [OF mem_invD(2) [OF assms(1)]]])
qed

end
