(* ===== verification/Memoria_Concurrente.thy ===== *)
theory Memoria_Concurrente
  imports Memoria_Hilos
begin

text \<open>
  What the locks of the memory process guarantee, and what they do not: no run of its threads ends in a deadlock, a thread that is not disturbed does what its
  handler does as one atomic step, but two writes of a page can leave its cache entry different from its frame, and two reads of a cached page can free
  the same time twice.
\<close>

section \<open>Every run\<close>

definition hilos_de :: "mem_lib \<Rightarrow> storage \<Rightarrow> (cerrojo, mem_state, sock + string) turno list \<Rightarrow> bool" where
  "hilos_de M junk ts \<longleftrightarrow> (\<forall>h. Llega h \<in> set ts \<longrightarrow> h \<in> range (hilo_de M junk))"

text \<open>
  C17: The threads of the memory process never deadlock.  However requests of clients and commands of the console arrive and however their threads are
  interleaved: unless every thread has finished, some thread can take its next step, or some thread has reached an action that is undefined
  or never returns.  No lock is held by two threads unless both share it, a thread that has finished holds none, and the threads cannot take steps for ever, so that
  each request ends.
\<close>

theorem memory_threads_never_deadlock:
  assumes "hilos_de M junk ts" and "correr ts \<lparr>compartido = st, tareas = []\<rparr> = Some sys"
  shows "(list_all terminada (tareas sys) \<or> (\<exists>i. paso i sys \<noteq> None) \<or> list_ex (atascada sys) (tareas sys)) \<and>
    excluyente sys \<and> (\<forall>t \<in> set (tareas sys). terminada t \<longrightarrow> tomados t = []) \<and>
    \<not> (\<exists>run. run 0 = sys \<and> (\<forall>n. \<exists>i. paso i (run n) = Some (run (Suc n))))"
proof -
  have "\<forall>h. Llega h \<in> set ts \<longrightarrow> ordenado h []" using assms(1) ordenado_hilo_de by (auto simp: hilos_de_def)
  from correr_disciplinado [OF assms(2) _ _ this] have ok: "disciplinado sys" "excluyente sys"
    by (simp_all add: disciplinado_def excluyente_def)
  have "tomados t = []" if "t \<in> set (tareas sys)" "terminada t" for t
    using ok(1) that by (auto simp: disciplinado_def terminada_def split: hilo.splits)
  moreover have "\<not> (\<exists>run. run 0 = sys \<and> (\<forall>n. \<exists>i. paso i (run n) = Some (run (Suc n))))"
    using wf_avance [unfolded wf_iff_no_infinite_down_chain] by (auto simp: avance_def)
  ultimately show ?thesis using sin_abrazo_mortal [OF ok(1)] ok(2) by blast
qed

text \<open>
  C18: A thread that is not disturbed does what its handler does.  When no thread holds a lock, let a request or a command arrive and its thread run to its end: it
  has the effect and gives the answer of the handler as one atomic step, and holds no lock afterwards.  So every run in which the threads do not
  overlap is a run of atomic handlers, of which the other theorems speak.
\<close>

theorem thread_alone_is_handler:
  assumes "mem_inv st" and "llegada_ok junk l st" and "\<forall>t \<in> set ts. tomados t = []" and "atomico M junk l st = Some (r, st')"
  shows "\<exists>n. correr (Llega (hilo_de M junk l) # replicate n (Avanza (length ts))) \<lparr>compartido = st, tareas = ts\<rparr> =
    Some \<lparr>compartido = st', tareas = ts @ [\<lparr>pendiente = Listo r, tomados = []\<rparr>]\<rparr>"
proof -
  have "solo (hilo_de M junk l) st = Some (r, st')" by (simp only: solo_hilo_de [OF assms(1,2)] assms(4))
  from solo_anda [OF this ordenado_hilo_de] have "anda [] (hilo_de M junk l) [] st (Listo r) [] st'" .
  from anda_correr [OF this, of "length ts" "ts @ [\<lparr>pendiente = hilo_de M junk l, tomados = []\<rparr>]"] assms(3)
  show ?thesis by (auto simp: nth_append)
qed

text \<open>The console empties the cache while a client is served.\<close>

theorem memory_threads_never_deadlock_witness:
  "\<exists>sys. correr [Llega (hilo_de seq_mem_lib (\<lambda>_. 0) (Linea None None ''flush'')),
      Llega (hilo_de seq_mem_lib (\<lambda>_. 0) (Pedido 0 READ_OC \<lparr>sk_in = read_body (2, 0, 4, 2), sk_out = []\<rparr>)), Avanza 0]
      \<lparr>compartido = tiny_state, tareas = []\<rparr> = Some sys \<and>
    excluyente sys \<and> (list_all terminada (tareas sys) \<or> (\<exists>i. paso i sys \<noteq> None) \<or> list_ex (atascada sys) (tareas sys))"
proof -
  let ?ts = "[Llega (hilo_de seq_mem_lib (\<lambda>_. 0) (Linea None None ''flush'')),
    Llega (hilo_de seq_mem_lib (\<lambda>_. 0) (Pedido 0 READ_OC \<lparr>sk_in = read_body (2, 0, 4, 2), sk_out = []\<rparr>)), Avanza 0]"
  have "strtok_words (CHR '' '') [] ''flush'' = [''flush'']" by code_simp
  then obtain sys where sys: "correr ?ts \<lparr>compartido = tiny_state, tareas = []\<rparr> = Some sys"
    by (auto simp: console_line_hilo_def Obrar_def paso_def Let_def)
  have "hilos_de seq_mem_lib (\<lambda>_. 0) ?ts" by (auto simp: hilos_de_def simp del: hilo_de.simps)
  from memory_threads_never_deadlock [OF this sys] sys show ?thesis by blast
qed

theorem thread_alone_is_handler_witness:
  "\<exists>n s' st'. correr (Llega (hilo_de seq_mem_lib (\<lambda>_. 0) (Pedido 0 READ_OC \<lparr>sk_in = read_body (2, 0, 4, 2), sk_out = []\<rparr>)) # replicate n (Avanza 0))
      \<lparr>compartido = tiny_state, tareas = []\<rparr> = Some \<lparr>compartido = st', tareas = [\<lparr>pendiente = Listo (Inl s'), tomados = []\<rparr>]\<rparr> \<and>
    read_page seq_mem_lib (\<lambda>_. 0) \<lparr>sk_in = read_body (2, 0, 4, 2), sk_out = []\<rparr> tiny_state = Some (s', st')"
proof -
  let ?s = "\<lparr>sk_in = read_body (2, 0, 4, 2), sk_out = []\<rparr>"
  obtain f where f: "maps tiny_state 2 0 f" using tiny_state(3) by (auto simp: mapped_def)
  have "\<not> last_entry_of_other 2 (victim seq_mem_lib 2 0 tiny_state) tiny_state" by (rule tiny_victim) simp
  then obtain s' st' where r: "read_page seq_mem_lib (\<lambda>_. 0) ?s tiny_state = Some (s', st')"
    using read_page_ok [OF seq_mem.mem_commons_axioms tiny_state(1,2) f tiny_coherent, of ?s 4 2 "[]" "\<lambda>_. 0"] by (auto simp: tiny_cache)
  have "llegada_ok (\<lambda>_. 0) (Pedido 0 READ_OC ?s) tiny_state"
    using read_wire.parse_body [OF TrueI, of ?s "(2, 0, 4, 2)" "[]" "\<lambda>_. 0"] by (simp add: pedido_ok_def source_consts access_ok_def)
  moreover have "atomico seq_mem_lib (\<lambda>_. 0) (Pedido 0 READ_OC ?s) tiny_state = Some (Inl s', st')"
    using r by (simp add: serve_operation_def source_consts)
  ultimately show ?thesis
    using thread_alone_is_handler [where ts = "[]" and st = tiny_state and l = "Pedido 0 READ_OC ?s"] tiny_state(1,2) r
    by (fastforce simp: mem_inv_def simp del: hilo_de.simps correr.simps)
qed

section \<open>Two writes of a page\<close>

lemma anda_get_frame:
  assumes "X = []" "get_frame M pid page st = Some f"
  shows "anda X (get_frame_hilo M pid page k) [] st (k f) [] st"
proof -
  obtain h where h: "hashing (memory_conf st) pid page = Some h"
    "f = (if page_is_right st h pid page then Some h else searching_on_overflow M h pid page st)"
    using assms(2) by (auto simp: get_frame_def bind_eq_Some_conv)
  then show ?thesis
    unfolding get_frame_hilo_def assms(1) by (intro anda_Obrar anda.toma anda_Mirar anda.suelta) (auto intro: anda.aqui)
qed

lemma anda_writing_memory:
  assumes w: "write_recv_req junk s = (w, s1)" "wr_exec_code w \<noteq> DISCONNECTED_CLIENT"
    and b: "\<not> (frame_size (memory_conf st) \<le> wr_offset w \<or> frame_size (memory_conf st) < wr_offset w + wr_size w)"
    and m: "writing_memory M w client st = Some (SUCCESS, st1)"
  shows "anda [] (write_page_hilo M junk client s k) [] st (writing_cache_hilo M w (k (write_send_resp SUCCESS s1))) [] st1"
proof -
  obtain f where f: "get_frame M (wr_pid w) (wr_page w) st = Some (Some f)"
    "\<not> (kernel_client st \<noteq> client \<and> it_segment (get_reg (memory st) f) = CODE_SEGMENT)" "write_frame w f st = Some st1"
    using m by (auto simp: writing_memory_def write_frame_def Let_def PAGE_FAULT_def SUCCESS_def SEGMENTATION_FAULT_def
        split: option.splits if_splits)
  show ?thesis
    unfolding write_page_hilo_def w(1) prod.case writing_memory_hilo_def using w(2) b
    by simp (rule anda_Mirar, simp, rule anda_trans [OF anda_get_frame [OF refl f(1)]], simp, rule anda_Mirar, simp add: f(2),
        rule anda.toma, simp, rule anda.hace, rule f(3), rule anda.suelta, simp, simp add: anda.aqui)
qed

text \<open>A write to a page that is in the cache.\<close>

definition acierto :: "mem_lib \<Rightarrow> nat \<Rightarrow> u32 \<Rightarrow> u32 \<Rightarrow> nat \<Rightarrow> byte list \<Rightarrow> mem_state \<Rightarrow> mem_state" where
  "acierto M e pid page off buf st =
     set_time M e (st\<lparr>cache_memory := (cache_memory st)[e := \<lparr>cm_pid = pid, cm_page = page,
       cm_content = mem_write off buf (cm_content (cache_memory st ! e))\<rparr>]\<rparr>)"

lemma cached_at:
  assumes "get_cache_entry pid page st = Some e"
  shows "e < length (cache_memory st)" "cm_pid (cache_memory st ! e) = pid" "cm_page (cache_memory st ! e) = page"
  using find_index_SomeD [OF assms [unfolded get_cache_entry_def]] by auto

lemma acierto_fields [simp]:
  "memory (acierto M e pid page off buf st) = memory st" "memory_conf (acierto M e pid page off buf st) = memory_conf st"
  "e < length (cache_memory st) \<Longrightarrow> cm_content (cache_memory (acierto M e pid page off buf st) ! e) = mem_write off buf (cm_content (cache_memory st ! e))"
  by (simp_all add: acierto_def set_time_def)

lemma acierto_maps [simp]: "maps (acierto M e pid page off buf st) = maps st"
  by (simp add: acierto_def set_time_def maps_def used_def user_frame_def fun_eq_iff)

lemma acierto_entry:
  assumes "get_cache_entry pid page st = Some e"
  shows "get_cache_entry pid page (acierto M e pid page off buf st) = Some e"
  using assms by (auto simp: get_cache_entry_def acierto_def set_time_def find_index_Some_iff nth_list_update)

lemma acierto_tiempos:
  assumes "tiempos_ok st"
  shows "tiempos_ok (acierto M e pid page off buf st)"
proof -
  have "last_used_time (acierto M e pid page off buf st) ! i \<noteq> None"
    if "i < entradas st" "0 \<le> sint (cm_pid (cache_memory (acierto M e pid page off buf st) ! i))" for i
    using that assms by (cases "i = e") (auto simp: tiempos_ok_def acierto_def set_time_def)
  then show ?thesis using assms by (simp add: tiempos_ok_def) (simp add: acierto_def set_time_def)
qed

lemma writing_cache_hit:
  assumes c: "get_cache_entry (wr_pid w) (wr_page w) st = Some e" and "length (cm_content (cache_memory st ! e)) = n" "n < 2 ^ 31"
    and "unat (wr_offset w) + unat (wr_size w) \<le> n" "length (wr_buffer w) = unat (wr_size w)" "0 \<le> sint (wr_pid w)"
  shows "writing_cache M w st = Some (acierto M e (wr_pid w) (wr_page w) (unat (wr_offset w)) (wr_buffer w) st)"
proof -
  have "0 \<le> sint (wr_offset w)" "0 \<le> sint (wr_size w)" using assms(3,4) by (auto intro!: sint_nonneg_u32)
  then show ?thesis
    using assms cached_at [OF c] by (simp add: writing_cache_def update_cache_def acierto_def set_time_def Let_def)
qed

lemma anda_writing_cache:
  assumes "tiempos_ok st" "writing_cache M w st = Some st'"
  shows "anda [] (writing_cache_hilo M w (Listo r)) [] st (Listo r) [] st'"
  by (rule solo_anda) (simp_all add: solo_writing_cache [OF assms(1)] assms(2) ordenado_writing_cache)

text \<open>Two threads take turns: the first goes on to some point, then the second, and so on.\<close>

lemma turnos_de_dos:
  assumes "anda [] a [] s a1 [] s1" "anda [] b [] s1 b1 [] s2" "anda [] b1 [] s2 b2 [] s3" "anda [] a1 [] s3 a2 [] s4"
  shows "\<exists>ts. correr (Llega a # Llega b # ts) \<lparr>compartido = s, tareas = []\<rparr> =
    Some \<lparr>compartido = s4, tareas = [\<lparr>pendiente = a2, tomados = []\<rparr>, \<lparr>pendiente = b2, tomados = []\<rparr>]\<rparr>"
proof -
  let ?t = "\<lambda>x y. [\<lparr>pendiente = x, tomados = []\<rparr>, \<lparr>pendiente = y, tomados = []\<rparr>]"
  have 0: "\<exists>n. correr (replicate n (Avanza 0)) \<lparr>compartido = s, tareas = ?t x y\<rparr> = Some \<lparr>compartido = s', tareas = ?t x' y\<rparr>"
    if "anda [] x [] s x' [] s'" for x x' y s s' using anda_correr [OF that, of 0 "?t x y"] by (simp add: less_Suc_eq)
  have 1: "\<exists>n. correr (replicate n (Avanza 1)) \<lparr>compartido = s, tareas = ?t x y\<rparr> = Some \<lparr>compartido = s', tareas = ?t x y'\<rparr>"
    if "anda [] y [] s y' [] s'" for x y y' s s' using anda_correr [OF that, of 1 "?t x y"] by (simp add: less_Suc_eq)
  obtain n1 n2 n3 n4 where
    "correr (replicate n1 (Avanza 0)) \<lparr>compartido = s, tareas = ?t a b\<rparr> = Some \<lparr>compartido = s1, tareas = ?t a1 b\<rparr>"
    "correr (replicate n2 (Avanza 1)) \<lparr>compartido = s1, tareas = ?t a1 b\<rparr> = Some \<lparr>compartido = s2, tareas = ?t a1 b1\<rparr>"
    "correr (replicate n3 (Avanza 1)) \<lparr>compartido = s2, tareas = ?t a1 b1\<rparr> = Some \<lparr>compartido = s3, tareas = ?t a1 b2\<rparr>"
    "correr (replicate n4 (Avanza 0)) \<lparr>compartido = s3, tareas = ?t a1 b2\<rparr> = Some \<lparr>compartido = s4, tareas = ?t a2 b2\<rparr>"
    using 0 [OF assms(1)] 1 [OF assms(2)] 1 [OF assms(3)] 0 [OF assms(4)] by blast
  then show ?thesis
    by (intro exI [of _ "replicate n1 (Avanza 0) @ replicate n2 (Avanza 1) @ replicate n3 (Avanza 1) @ replicate n4 (Avanza 0)"])
      (simp add: correr_append)
qed

lemma dos_escrituras:
  assumes "mem_commons M" and "mem_inv st" and "maps st pid page f" and "get_cache_entry pid page st = Some e"
    and "kernel_client st = client \<or> it_segment (get_reg (memory st) f) \<noteq> CODE_SEGMENT"
    and "unat off + unat sz \<le> page_bytes st" and "unat off < page_bytes st" and "0 < unat sz"
    and "length b1 = unat sz" and "length b2 = unat sz" and "b1 \<noteq> b2"
    and w: "w = (\<lambda>b. \<lparr>wr_exec_code = SUCCESS, wr_pid = pid, wr_page = page, wr_offset = off, wr_size = sz, wr_buffer = b\<rparr>)"
  obtains st1 st2 st3 st4 where "writing_memory M (w b1) client st = Some (SUCCESS, st1)" "writing_memory M (w b2) client st1 = Some (SUCCESS, st2)"
    "writing_cache M (w b2) st2 = Some st3" "writing_cache M (w b1) st3 = Some st4" "tiempos_ok st2" "tiempos_ok st3"
    "memory_conf st1 = memory_conf st" "maps st4 pid page f" "page_content st4 f = mem_write (unat off) b2 (page_content st f)"
    "cm_content (cache_memory st4 ! e) = mem_write (unat off) b1 (cm_content (cache_memory st ! e))" "\<not> coherent st4 pid page"
proof -
  note fi = mem_invD(1) [OF assms(2)] and ci = mem_invD(2) [OF assms(2)]
  have u: "used st f" and f: "f < n_frames st" using assms(3) maps_frame by (auto simp: maps_def)
  have pid: "0 < sint pid" by (rule maps_pid [OF fi assms(3)])
  note e = cached_at [OF assms(4)]
  have small: "page_bytes st < 2 ^ 31" by (rule mem_commons.page_bytes_small [OF assms(1) fi])
  have content: "length (cm_content (cache_memory st ! e)) = page_bytes st" using ci e(1) by (simp add: cache_inv_def cache_shape_def)
  let ?st1 = "poke f (unat off) b1 st"
  let ?st2 = "poke f (unat off) b2 ?st1"
  let ?st3 = "acierto M e pid page (unat off) b2 ?st2"
  let ?st4 = "acierto M e pid page (unat off) b1 ?st3"
  have bl: "unat off + length b \<le> page_bytes st" if "length b = unat sz" for b using that assms(6) by simp
  note P1 = poke_inv [OF fi u bl [OF assms(9)]]
  have "maps ?st1 pid page f" using P1(2) assms(3) by simp
  then have u1: "used ?st1 f" by (simp add: maps_def)
  have P2: "frame_inv ?st2" "maps ?st2 = maps st" using poke_inv [OF P1(1) u1, of "unat off" b2] bl [OF assms(10)] P1(2) by simp_all
  have seg: "kernel_client ?st1 = client \<or> it_segment (get_reg (memory ?st1) f) \<noteq> CODE_SEGMENT"
    using assms(5) poke_reg [OF frame_invD(1) [OF fi] _ bl [OF assms(9)] f, of f] u by (simp add: used_def)
  have m1: "writing_memory M (w b1) client st = Some (SUCCESS, ?st1)"
    using mem_commons.writing_memory_poke [OF assms(1) fi, of "w b1"] assms(3,5,6,9) by (simp add: w)
  have m2: "writing_memory M (w b2) client ?st1 = Some (SUCCESS, ?st2)"
    using mem_commons.writing_memory_poke [OF assms(1) P1(1), of "w b2"] assms(3,6,10) seg P1(2) by (simp add: w)
  have entry: "get_cache_entry pid page ?st2 = Some e" "get_cache_entry pid page ?st3 = Some e"
    using assms(4) acierto_entry [of pid page ?st2 e] by (simp_all add: get_cache_entry_def)
  have t: "tiempos_ok ?st2" "tiempos_ok ?st3"
    using cache_inv_tiempos [OF ci] acierto_tiempos [of ?st2] by (simp_all add: tiempos_ok_def)
  have c2: "writing_cache M (w b2) ?st2 = Some ?st3"
    using writing_cache_hit [of "w b2" ?st2 e "page_bytes st"] entry(1) content small assms(6,10) pid by (simp add: w)
  have "length (cm_content (cache_memory ?st3 ! e)) = page_bytes st" using content assms(6,10) e(1) by simp
  then have c1: "writing_cache M (w b1) ?st3 = Some ?st4"
    using writing_cache_hit [of "w b1" ?st3 e "page_bytes st"] entry(2) small assms(6,9) pid by (simp add: w)
  have same: "mem_write (unat off) b (mem_write (unat off) b' m) = mem_write (unat off) b m"
    if "unat off + unat sz \<le> length m" "length b = unat sz" "length b' = unat sz" for m b b'
    using that by (simp add: mem_write_def)
  have pl: "length (page_content st f) = page_bytes st"
    using frame_in_memory [OF frame_invD(1) [OF fi] f] by (simp add: page_content_def length_mem_read)
  have "page_content ?st4 f = page_content ?st2 f" by (simp add: page_content_def)
  also have "\<dots> = mem_write (unat off) b2 (page_content st f)"
    using poke_content [OF frame_invD(1) [OF P1(1)], of f f "unat off" b2] poke_content [OF frame_invD(1) [OF fi] f f bl [OF assms(9)]]
      f assms(6,9,10) pl by (simp add: same)
  finally have mem: "page_content ?st4 f = mem_write (unat off) b2 (page_content st f)" .
  have cache: "cm_content (cache_memory ?st4 ! e) = mem_write (unat off) b1 (cm_content (cache_memory st ! e))"
    using e(1) content assms(6,9,10) by (simp add: acierto_def set_time_def same)
  have maps4: "maps ?st4 pid page f" using assms(3) P2(2) by simp
  have "mem_read (unat off) (unat sz) (cm_content (cache_memory ?st4 ! e)) = b1" "mem_read (unat off) (unat sz) (page_content ?st4 f) = b2"
    unfolding mem cache using content pl assms(6,9,10) by (simp_all add: mem_read_write_same)
  then have "cm_content (cache_memory ?st4 ! e) \<noteq> page_content ?st4 f" using assms(11) by auto
  moreover have "e < length (cache_memory ?st4)" "cm_pid (cache_memory ?st4 ! e) = pid" "cm_page (cache_memory ?st4 ! e) = page"
    using e by (simp_all add: acierto_def set_time_def)
  ultimately have "\<not> coherent ?st4 pid page" using maps4 unfolding coherent_def by blast
  then show ?thesis by (rule that [OF m1 m2 c2 c1 t poke_fields(1) maps4 mem cache])
qed

text \<open>
  C19: The locks do not keep the cache in agreement with the memory when two threads write the same page.  Each write changes the frame and then the cache entry,
  and each change is under its lock, but the two locks are not held together: when both frames are written first and the cache entry is then filled in the opposite
  order, both clients are answered \<open>SUCCESS\<close>, the frame has the bytes of the second write and the cache entry those of the first, so that later reads do not see
  the memory.  Either order of the two requests as a whole keeps the agreement.
\<close>

theorem concurrent_writes_disagree:
  assumes "mem_commons M" and "mem_inv st" and "maps st pid page f" and "get_cache_entry pid page st = Some e"
    and "kernel_client st = client \<or> it_segment (get_reg (memory st) f) \<noteq> CODE_SEGMENT"
    and "unat off + unat sz \<le> page_bytes st" and "unat off < page_bytes st" and "0 < unat sz"
    and "length b1 = unat sz" and "length b2 = unat sz" and "b1 \<noteq> b2"
    and "sk_in s1 = write_body (pid, page, off, sz, b1) @ r1" and "sk_in s2 = write_body (pid, page, off, sz, b2) @ r2"
  shows "\<exists>ts st'. correr (Llega (hilo_de M junk (Pedido client WRITE_OC s1)) # Llega (hilo_de M junk (Pedido client WRITE_OC s2)) # ts)
      \<lparr>compartido = st, tareas = []\<rparr> = Some \<lparr>compartido = st', tareas =
        [\<lparr>pendiente = Listo (Inl (write_send_resp SUCCESS (s1\<lparr>sk_in := r1\<rparr>))), tomados = []\<rparr>,
         \<lparr>pendiente = Listo (Inl (write_send_resp SUCCESS (s2\<lparr>sk_in := r2\<rparr>))), tomados = []\<rparr>]\<rparr> \<and>
    maps st' pid page f \<and> page_content st' f = mem_write (unat off) b2 (page_content st f) \<and>
    cm_content (cache_memory st' ! e) = mem_write (unat off) b1 (cm_content (cache_memory st ! e)) \<and> \<not> coherent st' pid page"
proof -
  let ?w = "\<lambda>b. \<lparr>wr_exec_code = SUCCESS, wr_pid = pid, wr_page = page, wr_offset = off, wr_size = sz, wr_buffer = b\<rparr>"
  have v: "write_valid (pid, page, off, sz, b)" if "length b = unat sz" for b
    using that assms(8) unat_u32_less [of sz] by (auto simp: write_valid_def)
  have w1: "write_recv_req junk s1 = (?w b1, s1\<lparr>sk_in := r1\<rparr>)" and w2: "write_recv_req junk s2 = (?w b2, s2\<lparr>sk_in := r2\<rparr>)"
    using write_wire.parse_body [OF v assms(12)] write_wire.parse_body [OF v assms(13)] assms(9,10) by simp_all
  have ok: "\<not> (frame_size (memory_conf st) \<le> off \<or> frame_size (memory_conf st) < off + sz)"
    by (rule mem_commons.bound_check [OF assms(1) mem_invD(1) [OF assms(2)] assms(6,7)])
  obtain st1 st2 st3 st4 where st: "writing_memory M (?w b1) client st = Some (SUCCESS, st1)" "writing_memory M (?w b2) client st1 = Some (SUCCESS, st2)"
    "writing_cache M (?w b2) st2 = Some st3" "writing_cache M (?w b1) st3 = Some st4" "tiempos_ok st2" "tiempos_ok st3"
    "memory_conf st1 = memory_conf st" "maps st4 pid page f" "page_content st4 f = mem_write (unat off) b2 (page_content st f)"
    "cm_content (cache_memory st4 ! e) = mem_write (unat off) b1 (cm_content (cache_memory st ! e))" "\<not> coherent st4 pid page"
    by (rule dos_escrituras [OF assms(1-11) refl])
  obtain ts where ts: "correr (Llega (hilo_de M junk (Pedido client WRITE_OC s1)) # Llega (hilo_de M junk (Pedido client WRITE_OC s2)) # ts)
      \<lparr>compartido = st, tareas = []\<rparr> = Some \<lparr>compartido = st4, tareas =
        [\<lparr>pendiente = Listo (Inl (write_send_resp SUCCESS (s1\<lparr>sk_in := r1\<rparr>))), tomados = []\<rparr>,
         \<lparr>pendiente = Listo (Inl (write_send_resp SUCCESS (s2\<lparr>sk_in := r2\<rparr>))), tomados = []\<rparr>]\<rparr>"
    using turnos_de_dos [OF anda_writing_memory [OF w1 _ _ st(1)] anda_writing_memory [OF w2 _ _ st(2)]
        anda_writing_cache [OF st(5,3)] anda_writing_cache [OF st(6,4)]] ok st(7)
    by (auto simp: serve_operation_hilo_def source_consts)
  with st(8-11) show ?thesis by blast
qed

text \<open>The memory with its one page in the cache.\<close>

lemma tiny_cached:
  obtains st f where "mem_inv st" "maps st 2 0 f" "get_cache_entry 2 0 st = Some 0" "kernel_client st = 0" "page_bytes st = 32"
proof -
  obtain f where f: "maps tiny_state 2 0 f" using tiny_state(3) by (auto simp: mapped_def)
  let ?b = "replicate 32 7" and ?s = "\<lparr>sk_in = write_body (2, 0, 0, 32, replicate 32 7), sk_out = []\<rparr>"
  let ?st1 = "poke f (unat (0 :: u32)) (take (unat (32 :: u32)) ?b) tiny_state"
  have "\<not> last_entry_of_other 2 (victim seq_mem_lib 2 0 tiny_state) tiny_state" by (rule tiny_victim) simp
  then obtain x t l where st: "cache_inv (fill_entry 0 2 0 x t l ?st1)" "frame_inv ?st1" "maps ?st1 = maps tiny_state"
    using seq_mem.write_page_effect [OF tiny_state(1,2) f _ _ _ _ _ _ _ refl refl, of 0 0 32 ?b ?s "[]" "\<lambda>_. 0"]
    by (auto simp: tiny_cache write_valid_def tiny_victim)
  let ?st = "fill_entry 0 2 0 x t l ?st1"
  show ?thesis
  proof (rule that [of ?st f])
    show "mem_inv ?st" using st(1,2) by (simp add: mem_inv_def)
    show "maps ?st 2 0 f" using f st(3) by simp
    show "get_cache_entry 2 0 ?st = Some 0" by (simp add: get_cache_entry_def fill_entry_def tiny_cache)
    show "kernel_client ?st = 0" "page_bytes ?st = 32" by (simp_all add: fill_entry_def tiny_cache)
  qed
qed

theorem concurrent_writes_disagree_witness:
  "\<exists>st ts st'. correr (Llega (hilo_de seq_mem_lib (\<lambda>_. 0) (Pedido 0 WRITE_OC \<lparr>sk_in = write_body (2, 0, 4, 2, [1, 1]), sk_out = []\<rparr>)) #
      Llega (hilo_de seq_mem_lib (\<lambda>_. 0) (Pedido 0 WRITE_OC \<lparr>sk_in = write_body (2, 0, 4, 2, [2, 2]), sk_out = []\<rparr>)) # ts)
      \<lparr>compartido = st, tareas = []\<rparr> = Some st' \<and> \<not> coherent (compartido st') 2 0"
proof -
  obtain st f where st: "mem_inv st" "maps st 2 0 f" "get_cache_entry 2 0 st = Some 0" "kernel_client st = 0" "page_bytes st = 32"
    by (rule tiny_cached)
  from concurrent_writes_disagree [OF seq_mem.mem_commons_axioms st(1-3), of 0 4 2 "[1, 1]" "[2, 2]" "\<lparr>sk_in = write_body (2, 0, 4, 2, [1, 1]), sk_out = []\<rparr>" "[]"
      "\<lparr>sk_in = write_body (2, 0, 4, 2, [2, 2]), sk_out = []\<rparr>" "[]" "\<lambda>_. 0"] st(4,5)
  show ?thesis by fastforce
qed

section \<open>Two reads of a page\<close>

lemma anda_get_cache_entry:
  assumes "get_cache_entry pid page st = Some e" "length (cache_memory st) = entradas st" "\<forall>p \<in> set X. p = (Entrada e, Compartido)"
  shows "anda X (get_cache_entry_hilo pid page Compartido k) [] st (k (Some e)) [(Entrada e, Compartido)] st"
proof -
  let ?hit = "\<lambda>i. cm_pid (cache_memory st ! i) = pid \<and> cm_page (cache_memory st ! i) = page"
  have e: "e < entradas st" "?hit e" "\<forall>i < e. \<not> ?hit i"
    using assms(1,2) by (auto simp: get_cache_entry_def find_index_Some_iff)
  have "anda X (get_cache_entry_desde pid page Compartido i n k) [] st (k (Some e)) [(Entrada e, Compartido)] st"
    if "i + n = entradas st" "i \<le> e" for i n
    using that
  proof (induction n arbitrary: i)
    case 0
    then show ?case using e(1) by simp
  next
    case (Suc n)
    have free: "list_all (compatible (Entrada i) Compartido) (X @ [])" using assms(3) by (auto simp: list_all_iff compatible_def)
    show ?case
    proof (cases "i = e")
      case True
      then show ?thesis using e(2) free by (auto intro!: anda.toma anda_Mirar anda.aqui)
    next
      case False
      then have "i < e" using Suc.prems by simp
      with e(3) have "\<not> ?hit i" by blast
      moreover have "anda X (get_cache_entry_desde pid page Compartido (Suc i) n k) [] st (k (Some e)) [(Entrada e, Compartido)] st"
        using Suc \<open>i < e\<close> by simp
      ultimately show ?thesis using free by (auto intro!: anda.toma anda_Mirar anda.suelta)
    qed
  qed
  from this [of 0 "entradas st"] show ?thesis by (auto simp: get_cache_entry_hilo_def intro: anda_Mirar)
qed

text \<open>A read of a cached page up to the point where it frees the time of the entry.\<close>

lemma anda_read_hit:
  assumes r: "read_recv_req junk s = (r, s1)" "rd_exec_code r \<noteq> DISCONNECTED_CLIENT"
    and b: "\<not> (frame_size (memory_conf st) \<le> rd_offset r \<or> frame_size (memory_conf st) < rd_offset r + rd_size r)"
    and c: "get_cache_entry (rd_pid r) (rd_page r) st = Some e" "length (cache_memory st) = entradas st"
    and s': "send_cache_entry r e s1 st = Some s'" and X: "\<forall>p \<in> set X. p = (Entrada e, Compartido)"
  shows "\<exists>h. anda X (read_page_hilo M junk s k) [] st (Hacer (free_time e) h) [(Entrada e, Compartido)] st"
proof -
  let ?k = "\<lambda>(hit, s2). if hit then k s2 else readind_memory_hilo M r s2 k"
  let ?h = "\<lambda>st. Hacer (\<lambda>st. Some (set_time M e st)) (\<lambda>st. Soltar (Entrada e) (?k (True, s')))"
  have "anda X (read_cache_entry_and_send_hilo M r e s1 (\<lambda>s'. ?k (True, s'))) [(Entrada e, Compartido)] st
      (Hacer (free_time e) ?h) [(Entrada e, Compartido)] st"
    unfolding read_cache_entry_and_send_hilo_def by (rule anda_Obrar) (use s' in \<open>auto intro: anda.aqui\<close>)
  then have "anda X (reading_cache_hilo M r s1 ?k) [] st (Hacer (free_time e) ?h) [(Entrada e, Compartido)] st"
    unfolding reading_cache_hilo_def by (intro anda_trans [OF anda_get_cache_entry [OF c X]]) simp
  then have "anda X (read_page_hilo M junk s k) [] st (Hacer (free_time e) ?h) [(Entrada e, Compartido)] st"
    unfolding read_page_hilo_def r(1) prod.case using r(2) b by (auto intro: anda_Mirar)
  then show ?thesis by blast
qed

lemma anda_read_cached:
  assumes "mem_commons M" and "mem_inv st" and "get_cache_entry pid page st = Some e"
    and "unat off + unat sz \<le> page_bytes st" and "unat off < page_bytes st" and s: "sk_in s = read_body (pid, page, off, sz) @ rest"
    and x: "memory_conf x = memory_conf st" "cache_memory x = cache_memory st" and X: "\<forall>p \<in> set X. p = (Entrada e, Compartido)"
  shows "\<exists>h. anda X (read_page_hilo M junk s k) [] x (Hacer (free_time e) h) [(Entrada e, Compartido)] x"
proof -
  let ?r = "\<lparr>rd_exec_code = SUCCESS, rd_pid = pid, rd_page = page, rd_offset = off, rd_size = sz\<rparr>"
  note fi = mem_invD(1) [OF assms(2)] and ci = mem_invD(2) [OF assms(2)]
  note c = cached_at [OF assms(3)]
  have content: "length (cm_content (cache_memory st ! e)) = page_bytes st" using ci c(1) by (simp add: cache_inv_def cache_shape_def)
  have small: "unat sz < 2 ^ 31" using assms(4) mem_commons.page_bytes_small [OF assms(1) fi] by simp
  have "\<exists>s'. send_cache_entry ?r e (s\<lparr>sk_in := rest\<rparr>) x = Some s'"
    using mem_commons.read_send_resp_data [OF assms(1) _ small] content assms(4) x(2)
    by (auto simp: send_cache_entry_def Let_def length_mem_read)
  then obtain s' where "send_cache_entry ?r e (s\<lparr>sk_in := rest\<rparr>) x = Some s'" by blast
  then show ?thesis
    using read_wire.parse_body [OF TrueI s] mem_commons.bound_check [OF assms(1) fi assms(4,5)] assms(3)
      tiempos_okD(1) [OF cache_inv_tiempos [OF ci]] x X
    by (intro anda_read_hit [where r = ?r]) (simp_all add: get_cache_entry_def SUCCESS_def DISCONNECTED_CLIENT_def)
qed

text \<open>
  C16: Two clients that read the same cached page can make the process free memory twice.  A read changes the time of the entry under a lock that other
  readers share: when both have taken it before either changes the time, the first frees the time, and the next action of the second is to free
  it again, which is undefined; both hold the lock of the entry at that moment, as they may.
\<close>

theorem concurrent_reads_free_twice:
  assumes "mem_commons M" and "mem_inv st" and "get_cache_entry pid page st = Some e" and "0 < sint pid"
    and "unat off + unat sz \<le> page_bytes st" and "unat off < page_bytes st"
    and "sk_in s1 = read_body (pid, page, off, sz) @ r1" and "sk_in s2 = read_body (pid, page, off, sz) @ r2"
  shows "\<exists>ts sys. correr (Llega (hilo_de M junk (Pedido c1 READ_OC s1)) # Llega (hilo_de M junk (Pedido c2 READ_OC s2)) # ts)
      \<lparr>compartido = st, tareas = []\<rparr> = Some sys \<and>
    map tomados (tareas sys) = [[(Entrada e, Compartido)], [(Entrada e, Compartido)]] \<and> atascada sys (tareas sys ! 1)"
proof -
  let ?k = "\<lambda>s'. Listo (Inl s') :: (sock + string) mem_hilo"
  let ?H = "[(Entrada e, Compartido)]"
  note t = cache_inv_tiempos [OF mem_invD(2) [OF assms(2)]] and c = cached_at [OF assms(3)]
  let ?a = "read_page_hilo M junk s1 ?k" and ?b = "read_page_hilo M junk s2 ?k"
  obtain h1 where "anda [] ?a [] st (Hacer (free_time e) h1) ?H st" using anda_read_cached [OF assms(1-3,5-7) refl refl, of "[]"] by auto
  moreover obtain x where x: "free_time e st = Some x" "memory_conf x = memory_conf st" "cache_memory x = cache_memory st" "free_time e x = None"
    using tiempos_okD(1,2) [OF t] tiempos_okD(3) [OF t, of e] c assms(4) by (auto simp: free_time_def)
  ultimately have first: "anda [] ?a [] st (h1 st) ?H x" by (auto intro: anda_trans anda.hace anda.aqui)
  obtain h2 where second: "anda ?H ?b [] x (Hacer (free_time e) h2) ?H x" using anda_read_cached [OF assms(1-3,5,6,8) x(2,3), of ?H] by auto
  let ?t = "\<lambda>a H b H'. [\<lparr>pendiente = a, tomados = H\<rparr>, \<lparr>pendiente = b, tomados = H'\<rparr>]"
  obtain n1 where "correr (replicate n1 (Avanza 0)) \<lparr>compartido = st, tareas = ?t ?a [] ?b []\<rparr> =
      Some \<lparr>compartido = x, tareas = ?t (h1 st) ?H ?b []\<rparr>"
    using anda_correr [OF first, of 0 "?t ?a [] ?b []"] by (auto simp: less_Suc_eq)
  moreover obtain n2 where "correr (replicate n2 (Avanza 1)) \<lparr>compartido = x, tareas = ?t (h1 st) ?H ?b []\<rparr> =
      Some \<lparr>compartido = x, tareas = ?t (h1 st) ?H (Hacer (free_time e) h2) ?H\<rparr>"
    using anda_correr [OF second, of 1 "?t (h1 st) ?H ?b []"] by (auto simp: less_Suc_eq)
  ultimately have "correr (Llega ?a # Llega ?b # replicate n1 (Avanza 0) @ replicate n2 (Avanza 1)) \<lparr>compartido = st, tareas = []\<rparr> =
      Some \<lparr>compartido = x, tareas = ?t (h1 st) ?H (Hacer (free_time e) h2) ?H\<rparr>"
    by (simp add: correr_append)
  moreover have "hilo_de M junk (Pedido c READ_OC s) = read_page_hilo M junk s ?k" for c s
    by (simp add: serve_operation_hilo_def source_consts)
  ultimately show ?thesis using x(4) by (intro exI conjI) (auto simp: atascada_def)
qed

theorem concurrent_reads_free_twice_witness:
  "\<exists>st ts sys. correr (Llega (hilo_de seq_mem_lib (\<lambda>_. 0) (Pedido 5 READ_OC \<lparr>sk_in = read_body (2, 0, 4, 2), sk_out = []\<rparr>)) #
      Llega (hilo_de seq_mem_lib (\<lambda>_. 0) (Pedido 6 READ_OC \<lparr>sk_in = read_body (2, 0, 4, 2), sk_out = []\<rparr>)) # ts)
      \<lparr>compartido = st, tareas = []\<rparr> = Some sys \<and> atascada sys (tareas sys ! 1)"
proof -
  obtain st f where st: "mem_inv st" "maps st 2 0 f" "get_cache_entry 2 0 st = Some 0" "kernel_client st = 0" "page_bytes st = 32"
    by (rule tiny_cached)
  from concurrent_reads_free_twice [OF seq_mem.mem_commons_axioms st(1,3), of 4 2 "\<lparr>sk_in = read_body (2, 0, 4, 2), sk_out = []\<rparr>" "[]"
      "\<lparr>sk_in = read_body (2, 0, 4, 2), sk_out = []\<rparr>" "[]" "\<lambda>_. 0" 5 6] st(5)
  show ?thesis by auto
qed

end
