(* ===== verification/FS_Prot.thy ===== *)
theory FS_Prot
  imports Memory_Prot
begin

text \<open>
  The file-system protocol of \<open>shared-library/file_system_prot.h\<close> and \<open>file_system_prot.c\<close>: client
  calls, server-side parsers and answers.  A path is a C string: the bytes in front of its
  terminating \<open>NUL\<close>, which is sent along with them (\<open>strlen (path) + 1\<close> bytes).  The codes \<open>SUCCESS\<close>,
  \<open>DISCONNECTED_CLIENT\<close>, \<open>DISCONNECTED_SERVER\<close> and \<open>ENOSPC\<close> have the values they have in the memory
  protocol.  \<open>fs_handshake\<close> is left out: it passes the address of its own pointer parameter as the
  address of a descriptor, so which descriptor it uses is not determined by the source.
\<close>

section \<open>Constants\<close>

definition FS_HANDSHAKE_OC :: int where [source_consts]: "FS_HANDSHAKE_OC = 1"
definition FS_VALIDATE_FILE_OC :: int where [source_consts]: "FS_VALIDATE_FILE_OC = 2"
definition FS_CREATE_FILE_OC :: int where [source_consts]: "FS_CREATE_FILE_OC = 3"
definition FS_DELETE_FILE_OC :: int where [source_consts]: "FS_DELETE_FILE_OC = 4"
definition FS_READ_FILE_OC :: int where [source_consts]: "FS_READ_FILE_OC = 5"
definition FS_WRITE_FILE_OC :: int where [source_consts]: "FS_WRITE_FILE_OC = 6"
definition ISREG :: int where [source_consts]: "ISREG = 2"
definition ISDIR :: int where [source_consts]: "ISDIR = 3"
definition ISNOTREG :: int where [source_consts]: "ISNOTREG = -205"

section \<open>Shared routines\<close>

definition fs_recv_ope_cod :: "storage \<Rightarrow> sock \<Rightarrow> int \<times> sock" where
  "fs_recv_ope_cod junk s =
     (case recv_storage junk 1 s of
        (None, s') \<Rightarrow> (DISCONNECTED_CLIENT, s')
      | (Some bs, s') \<Rightarrow> (int (unat (hd bs)), s'))"

text \<open>A path with its size, as every request carries it.\<close>

definition path_bytes :: "byte list \<Rightarrow> byte list" where
  "path_bytes path = u32_bytes (word_of_nat (length path + 1)) @ path @ [0]"

definition send_request :: "storage \<Rightarrow> byte list \<Rightarrow> int \<Rightarrow> sock \<Rightarrow> int \<times> sock" where
  "send_request junk path ope_cod s =
     (let request = [oc_byte ope_cod] @ path_bytes path
      in recv_code junk (socket_send request s))"

definition send_resp :: "int \<Rightarrow> sock \<Rightarrow> sock" where
  "send_resp resp_code s = socket_write (code_bytes resp_code) s"

definition fs_handshake_resp :: "int \<Rightarrow> sock \<Rightarrow> sock" where
  "fs_handshake_resp resp_code s = send_resp resp_code s"

text \<open>
  Receiving a path: its size, then that many bytes into fresh storage.  \<open>None\<close> when one of the two
  receives reports a disconnection.
\<close>

definition recv_path :: "storage \<Rightarrow> sock \<Rightarrow> byte list option \<times> sock" where
  "recv_path junk s =
     (case recv_u32 junk s of
        (None, s1) \<Rightarrow> (None, s1)
      | (Some path_size, s1) \<Rightarrow> recv_storage junk (unat path_size) s1)"

section \<open>Validate, create and delete\<close>

text \<open>The pointer \<open>path\<close> is \<open>None\<close> while it has not been assigned.\<close>

record t_v_file_req =
  vf_exec_code :: int
  vf_path :: "byte list option"

definition fs_validate_file :: "storage \<Rightarrow> byte list \<Rightarrow> sock \<Rightarrow> int \<times> sock" where
  "fs_validate_file junk path s = send_request junk path FS_VALIDATE_FILE_OC s"

definition v_file_recv_req :: "storage \<Rightarrow> sock \<Rightarrow> t_v_file_req \<times> sock" where
  "v_file_recv_req junk s =
     (case recv_path junk s of
        (None, s1) \<Rightarrow> (\<lparr>vf_exec_code = DISCONNECTED_CLIENT, vf_path = None\<rparr>, s1)
      | (Some path, s1) \<Rightarrow> (\<lparr>vf_exec_code = SUCCESS, vf_path = Some path\<rparr>, s1))"

definition v_file_send_resp :: "int \<Rightarrow> sock \<Rightarrow> sock" where
  "v_file_send_resp resp_code s = send_resp resp_code s"

record t_c_file_req =
  cf_exec_code :: int
  cf_path :: "byte list option"

definition fs_create_file :: "storage \<Rightarrow> byte list \<Rightarrow> sock \<Rightarrow> int \<times> sock" where
  "fs_create_file junk path s = send_request junk path FS_CREATE_FILE_OC s"

definition c_file_recv_req :: "storage \<Rightarrow> sock \<Rightarrow> t_c_file_req \<times> sock" where
  "c_file_recv_req junk s =
     (case recv_path junk s of
        (None, s1) \<Rightarrow> (\<lparr>cf_exec_code = DISCONNECTED_CLIENT, cf_path = None\<rparr>, s1)
      | (Some path, s1) \<Rightarrow> (\<lparr>cf_exec_code = SUCCESS, cf_path = Some path\<rparr>, s1))"

definition c_file_send_resp :: "int \<Rightarrow> sock \<Rightarrow> sock" where
  "c_file_send_resp resp_code s = send_resp resp_code s"

record t_d_file_req =
  df_exec_code :: int
  df_path :: "byte list option"

definition fs_delete_file :: "storage \<Rightarrow> byte list \<Rightarrow> sock \<Rightarrow> int \<times> sock" where
  "fs_delete_file junk path s = send_request junk path FS_DELETE_FILE_OC s"

definition d_file_recv_req :: "storage \<Rightarrow> sock \<Rightarrow> t_d_file_req \<times> sock" where
  "d_file_recv_req junk s =
     (case recv_path junk s of
        (None, s1) \<Rightarrow> (\<lparr>df_exec_code = DISCONNECTED_CLIENT, df_path = None\<rparr>, s1)
      | (Some path, s1) \<Rightarrow> (\<lparr>df_exec_code = SUCCESS, df_path = Some path\<rparr>, s1))"

definition d_file_send_resp :: "int \<Rightarrow> sock \<Rightarrow> sock" where
  "d_file_send_resp resp_code s = send_resp resp_code s"

section \<open>Read\<close>

record t_fs_read_req =
  fr_exec_code :: int
  fr_path :: "byte list option"
  fr_offset :: u32
  fr_size :: u32

record t_fs_read_resp =
  fp_resp_code :: int
  fp_buffer_size :: u32
  fp_buffer :: "byte list option"

definition fs_read :: "storage \<Rightarrow> byte list \<Rightarrow> u32 \<Rightarrow> u32 \<Rightarrow> sock \<Rightarrow> t_fs_read_resp \<times> sock" where
  "fs_read junk path offset sz s =
     (let request = [oc_byte FS_READ_FILE_OC] @ u32_bytes offset @ u32_bytes sz @ path_bytes path;
          s0 = socket_send request s;
          response = \<lparr>fp_resp_code = 0, fp_buffer_size = junk_u32 junk, fp_buffer = None\<rparr>
      in case recv_storage junk 2 s0 of
        (None, s1) \<Rightarrow> (response\<lparr>fp_resp_code := DISCONNECTED_SERVER\<rparr>, s1)
      | (Some code, s1) \<Rightarrow> (let response = response\<lparr>fp_resp_code := bytes_i16 code\<rparr>
          in case recv_u32 junk s1 of
        (None, s2) \<Rightarrow> (response\<lparr>fp_resp_code := DISCONNECTED_SERVER\<rparr>, s2)
      | (Some buffer_size, s2) \<Rightarrow> (let response = response\<lparr>fp_buffer_size := buffer_size\<rparr>
          in if 0 < unat buffer_size then
               (case recv_storage junk (unat buffer_size) s2 of
                  (None, s3) \<Rightarrow> (response\<lparr>fp_resp_code := DISCONNECTED_SERVER,
                                   fp_buffer := Some (junk_bytes junk (unat buffer_size))\<rparr>, s3)
                | (Some buffer, s3) \<Rightarrow> (response\<lparr>fp_buffer := Some buffer\<rparr>, s3))
             else (response, s2))))"

definition fs_read_recv_req :: "storage \<Rightarrow> sock \<Rightarrow> t_fs_read_req \<times> sock" where
  "fs_read_recv_req junk s =
     (let request = \<lparr>fr_exec_code = 0, fr_path = None, fr_offset = junk_u32 junk, fr_size = junk_u32 junk\<rparr>
      in case recv_u32 junk s of
        (None, s1) \<Rightarrow> (request\<lparr>fr_exec_code := DISCONNECTED_CLIENT\<rparr>, s1)
      | (Some offset, s1) \<Rightarrow> (let request = request\<lparr>fr_offset := offset\<rparr> in case recv_u32 junk s1 of
        (None, s2) \<Rightarrow> (request\<lparr>fr_exec_code := DISCONNECTED_CLIENT\<rparr>, s2)
      | (Some sz, s2) \<Rightarrow> (let request = request\<lparr>fr_size := sz\<rparr> in case recv_path junk s2 of
        (None, s3) \<Rightarrow> (request\<lparr>fr_exec_code := DISCONNECTED_CLIENT\<rparr>, s3)
      | (Some path, s3) \<Rightarrow> (request\<lparr>fr_path := Some path, fr_exec_code := SUCCESS\<rparr>, s3))))"

definition fs_read_send_resp :: "int \<Rightarrow> u32 \<Rightarrow> byte list \<Rightarrow> sock \<Rightarrow> sock option" where
  "fs_read_send_resp resp_code buffer_size buffer s =
     (if 0 < sint buffer_size \<and> length buffer < unat buffer_size then None
      else
        (let response = code_bytes resp_code @ u32_bytes buffer_size
                        @ (if 0 < sint buffer_size then take (unat buffer_size) buffer else [])
         in Some (socket_write response s)))"

section \<open>Write\<close>

record t_fs_write_req =
  fw_exec_code :: int
  fw_path :: "byte list option"
  fw_offset :: u32
  fw_size :: u32
  fw_buffer :: "byte list"

definition fs_write ::
    "storage \<Rightarrow> byte list \<Rightarrow> u32 \<Rightarrow> u32 \<Rightarrow> u32 \<Rightarrow> byte list \<Rightarrow> sock \<Rightarrow> (int \<times> sock) option" where
  "fs_write junk path offset sz buffer_size buffer s =
     (if length buffer < unat buffer_size then None
      else
        (let request = [oc_byte FS_WRITE_FILE_OC] @ u32_bytes offset @ u32_bytes sz @ path_bytes path
                       @ u32_bytes buffer_size @ take (unat buffer_size) buffer
         in Some (recv_code junk (socket_send request s))))"

definition fs_write_recv_req :: "storage \<Rightarrow> sock \<Rightarrow> t_fs_write_req \<times> sock" where
  "fs_write_recv_req junk s =
     (let request = \<lparr>fw_exec_code = 0, fw_path = None, fw_offset = junk_u32 junk, fw_size = junk_u32 junk,
                      fw_buffer = []\<rparr>
      in case recv_u32 junk s of
        (None, s1) \<Rightarrow> (request\<lparr>fw_exec_code := DISCONNECTED_CLIENT\<rparr>, s1)
      | (Some offset, s1) \<Rightarrow> (let request = request\<lparr>fw_offset := offset\<rparr> in case recv_u32 junk s1 of
        (None, s2) \<Rightarrow> (request\<lparr>fw_exec_code := DISCONNECTED_CLIENT\<rparr>, s2)
      | (Some sz, s2) \<Rightarrow> (let request = request\<lparr>fw_size := sz\<rparr> in case recv_path junk s2 of
        (None, s3) \<Rightarrow> (request\<lparr>fw_exec_code := DISCONNECTED_CLIENT\<rparr>, s3)
      | (Some path, s3) \<Rightarrow> (let request = request\<lparr>fw_path := Some path\<rparr> in case recv_u32 junk s3 of
        (None, s4) \<Rightarrow> (request\<lparr>fw_exec_code := DISCONNECTED_CLIENT\<rparr>, s4)
      | (Some buffer_size, s4) \<Rightarrow> (case recv_storage junk (unat buffer_size) s4 of
        (None, s5) \<Rightarrow> (request\<lparr>fw_exec_code := DISCONNECTED_CLIENT,
                          fw_buffer := junk_bytes junk (unat buffer_size)\<rparr>, s5)
      | (Some buffer, s5) \<Rightarrow> (request\<lparr>fw_buffer := buffer, fw_exec_code := SUCCESS\<rparr>, s5))))))"

definition fs_write_send_resp :: "int \<Rightarrow> sock \<Rightarrow> sock" where
  "fs_write_send_resp resp_code s = send_resp resp_code s"

section \<open>The wire formats\<close>

definition path_ok :: "byte list \<Rightarrow> bool" where
  "path_ok path \<longleftrightarrow> length path + 1 < 2 ^ 32 \<and> 0 \<notin> set path"

lemma recv_path_sent [simp]:
  "path_ok path \<Longrightarrow> sk_in s = path_bytes path @ rest \<Longrightarrow> recv_path junk s = (Some (path @ [0]), s\<lparr>sk_in := rest\<rparr>)"
proof -
  assume p: "path_ok path" and s: "sk_in s = path_bytes path @ rest"
  have "recv_u32 junk s = (Some (word_of_nat (Suc (length path))), s\<lparr>sk_in := (path @ [0]) @ rest\<rparr>)"
    by (rule recv_u32_word) (simp add: s path_bytes_def del: of_nat_Suc)
  moreover have "unat (word_of_nat (Suc (length path)) :: u32) = Suc (length path)"
    using p by (simp add: path_ok_def unat_of_nat del: of_nat_Suc)
  moreover have "recv_storage junk (Suc (length path)) (s\<lparr>sk_in := (path @ [0]) @ rest\<rparr>) =
      (Some (path @ [0]), (s\<lparr>sk_in := (path @ [0]) @ rest\<rparr>)\<lparr>sk_in := rest\<rparr>)"
    by (rule recv_storage_full [where bs = "path @ [0]"]) simp_all
  ultimately show ?thesis by (simp add: recv_path_def)
qed

lemma consumes_recv_path: "recv_path junk s = (r, s') \<Longrightarrow> consumes s s'"
  by (auto simp: recv_path_def split: prod.splits option.splits
      dest!: consumes_recv_u32 consumes_recv intro: consumes_trans)

interpretation validate_wire: wire_request path_bytes path_ok v_file_recv_req
    "\<lambda>path. \<lparr>vf_exec_code = SUCCESS, vf_path = Some (path @ [0])\<rparr>"
  by unfold_locales
    (auto simp: v_file_recv_req_def split: prod.splits option.splits dest: consumes_recv_path)

interpretation create_wire: wire_request path_bytes path_ok c_file_recv_req
    "\<lambda>path. \<lparr>cf_exec_code = SUCCESS, cf_path = Some (path @ [0])\<rparr>"
  by unfold_locales
    (auto simp: c_file_recv_req_def split: prod.splits option.splits dest: consumes_recv_path)

interpretation remove_wire: wire_request path_bytes path_ok d_file_recv_req
    "\<lambda>path. \<lparr>df_exec_code = SUCCESS, df_path = Some (path @ [0])\<rparr>"
  by unfold_locales
    (auto simp: d_file_recv_req_def split: prod.splits option.splits dest: consumes_recv_path)

definition fs_read_body :: "u32 \<times> u32 \<times> byte list \<Rightarrow> byte list" where
  "fs_read_body r = (case r of (offset, sz, path) \<Rightarrow> u32_bytes offset @ u32_bytes sz @ path_bytes path)"

definition fs_write_body :: "u32 \<times> u32 \<times> byte list \<times> byte list \<Rightarrow> byte list" where
  "fs_write_body r = (case r of (offset, sz, path, buffer) \<Rightarrow>
     u32_bytes offset @ u32_bytes sz @ path_bytes path @ u32_bytes (word_of_nat (length buffer)) @ buffer)"

definition fs_write_valid :: "u32 \<times> u32 \<times> byte list \<times> byte list \<Rightarrow> bool" where
  "fs_write_valid r = (case r of (offset, sz, path, buffer) \<Rightarrow>
     path_ok path \<and> buffer \<noteq> [] \<and> length buffer < 2 ^ 32)"

lemma fs_read_consumes: "fs_read_recv_req junk s = (q, s') \<Longrightarrow> consumes s s'"
  by (auto simp: fs_read_recv_req_def Let_def split: prod.splits option.splits
      dest!: consumes_recv_u32 consumes_recv_path intro: consumes_trans)

lemma fs_write_consumes: "fs_write_recv_req junk s = (q, s') \<Longrightarrow> consumes s s'"
  by (auto simp: fs_write_recv_req_def Let_def split: prod.splits option.splits
      dest!: consumes_recv_u32 consumes_recv_path consumes_recv intro: consumes_trans) (meson consumes_trans)+

interpretation fs_read_wire: wire_request fs_read_body "\<lambda>(_, _, path). path_ok path" fs_read_recv_req
    "\<lambda>(offset, sz, path). \<lparr>fr_exec_code = SUCCESS, fr_path = Some (path @ [0]), fr_offset = offset, fr_size = sz\<rparr>"
  by (unfold_locales; (erule fs_read_consumes | auto simp: fs_read_body_def fs_read_recv_req_def Let_def))

interpretation fs_write_wire: wire_request fs_write_body fs_write_valid fs_write_recv_req
    "\<lambda>(offset, sz, path, buffer). \<lparr>fw_exec_code = SUCCESS, fw_path = Some (path @ [0]),
       fw_offset = offset, fw_size = sz, fw_buffer = buffer\<rparr>"
  by (unfold_locales; (erule fs_write_consumes
        | auto simp: fs_write_body_def fs_write_valid_def fs_write_recv_req_def unat_of_nat Let_def))

end
