(* ===== verification/File_System.thy ===== *)
theory File_System
  imports FS_Prot
begin

text \<open>
  The file-system process (\<open>file-system/src/file-system.c\<close>).  Its state is what it keeps under the
  mount point: the tree of directories and metadata files below \<open>Archivos\<close> (a path is the list of its
  components, so repeated slashes do not matter; there are no links),
  the files \<open>Bloques/<n>.bin\<close> by the text of their number, and the bitmap.  A metadata file is the text
  the process prints into it.

  The bit array, the list of block numbers and the configuration reader of so-commons are the
  parameter \<open>fs_lib\<close>; the locale \<open>fs_commons\<close> states their documented behaviour.  \<open>None\<close> means that the C
  code has no defined behaviour (a file that could not be opened, a position outside an array, signed
  overflow) or does not end; the loops that may not end are \<open>partial_function\<close>s.
\<close>

definition BLOCK_SIZE :: int where [source_consts]: "BLOCK_SIZE = 64"

record fs_lib =
  bitarray_test_bit :: "bool list \<Rightarrow> nat \<Rightarrow> bool"
  bitarray_set_bit :: "bool list \<Rightarrow> nat \<Rightarrow> bool list"
  bitarray_clean_bit :: "bool list \<Rightarrow> nat \<Rightarrow> bool list"
  blocks_ops :: "int t_list_ops"
  config_get_int_value :: "string \<Rightarrow> string \<Rightarrow> int"
  config_get_array_value :: "string \<Rightarrow> string \<Rightarrow> string list"

datatype fs_node = Dir | Reg string

record fs_state =
  fs_blocks :: u32
  bitmap :: "bool list"
  tree :: "string list \<Rightarrow> fs_node option"
  block_file :: "string \<Rightarrow> byte list option"

section \<open>Paths and files\<close>

definition c_string :: "byte list \<Rightarrow> string option" where
  "c_string bs = (if 0 \<in> set bs then Some (map (\<lambda>b. char_of (unat b)) (takeWhile (\<lambda>b. b \<noteq> 0) bs)) else None)"

text \<open>
  The place of a file in the tree.  A path that the operating system resolves in a way of its own is outside the model (\<open>None\<close>), and nothing is
  said about a request with such a path: one with the component \<open>.\<close> or \<open>..\<close>, one that ends with a slash, and one with a name of
  more than 255 or a length of more than 3072 characters, which the system may refuse.
\<close>

definition c_path :: "string \<Rightarrow> string list option" where
  "c_path path =
     (let full = ''Archivos'' @ path;
          names = strtok_words (CHR ''/'') [] full
      in if last full = CHR ''/'' \<or> list_ex (\<lambda>n. n = ''.'' \<or> n = ''..'' \<or> 255 < length n) names \<or> 3072 < length path then None
         else Some names)"

definition mkdir :: "string list \<Rightarrow> fs_state \<Rightarrow> fs_state" where
  "mkdir dir st =
     (if tree st (butlast dir) = Some Dir \<and> tree st dir = None
      then st\<lparr>tree := (tree st)(dir \<mapsto> Dir)\<rparr> else st)"

text \<open>\<open>fopen (path, "w")\<close> and what is printed until \<open>fclose\<close>.\<close>

definition write_text :: "string list \<Rightarrow> string \<Rightarrow> fs_state \<Rightarrow> fs_state option" where
  "write_text path txt st =
     (if tree st (butlast path) = Some Dir \<and> tree st path \<noteq> Some Dir
      then Some (st\<lparr>tree := (tree st)(path \<mapsto> Reg txt)\<rparr>) else None)"

fun join_ints :: "int list \<Rightarrow> string" where
  "join_ints [] = []"
| "join_ints [x] = dec_int x"
| "join_ints (x # y # xs) = dec_int x @ '','' @ join_ints (y # xs)"

definition metadata_text :: "int \<Rightarrow> int list \<Rightarrow> string" where
  "metadata_text file_size blocks =
     ''TAMANIO='' @ dec_int file_size @ [CHR 0x0A] @ ''BLOQUES=['' @ join_ints blocks @ '']''"

text \<open>A new block file: 64 blanks.\<close>

definition new_block :: "int \<Rightarrow> fs_state \<Rightarrow> fs_state" where
  "new_block block st =
     st\<lparr>block_file := (block_file st)(dec_int block \<mapsto> replicate (nat BLOCK_SIZE) (of_char CHR '' ''))\<rparr>"

text \<open>\<open>fseek\<close> to an offset, then \<open>fread\<close> or \<open>fwrite\<close>; a negative offset is refused by \<open>fseek\<close>.\<close>

definition file_pos :: "int \<Rightarrow> nat" where
  "file_pos off = (if off < 0 then 0 else nat off)"

definition file_read :: "nat \<Rightarrow> nat \<Rightarrow> byte list \<Rightarrow> byte list" where
  "file_read pos n content = take n (drop pos content)"

text \<open>\<open>fread\<close> into fresh storage of \<open>n\<close> bytes: a file that is too short leaves the rest of it as it is.\<close>

definition fread_into :: "storage \<Rightarrow> nat \<Rightarrow> nat \<Rightarrow> byte list \<Rightarrow> byte list" where
  "fread_into junk pos n content =
     (let got = file_read pos n content in got @ map junk [length got..<n])"

definition file_write :: "nat \<Rightarrow> byte list \<Rightarrow> byte list \<Rightarrow> byte list" where
  "file_write pos bs content =
     take pos (content @ replicate (pos - length content) 0) @ bs @ drop (pos + length bs) content"

section \<open>Blocks\<close>

fun available_scan :: "fs_lib \<Rightarrow> bool list \<Rightarrow> nat \<Rightarrow> nat \<Rightarrow> nat option" where
  "available_scan F b pos 0 = None"
| "available_scan F b pos (Suc n) =
     (if \<not> bitarray_test_bit F b pos then Some pos else available_scan F b (Suc pos) n)"

definition get_available_block :: "fs_lib \<Rightarrow> fs_state \<Rightarrow> int \<times> fs_state" where
  "get_available_block F st =
     (case available_scan F (bitmap st) 0 (unat (fs_blocks st)) of
        Some pos \<Rightarrow> (int pos, st\<lparr>bitmap := bitarray_set_bit F (bitmap st) pos\<rparr>)
      | None \<Rightarrow> (- 1, st))"

text \<open>Freeing the blocks named in the metadata of a file.\<close>

definition free_blocks :: "fs_lib \<Rightarrow> string \<Rightarrow> fs_state \<Rightarrow> fs_state" where
  "free_blocks F txt st =
     st\<lparr>bitmap := fold (\<lambda>b m. bitarray_clean_bit F m (unat (atoi b)))
                    (config_get_array_value F txt ''BLOQUES'') (bitmap st)\<rparr>"

section \<open>Start-up\<close>

text \<open>
  \<open>load\<close> on a mount point whose tree, block files and bitmap file (\<open>None\<close> when there is none) are given;
  \<open>page_size\<close> is the page size of \<open>mmap\<close>.  The bitmap file made here has \<open>blocks / 8\<close> bytes.  Mapping an
  empty file fails and ends the process (\<open>None\<close>); bits behind the end of the file are blank up to the
  end of the last page, and touching one beyond it is undefined.
\<close>

definition fs_load ::
    "fs_lib \<Rightarrow> nat \<Rightarrow> u32 \<Rightarrow> bool list option \<Rightarrow> (string list \<Rightarrow> fs_node option) \<Rightarrow> (string \<Rightarrow> byte list option) \<Rightarrow> fs_state option" where
  "fs_load F page_size n_blocks bitmap_file files blocks =
     (let clean = (bitmap_file = None);
          content = (case bitmap_file of Some bits \<Rightarrow> bits | None \<Rightarrow> replicate (8 * unat (n_blocks div 8)) False);
          mapped_bits = 8 * page_size * ((length content + 8 * page_size - 1) div (8 * page_size));
          mapped = content @ replicate (mapped_bits - length content) False;
          st = \<lparr>fs_blocks = n_blocks, bitmap = mapped, tree = files, block_file = blocks\<rparr>;
          st1 = (if files [''Archivos''] = Some Dir then st else mkdir [''Archivos''] st)
      in if content = [] \<or> length mapped < unat n_blocks then None
         else Some (if clean
                    then st1\<lparr>bitmap := fold (\<lambda>pos b. bitarray_clean_bit F b pos) [0..<unat n_blocks] mapped\<rparr>
                    else st1))"

section \<open>Handlers\<close>

definition validate_file :: "fs_lib \<Rightarrow> storage \<Rightarrow> sock \<Rightarrow> fs_state \<Rightarrow> (sock \<times> fs_state) option" where
  "validate_file F junk s st =
     (case v_file_recv_req junk s of
        (v_req, s1) \<Rightarrow> do {
          bytes \<leftarrow> vf_path v_req;
          path \<leftarrow> c_string bytes;
          file_path \<leftarrow> c_path path;
          Some (v_file_send_resp (case tree st file_path of Some (Reg _) \<Rightarrow> ISREG | _ \<Rightarrow> ISNOTREG) s1, st)
        })"

fun make_dirs :: "string list \<Rightarrow> string list \<Rightarrow> fs_state \<Rightarrow> fs_state" where
  "make_dirs dir (f_token # s_token # tokens) st =
     (let dir' = dir @ [f_token]
      in make_dirs dir' (s_token # tokens) (if tree st dir' = None then mkdir dir' st else st))"
| "make_dirs dir tokens st = st"

definition create_file :: "fs_lib \<Rightarrow> storage \<Rightarrow> sock \<Rightarrow> fs_state \<Rightarrow> (sock \<times> fs_state) option" where
  "create_file F junk s st =
     (case c_file_recv_req junk s of
        (c_req, s1) \<Rightarrow> do {
          bytes \<leftarrow> cf_path c_req;
          path \<leftarrow> c_string bytes;
          file_path \<leftarrow> c_path path;
          (let st1 = make_dirs [''Archivos''] (strtok_words (CHR ''/'') [] path) st;
               st2 = (case tree st1 file_path of Some (Reg txt) \<Rightarrow> free_blocks F txt st1 | _ \<Rightarrow> st1)
           in if tree st2 file_path = Some Dir then Some (c_file_send_resp ISDIR s1, st2)
              else
                (case get_available_block F st2 of
                   (available_block, st3) \<Rightarrow>
                     if available_block < 0 then Some (c_file_send_resp ENOSPC s1, st3)
                     else do {
                       st4 \<leftarrow> write_text file_path (metadata_text BLOCK_SIZE [available_block]) st3;
                       Some (c_file_send_resp SUCCESS s1, new_block available_block st4)
                     }))
        })"

definition delete_file :: "fs_lib \<Rightarrow> storage \<Rightarrow> sock \<Rightarrow> fs_state \<Rightarrow> (sock \<times> fs_state) option" where
  "delete_file F junk s st =
     (case d_file_recv_req junk s of
        (d_req, s1) \<Rightarrow> do {
          bytes \<leftarrow> df_path d_req;
          path \<leftarrow> c_string bytes;
          file_path \<leftarrow> c_path path;
          Some (d_file_send_resp SUCCESS s1,
                case tree st file_path of
                  Some (Reg txt) \<Rightarrow> (free_blocks F txt st)\<lparr>tree := (tree st)(file_path := None)\<rparr>
                | _ \<Rightarrow> st)
        })"

text \<open>
  The loop of \<open>read_file\<close> behind the first block: \<open>blocks\<close> are the texts of the block numbers from the
  next position on, \<open>n\<close> the bytes still to read.
\<close>

fun read_blocks :: "storage \<Rightarrow> fs_state \<Rightarrow> string list \<Rightarrow> nat \<Rightarrow> byte list option" where
  "read_blocks junk st blocks 0 = Some []"
| "read_blocks junk st [] (Suc n) = None"
| "read_blocks junk st (b # blocks) (Suc n) = do {
     content \<leftarrow> block_file st b;
     (let bytes_reading = (if nat BLOCK_SIZE \<le> Suc n then nat BLOCK_SIZE else Suc n) in do {
        rest \<leftarrow> read_blocks junk st blocks (Suc n - bytes_reading);
        Some (fread_into junk 0 bytes_reading content @ rest)
      })
   }"

text \<open>What \<open>read_file\<close> collects in its buffer for an offset and a size inside the file.\<close>

definition read_data :: "storage \<Rightarrow> fs_state \<Rightarrow> string list \<Rightarrow> int \<Rightarrow> int \<Rightarrow> byte list option" where
  "read_data junk st used_blocks offset sz =
     (let movs = c_div offset BLOCK_SIZE;
          offset = offset - BLOCK_SIZE * movs;
          bytes_reading = (if sz \<le> BLOCK_SIZE - offset then sz else BLOCK_SIZE - offset)
      in if movs < 0 \<or> sz < 0 \<or> length used_blocks \<le> nat movs then None
         else do {
           content \<leftarrow> block_file st (used_blocks ! nat movs);
           rest \<leftarrow> read_blocks junk st (drop (Suc (nat movs)) used_blocks) (nat (sz - bytes_reading));
           Some (fread_into junk (file_pos offset) (nat bytes_reading) content @ rest)
         })"

definition read_file :: "fs_lib \<Rightarrow> storage \<Rightarrow> sock \<Rightarrow> fs_state \<Rightarrow> (sock \<times> fs_state) option" where
  "read_file F junk s st =
     (case fs_read_recv_req junk s of
        (r_req, s1) \<Rightarrow> do {
          bytes \<leftarrow> fr_path r_req;
          path \<leftarrow> c_string bytes;
          file_path \<leftarrow> c_path path;
          (case tree st file_path of
             Some (Reg txt) \<Rightarrow>
               (let used_blocks = config_get_array_value F txt ''BLOQUES'';
                    file_size = config_get_int_value F txt ''TAMANIO'';
                    offset = sint (fr_offset r_req);
                    sz = sint (fr_size r_req)
                in if offset < file_size - 1 then
                     (if \<not> int_ok (offset + sz) then None
                      else
                        (let sz = (if file_size < offset + sz then file_size - offset else sz) in do {
                           buff \<leftarrow> read_data junk st used_blocks offset sz;
                           s2 \<leftarrow> fs_read_send_resp SUCCESS (word_of_int sz) buff s1;
                           Some (s2, st)
                         }))
                   else Some (s1, st))
           | _ \<Rightarrow> map_option (\<lambda>s2. (s2, st)) (fs_read_send_resp ISNOTREG 0 [] s1))
        })"

text \<open>
  The clean-up after running out of blocks: the element at \<open>pos\<close> is removed and \<open>pos\<close> advances, so
  every other block is passed over.
\<close>

partial_function (option) give_back ::
    "fs_lib \<Rightarrow> nat \<Rightarrow> int list \<Rightarrow> bool list \<Rightarrow> (int list \<times> bool list) option" where
  "give_back F pos l b =
     (if pos < length l then
        (case list_remove (blocks_ops F) l pos of
           (x, l') \<Rightarrow> give_back F (Suc pos) l' (bitarray_clean_bit F b (nat x)))
      else Some (l, b))"

text \<open>
  The loop of \<open>write_file\<close> that adds blocks.  When no block is free it cleans up, answers \<open>ENOSPC\<close> and
  goes on with the same number of bytes to expand.
\<close>

partial_function (option) expand_file ::
    "fs_lib \<Rightarrow> nat \<Rightarrow> int \<Rightarrow> int list \<Rightarrow> sock \<Rightarrow> fs_state \<Rightarrow> (int \<times> int list \<times> sock \<times> fs_state) option" where
  "expand_file F b_elements_count bytes_to_expand blocks s st =
     (if 0 < bytes_to_expand then
        (case get_available_block F st of
           (available_block, st1) \<Rightarrow>
             if 0 \<le> available_block then
               expand_file F b_elements_count (bytes_to_expand - BLOCK_SIZE)
                 (list_add (blocks_ops F) blocks available_block) s (new_block available_block st1)
             else
               Option.bind (give_back F b_elements_count blocks (bitmap st1))
                 (\<lambda>(blocks', b'). expand_file F b_elements_count bytes_to_expand blocks'
                    (fs_write_send_resp ENOSPC s) (st1\<lparr>bitmap := b'\<rparr>)))
      else Some (bytes_to_expand, blocks, s, st))"

text \<open>
  The loop of \<open>write_file\<close> over the blocks; \<open>offset\<close> is below \<open>BLOCK_SIZE\<close> whenever it is entered, and
  \<open>bytes_availables_in_block\<close> is \<open>BLOCK_SIZE - offset\<close>.
\<close>

function write_blocks ::
    "fs_lib \<Rightarrow> byte list \<Rightarrow> int list \<Rightarrow> int \<Rightarrow> int \<Rightarrow> int \<Rightarrow> nat \<Rightarrow> fs_state \<Rightarrow> fs_state option" where
  "write_blocks F buffer blocks block_n offset bytes_to_write buff_pos st =
     (if 0 < bytes_to_write \<and> offset < BLOCK_SIZE then
        (let bytes_availables_in_block = BLOCK_SIZE - offset;
             bytes_writing = (if bytes_availables_in_block \<le> bytes_to_write then bytes_availables_in_block
                              else bytes_to_write);
             b = dec_int (list_get (blocks_ops F) blocks (nat block_n))
         in if block_n < 0 \<or> length blocks \<le> nat block_n \<or> length buffer < buff_pos + nat bytes_writing then None
            else
              (case block_file st b of
                 None \<Rightarrow> None
               | Some content \<Rightarrow>
                   write_blocks F buffer blocks (block_n + 1) 0 (bytes_to_write - bytes_writing)
                     (buff_pos + nat bytes_writing)
                     (st\<lparr>block_file := (block_file st)
                         (b \<mapsto> file_write (file_pos offset) (mem_read buff_pos (nat bytes_writing) buffer) content)\<rparr>)))
      else Some st)"
  by pat_completeness auto
termination
  by (relation "measure (\<lambda>(F, buffer, blocks, block_n, offset, bytes_to_write, buff_pos, st). nat bytes_to_write)")
    (auto simp: BLOCK_SIZE_def)

declare write_blocks.simps [simp del]

definition write_file :: "fs_lib \<Rightarrow> storage \<Rightarrow> sock \<Rightarrow> fs_state \<Rightarrow> (sock \<times> fs_state) option" where
  "write_file F junk s st =
     (case fs_write_recv_req junk s of
        (w_req, s1) \<Rightarrow> do {
          bytes \<leftarrow> fw_path w_req;
          path \<leftarrow> c_string bytes;
          file_path \<leftarrow> c_path path;
          (case tree st file_path of
             Some (Reg txt) \<Rightarrow>
               (let blocks = fold (\<lambda>b l. list_add (blocks_ops F) l (sint (atoi b)))
                               (config_get_array_value F txt ''BLOQUES'') [];
                    b_elements_count = length blocks;
                    old_file_size = config_get_int_value F txt ''TAMANIO'';
                    offset = sint (fw_offset w_req);
                    sz = sint (fw_size w_req);
                    file_size = (if old_file_size < offset + sz then offset + sz else old_file_size);
                    in_block = BLOCK_SIZE - (old_file_size - (int b_elements_count - 1) * BLOCK_SIZE);
                    bytes_to_expand =
                      (if old_file_size < offset + sz
                       then (offset + sz - old_file_size) - (if 0 < in_block then in_block else 0) else 0)
                in if \<not> int_ok (offset + sz) then None
                   else do {
                     (bytes_to_expand, blocks, s2, st1) \<leftarrow> expand_file F b_elements_count bytes_to_expand blocks s1 st;
                     (if bytes_to_expand \<le> 0 then
                        (let block_n = c_div offset BLOCK_SIZE in do {
                           st2 \<leftarrow> write_blocks F (fw_buffer w_req) blocks block_n (offset - block_n * BLOCK_SIZE) sz 0 st1;
                           st3 \<leftarrow> (if blocks = [] then None
                                   else write_text file_path (metadata_text file_size blocks) st2);
                           Some (fs_write_send_resp SUCCESS s2, st3)
                         })
                      else Some (s2, st1))
                   })
           | _ \<Rightarrow> Some (fs_write_send_resp ISNOTREG s1, st))
        })"

section \<open>Dispatch\<close>

definition fs_serve :: "fs_lib \<Rightarrow> storage \<Rightarrow> int \<Rightarrow> sock \<Rightarrow> fs_state \<Rightarrow> (sock \<times> fs_state) option" where
  "fs_serve F junk ope_code s st =
     (if ope_code = FS_HANDSHAKE_OC then Some (fs_handshake_resp SUCCESS s, st)
      else if ope_code = FS_VALIDATE_FILE_OC then validate_file F junk s st
      else if ope_code = FS_CREATE_FILE_OC then create_file F junk s st
      else if ope_code = FS_DELETE_FILE_OC then delete_file F junk s st
      else if ope_code = FS_READ_FILE_OC then read_file F junk s st
      else if ope_code = FS_WRITE_FILE_OC then write_file F junk s st
      else Some (s, st))"

lemma expand_file_advances:
  assumes "expand_file F k n blocks s st = Some r"
  shows "case r of (_, _, s', _) \<Rightarrow> sk_in s' = sk_in s \<and> (\<exists>a. sk_out s' = sk_out s @ a)"
proof (rule expand_file.raw_induct [OF _ assms])
  fix ex F k n blocks s st r
  assume ih: "\<And>F k n blocks s st r. ex F k n blocks s st = Some r \<Longrightarrow>
      case r of (_, _, s', _) \<Rightarrow> sk_in s' = sk_in s \<and> (\<exists>a. sk_out s' = sk_out s @ a)"
    and eq: "(if 0 < n then
        (case get_available_block F st of
           (available_block, st1) \<Rightarrow>
             if 0 \<le> available_block then
               ex F k (n - BLOCK_SIZE) (list_add (blocks_ops F) blocks available_block) s (new_block available_block st1)
             else
               Option.bind (give_back F k blocks (bitmap st1))
                 (\<lambda>(blocks', b'). ex F k n blocks' (fs_write_send_resp ENOSPC s) (st1\<lparr>bitmap := b'\<rparr>)))
      else Some (n, blocks, s, st)) = Some r"
  show "case r of (_, _, s', _) \<Rightarrow> sk_in s' = sk_in s \<and> (\<exists>a. sk_out s' = sk_out s @ a)"
    using eq
    by (auto simp: fs_write_send_resp_def send_resp_def socket_write_def split: if_splits prod.splits bind_splits
        dest!: ih)
qed

lemma fs_serve_advances:
  assumes "fs_serve F junk oc s st = Some (s', st')"
  shows "advances s s'"
proof -
  have r: "advances s (send_resp c s1)" if "consumes s s1" for c s1 using that by (simp add: send_resp_def)
  have rd: "advances s s2" if "consumes s s1" "fs_read_send_resp c n bs s1 = Some s2" for c n bs s1 s2
    using that by (auto simp: fs_read_send_resp_def Let_def split: if_splits)
  have "advances s s'" if "validate_file F junk s st = Some (s', st')"
    using that by (auto simp: validate_file_def v_file_send_resp_def r split: prod.splits bind_splits
        dest!: validate_wire.parse_consumes)
  moreover have "advances s s'" if "create_file F junk s st = Some (s', st')"
    using that by (auto simp: create_file_def c_file_send_resp_def r Let_def split: prod.splits bind_splits if_splits
        dest!: create_wire.parse_consumes)
  moreover have "advances s s'" if "delete_file F junk s st = Some (s', st')"
    using that by (auto simp: delete_file_def d_file_send_resp_def r split: prod.splits bind_splits
        dest!: remove_wire.parse_consumes)
  moreover have "advances s s'" if "read_file F junk s st = Some (s', st')"
    using that by (auto simp: read_file_def Let_def split: prod.splits bind_splits if_splits option.splits fs_node.splits
        dest!: fs_read_wire.parse_consumes intro: rd)
  moreover have "advances s s'" if w: "write_file F junk s st = Some (s', st')"
  proof -
    have x: "advances s (send_resp c s3)" "advances s s3"
      if "consumes s s2" "expand_file F k n bl s2 st = Some (n', bl', s3, st3)" for c k n bl s2 n' bl' s3 st3
      using expand_file_advances [OF that(2)] that(1)
      by (auto simp: advances_def consumes_def send_resp_def socket_write_def)
    from w show ?thesis
      by (auto simp: write_file_def Let_def fs_write_send_resp_def r
          split: prod.splits bind_splits if_splits option.splits fs_node.splits
          dest!: fs_write_wire.parse_consumes intro: x)
  qed
  ultimately show ?thesis
    using assms r [OF consumes_refl] by (auto simp: fs_serve_def fs_handshake_resp_def split: if_splits)
qed

text \<open>One connection, served to its end; every round reads at least the operation code.\<close>

function fs_process_request :: "fs_lib \<Rightarrow> storage \<Rightarrow> sock \<Rightarrow> fs_state \<Rightarrow> (sock \<times> fs_state) option" where
  "fs_process_request F junk s st =
     (case recv_operation_code junk s of
        (ope_code, s1) \<Rightarrow>
          if ope_code = DISCONNECTED_CLIENT then Some (s1, st)
          else (case fs_serve F junk ope_code s1 st of
                  None \<Rightarrow> None
                | Some (s2, st2) \<Rightarrow> fs_process_request F junk s2 st2))"
  by pat_completeness auto
termination
  by (relation "measure (\<lambda>(F, junk, s, st). length (sk_in s))")
    (auto dest!: recv_operation_code_progress [OF sym] fs_serve_advances advances_length)

declare fs_process_request.simps [simp del]

end
