(* ===== verification/File_System_Inv.thy ===== *)
theory File_System_Inv
  imports File_System
begin

text \<open>
  Correctness of the file-system process: a file is abstracted to the sequence of the bytes of its
  blocks, \<open>read_file\<close> delivers a slice of it and \<open>write_file\<close> overwrites a slice of it, extending it by
  blank blocks first when the slice reaches beyond them.
\<close>

section \<open>The library\<close>

locale fs_commons =
  fixes F :: fs_lib
  assumes test_bit: "i < length b \<Longrightarrow> bitarray_test_bit F b i = b ! i"
    and set_bit: "i < length b \<Longrightarrow> bitarray_set_bit F b i = b[i := True]"
    and clean_bit: "i < length b \<Longrightarrow> bitarray_clean_bit F b i = b[i := False]"
    and blocks_laws: "t_list_laws (blocks_ops F)"
    and config_size: "0 \<le> n \<Longrightarrow> n < 2 ^ 31 \<Longrightarrow> config_get_int_value F (metadata_text n bs) ''TAMANIO'' = n"
    and config_blocks: "0 \<le> n \<Longrightarrow> bs \<noteq> [] \<Longrightarrow> (\<And>b. b \<in> set bs \<Longrightarrow> 0 \<le> b) \<Longrightarrow>
          config_get_array_value F (metadata_text n bs) ''BLOQUES'' = map dec_int bs"

sublocale fs_commons \<subseteq> bl: t_list_laws "blocks_ops F"
  by (rule blocks_laws)

text \<open>
  A configuration reader for the two lines the process writes: the number behind the first eight
  characters, and the words between the brackets.
\<close>

definition seq_fs_lib :: fs_lib where
  "seq_fs_lib = \<lparr>bitarray_test_bit = (!), bitarray_set_bit = (\<lambda>b i. b[i := True]),
     bitarray_clean_bit = (\<lambda>b i. b[i := False]), blocks_ops = seq_list_ops,
     config_get_int_value = (\<lambda>txt key. strtol (drop 8 txt)),
     config_get_array_value = (\<lambda>txt key. strtok_words (CHR '','') []
       (takeWhile (\<lambda>c. c \<noteq> CHR '']'') (tl (dropWhile (\<lambda>c. c \<noteq> CHR ''['') txt))))\<rparr>"

lemma dec_int_digits: "0 \<le> i \<Longrightarrow> c \<in> set (dec_int i) \<Longrightarrow> is_digit c"
  by (simp add: dec_int_def dec_nat_digits)

lemma digit_separators: "is_digit c \<Longrightarrow> c \<noteq> CHR '','' \<and> c \<noteq> CHR '']'' \<and> c \<noteq> CHR ''[''"
  by (auto simp: is_digit_def)

lemma dec_int_not_Nil [simp]: "dec_int i \<noteq> []"
  by (simp add: dec_int_def)

lemma strtok_join_ints:
  "bs \<noteq> [] \<Longrightarrow> (\<And>b. b \<in> set bs \<Longrightarrow> 0 \<le> b) \<Longrightarrow> strtok_words (CHR '','') [] (join_ints bs) = map dec_int bs"
proof (induction bs rule: join_ints.induct)
  case (2 x)
  have "strtok_words (CHR '','') [] (dec_int x @ []) = strtok_words (CHR '','') (dec_int x) []"
    using 2 by (subst strtok_words_token) (auto dest: dec_int_digits digit_separators)
  then show ?case by simp
next
  case (3 x y xs)
  have "strtok_words (CHR '','') [] (dec_int x @ '','' @ join_ints (y # xs)) =
      strtok_words (CHR '','') (dec_int x) ('','' @ join_ints (y # xs))"
    using 3 by (subst strtok_words_token) (auto dest: dec_int_digits digit_separators)
  with 3 show ?case by simp
qed simp

lemma join_ints_chars:
  "c \<in> set (join_ints bs) \<Longrightarrow> (\<And>b. b \<in> set bs \<Longrightarrow> 0 \<le> b) \<Longrightarrow> is_digit c \<or> c = CHR '',''"
  by (induction bs rule: join_ints.induct) (auto dest: dec_int_digits)

lemma metadata_blocks:
  assumes "0 \<le> n" "\<And>b. b \<in> set bs \<Longrightarrow> 0 \<le> b"
  shows "takeWhile (\<lambda>c. c \<noteq> CHR '']'') (tl (dropWhile (\<lambda>c. c \<noteq> CHR ''['') (metadata_text n bs))) = join_ints bs"
proof -
  have "dropWhile (\<lambda>c. c \<noteq> CHR ''['') (dec_int n @ [CHR 0x0A] @ ''BLOQUES=['' @ r) = ''['' @ r" for r
    using assms(1) by (subst dropWhile_append2) (auto dest: dec_int_digits digit_separators)
  then have "tl (dropWhile (\<lambda>c. c \<noteq> CHR ''['') (metadata_text n bs)) = join_ints bs @ '']''"
    by (simp add: metadata_text_def)
  moreover have "takeWhile (\<lambda>c. c \<noteq> CHR '']'') (join_ints bs @ '']'') = join_ints bs"
    using join_ints_chars [OF _ assms(2)] digit_separators by (subst takeWhile_append2) auto
  ultimately show ?thesis by simp
qed

interpretation seq_fs: fs_commons seq_fs_lib
proof unfold_locales
  fix n :: int and bs :: "int list"
  assume n: "0 \<le> n" "n < 2 ^ 31"
  have "strtol (dec_nat (nat n) @ [CHR 0x0A] @ r) = n" for r
    using n by (subst strtol_dec_nat) (simp_all add: is_digit_def)
  then show "config_get_int_value seq_fs_lib (metadata_text n bs) ''TAMANIO'' = n"
    using n by (simp add: seq_fs_lib_def metadata_text_def dec_int_def)
qed (simp_all add: seq_fs_lib_def metadata_blocks strtok_join_ints seq_list_ops_def)

section \<open>The content of a file\<close>

definition block_of :: "fs_state \<Rightarrow> int \<Rightarrow> byte list" where
  "block_of st b = the (block_file st (dec_int b))"

definition file_content :: "fs_state \<Rightarrow> int list \<Rightarrow> byte list" where
  "file_content st bs = concat (map (block_of st) bs)"

definition blocks_ok :: "fs_state \<Rightarrow> int list \<Rightarrow> bool" where
  "blocks_ok st bs \<longleftrightarrow> (\<forall>b \<in> set bs. 0 \<le> b \<and> b < 2 ^ 31 \<and>
     block_file st (dec_int b) = Some (block_of st b) \<and> length (block_of st b) = 64)"

text \<open>The file at \<open>path\<close> has \<open>file_size\<close> bytes, which lie in the blocks \<open>bs\<close>.\<close>

definition file_rep :: "fs_state \<Rightarrow> string list \<Rightarrow> int \<Rightarrow> int list \<Rightarrow> bool" where
  "file_rep st path file_size bs \<longleftrightarrow> tree st path = Some (Reg (metadata_text file_size bs))
     \<and> tree st (butlast path) = Some Dir \<and> bs \<noteq> [] \<and> distinct bs \<and> blocks_ok st bs
     \<and> 0 \<le> file_size \<and> file_size \<le> 64 * int (length bs) \<and> file_size < 2 ^ 31"

definition text_of :: "byte list \<Rightarrow> string" where
  "text_of path = map (\<lambda>b. char_of (unat b)) path"

lemma c_string_sent: "path_ok path \<Longrightarrow> c_string (path @ [0]) = Some (text_of path)"
proof -
  assume "path_ok path"
  then have "takeWhile (\<lambda>b. b \<noteq> 0) (path @ [0]) = path"
    by (subst takeWhile_append2) (auto simp: path_ok_def)
  then show ?thesis by (simp add: c_string_def text_of_def)
qed

lemma blocks_ok_Cons: "blocks_ok st (b # bs) \<longleftrightarrow> blocks_ok st [b] \<and> blocks_ok st bs"
  by (auto simp: blocks_ok_def)

lemma length_file_content: "blocks_ok st bs \<Longrightarrow> length (file_content st bs) = 64 * length bs"
proof (induction bs)
  case (Cons b bs)
  then have "blocks_ok st bs" "length (block_of st b) = 64" by (auto simp: blocks_ok_def)
  with Cons.IH show ?case by (simp add: file_content_def)
qed (simp add: file_content_def)

lemma file_content_Cons: "file_content st (b # bs) = block_of st b @ file_content st bs"
  by (simp add: file_content_def)

lemma file_content_append: "file_content st (bs @ cs) = file_content st bs @ file_content st cs"
  by (simp add: file_content_def)

lemma blocks_ok_nth: "blocks_ok st bs \<Longrightarrow> m < length bs \<Longrightarrow> block_file st (dec_int (bs ! m)) = Some (block_of st (bs ! m))
    \<and> length (block_of st (bs ! m)) = 64"
  by (simp add: blocks_ok_def)

lemma blocks_ok_drop: "blocks_ok st bs \<Longrightarrow> blocks_ok st (drop m bs)"
  by (auto simp: blocks_ok_def dest: in_set_dropD)

lemma drop_content:
  assumes "blocks_ok st bs" "m < length bs" "k \<le> 64"
  shows "drop (64 * m + k) (file_content st bs) = drop k (block_of st (bs ! m)) @ file_content st (drop (Suc m) bs)"
proof -
  have bs: "bs = take m bs @ bs ! m # drop (Suc m) bs" using assms(2) by (rule id_take_nth_drop)
  have "blocks_ok st (take m bs)" using assms(1) by (auto simp: blocks_ok_def dest: in_set_takeD)
  then have len: "length (file_content st (take m bs)) = 64 * m"
    using assms(2) by (simp add: length_file_content)
  have "file_content st bs = file_content st (take m bs) @ block_of st (bs ! m) @ file_content st (drop (Suc m) bs)"
    by (metis bs file_content_Cons file_content_append)
  then show ?thesis using len assms blocks_ok_nth [OF assms(1,2)] by simp
qed

lemma fread_full: "pos + n \<le> length c \<Longrightarrow> fread_into junk pos n c = take n (drop pos c)"
  by (simp add: fread_into_def file_read_def)

lemma read_blocks_content:
  assumes "blocks_ok st bs" "n \<le> 64 * length bs"
  shows "read_blocks junk st (map dec_int bs) n = Some (take n (file_content st bs))"
  using assms
proof (induction bs arbitrary: n)
  case Nil
  then show ?case by (simp add: file_content_def)
next
  case (Cons b bs)
  have b: "block_file st (dec_int b) = Some (block_of st b)" "length (block_of st b) = 64" and ok: "blocks_ok st bs"
    using Cons.prems(1) by (auto simp: blocks_ok_def)
  show ?case
  proof (cases n)
    case 0
    then show ?thesis by simp
  next
    case (Suc k)
    define w where "w = (if 64 \<le> Suc k then 64 else Suc k)"
    have "read_blocks junk st (map dec_int bs) (Suc k - w) = Some (take (Suc k - w) (file_content st bs))"
      by (rule Cons.IH [OF ok]) (use Cons.prems(2) Suc in \<open>auto simp: w_def\<close>)
    then have "read_blocks junk st (map dec_int (b # bs)) n =
        Some (take w (block_of st b) @ take (Suc k - w) (file_content st bs))"
      using Suc b by (cases "64 \<le> Suc k") (simp_all add: BLOCK_SIZE_def w_def fread_full)
    also have "take w (block_of st b) @ take (Suc k - w) (file_content st bs) = take n (file_content st (b # bs))"
      using Suc b(2) by (auto simp: file_content_Cons w_def)
    finally show ?thesis .
  qed
qed

lemma read_data_slice:
  assumes ok: "blocks_ok st bs" and b: "0 \<le> off" "off < 64 * int (length bs)" "0 \<le> n" "off + n \<le> 64 * int (length bs)"
  shows "read_data junk st (map dec_int bs) off n = Some (mem_read (nat off) (nat n) (file_content st bs))"
proof -
  define k where "k = nat off"
  define m where "m = k div 64"
  define j where "j = k mod 64"
  have k: "int k = off" "k = 64 * m + j" "j < 64" using b by (simp_all add: k_def m_def j_def)
  have m: "m < length bs" using k b(2) by linarith
  note B = blocks_ok_nth [OF ok m]
  have so: "off = 64 * int m + int j" using k(1,2) by simp
  then have "off div 64 = int m" using k(3) by simp
  then have div: "c_div off BLOCK_SIZE = int m" "off - BLOCK_SIZE * int m = int j"
    using b(1) so by (simp_all add: c_div_nonneg BLOCK_SIZE_def)
  define w where "w = (if n \<le> BLOCK_SIZE - int j then n else BLOCK_SIZE - int j)"
  have w: "0 \<le> w" "w \<le> n" "int j + w \<le> 64" using b k(3) by (auto simp: w_def BLOCK_SIZE_def)
  have d: "drop k (file_content st bs) = drop j (block_of st (bs ! m)) @ file_content st (drop (Suc m) bs)"
    using drop_content [OF ok m, of j] k by simp
  have "nat (n - w) \<le> 64 * length (drop (Suc m) bs)"
    using b so m by (auto simp: w_def BLOCK_SIZE_def)
  then have rb: "read_blocks junk st (drop (Suc m) (map dec_int bs)) (nat (n - w)) =
      Some (take (nat (n - w)) (file_content st (drop (Suc m) bs)))"
    unfolding drop_map by (rule read_blocks_content [OF blocks_ok_drop [OF ok]])
  have data: "take (nat w) (drop j (block_of st (bs ! m))) @ take (nat (n - w)) (file_content st (drop (Suc m) bs)) =
      mem_read k (nat n) (file_content st bs)"
    using w B k(3) by (auto simp: mem_read_def d w_def nat_diff_distrib BLOCK_SIZE_def)
  have "fread_into junk (file_pos (int j)) (nat w) (block_of st (bs ! m)) = take (nat w) (drop j (block_of st (bs ! m)))"
    using w B by (simp add: file_pos_def fread_full)
  then have "read_data junk st (map dec_int bs) off n =
      Some (take (nat w) (drop j (block_of st (bs ! m))) @ take (nat (n - w)) (file_content st (drop (Suc m) bs)))"
    using m B rb b by (simp add: read_data_def div Let_def w_def [symmetric] cong: if_cong split del: if_split)
  then show ?thesis using data by (simp add: k_def)
qed

lemma u32_of_small_int:
  assumes "0 \<le> n" "n < 2 ^ 31"
  shows "sint (word_of_int n :: u32) = n" "unat (word_of_int n :: u32) = nat n"
proof -
  show "sint (word_of_int n :: u32) = n" using assms by (simp add: signed_of_int signed_take_bit_int_eq_self)
  have "uint (word_of_int n :: u32) = n" using assms by (subst uint_word_of_int) simp
  then show "unat (word_of_int n :: u32) = nat n" by (metis unat_eq_nat_uint)
qed

lemma fs_read_send_resp_data:
  assumes "0 \<le> n" "n < 2 ^ 31" "length bs = nat n"
  shows "fs_read_send_resp c (word_of_int n) bs s =
     Some (s\<lparr>sk_out := sk_out s @ code_bytes c @ u32_bytes (word_of_int n) @ bs\<rparr>)"
  using assms by (cases "n = 0") (auto simp: fs_read_send_resp_def u32_of_small_int socket_write_def Let_def)

context fs_commons
begin

lemma file_rep_config:
  assumes "file_rep st path file_size bs" "tree st path = Some (Reg txt)"
  shows "config_get_array_value F txt ''BLOQUES'' = map dec_int bs" "config_get_int_value F txt ''TAMANIO'' = file_size"
proof -
  have "txt = metadata_text file_size bs" and f: "0 \<le> file_size" "file_size < 2 ^ 31" "bs \<noteq> []" "\<And>b. b \<in> set bs \<Longrightarrow> 0 \<le> b"
    using assms by (auto simp: file_rep_def blocks_ok_def)
  with config_size [OF f(1,2)] config_blocks [OF f(1,3,4)]
  show "config_get_array_value F txt ''BLOQUES'' = map dec_int bs" "config_get_int_value F txt ''TAMANIO'' = file_size"
    by simp_all
qed

lemma read_file_slice:
  assumes cp: "c_path (text_of path) = Some fp" and rep: "file_rep st fp file_size bs" and p: "path_ok path"
    and s: "sk_in s = fs_read_body (off, sz, path) @ rest"
    and ofs: "0 \<le> sint off" "sint off < file_size - 1" and z: "0 \<le> sint sz" "int_ok (sint off + sint sz)"
    and n: "n = min (sint sz) (file_size - sint off)"
  shows "read_file F junk s st =
     Some (s\<lparr>sk_in := rest, sk_out := sk_out s @ code_bytes SUCCESS @ u32_bytes (word_of_int n) @
              mem_read (nat (sint off)) (nat n) (file_content st bs)\<rparr>, st)"
proof -
  obtain tx where t: "tree st fp = Some (Reg tx)" using rep by (auto simp: file_rep_def)
  note cfg = file_rep_config [OF rep t]
  have ok: "blocks_ok st bs" and cap: "file_size \<le> 64 * int (length bs)" and sm: "file_size < 2 ^ 31"
    using rep by (auto simp: file_rep_def)
  have n0: "0 \<le> n" "sint off + n \<le> file_size" "n < 2 ^ 31" using n z ofs sm by auto
  let ?d = "mem_read (nat (sint off)) (nat n) (file_content st bs)"
  have rd: "read_data junk st (map dec_int bs) (sint off) n = Some ?d"
    by (rule read_data_slice [OF ok]) (use n0 cap ofs in linarith)+
  have "length ?d = nat n"
    using n0 cap ofs length_file_content [OF ok] by (intro length_mem_read) linarith
  then have resp: "fs_read_send_resp SUCCESS (word_of_int n) ?d (s\<lparr>sk_in := rest\<rparr>) =
      Some (s\<lparr>sk_in := rest, sk_out := sk_out s @ code_bytes SUCCESS @ u32_bytes (word_of_int n) @ ?d\<rparr>)"
    using n0 by (subst fs_read_send_resp_data) simp_all
  have nn: "(if file_size < sint off + sint sz then file_size - sint off else sint sz) = n"
    using n by auto
  show ?thesis
    using fs_read_wire.parse_body [of "(off, sz, path)" s rest junk] p s t ofs z rd resp
    unfolding read_file_def Let_def
    by (simp add: c_string_sent cp cfg nn cong: if_cong split del: if_split)
qed

end

section \<open>Writing into the blocks of a file\<close>

lemma mem_write_adjacent:
  "p + length a + length b \<le> length m \<Longrightarrow> mem_write (p + length a) b (mem_write p a m) = mem_write p (a @ b) m"
  by (simp add: mem_write_def ac_simps)

lemma mem_write_middle:
  "k + length x \<le> length c \<Longrightarrow> mem_write (length a + k) x (a @ c @ b) = a @ mem_write k x c @ b"
  by (simp add: mem_write_def)

lemma file_write_inside: "pos + length bs \<le> length c \<Longrightarrow> file_write pos bs c = mem_write pos bs c"
  by (simp add: file_write_def mem_write_def)

lemma mem_read_append: "mem_read p (a + b) m = mem_read p a m @ mem_read (p + a) b m"
  by (simp add: mem_read_def take_add add.commute)

definition with_block :: "int \<Rightarrow> byte list \<Rightarrow> fs_state \<Rightarrow> fs_state" where
  "with_block b c st = st\<lparr>block_file := (block_file st)(dec_int b \<mapsto> c)\<rparr>"

lemma block_of_with_block:
  assumes "0 \<le> b" "b < 2 ^ 31" "0 \<le> d" "d < 2 ^ 31"
  shows "block_of (with_block b c st) d = (if d = b then c else block_of st d)"
  using dec_int_inject [OF assms(3,4,1,2)] by (simp add: block_of_def with_block_def)

lemma blocks_ok_with_block:
  assumes "blocks_ok st bs" "0 \<le> b" "b < 2 ^ 31" "length c = 64"
  shows "blocks_ok (with_block b c st) bs"
  using assms dec_int_inject [of _ b] block_of_with_block [OF assms(2,3)]
  by (auto simp: blocks_ok_def) (auto simp: with_block_def block_of_def)

lemma content_other_block:
  assumes "blocks_ok st bs" "0 \<le> b" "b < 2 ^ 31" "b \<notin> set bs"
  shows "file_content (with_block b c st) bs = file_content st bs"
  using assms block_of_with_block [OF assms(2,3)]
  by (auto simp: file_content_def blocks_ok_def intro!: arg_cong [where f = concat])

lemma content_with_block:
  assumes ok: "blocks_ok st bs" and d: "distinct bs" and m: "m < length bs"
    and k: "k + length x \<le> 64" and c: "c = file_write k x (block_of st (bs ! m))"
  shows "file_content (with_block (bs ! m) c st) bs = mem_write (64 * m + k) x (file_content st bs)"
    and "blocks_ok (with_block (bs ! m) c st) bs"
proof -
  let ?b = "bs ! m" and ?st = "with_block (bs ! m) c st"
  have bs: "bs = take m bs @ ?b # drop (Suc m) bs" using m by (rule id_take_nth_drop)
  have b: "0 \<le> ?b" "?b < 2 ^ 31" "length (block_of st ?b) = 64" using ok m by (auto simp: blocks_ok_def)
  have oks: "blocks_ok st (take m bs)" "blocks_ok st (drop (Suc m) bs)"
    using ok by (auto simp: blocks_ok_def dest: in_set_takeD in_set_dropD)
  have "distinct (take m bs @ ?b # drop (Suc m) bs)" using d bs by simp
  then have nin: "?b \<notin> set (take m bs)" "?b \<notin> set (drop (Suc m) bs)" by auto
  have cw: "c = mem_write k x (block_of st ?b)" using c k b(3) by (simp add: file_write_inside)
  then have lc: "length c = 64" using k b(3) by simp
  show "blocks_ok ?st bs" by (rule blocks_ok_with_block [OF ok b(1,2) lc])
  have lt: "length (file_content st (take m bs)) = 64 * m" using length_file_content [OF oks(1)] m by simp
  have "file_content ?st bs = file_content ?st (take m bs) @ block_of ?st ?b @ file_content ?st (drop (Suc m) bs)"
    by (metis bs file_content_Cons file_content_append)
  also have "\<dots> = file_content st (take m bs) @ c @ file_content st (drop (Suc m) bs)"
    by (simp add: content_other_block [OF oks(1) b(1,2) nin(1)] content_other_block [OF oks(2) b(1,2) nin(2)]
        block_of_with_block [OF b(1,2,1,2)])
  also have "\<dots> = mem_write (64 * m + k) x
      (file_content st (take m bs) @ block_of st ?b @ file_content st (drop (Suc m) bs))"
    using mem_write_middle [of k x "block_of st ?b" "file_content st (take m bs)"] k b(3) lt cw by simp
  also have "file_content st (take m bs) @ block_of st ?b @ file_content st (drop (Suc m) bs) = file_content st bs"
    by (metis bs file_content_Cons file_content_append)
  finally show "file_content ?st bs = mem_write (64 * m + k) x (file_content st bs)" .
qed

text \<open>Everything but the blocks \<open>bs\<close> is as before.\<close>

definition same_but_blocks :: "int list \<Rightarrow> fs_state \<Rightarrow> fs_state \<Rightarrow> bool" where
  "same_but_blocks bs st st' \<longleftrightarrow> tree st' = tree st \<and> bitmap st' = bitmap st \<and> fs_blocks st' = fs_blocks st
     \<and> (\<forall>name. name \<notin> dec_int ` set bs \<longrightarrow> block_file st' name = block_file st name)"

context fs_commons
begin

lemma write_blocks_step:
  assumes ok: "blocks_ok st bs" and m: "m < length bs" and k: "k < 64" and n: "0 < n"
    and w: "w = min n (64 - k)" and bp: "bp + n \<le> length buffer"
  shows "write_blocks F buffer bs (int m) (int k) (int n) bp st =
     write_blocks F buffer bs (int (Suc m)) 0 (int (n - w)) (bp + w)
       (with_block (bs ! m) (file_write k (mem_read bp w buffer) (block_of st (bs ! m))) st)"
proof -
  have "(if 64 - int k \<le> int n then 64 - int k else int n) = int w" using k by (auto simp: w min_def)
  moreover have "list_get (blocks_ops F) bs m = bs ! m" using m by (rule bl.list_get)
  moreover have "block_file st (dec_int (bs ! m)) = Some (block_of st (bs ! m))" using blocks_ok_nth [OF ok m] by simp
  moreover have "w \<le> n" by (simp add: w)
  ultimately show ?thesis
    using m k n bp
    by (subst write_blocks.simps)
      (simp add: BLOCK_SIZE_def Let_def file_pos_def with_block_def of_nat_diff add.commute split del: if_split)
qed

lemma write_blocks_content:
  assumes "blocks_ok st bs" "distinct bs" "k < 64" "64 * m + k + n \<le> 64 * length bs" "bp + n \<le> length buffer"
  shows "\<exists>st'. write_blocks F buffer bs (int m) (int k) (int n) bp st = Some st' \<and> same_but_blocks bs st st' \<and>
     blocks_ok st' bs \<and> file_content st' bs = mem_write (64 * m + k) (mem_read bp n buffer) (file_content st bs)"
  using assms
proof (induction n arbitrary: m k bp st rule: less_induct)
  case (less n)
  show ?case
  proof (cases "n = 0")
    case True
    then show ?thesis
      by (subst write_blocks.simps) (simp add: same_but_blocks_def less.prems mem_read_def mem_write_def)
  next
    case False
    define w where "w = min n (64 - k)"
    define x where "x = mem_read bp w buffer"
    define st1 where "st1 = with_block (bs ! m) (file_write k x (block_of st (bs ! m))) st"
    have m: "m < length bs" using less.prems(3,4) False by linarith
    have w: "0 < w" "w \<le> n" "k + w \<le> 64" using False less.prems(3) by (auto simp: w_def)
    have lx: "length x = w" using w less.prems(5) by (simp add: x_def length_mem_read)
    have st1: "file_content st1 bs = mem_write (64 * m + k) x (file_content st bs)" "blocks_ok st1 bs"
      unfolding st1_def using content_with_block [OF less.prems(1,2) m _ refl, of k x] lx w(3) by simp_all
    have rest: "64 * Suc m + 0 + (n - w) \<le> 64 * length bs \<or> n = w" using less.prems(4) w by (auto simp: w_def)
    have "\<exists>st'. write_blocks F buffer bs (int (Suc m)) (int 0) (int (n - w)) (bp + w) st1 = Some st' \<and>
        same_but_blocks bs st1 st' \<and> blocks_ok st' bs \<and>
        file_content st' bs = mem_write (64 * m + k + w) (mem_read (bp + w) (n - w) buffer) (file_content st1 bs)"
    proof (cases "n = w")
      case True
      then show ?thesis
        using st1(2) by (subst write_blocks.simps) (simp add: same_but_blocks_def mem_read_def mem_write_def)
    next
      case n: False
      then have kw: "k + w = 64" using less.prems(3) by (auto simp: w_def)
      then have pos: "64 * m + k + w = 64 * Suc m + 0" by simp
      have "n - w < n" "bp + w + (n - w) \<le> length buffer" using w less.prems(5) by auto
      from less.IH [OF this(1) st1(2) less.prems(2) _ _ this(2), of 0 "Suc m"] rest n
      show ?thesis unfolding pos by simp
    qed
    then obtain st' where st': "write_blocks F buffer bs (int (Suc m)) (int 0) (int (n - w)) (bp + w) st1 = Some st'"
        "same_but_blocks bs st1 st'" "blocks_ok st' bs"
        "file_content st' bs = mem_write (64 * m + k + w) (mem_read (bp + w) (n - w) buffer) (file_content st1 bs)"
      by blast
    have "same_but_blocks bs st st1" using m by (auto simp: same_but_blocks_def st1_def with_block_def)
    with st'(2) have sm: "same_but_blocks bs st st'" by (auto simp: same_but_blocks_def)
    have "mem_read bp n buffer = x @ mem_read (bp + w) (n - w) buffer"
      using w(2) mem_read_append [of bp w "n - w" buffer] by (simp add: x_def)
    moreover have "64 * m + k + length x + length (mem_read (bp + w) (n - w) buffer) \<le> length (file_content st bs)"
      using less.prems(4,5) w lx length_file_content [OF less.prems(1)] by (simp add: length_mem_read)
    ultimately have "file_content st' bs = mem_write (64 * m + k) (mem_read bp n buffer) (file_content st bs)"
      using st'(4) st1(1) lx mem_write_adjacent [of "64 * m + k" x] by simp
    with st' sm show ?thesis
      using write_blocks_step [OF less.prems(1) m less.prems(3) _ w_def less.prems(5)] False
      by (simp add: st1_def x_def)
  qed
qed

end

end
