(* ===== verification/File_System_Write.thy ===== *)
theory File_System_Write
  imports File_System_Inv
begin

text \<open>
  Growing a file, the whole of \<open>write_file\<close>, \<open>create_file\<close> and \<open>delete_file\<close>, and the properties of the
  file-system process.
\<close>

section \<open>Free blocks\<close>

definition free_at :: "fs_state \<Rightarrow> nat \<Rightarrow> bool" where
  "free_at st i \<longleftrightarrow> i < unat (fs_blocks st) \<and> \<not> bitmap st ! i"

definition bitmap_ok :: "fs_state \<Rightarrow> bool" where
  "bitmap_ok st \<longleftrightarrow> unat (fs_blocks st) \<le> length (bitmap st) \<and> unat (fs_blocks st) < 2 ^ 31"

definition free_count :: "fs_state \<Rightarrow> nat" where
  "free_count st = card {i. free_at st i}"

lemma finite_free: "finite {i. free_at st i}"
  by (rule finite_subset [of _ "{..<unat (fs_blocks st)}"]) (auto simp: free_at_def)

text \<open>
  \<open>st'\<close> results from \<open>st\<close> by handing out the blocks \<open>new\<close>: they were free and distinct, their bits
  are set, they are filled with blanks, and nothing else changed.
\<close>

definition handed_out :: "int list \<Rightarrow> fs_state \<Rightarrow> fs_state \<Rightarrow> bool" where
  "handed_out new st st' \<longleftrightarrow> tree st' = tree st \<and> fs_blocks st' = fs_blocks st
     \<and> length (bitmap st') = length (bitmap st) \<and> distinct new
     \<and> (\<forall>b \<in> set new. 0 \<le> b \<and> free_at st (nat b) \<and> block_file st' (dec_int b) = Some (replicate 64 (of_char CHR '' '')))
     \<and> (\<forall>i. free_at st' i \<longleftrightarrow> free_at st i \<and> int i \<notin> set new)
     \<and> (\<forall>name. name \<notin> dec_int ` set new \<longrightarrow> block_file st' name = block_file st name)"

definition blocks_needed :: "int \<Rightarrow> nat" where
  "blocks_needed n = nat ((n + 63) div 64)"

context fs_commons
begin

lemma available_scan_spec:
  assumes "pos + n \<le> length b"
  shows "available_scan F b pos n =
    (if \<exists>i. pos \<le> i \<and> i < pos + n \<and> \<not> b ! i then Some (LEAST i. pos \<le> i \<and> \<not> b ! i) else None)"
  using assms
proof (induction n arbitrary: pos)
  case (Suc n)
  show ?case
  proof (cases "b ! pos")
    case True
    then have e: "(pos \<le> i \<and> \<not> b ! i) = (Suc pos \<le> i \<and> \<not> b ! i)" for i by (metis Suc_leD Suc_leI le_neq_implies_less)
    then have "(\<exists>i. pos \<le> i \<and> i < pos + Suc n \<and> \<not> b ! i) = (\<exists>i. Suc pos \<le> i \<and> i < Suc pos + n \<and> \<not> b ! i)" by auto
    moreover have "available_scan F b pos (Suc n) = available_scan F b (Suc pos) n" using True Suc.prems by (simp add: test_bit)
    moreover have "(LEAST i. pos \<le> i \<and> \<not> b ! i) = (LEAST i. Suc pos \<le> i \<and> \<not> b ! i)"
      using e by (intro arg_cong [where f = Least] ext)
    moreover have "Suc pos + n \<le> length b" using Suc.prems by simp
    ultimately show ?thesis using Suc.IH [of "Suc pos"] by (simp only:)
  next
    case False
    then have "(LEAST i. pos \<le> i \<and> \<not> b ! i) = pos" by (intro Least_equality) auto
    with False Suc.prems show ?thesis by (auto simp: test_bit intro!: exI [of _ pos])
  qed
qed simp

lemma get_available_block_cases:
  assumes "bitmap_ok st"
  shows "(\<exists>i. free_at st i \<and> get_available_block F st = (int i, st\<lparr>bitmap := (bitmap st)[i := True]\<rparr>)) \<or>
     ((\<forall>i. \<not> free_at st i) \<and> get_available_block F st = (- 1, st))"
proof (cases "\<exists>i < unat (fs_blocks st). \<not> bitmap st ! i")
  case True
  let ?i = "LEAST i. \<not> bitmap st ! i"
  have "\<not> bitmap st ! ?i" using True by (metis (mono_tags, lifting) LeastI)
  moreover have "?i < unat (fs_blocks st)" using True by (metis (mono_tags, lifting) Least_le le_less_trans)
  ultimately have "free_at st ?i" by (simp add: free_at_def)
  moreover have "available_scan F (bitmap st) 0 (unat (fs_blocks st)) = Some ?i"
    using available_scan_spec [of 0 "unat (fs_blocks st)" "bitmap st"] assms True by (simp add: bitmap_ok_def)
  ultimately show ?thesis
    using assms by (auto simp: get_available_block_def set_bit bitmap_ok_def free_at_def)
next
  case False
  then have "available_scan F (bitmap st) 0 (unat (fs_blocks st)) = None"
    using available_scan_spec [of 0 "unat (fs_blocks st)" "bitmap st"] assms by (simp add: bitmap_ok_def)
  with False show ?thesis by (auto simp: get_available_block_def free_at_def)
qed

lemma hand_out_one:
  assumes "bitmap_ok st" "free_at st i" "st' = new_block (int i) (st\<lparr>bitmap := (bitmap st)[i := True]\<rparr>)"
  shows "handed_out [int i] st st'" "free_count st = Suc (free_count st')" "bitmap_ok st'"
proof -
  have i: "i < length (bitmap st)" "i < unat (fs_blocks st)" using assms(1,2) by (auto simp: bitmap_ok_def free_at_def)
  have fr: "free_at st' j \<longleftrightarrow> free_at st j \<and> j \<noteq> i" for j
    using i assms(3) by (auto simp: free_at_def new_block_def nth_list_update)
  show "handed_out [int i] st st'"
    unfolding handed_out_def using assms(2) fr by (auto simp: assms(3) new_block_def BLOCK_SIZE_def)
  have "{j. free_at st j} = insert i {j. free_at st' j}" using fr assms(2) by auto
  then show "free_count st = Suc (free_count st')"
    using finite_free [of st'] fr by (simp add: free_count_def)
  show "bitmap_ok st'" using assms(1,3) by (simp add: bitmap_ok_def new_block_def)
qed

lemma handed_out_Cons:
  assumes "handed_out [b] st st1" "handed_out new st1 st2" "0 \<le> b" "bitmap_ok st"
  shows "handed_out (b # new) st st2"
proof -
  have nb: "b \<notin> set new" using assms(1-3) by (auto simp: handed_out_def)
  have small: "d < 2 ^ 31" if "free_at st (nat d)" for d
    using that assms(4) by (auto simp: free_at_def bitmap_ok_def)
  have inj: "dec_int b \<notin> dec_int ` set new"
  proof
    assume "dec_int b \<in> dec_int ` set new"
    then obtain d where d: "d \<in> set new" "dec_int b = dec_int d" by auto
    then have "0 \<le> d" "free_at st (nat d)" "free_at st (nat b)" using assms(1,2) by (auto simp: handed_out_def)
    then have "b = d" using d(2) dec_int_inject [OF assms(3) small _ small] by simp
    with d nb show False by simp
  qed
  with assms nb show ?thesis by (auto simp: handed_out_def)
qed

lemma expand_file_enough:
  assumes "bitmap_ok st" "blocks_needed n \<le> free_count st"
  shows "\<exists>n' new st'. expand_file F k n bs s st = Some (n', bs @ new, s, st') \<and> n' \<le> 0 \<and>
     length new = blocks_needed n \<and> handed_out new st st'"
  using assms
proof (induction "blocks_needed n" arbitrary: n bs st)
  case 0
  then have "n \<le> 0" by (simp add: blocks_needed_def)
  moreover have "handed_out [] st st" by (simp add: handed_out_def)
  ultimately show ?case using 0(1)
    by (intro exI [of _ n] exI [of _ "[]"] exI [of _ st]) (subst expand_file.simps, simp)
next
  case (Suc x)
  have n: "0 < n" and x: "blocks_needed (n - 64) = x"
    using Suc.hyps(2) by (auto simp: blocks_needed_def)
  have "\<exists>i. free_at st i"
    using Suc.prems(2) Suc.hyps(2) by (metis (mono_tags, lifting) card.empty empty_Collect_eq free_count_def not_less_eq_eq zero_le)
  then obtain i where i: "free_at st i" "get_available_block F st = (int i, st\<lparr>bitmap := (bitmap st)[i := True]\<rparr>)"
    using get_available_block_cases [OF Suc.prems(1)] by blast
  define st1 where "st1 = new_block (int i) (st\<lparr>bitmap := (bitmap st)[i := True]\<rparr>)"
  note H = hand_out_one [OF Suc.prems(1) i(1) st1_def]
  have "blocks_needed (n - 64) \<le> free_count st1" using Suc.prems(2) Suc.hyps(2) H(2) x by simp
  from Suc.hyps(1) [OF x [symmetric] H(3) this, of "bs @ [int i]"] obtain n' new st' where
    r: "expand_file F k (n - 64) (bs @ [int i]) s st1 = Some (n', (bs @ [int i]) @ new, s, st')" "n' \<le> 0"
      "length new = blocks_needed (n - 64)" "handed_out new st1 st'" by blast
  have "expand_file F k n bs s st = expand_file F k (n - 64) (bs @ [int i]) s st1"
    using n i(2) by (subst expand_file.simps) (simp add: bl.list_add BLOCK_SIZE_def st1_def)
  moreover have "handed_out (int i # new) st st'"
    by (rule handed_out_Cons [OF H(1) r(4) _ Suc.prems(1)]) simp
  ultimately show ?case
    using r x Suc.hyps(2) by (intro exI [of _ n'] exI [of _ "int i # new"] exI [of _ st']) simp
qed

text \<open>Without a free block the loop answers and goes round again, for ever.\<close>

lemma expand_file_stuck:
  assumes "bitmap_ok st" "\<And>i. \<not> free_at st i" "0 < n" "length bs \<le> k"
  shows "expand_file F k n bs s st = None"
proof -
  have "F' = F \<longrightarrow> k' = k \<longrightarrow> n' = n \<longrightarrow> bs' = bs \<longrightarrow> st' = st \<longrightarrow> False"
    if "expand_file F' k' n' bs' s' st' = Some r" for F' k' n' bs' s' st' r
  proof (rule expand_file.raw_induct [OF _ that])
    fix ex F' k' n' bs' s' st' r
    assume ih: "\<And>F' k' n' bs' s' st' r. ex F' k' n' bs' s' st' = Some r \<Longrightarrow>
        F' = F \<longrightarrow> k' = k \<longrightarrow> n' = n \<longrightarrow> bs' = bs \<longrightarrow> st' = st \<longrightarrow> False"
      and eq: "(if 0 < n' then
        (case get_available_block F' st' of
           (available_block, st1) \<Rightarrow>
             if 0 \<le> available_block then
               ex F' k' (n' - BLOCK_SIZE) (list_add (blocks_ops F') bs' available_block) s' (new_block available_block st1)
             else
               Option.bind (give_back F' k' bs' (bitmap st1))
                 (\<lambda>(blocks', b'). ex F' k' n' blocks' (fs_write_send_resp ENOSPC s') (st1\<lparr>bitmap := b'\<rparr>)))
      else Some (n', bs', s', st')) = Some r"
    have gb: "give_back F k bs (bitmap st) = Some (bs, bitmap st)"
      using assms(4) by (subst give_back.simps) simp
    have "get_available_block F st = (- 1, st)" using get_available_block_cases [OF assms(1)] assms(2) by blast
    with eq gb assms(3) ih [of F k n bs "fs_write_send_resp ENOSPC s'" st r]
    show "F' = F \<longrightarrow> k' = k \<longrightarrow> n' = n \<longrightarrow> bs' = bs \<longrightarrow> st' = st \<longrightarrow> False" by auto
  qed
  from this [of F k n bs s st] show ?thesis by (cases "expand_file F k n bs s st") simp_all
qed

lemma used_blocks_list:
  assumes "\<And>b. b \<in> set bs \<Longrightarrow> 0 \<le> b \<and> b < 2 ^ 31"
  shows "fold (\<lambda>b l. list_add (blocks_ops F) l (sint (atoi b))) (map dec_int bs) acc = acc @ bs"
  using assms
proof (induction bs arbitrary: acc)
  case (Cons b bs)
  have "sint (atoi (dec_int b)) = b" using Cons.prems [of b] by (simp add: atoi_dec_int u32_of_small_int)
  with Cons show ?case by (simp add: bl.list_add)
qed simp

end

text \<open>
  The abstract file: the bytes of its blocks.  A write that reaches beyond them appends blank blocks and
  then overwrites in place.
\<close>

definition spec_grow :: "nat \<Rightarrow> byte list \<Rightarrow> byte list" where
  "spec_grow k content = content @ replicate (64 * k) (of_char CHR '' '')"

definition spec_write :: "nat \<Rightarrow> byte list \<Rightarrow> byte list \<Rightarrow> byte list" where
  "spec_write off data content =
     mem_write off data (spec_grow (blocks_needed (int (off + length data) - int (length content))) content)"

definition blocks_used :: "fs_state \<Rightarrow> int list \<Rightarrow> bool" where
  "blocks_used st bs \<longleftrightarrow> (\<forall>b \<in> set bs. nat b < unat (fs_blocks st) \<and> \<not> free_at st (nat b))"

lemma handed_out_rep:
  assumes ho: "handed_out new st st'" and rep: "file_rep st path file_size bs"
    and u: "blocks_used st bs" and ok: "bitmap_ok st"
  shows "blocks_ok st' (bs @ new)" "distinct (bs @ new)"
    "file_content st' (bs @ new) = spec_grow (length new) (file_content st bs)"
proof -
  have bs: "blocks_ok st bs" "distinct bs" using rep by (auto simp: file_rep_def)
  have new: "0 \<le> b" "free_at st (nat b)" "block_file st' (dec_int b) = Some (replicate 64 (of_char CHR '' ''))"
      "b < 2 ^ 31" if "b \<in> set new" for b
    using ho that ok by (auto simp: handed_out_def free_at_def bitmap_ok_def)
  have disj: "b \<notin> set bs" if "b \<in> set new" for b using new(2) [OF that] u by (auto simp: blocks_used_def)
  show "distinct (bs @ new)" using bs(2) ho disj by (auto simp: handed_out_def)
  have old: "block_file st' (dec_int b) = block_file st (dec_int b)" if b: "b \<in> set bs" for b
  proof -
    have "0 \<le> b" "b < 2 ^ 31" using bs(1) b by (auto simp: blocks_ok_def)
    then have "dec_int b \<noteq> dec_int d" if "d \<in> set new" for d
      using dec_int_inject [of b d] new [OF that] disj [OF that] b by auto
    then have "dec_int b \<notin> dec_int ` set new" by auto
    then show ?thesis using ho unfolding handed_out_def by blast
  qed
  have nb: "block_of st' b = replicate 64 (of_char CHR '' '')" if "b \<in> set new" for b
    using new(3) [OF that] by (simp add: block_of_def)
  have ob: "block_of st' b = block_of st b" if "b \<in> set bs" for b
    using old [OF that] by (simp add: block_of_def)
  show "blocks_ok st' (bs @ new)"
    using bs(1) new nb old ob by (auto simp: blocks_ok_def)
  have "file_content st' bs = file_content st bs"
    using ob by (auto simp: file_content_def intro!: arg_cong [where f = concat])
  moreover have "concat (map (block_of st') l) = replicate (64 * length l) (of_char CHR '' '')" if "set l \<subseteq> set new" for l
    using that nb by (induction l) (auto simp: replicate_add)
  ultimately show "file_content st' (bs @ new) = spec_grow (length new) (file_content st bs)"
    by (simp add: file_content_append spec_grow_def) (simp add: file_content_def)
qed

lemma content_ignores_tree [simp]:
  "block_of (st\<lparr>tree := t\<rparr>) = block_of st"
  "file_content (st\<lparr>tree := t\<rparr>) bs = file_content st bs"
  "blocks_ok (st\<lparr>tree := t\<rparr>) bs = blocks_ok st bs"
  by (simp_all add: block_of_def [abs_def] file_content_def blocks_ok_def)

text \<open>The state after a write to \<open>path\<close>, relative to the state before it.\<close>

definition written :: "string list \<Rightarrow> int list \<Rightarrow> int list \<Rightarrow> fs_state \<Rightarrow> fs_state \<Rightarrow> bool" where
  "written path bs new st st' \<longleftrightarrow>
     (\<forall>q. q \<noteq> path \<longrightarrow> tree st' q = tree st q)
     \<and> fs_blocks st' = fs_blocks st \<and> length (bitmap st') = length (bitmap st)
     \<and> (\<forall>b \<in> set new. 0 \<le> b \<and> free_at st (nat b))
     \<and> (\<forall>i. free_at st' i \<longleftrightarrow> free_at st i \<and> int i \<notin> set new)
     \<and> (\<forall>name. name \<notin> dec_int ` set (bs @ new) \<longrightarrow> block_file st' name = block_file st name)"

context fs_commons
begin

lemma write_parsed:
  assumes req: "fs_write_recv_req junk s = (w_req, s1)" "fw_path w_req = Some bytes" "c_string bytes = Some path"
    and fields: "fw_offset w_req = off" "fw_size w_req = sz" "fw_buffer w_req = buffer"
    and cp: "c_path path = Some fp" and rep: "file_rep st fp file_size bs" and u: "blocks_used st bs" and bm: "bitmap_ok st"
    and z: "sint sz = int (length buffer)" and o: "0 \<le> sint off" "int_ok (sint off + sint sz)"
    and room: "blocks_needed (sint off + sint sz - 64 * int (length bs)) \<le> free_count st"
  shows "\<exists>new st'. write_file F junk s st = Some (fs_write_send_resp SUCCESS s1, st') \<and>
      file_rep st' fp (max file_size (sint off + sint sz)) (bs @ new) \<and>
      file_content st' (bs @ new) = spec_write (nat (sint off)) buffer (file_content st bs) \<and>
      written fp bs new st st'"
proof -
  let ?p = "fp" and ?e = "sint off + sint sz"
  obtain tx where t: "tree st ?p = Some (Reg tx)" using rep by (auto simp: file_rep_def)
  note cfg = file_rep_config [OF rep t]
  have ok: "blocks_ok st bs" and cap: "0 \<le> file_size" "file_size \<le> 64 * int (length bs)" "file_size < 2 ^ 31"
    and ne: "bs \<noteq> []" and par: "tree st (butlast ?p) = Some Dir" using rep by (auto simp: file_rep_def)
  have blk: "fold (\<lambda>b l. list_add (blocks_ops F) l (sint (atoi b))) (map dec_int bs) [] = bs"
    using used_blocks_list [of bs "[]"] ok by (simp add: blocks_ok_def)
  define n where "n = (if file_size < ?e then (?e - file_size)
      - (if file_size - (int (length bs) - 1) * BLOCK_SIZE < BLOCK_SIZE
         then BLOCK_SIZE - (file_size - (int (length bs) - 1) * BLOCK_SIZE) else 0) else 0)"
  have need: "blocks_needed n = blocks_needed (?e - 64 * int (length bs))"
    using cap by (auto simp: n_def blocks_needed_def BLOCK_SIZE_def)
  obtain n' new st1 where ex: "expand_file F (length bs) n bs s1 st = Some (n', bs @ new, s1, st1)"
      "n' \<le> 0" "length new = blocks_needed n" "handed_out new st st1"
    using expand_file_enough [OF bm, of n "length bs" bs "s1"] room need by auto
  note H = handed_out_rep [OF ex(4) rep u bm]
  define k where "k = nat (sint off)"
  have k: "int k = sint off" using o by (simp add: k_def)
  have size: "k + length buffer \<le> 64 * length (bs @ new)"
    using ex(3) need k z by (simp add: blocks_needed_def)
  have "64 * (k div 64) + k mod 64 + length buffer \<le> 64 * length (bs @ new)" using size by simp
  from write_blocks_content [OF H(1,2) _ this, of 0 buffer] obtain st2 where
    w: "write_blocks F buffer (bs @ new) (int (k div 64)) (int (k mod 64)) (int (length buffer)) 0 st1 = Some st2"
      "same_but_blocks (bs @ new) st1 st2" "blocks_ok st2 (bs @ new)"
      "file_content st2 (bs @ new) = mem_write k buffer (file_content st1 (bs @ new))" by (auto simp: mem_read_def)
  have pos: "c_div (sint off) BLOCK_SIZE = int (k div 64)" "sint off - int (k div 64) * BLOCK_SIZE = int (k mod 64)"
    by (simp_all add: k [symmetric] c_div_nonneg BLOCK_SIZE_def zdiv_int zmod_int minus_div_mult_eq_mod)
  define st3 where "st3 = st2\<lparr>tree := (tree st2)(?p \<mapsto> Reg (metadata_text (max file_size ?e) (bs @ new)))\<rparr>"
  have tr: "tree st2 = tree st" using w(2) ex(4) by (simp add: same_but_blocks_def handed_out_def)
  have wt: "write_text ?p (metadata_text (max file_size ?e) (bs @ new)) st2 = Some st3"
    using par t by (simp add: write_text_def tr st3_def)
  have fs: "(if file_size < ?e then ?e else file_size) = max file_size ?e" by auto
  have "write_file F junk s st = Some (fs_write_send_resp SUCCESS s1, st3)"
    using req fields cp t o ex(1,2) w(1) [folded z] wt ne pos
    unfolding write_file_def Let_def
    by (simp add: cfg blk fs n_def [symmetric] cong: if_cong split del: if_split)
  moreover have "file_rep st3 ?p (max file_size ?e) (bs @ new)"
  proof -
    have "butlast ?p \<noteq> ?p" using par t by auto
    moreover have "max file_size ?e \<le> 64 * int (length (bs @ new))" "0 \<le> max file_size ?e" "max file_size ?e < 2 ^ 31"
      using size k z cap o by (auto simp: int_ok_def)
    ultimately show ?thesis
      using w(3) H(2) ne par by (simp add: file_rep_def st3_def tr)
  qed
  moreover have "file_content st3 (bs @ new) = spec_write k buffer (file_content st bs)"
  proof -
    have "int (k + length buffer) - int (length (file_content st bs)) = ?e - 64 * int (length bs)"
      using k z length_file_content [OF ok] by simp
    then have "length new = blocks_needed (int (k + length buffer) - int (length (file_content st bs)))"
      using ex(3) need by simp
    then show ?thesis using w(4) H(3) by (simp add: spec_write_def st3_def)
  qed
  moreover have "written ?p bs new st st3"
    using ex(4) w(2) by (auto simp: written_def st3_def same_but_blocks_def handed_out_def free_at_def)
  ultimately show ?thesis unfolding k_def by blast
qed

lemma write_file_effect:
  assumes cp: "c_path (text_of path) = Some fp" and rep: "file_rep st fp file_size bs" and u: "blocks_used st bs" and bm: "bitmap_ok st"
    and v: "fs_write_valid (off, sz, path, buffer)" and s: "sk_in s = fs_write_body (off, sz, path, buffer) @ rest"
    and z: "sint sz = int (length buffer)" and o: "0 \<le> sint off" "int_ok (sint off + sint sz)"
    and room: "blocks_needed (sint off + sint sz - 64 * int (length bs)) \<le> free_count st"
  shows "\<exists>new st'. write_file F junk s st = Some (fs_write_send_resp SUCCESS (s\<lparr>sk_in := rest\<rparr>), st') \<and>
      file_rep st' fp (max file_size (sint off + sint sz)) (bs @ new) \<and>
      file_content st' (bs @ new) = spec_write (nat (sint off)) buffer (file_content st bs) \<and>
      written fp bs new st st'"
proof -
  let ?w = "\<lparr>fw_exec_code = SUCCESS, fw_path = Some (path @ [0]), fw_offset = off, fw_size = sz, fw_buffer = buffer\<rparr>"
  have "fs_write_recv_req junk s = (?w, s\<lparr>sk_in := rest\<rparr>)" "c_string (path @ [0]) = Some (text_of path)"
    using fs_write_wire.parse_body [OF v s, of junk] v by (simp_all add: c_string_sent fs_write_valid_def)
  from write_parsed [OF this(1) _ this(2) _ _ _ cp rep u bm z o room] show ?thesis by simp
qed

end

end
