(* ===== verification/File_System_Props.thy ===== *)
theory File_System_Props
  imports File_System_Write
begin

text \<open>
  The properties of the file-system process: reading a slice, writing as a refinement of the abstract
  file, reading back what was written, creating and deleting, and the two requests that never get an
  answer.
\<close>

section \<open>Creating the directories of a path\<close>

lemma strtok_words_sep [simp]: "strtok_words d [] (d # r) = strtok_words d [] r"
  by simp

lemma c_path_absolute:
  assumes "c_path (CHR ''/'' # r) = Some p"
  shows "p = ''Archivos'' # strtok_words (CHR ''/'') [] (CHR ''/'' # r)"
proof -
  have "strtok_words (CHR ''/'') [] (''Archivos'' @ CHR ''/'' # r) = strtok_words (CHR ''/'') ([] @ ''Archivos'') (CHR ''/'' # r)"
    by (rule strtok_words_token) auto
  then show ?thesis using assms by (simp add: c_path_def Let_def split: if_splits)
qed

text \<open>The proper prefixes of a path below the directory \<open>dir\<close>.\<close>

definition dirs_between :: "string list \<Rightarrow> string list \<Rightarrow> string list set" where
  "dirs_between dir tokens = {dir @ take k tokens | k. 0 < k \<and> k < length tokens}"

lemma dirs_between_step:
  "dirs_between dir (t # u # tokens) = insert (dir @ [t]) (dirs_between (dir @ [t]) (u # tokens))"
proof
  show "dirs_between dir (t # u # tokens) \<subseteq> insert (dir @ [t]) (dirs_between (dir @ [t]) (u # tokens))"
  proof
    fix q assume "q \<in> dirs_between dir (t # u # tokens)"
    then obtain k where k: "q = dir @ take k (t # u # tokens)" "0 < k" "k < length (t # u # tokens)"
      by (auto simp: dirs_between_def)
    then show "q \<in> insert (dir @ [t]) (dirs_between (dir @ [t]) (u # tokens))"
      by (cases "k = 1") (auto simp: dirs_between_def take_Cons' intro!: exI [of _ "k - 1"])
  qed
next
  have "dir @ [t] \<in> dirs_between dir (t # u # tokens)"
    by (auto simp: dirs_between_def intro!: exI [of _ 1])
  moreover have "(dir @ [t]) @ take k (u # tokens) \<in> dirs_between dir (t # u # tokens)" if "k < length (u # tokens)" for k
    using that by (auto simp: dirs_between_def intro!: exI [of _ "Suc k"])
  ultimately show "insert (dir @ [t]) (dirs_between (dir @ [t]) (u # tokens)) \<subseteq> dirs_between dir (t # u # tokens)"
    by (auto simp: dirs_between_def [of "dir @ [t]"])
qed

lemma dirs_between_single [simp]: "dirs_between dir [t] = {}" "dirs_between dir [] = {}"
  by (auto simp: dirs_between_def)

lemma make_dirs_spec:
  assumes "tree st dir = Some Dir" "\<And>q txt. q \<in> dirs_between dir tokens \<Longrightarrow> tree st q \<noteq> Some (Reg txt)"
  shows "make_dirs dir tokens st =
    st\<lparr>tree := (\<lambda>q. if q \<in> dirs_between dir tokens then Some Dir else tree st q)\<rparr>"
  using assms
proof (induction dir tokens st rule: make_dirs.induct)
  case (1 dir t u tokens st)
  let ?d = "dir @ [t]"
  define st1 where "st1 = (if tree st ?d = None then mkdir ?d st else st)"
  have "tree st ?d = None \<or> tree st ?d = Some Dir"
    using 1(3) [of ?d] by (cases "tree st ?d"; cases "the (tree st ?d)") (auto simp: dirs_between_step)
  then have st1: "st1 = st\<lparr>tree := (tree st)(?d \<mapsto> Dir)\<rparr>"
    using 1(2) by (auto simp: st1_def mkdir_def fun_upd_idem)
  have "make_dirs ?d (u # tokens) st1 =
      st1\<lparr>tree := (\<lambda>q. if q \<in> dirs_between ?d (u # tokens) then Some Dir else tree st1 q)\<rparr>"
    unfolding st1_def
  proof (rule 1(1) [OF refl], fold st1_def)
    show "tree st1 ?d = Some Dir" by (simp add: st1)
    show "tree st1 q \<noteq> Some (Reg tx)" if "q \<in> dirs_between ?d (u # tokens)" for q tx
      using 1(3) [of q tx] that by (simp add: st1 dirs_between_step)
  qed
  also have "(\<lambda>q. if q \<in> dirs_between ?d (u # tokens) then Some Dir else tree st1 q) =
      (\<lambda>q. if q \<in> dirs_between dir (t # u # tokens) then Some Dir else tree st q)"
    by (auto simp: st1 dirs_between_step)
  finally have "make_dirs ?d (u # tokens) st1 =
      st\<lparr>tree := (\<lambda>q. if q \<in> dirs_between dir (t # u # tokens) then Some Dir else tree st q)\<rparr>"
    by (simp add: st1)
  then show ?case by (simp only: make_dirs.simps Let_def st1_def [symmetric])
qed simp_all

lemma parent_created:
  assumes "tokens \<noteq> []" "tree st dir = Some Dir"
  shows "(if butlast (dir @ tokens) \<in> dirs_between dir tokens then Some Dir
          else tree st (butlast (dir @ tokens))) = Some Dir"
proof (cases "length tokens = 1")
  case True
  with assms show ?thesis by (auto simp: butlast_append length_Suc_conv)
next
  case False
  then have "butlast (dir @ tokens) \<in> dirs_between dir tokens"
    using assms(1) by (auto simp: dirs_between_def butlast_append butlast_conv_take intro!: exI [of _ "length tokens - 1"])
      (cases tokens; auto)+
  then show ?thesis by simp
qed

lemma target_not_between: "dir @ tokens \<notin> dirs_between dir tokens"
proof
  assume "dir @ tokens \<in> dirs_between dir tokens"
  then obtain k where "tokens = take k tokens" "k < length tokens" by (auto simp: dirs_between_def)
  then show False by (metis length_take min.absorb4 nat_neq_iff)
qed

context fs_commons
begin

lemma create_file_effect:
  assumes p: "path_ok path" "text_of path = CHR ''/'' # r" and pp: "c_path (text_of path) = Some p" and s: "sk_in s = path_bytes path @ rest"
    and tk: "tokens = strtok_words (CHR ''/'') [] (text_of path)" "tokens \<noteq> []"
    and root: "tree st [''Archivos''] = Some Dir"
    and clear: "\<And>q txt. q \<in> dirs_between [''Archivos''] tokens \<Longrightarrow> tree st q \<noteq> Some (Reg txt)"
    and none: "tree st p = None" and bm: "bitmap_ok st" and fr: "0 < free_count st"
  shows "\<exists>b st'. create_file F junk s st = Some (c_file_send_resp SUCCESS (s\<lparr>sk_in := rest\<rparr>), st') \<and>
      file_rep st' p 64 [b] \<and> file_content st' [b] = replicate 64 (of_char CHR '' '') \<and>
      free_at st (nat b) \<and> (\<forall>i. free_at st' i \<longleftrightarrow> free_at st i \<and> int i \<noteq> b) \<and>
      (\<forall>q txt. q \<noteq> p \<longrightarrow> (tree st' q = Some (Reg txt) \<longleftrightarrow> tree st q = Some (Reg txt)))"
proof -
  let ?p = p
  have cp: "?p = [''Archivos''] @ tokens" using c_path_absolute [of r p] pp p(2) tk(1) by simp
  define st1 where "st1 = make_dirs [''Archivos''] tokens st"
  note md = make_dirs_spec [OF root clear, of tokens, folded st1_def, simplified]
  have st1: "tree st1 = (\<lambda>q. if q \<in> dirs_between [''Archivos''] tokens then Some Dir else tree st q)"
    "bitmap st1 = bitmap st" "fs_blocks st1 = fs_blocks st" by (simp_all add: md)
  have t1: "tree st1 ?p = None" using none target_not_between [of "[''Archivos'']" tokens] unfolding st1(1) cp by simp
  have fa: "free_at st1 i = free_at st i" for i by (simp add: free_at_def st1)
  have bm1: "bitmap_ok st1" using bm by (simp add: bitmap_ok_def st1)
  have "\<exists>i. free_at st1 i" using fr fa by (metis (mono_tags, lifting) card.empty empty_Collect_eq free_count_def less_irrefl)
  then obtain i where i: "free_at st1 i" "get_available_block F st1 = (int i, st1\<lparr>bitmap := (bitmap st1)[i := True]\<rparr>)"
    using get_available_block_cases [OF bm1] by blast
  define st2 where "st2 = new_block (int i) (st1\<lparr>bitmap := (bitmap st1)[i := True]\<rparr>)"
  note ho = hand_out_one [OF bm1 i(1) st2_def]
  define st3 where "st3 = st2\<lparr>tree := (tree st1)(?p \<mapsto> Reg (metadata_text BLOCK_SIZE [int i]))\<rparr>"
  have par: "tree st1 (butlast ?p) = Some Dir"
    using parent_created [OF tk(2) root] unfolding st1(1) cp .
  have "create_file F junk s st = Some (c_file_send_resp SUCCESS (s\<lparr>sk_in := rest\<rparr>), st3)"
    using create_wire.parse_body [OF p(1) s, of junk] t1 i(2) par
    unfolding create_file_def Let_def tk(1) [symmetric]
    by (simp add: c_string_sent pp p(1) tk(1) [symmetric] st1_def [symmetric] write_text_def st3_def st2_def new_block_def)
  moreover have bl: "block_file st3 (dec_int (int i)) = Some (replicate 64 (of_char CHR '' ''))" "int i < 2 ^ 31"
    using i(1) bm1 by (auto simp: st3_def st2_def new_block_def BLOCK_SIZE_def free_at_def bitmap_ok_def)
  moreover have "file_rep st3 ?p 64 [int i]"
  proof -
    have "butlast ?p \<noteq> ?p" using par t1 by auto
    with par bl show ?thesis by (auto simp: file_rep_def blocks_ok_def block_of_def st3_def BLOCK_SIZE_def)
  qed
  moreover have "file_content st3 [int i] = replicate 64 (of_char CHR '' '')"
    using bl by (simp add: file_content_def block_of_def)
  moreover have "free_at st3 j \<longleftrightarrow> free_at st j \<and> int j \<noteq> int i" for j
    using ho(1) fa [of j] by (auto simp: handed_out_def st3_def free_at_def)
  moreover have "tree st3 q = Some (Reg tx) \<longleftrightarrow> tree st q = Some (Reg tx)" if "q \<noteq> ?p" for q tx
    using that clear [of q tx] by (auto simp: st3_def st1(1))
  ultimately show ?thesis using i(1) fa by (intro exI [of _ "int i"] exI [of _ st3]) auto
qed

lemma clean_bits:
  assumes "\<And>b. b \<in> set bs \<Longrightarrow> 0 \<le> b \<and> b < 2 ^ 31 \<and> nat b < length m"
  shows "length (fold (\<lambda>b m. bitarray_clean_bit F m (unat (atoi b))) (map dec_int bs) m) = length m \<and>
    (\<forall>i < length m. fold (\<lambda>b m. bitarray_clean_bit F m (unat (atoi b))) (map dec_int bs) m ! i
       \<longleftrightarrow> m ! i \<and> int i \<notin> set bs)"
  using assms
proof (induction bs arbitrary: m)
  case (Cons b bs)
  have b: "unat (atoi (dec_int b)) = nat b" "nat b < length m" "0 \<le> b"
    using Cons.prems [of b] by (simp_all add: atoi_dec_int u32_of_small_int)
  then have c: "bitarray_clean_bit F m (unat (atoi (dec_int b))) = m[nat b := False]" by (simp add: clean_bit)
  show ?case using Cons.IH [of "m[nat b := False]"] Cons.prems b(3) by (auto simp: c nth_list_update)
qed simp

lemma clean_all_bits:
  assumes "n \<le> length m"
  shows "length (fold (\<lambda>pos b. bitarray_clean_bit F b pos) [0..<n] m) = length m \<and>
    (\<forall>i < n. \<not> fold (\<lambda>pos b. bitarray_clean_bit F b pos) [0..<n] m ! i)"
  using assms
proof (induction n)
  case (Suc n)
  then show ?case by (auto simp: clean_bit nth_list_update less_Suc_eq)
qed simp

lemma load_fresh:
  assumes n: "8 \<le> unat n_blocks" "unat n_blocks < 2 ^ 31" "8 dvd unat n_blocks"
    and f: "files [] = Some Dir" "files [''Archivos''] = None"
  shows "\<exists>st. fs_load F page_size n_blocks None files blocks = Some st \<and> bitmap_ok st \<and> block_file st = blocks \<and>
    tree st = files([''Archivos''] \<mapsto> Dir) \<and> free_count st = unat n_blocks"
proof -
  have c: "8 * unat (n_blocks div 8) = unat n_blocks" using n(3) by (simp add: unat_div)
  define m where "m = replicate (unat n_blocks) False @
      replicate (8 * page_size * ((unat n_blocks + 8 * page_size - 1) div (8 * page_size)) - unat n_blocks) False"
  define st where "st = \<lparr>fs_blocks = n_blocks, bitmap = fold (\<lambda>pos b. bitarray_clean_bit F b pos) [0..<unat n_blocks] m,
      tree = files([''Archivos''] \<mapsto> Dir), block_file = blocks\<rparr>"
  have "unat n_blocks \<le> length m" by (simp add: m_def)
  note cl = clean_all_bits [OF this]
  have "fs_load F page_size n_blocks None files blocks = Some st"
    using n f \<open>unat n_blocks \<le> length m\<close> by (simp add: fs_load_def c m_def mkdir_def st_def Let_def)
  moreover have "bitmap_ok st" using cl n(2) \<open>unat n_blocks \<le> length m\<close> by (simp add: bitmap_ok_def st_def)
  moreover have "{i. free_at st i} = {..<unat n_blocks}" using cl by (auto simp: free_at_def st_def)
  ultimately show ?thesis by (simp add: free_count_def st_def)
qed

lemma free_blocks_effect:
  assumes rep: "file_rep st p file_size bs" and t: "tree st p = Some (Reg tx)" and u: "blocks_used st bs" and bm: "bitmap_ok st"
  shows "tree (free_blocks F tx st) = tree st" "block_file (free_blocks F tx st) = block_file st"
    "fs_blocks (free_blocks F tx st) = fs_blocks st" "bitmap_ok (free_blocks F tx st)"
    "free_at (free_blocks F tx st) i \<longleftrightarrow> free_at st i \<or> int i \<in> set bs"
proof -
  note cfg = file_rep_config [OF rep t]
  have bs: "0 \<le> b \<and> b < 2 ^ 31 \<and> nat b < length (bitmap st)" "nat b < unat (fs_blocks st)" if "b \<in> set bs" for b
    using that rep u bm by (auto simp: file_rep_def blocks_ok_def blocks_used_def bitmap_ok_def)
  note cb = clean_bits [of bs "bitmap st", OF bs(1)]
  show "free_at (free_blocks F tx st) i \<longleftrightarrow> free_at st i \<or> int i \<in> set bs"
    using cb bs [of "int i"] bm by (auto simp: free_blocks_def cfg free_at_def bitmap_ok_def)
  show "bitmap_ok (free_blocks F tx st)" using cb bm by (simp add: free_blocks_def cfg bitmap_ok_def)
qed (simp_all add: free_blocks_def)

lemma delete_file_effect:
  assumes p: "path_ok path" and cp: "c_path (text_of path) = Some p" and s: "sk_in s = path_bytes path @ rest"
    and rep: "file_rep st p file_size bs" and u: "blocks_used st bs" and bm: "bitmap_ok st"
  shows "\<exists>st'. delete_file F junk s st = Some (d_file_send_resp SUCCESS (s\<lparr>sk_in := rest\<rparr>), st') \<and>
      tree st' = (tree st)(p := None) \<and> block_file st' = block_file st \<and>
      (\<forall>i. free_at st' i \<longleftrightarrow> free_at st i \<or> int i \<in> set bs)"
proof -
  let ?p = p
  obtain tx where t: "tree st ?p = Some (Reg tx)" using rep by (auto simp: file_rep_def)
  note e = free_blocks_effect [OF rep t u bm]
  have "delete_file F junk s st = Some (d_file_send_resp SUCCESS (s\<lparr>sk_in := rest\<rparr>), (free_blocks F tx st)\<lparr>tree := (tree st)(?p := None)\<rparr>)"
    using remove_wire.parse_body [OF p s, of junk] t by (simp add: delete_file_def c_string_sent cp p)
  then show ?thesis using e by (auto simp: free_at_def)
qed

lemma write_file_hangs:
  assumes cp: "c_path (text_of path) = Some p" and rep: "file_rep st p file_size bs" and bm: "bitmap_ok st"
    and v: "fs_write_valid (off, sz, path, buffer)" and s: "sk_in s = fs_write_body (off, sz, path, buffer) @ rest"
    and o: "64 * int (length bs) < sint off + sint sz" "int_ok (sint off + sint sz)" and full: "\<And>i. \<not> free_at st i"
  shows "write_file F junk s st = None"
proof -
  let ?p = p
  obtain tx where t: "tree st ?p = Some (Reg tx)" using rep by (auto simp: file_rep_def)
  note cfg = file_rep_config [OF rep t]
  have ok: "blocks_ok st bs" and cap: "file_size \<le> 64 * int (length bs)" using rep by (auto simp: file_rep_def)
  have blk: "fold (\<lambda>b l. list_add (blocks_ops F) l (sint (atoi b))) (map dec_int bs) [] = bs"
    using used_blocks_list [of bs "[]"] ok by (simp add: blocks_ok_def)
  have stuck: "expand_file F (length bs) n bs s' st = None" if "0 < n" for n s'
    by (rule expand_file_stuck [OF bm full that]) simp_all
  show ?thesis
    using fs_write_wire.parse_body [OF v s, of junk] v t o cap
    unfolding write_file_def Let_def
    by (auto simp: c_string_sent cp fs_write_valid_def cfg blk BLOCK_SIZE_def stuck)
qed

lemma read_file_silent:
  assumes cp: "c_path (text_of path) = Some p" and rep: "file_rep st p file_size bs" and p: "path_ok path"
    and s: "sk_in s = fs_read_body (off, sz, path) @ rest" and o: "file_size - 1 \<le> sint off"
  shows "read_file F junk s st = Some (s\<lparr>sk_in := rest\<rparr>, st)"
proof -
  obtain tx where t: "tree st p = Some (Reg tx)" using rep by (auto simp: file_rep_def)
  note cfg = file_rep_config [OF rep t]
  show ?thesis
    using fs_read_wire.parse_body [of "(off, sz, path)" s rest junk] p s t o
    by (simp add: read_file_def Let_def c_string_sent cp cfg)
qed

end

section \<open>A small disk\<close>

text \<open>Eight blocks, one file \<open>/a\<close> of ten bytes in block 0; \<open>small_full\<close> has only that block.\<close>

definition small_disk :: fs_state where
  "small_disk = \<lparr>fs_blocks = 8, bitmap = True # replicate 7 False,
     tree = [[''Archivos''] \<mapsto> Dir, [''Archivos'', ''a''] \<mapsto> Reg (metadata_text 10 [0])],
     block_file = [''0'' \<mapsto> map of_nat [0..<64]]\<rparr>"

definition small_full :: fs_state where
  "small_full = small_disk\<lparr>fs_blocks := 1, bitmap := [True]\<rparr>"

definition path_a :: "byte list" where "path_a = [47, 97]"
definition path_b :: "byte list" where "path_b = [47, 98]"

lemma text_of_paths: "text_of path_a = ''/a''" "text_of path_b = ''/b''"
  by code_simp+

lemma dec_int_0: "dec_int 0 = ''0''"
  by code_simp

lemma path_ok_small [simp]: "path_ok path_a" "path_ok path_b"
  by (simp_all add: path_ok_def path_a_def path_b_def)

lemma c_path_small: "c_path (text_of path_a) = Some [''Archivos'', ''a'']" "c_path (text_of path_b) = Some [''Archivos'', ''b'']"
  by (simp_all add: text_of_paths c_path_def)

lemma small_rep:
  "file_rep small_disk [''Archivos'', ''a''] 10 [0]" "file_rep small_full [''Archivos'', ''a''] 10 [0]"
  by (simp_all add: c_path_small file_rep_def small_full_def small_disk_def blocks_ok_def block_of_def dec_int_0)

lemma small_bitmap: "bitmap_ok small_disk" "bitmap_ok small_full" "blocks_used small_disk [0]"
  by (simp_all add: bitmap_ok_def small_full_def small_disk_def blocks_used_def free_at_def)

lemma small_free: "\<not> free_at small_full i" "{1, 2, 3} \<subseteq> {i. free_at small_disk i}"
  by (auto simp: free_at_def small_full_def small_disk_def nth_Cons')

lemma small_free_count: "3 \<le> free_count small_disk"
  using card_mono [OF finite_free small_free(2)] by (simp add: free_count_def)

section \<open>Properties\<close>

text \<open>
  C35: a read request for a file of the file system that starts before its last byte is answered with
  \<open>SUCCESS\<close>, the number of bytes that lie inside the file, and exactly these bytes of the file's blocks.
\<close>
theorem fs_read_returns_slice:
  assumes "fs_commons F" "c_path (text_of path) = Some p" "file_rep st p file_size bs" "path_ok path"
    and "sk_in s = fs_read_body (off, sz, path) @ rest"
    and "0 \<le> sint off" "sint off < file_size - 1" "0 \<le> sint sz" "int_ok (sint off + sint sz)"
  shows "read_file F junk s st =
     Some (s\<lparr>sk_in := rest, sk_out := sk_out s @ code_bytes SUCCESS @
               u32_bytes (word_of_int (min (sint sz) (file_size - sint off))) @
               mem_read (nat (sint off)) (nat (min (sint sz) (file_size - sint off))) (file_content st bs)\<rparr>, st)"
  by (rule fs_commons.read_file_slice [OF assms refl])

theorem fs_read_returns_slice_witness:
  "read_file seq_fs_lib (\<lambda>_. 0) \<lparr>sk_in = fs_read_body (4, 20, path_a) @ [], sk_out = []\<rparr> small_disk =
     Some (\<lparr>sk_in = [], sk_out = code_bytes SUCCESS @ u32_bytes 6 @ [4, 5, 6, 7, 8, 9]\<rparr>, small_disk)"
proof -
  have "mem_read 4 6 (file_content small_disk [0]) = [4, 5, 6, 7, 8, 9]"
    by (simp add: mem_read_def file_content_def block_of_def small_disk_def dec_int_0 take_map drop_map
        upt_conv_Cons)
  then show ?thesis
    using fs_read_returns_slice [OF seq_fs.fs_commons_axioms c_path_small(1) small_rep(1) path_ok_small(1),
        of "\<lparr>sk_in = fs_read_body (4, 20, path_a) @ [], sk_out = []\<rparr>" 4 20 "[]" "\<lambda>_. 0"]
    by (simp add: int_ok_def)
qed

text \<open>
  C5: writing refines the abstract file.  When enough blocks are free, \<open>write_file\<close> answers \<open>SUCCESS\<close>; the
  bytes of the file are then those of the abstract write (blank blocks appended when needed, then the
  data in place), its recorded size is the larger of the old size and the end of the data, the blocks
  added were free and are now used, and all other paths and blocks are as before.
\<close>
theorem fs_write_refines:
  assumes "fs_commons F" "c_path (text_of path) = Some p" "file_rep st p file_size bs" "blocks_used st bs" "bitmap_ok st"
    and "fs_write_valid (off, sz, path, buffer)" "sk_in s = fs_write_body (off, sz, path, buffer) @ rest"
    and "sint sz = int (length buffer)" "0 \<le> sint off" "int_ok (sint off + sint sz)"
    and "blocks_needed (sint off + sint sz - 64 * int (length bs)) \<le> free_count st"
  shows "\<exists>new st'. write_file F junk s st = Some (fs_write_send_resp SUCCESS (s\<lparr>sk_in := rest\<rparr>), st') \<and>
      file_rep st' p (max file_size (sint off + sint sz)) (bs @ new) \<and>
      file_content st' (bs @ new) = spec_write (nat (sint off)) buffer (file_content st bs) \<and>
      written p bs new st st'"
  by (rule fs_commons.write_file_effect [OF assms])

theorem fs_write_refines_witness:
  "\<exists>new st'. write_file seq_fs_lib (\<lambda>_. 0) \<lparr>sk_in = fs_write_body (60, 8, path_a, replicate 8 1) @ [], sk_out = []\<rparr> small_disk
      = Some (fs_write_send_resp SUCCESS \<lparr>sk_in = [], sk_out = []\<rparr>, st') \<and>
      file_rep st' [''Archivos'', ''a''] 68 ([0] @ new) \<and>
      file_content st' ([0] @ new) = spec_write 60 (replicate 8 1) (file_content small_disk [0])"
  using fs_write_refines [OF seq_fs.fs_commons_axioms c_path_small(1) small_rep(1) small_bitmap(3,1),
      of 60 8 "replicate 8 1" "\<lparr>sk_in = fs_write_body (60, 8, path_a, replicate 8 1) @ [], sk_out = []\<rparr>" "[]" "\<lambda>_. 0"]
    small_free_count
  by (fastforce simp: int_ok_def fs_write_valid_def blocks_needed_def)

text \<open>
  C21: A client reads back what it wrote.  For an existing file under a path as \<open>c_path\<close> allows it, after a write of at least two bytes, at an offset that is
  not negative and with enough free blocks for the file to grow, a read request for the same range is answered SUCCESS with exactly the bytes
  written, across the borders of blocks and also where the file had to grow.
\<close>
theorem fs_write_then_read:
  assumes "fs_commons F" "c_path (text_of path) = Some p" "file_rep st p file_size bs" "blocks_used st bs" "bitmap_ok st"
    and "fs_write_valid (off, sz, path, buffer)" "sk_in s = fs_write_body (off, sz, path, buffer) @ rest"
    and "sint sz = int (length buffer)" "0 \<le> sint off" "int_ok (sint off + sint sz)" "2 \<le> sint sz"
    and "blocks_needed (sint off + sint sz - 64 * int (length bs)) \<le> free_count st"
    and "sk_in r = fs_read_body (off, sz, path) @ rest'"
  shows "\<exists>s' st'. write_file F junk s st = Some (s', st') \<and>
      read_file F junk r st' = Some (r\<lparr>sk_in := rest', sk_out := sk_out r @ code_bytes SUCCESS @ u32_bytes sz @ buffer\<rparr>, st')"
proof -
  obtain new st' where w: "write_file F junk s st = Some (fs_write_send_resp SUCCESS (s\<lparr>sk_in := rest\<rparr>), st')"
      "file_rep st' p (max file_size (sint off + sint sz)) (bs @ new)"
      "file_content st' (bs @ new) = spec_write (nat (sint off)) buffer (file_content st bs)"
    using fs_commons.write_file_effect [OF assms(1-10,12)] by blast
  have n: "min (sint sz) (max file_size (sint off + sint sz) - sint off) = sint sz" by auto
  have "length (file_content st' (bs @ new)) = 64 * length (bs @ new)"
    using w(2) by (simp add: file_rep_def length_file_content)
  moreover have "sint off + sint sz \<le> 64 * int (length (bs @ new))" using w(2) by (simp add: file_rep_def)
  ultimately have "nat (sint off) + length buffer \<le> length (file_content st' (bs @ new))" using assms(8,9) by linarith
  then have "mem_read (nat (sint off)) (nat (sint sz)) (file_content st' (bs @ new)) = buffer"
    unfolding w(3) spec_write_def using assms(8) by (simp add: mem_read_def mem_write_def)
  with fs_commons.read_file_slice [OF assms(1,2) w(2) _ assms(13,9) _ _ assms(10) n [symmetric], of junk] assms(6,11)
  show ?thesis using w(1) by (simp add: fs_write_valid_def)
qed

theorem fs_write_then_read_witness:
  "\<exists>s' st'. write_file seq_fs_lib (\<lambda>_. 0) \<lparr>sk_in = fs_write_body (60, 8, path_a, replicate 8 1) @ [], sk_out = []\<rparr> small_disk
        = Some (s', st') \<and>
      read_file seq_fs_lib (\<lambda>_. 0) \<lparr>sk_in = fs_read_body (60, 8, path_a) @ [], sk_out = []\<rparr> st' =
        Some (\<lparr>sk_in = [], sk_out = code_bytes SUCCESS @ u32_bytes 8 @ replicate 8 1\<rparr>, st')"
  using fs_write_then_read [OF seq_fs.fs_commons_axioms c_path_small(1) small_rep(1) small_bitmap(3,1),
      of 60 8 "replicate 8 1" "\<lparr>sk_in = fs_write_body (60, 8, path_a, replicate 8 1) @ [], sk_out = []\<rparr>" "[]"
        "\<lparr>sk_in = fs_read_body (60, 8, path_a) @ [], sk_out = []\<rparr>" "[]" "\<lambda>_. 0"]
    small_free_count
  by (simp add: int_ok_def fs_write_valid_def blocks_needed_def)

text \<open>
  a write that needs another block when none is free is never finished: the loop answers \<open>ENOSPC\<close> and
  starts over with the same number of bytes to expand, so the server thread is lost.
\<close>
theorem fs_write_no_space_hangs:
  assumes "fs_commons F" "c_path (text_of path) = Some p" "file_rep st p file_size bs" "bitmap_ok st"
    and "fs_write_valid (off, sz, path, buffer)" "sk_in s = fs_write_body (off, sz, path, buffer) @ rest"
    and "64 * int (length bs) < sint off + sint sz" "int_ok (sint off + sint sz)" "\<And>i. \<not> free_at st i"
  shows "write_file F junk s st = None"
  by (rule fs_commons.write_file_hangs [OF assms])

theorem fs_write_no_space_hangs_witness:
  "write_file seq_fs_lib (\<lambda>_. 0) \<lparr>sk_in = fs_write_body (60, 8, path_a, replicate 8 1) @ [], sk_out = []\<rparr> small_full = None"
  using fs_write_no_space_hangs [OF seq_fs.fs_commons_axioms c_path_small(1) small_rep(2) small_bitmap(2) _ _ _ _ small_free(1),
      of 60 8 "replicate 8 1" "\<lparr>sk_in = fs_write_body (60, 8, path_a, replicate 8 1) @ [], sk_out = []\<rparr>" "[]" "\<lambda>_. 0"]
  by (simp add: int_ok_def fs_write_valid_def)

text \<open>
  A read request that starts at the last byte of the file or behind it consumes the request and
  sends nothing, so the client waits for an answer that never comes.
\<close>
theorem fs_read_tail_unanswered:
  assumes "fs_commons F" "c_path (text_of path) = Some p" "file_rep st p file_size bs" "path_ok path"
    and "sk_in s = fs_read_body (off, sz, path) @ rest" "file_size - 1 \<le> sint off"
  shows "read_file F junk s st = Some (s\<lparr>sk_in := rest\<rparr>, st)"
  by (rule fs_commons.read_file_silent [OF assms])

theorem fs_read_tail_unanswered_witness:
  "read_file seq_fs_lib (\<lambda>_. 0) \<lparr>sk_in = fs_read_body (9, 1, path_a) @ [], sk_out = []\<rparr> small_disk =
     Some (\<lparr>sk_in = [], sk_out = []\<rparr>, small_disk)"
  using fs_read_tail_unanswered [OF seq_fs.fs_commons_axioms c_path_small(1) small_rep(1) path_ok_small(1),
      of "\<lparr>sk_in = fs_read_body (9, 1, path_a) @ [], sk_out = []\<rparr>" 9 1 "[]" "\<lambda>_. 0"]
  by simp

text \<open>
  C36: creating a file under an absolute path that has a place in the tree (\<open>c_path\<close>: no \<open>.\<close> or \<open>..\<close>, no slash at the end), has no
  node yet and none of whose parents is a regular file, with a free block, creates the missing directories, answers \<open>SUCCESS\<close>, and leaves a file of one blank block that was free;
  the other regular files are the same as before.
\<close>
theorem fs_create_new_file:
  assumes "fs_commons F" "path_ok path" "text_of path = CHR ''/'' # r" "c_path (text_of path) = Some p" "sk_in s = path_bytes path @ rest"
    and "tokens = strtok_words (CHR ''/'') [] (text_of path)" "tokens \<noteq> []" "tree st [''Archivos''] = Some Dir"
    and "\<And>q txt. q \<in> dirs_between [''Archivos''] tokens \<Longrightarrow> tree st q \<noteq> Some (Reg txt)"
    and "tree st p = None" "bitmap_ok st" "0 < free_count st"
  shows "\<exists>b st'. create_file F junk s st = Some (c_file_send_resp SUCCESS (s\<lparr>sk_in := rest\<rparr>), st') \<and>
      file_rep st' p 64 [b] \<and> file_content st' [b] = replicate 64 (of_char CHR '' '') \<and>
      free_at st (nat b) \<and> (\<forall>i. free_at st' i \<longleftrightarrow> free_at st i \<and> int i \<noteq> b) \<and>
      (\<forall>q txt. q \<noteq> p \<longrightarrow> (tree st' q = Some (Reg txt) \<longleftrightarrow> tree st q = Some (Reg txt)))"
  by (rule fs_commons.create_file_effect [OF assms])

theorem fs_create_new_file_witness:
  "\<exists>b st'. create_file seq_fs_lib (\<lambda>_. 0) \<lparr>sk_in = path_bytes path_b @ [], sk_out = []\<rparr> small_disk =
       Some (c_file_send_resp SUCCESS \<lparr>sk_in = [], sk_out = []\<rparr>, st') \<and>
     file_rep st' [''Archivos'', ''b''] 64 [b]"
proof -
  have "tree small_disk [''Archivos'', ''b''] = None" "tree small_disk [''Archivos''] = Some Dir"
    by (simp_all add: c_path_small small_disk_def)
  moreover have "0 < free_count small_disk" using small_free_count by simp
  ultimately show ?thesis
    using fs_create_new_file [OF seq_fs.fs_commons_axioms path_ok_small(2) _ c_path_small(2), of "''b''"
        "\<lparr>sk_in = path_bytes path_b @ [], sk_out = []\<rparr>" "[]" "[''b'']" small_disk "\<lambda>_. 0"] small_bitmap(1)
    by (fastforce simp: text_of_paths)
qed

text \<open>
  C37: deleting a file answers \<open>SUCCESS\<close>, removes its path and no other, and gives back exactly its blocks.
\<close>
theorem fs_delete_gives_back:
  assumes "fs_commons F" "path_ok path" "c_path (text_of path) = Some p" "sk_in s = path_bytes path @ rest"
    and "file_rep st p file_size bs" "blocks_used st bs" "bitmap_ok st"
  shows "\<exists>st'. delete_file F junk s st = Some (d_file_send_resp SUCCESS (s\<lparr>sk_in := rest\<rparr>), st') \<and>
      tree st' = (tree st)(p := None) \<and> block_file st' = block_file st \<and>
      (\<forall>i. free_at st' i \<longleftrightarrow> free_at st i \<or> int i \<in> set bs)"
  by (rule fs_commons.delete_file_effect [OF assms])

theorem fs_delete_gives_back_witness:
  "\<exists>st'. delete_file seq_fs_lib (\<lambda>_. 0) \<lparr>sk_in = path_bytes path_a @ [], sk_out = []\<rparr> small_disk =
       Some (d_file_send_resp SUCCESS \<lparr>sk_in = [], sk_out = []\<rparr>, st') \<and>
     tree st' [''Archivos'', ''a''] = None \<and> free_at st' 0"
  using fs_delete_gives_back [OF seq_fs.fs_commons_axioms path_ok_small(1) c_path_small(1) _ small_rep(1) small_bitmap(3,1),
      of "\<lparr>sk_in = path_bytes path_a @ [], sk_out = []\<rparr>" "[]" "\<lambda>_. 0"]
  by (fastforce simp: c_path_small)

text \<open>
  Start-up on an empty mount point with a number of blocks that is a positive multiple of eight
  makes the directory of the files and a bitmap that covers all blocks, every one of them free.
\<close>
theorem fs_load_fresh:
  assumes "fs_commons F" "8 \<le> unat n_blocks" "unat n_blocks < 2 ^ 31" "8 dvd unat n_blocks"
    and "files [] = Some Dir" "files [''Archivos''] = None"
  shows "\<exists>st. fs_load F page_size n_blocks None files blocks = Some st \<and> bitmap_ok st \<and> block_file st = blocks \<and>
    tree st = files([''Archivos''] \<mapsto> Dir) \<and> free_count st = unat n_blocks"
  by (rule fs_commons.load_fresh [OF assms])

theorem fs_load_fresh_witness:
  "\<exists>st. fs_load seq_fs_lib 4096 16 None [[] \<mapsto> Dir] Map.empty = Some st \<and> bitmap_ok st \<and> free_count st = 16"
  using fs_load_fresh [OF seq_fs.fs_commons_axioms, of 16 "[[] \<mapsto> Dir]" 4096 Map.empty] by fastforce

text \<open>
  With fewer than eight blocks the bitmap file made at start-up is empty, it cannot be mapped, and
  the process ends.
\<close>
lemma fs_load_too_few_blocks:
  assumes "unat n_blocks < 8"
  shows "fs_load F page_size n_blocks None files blocks = None"
proof -
  have "unat (n_blocks div 8) = 0" using assms by (simp add: unat_div)
  then show ?thesis by (simp add: fs_load_def Let_def)
qed

end
