(* ===== verification/File_System_Run.thy ===== *)
theory File_System_Run
  imports File_System_Props
begin

text \<open>
  The file-system process as a server: \<open>main\<close> of \<open>file-system.c\<close> accepts one client after the other and serves each until its connection ends.
  The invariant \<open>disk_inv\<close> says what the metadata files, the block files and the bitmap have to do with each other.
\<close>

fun fs_main :: "fs_lib \<Rightarrow> storage \<Rightarrow> sock list \<Rightarrow> fs_state \<Rightarrow> (sock list \<times> fs_state) option" where
  "fs_main F junk [] st = Some ([], st)"
| "fs_main F junk (client # clients) st = do {
     (client', st1) \<leftarrow> fs_process_request F junk client st;
     (clients', st2) \<leftarrow> fs_main F junk clients st1;
     Some (client' # clients', st2) }"

section \<open>The invariant of the disk\<close>

text \<open>
  \<open>bl\<close> gives the blocks of each file.  Every file has well-formed metadata and its blocks exist, are marked as used and belong to no
  other file; and every block that is marked as used belongs to a file.
\<close>

definition is_file :: "fs_state \<Rightarrow> string list \<Rightarrow> bool" where
  "is_file st p \<longleftrightarrow> (case tree st p of Some (Reg _) \<Rightarrow> True | _ \<Rightarrow> False)"

definition disk_rep :: "(string list \<Rightarrow> int list) \<Rightarrow> fs_state \<Rightarrow> bool" where
  "disk_rep bl st \<longleftrightarrow> bitmap_ok st \<and> tree st [''Archivos''] = Some Dir \<and>
     (\<forall>p. is_file st p \<longrightarrow> (\<exists>n. file_rep st p n (bl p)) \<and> blocks_used st (bl p)) \<and>
     (\<forall>p q. is_file st p \<longrightarrow> is_file st q \<longrightarrow> p \<noteq> q \<longrightarrow> set (bl p) \<inter> set (bl q) = {}) \<and>
     (\<forall>i < unat (fs_blocks st). \<not> free_at st i \<longrightarrow> (\<exists>p. is_file st p \<and> int i \<in> set (bl p)))"

definition disk_inv :: "fs_state \<Rightarrow> bool" where
  "disk_inv st \<longleftrightarrow> (\<exists>bl. disk_rep bl st)"

lemma is_fileE: "is_file st p \<Longrightarrow> (\<And>txt. tree st p = Some (Reg txt) \<Longrightarrow> P) \<Longrightarrow> P"
  by (auto simp: is_file_def split: option.splits fs_node.splits)

lemma is_file_iff: "is_file st p \<longleftrightarrow> (\<exists>txt. tree st p = Some (Reg txt))"
  by (auto simp: is_file_def split: option.splits fs_node.splits)

lemma disk_repD:
  assumes "disk_rep bl st"
  shows "bitmap_ok st" "tree st [''Archivos''] = Some Dir" "is_file st p \<Longrightarrow> \<exists>n. file_rep st p n (bl p)"
    "is_file st p \<Longrightarrow> blocks_used st (bl p)" "is_file st p \<Longrightarrow> is_file st q \<Longrightarrow> p \<noteq> q \<Longrightarrow> set (bl p) \<inter> set (bl q) = {}"
    "i < unat (fs_blocks st) \<Longrightarrow> \<not> free_at st i \<Longrightarrow> \<exists>p. is_file st p \<and> int i \<in> set (bl p)"
  using assms by (simp_all add: disk_rep_def)

lemma disk_repI:
  assumes "bitmap_ok st" "tree st [''Archivos''] = Some Dir" "\<And>p. is_file st p \<Longrightarrow> \<exists>n. file_rep st p n (bl p)"
    "\<And>p. is_file st p \<Longrightarrow> blocks_used st (bl p)" "\<And>p q. is_file st p \<Longrightarrow> is_file st q \<Longrightarrow> p \<noteq> q \<Longrightarrow> set (bl p) \<inter> set (bl q) = {}"
    "\<And>i. i < unat (fs_blocks st) \<Longrightarrow> \<not> free_at st i \<Longrightarrow> \<exists>p. is_file st p \<and> int i \<in> set (bl p)"
  shows "disk_rep bl st"
  using assms by (simp add: disk_rep_def)

lemma file_blocks_int:
  assumes "disk_rep bl st" "is_file st p" "b \<in> set (bl p)"
  shows "0 \<le> b" "b < 2 ^ 31" "\<not> free_at st (nat b)" "nat b < unat (fs_blocks st)"
  using disk_repD(3,4) [OF assms(1,2)] assms(3) by (auto simp: file_rep_def blocks_ok_def blocks_used_def)

text \<open>A file stays as it is when its node, the directory it is in and its blocks stay.\<close>

lemma file_rep_stays:
  assumes "file_rep st p n bs" "tree st' p = tree st p" "tree st' (butlast p) = tree st (butlast p)"
    and "\<And>b. b \<in> set bs \<Longrightarrow> block_file st' (dec_int b) = block_file st (dec_int b)"
  shows "file_rep st' p n bs"
  using assms by (auto simp: file_rep_def blocks_ok_def block_of_def)

lemma butlast_not_file: "file_rep st q n bs \<Longrightarrow> is_file st p \<Longrightarrow> butlast q \<noteq> p"
  by (auto simp: file_rep_def is_file_def)

section \<open>Directories\<close>

lemma no_growth: "\<exists>t. st = st\<lparr>tree := t\<rparr> \<and> (\<forall>q. t q = tree st q \<or> (tree st q = None \<and> t q = Some Dir))"
  by (rule exI [of _ "tree st"]) simp

lemma make_dirs_grows:
  "\<exists>t. make_dirs dir tokens st = st\<lparr>tree := t\<rparr> \<and> (\<forall>q. t q = tree st q \<or> (tree st q = None \<and> t q = Some Dir))"
proof (induction dir tokens st rule: make_dirs.induct)
  case (1 dir f u tokens st)
  let ?st = "if tree st (dir @ [f]) = None then mkdir (dir @ [f]) st else st"
  obtain t where t: "make_dirs (dir @ [f]) (u # tokens) ?st = ?st\<lparr>tree := t\<rparr>"
    "\<forall>q. t q = tree ?st q \<or> (tree ?st q = None \<and> t q = Some Dir)" using "1.IH" [OF refl] by blast
  have m: "?st\<lparr>tree := t\<rparr> = st\<lparr>tree := t\<rparr>" "\<forall>q. tree ?st q = tree st q \<or> (tree st q = None \<and> tree ?st q = Some Dir)"
    by (auto simp: mkdir_def)
  have "make_dirs dir (f # u # tokens) st = st\<lparr>tree := t\<rparr>" using t(1) m(1) by (simp add: Let_def del: if_split)
  moreover have "\<forall>q. t q = tree st q \<or> (tree st q = None \<and> t q = Some Dir)" using t(2) m(2) by metis
  ultimately show ?case by blast
qed (simp_all add: no_growth)

lemma disk_rep_dirs:
  assumes rep: "disk_rep bl st" and t: "\<forall>q. t q = tree st q \<or> (tree st q = None \<and> t q = Some Dir)"
  shows "disk_rep bl (st\<lparr>tree := t\<rparr>)"
proof -
  have f: "is_file (st\<lparr>tree := t\<rparr>) q = is_file st q" for q using spec [OF t, of q] by (elim disjE) (simp_all add: is_file_def)
  have k: "t q = tree st q" if "tree st q \<noteq> None" for q using spec [OF t, of q] that by (elim disjE) simp_all
  have a: "free_at (st\<lparr>tree := t\<rparr>) i = free_at st i" for i by (simp add: free_at_def)
  note d = disk_repD [OF rep]
  show ?thesis
  proof (rule disk_repI)
    show "\<exists>n. file_rep (st\<lparr>tree := t\<rparr>) p n (bl p)" if p: "is_file (st\<lparr>tree := t\<rparr>) p" for p
    proof -
      obtain n where n: "file_rep st p n (bl p)" using d(3) [of p] p by (auto simp: f)
      have "file_rep (st\<lparr>tree := t\<rparr>) p n (bl p)" by (rule file_rep_stays [OF n]) (use n in \<open>simp_all add: file_rep_def k\<close>)
      then show ?thesis by blast
    qed
    show "bitmap_ok (st\<lparr>tree := t\<rparr>)" using d(1) by (simp add: bitmap_ok_def)
    show "tree (st\<lparr>tree := t\<rparr>) [''Archivos''] = Some Dir" using d(2) by (simp add: k)
    show "blocks_used (st\<lparr>tree := t\<rparr>) (bl p)" if "is_file (st\<lparr>tree := t\<rparr>) p" for p
      using d(4) [of p] that by (simp add: f blocks_used_def a)
    show "set (bl p) \<inter> set (bl q) = {}" if "is_file (st\<lparr>tree := t\<rparr>) p" "is_file (st\<lparr>tree := t\<rparr>) q" "p \<noteq> q" for p q
      using d(5) that f by simp
    show "\<exists>p. is_file (st\<lparr>tree := t\<rparr>) p \<and> int i \<in> set (bl p)" if "i < unat (fs_blocks (st\<lparr>tree := t\<rparr>))" "\<not> free_at (st\<lparr>tree := t\<rparr>) i" for i
      using d(6) [of i] that by (simp add: f a)
  qed
qed


section \<open>Deleting and creating\<close>

context fs_commons
begin

lemma disk_rep_freed:
  assumes rep: "disk_rep bl st" and t: "tree st p = Some (Reg tx)"
  shows "disk_rep bl ((free_blocks F tx st)\<lparr>tree := (tree st)(p := None)\<rparr>)"
    "\<exists>i. free_at (free_blocks F tx st) i"
proof -
  let ?st = "(free_blocks F tx st)\<lparr>tree := (tree st)(p := None)\<rparr>"
  note d = disk_repD [OF rep]
  have p: "is_file st p" using t by (simp add: is_file_def)
  obtain n where n: "file_rep st p n (bl p)" using d(3) [OF p] by blast
  note e = free_blocks_effect [OF n t d(4) [OF p] d(1)]
  have f: "is_file ?st q \<longleftrightarrow> is_file st q \<and> q \<noteq> p" for q by (simp add: is_file_def)
  have a: "free_at ?st i \<longleftrightarrow> free_at st i \<or> int i \<in> set (bl p)" for i using e(5) [of i] by (simp add: free_at_def)
  show "disk_rep bl ?st"
  proof (rule disk_repI)
    show "bitmap_ok ?st" using e(4) by (simp add: bitmap_ok_def)
    show "tree ?st [''Archivos''] = Some Dir" using d(2) t by auto
    show "\<exists>m. file_rep ?st q m (bl q)" if q: "is_file ?st q" for q
    proof -
      obtain m where m: "file_rep st q m (bl q)" using d(3) q f by blast
      have "file_rep ?st q m (bl q)"
        by (rule file_rep_stays [OF m]) (use q f butlast_not_file [OF m p] e(2) in simp_all)
      then show ?thesis by blast
    qed
    show "blocks_used ?st (bl q)" if q: "is_file ?st q" for q
    proof -
      have "int (nat b) \<notin> set (bl p)" if "b \<in> set (bl q)" for b
        using file_blocks_int(1) [OF rep _ that] d(5) [of q p] q p f that by auto
      then show ?thesis using d(4) [of q] q f a e(3) by (simp add: blocks_used_def)
    qed
    show "set (bl q) \<inter> set (bl r) = {}" if "is_file ?st q" "is_file ?st r" "q \<noteq> r" for q r
      using d(5) that f by simp
    show "\<exists>q. is_file ?st q \<and> int i \<in> set (bl q)" if "i < unat (fs_blocks ?st)" "\<not> free_at ?st i" for i
      using d(6) [of i] that a f e(3) by auto
  qed
  obtain b where b: "b \<in> set (bl p)" using n by (cases "bl p") (auto simp: file_rep_def)
  then have "free_at (free_blocks F tx st) (nat b)" using e(5) [of "nat b"] file_blocks_int(1) [OF rep p b] by simp
  then show "\<exists>i. free_at (free_blocks F tx st) i" by blast
qed

end

lemma disk_rep_new_file:
  assumes rep: "disk_rep bl st" and p: "tree st p = None" "tree st (butlast p) = Some Dir" and i: "free_at st i"
  shows "disk_rep (bl(p := [int i]))
    (new_block (int i) (st\<lparr>bitmap := (bitmap st)[i := True], tree := (tree st)(p \<mapsto> Reg (metadata_text BLOCK_SIZE [int i]))\<rparr>))"
    (is "disk_rep ?bl ?st")
proof -
  note d = disk_repD [OF rep]
  have i': "i < unat (fs_blocks st)" "i < length (bitmap st)" "int i < 2 ^ 31" using i d(1) by (auto simp: free_at_def bitmap_ok_def)
  have f: "is_file ?st q \<longleftrightarrow> is_file st q \<or> q = p" and np: "\<not> is_file st p" for q by (simp_all add: is_file_def new_block_def p)
  have a: "free_at ?st j \<longleftrightarrow> free_at st j \<and> j \<noteq> i" for j using i' by (auto simp: free_at_def new_block_def nth_list_update)
  have other: "int i \<notin> set (bl q)" if "is_file st q" for q using file_blocks_int(3) [OF rep that, of "int i"] i by auto
  have bf: "block_file ?st (dec_int b) = (if b = int i then Some (replicate 64 (of_char CHR '' '')) else block_file st (dec_int b))"
    if "0 \<le> b" "b < 2 ^ 31" for b
    using dec_int_inject [OF that _ i'(3)] by (auto simp: new_block_def BLOCK_SIZE_def)
  show ?thesis
  proof (rule disk_repI)
    show "bitmap_ok ?st" using d(1) by (simp add: bitmap_ok_def new_block_def)
    show "tree ?st [''Archivos''] = Some Dir" using d(2) p by (auto simp: new_block_def)
    show "\<exists>m. file_rep ?st q m (?bl q)" if q: "is_file ?st q" for q
    proof (cases "q = p")
      case True
      have "butlast p \<noteq> p" using p by auto
      then have "file_rep ?st p BLOCK_SIZE [int i]"
        using bf [of "int i"] i'(3) p by (simp add: file_rep_def blocks_ok_def block_of_def BLOCK_SIZE_def) (simp add: new_block_def BLOCK_SIZE_def)
      with True show ?thesis by auto
    next
      case False
      then have q': "is_file st q" using q f by simp
      obtain m where m: "file_rep st q m (bl q)" using d(3) [OF q'] by blast
      have "file_rep ?st q m (bl q)"
      proof (rule file_rep_stays [OF m])
        show "tree ?st q = tree st q" using False by (simp add: new_block_def)
        show "tree ?st (butlast q) = tree st (butlast q)" using m p by (auto simp: file_rep_def new_block_def)
        show "block_file ?st (dec_int b) = block_file st (dec_int b)" if "b \<in> set (bl q)" for b
          using bf [of b] file_blocks_int(1,2) [OF rep q' that] other [OF q'] that by auto
      qed
      with False show ?thesis by auto
    qed
    show "blocks_used ?st (?bl q)" if q: "is_file ?st q" for q
      using d(4) [of q] q f a i' by (auto simp: blocks_used_def new_block_def)
    show "set (?bl q) \<inter> set (?bl r) = {}" if "is_file ?st q" "is_file ?st r" "q \<noteq> r" for q r
      using d(5) [of q r] other that f by auto
    show "\<exists>q. is_file ?st q \<and> int j \<in> set (?bl q)" if "j < unat (fs_blocks ?st)" "\<not> free_at ?st j" for j
    proof (cases "j = i")
      case True
      then show ?thesis using f by auto
    next
      case False
      have "\<not> free_at st j" using a [of j] that(2) False by simp
      moreover have "j < unat (fs_blocks st)" using that(1) by (simp add: new_block_def)
      ultimately obtain q where "is_file st q" "int j \<in> set (bl q)" using d(6) by blast
      then show ?thesis using f np by (intro exI [of _ q]) auto
    qed
  qed
qed

context fs_commons
begin

lemma disk_rep_create:
  assumes rep: "disk_rep bl st" and nd: "tree st p \<noteq> Some Dir"
    and st2: "st2 = (case tree st p of Some (Reg txt) \<Rightarrow> free_blocks F txt st | _ \<Rightarrow> st)"
    and g: "get_available_block F st2 = (b, st3)"
  shows "b < 0 \<Longrightarrow> disk_rep bl st3"
    "0 \<le> b \<Longrightarrow> write_text p (metadata_text BLOCK_SIZE [b]) st3 = Some st4 \<Longrightarrow> disk_inv (new_block b st4)"
proof -
  let ?h = "st2\<lparr>tree := (tree st2)(p := None)\<rparr>"
  have t2: "tree st2 = tree st" by (simp add: st2 free_blocks_def split: option.splits fs_node.splits)
  have hb: "disk_rep bl ?h \<and> (is_file st p \<longrightarrow> (\<exists>i. free_at st2 i)) \<and> bitmap_ok st2"
  proof (cases "tree st p")
    case None
    then have "st2 = st" "(tree st)(p := None) = tree st" by (simp_all add: st2 fun_upd_idem)
    with rep None show ?thesis using disk_repD(1) [OF rep] by (simp add: is_file_def)
  next
    case (Some node)
    then obtain tx where tx: "tree st p = Some (Reg tx)" "st2 = free_blocks F tx st" using nd st2 by (cases node) auto
    note fr = disk_rep_freed [OF rep tx(1)]
    show ?thesis using fr disk_repD(1) [OF fr(1)] by (simp add: tx(2) bitmap_ok_def) (simp add: free_blocks_def)
  qed
  then have h: "disk_rep bl ?h" "is_file st p \<Longrightarrow> \<exists>i. free_at st2 i" and bm: "bitmap_ok st2" by simp_all
  from get_available_block_cases [OF bm] consider (some) i where "free_at st2 i" "b = int i" "st3 = st2\<lparr>bitmap := (bitmap st2)[i := True]\<rparr>"
    | (none) "\<forall>i. \<not> free_at st2 i" "b = - 1" "st3 = st2"
    using g by auto
  note c = this
  show "disk_rep bl st3" if "b < 0"
  proof (cases rule: c)
    case none
    then have "tree st p = None" using h(2) nd by (cases "tree st p"; cases "the (tree st p)") (auto simp: is_file_def)
    then show ?thesis using rep by (simp add: none(3) st2)
  qed (use \<open>b < 0\<close> in simp)
  show "disk_inv (new_block b st4)" if b: "0 \<le> b" and w: "write_text p (metadata_text BLOCK_SIZE [b]) st3 = Some st4"
  proof (cases rule: c)
    case (some i)
    have par: "tree st (butlast p) = Some Dir" and st4: "st4 = st3\<lparr>tree := (tree st3)(p \<mapsto> Reg (metadata_text BLOCK_SIZE [b]))\<rparr>"
      using w by (auto simp: write_text_def some(3) t2 split: if_splits)
    have "butlast p \<noteq> p" using par nd by auto
    then have "disk_rep (bl(p := [int i]))
        (new_block (int i) (?h\<lparr>bitmap := (bitmap ?h)[i := True], tree := (tree ?h)(p \<mapsto> Reg (metadata_text BLOCK_SIZE [int i]))\<rparr>))"
      using par some(1) by (intro disk_rep_new_file [OF h(1)]) (simp_all add: t2 free_at_def)
    then show ?thesis by (auto simp: disk_inv_def st4 some(2,3) new_block_def)
  qed (use b in simp)
qed

lemma create_keeps:
  assumes run: "create_file F junk s st = Some (s', st')" and inv: "disk_inv st"
  shows "disk_inv st'"
proof -
  obtain bl where rep: "disk_rep bl st" using inv by (auto simp: disk_inv_def)
  obtain c_req s1 where req: "c_file_recv_req junk s = (c_req, s1)" by fastforce
  obtain bytes path p where path: "cf_path c_req = Some bytes" "c_string bytes = Some path" "c_path path = Some p"
    using run by (auto simp: create_file_def req split: bind_splits)
  let ?p = p
  define st1 where "st1 = make_dirs [''Archivos''] (strtok_words (CHR ''/'') [] path) st"
  define st2 where "st2 = (case tree st1 ?p of Some (Reg txt) \<Rightarrow> free_blocks F txt st1 | _ \<Rightarrow> st1)"
  have t2: "tree st2 = tree st1" by (simp add: st2_def free_blocks_def split: option.splits fs_node.splits)
  obtain t where t: "st1 = st\<lparr>tree := t\<rparr>" "\<forall>q. t q = tree st q \<or> (tree st q = None \<and> t q = Some Dir)"
    using make_dirs_grows unfolding st1_def by blast
  have rep1: "disk_rep bl st1" unfolding t(1) by (rule disk_rep_dirs [OF rep t(2)])
  obtain b st3 where g: "get_available_block F st2 = (b, st3)" by fastforce
  note r = run [unfolded create_file_def req prod.case path bind.simps Let_def, folded st1_def, folded st2_def, unfolded g prod.case]
  show ?thesis
  proof (cases "tree st1 ?p = Some Dir")
    case True
    then have "st2 = st1" "st' = st2" using r by (simp_all add: st2_def t2)
    with rep1 show ?thesis by (auto simp: disk_inv_def)
  next
    case False
    note dc = disk_rep_create [OF rep1 False st2_def g]
    show ?thesis
    proof (cases "b < 0")
      case True
      then show ?thesis using dc(1) r False by (auto simp: t2 disk_inv_def)
    next
      case nonneg: False
      then show ?thesis using dc(2) r False by (auto simp: t2 split: bind_splits)
    qed
  qed
qed

lemma delete_keeps:
  assumes run: "delete_file F junk s st = Some (s', st')" and inv: "disk_inv st"
  shows "disk_inv st'"
proof -
  obtain bl where rep: "disk_rep bl st" using inv by (auto simp: disk_inv_def)
  show ?thesis
    using run inv disk_rep_freed(1) [OF rep]
    by (auto simp: delete_file_def disk_inv_def split: bind_splits prod.splits option.splits fs_node.splits)
qed

lemma reads_keep:
  "validate_file F junk s st = Some (s', st') \<Longrightarrow> st' = st" "read_file F junk s st = Some (s', st') \<Longrightarrow> st' = st"
  by (auto simp: validate_file_def read_file_def Let_def split: bind_splits prod.splits option.splits fs_node.splits if_splits)

end

section \<open>Writing\<close>

text \<open>
  A write request that can be carried out: the offset is not negative, the announced size is that of the data, and there are enough free
  blocks.
\<close>

definition escritura_ok :: "fs_lib \<Rightarrow> storage \<Rightarrow> sock \<Rightarrow> fs_state \<Rightarrow> bool" where
  "escritura_ok F junk s st = (case fs_write_recv_req junk s of (w_req, _) \<Rightarrow>
     (case Option.bind (Option.bind (fw_path w_req) c_string) c_path of None \<Rightarrow> True | Some file_path \<Rightarrow>
       (case tree st file_path of
          Some (Reg txt) \<Rightarrow> 0 \<le> sint (fw_offset w_req) \<and> sint (fw_size w_req) = int (length (fw_buffer w_req)) \<and>
            blocks_needed (sint (fw_offset w_req) + sint (fw_size w_req) - 64 * int (length (config_get_array_value F txt ''BLOQUES''))) \<le> free_count st
        | _ \<Rightarrow> True)))"

lemma disk_rep_written:
  assumes rep: "disk_rep bl st" and p: "is_file st p" and w: "written p (bl p) new st st'"
    and p': "is_file st' p" "file_rep st' p n (bl p @ new)"
  shows "disk_rep (bl(p := bl p @ new)) st'" (is "disk_rep ?bl st'")
proof -
  note d = disk_repD [OF rep]
  have w': "tree st' q = tree st q" if "q \<noteq> p" for q using w that by (simp add: written_def)
  have fr: "free_at st' i \<longleftrightarrow> free_at st i \<and> int i \<notin> set new" for i using w by (simp add: written_def)
  have sz: "fs_blocks st' = fs_blocks st" "length (bitmap st') = length (bitmap st)" using w by (simp_all add: written_def)
  have nw: "0 \<le> b" "free_at st (nat b)" "b < 2 ^ 31" if "b \<in> set new" for b
    using w that d(1) by (auto simp: written_def free_at_def bitmap_ok_def)
  have f: "is_file st' q \<longleftrightarrow> is_file st q" for q using w' [of q] p p'(1) by (cases "q = p") (simp_all add: is_file_def)
  have disj: "b \<notin> set (bl p @ new)" if "is_file st q" "q \<noteq> p" "b \<in> set (bl q)" for q b
    using d(5) [OF that(1) p that(2)] file_blocks_int(3) [OF rep that(1,3)] nw(2) [of b] that(3) by auto
  have all: "0 \<le> b" "b < 2 ^ 31" if "b \<in> set (bl p @ new)" for b
    using that nw file_blocks_int(1,2) [OF rep p] by auto
  show ?thesis
  proof (rule disk_repI)
    show "bitmap_ok st'" using d(1) sz by (simp add: bitmap_ok_def)
    show "tree st' [''Archivos''] = Some Dir" using d(2) w' p by (cases "p = [''Archivos'']") (auto simp: is_file_def)
    show "\<exists>m. file_rep st' q m (?bl q)" if q: "is_file st' q" for q
    proof (cases "q = p")
      case True
      then show ?thesis using p'(2) by auto
    next
      case False
      have q': "is_file st q" using q f by simp
      obtain m where m: "file_rep st q m (bl q)" using d(3) [OF q'] by blast
      have "file_rep st' q m (bl q)"
      proof (rule file_rep_stays [OF m])
        show "tree st' q = tree st q" using w' False by simp
        show "tree st' (butlast q) = tree st (butlast q)" using w' butlast_not_file [OF m p] by simp
        show "block_file st' (dec_int b) = block_file st (dec_int b)" if b: "b \<in> set (bl q)" for b
        proof -
          have "dec_int b \<notin> dec_int ` set (bl p @ new)"
            using dec_int_inject [OF file_blocks_int(1,2) [OF rep q' b] all] disj [OF q' False b] by auto
          then show ?thesis using w unfolding written_def by blast
        qed
      qed
      with False show ?thesis by auto
    qed
    show "blocks_used st' (?bl q)" if q: "is_file st' q" for q
    proof -
      have q': "is_file st q" using q f by simp
      have "nat b < unat (fs_blocks st') \<and> \<not> free_at st' (nat b)" if b: "b \<in> set (?bl q)" for b
      proof (cases "q = p \<and> b \<in> set new")
        case True
        then show ?thesis using nw [of b] fr [of "nat b"] sz by (auto simp: free_at_def)
      next
        case False
        then have "b \<in> set (bl q)" using b by (auto split: if_splits)
        from file_blocks_int(3,4) [OF rep q' this] show ?thesis using fr sz by simp
      qed
      then show ?thesis by (simp add: blocks_used_def)
    qed
    show "set (?bl q) \<inter> set (?bl r) = {}" if "is_file st' q" "is_file st' r" "q \<noteq> r" for q r
      using d(5) [of q r] disj [of q] disj [of r] that f by (auto simp del: set_append)
    show "\<exists>q. is_file st' q \<and> int i \<in> set (?bl q)" if i: "i < unat (fs_blocks st')" "\<not> free_at st' i" for i
    proof (cases "int i \<in> set new")
      case True
      then show ?thesis using p'(1) by (intro exI [of _ p]) simp
    next
      case False
      then have "\<not> free_at st i" using i(2) fr by simp
      then obtain q where "is_file st q" "int i \<in> set (bl q)" using d(6) [of i] i(1) sz(1) by auto
      then show ?thesis using f by (intro exI [of _ q]) auto
    qed
  qed
qed

context fs_commons
begin

lemma write_keeps:
  assumes run: "write_file F junk s st = Some (s', st')" and ok: "escritura_ok F junk s st" and inv: "disk_inv st"
  shows "disk_inv st'"
proof -
  obtain bl where rep: "disk_rep bl st" using inv by (auto simp: disk_inv_def)
  obtain w_req s1 where req: "fs_write_recv_req junk s = (w_req, s1)" by fastforce
  obtain bytes path p where path: "fw_path w_req = Some bytes" "c_string bytes = Some path" "c_path path = Some p"
    using run by (auto simp: write_file_def req split: bind_splits)
  let ?p = p
  show ?thesis
  proof (cases "is_file st ?p")
    case False
    then have "st' = st" using run by (auto simp: write_file_def req path is_file_def split: option.splits fs_node.splits)
    with inv show ?thesis by simp
  next
    case True
    then obtain tx where tx: "tree st ?p = Some (Reg tx)" by (auto simp: is_file_iff)
    note d = disk_repD [OF rep]
    obtain n where n: "file_rep st ?p n (bl ?p)" using d(3) [OF True] by blast
    note cfg = file_rep_config [OF n tx]
    have "0 \<le> sint (fw_offset w_req) \<and> sint (fw_size w_req) = int (length (fw_buffer w_req)) \<and>
      blocks_needed (sint (fw_offset w_req) + sint (fw_size w_req) - 64 * int (length (bl ?p))) \<le> free_count st"
      using ok by (auto simp: escritura_ok_def req path tx cfg)
    note e = this [THEN conjunct1] this [THEN conjunct2, THEN conjunct1] this [THEN conjunct2, THEN conjunct2]
    have io: "int_ok (sint (fw_offset w_req) + sint (fw_size w_req))"
      using run by (auto simp: write_file_def req path tx Let_def split: if_splits)
    obtain new st2 where w: "write_file F junk s st = Some (fs_write_send_resp SUCCESS s1, st2)"
      "file_rep st2 ?p (max n (sint (fw_offset w_req) + sint (fw_size w_req))) (bl ?p @ new)" "written ?p (bl ?p) new st st2"
      using write_parsed [OF req path(1,2) refl refl refl path(3) n d(4) [OF True] d(1) e(2,1) io e(3)] by blast
    have "is_file st2 ?p" using w(2) by (simp add: file_rep_def is_file_def)
    from disk_rep_written [OF rep True w(3) this w(2)] show ?thesis using run w(1) by (auto simp: disk_inv_def)
  qed
qed

end

section \<open>Requests and clients\<close>

function pedidos_fs_ok :: "fs_lib \<Rightarrow> storage \<Rightarrow> sock \<Rightarrow> fs_state \<Rightarrow> bool" where
  "pedidos_fs_ok F junk s st =
     (case recv_operation_code junk s of
        (ope_code, s1) \<Rightarrow>
          if ope_code = DISCONNECTED_CLIENT then True
          else if ope_code = FS_WRITE_FILE_OC \<and> \<not> escritura_ok F junk s1 st then False
          else (case fs_serve F junk ope_code s1 st of
                  None \<Rightarrow> True
                | Some (s2, st2) \<Rightarrow> pedidos_fs_ok F junk s2 st2))"
  by pat_completeness auto
termination
  by (relation "measure (\<lambda>(F, junk, s, st). length (sk_in s))")
    (auto dest!: recv_operation_code_progress [OF sym] fs_serve_advances advances_length)

declare pedidos_fs_ok.simps [simp del]

fun clientes_fs_ok :: "fs_lib \<Rightarrow> storage \<Rightarrow> sock list \<Rightarrow> fs_state \<Rightarrow> bool" where
  "clientes_fs_ok F junk [] st = True"
| "clientes_fs_ok F junk (client # clients) st = (pedidos_fs_ok F junk client st \<and>
     (case fs_process_request F junk client st of None \<Rightarrow> True | Some (_, st1) \<Rightarrow> clientes_fs_ok F junk clients st1))"

context fs_commons
begin

lemma serve_keeps:
  assumes "fs_serve F junk oc s st = Some (s', st')" "oc = FS_WRITE_FILE_OC \<longrightarrow> escritura_ok F junk s st" "disk_inv st"
  shows "disk_inv st'"
  using assms by (auto simp: fs_serve_def split: if_splits dest: create_keeps delete_keeps write_keeps reads_keep)

lemma process_keeps:
  "fs_process_request F junk s st = Some (s', st') \<Longrightarrow> pedidos_fs_ok F junk s st \<Longrightarrow> disk_inv st \<Longrightarrow> disk_inv st'"
proof (induction "length (sk_in s)" arbitrary: s st rule: less_induct)
  case less
  obtain oc s1 where r: "recv_operation_code junk s = (oc, s1)" by fastforce
  show ?case
  proof (cases "oc = DISCONNECTED_CLIENT")
    case True
    then show ?thesis using less.prems by (subst (asm) fs_process_request.simps) (simp add: r)
  next
    case False
    from less.prems(1) obtain s2 st2 where v: "fs_serve F junk oc s1 st = Some (s2, st2)"
      and rest: "fs_process_request F junk s2 st2 = Some (s', st')"
      by (subst (asm) fs_process_request.simps) (auto simp: r False split: option.splits)
    have ok: "oc = FS_WRITE_FILE_OC \<longrightarrow> escritura_ok F junk s1 st" "pedidos_fs_ok F junk s2 st2"
      using less.prems(2) by (subst (asm) pedidos_fs_ok.simps, simp add: r False v split: if_splits)+
    have "length (sk_in s2) < length (sk_in s)"
      using recv_operation_code_progress [OF r False] fs_serve_advances [OF v] by (auto dest!: advances_length)
    then show ?thesis
      using less.hyps rest ok(2) serve_keeps [OF v ok(1) less.prems(3)] by blast
  qed
qed

lemma main_keeps:
  "fs_main F junk cs st = Some (cs', st') \<Longrightarrow> clientes_fs_ok F junk cs st \<Longrightarrow> disk_inv st \<Longrightarrow> disk_inv st'"
proof (induction cs arbitrary: cs' st)
  case (Cons c cs)
  then obtain c' st1 ds where c: "fs_process_request F junk c st = Some (c', st1)" "fs_main F junk cs st1 = Some (ds, st')"
    by (auto split: bind_splits prod.splits)
  then show ?case using Cons.IH [OF c(2)] process_keeps [OF c(1)] Cons.prems(2,3) by simp
qed simp

lemma fresh_disk:
  assumes n: "8 \<le> unat n_blocks" "unat n_blocks < 2 ^ 31" "8 dvd unat n_blocks"
    and f: "files [] = Some Dir" "files [''Archivos''] = None" "\<forall>q txt. files q \<noteq> Some (Reg txt)"
  shows "\<exists>st. fs_load F page_size n_blocks None files blocks = Some st \<and> disk_inv st"
proof -
  obtain st where st: "fs_load F page_size n_blocks None files blocks = Some st" "bitmap_ok st"
    "tree st = files([''Archivos''] \<mapsto> Dir)" "free_count st = unat n_blocks" using load_fresh [OF n f(1,2)] by blast
  have nb: "fs_blocks st = n_blocks" using st(1) by (auto simp: fs_load_def mkdir_def Let_def split: if_splits)
  have sub: "{i. free_at st i} \<subseteq> {..<unat n_blocks}" by (auto simp: free_at_def nb)
  have "{i. free_at st i} = {..<unat n_blocks}"
    using card_subset_eq [OF _ sub] st(4) by (simp add: free_count_def)
  then have all: "free_at st i" if "i < unat n_blocks" for i using that by blast
  have "\<not> is_file st p" for p using f(3) by (simp add: is_file_iff st(3))
  then have "disk_rep (\<lambda>_. []) st" using st(2,3) all nb by (intro disk_repI) auto
  then show ?thesis using st(1) by (auto simp: disk_inv_def)
qed

end

section \<open>Property of the server\<close>



end
