(* ===== verification/Serializar.thy ===== *)
theory Serializar
  imports Sockets
begin

text \<open>
  The process control block and its serialisation (\<open>shared-library/generales.h\<close>, \<open>serializar.c\<close>).  The
  structures are those of \<open>generales.h\<close>; an \<open>int\<close> field is a 32-bit word.  A dictionary of so-commons is
  the sequence of its entries in the order of \<open>dictionary_iterator\<close>; \<open>dictionary_put\<close> and
  \<open>dictionary_get\<close> are parameters with the laws of the locale \<open>dictionary_laws\<close>.  A key is the bytes of
  its C string without the final \<open>NUL\<close>.

  \<open>deserializer_pcb\<close> walks over its buffer; what is left of the buffer behind the current offset is
  passed along, and reading past its end is \<open>None\<close>.
\<close>

section \<open>Structures\<close>

record t_indice_codigo =
  ic_offset :: u32
  ic_size :: u32

record posicion_memoria =
  pm_pagina :: u32
  pm_offset :: u32
  pm_size :: u32

record t_args_vars =
  av_id :: byte
  av_pagina :: u32
  av_offset :: u32
  av_size :: u32

record t_element_stack =
  es_retPos :: u32
  es_retVar :: posicion_memoria
  es_args :: "t_args_vars list"
  es_vars :: "t_args_vars list"

type_synonym c_str = "byte list"
type_synonym t_dictionary = "(c_str \<times> u32) list"

record t_PCB =
  pcb_pid :: u16
  pcb_PC :: u16
  cantidad_paginas :: u16
  exit_code :: u16
  pcb_SP :: u16
  cantidad_instrucciones :: u16
  indice_stack :: "t_element_stack list"
  indice_codigo :: "t_indice_codigo list"
  indice_etiquetas :: t_dictionary

record t_stream =
  st_length :: nat
  st_data :: "byte list"

record dict_ops =
  dictionary_put :: "t_dictionary \<Rightarrow> c_str \<Rightarrow> u32 \<Rightarrow> t_dictionary"
  dictionary_get :: "t_dictionary \<Rightarrow> c_str \<Rightarrow> u32 option"

locale dictionary_laws =
  fixes D :: dict_ops
  assumes put_lookup: "map_of (dictionary_put D d k v) = (map_of d)(k \<mapsto> v)"
    and put_distinct: "distinct (map fst d) \<Longrightarrow> distinct (map fst (dictionary_put D d k v))"
    and get_lookup: "dictionary_get D d k = map_of d k"

definition seq_dict_ops :: dict_ops where
  "seq_dict_ops = \<lparr>dictionary_put = (\<lambda>d k v. filter (\<lambda>(k', _). k' \<noteq> k) d @ [(k, v)]), dictionary_get = map_of\<rparr>"

interpretation seq_dict: dictionary_laws seq_dict_ops
proof
  fix d k v
  show "map_of (dictionary_put seq_dict_ops d k v) = (map_of d)(k \<mapsto> v)"
  proof
    fix a
    have "map_of (filter (\<lambda>(k', _). k' \<noteq> k) d) a = (if a = k then None else map_of d a)"
      by (induction d) auto
    then show "map_of (dictionary_put seq_dict_ops d k v) a = ((map_of d)(k \<mapsto> v)) a"
      by (simp add: seq_dict_ops_def map_add_def split: option.splits)
  qed
  show "distinct (map fst (dictionary_put seq_dict_ops d k v))" if "distinct (map fst d)"
    using that by (induction d) (auto simp: seq_dict_ops_def)
qed (simp add: seq_dict_ops_def)

section \<open>Serialisation\<close>

definition av_bytes :: "t_args_vars \<Rightarrow> byte list" where
  "av_bytes e = [av_id e] @ u32_bytes (av_pagina e) @ u32_bytes (av_offset e) @ u32_bytes (av_size e)"

text \<open>
  The sizes and offsets of the code are of type \<open>int\<close>: a part that has \<open>2 ^ 31\<close> bytes or more cannot be made (\<open>None\<close>).  Every size that is computed on the
  way to a part is at most its final size.
\<close>

definition int_stream :: "byte list \<Rightarrow> byte list option" where
  "int_stream bs = (if length bs < 2 ^ 31 then Some bs else None)"

definition argsVars_serializer :: "t_args_vars list \<Rightarrow> byte list option" where
  "argsVars_serializer argsVars = int_stream (u32_bytes (word_of_nat (length argsVars)) @ concat (map av_bytes argsVars))"

definition elementStack_serializer :: "t_element_stack \<Rightarrow> byte list option" where
  "elementStack_serializer e = do {
     args \<leftarrow> argsVars_serializer (es_args e);
     vars \<leftarrow> argsVars_serializer (es_vars e);
     int_stream (u32_bytes (es_retPos e) @ u32_bytes (pm_pagina (es_retVar e)) @ u32_bytes (pm_offset (es_retVar e))
       @ u32_bytes (pm_size (es_retVar e)) @ args @ vars) }"

fun elements_serializer :: "t_element_stack list \<Rightarrow> byte list option" where
  "elements_serializer [] = Some []"
| "elements_serializer (e # es) = do {
     data \<leftarrow> elementStack_serializer e;
     rest \<leftarrow> elements_serializer es;
     int_stream (data @ rest) }"

definition indiceStack_serializer :: "t_element_stack list \<Rightarrow> byte list option" where
  "indiceStack_serializer indiceStack = do {
     elements \<leftarrow> elements_serializer indiceStack;
     int_stream (u32_bytes (word_of_nat (length indiceStack)) @ elements) }"

definition ic_bytes :: "t_indice_codigo \<Rightarrow> byte list" where
  "ic_bytes i = u32_bytes (ic_offset i) @ u32_bytes (ic_size i)"

text \<open>The array has to hold the number of instructions that the block claims.\<close>

definition indiceCodigo_serializer :: "t_PCB \<Rightarrow> byte list option" where
  "indiceCodigo_serializer pcb =
     (let cantElementos = cantidad_instrucciones pcb in
      if length (indice_codigo pcb) < unat cantElementos then None
      else Some (u16_bytes cantElementos @ concat (map ic_bytes (take (unat cantElementos) (indice_codigo pcb)))))"

definition label_bytes :: "c_str \<times> u32 \<Rightarrow> byte list" where
  "label_bytes kv = (case kv of (key, val) \<Rightarrow>
     (let key_length = word_of_nat (length key + 1) :: u16
      in u16_bytes key_length @ take (unat key_length) (key @ [0]) @ u32_bytes val))"

definition indiceEtiquetas_serializer :: "t_dictionary \<Rightarrow> byte list option" where
  "indiceEtiquetas_serializer d = int_stream (u16_bytes (word_of_nat (length d)) @ concat (map label_bytes d))"

text \<open>
  The stream is allocated with \<open>sizeof (int) + sizeof (t_PCB)\<close> bytes for the five fields, which take
  ten; the bytes behind the last part are indeterminate.  \<open>pcb_size\<close> is \<open>sizeof (t_PCB)\<close>.
\<close>

definition pcb_serializer :: "nat \<Rightarrow> storage \<Rightarrow> t_PCB \<Rightarrow> t_stream option" where
  "pcb_serializer pcb_size junk pcb = do {
     codigo \<leftarrow> indiceCodigo_serializer pcb;
     stack \<leftarrow> indiceStack_serializer (indice_stack pcb);
     etiquetas \<leftarrow> indiceEtiquetas_serializer (indice_etiquetas pcb);
     (let tamElementos = 4 + pcb_size + length codigo + length stack + length etiquetas;
          written = u16_bytes (pcb_pid pcb) @ u16_bytes (pcb_PC pcb) @ u16_bytes (cantidad_paginas pcb)
            @ u16_bytes (pcb_SP pcb) @ u16_bytes (exit_code pcb) @ codigo @ stack @ etiquetas
      in if 2 ^ 31 \<le> tamElementos \<or> tamElementos < length written then None
         else Some \<lparr>st_length = tamElementos, st_data = written @ map junk [length written..<tamElementos]\<rparr>) }"

section \<open>Deserialisation\<close>

definition get_bytes :: "nat \<Rightarrow> byte list \<Rightarrow> (byte list \<times> byte list) option" where
  "get_bytes n buffer = (if length buffer < n then None else Some (take n buffer, drop n buffer))"

definition get_u16 :: "byte list \<Rightarrow> (u16 \<times> byte list) option" where
  "get_u16 buffer = map_option (\<lambda>(bs, r). (bytes_u16 bs, r)) (get_bytes 2 buffer)"

definition get_u32 :: "byte list \<Rightarrow> (u32 \<times> byte list) option" where
  "get_u32 buffer = map_option (\<lambda>(bs, r). (bytes_u32 bs, r)) (get_bytes 4 buffer)"

definition get_ic :: "byte list \<Rightarrow> (t_indice_codigo \<times> byte list) option" where
  "get_ic b = do {
     (off, b) \<leftarrow> get_u32 b; (sz, b) \<leftarrow> get_u32 b;
     Some (\<lparr>ic_offset = off, ic_size = sz\<rparr>, b) }"

text \<open>The packed \<open>t_args_vars\<close>: copied whole for the arguments, field by field for the variables.\<close>

definition get_av :: "byte list \<Rightarrow> (t_args_vars \<times> byte list) option" where
  "get_av b = do {
     (i, b) \<leftarrow> get_bytes 1 b; (p, b) \<leftarrow> get_u32 b; (off, b) \<leftarrow> get_u32 b; (sz, b) \<leftarrow> get_u32 b;
     Some (\<lparr>av_id = hd i, av_pagina = p, av_offset = off, av_size = sz\<rparr>, b) }"

text \<open>A loop that reads \<open>n\<close> items, and one whose bound is an \<open>int\<close> read from the buffer.\<close>

fun get_many :: "(byte list \<Rightarrow> ('a \<times> byte list) option) \<Rightarrow> nat \<Rightarrow> byte list \<Rightarrow> ('a list \<times> byte list) option" where
  "get_many get 0 b = Some ([], b)"
| "get_many get (Suc n) b = (case get b of
     None \<Rightarrow> None
   | Some (x, b) \<Rightarrow> map_option (\<lambda>(xs, b). (x # xs, b)) (get_many get n b))"

definition get_list :: "(byte list \<Rightarrow> ('a \<times> byte list) option) \<Rightarrow> byte list \<Rightarrow> ('a list \<times> byte list) option" where
  "get_list get b = do { (n, b) \<leftarrow> get_u32 b; get_many get (nat (sint n)) b }"

definition get_element :: "byte list \<Rightarrow> (t_element_stack \<times> byte list) option" where
  "get_element b = do {
     (retPos, b) \<leftarrow> get_u32 b;
     (p, b) \<leftarrow> get_u32 b; (off, b) \<leftarrow> get_u32 b; (sz, b) \<leftarrow> get_u32 b;
     (args, b) \<leftarrow> get_list get_av b;
     (vars, b) \<leftarrow> get_list get_av b;
     Some (\<lparr>es_retPos = retPos, es_retVar = \<lparr>pm_pagina = p, pm_offset = off, pm_size = sz\<rparr>,
            es_args = args, es_vars = vars\<rparr>, b) }"

text \<open>The key is read as a C string, whatever \<open>key_length\<close> says; the offset advances by \<open>key_length\<close>.\<close>

definition get_label :: "byte list \<Rightarrow> ((c_str \<times> u32) \<times> byte list) option" where
  "get_label b = do {
     (key_length, b) \<leftarrow> get_u16 b;
     (_, rest) \<leftarrow> get_bytes (unat key_length) b;
     (val, rest) \<leftarrow> get_u32 rest;
     (if 0 \<in> set b then Some ((takeWhile (\<lambda>c. c \<noteq> 0) b, val), rest) else None) }"

definition deserializer_pcb :: "dict_ops \<Rightarrow> byte list \<Rightarrow> t_PCB option" where
  "deserializer_pcb D b = do {
     (p, b) \<leftarrow> get_u16 b; (pc, b) \<leftarrow> get_u16 b; (pages, b) \<leftarrow> get_u16 b; (sp, b) \<leftarrow> get_u16 b; (ec, b) \<leftarrow> get_u16 b;
     (lengthIndiceCodigo, b) \<leftarrow> get_u16 b;
     (codigo, b) \<leftarrow> get_many get_ic (unat lengthIndiceCodigo) b;
     (stack, b) \<leftarrow> get_list get_element b;
     (lengthEtiquetas, b) \<leftarrow> get_u16 b;
     (labels, b) \<leftarrow> get_many get_label (unat lengthEtiquetas) b;
     Some \<lparr>pcb_pid = p, pcb_PC = pc, cantidad_paginas = pages, exit_code = ec, pcb_SP = sp,
           cantidad_instrucciones = lengthIndiceCodigo, indice_stack = stack, indice_codigo = codigo,
           indice_etiquetas = fold (\<lambda>(k, v) d. dictionary_put D d k v) labels []\<rparr> }"

section \<open>Round trip\<close>

text \<open>An item that is read back from its encoding, whatever follows it.\<close>

locale item_codec =
  fixes enc :: "'a \<Rightarrow> byte list" and get :: "byte list \<Rightarrow> ('a \<times> byte list) option" and ok :: "'a \<Rightarrow> bool"
  assumes get_enc: "ok x \<Longrightarrow> get (enc x @ rest) = Some (x, rest)"
begin

lemma get_many_enc:
  "(\<And>x. x \<in> set xs \<Longrightarrow> ok x) \<Longrightarrow> get_many get (length xs) (concat (map enc xs) @ rest) = Some (xs, rest)"
  by (induction xs) (auto simp: get_enc)

end

lemma get_u16_enc [simp]: "get_u16 (u16_bytes w @ rest) = Some (w, rest)"
  by (simp add: get_u16_def get_bytes_def)

lemma get_u32_enc [simp]: "get_u32 (u32_bytes w @ rest) = Some (w, rest)"
  by (simp add: get_u32_def get_bytes_def)

lemma get_bytes_exact: "length xs = n \<Longrightarrow> get_bytes n (xs @ rest) = Some (xs, rest)"
  by (simp add: get_bytes_def)

interpretation ic_codec: item_codec ic_bytes get_ic "\<lambda>_. True"
  by unfold_locales (simp add: ic_bytes_def get_ic_def)

interpretation av_codec: item_codec av_bytes get_av "\<lambda>_. True"
  by unfold_locales (simp add: av_bytes_def get_av_def get_bytes_def)

lemma small_count: "n < 2 ^ 31 \<Longrightarrow> nat (sint (word_of_nat n :: u32)) = n"
proof -
  assume "n < 2 ^ 31"
  then have "sint (word_of_nat n :: u32) = int n"
    by (simp add: signed_of_nat signed_take_bit_int_eq_self)
  then show ?thesis by simp
qed

text \<open>What the serializers write when no size overflows, and that they write nothing else.\<close>

definition argsVars_bytes :: "t_args_vars list \<Rightarrow> byte list" where
  "argsVars_bytes l = u32_bytes (word_of_nat (length l)) @ concat (map av_bytes l)"

definition element_bytes :: "t_element_stack \<Rightarrow> byte list" where
  "element_bytes e =
     u32_bytes (es_retPos e) @ u32_bytes (pm_pagina (es_retVar e)) @ u32_bytes (pm_offset (es_retVar e))
     @ u32_bytes (pm_size (es_retVar e)) @ argsVars_bytes (es_args e) @ argsVars_bytes (es_vars e)"

definition stack_bytes :: "t_element_stack list \<Rightarrow> byte list" where
  "stack_bytes l = u32_bytes (word_of_nat (length l)) @ concat (map element_bytes l)"

definition labels_bytes :: "t_dictionary \<Rightarrow> byte list" where
  "labels_bytes d = u16_bytes (word_of_nat (length d)) @ concat (map label_bytes d)"

lemma int_stream_Some: "int_stream bs = Some s \<longleftrightarrow> s = bs \<and> length bs < 2 ^ 31"
  by (auto simp: int_stream_def)

lemma argsVars_serializer_eq: "argsVars_serializer l = int_stream (argsVars_bytes l)"
  by (simp add: argsVars_serializer_def argsVars_bytes_def)

lemma elementStack_serializer_eq: "elementStack_serializer e = int_stream (element_bytes e)"
  by (simp add: elementStack_serializer_def argsVars_serializer_eq element_bytes_def int_stream_def)

lemma elements_serializer_eq: "elements_serializer l = int_stream (concat (map element_bytes l))"
  by (induction l) (simp_all add: elementStack_serializer_eq int_stream_def)

lemma indiceStack_serializer_eq: "indiceStack_serializer l = int_stream (stack_bytes l)"
  by (simp add: indiceStack_serializer_def elements_serializer_eq stack_bytes_def int_stream_def)

lemma indiceEtiquetas_serializer_eq: "indiceEtiquetas_serializer d = int_stream (labels_bytes d)"
  by (simp add: indiceEtiquetas_serializer_def labels_bytes_def)

lemma get_argsVars:
  "length l < 2 ^ 31 \<Longrightarrow> get_list get_av (argsVars_bytes l @ rest) = Some (l, rest)"
  using av_codec.get_many_enc [of l rest]
  by (simp add: get_list_def argsVars_bytes_def small_count)

definition element_ok :: "t_element_stack \<Rightarrow> bool" where
  "element_ok e \<longleftrightarrow> length (es_args e) < 2 ^ 31 \<and> length (es_vars e) < 2 ^ 31"

interpretation element_codec: item_codec element_bytes get_element element_ok
  by unfold_locales
    (simp add: element_bytes_def get_element_def element_ok_def get_argsVars)

definition label_ok :: "c_str \<times> u32 \<Rightarrow> bool" where
  "label_ok kv \<longleftrightarrow> length (fst kv) + 1 < 2 ^ 16 \<and> 0 \<notin> set (fst kv)"

lemma takeWhile_c_str: "0 \<notin> set key \<Longrightarrow> takeWhile (\<lambda>c. c \<noteq> 0) (key @ (0 :: byte) # r) = key"
  by (subst takeWhile_append2) auto

interpretation label_codec: item_codec label_bytes get_label label_ok
proof
  fix kv rest assume ok: "label_ok kv"
  obtain key val where kv: "kv = (key, val)" by fastforce
  define kl where "kl = (word_of_nat (length key + 1) :: u16)"
  have kl: "unat kl = length (key @ [0])" using ok by (simp add: kl_def kv label_ok_def unat_of_nat del: of_nat_Suc of_nat_add)
  have "label_bytes kv = u16_bytes kl @ (key @ [0]) @ u32_bytes val"
    using kl unfolding label_bytes_def kv kl_def [symmetric] Let_def prod.case by (simp only: take_all_iff)
      simp
  then show "get_label (label_bytes kv @ rest) = Some (kv, rest)"
    using ok kl by (simp add: get_label_def get_bytes_def kv label_ok_def takeWhile_c_str)
qed

lemma map_of_rev_distinct: "distinct (map fst l) \<Longrightarrow> map_of (rev l) = map_of l"
  by (subst map_of_inject_set) (simp_all add: rev_map [symmetric])

definition pcb_ok :: "t_PCB \<Rightarrow> bool" where
  "pcb_ok pcb \<longleftrightarrow> unat (cantidad_instrucciones pcb) = length (indice_codigo pcb)
     \<and> length (indice_stack pcb) < 2 ^ 31 \<and> list_all element_ok (indice_stack pcb)
     \<and> length (indice_etiquetas pcb) < 2 ^ 16 \<and> list_all label_ok (indice_etiquetas pcb)
     \<and> distinct (map fst (indice_etiquetas pcb))"

text \<open>The number of bytes of a serialised block.\<close>

definition element_length :: "t_element_stack \<Rightarrow> nat" where
  "element_length e = 24 + 13 * length (es_args e) + 13 * length (es_vars e)"

definition pcb_length :: "nat \<Rightarrow> t_PCB \<Rightarrow> nat" where
  "pcb_length pcb_size pcb = 12 + pcb_size + 8 * unat (cantidad_instrucciones pcb)
     + sum_list (map element_length (indice_stack pcb)) + sum_list (map (\<lambda>kv. length (fst kv) + 7) (indice_etiquetas pcb))"

lemma length_av_bytes [simp]: "length (av_bytes e) = 13" "length (ic_bytes i) = 8"
  by (simp_all add: av_bytes_def ic_bytes_def)

lemma length_concat_const: "(\<And>x. x \<in> set l \<Longrightarrow> length (f x) = n) \<Longrightarrow> length (concat (map f l)) = n * length l"
  by (induction l) auto

lemma length_element: "length (element_bytes e) = element_length e"
  by (simp add: element_bytes_def argsVars_bytes_def element_length_def length_concat_const [where n = 13])

lemma length_stack: "length (stack_bytes l) = 4 + sum_list (map element_length l)"
  by (simp add: stack_bytes_def length_concat length_element comp_def)

lemma length_label: "label_ok kv \<Longrightarrow> length (label_bytes kv) = length (fst kv) + 7"
  by (cases kv) (simp add: label_bytes_def label_ok_def Let_def unat_of_nat del: of_nat_Suc of_nat_add)

lemma length_labels: "list_all label_ok d \<Longrightarrow> length (labels_bytes d) = 2 + sum_list (map (\<lambda>kv. length (fst kv) + 7) d)"
  by (induction d) (simp_all add: labels_bytes_def length_label)

lemma pcb_serializer_eq:
  assumes ok: "pcb_ok pcb" and sz: "6 \<le> pcb_size"
    and w: "w = u16_bytes (pcb_pid pcb) @ u16_bytes (pcb_PC pcb) @ u16_bytes (cantidad_paginas pcb)
      @ u16_bytes (pcb_SP pcb) @ u16_bytes (exit_code pcb)
      @ (u16_bytes (cantidad_instrucciones pcb) @ concat (map ic_bytes (indice_codigo pcb)))
      @ stack_bytes (indice_stack pcb) @ labels_bytes (indice_etiquetas pcb)"
    and n: "n = pcb_length pcb_size pcb"
  shows "pcb_serializer pcb_size junk pcb =
    (if n < 2 ^ 31 then Some \<lparr>st_length = n, st_data = w @ map junk [length w..<n]\<rparr> else None)" "length w \<le> n"
proof -
  let ?c = "u16_bytes (cantidad_instrucciones pcb) @ concat (map ic_bytes (indice_codigo pcb))"
  have ic: "indiceCodigo_serializer pcb = Some ?c"
    using ok by (simp add: indiceCodigo_serializer_def pcb_ok_def)
  have lc: "length ?c = 2 + 8 * unat (cantidad_instrucciones pcb)"
    using ok by (simp add: pcb_ok_def length_concat_const [where n = 8])
  have ll: "length (labels_bytes (indice_etiquetas pcb)) = 2 + sum_list (map (\<lambda>kv. length (fst kv) + 7) (indice_etiquetas pcb))"
    using ok by (intro length_labels) (simp add: pcb_ok_def)
  have tam: "4 + pcb_size + length ?c + length (stack_bytes (indice_stack pcb)) + length (labels_bytes (indice_etiquetas pcb)) = n"
    using lc ll by (simp add: n pcb_length_def length_stack)
  then show "length w \<le> n" using sz by (simp add: w)
  then show "pcb_serializer pcb_size junk pcb =
      (if n < 2 ^ 31 then Some \<lparr>st_length = n, st_data = w @ map junk [length w..<n]\<rparr> else None)"
    using tam by (auto simp: pcb_serializer_def ic indiceStack_serializer_eq indiceEtiquetas_serializer_eq int_stream_def w Let_def)
qed

context dictionary_laws
begin

lemma put_all:
  "map_of (fold (\<lambda>(k, v) d. dictionary_put D d k v) kvs d) = map_of (rev kvs @ d)"
  by (induction kvs arbitrary: d) (auto simp: put_lookup fun_eq_iff map_add_def split: option.splits)

lemma put_all_distinct:
  "distinct (map fst d) \<Longrightarrow> distinct (map fst (fold (\<lambda>(k, v) d. dictionary_put D d k v) kvs d))"
  by (induction kvs arbitrary: d) (auto simp: put_distinct)

lemma pcb_roundtrip:
  assumes ok: "pcb_ok pcb" and sz: "6 \<le> pcb_size" and ser: "pcb_serializer pcb_size junk pcb = Some stream"
  shows "\<exists>d. st_length stream = pcb_length pcb_size pcb \<and> st_length stream = length (st_data stream) \<and>
    deserializer_pcb D (st_data stream) = Some (pcb\<lparr>indice_etiquetas := d\<rparr>) \<and>
    map_of d = map_of (indice_etiquetas pcb) \<and> distinct (map fst d)"
proof -
  define w where "w = u16_bytes (pcb_pid pcb) @ u16_bytes (pcb_PC pcb) @ u16_bytes (cantidad_paginas pcb)
      @ u16_bytes (pcb_SP pcb) @ u16_bytes (exit_code pcb)
      @ (u16_bytes (cantidad_instrucciones pcb) @ concat (map ic_bytes (indice_codigo pcb)))
      @ stack_bytes (indice_stack pcb) @ labels_bytes (indice_etiquetas pcb)"
  define n where "n = pcb_length pcb_size pcb"
  note eq = pcb_serializer_eq [OF ok sz w_def n_def]
  have st: "stream = \<lparr>st_length = n, st_data = w @ map junk [length w..<n]\<rparr>"
    using ser eq(1) by (auto split: if_splits)
  define d where "d = fold (\<lambda>(k, v) d. dictionary_put D d k v) (indice_etiquetas pcb) []"
  have labels: "get_many get_label (length (indice_etiquetas pcb))
      (concat (map label_bytes (indice_etiquetas pcb)) @ rest) = Some (indice_etiquetas pcb, rest)" for rest
    using ok by (intro label_codec.get_many_enc) (simp add: pcb_ok_def list_all_iff)
  have stack: "get_list get_element (stack_bytes (indice_stack pcb) @ rest) = Some (indice_stack pcb, rest)" for rest
    using ok element_codec.get_many_enc [of "indice_stack pcb" rest]
    by (simp add: get_list_def stack_bytes_def small_count pcb_ok_def list_all_iff)
  have code: "get_many get_ic (unat (cantidad_instrucciones pcb)) (concat (map ic_bytes (indice_codigo pcb)) @ rest)
      = Some (indice_codigo pcb, rest)" for rest
    using ok ic_codec.get_many_enc [of "indice_codigo pcb" rest] by (simp add: pcb_ok_def)
  have cnt: "unat (word_of_nat (length (indice_etiquetas pcb)) :: u16) = length (indice_etiquetas pcb)"
    using ok by (simp add: pcb_ok_def unat_of_nat)
  have "deserializer_pcb D (w @ rest) = Some (pcb\<lparr>indice_etiquetas := d\<rparr>)" for rest
    unfolding deserializer_pcb_def
    by (simp add: w_def code stack labels_bytes_def cnt labels d_def)
  moreover have "map_of d = map_of (indice_etiquetas pcb)"
    using put_all [of "indice_etiquetas pcb" "[]"] ok by (simp add: d_def pcb_ok_def map_of_rev_distinct)
  moreover have "distinct (map fst d)" unfolding d_def by (rule put_all_distinct) simp
  ultimately show ?thesis using eq(2) by (intro exI [of _ d]) (simp add: st n_def)
qed

end

text \<open>
  C34: a process control block that is serialised and deserialised again is the same block, up to the
  order of the labels in its dictionary; the padding behind the encoding does not matter.  The stream has the number of bytes that
  \<open>pcb_length\<close> adds up, which must be a positive \<open>int\<close>; a larger block is not serialised.
\<close>
theorem pcb_serialization_roundtrip:
  assumes "dictionary_laws D" "pcb_ok pcb" "6 \<le> pcb_size"
  shows "if pcb_length pcb_size pcb < 2 ^ 31
    then \<exists>stream d. pcb_serializer pcb_size junk pcb = Some stream \<and>
      st_length stream = pcb_length pcb_size pcb \<and> st_length stream = length (st_data stream) \<and>
      deserializer_pcb D (st_data stream) = Some (pcb\<lparr>indice_etiquetas := d\<rparr>) \<and>
      map_of d = map_of (indice_etiquetas pcb) \<and> distinct (map fst d)
    else pcb_serializer pcb_size junk pcb = None"
proof (cases "pcb_length pcb_size pcb < 2 ^ 31")
  case True
  then obtain stream where s: "pcb_serializer pcb_size junk pcb = Some stream"
    using pcb_serializer_eq(1) [OF assms(2,3) refl refl, of junk] by auto
  with dictionary_laws.pcb_roundtrip [OF assms s] True show ?thesis by auto
next
  case False
  with pcb_serializer_eq(1) [OF assms(2,3) refl refl, of junk] show ?thesis by simp
qed

definition demo_pcb :: t_PCB where
  "demo_pcb = \<lparr>pcb_pid = 7, pcb_PC = 1, cantidad_paginas = 3, exit_code = 0, pcb_SP = 0, cantidad_instrucciones = 2,
     indice_stack = [\<lparr>es_retPos = 0, es_retVar = \<lparr>pm_pagina = 0, pm_offset = 0, pm_size = 0\<rparr>, es_args = [],
       es_vars = [\<lparr>av_id = 97, av_pagina = 3, av_offset = 0, av_size = 4\<rparr>]\<rparr>],
     indice_codigo = [\<lparr>ic_offset = 0, ic_size = 12\<rparr>, \<lparr>ic_offset = 12, ic_size = 9\<rparr>],
     indice_etiquetas = [([102], 1), ([103, 104], 0)]\<rparr>"

lemma demo_pcb_ok: "pcb_ok demo_pcb"
  by (simp add: pcb_ok_def demo_pcb_def element_ok_def label_ok_def)

lemma demo_pcb_length: "pcb_length 24 demo_pcb = 106"
  by (simp add: pcb_length_def demo_pcb_def element_length_def)

theorem pcb_serialization_roundtrip_witness:
  "\<exists>stream d. pcb_serializer 24 (\<lambda>_. 0) demo_pcb = Some stream \<and> st_length stream = 106 \<and>
    st_length stream = length (st_data stream) \<and>
    deserializer_pcb seq_dict_ops (st_data stream) = Some (demo_pcb\<lparr>indice_etiquetas := d\<rparr>) \<and>
    map_of d = map_of (indice_etiquetas demo_pcb) \<and> distinct (map fst d)"
  using pcb_serialization_roundtrip [OF seq_dict.dictionary_laws_axioms demo_pcb_ok, of 24 "\<lambda>_. 0"]
  by (simp add: demo_pcb_length)

end
