(* ===== verification/Connection.thy ===== *)
theory Connection
  imports Serializar
begin

text \<open>
  Framed messages between kernel, CPU and console (\<open>connection_send\<close> and \<open>connection_recv\<close> of
  \<open>shared-library/socket.c\<close>, the codes of \<open>socket.h\<close>): one byte of operation code, four bytes of size, the
  message.  How many bytes are sent, and into what they are received, depends on the operation code.

  A message is a \<open>t_stream\<close> or the bytes readable at a pointer; a call that would read or write past an
  object, or that uses the size that \<open>connection_send\<close> leaves uninitialised for an unknown code, is \<open>None\<close>.
  The types of the parser library are 32 bits wide (\<open>t_puntero\<close>, \<open>t_valor_variable\<close>,
  \<open>t_descriptor_archivo\<close>) or one byte (\<open>t_nombre_variable\<close>); sizes that depend on the platform are the
  parameter \<open>abi\<close>.  Messages are shorter than \<open>2^31\<close> bytes.
\<close>

section \<open>Operation codes\<close>

definition OC_SOLICITUD_PROGRAMA_NUEVO :: byte where [source_consts]: "OC_SOLICITUD_PROGRAMA_NUEVO = 1"
definition OC_MEMORIA_INSUFICIENTE :: byte where [source_consts]: "OC_MEMORIA_INSUFICIENTE = 2"
definition OC_SOLICITUD_MEMORIA :: byte where [source_consts]: "OC_SOLICITUD_MEMORIA = 3"
definition OC_LIBERAR_MEMORIA :: byte where [source_consts]: "OC_LIBERAR_MEMORIA = 4"
definition OC_ASIGNA_PCB :: byte where [source_consts]: "OC_ASIGNA_PCB = 5"
definition OC_HANDSHAKE_MEMORY :: byte where [source_consts]: "OC_HANDSHAKE_MEMORY = 8"
definition OC_NUEVA_CONSOLA_PID :: byte where [source_consts]: "OC_NUEVA_CONSOLA_PID = 9"
definition OC_CODIGO :: byte where [source_consts]: "OC_CODIGO = 11"
definition OC_INSTRUCCION_CONSOLA :: byte where [source_consts]: "OC_INSTRUCCION_CONSOLA = 12"
definition OC_KILL_CONSOLA :: byte where [source_consts]: "OC_KILL_CONSOLA = 13"
definition OC_PCB :: byte where [source_consts]: "OC_PCB = 14"
definition OC_QUANTUM_SLEEP :: byte where [source_consts]: "OC_QUANTUM_SLEEP = 15"
definition OC_RESP_QUANTUM_SLEEP :: byte where [source_consts]: "OC_RESP_QUANTUM_SLEEP = 16"
definition OC_FUNCION_ABRIR :: byte where [source_consts]: "OC_FUNCION_ABRIR = 30"
definition OC_FUNCION_CERRAR :: byte where [source_consts]: "OC_FUNCION_CERRAR = 31"
definition OC_FUNCION_BORRAR :: byte where [source_consts]: "OC_FUNCION_BORRAR = 32"
definition OC_FUNCION_LEER :: byte where [source_consts]: "OC_FUNCION_LEER = 33"
definition OC_FUNCION_ESCRIBIR :: byte where [source_consts]: "OC_FUNCION_ESCRIBIR = 34"
definition OC_FUNCION_WAIT :: byte where [source_consts]: "OC_FUNCION_WAIT = 35"
definition OC_FUNCION_SIGNAL :: byte where [source_consts]: "OC_FUNCION_SIGNAL = 36"
definition OC_FUNCION_RESERVAR :: byte where [source_consts]: "OC_FUNCION_RESERVAR = 37"
definition OC_FUNCION_LIBERAR :: byte where [source_consts]: "OC_FUNCION_LIBERAR = 38"
definition OC_FUNCION_MOVER_CURSOR :: byte where [source_consts]: "OC_FUNCION_MOVER_CURSOR = 39"
definition OC_FUNCION_ESCRIBIR_VARIABLE :: byte where [source_consts]: "OC_FUNCION_ESCRIBIR_VARIABLE = 50"
definition OC_FUNCION_LEER_VARIABLE :: byte where [source_consts]: "OC_FUNCION_LEER_VARIABLE = 51"
definition OC_RESP_ABRIR :: byte where [source_consts]: "OC_RESP_ABRIR = 40"
definition OC_RESP_CERRAR :: byte where [source_consts]: "OC_RESP_CERRAR = 41"
definition OC_RESP_BORRAR :: byte where [source_consts]: "OC_RESP_BORRAR = 42"
definition OC_RESP_LEER :: byte where [source_consts]: "OC_RESP_LEER = 43"
definition OC_RESP_ESCRIBIR :: byte where [source_consts]: "OC_RESP_ESCRIBIR = 44"
definition OC_RESP_WAIT :: byte where [source_consts]: "OC_RESP_WAIT = 45"
definition OC_RESP_SIGNAL :: byte where [source_consts]: "OC_RESP_SIGNAL = 46"
definition OC_RESP_RESERVAR :: byte where [source_consts]: "OC_RESP_RESERVAR = 47"
definition OC_RESP_LIBERAR :: byte where [source_consts]: "OC_RESP_LIBERAR = 48"
definition OC_RESP_MOVER_CURSOR :: byte where [source_consts]: "OC_RESP_MOVER_CURSOR = 49"
definition OC_RESP_ESCRIBIR_VARIABLE :: byte where [source_consts]: "OC_RESP_ESCRIBIR_VARIABLE = 52"
definition OC_RESP_LEER_VARIABLE :: byte where [source_consts]: "OC_RESP_LEER_VARIABLE = 53"
definition OC_RESP_TERMINO_INSTRUCCION :: byte where [source_consts]: "OC_RESP_TERMINO_INSTRUCCION = 54"
definition OC_ESCRIBIR_EN_CONSOLA :: byte where [source_consts]: "OC_ESCRIBIR_EN_CONSOLA = 55"
definition OC_MUERE_PROGRAMA :: byte where [source_consts]: "OC_MUERE_PROGRAMA = 99"
definition OC_RESP_LEER_ERROR :: byte where [source_consts]: "OC_RESP_LEER_ERROR = 63"
definition OC_TERMINA_PROGRAMA :: byte where [source_consts]: "OC_TERMINA_PROGRAMA = 6"
definition OC_TERMINO_INSTRUCCION :: byte where [source_consts]: "OC_TERMINO_INSTRUCCION = 7"
definition OC_DESCONEX_CPU :: byte where [source_consts]: "OC_DESCONEX_CPU = 60"
definition OC_ERROR_EJECUCION_CPU :: byte where [source_consts]: "OC_ERROR_EJECUCION_CPU = 61"
definition HANDSHAKE_CPU :: byte where [source_consts]: "HANDSHAKE_CPU = 100"

record abi =
  sz_size_t :: nat
  sz_t_size :: nat
  sz_banderas :: nat
  sz_archivo :: nat
  sz_pcb :: nat

text \<open>The 32-bit platform the program was written for.\<close>

definition abi32 :: abi where
  "abi32 = \<lparr>sz_size_t = 4, sz_t_size = 4, sz_banderas = 3, sz_archivo = 16, sz_pcb = 24\<rparr>"

record t_archivo =
  ar_descriptor :: u32
  ar_informacion :: "byte list"
  ar_tamanio :: u32
  ar_pid :: u32

datatype message = Stream t_stream | Mem "byte list"
datatype payload = Raw "byte list" | Archivo t_archivo

section \<open>Sending\<close>

definition c_strlen :: "byte list \<Rightarrow> nat option" where
  "c_strlen bs = (if 0 \<in> set bs then Some (length (takeWhile (\<lambda>c. c \<noteq> 0) bs)) else None)"

definition c_int_at :: "byte list \<Rightarrow> u32 option" where
  "c_int_at bs = (if length bs < 4 then None else Some (bytes_u32 (take 4 bs)))"

definition stream_codes :: "byte list" where
  "stream_codes = [OC_PCB, OC_DESCONEX_CPU, OC_ERROR_EJECUCION_CPU, OC_TERMINA_PROGRAMA, OC_TERMINO_INSTRUCCION]"

definition string_codes :: "byte list" where
  "string_codes = [OC_CODIGO, OC_SOLICITUD_PROGRAMA_NUEVO, OC_ESCRIBIR_EN_CONSOLA, OC_FUNCION_LEER_VARIABLE,
     OC_FUNCION_SIGNAL, OC_FUNCION_WAIT]"

definition one_byte_codes :: "byte list" where
  "one_byte_codes = [OC_NUEVA_CONSOLA_PID, OC_RESP_ESCRIBIR, OC_QUANTUM_SLEEP, OC_RESP_QUANTUM_SLEEP,
     OC_MEMORIA_INSUFICIENTE, OC_SOLICITUD_MEMORIA, OC_LIBERAR_MEMORIA, OC_RESP_WAIT, OC_RESP_SIGNAL, OC_HANDSHAKE_MEMORY]"

definition int_codes :: "byte list" where
  "int_codes = [OC_RESP_ABRIR, OC_MUERE_PROGRAMA, OC_RESP_TERMINO_INSTRUCCION, OC_RESP_LEER_ERROR, OC_RESP_BORRAR,
     OC_RESP_CERRAR, HANDSHAKE_CPU, OC_RESP_LIBERAR, OC_RESP_LEER_VARIABLE, OC_RESP_LEER, OC_KILL_CONSOLA]"

definition message_size :: "abi \<Rightarrow> byte \<Rightarrow> byte list \<Rightarrow> nat option" where
  "message_size A oc bs =
     (if oc \<in> set string_codes then c_strlen bs
      else if oc \<in> set one_byte_codes then Some 1
      else if oc = OC_FUNCION_ABRIR then
        map_option (\<lambda>n. unat (word_of_nat (4 + 2 + sz_banderas A) + n :: u32)) (c_int_at bs)
      else if oc = OC_FUNCION_BORRAR \<or> oc = OC_FUNCION_CERRAR then Some (sz_archivo A)
      else if oc \<in> set int_codes then Some 4
      else if oc = OC_FUNCION_RESERVAR \<or> oc = OC_RESP_RESERVAR then Some 8
      else if oc = OC_FUNCION_LIBERAR \<or> oc = OC_FUNCION_MOVER_CURSOR then Some 12
      else if oc = OC_FUNCION_LEER then Some 16
      else if oc = OC_FUNCION_ESCRIBIR then
        (if length bs < sz_size_t A then None else Some (le_nat (take (sz_size_t A) bs) mod 2 ^ 32))
      else if oc = OC_FUNCION_ESCRIBIR_VARIABLE then map_option (\<lambda>n. unat (8 + n :: u32)) (c_int_at bs)
      else None)"

definition connection_send :: "abi \<Rightarrow> byte \<Rightarrow> message \<Rightarrow> sock \<Rightarrow> (int \<times> sock) option" where
  "connection_send A oc msg s = do {
     (n, bs) \<leftarrow> (case msg of
        Stream st \<Rightarrow> if oc \<in> set stream_codes then Some (st_length st, st_data st) else None
      | Mem bs \<Rightarrow> if oc \<in> set stream_codes then None else map_option (\<lambda>n. (n, bs)) (message_size A oc bs));
     (if length bs < n \<or> 2 ^ 31 \<le> 5 + n then None
      else Some (int (5 + n), socket_send ([oc] @ u32_bytes (word_of_nat n) @ take n bs) s)) }"

section \<open>Receiving\<close>

text \<open>The content of fresh storage of \<open>n\<close> bytes after a receive that delivered \<open>got\<close>.\<close>

definition fill :: "storage \<Rightarrow> nat \<Rightarrow> byte list \<Rightarrow> byte list" where
  "fill junk n got = got @ map junk [length got..<n]"

definition raw_codes :: "byte list" where
  "raw_codes = stream_codes @ [OC_RESP_BORRAR, OC_RESP_CERRAR, OC_RESP_TERMINO_INSTRUCCION, OC_RESP_ABRIR,
     OC_MUERE_PROGRAMA, OC_RESP_LEER_ERROR, HANDSHAKE_CPU, OC_RESP_LIBERAR, OC_FUNCION_ABRIR, OC_RESP_ESCRIBIR,
     OC_NUEVA_CONSOLA_PID, OC_HANDSHAKE_MEMORY, OC_RESP_LEER_VARIABLE, OC_FUNCION_LEER, OC_RESP_LEER,
     OC_FUNCION_ESCRIBIR_VARIABLE, OC_FUNCION_MOVER_CURSOR, OC_RESP_SIGNAL, OC_RESP_WAIT, OC_FUNCION_BORRAR,
     OC_FUNCION_CERRAR, OC_KILL_CONSOLA]"

definition text_codes :: "byte list" where
  "text_codes = [OC_SOLICITUD_PROGRAMA_NUEVO, OC_ESCRIBIR_EN_CONSOLA, OC_FUNCION_SIGNAL, OC_FUNCION_WAIT]"

definition checked_text_codes :: "byte list" where
  "checked_text_codes = [OC_FUNCION_LEER_VARIABLE, OC_MEMORIA_INSUFICIENTE, OC_SOLICITUD_MEMORIA, OC_LIBERAR_MEMORIA]"

text \<open>
  A write request is taken apart on the way; the total size is received into an object of type
  \<open>t_size\<close>, and the length of the data, a \<open>t_valor_variable\<close> at the sender, as a \<open>size_t\<close>.
\<close>

definition recv_archivo :: "abi \<Rightarrow> storage \<Rightarrow> sock \<Rightarrow> (t_archivo \<times> sock) option" where
  "recv_archivo A junk s =
     (case socket_recv (sz_size_t A) s of (tot, s1) \<Rightarrow>
      case socket_recv 4 s1 of (desc, s2) \<Rightarrow>
      case socket_recv 4 s2 of (p, s3) \<Rightarrow>
      case socket_recv (sz_size_t A) s3 of (tam, s4) \<Rightarrow>
        (let tamanio = bytes_u32 (take 4 (fill junk (sz_size_t A) tam)) in
         if sz_t_size A < length tot \<or> sz_size_t A < 4 \<or> sint tamanio < 0 then None
         else (case socket_recv (unat tamanio) s4 of (info, s5) \<Rightarrow>
           Some (\<lparr>ar_descriptor = bytes_u32 (fill junk 4 desc), ar_informacion = fill junk (unat tamanio) info,
                  ar_tamanio = tamanio, ar_pid = bytes_u32 (fill junk 4 p)\<rparr>, s5))))"

text \<open>The switch of \<open>connection_recv\<close>; \<open>status\<close> is the result of the receive that is tested afterwards.\<close>

definition recv_body ::
    "abi \<Rightarrow> storage \<Rightarrow> byte \<Rightarrow> nat \<Rightarrow> int \<Rightarrow> sock \<Rightarrow> (int \<times> payload option \<times> sock) option" where
  "recv_body A junk oc n status s =
     (if oc \<in> set raw_codes then
        (case socket_recv n s of (got, s1) \<Rightarrow> Some (status, Some (Raw (fill junk n got)), s1))
      else if oc \<in> set text_codes then
        (case socket_recv n s of (got, s1) \<Rightarrow> Some (int (length got), Some (Raw (fill junk n got @ [0])), s1))
      else if oc \<in> set checked_text_codes then
        (if n = 0 then Some (status, Some (Raw [0]), s)
         else (case socket_recv n s of (got, s1) \<Rightarrow>
           Some (int (length got), if got = [] then None else Some (Raw (fill junk n got @ [0])), s1)))
      else if oc = OC_FUNCION_LIBERAR then
        (case socket_recv n s of (got, s1) \<Rightarrow>
           if 12 < length got then None else Some (int (length got), Some (Raw (fill junk 12 got)), s1))
      else if oc = OC_FUNCION_RESERVAR \<or> oc = OC_RESP_RESERVAR then
        (case socket_recv n s of (got, s1) \<Rightarrow>
           if 8 < length got then None else Some (status, Some (Raw (fill junk 8 got)), s1))
      else if oc = OC_FUNCION_ESCRIBIR then
        map_option (\<lambda>(arch, s1). (status, Some (Archivo arch), s1)) (recv_archivo A junk s)
      else Some (status, None, s))"

text \<open>The result: the return value, the operation code and the message as far as they were assigned.\<close>

record recv_result =
  rc_ret :: int
  rc_oc :: "byte option"
  rc_msg :: "payload option"

definition connection_recv :: "abi \<Rightarrow> storage \<Rightarrow> sock \<Rightarrow> (recv_result \<times> sock) option" where
  "connection_recv A junk s =
     (case socket_recv 1 s of
        ([], s1) \<Rightarrow> Some (\<lparr>rc_ret = 0, rc_oc = None, rc_msg = None\<rparr>, s1)
      | (oc # _, s1) \<Rightarrow>
          (case socket_recv 4 s1 of (sz, s2) \<Rightarrow>
             if sz = [] then Some (\<lparr>rc_ret = 1, rc_oc = Some oc, rc_msg = None\<rparr>, s2)
             else map_option (\<lambda>(status, msg, s3).
                    (\<lparr>rc_ret = (if status \<le> 0 then status else 1 + int (length sz) + status),
                      rc_oc = Some oc, rc_msg = msg\<rparr>, s3))
                    (recv_body A junk oc (unat (bytes_u32 (fill junk 4 sz))) (int (length sz)) s2)))"

section \<open>Lemmas\<close>

lemma fill_full: "length got = n \<Longrightarrow> fill junk n got = got"
  by (simp add: fill_def)

lemma recv_framed:
  assumes "sk_in s = [oc] @ u32_bytes (word_of_nat n) @ body" "n < 2 ^ 32"
  shows "connection_recv A junk s = map_option (\<lambda>(status, msg, s3).
      (\<lparr>rc_ret = (if status \<le> 0 then status else 5 + status), rc_oc = Some oc, rc_msg = msg\<rparr>, s3))
      (recv_body A junk oc n 4 (s\<lparr>sk_in := body\<rparr>))"
proof -
  have n: "unat (word_of_nat n :: u32) = n" using assms(2) by (simp add: unat_of_nat)
  have r: "socket_recv 1 s = ([oc], s\<lparr>sk_in := u32_bytes (word_of_nat n) @ body\<rparr>)"
    "socket_recv 4 (s\<lparr>sk_in := u32_bytes (word_of_nat n) @ body\<rparr>) = (u32_bytes (word_of_nat n), s\<lparr>sk_in := body\<rparr>)"
    using assms(1) by (simp_all add: socket_recv_def)
  show ?thesis unfolding connection_recv_def r(1) by (simp add: r(2) fill_full n cong: if_cong)
qed

lemma send_frame:
  assumes "connection_send A oc msg s = Some (ret, s')"
  shows "\<exists>n bs. (case msg of Stream st \<Rightarrow> oc \<in> set stream_codes \<and> n = st_length st \<and> bs = st_data st
        | Mem m \<Rightarrow> oc \<notin> set stream_codes \<and> message_size A oc m = Some n \<and> bs = m) \<and>
      n \<le> length bs \<and> 5 + n < 2 ^ 31 \<and> ret = 5 + int n \<and>
      sk_out s' = sk_out s @ [oc] @ u32_bytes (word_of_nat n) @ take n bs"
  using assms by (auto simp: connection_send_def socket_send_def split: message.splits if_splits bind_splits)

lemmas code_lists = raw_codes_def text_codes_def checked_text_codes_def stream_codes_def string_codes_def
  one_byte_codes_def int_codes_def

section \<open>Properties\<close>

text \<open>What the receiver sees of a message of which \<open>n\<close> bytes are sent.\<close>

definition sent_bytes :: "abi \<Rightarrow> byte \<Rightarrow> message \<Rightarrow> byte list" where
  "sent_bytes A oc msg = (case msg of Stream st \<Rightarrow> take (st_length st) (st_data st)
     | Mem bs \<Rightarrow> take (the (message_size A oc bs)) bs)"

lemma sent_frame:
  assumes "connection_send A oc msg s = Some (ret, s')"
  shows "sk_out s' = sk_out s @ [oc] @ u32_bytes (word_of_nat (length (sent_bytes A oc msg))) @ sent_bytes A oc msg"
    "length (sent_bytes A oc msg) < 2 ^ 31" "ret = 5 + int (length (sent_bytes A oc msg))"
  using send_frame [OF assms] by (auto simp: sent_bytes_def min_absorb2 split: message.splits)

lemma recv_sent:
  assumes "connection_send A oc msg c = Some (ret, c')"
  shows "\<exists>frame. sk_out c' = sk_out c @ frame \<and>
    (\<forall>s rest. sk_in s = frame @ rest \<longrightarrow> connection_recv A junk s = map_option (\<lambda>(status, msg, s3).
      (\<lparr>rc_ret = (if status \<le> 0 then status else 5 + status), rc_oc = Some oc, rc_msg = msg\<rparr>, s3))
      (recv_body A junk oc (length (sent_bytes A oc msg)) 4 (s\<lparr>sk_in := sent_bytes A oc msg @ rest\<rparr>)))"
  using sent_frame [OF assms]
  by (intro exI [of _ "[oc] @ u32_bytes (word_of_nat (length (sent_bytes A oc msg))) @ sent_bytes A oc msg"])
    (auto intro!: recv_framed)

lemma recv_body_raw:
  "oc \<in> set raw_codes \<Longrightarrow> recv_body A junk oc (length bs) 4 (s\<lparr>sk_in := bs @ rest\<rparr>) = Some (4, Some (Raw bs), s\<lparr>sk_in := rest\<rparr>)"
  by (simp add: recv_body_def socket_recv_def fill_full)

text \<open>
  Every message whose code the receiver takes as raw bytes (process control blocks, answers and
  requests of fixed or announced size) arrives with its code and exactly the bytes that were sent, and
  nothing else is taken from the connection.
\<close>
theorem connection_raw_roundtrip:
  assumes "connection_send A oc msg c = Some (ret, c')" "oc \<in> set raw_codes"
  shows "\<exists>frame. sk_out c' = sk_out c @ frame \<and>
    (\<forall>s rest. sk_in s = frame @ rest \<longrightarrow> connection_recv A junk s =
       Some (\<lparr>rc_ret = 9, rc_oc = Some oc, rc_msg = Some (Raw (sent_bytes A oc msg))\<rparr>, s\<lparr>sk_in := rest\<rparr>))"
  using recv_sent [OF assms(1), of junk] by (simp add: recv_body_raw [OF assms(2)])

theorem connection_raw_roundtrip_witness:
  "\<exists>frame. sk_out (snd (the (connection_send abi32 OC_RESP_ABRIR (Mem [3, 0, 0, 0]) \<lparr>sk_in = [], sk_out = []\<rparr>))) = frame \<and>
    connection_recv abi32 (\<lambda>_. 0) \<lparr>sk_in = frame @ [9], sk_out = []\<rparr> =
      Some (\<lparr>rc_ret = 9, rc_oc = Some OC_RESP_ABRIR, rc_msg = Some (Raw [3, 0, 0, 0])\<rparr>, \<lparr>sk_in = [9], sk_out = []\<rparr>)"
proof -
  have m: "message_size abi32 OC_RESP_ABRIR [3, 0, 0, 0] = Some 4"
    by (simp add: message_size_def code_lists source_consts)
  have "connection_send abi32 OC_RESP_ABRIR (Mem [3, 0, 0, 0]) \<lparr>sk_in = [], sk_out = []\<rparr> =
     Some (9, \<lparr>sk_in = [], sk_out = [OC_RESP_ABRIR] @ u32_bytes 4 @ [3, 0, 0, 0]\<rparr>)"
    by (simp add: connection_send_def m socket_send_def) (simp add: code_lists source_consts)
  from connection_raw_roundtrip [OF this, of "\<lambda>_. 0"] this show ?thesis
    by (simp add: sent_bytes_def m) (simp add: code_lists)
qed

text \<open>
  A text (a program, a line for the console, a semaphore name) arrives as the same C string.  The
  return value is positive exactly when the text is not empty, so a receiver that tests it takes an
  empty text for a lost connection.
\<close>
theorem connection_text_roundtrip:
  assumes "connection_send A oc (Mem bs) c = Some (ret, c')" "oc \<in> set text_codes"
  shows "\<exists>frame t. sk_out c' = sk_out c @ frame \<and> t = takeWhile (\<lambda>c. c \<noteq> 0) bs \<and>
    (\<forall>s rest. sk_in s = frame @ rest \<longrightarrow> connection_recv A junk s =
       Some (\<lparr>rc_ret = (if t = [] then 0 else 5 + int (length t)), rc_oc = Some oc, rc_msg = Some (Raw (t @ [0]))\<rparr>,
             s\<lparr>sk_in := rest\<rparr>))"
proof -
  let ?t = "takeWhile (\<lambda>c. c \<noteq> 0) bs"
  have oc: "oc \<in> set string_codes" "oc \<notin> set raw_codes" using assms(2) by (auto simp: code_lists source_consts)
  then have "c_strlen bs \<noteq> None" using assms(1) by (auto simp: connection_send_def message_size_def split: if_splits bind_splits)
  then have "message_size A oc bs = Some (length ?t)" using oc by (auto simp: message_size_def c_strlen_def split: if_splits)
  then have t: "sent_bytes A oc (Mem bs) = ?t"
    by (simp add: sent_bytes_def) (metis takeWhile_eq_take)
  have "recv_body A junk oc (length ?t) 4 (s\<lparr>sk_in := ?t @ rest\<rparr>) =
      Some (int (length ?t), Some (Raw (?t @ [0])), s\<lparr>sk_in := rest\<rparr>)" for s rest
    using assms(2) oc(2) by (simp add: recv_body_def socket_recv_def fill_full)
  with recv_sent [OF assms(1), of junk] t show ?thesis by (cases "?t = []") simp_all
qed

theorem connection_text_roundtrip_witness:
  "\<exists>frame. sk_out (snd (the (connection_send abi32 OC_FUNCION_WAIT (Mem [98, 0]) \<lparr>sk_in = [], sk_out = []\<rparr>))) = frame \<and>
    connection_recv abi32 (\<lambda>_. 0) \<lparr>sk_in = frame, sk_out = []\<rparr> =
      Some (\<lparr>rc_ret = 6, rc_oc = Some OC_FUNCION_WAIT, rc_msg = Some (Raw [98, 0])\<rparr>, \<lparr>sk_in = [], sk_out = []\<rparr>)"
proof -
  have m: "message_size abi32 OC_FUNCION_WAIT [98, 0] = Some 1"
    by (simp add: message_size_def c_strlen_def code_lists source_consts)
  have "connection_send abi32 OC_FUNCION_WAIT (Mem [98, 0]) \<lparr>sk_in = [], sk_out = []\<rparr> =
     Some (6, \<lparr>sk_in = [], sk_out = [OC_FUNCION_WAIT] @ u32_bytes 1 @ [98]\<rparr>)"
    by (simp add: connection_send_def m socket_send_def) (simp add: code_lists source_consts)
  from connection_text_roundtrip [OF this, of "\<lambda>_. 0"] this show ?thesis
    by (simp add: code_lists)
qed

text \<open>
  Three codes can be sent but not received.  Their message stays on the connection, where the next
  \<open>connection_recv\<close> takes its first byte for an operation code, although the return value reports success.
\<close>
theorem connection_unreceived_codes:
  assumes "connection_send A oc msg c = Some (ret, c')"
    and "oc \<in> {OC_CODIGO, OC_QUANTUM_SLEEP, OC_RESP_QUANTUM_SLEEP}"
  shows "\<exists>frame. sk_out c' = sk_out c @ frame \<and>
    (\<forall>s rest. sk_in s = frame @ rest \<longrightarrow> connection_recv A junk s =
       Some (\<lparr>rc_ret = 9, rc_oc = Some oc, rc_msg = None\<rparr>, s\<lparr>sk_in := sent_bytes A oc msg @ rest\<rparr>))"
proof -
  have "recv_body A junk oc n 4 s = Some (4, None, s)" for n s
    using assms(2) by (auto simp: recv_body_def code_lists source_consts)
  with recv_sent [OF assms(1), of junk] show ?thesis by simp
qed

theorem connection_unreceived_codes_witness:
  "\<exists>frame. sk_out (snd (the (connection_send abi32 OC_QUANTUM_SLEEP (Mem [5]) \<lparr>sk_in = [], sk_out = []\<rparr>))) = frame \<and>
    connection_recv abi32 (\<lambda>_. 0) \<lparr>sk_in = frame, sk_out = []\<rparr> =
      Some (\<lparr>rc_ret = 9, rc_oc = Some OC_QUANTUM_SLEEP, rc_msg = None\<rparr>, \<lparr>sk_in = [5], sk_out = []\<rparr>)"
proof -
  have m: "message_size abi32 OC_QUANTUM_SLEEP [5] = Some 1"
    by (simp add: message_size_def code_lists source_consts)
  have "connection_send abi32 OC_QUANTUM_SLEEP (Mem [5]) \<lparr>sk_in = [], sk_out = []\<rparr> =
     Some (6, \<lparr>sk_in = [], sk_out = [OC_QUANTUM_SLEEP] @ u32_bytes 1 @ [5]\<rparr>)"
    by (simp add: connection_send_def m socket_send_def) (simp add: code_lists source_consts)
  from connection_unreceived_codes [OF this, of "\<lambda>_. 0"] this show ?thesis
    by (simp add: sent_bytes_def m)
qed

end
