(* ===== verification/CPU.thy ===== *)
theory CPU
  imports Memory_Prot Connection
begin

text \<open>
  The CPU process (\<open>cpu/src/cpu.c\<close>, \<open>funcionesCPU.c\<close>, \<open>funcionesParser.c\<close>): the stack index of the running
  process, the primitives the parser calls, the fetch of an instruction and the report to the kernel.
  The global variables of the process are the record \<open>cpu_state\<close>; its connections are the sockets to the
  kernel and to the memory process.  The parser (\<open>analizadorLinea\<close>), the string and list functions of
  so-commons are parameters (\<open>cpu_lib\<close>).  \<open>None\<close> is undefined behaviour: a null pointer that is followed,
  a read or write outside an object, a division by zero.  Logging and \<open>usleep\<close> are left out.
\<close>

section \<open>State\<close>

definition EC_SIN_ESPACIO_MEMORIA :: int where [source_consts]: "EC_SIN_ESPACIO_MEMORIA = -24"
definition EC_ALOCAR_MUY_GRANDE :: int where [source_consts]: "EC_ALOCAR_MUY_GRANDE = -8"
definition EC_EXCEPCION_MEMORIA :: int where [source_consts]: "EC_EXCEPCION_MEMORIA = -5"
definition EC_STACKOVERFLOW :: int where [source_consts]: "EC_STACKOVERFLOW = -10"
definition EC_ERROR_CONEXION :: int where [source_consts]: "EC_ERROR_CONEXION = -19"
definition VAR_STACK :: int where [source_consts]: "VAR_STACK = 0"
definition ARG_STACK :: int where [source_consts]: "ARG_STACK = 1"

record cpu_lib =
  stack_ops :: "t_element_stack t_list_ops"
  av_ops :: "t_args_vars t_list_ops"
  list_find :: "t_args_vars list \<Rightarrow> (t_args_vars \<Rightarrow> bool) \<Rightarrow> t_args_vars option"
  dict :: dict_ops
  string_trim :: "c_str \<Rightarrow> c_str"

record t_page_offset =
  po_page :: u32
  po_offset :: u32

record cpu_state =
  pcb :: t_PCB
  nextPageOffsetInStack :: t_page_offset
  pagesize :: u32
  cpu_stack_size :: u32
  server_socket_kernel :: sock
  server_socket_memoria :: sock
  flagDesconeccion :: bool

definition set_exit_code :: "int \<Rightarrow> cpu_state \<Rightarrow> cpu_state" where
  "set_exit_code c st = st\<lparr>pcb := (pcb st)\<lparr>exit_code := word_of_int c\<rparr>\<rparr>"

definition pid_int :: "cpu_state \<Rightarrow> u32" where
  "pid_int st = ucast (pcb_pid (pcb st))"

section \<open>The stack index\<close>

definition stack_push :: "cpu_lib \<Rightarrow> t_element_stack \<Rightarrow> cpu_state \<Rightarrow> cpu_state" where
  "stack_push C element st =
     st\<lparr>pcb := (pcb st)\<lparr>indice_stack := list_add (stack_ops C) (indice_stack (pcb st)) element,
                        pcb_SP := pcb_SP (pcb st) + 1\<rparr>\<rparr>"

definition stack_pop :: "cpu_lib \<Rightarrow> cpu_state \<Rightarrow> (t_element_stack \<times> cpu_state) option" where
  "stack_pop C st =
     (let stack = indice_stack (pcb st) in
      if length stack \<le> unat (pcb_SP (pcb st)) then None
      else (case list_remove (stack_ops C) stack (unat (pcb_SP (pcb st))) of
              (elemento, stack') \<Rightarrow>
                Some (elemento, st\<lparr>pcb := (pcb st)\<lparr>indice_stack := stack', pcb_SP := pcb_SP (pcb st) - 1\<rparr>\<rparr>)))"

text \<open>
  \<open>nuevoContexto\<close> returns a pointer to the element it appended; its callers then assign fields of it.
  The fields to assign are the argument here.
\<close>

definition nuevoContexto :: "cpu_lib \<Rightarrow> u32 \<Rightarrow> posicion_memoria \<Rightarrow> cpu_state \<Rightarrow> cpu_state" where
  "nuevoContexto C retPos retVar st =
     stack_push C \<lparr>es_retPos = retPos, es_retVar = retVar, es_args = [], es_vars = []\<rparr> st"

definition no_pos :: posicion_memoria where
  "no_pos = \<lparr>pm_pagina = 0, pm_offset = 0, pm_size = 0\<rparr>"

definition agregarAStack :: "cpu_lib \<Rightarrow> t_args_vars \<Rightarrow> int \<Rightarrow> cpu_state \<Rightarrow> cpu_state option" where
  "agregarAStack C new_arg_var tipo st =
     (let stack = indice_stack (pcb st); i = unat (pcb_SP (pcb st)) in
      if length stack \<le> i then None
      else
        (let e = list_get (stack_ops C) stack i;
             e' = (if tipo = VAR_STACK then e\<lparr>es_vars := list_add (av_ops C) (es_vars e) new_arg_var\<rparr>
                   else if tipo = ARG_STACK then e\<lparr>es_args := list_add (av_ops C) (es_args e) new_arg_var\<rparr>
                   else e)
         in Some (st\<lparr>pcb := (pcb st)\<lparr>indice_stack := stack[i := e']\<rparr>\<rparr>)))"

text \<open>The position of the last argument or variable of the context at \<open>sp\<close>, or of an earlier one.\<close>

definition last_pos :: "cpu_lib \<Rightarrow> u32 \<Rightarrow> t_element_stack \<Rightarrow> posicion_memoria" where
  "last_pos C first_page e =
     (let resp = (if 0 < length (es_args e)
                  then (let l = list_get (av_ops C) (es_args e) (length (es_args e) - 1)
                        in \<lparr>pm_pagina = av_pagina l, pm_offset = av_offset l, pm_size = av_size l\<rparr>)
                  else \<lparr>pm_pagina = first_page, pm_offset = 0, pm_size = 0\<rparr>)
      in if 0 < length (es_vars e)
         then (let l = list_get (av_ops C) (es_vars e) (length (es_vars e) - 1)
               in if sint (pm_pagina resp) < sint (av_pagina l)
                  then \<lparr>pm_pagina = av_pagina l, pm_offset = av_offset l, pm_size = av_size l\<rparr>
                  else if pm_pagina resp = av_pagina l then
                    (if sint (pm_offset resp) < sint (av_offset l)
                     then resp\<lparr>pm_offset := av_offset l, pm_size := av_size l\<rparr>
                     else if pm_size resp = 0 then resp\<lparr>pm_offset := pm_offset resp + av_size l\<rparr>
                     else resp)
                  else resp)
         else resp)"

fun buscoPos_recursiva :: "cpu_lib \<Rightarrow> t_PCB \<Rightarrow> nat \<Rightarrow> posicion_memoria option" where
  "buscoPos_recursiva C p sp =
     (let none = \<lparr>pm_pagina = ucast (cantidad_paginas p), pm_offset = 0, pm_size = 0\<rparr> in
      if indice_stack p = [] then Some none
      else if length (indice_stack p) \<le> sp then None
      else
        (let resp = last_pos C (ucast (cantidad_paginas p)) (list_get (stack_ops C) (indice_stack p) sp) in
         if resp = none
         then (case sp of 0 \<Rightarrow> Some resp | Suc n \<Rightarrow> buscoPos_recursiva C p n)
         else Some resp))"

declare buscoPos_recursiva.simps [simp del]

definition getNextPosStack :: "cpu_lib \<Rightarrow> cpu_state \<Rightarrow> cpu_state option" where
  "getNextPosStack C st = do {
     resp \<leftarrow> buscoPos_recursiva C (pcb st) (unat (pcb_SP (pcb st)));
     Some (st\<lparr>nextPageOffsetInStack :=
       (if pagesize st < pm_offset resp + pm_size resp
        then \<lparr>po_page = pm_pagina resp + 1, po_offset = 0\<rparr>
        else \<lparr>po_page = pm_pagina resp, po_offset = pm_offset resp + pm_size resp\<rparr>)\<rparr>) }"

definition updatePageOffsetAvailable :: "u32 \<Rightarrow> cpu_state \<Rightarrow> cpu_state" where
  "updatePageOffsetAvailable sz st =
     (let n = nextPageOffsetInStack st in
      if pagesize st < po_offset n + sz
      then st\<lparr>nextPageOffsetInStack := \<lparr>po_page = po_page n + 1, po_offset = 0\<rparr>\<rparr>
      else st)"

definition getPageofPos :: "u32 \<Rightarrow> cpu_state \<Rightarrow> u32 option" where
  "getPageofPos pos st = (if pagesize st = 0 then None else Some (pos div pagesize st))"

definition getOffsetofPos :: "u32 \<Rightarrow> cpu_state \<Rightarrow> u32 option" where
  "getOffsetofPos pos st = do { page \<leftarrow> getPageofPos pos st; Some (pos - page * pagesize st) }"

definition calcularPaginaProxInstruccion :: "cpu_state \<Rightarrow> int option" where
  "calcularPaginaProxInstruccion st =
     (let n = unat (pcb_PC (pcb st));
          bytes_codigo = sum_list (map (\<lambda>i. sint (ic_size i)) (take n (indice_codigo (pcb st))))
      in if pagesize st = 0 \<or> length (indice_codigo (pcb st)) < n \<or> \<not> int_ok bytes_codigo then None
         else Some (c_div bytes_codigo (sint (pagesize st))))"

section \<open>Variables and control flow\<close>

definition is_arg_name :: "byte \<Rightarrow> bool" where
  "is_arg_name c \<longleftrightarrow> 48 \<le> c \<and> c \<le> 57"

text \<open>The position of a variable; the product and the sum are of type \<open>int\<close>.\<close>

definition posicion_int :: "u32 \<Rightarrow> u32 \<Rightarrow> cpu_state \<Rightarrow> u32 option" where
  "posicion_int pagina offset st =
     (if int_ok (sint pagina * sint (pagesize st)) \<and> int_ok (sint pagina * sint (pagesize st) + sint offset)
      then Some (pagina * pagesize st + offset) else None)"

definition definirVariable :: "cpu_lib \<Rightarrow> byte \<Rightarrow> cpu_state \<Rightarrow> (u32 \<times> cpu_state) option" where
  "definirVariable C identificador_variable st =
     (let st1 = updatePageOffsetAvailable 4 st;
          n = nextPageOffsetInStack st1;
          newvar = \<lparr>av_id = identificador_variable, av_pagina = po_page n, av_offset = po_offset n, av_size = 4\<rparr>
      in do {
        st2 \<leftarrow> agregarAStack C newvar (if is_arg_name identificador_variable then ARG_STACK else VAR_STACK) st1;
        (let st3 = st2\<lparr>nextPageOffsetInStack := n\<lparr>po_offset := po_offset n + 4\<rparr>\<rparr> in
         if po_page n = cpu_stack_size st3 + ucast (cantidad_paginas (pcb st3))
         then Some (0, set_exit_code EC_STACKOVERFLOW st3)
         else map_option (\<lambda>posicion. (posicion, st3)) (posicion_int (po_page n) (po_offset n) st3)) })"

definition jump :: "cpu_lib \<Rightarrow> c_str \<Rightarrow> cpu_state \<Rightarrow> cpu_state option" where
  "jump C etiqueta st = do {
     posicion \<leftarrow> dictionary_get (dict C) (indice_etiquetas (pcb st)) etiqueta;
     Some (st\<lparr>pcb := (pcb st)\<lparr>pcb_PC := ucast posicion - 1\<rparr>\<rparr>) }"

definition llamarSinRetorno :: "cpu_lib \<Rightarrow> c_str \<Rightarrow> cpu_state \<Rightarrow> cpu_state option" where
  "llamarSinRetorno C etiqueta st =
     jump C etiqueta (nuevoContexto C (ucast (pcb_PC (pcb st))) no_pos st)"

definition llamarConRetorno :: "cpu_lib \<Rightarrow> c_str \<Rightarrow> u32 \<Rightarrow> cpu_state \<Rightarrow> cpu_state option" where
  "llamarConRetorno C etiqueta donde_retornar st = do {
     off \<leftarrow> getOffsetofPos donde_retornar st;
     page \<leftarrow> getPageofPos donde_retornar st;
     jump C etiqueta (nuevoContexto C (ucast (pcb_PC (pcb st)))
       \<lparr>pm_pagina = page, pm_offset = off, pm_size = 4\<rparr> st) }"

definition irAlLabel :: "cpu_lib \<Rightarrow> c_str \<Rightarrow> cpu_state \<Rightarrow> cpu_state option" where
  "irAlLabel C nombre_etiqueta st = jump C nombre_etiqueta st"

definition obtenerPosicionVariable :: "cpu_lib \<Rightarrow> byte \<Rightarrow> cpu_state \<Rightarrow> u32 option" where
  "obtenerPosicionVariable C nombre_variable st =
     (let stack = indice_stack (pcb st); i = unat (pcb_SP (pcb st)) in
      if length stack \<le> i then None
      else
        (let e = list_get (stack_ops C) stack i in do {
           reg \<leftarrow> list_find C (if is_arg_name nombre_variable then es_args e else es_vars e) (\<lambda>r. av_id r = nombre_variable);
           posicion_int (av_pagina reg) (av_offset reg) st }))"

section \<open>Access to memory\<close>

definition dereferenciar :: "storage \<Rightarrow> u32 \<Rightarrow> cpu_state \<Rightarrow> (u32 \<times> cpu_state) option" where
  "dereferenciar junk direccion_variable st = do {
     page \<leftarrow> getPageofPos direccion_variable st;
     offset \<leftarrow> getOffsetofPos direccion_variable st;
     (case memory_read junk (pid_int st) page offset 4 (server_socket_memoria st) of
        (r, s) \<Rightarrow>
          (case rr_buffer r of
             None \<Rightarrow> None
           | Some b \<Rightarrow> if length b < 4 then None
                       else Some (bytes_u32 (take 4 b), st\<lparr>server_socket_memoria := s\<rparr>))) }"

definition asignar :: "storage \<Rightarrow> u32 \<Rightarrow> u32 \<Rightarrow> cpu_state \<Rightarrow> cpu_state option" where
  "asignar junk puntero valor_variable st = do {
     page \<leftarrow> getPageofPos puntero st;
     offset \<leftarrow> getOffsetofPos puntero st;
     (resp, s) \<leftarrow> memory_write junk (pid_int st) page offset 4 4 (u32_bytes valor_variable) (server_socket_memoria st);
     (let st1 = st\<lparr>server_socket_memoria := s\<rparr> in
      Some (if resp = DISCONNECTED_SERVER then set_exit_code EC_ERROR_CONEXION st1
            else if resp = PAGE_FAULT then set_exit_code EC_EXCEPCION_MEMORIA st1
            else st1)) }"

definition retornar :: "cpu_lib \<Rightarrow> storage \<Rightarrow> u32 \<Rightarrow> cpu_state \<Rightarrow> cpu_state option" where
  "retornar C junk retorno st = do {
     (contexto, st1) \<leftarrow> stack_pop C st;
     (let retVar = es_retVar contexto in do {
        (resp, s) \<leftarrow> memory_write junk (pid_int st1) (pm_pagina retVar) (pm_offset retVar) (pm_size retVar) (pm_size retVar)
                       (u32_bytes retorno) (server_socket_memoria st1);
        Some (st1\<lparr>server_socket_memoria := s, pcb := (pcb st1)\<lparr>pcb_PC := ucast (es_retPos contexto)\<rparr>\<rparr>) }) }"

definition finalizar :: "cpu_lib \<Rightarrow> cpu_state \<Rightarrow> cpu_state option" where
  "finalizar C st = do {
     (contexto, st1) \<leftarrow> stack_pop C st;
     Some (if indice_stack (pcb st1) = [] then st1\<lparr>pcb := (pcb st1)\<lparr>exit_code := ucast OC_TERMINA_PROGRAMA\<rparr>\<rparr>
           else st1\<lparr>pcb := (pcb st1)\<lparr>pcb_PC := ucast (es_retPos contexto)\<rparr>\<rparr>) }"

section \<open>Requests to the kernel\<close>

definition kernel_send :: "abi \<Rightarrow> byte \<Rightarrow> message \<Rightarrow> cpu_state \<Rightarrow> cpu_state option" where
  "kernel_send A oc msg st =
     map_option (\<lambda>(_, s). st\<lparr>server_socket_kernel := s\<rparr>) (connection_send A oc msg (server_socket_kernel st))"

text \<open>
  The answer of the kernel; \<open>old\<close> is what the caller's pointer denotes when no message is assigned.
\<close>

definition kernel_recv :: "abi \<Rightarrow> storage \<Rightarrow> byte list \<Rightarrow> cpu_state \<Rightarrow> (byte list \<times> cpu_state) option" where
  "kernel_recv A junk old st = do {
     (r, s) \<leftarrow> connection_recv A junk (server_socket_kernel st);
     (case rc_msg r of
        None \<Rightarrow> Some (old, st\<lparr>server_socket_kernel := s\<rparr>)
      | Some (Raw b) \<Rightarrow> Some (b, st\<lparr>server_socket_kernel := s\<rparr>)
      | Some (Archivo _) \<Rightarrow> None) }"

definition kernel_call :: "abi \<Rightarrow> storage \<Rightarrow> byte \<Rightarrow> message \<Rightarrow> cpu_state \<Rightarrow> (byte list \<times> cpu_state) option" where
  "kernel_call A junk oc msg st = do { st1 \<leftarrow> kernel_send A oc msg st; kernel_recv A junk (junk_bytes junk 4) st1 }"

definition obtenerValorCompartida :: "abi \<Rightarrow> storage \<Rightarrow> c_str \<Rightarrow> cpu_state \<Rightarrow> (u32 \<times> cpu_state) option" where
  "obtenerValorCompartida A junk variable st = do {
     (b, st1) \<leftarrow> kernel_call A junk OC_FUNCION_LEER_VARIABLE (Mem (variable @ [0])) st;
     v \<leftarrow> c_int_at b;
     Some (v, st1) }"

definition asignarValorCompartida :: "abi \<Rightarrow> c_str \<Rightarrow> u32 \<Rightarrow> cpu_state \<Rightarrow> (u32 \<times> cpu_state) option" where
  "asignarValorCompartida A variable valor st = do {
     st1 \<leftarrow> kernel_send A OC_FUNCION_ESCRIBIR_VARIABLE
       (Mem (u32_bytes (word_of_nat (length variable)) @ variable @ u32_bytes valor)) st;
     Some (valor, st1) }"

definition alocar :: "abi \<Rightarrow> storage \<Rightarrow> u32 \<Rightarrow> cpu_state \<Rightarrow> (u32 \<times> cpu_state) option" where
  "alocar A junk espacio st = do {
     st1 \<leftarrow> kernel_send A OC_FUNCION_RESERVAR (Mem (u32_bytes (pid_int st) @ u32_bytes espacio)) st;
     (b, st2) \<leftarrow> kernel_recv A junk (junk_bytes junk 8) st1;
     puntero \<leftarrow> c_int_at b;
     cod_error \<leftarrow> c_int_at (drop 4 b);
     Some (if cod_error = 1 then (0, set_exit_code EC_ALOCAR_MUY_GRANDE st2)
           else if cod_error = 2 then (0, set_exit_code EC_SIN_ESPACIO_MEMORIA st2)
           else (puntero, st2)) }"

text \<open>\<open>nro_pagina\<close> of the request is not assigned.\<close>

definition liberar :: "abi \<Rightarrow> storage \<Rightarrow> u32 \<Rightarrow> cpu_state \<Rightarrow> cpu_state option" where
  "liberar A junk puntero st =
     map_option snd (kernel_call A junk OC_FUNCION_LIBERAR
       (Mem (u32_bytes (pid_int st) @ map junk [4..<8] @ u32_bytes puntero)) st)"

text \<open>A negative \<open>int\<close> answer becomes the exit code of the process.\<close>

definition exit_if_negative :: "u32 \<Rightarrow> cpu_state \<Rightarrow> cpu_state" where
  "exit_if_negative r st = (if sint r < 0 then set_exit_code (sint r) st else st)"

record t_banderas =
  bandera_creacion :: bool
  bandera_lectura :: bool
  bandera_escritura :: bool

definition banderas_bytes :: "t_banderas \<Rightarrow> byte list" where
  "banderas_bytes f = map (\<lambda>b. if b then 1 else 0) [bandera_creacion f, bandera_lectura f, bandera_escritura f]"

definition abrir :: "abi \<Rightarrow> storage \<Rightarrow> c_str \<Rightarrow> t_banderas \<Rightarrow> cpu_state \<Rightarrow> (u32 \<times> cpu_state) option" where
  "abrir A junk direccion banderas st = do {
     (b, st1) \<leftarrow> kernel_call A junk OC_FUNCION_ABRIR
       (Mem (u32_bytes (word_of_nat (length direccion)) @ u16_bytes (pcb_pid (pcb st)) @ direccion @ banderas_bytes banderas)) st;
     fd_proceso \<leftarrow> c_int_at b;
     Some (fd_proceso, exit_if_negative fd_proceso st1) }"

text \<open>A \<open>t_archivo\<close>: descriptor, pointer, size and process; what is not assigned is indeterminate.\<close>

definition archivo_bytes :: "abi \<Rightarrow> storage \<Rightarrow> u32 \<Rightarrow> u32 \<Rightarrow> byte list" where
  "archivo_bytes A junk descriptor p =
     u32_bytes descriptor @ map junk [4..<sz_archivo A - 4] @ u32_bytes p"

definition borrar :: "abi \<Rightarrow> storage \<Rightarrow> u32 \<Rightarrow> cpu_state \<Rightarrow> cpu_state option" where
  "borrar A junk descriptor st = do {
     (b, st1) \<leftarrow> kernel_call A junk OC_FUNCION_BORRAR (Mem (archivo_bytes A junk descriptor (pid_int st))) st;
     resp \<leftarrow> c_int_at b;
     Some (exit_if_negative resp st1) }"

definition cerrar :: "abi \<Rightarrow> storage \<Rightarrow> u32 \<Rightarrow> cpu_state \<Rightarrow> cpu_state option" where
  "cerrar A junk descriptor st = do {
     (b, st1) \<leftarrow> kernel_call A junk OC_FUNCION_CERRAR (Mem (archivo_bytes A (\<lambda>_. 0) descriptor (pid_int st))) st;
     resp \<leftarrow> c_int_at b;
     Some (exit_if_negative resp st1) }"

text \<open>Four bytes are copied from the address of the two-byte \<open>pid\<close>, behind which \<open>PC\<close> lies.\<close>

definition moverCursor :: "abi \<Rightarrow> u32 \<Rightarrow> u32 \<Rightarrow> cpu_state \<Rightarrow> cpu_state option" where
  "moverCursor A descriptor posicion st =
     kernel_send A OC_FUNCION_MOVER_CURSOR
       (Mem (u16_bytes (pcb_pid (pcb st)) @ u16_bytes (pcb_PC (pcb st)) @ u32_bytes descriptor @ u32_bytes posicion)) st"

definition escribir_message :: "abi \<Rightarrow> u32 \<Rightarrow> u32 \<Rightarrow> byte list \<Rightarrow> byte list" where
  "escribir_message A desc p informacion =
     le_bytes (sz_size_t A) (sz_size_t A + 12 + length informacion)
     @ u32_bytes desc @ u32_bytes p @ u32_bytes (word_of_nat (length informacion)) @ informacion"

definition escribir :: "abi \<Rightarrow> storage \<Rightarrow> u32 \<Rightarrow> byte list \<Rightarrow> cpu_state \<Rightarrow> cpu_state option" where
  "escribir A junk desc informacion st = do {
     (b, st1) \<leftarrow> kernel_call A junk OC_FUNCION_ESCRIBIR (Mem (escribir_message A desc (pid_int st) informacion)) st;
     (if b = [] then None
      else Some (if sint (hd b) < 0 then set_exit_code (sint (hd b)) st1 else st1)) }"

definition leer :: "abi \<Rightarrow> storage \<Rightarrow> u32 \<Rightarrow> u32 \<Rightarrow> u32 \<Rightarrow> cpu_state \<Rightarrow> cpu_state option" where
  "leer A junk descriptor informacion tamanio st = do {
     (b, st1) \<leftarrow> kernel_call A junk OC_FUNCION_LEER
       (Mem (u32_bytes descriptor @ u32_bytes informacion @ u32_bytes tamanio @ u32_bytes (pid_int st))) st;
     resultado \<leftarrow> c_int_at b;
     Some (exit_if_negative resultado st1) }"

definition signalParser :: "abi \<Rightarrow> storage \<Rightarrow> c_str \<Rightarrow> cpu_state \<Rightarrow> cpu_state option" where
  "signalParser A junk identificador_semaforo st =
     map_option snd (kernel_call A junk OC_FUNCION_SIGNAL (Mem (identificador_semaforo @ [0])) st)"

definition waitParser :: "abi \<Rightarrow> storage \<Rightarrow> c_str \<Rightarrow> cpu_state \<Rightarrow> cpu_state option" where
  "waitParser A junk identificador_semaforo st =
     map_option snd (kernel_call A junk OC_FUNCION_WAIT (Mem (identificador_semaforo @ [0])) st)"

section \<open>The instruction cycle\<close>

text \<open>The one or two requests that fetch an instruction: page, offset and size of each.\<close>

definition fetch_requests :: "u32 \<Rightarrow> t_indice_codigo \<Rightarrow> (u32 \<times> u32 \<times> u32) list" where
  "fetch_requests ps ic =
     (let page = word_of_int (c_div (sint (ic_offset ic)) (sint ps)) :: u32;
          offset = ic_offset ic - page * ps;
          pageend = word_of_int (c_div (sint (ic_offset ic + ic_size ic)) (sint ps)) :: u32;
          size_to_read = (if sint page < sint pageend then (page + 1) * ps - ic_offset ic else ic_size ic)
      in (page, offset, size_to_read) #
         (if sint page < sint pageend then [(pageend, 0, ic_size ic - size_to_read)] else []))"

text \<open>Copying the answers one behind the other into storage of \<open>n\<close> bytes.\<close>

fun fetch_all ::
    "storage \<Rightarrow> u32 \<Rightarrow> nat \<Rightarrow> (u32 \<times> u32 \<times> u32) list \<Rightarrow> byte list \<Rightarrow> sock \<Rightarrow> (byte list \<times> sock) option" where
  "fetch_all junk p n [] acc s = Some (acc @ map junk [length acc..<n], s)"
| "fetch_all junk p n ((page, off, sz) # reqs) acc s =
     (case memory_read junk p page off sz s of
        (r, s1) \<Rightarrow>
          (case rr_buffer r of
             None \<Rightarrow> if rr_buffer_size r = 0 then fetch_all junk p n reqs acc s1 else None
           | Some b \<Rightarrow> if n < length acc + length b then None else fetch_all junk p n reqs (acc @ b) s1))"

definition fetch_instruction :: "cpu_lib \<Rightarrow> storage \<Rightarrow> cpu_state \<Rightarrow> (c_str \<times> cpu_state) option" where
  "fetch_instruction C junk st =
     (let pc = unat (pcb_PC (pcb st)) in
      if length (indice_codigo (pcb st)) \<le> pc \<or> pagesize st = 0 then None
      else
        (let ic = indice_codigo (pcb st) ! pc; n = unat (ic_size ic) in
         if sint (ic_size ic) \<le> 0 then None
         else do {
           (instruccion, s) \<leftarrow> fetch_all junk (pid_int st) n (fetch_requests (pagesize st) ic) [] (server_socket_memoria st);
           (let text = string_trim C (takeWhile (\<lambda>c. c \<noteq> 0) (instruccion[n - 1 := 0]))
            in Some (if text \<noteq> [] \<and> hd text = 9 then tl text else text, st\<lparr>server_socket_memoria := s\<rparr>)) }))"

definition serializar_y_enviar_PCB :: "abi \<Rightarrow> storage \<Rightarrow> byte \<Rightarrow> cpu_state \<Rightarrow> cpu_state option" where
  "serializar_y_enviar_PCB A junk oc st = do {
     paquete \<leftarrow> pcb_serializer (sz_pcb A) junk (pcb st);
     kernel_send A oc (Stream paquete) st }"

text \<open>What the CPU reports after an instruction: end of the process, disconnection, error, or go on.\<close>

definition report_code :: "cpu_state \<Rightarrow> byte" where
  "report_code st =
     (if exit_code (pcb st) = ucast OC_TERMINA_PROGRAMA then OC_TERMINA_PROGRAMA
      else if flagDesconeccion st then OC_DESCONEX_CPU
      else if sint (exit_code (pcb st)) < 0 then OC_ERROR_EJECUCION_CPU
      else OC_TERMINO_INSTRUCCION)"

end
