(* ===== verification/CPU_Stack.thy ===== *)
theory CPU_Stack
  imports CPU
begin

text \<open>
  The stack of a process as the CPU lays it out: variables of four bytes in the pages behind the code,
  placed upwards, with the position of the next one recomputed from the stack index before every
  instruction.  The lemmas show that this position is behind every variable, that a new variable
  overlaps no other one, that the limit of the stack is noticed, and that calls and returns are matched.
\<close>

section \<open>The library\<close>

locale cpu_commons =
  fixes C :: cpu_lib
  assumes stack_laws: "t_list_laws (stack_ops C)"
    and av_laws: "t_list_laws (av_ops C)"
    and list_find: "list_find C l P = List.find P l"
    and dict_laws: "dictionary_laws (dict C)"

sublocale cpu_commons \<subseteq> sl: t_list_laws "stack_ops C"
  by (rule stack_laws)

sublocale cpu_commons \<subseteq> al: t_list_laws "av_ops C"
  by (rule av_laws)

sublocale cpu_commons \<subseteq> dl: dictionary_laws "dict C"
  by (rule dict_laws)

definition seq_cpu_lib :: cpu_lib where
  "seq_cpu_lib = \<lparr>stack_ops = seq_list_ops, av_ops = seq_list_ops, list_find = (\<lambda>l P. List.find P l),
     dict = seq_dict_ops, string_trim = (\<lambda>s. s)\<rparr>"

interpretation seq_cpu: cpu_commons seq_cpu_lib
  by (rule cpu_commons.intro) (simp_all add: seq_cpu_lib_def seq_ops.t_list_laws_axioms seq_dict.dictionary_laws_axioms)

section \<open>Positions\<close>

definition vars_of :: "t_element_stack \<Rightarrow> t_args_vars list" where
  "vars_of e = es_args e @ es_vars e"

definition all_vars :: "cpu_state \<Rightarrow> t_args_vars set" where
  "all_vars st = (\<Union>e \<in> set (indice_stack (pcb st)). set (vars_of e))"

definition var_pos :: "cpu_state \<Rightarrow> t_args_vars \<Rightarrow> nat" where
  "var_pos st x = unat (av_pagina x) * unat (pagesize st) + unat (av_offset x)"

definition first_page :: "cpu_state \<Rightarrow> nat" where
  "first_page st = unat (cantidad_paginas (pcb st))"

definition page_limit :: "cpu_state \<Rightarrow> nat" where
  "page_limit st = first_page st + unat (cpu_stack_size st)"

definition var_ok :: "cpu_state \<Rightarrow> t_args_vars \<Rightarrow> bool" where
  "var_ok st x \<longleftrightarrow> av_size x = 4 \<and> unat (av_offset x) + 4 \<le> unat (pagesize st)
     \<and> first_page st \<le> unat (av_pagina x) \<and> unat (av_pagina x) < page_limit st"

definition sizes_ok :: "cpu_state \<Rightarrow> bool" where
  "sizes_ok st \<longleftrightarrow> 4 \<le> unat (pagesize st) \<and> unat (pagesize st) < 2 ^ 31 - 4 \<and> 0 < cpu_stack_size st \<and> page_limit st < 2 ^ 31
     \<and> page_limit st * unat (pagesize st) < 2 ^ 31"

text \<open>
  The invariant of the stack index: the top context is the one \<open>SP\<close> names; variables lie inside the
  pages of the stack, and are placed upwards within each list and from context to context.
\<close>

definition stack_inv :: "cpu_state \<Rightarrow> bool" where
  "stack_inv st \<longleftrightarrow> sizes_ok st \<and> length (indice_stack (pcb st)) = Suc (unat (pcb_SP (pcb st)))
     \<and> (\<forall>x \<in> all_vars st. var_ok st x)
     \<and> (\<forall>e \<in> set (indice_stack (pcb st)). sorted_wrt (\<lambda>x y. var_pos st x + 4 \<le> var_pos st y) (es_args e)
          \<and> sorted_wrt (\<lambda>x y. var_pos st x + 4 \<le> var_pos st y) (es_vars e))
     \<and> sorted_wrt (\<lambda>e f. \<forall>x \<in> set (vars_of e). \<forall>y \<in> set (vars_of f). var_pos st x + 4 \<le> var_pos st y)
         (indice_stack (pcb st))"

text \<open>The next position is inside the stack and behind every variable.\<close>

definition next_pos :: "cpu_state \<Rightarrow> nat" where
  "next_pos st = unat (po_page (nextPageOffsetInStack st)) * unat (pagesize st) + unat (po_offset (nextPageOffsetInStack st))"

definition next_inv :: "cpu_state \<Rightarrow> bool" where
  "next_inv st \<longleftrightarrow> first_page st \<le> unat (po_page (nextPageOffsetInStack st))
     \<and> unat (po_page (nextPageOffsetInStack st)) < page_limit st
     \<and> unat (po_offset (nextPageOffsetInStack st)) \<le> unat (pagesize st)
     \<and> (\<forall>x \<in> all_vars st. var_pos st x + 4 \<le> next_pos st)"

lemma sint_small_u32:
  assumes "unat (w :: u32) < 2 ^ 31"
  shows "sint w = int (unat w)"
proof -
  have "int (unat w) < 2 ^ 31" using assms by (simp only: of_nat_less_numeral_power_cancel_iff)
  then have "signed_take_bit 31 (uint w) = uint w" using uint_ge_0 [of w] by (intro signed_take_bit_int_eq_self) (linarith, simp)
  then show ?thesis by (simp add: sint_uint)
qed

lemma sint_less_unat:
  assumes "unat (a :: u32) < 2 ^ 31" "unat (b :: u32) < 2 ^ 31"
  shows "sint a < sint b \<longleftrightarrow> unat a < unat b"
  using sint_small_u32 [OF assms(1)] sint_small_u32 [OF assms(2)] by linarith

lemma posicion_int_inside:
  assumes s: "sizes_ok st" and p: "unat pagina < page_limit st" and off: "unat offset + 4 \<le> unat (pagesize st)"
  shows "posicion_int pagina offset st = Some (pagina * pagesize st + offset)"
proof -
  let ?ps = "unat (pagesize st)"
  have b: "page_limit st * ?ps < 2 ^ 31" "page_limit st < 2 ^ 31" "?ps < 2 ^ 31" using s by (auto simp: sizes_ok_def)
  have "Suc (unat pagina) * ?ps \<le> page_limit st * ?ps" using p by (intro mult_le_mono1) simp
  with b(1) off have m: "unat pagina * ?ps + unat offset < 2 ^ 31" by simp
  have si: "sint pagina = int (unat pagina)" "sint (pagesize st) = int ?ps" "sint offset = int (unat offset)"
    using p b off by (simp_all add: sint_small_u32 del: of_nat_unat)
  have "int (unat pagina * ?ps + unat offset) < 2 ^ 31" using m by (simp only: of_nat_less_numeral_power_cancel_iff)
  then have "int (unat pagina) * int ?ps + int (unat offset) < 2 ^ 31" by (simp only: of_nat_add of_nat_mult)
  moreover have "0 \<le> int (unat pagina) * int ?ps" "0 \<le> int (unat offset)" by simp_all
  ultimately have "int_ok (int (unat pagina) * int ?ps)" "int_ok (int (unat pagina) * int ?ps + int (unat offset))"
    unfolding int_ok_def by linarith+
  then show ?thesis unfolding posicion_int_def si by simp
qed

lemma unat_ucast_u16 [simp]: "unat (ucast (w :: u16) :: u32) = unat w"
proof -
  have "unat w < 2 ^ 32" using unat_u16_less [of w] by simp
  then show ?thesis by (simp add: unsigned_ucast_eq take_bit_nat_eq_self)
qed

lemma pos_less_page:
  assumes "(p :: nat) < q" "o1 + 4 \<le> ps"
  shows "p * ps + o1 + 4 \<le> q * ps + o2"
proof -
  have "Suc p * ps \<le> q * ps" using assms(1) by (intro mult_le_mono1) simp
  with assms(2) show ?thesis by simp
qed

lemma last_is_top:
  assumes "sorted_wrt (\<lambda>x y. var_pos st x + 4 \<le> var_pos st y) l" "x \<in> set l"
  shows "var_pos st x \<le> var_pos st (last l)"
proof -
  obtain i where i: "i < length l" "x = l ! i" using assms(2) by (auto simp: in_set_conv_nth)
  then show ?thesis
  proof (cases "i = length l - 1")
    case True
    then show ?thesis using i by (cases l) (auto simp: last_conv_nth)
  next
    case False
    with i have "var_pos st (l ! i) + 4 \<le> var_pos st (l ! (length l - 1))"
      using sorted_wrt_nth_less [OF assms(1), of i "length l - 1"] by simp
    then show ?thesis using i by (cases l) (auto simp: last_conv_nth)
  qed
qed

definition pm_of :: "t_args_vars \<Rightarrow> posicion_memoria" where
  "pm_of x = \<lparr>pm_pagina = av_pagina x, pm_offset = av_offset x, pm_size = av_size x\<rparr>"

definition pm_end :: "cpu_state \<Rightarrow> posicion_memoria \<Rightarrow> nat" where
  "pm_end st r = unat (pm_pagina r) * unat (pagesize st) + unat (pm_offset r) + unat (pm_size r)"

definition pm_fits :: "cpu_state \<Rightarrow> posicion_memoria \<Rightarrow> bool" where
  "pm_fits st r \<longleftrightarrow> first_page st \<le> unat (pm_pagina r) \<and> unat (pm_pagina r) < page_limit st
     \<and> unat (pm_offset r) + unat (pm_size r) \<le> unat (pagesize st)"

definition no_vars_pos :: "cpu_state \<Rightarrow> posicion_memoria" where
  "no_vars_pos st = \<lparr>pm_pagina = ucast (cantidad_paginas (pcb st)), pm_offset = 0, pm_size = 0\<rparr>"

definition push_var :: "t_args_vars \<Rightarrow> t_element_stack \<Rightarrow> t_element_stack" where
  "push_var v e = (if is_arg_name (av_id v) then e\<lparr>es_args := es_args e @ [v]\<rparr> else e\<lparr>es_vars := es_vars e @ [v]\<rparr>)"

lemma set_vars_push [simp]: "set (vars_of (push_var v e)) = insert v (set (vars_of e))"
  by (auto simp: push_var_def vars_of_def)

text \<open>Where \<open>definirVariable\<close> puts the next variable.\<close>

definition new_var :: "byte \<Rightarrow> cpu_state \<Rightarrow> t_args_vars" where
  "new_var i st = (let n = nextPageOffsetInStack (updatePageOffsetAvailable 4 st)
     in \<lparr>av_id = i, av_pagina = po_page n, av_offset = po_offset n, av_size = 4\<rparr>)"

context cpu_commons
begin

lemma last_get: "l \<noteq> [] \<Longrightarrow> list_get (av_ops C) l (length l - Suc 0) = last l"
  by (simp add: al.list_get last_conv_nth)

lemma pm_of_var:
  assumes "var_ok st x"
  shows "pm_fits st (pm_of x)" "pm_end st (pm_of x) = var_pos st x + 4" "pm_of x \<noteq> no_vars_pos st"
  using assms by (auto simp: var_ok_def pm_fits_def pm_of_def pm_end_def var_pos_def no_vars_pos_def)

lemma var_ok_compare:
  assumes "sizes_ok st" "var_ok st x" "var_ok st y"
  shows "sint (av_pagina x) < sint (av_pagina y) \<longleftrightarrow> unat (av_pagina x) < unat (av_pagina y)"
    "sint (av_offset x) < sint (av_offset y) \<longleftrightarrow> unat (av_offset x) < unat (av_offset y)"
    "sint (ucast (cantidad_paginas (pcb st)) :: u32) < sint (av_pagina x) \<longleftrightarrow> first_page st < unat (av_pagina x)"
    "0 < sint (av_offset x) \<longleftrightarrow> 0 < unat (av_offset x)"
proof -
  have "unat (av_offset x) < 2 ^ 31" using assms by (auto simp: sizes_ok_def var_ok_def)
  then show "0 < sint (av_offset x) \<longleftrightarrow> 0 < unat (av_offset x)" using sint_less_unat [of 0 "av_offset x"] by simp
qed (use assms in \<open>auto simp: var_ok_def sizes_ok_def sint_less_unat first_page_def\<close>)

lemma last_pos_args:
  assumes sz: "sizes_ok st" and ok: "\<forall>x \<in> set (vars_of e). var_ok st x"
    and "es_args e \<noteq> []"
  shows "last_pos C fp e = pm_of (last (es_args e)) \<and>
      (es_vars e = [] \<or> var_pos st (last (es_vars e)) \<le> var_pos st (last (es_args e))) \<or>
    last_pos C fp e = pm_of (last (es_vars e)) \<and> es_vars e \<noteq> [] \<and>
      var_pos st (last (es_args e)) \<le> var_pos st (last (es_vars e))"
proof (cases "es_vars e = []")
  case True
  then show ?thesis using assms(3) by (simp add: last_pos_def last_get pm_of_def Let_def)
next
  case False
  let ?a = "last (es_args e)" and ?v = "last (es_vars e)"
  have a: "var_ok st ?a" and v: "var_ok st ?v" using ok assms(3) False by (auto simp: vars_of_def)
  note c = var_ok_compare [OF sz a v]
  have sz4: "av_size ?a = 4" "av_size ?v = 4" using a v by (auto simp: var_ok_def)
  consider "unat (av_pagina ?a) < unat (av_pagina ?v)" | "av_pagina ?a = av_pagina ?v" "unat (av_offset ?a) < unat (av_offset ?v)"
    | "av_pagina ?a = av_pagina ?v" "unat (av_offset ?v) \<le> unat (av_offset ?a)" | "unat (av_pagina ?v) < unat (av_pagina ?a)"
    by (metis linorder_neqE_nat not_less word_unat_eq_iff)
  then show ?thesis
  proof cases
    case 1
    then have "var_pos st ?a \<le> var_pos st ?v"
      using pos_less_page [of "unat (av_pagina ?a)" "unat (av_pagina ?v)" "unat (av_offset ?a)" "unat (pagesize st)" "unat (av_offset ?v)"] a
      by (simp add: var_pos_def var_ok_def)
    with 1 c(1) assms(3) False show ?thesis by (simp add: last_pos_def last_get pm_of_def Let_def)
  next
    case 2
    with c(2) assms(3) False show ?thesis by (simp add: last_pos_def last_get pm_of_def Let_def var_pos_def)
  next
    case 3
    with c(2) assms(3) False sz4 show ?thesis by (simp add: last_pos_def last_get pm_of_def Let_def var_pos_def)
  next
    case 4
    then have "var_pos st ?v \<le> var_pos st ?a"
      using pos_less_page [of "unat (av_pagina ?v)" "unat (av_pagina ?a)" "unat (av_offset ?v)" "unat (pagesize st)" "unat (av_offset ?a)"] v
      by (simp add: var_pos_def var_ok_def)
    moreover have "\<not> sint (av_pagina ?a) < sint (av_pagina ?v)" "av_pagina ?a \<noteq> av_pagina ?v" using 4 c(1) by auto
    ultimately show ?thesis using assms(3) False by (simp add: last_pos_def last_get pm_of_def Let_def)
  qed
qed

lemma last_pos_no_args:
  assumes sz: "sizes_ok st" and ok: "\<forall>x \<in> set (vars_of e). var_ok st x"
    and "es_args e = []" "es_vars e \<noteq> []" and r: "r = last_pos C (ucast (cantidad_paginas (pcb st))) e"
  shows "pm_fits st r \<and> pm_end st r = var_pos st (last (es_vars e)) + 4 \<and> r \<noteq> no_vars_pos st"
proof -
  let ?v = "last (es_vars e)"
  have v: "var_ok st ?v" using ok assms(4) by (auto simp: vars_of_def)
  note c = var_ok_compare [OF sz v v]
  have sz4: "av_size ?v = 4" using v by (auto simp: var_ok_def)
  consider "first_page st < unat (av_pagina ?v)" | "ucast (cantidad_paginas (pcb st)) = av_pagina ?v" "0 < unat (av_offset ?v)"
    | "ucast (cantidad_paginas (pcb st)) = av_pagina ?v" "av_offset ?v = 0"
  proof -
    have "first_page st \<le> unat (av_pagina ?v)" using v by (simp add: var_ok_def)
    moreover have "ucast (cantidad_paginas (pcb st)) = av_pagina ?v" if "first_page st = unat (av_pagina ?v)"
      using that by (simp add: first_page_def word_unat_eq_iff)
    moreover have "0 < unat (av_offset ?v) \<or> av_offset ?v = 0" by (simp add: unat_gt_0)
    ultimately show thesis using that by linarith
  qed
  then show ?thesis
  proof cases
    case 1
    then have "r = pm_of ?v" using c(3) assms(3,4) by (simp add: r last_pos_def last_get pm_of_def Let_def)
    with pm_of_var [OF v] show ?thesis by simp
  next
    case 2
    then have "r = pm_of ?v" using c(4) assms(3,4) by (simp add: r last_pos_def last_get pm_of_def Let_def)
    with pm_of_var [OF v] show ?thesis by simp
  next
    case 3
    then have "r = \<lparr>pm_pagina = av_pagina ?v, pm_offset = 4, pm_size = 0\<rparr>"
      using assms(3,4) sz4 by (simp add: r last_pos_def last_get Let_def)
    then show ?thesis using v 3 by (simp add: pm_fits_def pm_end_def var_ok_def var_pos_def no_vars_pos_def)
  qed
qed

lemma last_pos_bound:
  assumes sz: "sizes_ok st" and ok: "\<forall>x \<in> set (vars_of e). var_ok st x"
    and so: "sorted_wrt (\<lambda>x y. var_pos st x + 4 \<le> var_pos st y) (es_args e)"
      "sorted_wrt (\<lambda>x y. var_pos st x + 4 \<le> var_pos st y) (es_vars e)"
    and r: "r = last_pos C (ucast (cantidad_paginas (pcb st))) e"
  shows "pm_fits st r" "x \<in> set (vars_of e) \<Longrightarrow> var_pos st x + 4 \<le> pm_end st r"
    "vars_of e = [] \<Longrightarrow> r = no_vars_pos st" "vars_of e \<noteq> [] \<Longrightarrow> r \<noteq> no_vars_pos st"
proof -
  let ?a = "last (es_args e)" and ?v = "last (es_vars e)"
  have A: "x \<in> set (es_args e) \<Longrightarrow> var_pos st x \<le> var_pos st ?a" for x by (rule last_is_top [OF so(1)])
  have V: "x \<in> set (es_vars e) \<Longrightarrow> var_pos st x \<le> var_pos st ?v" for x by (rule last_is_top [OF so(2)])
  have fp: "first_page st < page_limit st" using sz by (simp add: sizes_ok_def page_limit_def unat_gt_0 word_gt_0)
  have "pm_fits st r \<and> (\<forall>x \<in> set (vars_of e). var_pos st x + 4 \<le> pm_end st r) \<and>
      (vars_of e = [] \<longrightarrow> r = no_vars_pos st) \<and> (vars_of e \<noteq> [] \<longrightarrow> r \<noteq> no_vars_pos st)"
  proof (cases "es_args e = []")
    case False
    from last_pos_args [OF sz ok this] consider
        "r = pm_of ?a" "es_vars e = [] \<or> var_pos st ?v \<le> var_pos st ?a"
      | "r = pm_of ?v" "es_vars e \<noteq> []" "var_pos st ?a \<le> var_pos st ?v" unfolding r by blast
    then show ?thesis
    proof cases
      case 1
      moreover have "var_ok st ?a" using ok False by (simp add: vars_of_def)
      ultimately show ?thesis using pm_of_var [of st ?a] A V False by (fastforce simp: vars_of_def)
    next
      case 2
      moreover have "var_ok st ?v" using ok 2 by (simp add: vars_of_def)
      ultimately show ?thesis using pm_of_var [of st ?v] A V by (fastforce simp: vars_of_def)
    qed
  next
    case True
    show ?thesis
    proof (cases "es_vars e = []")
      case v: True
      then have "r = no_vars_pos st" using True by (simp add: r last_pos_def no_vars_pos_def)
      then show ?thesis using True v fp by (simp add: pm_fits_def no_vars_pos_def vars_of_def first_page_def)
    next
      case False
      from last_pos_no_args [OF sz ok True False r] V True False show ?thesis by (fastforce simp: vars_of_def)
    qed
  qed
  then show "pm_fits st r" "x \<in> set (vars_of e) \<Longrightarrow> var_pos st x + 4 \<le> pm_end st r"
    "vars_of e = [] \<Longrightarrow> r = no_vars_pos st" "vars_of e \<noteq> [] \<Longrightarrow> r \<noteq> no_vars_pos st"
    by blast+
qed

lemma buscoPos_bound:
  assumes inv: "stack_inv st" and sp: "sp < length (indice_stack (pcb st))"
    and above: "\<And>k. sp < k \<Longrightarrow> k < length (indice_stack (pcb st)) \<Longrightarrow> vars_of (indice_stack (pcb st) ! k) = []"
  shows "\<exists>r. buscoPos_recursiva C (pcb st) sp = Some r \<and> pm_fits st r \<and> (\<forall>x \<in> all_vars st. var_pos st x + 4 \<le> pm_end st r)"
  using sp above
proof (induction sp)
  case step: (0)
  let ?e = "indice_stack (pcb st) ! 0"
  define r where "r = last_pos C (ucast (cantidad_paginas (pcb st))) ?e"
  have e: "?e \<in> set (indice_stack (pcb st))" using step(1) by simp
  have sz: "sizes_ok st" and ok: "\<forall>x \<in> set (vars_of ?e). var_ok st x"
    using inv e by (auto simp: stack_inv_def all_vars_def)
  have so: "sorted_wrt (\<lambda>x y. var_pos st x + 4 \<le> var_pos st y) (es_args ?e)"
      "sorted_wrt (\<lambda>x y. var_pos st x + 4 \<le> var_pos st y) (es_vars ?e)" using inv e by (auto simp: stack_inv_def)
  note B = last_pos_bound [OF sz ok so r_def]
  have "all_vars st = set (vars_of ?e)"
  proof -
    have "vars_of f = []" if "f \<in> set (indice_stack (pcb st))" "f \<noteq> ?e" for f
      using that step(2) by (metis gr0I in_set_conv_nth)
    then show ?thesis using e by (auto simp: all_vars_def) (metis empty_iff list.set(1))
  qed
  moreover have "buscoPos_recursiva C (pcb st) 0 = Some r"
    using step(1) by (subst buscoPos_recursiva.simps) (auto simp: Let_def r_def sl.list_get)
  ultimately show ?case using B by auto
next
  case (Suc n)
  let ?e = "indice_stack (pcb st) ! Suc n"
  define r where "r = last_pos C (ucast (cantidad_paginas (pcb st))) ?e"
  have e: "?e \<in> set (indice_stack (pcb st))" using Suc.prems(1) by simp
  have sz: "sizes_ok st" and ok: "\<forall>x \<in> set (vars_of ?e). var_ok st x"
    using inv e by (auto simp: stack_inv_def all_vars_def)
  have so: "sorted_wrt (\<lambda>x y. var_pos st x + 4 \<le> var_pos st y) (es_args ?e)"
      "sorted_wrt (\<lambda>x y. var_pos st x + 4 \<le> var_pos st y) (es_vars ?e)" using inv e by (auto simp: stack_inv_def)
  note B = last_pos_bound [OF sz ok so r_def]
  have step: "buscoPos_recursiva C (pcb st) (Suc n) =
      (if r = no_vars_pos st then buscoPos_recursiva C (pcb st) n else Some r)"
    using Suc.prems(1) by (subst buscoPos_recursiva.simps) (auto simp: Let_def r_def sl.list_get no_vars_pos_def)
  show ?case
  proof (cases "vars_of ?e = []")
    case True
    have "vars_of (indice_stack (pcb st) ! k) = []" if "n < k" "k < length (indice_stack (pcb st))" for k
      using that Suc.prems(2) True by (cases "k = Suc n") auto
    with Suc.IH Suc.prems(1) show ?thesis using step B(3) [OF True] by auto
  next
    case False
    have "var_pos st x + 4 \<le> pm_end st r" if x: "x \<in> all_vars st" for x
    proof -
      obtain k where k: "k < length (indice_stack (pcb st))" "x \<in> set (vars_of (indice_stack (pcb st) ! k))"
      proof -
        obtain f where "f \<in> set (indice_stack (pcb st))" "x \<in> set (vars_of f)" using x by (auto simp: all_vars_def)
        then show thesis using that by (metis in_set_conv_nth)
      qed
      consider "k = Suc n" | "k < Suc n" | "Suc n < k" by linarith
      then show ?thesis
      proof cases
        case 1 then show ?thesis using k B(2) by simp
      next
        case 2
        obtain y where y: "y \<in> set (vars_of ?e)" using False by (cases "vars_of ?e") auto
        have "\<forall>x \<in> set (vars_of (indice_stack (pcb st) ! k)). \<forall>y \<in> set (vars_of ?e). var_pos st x + 4 \<le> var_pos st y"
          using inv 2 Suc.prems(1) sorted_wrt_nth_less by (fastforce simp: stack_inv_def)
        then have "var_pos st x + 4 \<le> var_pos st y" using k(2) y by blast
        with B(2) [OF y] show ?thesis by simp
      next
        case 3
        then show ?thesis using k Suc.prems(2) by simp
      qed
    qed
    with step B(1) B(4) [OF False] show ?thesis by simp
  qed
qed

lemma getNextPosStack_next_inv:
  assumes inv: "stack_inv st"
  shows "\<exists>st'. getNextPosStack C st = Some st' \<and> next_inv st' \<and> stack_inv st' \<and>
    st' = st\<lparr>nextPageOffsetInStack := nextPageOffsetInStack st'\<rparr>"
proof -
  let ?sp = "unat (pcb_SP (pcb st))"
  have len: "length (indice_stack (pcb st)) = Suc ?sp" using inv by (simp add: stack_inv_def)
  obtain r where r: "buscoPos_recursiva C (pcb st) ?sp = Some r" "pm_fits st r"
      "\<forall>x \<in> all_vars st. var_pos st x + 4 \<le> pm_end st r"
    using buscoPos_bound [OF inv, of ?sp] len by auto
  have P: "unat (pagesize st) < 2 ^ 31" using inv by (simp add: stack_inv_def sizes_ok_def)
  have sum: "unat (pm_offset r + pm_size r) = unat (pm_offset r) + unat (pm_size r)"
    using r(2) P by (intro unat_add_lem [THEN iffD1]) (simp add: pm_fits_def)
  then have "\<not> pagesize st < pm_offset r + pm_size r" using r(2) by (simp add: pm_fits_def word_less_nat_alt)
  then have g: "getNextPosStack C st =
      Some (st\<lparr>nextPageOffsetInStack := \<lparr>po_page = pm_pagina r, po_offset = pm_offset r + pm_size r\<rparr>\<rparr>)"
    by (simp add: getNextPosStack_def r(1))
  define st' where "st' = st\<lparr>nextPageOffsetInStack := \<lparr>po_page = pm_pagina r, po_offset = pm_offset r + pm_size r\<rparr>\<rparr>"
  have same: "all_vars st' = all_vars st" "var_pos st' = var_pos st" "first_page st' = first_page st" "page_limit st' = page_limit st"
      "sizes_ok st' = sizes_ok st" "var_ok st' = var_ok st"
    by (auto simp: st'_def all_vars_def var_pos_def first_page_def page_limit_def sizes_ok_def var_ok_def fun_eq_iff)
  have "next_pos st' = pm_end st r" using sum by (simp add: next_pos_def pm_end_def st'_def)
  then have "next_inv st'" using r(2,3) sum unfolding next_inv_def same by (simp add: st'_def pm_fits_def)
  moreover have "stack_inv st'" using inv unfolding stack_inv_def same by (simp add: st'_def)
  ultimately show ?thesis using g by (simp add: st'_def)
qed

lemma stack_split:
  assumes "stack_inv st"
  obtains bs e where "indice_stack (pcb st) = bs @ [e]" "unat (pcb_SP (pcb st)) = length bs"
proof -
  have "length (indice_stack (pcb st)) = Suc (unat (pcb_SP (pcb st)))" using assms by (simp add: stack_inv_def)
  then show thesis using that by (cases "indice_stack (pcb st)" rule: rev_cases) auto
qed

lemma agregarAStack_top:
  assumes "indice_stack (pcb st) = bs @ [e]" "unat (pcb_SP (pcb st)) = length bs"
  shows "agregarAStack C v (if is_arg_name (av_id v) then ARG_STACK else VAR_STACK) st =
    Some (st\<lparr>pcb := (pcb st)\<lparr>indice_stack := bs @ [push_var v e]\<rparr>\<rparr>)"
proof -
  have "list_get (stack_ops C) (bs @ [e]) (length bs) = e" by (simp add: sl.list_get)
  then show ?thesis
    using assms by (simp add: agregarAStack_def al.list_add push_var_def source_consts)
qed

lemma new_var_place:
  assumes inv: "stack_inv st" and nx: "next_inv st"
  shows "next_pos st \<le> var_pos st (new_var i st)" "unat (av_offset (new_var i st)) + 4 \<le> unat (pagesize st)"
    "first_page st \<le> unat (av_pagina (new_var i st))" "unat (av_pagina (new_var i st)) \<le> page_limit st"
    "nextPageOffsetInStack (updatePageOffsetAvailable 4 st) = \<lparr>po_page = av_pagina (new_var i st), po_offset = av_offset (new_var i st)\<rparr>"
proof -
  let ?n = "nextPageOffsetInStack st" and ?P = "unat (pagesize st)"
  have P: "4 \<le> ?P" "?P < 2 ^ 31 - 4" "page_limit st < 2 ^ 31" using inv by (auto simp: stack_inv_def sizes_ok_def)
  have n: "unat (po_offset ?n) \<le> ?P" "unat (po_page ?n) < page_limit st" "first_page st \<le> unat (po_page ?n)"
    using nx by (auto simp: next_inv_def)
  have o4: "unat (po_offset ?n + 4) = unat (po_offset ?n) + 4"
    using n P by (subst unat_add_lem [THEN iffD1]) simp_all
  have p1: "unat (po_page ?n + 1) = unat (po_page ?n) + 1"
    using n P by (subst unat_add_lem [THEN iffD1]) simp_all
  have le: "pagesize st < po_offset ?n + 4 \<longleftrightarrow> ?P < unat (po_offset ?n) + 4" by (simp add: word_less_nat_alt o4)
  show "next_pos st \<le> var_pos st (new_var i st)" "unat (av_offset (new_var i st)) + 4 \<le> unat (pagesize st)"
    "first_page st \<le> unat (av_pagina (new_var i st))" "unat (av_pagina (new_var i st)) \<le> page_limit st"
    "nextPageOffsetInStack (updatePageOffsetAvailable 4 st) = \<lparr>po_page = av_pagina (new_var i st), po_offset = av_offset (new_var i st)\<rparr>"
    using n P p1 le by (auto simp: new_var_def updatePageOffsetAvailable_def Let_def next_pos_def var_pos_def)
qed

lemma stack_inv_push:
  assumes inv: "stack_inv st" and st: "indice_stack (pcb st) = bs @ [e]"
    and v: "var_ok st v" "\<And>x. x \<in> all_vars st \<Longrightarrow> var_pos st x + 4 \<le> var_pos st v"
    and st': "st' = st\<lparr>pcb := (pcb st)\<lparr>indice_stack := bs @ [push_var v e]\<rparr>, nextPageOffsetInStack := n\<rparr>"
  shows "stack_inv st'" "all_vars st' = insert v (all_vars st)"
proof -
  have same: "var_pos st' = var_pos st" "first_page st' = first_page st" "page_limit st' = page_limit st"
      "sizes_ok st' = sizes_ok st" "var_ok st' = var_ok st"
    by (auto simp: st' var_pos_def first_page_def page_limit_def sizes_ok_def var_ok_def fun_eq_iff)
  show av: "all_vars st' = insert v (all_vars st)" by (auto simp: all_vars_def st' st)
  have below: "var_pos st x + 4 \<le> var_pos st v" if "f \<in> set (bs @ [e])" "x \<in> set (vars_of f)" for f x
    using that v(2) st by (auto simp: all_vars_def)
  have e: "sorted_wrt (\<lambda>x y. var_pos st x + 4 \<le> var_pos st y) (es_args (push_var v e))"
      "sorted_wrt (\<lambda>x y. var_pos st x + 4 \<le> var_pos st y) (es_vars (push_var v e))"
    using inv below [of e] st by (auto simp: stack_inv_def push_var_def sorted_wrt_append vars_of_def)
  have ctx: "sorted_wrt (\<lambda>e f. \<forall>x \<in> set (vars_of e). \<forall>y \<in> set (vars_of f). var_pos st x + 4 \<le> var_pos st y)
      (bs @ [push_var v e])"
    using inv below st by (auto simp: stack_inv_def sorted_wrt_append)
  have rest: "sorted_wrt (\<lambda>x y. var_pos st x + 4 \<le> var_pos st y) (es_args f)"
      "sorted_wrt (\<lambda>x y. var_pos st x + 4 \<le> var_pos st y) (es_vars f)" if "f \<in> set bs" for f
    using inv st that by (auto simp: stack_inv_def)
  have "\<forall>x \<in> all_vars st'. var_ok st x" using inv v(1) unfolding av by (auto simp: stack_inv_def)
  then show "stack_inv st'"
    using inv e ctx rest unfolding stack_inv_def same by (auto simp: st' st)
qed

lemma definirVariable_run:
  assumes inv: "stack_inv st" and nx: "next_inv st" and st: "indice_stack (pcb st) = bs @ [e]" "unat (pcb_SP (pcb st)) = length bs"
    and v: "v = new_var i st"
    and st1: "st1 = st\<lparr>pcb := (pcb st)\<lparr>indice_stack := bs @ [push_var v e]\<rparr>,
      nextPageOffsetInStack := \<lparr>po_page = av_pagina v, po_offset = av_offset v + 4\<rparr>\<rparr>"
  shows "definirVariable C i st = (if unat (av_pagina v) = page_limit st
      then Some (0, set_exit_code EC_STACKOVERFLOW st1) else Some (av_pagina v * pagesize st + av_offset v, st1))"
proof -
  note pl = new_var_place [OF inv nx, of i, folded v]
  have P: "page_limit st < 2 ^ 31" using inv by (auto simp: stack_inv_def sizes_ok_def)
  have vid: "av_id v = i" "av_size v = 4" by (simp_all add: v new_var_def Let_def)
  have up: "updatePageOffsetAvailable 4 st = st\<lparr>nextPageOffsetInStack := \<lparr>po_page = av_pagina v, po_offset = av_offset v\<rparr>\<rparr>"
    using pl(5) by (auto simp: updatePageOffsetAvailable_def Let_def split: if_splits)
  have pos: "posicion_int (av_pagina v) (av_offset v) st1 = Some (av_pagina v * pagesize st + av_offset v)"
    if "unat (av_pagina v) \<noteq> page_limit st"
  proof -
    have "sizes_ok st1" "page_limit st1 = page_limit st" "pagesize st1 = pagesize st"
      using inv by (simp_all add: stack_inv_def sizes_ok_def page_limit_def first_page_def st1)
    then show ?thesis using that pl(2,4) posicion_int_inside [of st1 "av_pagina v" "av_offset v"] by simp
  qed
  have nv: "\<lparr>av_id = i, av_pagina = av_pagina v, av_offset = av_offset v, av_size = 4\<rparr> = v" using vid by simp
  have "definirVariable C i st = (if av_pagina v = cpu_stack_size st + ucast (cantidad_paginas (pcb st))
      then Some (0, set_exit_code EC_STACKOVERFLOW st1)
      else map_option (\<lambda>posicion. (posicion, st1)) (posicion_int (av_pagina v) (av_offset v) st1))"
    using agregarAStack_top [of "st\<lparr>nextPageOffsetInStack := \<lparr>po_page = av_pagina v, po_offset = av_offset v\<rparr>\<rparr>" bs e v] st vid(1)
    unfolding definirVariable_def up Let_def
    by (simp add: nv st1)
  moreover have "av_pagina v = cpu_stack_size st + ucast (cantidad_paginas (pcb st)) \<longleftrightarrow> unat (av_pagina v) = page_limit st"
  proof -
    have "unat (cpu_stack_size st + ucast (cantidad_paginas (pcb st)) :: u32) = page_limit st"
      using P by (subst unat_add_lem [THEN iffD1]) (simp_all add: page_limit_def first_page_def)
    then show ?thesis by (metis word_unat_eq_iff)
  qed
  ultimately show ?thesis using pos by simp
qed

lemma new_var_addr:
  assumes inv: "stack_inv st" and nx: "next_inv st" and v: "v = new_var i st" and vl: "unat (av_pagina v) < page_limit st"
  shows "unat (av_pagina v * pagesize st + av_offset v) = var_pos st v" "unat (av_offset v + 4) = unat (av_offset v) + 4"
proof -
  note pl = new_var_place [OF inv nx, of i, folded v]
  have P: "unat (pagesize st) < 2 ^ 31 - 4" "page_limit st * unat (pagesize st) < 2 ^ 31"
    using inv by (auto simp: stack_inv_def sizes_ok_def)
  have "Suc (unat (av_pagina v)) * unat (pagesize st) \<le> page_limit st * unat (pagesize st)" using vl by (intro mult_le_mono1) simp
  then have small: "unat (av_pagina v) * unat (pagesize st) + unat (av_offset v) + 4 < 2 ^ 32" using pl(2) P(2) by simp
  have m: "unat (av_pagina v * pagesize st) = unat (av_pagina v) * unat (pagesize st)"
    using small by (intro unat_mult_lem [THEN iffD1]) simp
  then show "unat (av_pagina v * pagesize st + av_offset v) = var_pos st v"
    using small by (subst unat_add_lem [THEN iffD1]) (simp_all add: var_pos_def)
  show "unat (av_offset v + 4) = unat (av_offset v) + 4"
    using pl(2) P(1) by (subst unat_add_lem [THEN iffD1]) simp_all
qed

lemma definirVariable_effect:
  assumes inv: "stack_inv st" and nx: "next_inv st"
  shows "\<exists>addr st'. definirVariable C i st = Some (addr, st') \<and> all_vars st' = insert (new_var i st) (all_vars st) \<and>
    (\<forall>x \<in> all_vars st. var_pos st x + 4 \<le> var_pos st (new_var i st)) \<and>
    (if unat (av_pagina (new_var i st)) = page_limit st
     then addr = 0 \<and> exit_code (pcb st') = word_of_int EC_STACKOVERFLOW
     else unat addr = var_pos st (new_var i st) \<and> exit_code (pcb st') = exit_code (pcb st) \<and> stack_inv st' \<and> next_inv st')"
proof -
  define v where "v = new_var i st"
  note pl = new_var_place [OF inv nx, of i, folded v_def]
  obtain bs e where st: "indice_stack (pcb st) = bs @ [e]" "unat (pcb_SP (pcb st)) = length bs" using stack_split [OF inv] .
  have above: "var_pos st x + 4 \<le> var_pos st v" if "x \<in> all_vars st" for x
    using that nx pl(1) by (auto simp: next_inv_def)
  define st1 where "st1 = st\<lparr>pcb := (pcb st)\<lparr>indice_stack := bs @ [push_var v e]\<rparr>,
      nextPageOffsetInStack := \<lparr>po_page = av_pagina v, po_offset = av_offset v + 4\<rparr>\<rparr>"
  note run = definirVariable_run [OF inv nx st v_def st1_def]
  have all: "all_vars (set_exit_code c st1) = insert v (all_vars st)" "all_vars st1 = insert v (all_vars st)" for c
    by (auto simp: all_vars_def st1_def set_exit_code_def st)
  show ?thesis
  proof (cases "unat (av_pagina v) = page_limit st")
    case True
    then show ?thesis
      using run all above unfolding v_def [symmetric] by (simp add: set_exit_code_def)
  next
    case False
    then have vl: "unat (av_pagina v) < page_limit st" using pl(4) by simp
    have "av_size v = 4" by (simp add: v_def new_var_def Let_def)
    with vl have ok: "var_ok st v" using pl(2,3) by (simp add: var_ok_def)
    note SI = stack_inv_push [OF inv st(1) ok above st1_def]
    note ad = new_var_addr [OF inv nx v_def vl]
    have "next_pos st1 = var_pos st v + 4" "var_pos st1 = var_pos st"
      using ad(2) by (auto simp: st1_def next_pos_def var_pos_def fun_eq_iff)
    moreover have "var_pos st x + 4 \<le> var_pos st v + 4" if "x \<in> insert v (all_vars st)" for x
      using that above [of x] by auto
    ultimately have "next_inv st1"
      using vl pl ad(2) all(2) by (simp add: next_inv_def st1_def first_page_def page_limit_def)
    moreover have "definirVariable C i st = Some (av_pagina v * pagesize st + av_offset v, st1)" using run False by simp
    moreover have "exit_code (pcb st1) = exit_code (pcb st)" by (simp add: st1_def)
    ultimately show ?thesis using False ad(1) SI above unfolding v_def [symmetric] by metis
  qed
qed

lemma find_snoc: "(\<And>x. x \<in> set l \<Longrightarrow> \<not> P x) \<Longrightarrow> P v \<Longrightarrow> List.find P (l @ [v]) = Some v"
  by (induction l) auto

lemma definirVariable_lookup:
  assumes inv: "stack_inv st" and nx: "next_inv st" and d: "definirVariable C i st = Some (addr, st')"
    and ne: "unat (av_pagina (new_var i st)) \<noteq> page_limit st"
    and fresh: "\<forall>x \<in> set (vars_of (last (indice_stack (pcb st)))). av_id x \<noteq> i"
  shows "obtenerPosicionVariable C i st' = Some addr"
proof -
  obtain bs e where st: "indice_stack (pcb st) = bs @ [e]" "unat (pcb_SP (pcb st)) = length bs" using stack_split [OF inv] .
  define v where "v = new_var i st"
  have vi: "av_id v = i" by (simp add: v_def new_var_def Let_def)
  define st1 where "st1 = st\<lparr>pcb := (pcb st)\<lparr>indice_stack := bs @ [push_var v e]\<rparr>,
      nextPageOffsetInStack := \<lparr>po_page = av_pagina v, po_offset = av_offset v + 4\<rparr>\<rparr>"
  have r: "addr = av_pagina v * pagesize st + av_offset v" "st' = st1"
    using definirVariable_run [OF inv nx st v_def st1_def] d ne by (auto simp: v_def)
  have "list_get (stack_ops C) (bs @ [push_var v e]) (length bs) = push_var v e" by (simp add: sl.list_get)
  moreover have "List.find (\<lambda>r. av_id r = i) (if is_arg_name i then es_args (push_var v e) else es_vars (push_var v e)) = Some v"
    using fresh vi st by (auto simp: push_var_def vars_of_def intro!: find_snoc)
  moreover have "posicion_int (av_pagina v) (av_offset v) st1 = Some addr"
  proof -
    note pl = new_var_place [OF inv nx, of i, folded v_def]
    have "sizes_ok st1" "page_limit st1 = page_limit st" "pagesize st1 = pagesize st"
      using inv by (simp_all add: stack_inv_def sizes_ok_def page_limit_def first_page_def st1_def)
    then show ?thesis using ne pl(2,4) posicion_int_inside [of st1 "av_pagina v" "av_offset v"] by (simp add: r v_def)
  qed
  ultimately show ?thesis
    using st by (cases "is_arg_name i") (simp_all add: obtenerPosicionVariable_def r(2) st1_def list_find Let_def)
qed

end

end
