(* ===== verification/CPU_Props.thy ===== *)
theory CPU_Props
  imports CPU_Stack
begin

text \<open>
  Properties of the CPU process: a new variable overlaps no other one and the end of the stack is noticed, a return undoes the call, and the requests that fetch an instruction cover
  exactly its bytes.
\<close>

section \<open>Calls and returns\<close>

lemma ucast_u16_back [simp]: "ucast (ucast (w :: u16) :: u32) = w"
  by (rule bit_word_eqI) (simp add: bit_ucast_iff)

lemma recv_code_out: "sk_out (snd (recv_code junk s)) = sk_out s"
  by (auto simp: recv_code_def split: prod.splits option.splits dest: recv_storage_out)

lemma memory_write_sends:
  assumes "unat n = length buffer"
  shows "\<exists>r s'. memory_write junk p page off sz n buffer s = Some (r, s') \<and>
    sk_out s' = sk_out s @ [oc_byte WRITE_OC] @ write_body (p, page, off, sz, buffer)"
proof -
  let ?s = "socket_send ([oc_byte WRITE_OC] @ write_body (p, page, off, sz, buffer)) s"
  have "word_of_nat (length buffer) = n" unfolding assms [symmetric] by simp
  then have "memory_write junk p page off sz n buffer s = Some (recv_code junk ?s)"
    using assms by (simp add: memory_write_def write_body_def Let_def)
  moreover have "sk_out (snd (recv_code junk ?s)) = sk_out s @ [oc_byte WRITE_OC] @ write_body (p, page, off, sz, buffer)"
    by (simp add: recv_code_out socket_send_def)
  ultimately show ?thesis by (metis surjective_pairing)
qed

context cpu_commons
begin

lemma call_return:
  assumes len: "length (indice_stack (pcb st)) = Suc (unat (pcb_SP (pcb st)))" "Suc (length (indice_stack (pcb st))) < 2 ^ 16"
    and call: "llamarConRetorno C etiqueta donde st = Some st1"
    and body: "indice_stack (pcb st2) = indice_stack (pcb st) @ [e]" "es_retPos e = es_retPos (last (indice_stack (pcb st1)))"
      "es_retVar e = es_retVar (last (indice_stack (pcb st1)))" "pcb_SP (pcb st2) = pcb_SP (pcb st1)"
  shows "\<exists>st3. retornar C junk v st2 = Some st3 \<and> indice_stack (pcb st3) = indice_stack (pcb st) \<and>
    pcb_SP (pcb st3) = pcb_SP (pcb st) \<and> pcb_PC (pcb st3) = pcb_PC (pcb st) \<and>
    sk_out (server_socket_memoria st3) = sk_out (server_socket_memoria st2) @ [oc_byte WRITE_OC] @
      write_body (pid_int st2, donde div pagesize st, donde - donde div pagesize st * pagesize st, 4, u32_bytes v)"
proof -
  let ?n = "length (indice_stack (pcb st))"
  let ?rv = "\<lparr>pm_pagina = donde div pagesize st, pm_offset = donde - donde div pagesize st * pagesize st, pm_size = 4\<rparr>"
  have e: "es_retPos e = ucast (pcb_PC (pcb st))" "es_retVar e = ?rv" "pcb_SP (pcb st1) = pcb_SP (pcb st) + 1"
    using call body(2,3)
    by (auto simp: llamarConRetorno_def getOffsetofPos_def getPageofPos_def jump_def nuevoContexto_def stack_push_def
        sl.list_add split: bind_splits if_splits)
  have "unat (pcb_SP (pcb st) + 1) = ?n"
    using len by (subst unat_add_lem [THEN iffD1]) simp_all
  then have sp: "unat (pcb_SP (pcb st2)) = ?n" using body(4) e(3) by simp
  have "list_remove (stack_ops C) (indice_stack (pcb st2)) ?n = (e, indice_stack (pcb st))"
    using body(1) sl.list_remove [of ?n "indice_stack (pcb st2)"] by (simp add: remove_at_split [of _ e "[]", simplified])
  then have pop: "stack_pop C st2 = Some (e, st2\<lparr>pcb := (pcb st2)\<lparr>indice_stack := indice_stack (pcb st), pcb_SP := pcb_SP (pcb st2) - 1\<rparr>\<rparr>)"
    using sp body(1) by (simp add: stack_pop_def Let_def)
  obtain r s' where w: "memory_write junk (pid_int st2) (pm_pagina ?rv) (pm_offset ?rv) 4 4 (u32_bytes v) (server_socket_memoria st2) = Some (r, s')"
      "sk_out s' = sk_out (server_socket_memoria st2) @ [oc_byte WRITE_OC] @ write_body (pid_int st2, pm_pagina ?rv, pm_offset ?rv, 4, u32_bytes v)"
    using memory_write_sends [of 4 "u32_bytes v"] by fastforce
  show ?thesis
    using pop w e body(4) by (simp add: retornar_def pid_int_def)
qed

end

section \<open>Fetching an instruction\<close>

lemma sint_small: "unat (w :: u32) < 2 ^ 31 \<Longrightarrow> sint w = int (unat w)"
proof -
  assume "unat w < 2 ^ 31"
  then have "int (unat w) < 2 ^ 31" by (simp only: of_nat_less_numeral_power_cancel_iff)
  then have "signed_take_bit 31 (uint w) = uint w"
    using uint_ge_0 [of w] by (intro signed_take_bit_int_eq_self) (linarith, simp)
  then show ?thesis by (simp add: sint_uint)
qed

lemma div_word_small:
  assumes "unat (a :: u32) < 2 ^ 31" "unat (b :: u32) < 2 ^ 31" "0 < unat b"
  shows "(word_of_int (c_div (sint a) (sint b)) :: u32) = word_of_nat (unat a div unat b)"
    "unat (word_of_nat (unat a div unat b) :: u32) = unat a div unat b"
    "sint (word_of_nat (unat a div unat b) :: u32) = int (unat a div unat b)"
proof -
  have "c_div (int (unat a)) (int (unat b)) = int (unat a div unat b)"
    using assms(3) by (subst c_div_nonneg) (simp_all add: zdiv_int del: of_nat_unat)
  then show "(word_of_int (c_div (sint a) (sint b)) :: u32) = word_of_nat (unat a div unat b)"
    using sint_small [OF assms(1)] sint_small [OF assms(2)] by (simp del: of_nat_unat)
  have le: "unat a div unat b < 2 ^ 31" using assms(1) div_le_dividend [of "unat a" "unat b"] by linarith
  then show u: "unat (word_of_nat (unat a div unat b) :: u32) = unat a div unat b" by (simp add: unat_of_nat)
  show "sint (word_of_nat (unat a div unat b) :: u32) = int (unat a div unat b)"
    using sint_small [of "word_of_nat (unat a div unat b)"] u le by (simp del: of_nat_unat)
qed

definition req_range :: "u32 \<Rightarrow> u32 \<times> u32 \<times> u32 \<Rightarrow> nat list" where
  "req_range ps r = (case r of (page, off, sz) \<Rightarrow>
     [unat page * unat ps + unat off..<unat page * unat ps + unat off + unat sz])"

lemma fetch_ranges:
  assumes o: "unat (ic_offset ic) + unat (ic_size ic) < 2 ^ 31" and P: "unat ps < 2 ^ 31" "0 < unat ps"
    and sz: "unat (ic_size ic) \<le> unat ps" and no: "unat (ic_offset ic) + unat ps < 2 ^ 31"
  shows "concat (map (req_range ps) (fetch_requests ps ic)) = [unat (ic_offset ic)..<unat (ic_offset ic) + unat (ic_size ic)]"
    "\<forall>(page, off, sz) \<in> set (fetch_requests ps ic). unat off + unat sz \<le> unat ps"
proof -
  define a where "a = unat (ic_offset ic)"
  define s where "s = unat (ic_size ic)"
  define p where "p = unat ps"
  define q where "q = a div p"
  define m where "m = a mod p"
  have am: "a = q * p + m" "m < p" using P by (simp_all add: q_def m_def p_def)
  have sum: "unat (ic_offset ic + ic_size ic) = a + s"
    using o by (subst unat_add_lem [THEN iffD1]) (simp_all add: a_def s_def)
  have page: "(word_of_int (c_div (sint (ic_offset ic)) (sint ps)) :: u32) = word_of_nat q"
      "unat (word_of_nat q :: u32) = q" "sint (word_of_nat q :: u32) = int q"
    using div_word_small [of "ic_offset ic" ps] o P by (simp_all add: q_def a_def p_def)
  define q' where "q' = (a + s) div p"
  have pe: "(word_of_int (c_div (sint (ic_offset ic + ic_size ic)) (sint ps)) :: u32) = word_of_nat q'"
      "unat (word_of_nat q' :: u32) = q'" "sint (word_of_nat q' :: u32) = int q'"
    using div_word_small [of "ic_offset ic + ic_size ic" ps] sum o P by (simp_all add: q'_def a_def s_def p_def)
  have qp: "q * p + p < 2 ^ 32" using no am by (simp add: a_def p_def)
  have mul: "unat (word_of_nat q * ps :: u32) = q * p"
    using page(2) qp by (subst unat_mult_lem [THEN iffD1]) (simp_all add: p_def)
  have off: "unat (ic_offset ic - word_of_nat q * ps) = m"
    using mul am by (subst unat_sub) (simp_all add: word_le_nat_alt a_def [symmetric])
  have nextp: "unat ((word_of_nat q + 1) * ps :: u32) = q * p + p"
  proof -
    have "(word_of_nat q + 1) * ps = word_of_nat q * ps + ps" by (simp add: distrib_right)
    then show ?thesis using mul qp by (simp add: p_def) (subst unat_add_lem [THEN iffD1], simp_all)
  qed
  show "concat (map (req_range ps) (fetch_requests ps ic)) = [unat (ic_offset ic)..<unat (ic_offset ic) + unat (ic_size ic)]"
    "\<forall>(page, off, sz) \<in> set (fetch_requests ps ic). unat off + unat sz \<le> unat ps"
  proof (atomize (full), cases "q < q'")
    case True
    then have "p \<le> m + s" using am P
      by (metis (no_types, lifting) add.assoc div_less div_mult_self3 leI less_irrefl mult.commute p_def q'_def add.right_neutral not_gr0)
    have q': "q' = Suc q"
    proof -
      have "a + s < (q + 2) * p" using am sz by (simp add: s_def p_def)
      then have "q' < q + 2" unfolding q'_def using P by (simp add: less_mult_imp_div_less)
      with True show ?thesis by simp
    qed
    define d1 where "d1 = (word_of_nat q + 1) * ps - ic_offset ic"
    have first: "unat d1 = p - m"
      using nextp am unfolding d1_def by (subst unat_sub) (simp_all add: word_le_nat_alt a_def [symmetric])
    have second: "unat (ic_size ic - d1) = s - (p - m)"
      using first \<open>p \<le> m + s\<close> am by (subst unat_sub) (simp_all add: word_le_nat_alt s_def [symmetric])
    have ranges: "[a..<a + (p - m)] @ [Suc q * p..<Suc q * p + (s - (p - m))] = [a..<a + s]"
    proof -
      have "a + (p - m) = Suc q * p" using am by simp
      moreover have "Suc q * p + (s - (p - m)) = a + s" using am \<open>p \<le> m + s\<close> by simp
      moreover have "a \<le> Suc q * p" "Suc q * p \<le> a + s" using am \<open>p \<le> m + s\<close> by auto
      ultimately show ?thesis using upt_add_eq_append [of a "Suc q * p" "s - (p - m)"] by simp
    qed
    have "fetch_requests ps ic = [(word_of_nat q, ic_offset ic - word_of_nat q * ps, d1), (word_of_nat q', 0, ic_size ic - d1)]"
      unfolding fetch_requests_def Let_def page(1,3) pe(1,3) d1_def [symmetric] using True by simp
    then show "concat (map (req_range ps) (fetch_requests ps ic)) = [unat (ic_offset ic)..<unat (ic_offset ic) + unat (ic_size ic)] \<and>
        (\<forall>(page, off, sz) \<in> set (fetch_requests ps ic). unat off + unat sz \<le> unat ps)"
      using ranges first second q' off am sz page(2) pe(2) unfolding a_def [symmetric] s_def [symmetric] p_def [symmetric]
      by (simp add: req_range_def p_def [symmetric])
  next
    case False
    have "(a + s) div p < Suc q" using False by (simp add: q'_def)
    then have "a + s < Suc q * p" using P div_less_iff_less_mult [of p "a + s" "Suc q"] by (simp add: p_def)
    then have "m + s \<le> p" using am by simp
    with False show "concat (map (req_range ps) (fetch_requests ps ic)) = [unat (ic_offset ic)..<unat (ic_offset ic) + unat (ic_size ic)] \<and>
        (\<forall>(page, off, sz) \<in> set (fetch_requests ps ic). unat off + unat sz \<le> unat ps)"
      using am unfolding fetch_requests_def page pe Let_def
      by (simp add: req_range_def page(2) off p_def [symmetric] a_def [symmetric] s_def [symmetric])
  qed
qed

section \<open>A small process\<close>

definition demo_cpu :: cpu_state where
  "demo_cpu = \<lparr>pcb = demo_pcb, nextPageOffsetInStack = \<lparr>po_page = 0, po_offset = 0\<rparr>, pagesize = 16, cpu_stack_size = 2,
     server_socket_kernel = \<lparr>sk_in = [], sk_out = []\<rparr>, server_socket_memoria = \<lparr>sk_in = [], sk_out = []\<rparr>,
     flagDesconeccion = False\<rparr>"

lemma demo_cpu_inv: "stack_inv demo_cpu"
  by (simp add: stack_inv_def demo_cpu_def demo_pcb_def sizes_ok_def all_vars_def vars_of_def var_ok_def page_limit_def first_page_def)

section \<open>Properties\<close>

text \<open>
  C7: defining a variable is safe.  Before an instruction the next free position of the stack is
  computed from the stack index; \<open>definirVariable\<close> then places the new variable behind every variable of
  every context, inside one page.  When that page is the first one behind the stack the process gets
  the exit code \<open>EC_STACKOVERFLOW\<close>; otherwise the address returned is that of the variable, and the
  invariants of the stack index hold again.
\<close>
theorem definirVariable_no_overlap:
  assumes "cpu_commons C" "stack_inv st"
  shows "\<exists>st1 addr st2. getNextPosStack C st = Some st1 \<and> definirVariable C i st1 = Some (addr, st2) \<and>
    all_vars st2 = insert (new_var i st1) (all_vars st) \<and>
    (\<forall>x \<in> all_vars st. var_pos st x + 4 \<le> var_pos st (new_var i st1)) \<and>
    unat (av_offset (new_var i st1)) + 4 \<le> unat (pagesize st) \<and>
    (if unat (av_pagina (new_var i st1)) = page_limit st
     then addr = 0 \<and> exit_code (pcb st2) = word_of_int EC_STACKOVERFLOW
     else unat addr = var_pos st (new_var i st1) \<and> exit_code (pcb st2) = exit_code (pcb st) \<and> stack_inv st2 \<and> next_inv st2)"
proof -
  obtain st1 where st1: "getNextPosStack C st = Some st1" "next_inv st1" "stack_inv st1"
      and eq: "st1 = st\<lparr>nextPageOffsetInStack := nextPageOffsetInStack st1\<rparr>"
    using cpu_commons.getNextPosStack_next_inv [OF assms] by blast
  have same: "all_vars st1 = all_vars st" "var_pos st1 = var_pos st" "page_limit st1 = page_limit st"
      "exit_code (pcb st1) = exit_code (pcb st)" "pagesize st1 = pagesize st"
    by (subst eq; auto simp: all_vars_def var_pos_def page_limit_def first_page_def fun_eq_iff)+
  from cpu_commons.definirVariable_effect [OF assms(1) st1(3,2), of i]
    cpu_commons.new_var_place(2) [OF assms(1) st1(3,2), of i]
  show ?thesis using st1(1) unfolding same by blast
qed

theorem definirVariable_no_overlap_witness:
  "\<exists>st1 addr st2. getNextPosStack seq_cpu_lib demo_cpu = Some st1 \<and> definirVariable seq_cpu_lib 98 st1 = Some (addr, st2) \<and>
    all_vars st2 = insert (new_var 98 st1) (all_vars demo_cpu)"
  using definirVariable_no_overlap [OF seq_cpu.cpu_commons_axioms demo_cpu_inv, of 98] by blast

text \<open>
  C38: calls and returns match.  When a function called with \<open>llamarConRetorno\<close> has left the contexts below
  its own as they were, \<open>retornar\<close> restores the stack index, its pointer and the program counter of the
  call, and sends the value to be written at the address the call named.
\<close>
theorem call_return_restores:
  assumes "cpu_commons C" "length (indice_stack (pcb st)) = Suc (unat (pcb_SP (pcb st)))"
    and "Suc (length (indice_stack (pcb st))) < 2 ^ 16" "llamarConRetorno C etiqueta donde st = Some st1"
    and "indice_stack (pcb st2) = indice_stack (pcb st) @ [e]" "es_retPos e = es_retPos (last (indice_stack (pcb st1)))"
    and "es_retVar e = es_retVar (last (indice_stack (pcb st1)))" "pcb_SP (pcb st2) = pcb_SP (pcb st1)"
  shows "\<exists>st3. retornar C junk v st2 = Some st3 \<and> indice_stack (pcb st3) = indice_stack (pcb st) \<and>
    pcb_SP (pcb st3) = pcb_SP (pcb st) \<and> pcb_PC (pcb st3) = pcb_PC (pcb st) \<and>
    sk_out (server_socket_memoria st3) = sk_out (server_socket_memoria st2) @ [oc_byte WRITE_OC] @
      write_body (pid_int st2, donde div pagesize st, donde - donde div pagesize st * pagesize st, 4, u32_bytes v)"
  by (rule cpu_commons.call_return [OF assms])

theorem call_return_restores_witness:
  "\<exists>st1 st3. llamarConRetorno seq_cpu_lib [102] 48 demo_cpu = Some st1 \<and> retornar seq_cpu_lib (\<lambda>_. 0) 5 st1 = Some st3 \<and>
    indice_stack (pcb st3) = indice_stack demo_pcb \<and> pcb_PC (pcb st3) = 1"
proof -
  obtain st1 where st1: "llamarConRetorno seq_cpu_lib [102] 48 demo_cpu = Some st1"
      "indice_stack (pcb st1) = indice_stack (pcb demo_cpu) @ [last (indice_stack (pcb st1))]"
    by (simp add: llamarConRetorno_def getOffsetofPos_def getPageofPos_def jump_def nuevoContexto_def stack_push_def
        seq_cpu_lib_def seq_list_ops_def seq_dict_ops_def demo_cpu_def demo_pcb_def)
  have "length (indice_stack (pcb demo_cpu)) = Suc (unat (pcb_SP (pcb demo_cpu)))"
    "Suc (length (indice_stack (pcb demo_cpu))) < 2 ^ 16" "pcb_PC (pcb demo_cpu) = 1" "indice_stack (pcb demo_cpu) = indice_stack demo_pcb"
    by (simp_all add: demo_cpu_def demo_pcb_def)
  with call_return_restores [OF seq_cpu.cpu_commons_axioms this(1,2) st1 refl refl refl, of "\<lambda>_. 0" 5] st1(1)
  show ?thesis by auto
qed



section \<open>Moving the cursor of a file\<close>

text \<open>
  The request to move the cursor carries as process number the four bytes at \<open>pid\<close>: the number is
  followed by the program counter, so it is the process number only while the program counter is 0.
\<close>

lemma le_nat_append: "le_nat (xs @ ys) = le_nat xs + 256 ^ length xs * le_nat ys"
  by (induction xs) (auto simp: algebra_simps)

lemma u16_pair_u32: "u16_bytes a @ u16_bytes b = u32_bytes (ucast a + 65536 * ucast b)"
proof -
  have b: "unat (65536 * ucast b :: u32) = 65536 * unat b"
    using unat_u16_less [of b] by (subst unat_mult_lem [THEN iffD1]) simp_all
  have s: "unat (ucast a + 65536 * ucast b :: u32) = unat a + 65536 * unat b"
    using b unat_u16_less [of a] unat_u16_less [of b] by (subst unat_add_lem [THEN iffD1]) simp_all
  have "le_nat (u16_bytes a @ u16_bytes b) = unat a + 65536 * unat b"
    using unat_u16_less [of a] unat_u16_less [of b]
    by (simp add: le_nat_append u16_bytes_def le_nat_le_bytes)
  then have "le_bytes 4 (unat (ucast a + 65536 * ucast b :: u32)) = u16_bytes a @ u16_bytes b"
    using le_bytes_le_nat [of "u16_bytes a @ u16_bytes b" 4] s by simp
  then show ?thesis by (simp add: u32_bytes_def)
qed

lemma moverCursor_pid:
  "moverCursor A descriptor posicion st = kernel_send A OC_FUNCION_MOVER_CURSOR
     (Mem (u32_bytes (pid_int st + 65536 * ucast (pcb_PC (pcb st))) @ u32_bytes descriptor @ u32_bytes posicion)) st"
  by (simp add: moverCursor_def pid_int_def flip: u16_pair_u32)

end
