(* ===== verification/CPU_Main.thy ===== *)
theory CPU_Main
  imports CPU_Props
begin

text \<open>
  The main loop of the CPU process (\<open>main\<close> of \<open>cpu/src/cpu.c\<close>, the signal handler of \<open>funcionesCPU.c\<close>): the CPU connects, and then receives a process
  control block, executes one instruction and reports, again and again.  The variables of \<open>main\<close> that live on from one round to the next are
  the record \<open>cpu_loop\<close>.  \<open>analizadorLinea\<close> is the call of the parser, which runs the primitives; \<open>senales n\<close> are the signals that arrive in round \<open>n\<close>
  before its report.  The loop ends with \<open>exit (0)\<close>; \<open>None\<close> is undefined behaviour or a loop that does not end.
\<close>

section \<open>The loop\<close>

record cpu_loop =
  cl_cpu :: cpu_state
  operation_code :: byte
  continuar :: u32
  quantum_sleep :: u16

definition SIGUSR1 :: int where "SIGUSR1 = 10"

definition handlerDesconexion :: "int \<Rightarrow> cpu_state \<Rightarrow> cpu_state" where
  "handlerDesconexion signum st = (if signum = SIGUSR1 then st\<lparr>flagDesconeccion := True\<rparr> else st)"

text \<open>Connecting: the kernel sends the size of the stack, the memory process answers the handshake with the size of a page.\<close>

definition cpu_inicio :: "abi \<Rightarrow> storage \<Rightarrow> cpu_state \<Rightarrow> cpu_loop option" where
  "cpu_inicio A junk st = do {
     (r, s) \<leftarrow> connection_recv A junk (server_socket_kernel st);
     b \<leftarrow> (case rc_msg r of Some (Raw b) \<Rightarrow> Some b | _ \<Rightarrow> None);
     n \<leftarrow> c_int_at b;
     (case handshake junk (of_char CHR ''c'') 0 (server_socket_memoria st) of
        (tamanio, s') \<Rightarrow> Some \<lparr>cl_cpu = st\<lparr>server_socket_kernel := s, server_socket_memoria := s', cpu_stack_size := n,
            pagesize := word_of_int tamanio, flagDesconeccion := False\<rparr>,
          operation_code = junk 0, continuar = - 1, quantum_sleep = 0\<rparr>) }"

text \<open>
  Receiving a process.  When the connection has ended, \<open>operation_code\<close> keeps the value of the last message; if that was a PCB, the code goes on with a
  buffer that it has freed.  The first component is \<open>True\<close> when the process exits.
\<close>

definition recibir_PCB :: "cpu_lib \<Rightarrow> abi \<Rightarrow> storage \<Rightarrow> cpu_loop \<Rightarrow> (bool \<times> cpu_loop) option" where
  "recibir_PCB C A junk lp = do {
     (r, s) \<leftarrow> connection_recv A junk (server_socket_kernel (cl_cpu lp));
     let st = (cl_cpu lp)\<lparr>server_socket_kernel := s\<rparr>;
     let code = (case rc_oc r of None \<Rightarrow> operation_code lp | Some c \<Rightarrow> c);
     (if code \<noteq> OC_PCB then Some (True, lp\<lparr>cl_cpu := st, operation_code := code\<rparr>)
      else (case rc_msg r of
        Some (Raw b) \<Rightarrow> map_option (\<lambda>p. (False, lp\<lparr>cl_cpu := st\<lparr>pcb := p\<rparr>, operation_code := code\<rparr>)) (deserializer_pcb (dict C) b)
      | _ \<Rightarrow> None)) }"

text \<open>The first instruction of a process gets the context of the main program.\<close>

definition ejecutar_instruccion ::
    "cpu_lib \<Rightarrow> storage \<Rightarrow> (c_str \<Rightarrow> cpu_state \<Rightarrow> cpu_state option) \<Rightarrow> cpu_state \<Rightarrow> cpu_state option" where
  "ejecutar_instruccion C junk analizadorLinea st =
     (let st1 = (if indice_stack (pcb st) = []
                 then (let st1 = nuevoContexto C 0 no_pos st
                       in st1\<lparr>pcb := (pcb st1)\<lparr>pcb_SP := pcb_SP (pcb st1) - 1\<rparr>\<rparr>)
                 else st)
      in do {
        st2 \<leftarrow> getNextPosStack C st1;
        (instruccion, st3) \<leftarrow> fetch_instruction C junk st2;
        st4 \<leftarrow> analizadorLinea instruccion st3;
        Some (st4\<lparr>pcb := (pcb st4)\<lparr>pcb_PC := pcb_PC (pcb st4) + 1\<rparr>\<rparr>) })"

datatype cpu_paso = Sigue cpu_loop | Fin cpu_state

definition informar :: "abi \<Rightarrow> storage \<Rightarrow> cpu_loop \<Rightarrow> cpu_paso option" where
  "informar A junk lp = do {
     st1 \<leftarrow> serializar_y_enviar_PCB A junk (report_code (cl_cpu lp)) (cl_cpu lp);
     (if report_code (cl_cpu lp) = OC_DESCONEX_CPU then Some (Fin st1)
      else if report_code (cl_cpu lp) = OC_TERMINO_INSTRUCCION then do {
        (r, s) \<leftarrow> connection_recv A junk (server_socket_kernel st1);
        n \<leftarrow> (case rc_msg r of None \<Rightarrow> Some (continuar lp) | Some (Raw b) \<Rightarrow> c_int_at b | Some (Archivo _) \<Rightarrow> None);
        Some (Sigue (lp\<lparr>cl_cpu := st1\<lparr>server_socket_kernel := s\<rparr>, continuar := n,
          operation_code := (case rc_oc r of None \<Rightarrow> operation_code lp | Some c \<Rightarrow> c)\<rparr>)) }
      else Some (Sigue (lp\<lparr>cl_cpu := st1\<rparr>))) }"

definition cpu_vuelta ::
    "cpu_lib \<Rightarrow> abi \<Rightarrow> storage \<Rightarrow> (c_str \<Rightarrow> cpu_state \<Rightarrow> cpu_state option) \<Rightarrow> int list \<Rightarrow> cpu_loop \<Rightarrow> cpu_paso option" where
  "cpu_vuelta C A junk analizadorLinea senales lp = do {
     (salir, lp1) \<leftarrow> (if continuar lp = - 1 then recibir_PCB C A junk lp
                      else Some (False, lp\<lparr>quantum_sleep := ucast (continuar lp)\<rparr>));
     (if salir then Some (Fin (cl_cpu lp1))
      else do {
        st \<leftarrow> ejecutar_instruccion C junk analizadorLinea (cl_cpu lp1);
        informar A junk (lp1\<lparr>cl_cpu := fold handlerDesconexion senales st, continuar := - 1\<rparr>) }) }"

partial_function (option) cpu_main ::
    "cpu_lib \<Rightarrow> abi \<Rightarrow> storage \<Rightarrow> (c_str \<Rightarrow> cpu_state \<Rightarrow> cpu_state option) \<Rightarrow> (nat \<Rightarrow> int list) \<Rightarrow> nat \<Rightarrow> cpu_loop \<Rightarrow> cpu_state option" where
  "cpu_main C A junk analizadorLinea senales n lp =
     Option.bind (cpu_vuelta C A junk analizadorLinea (senales n) lp) (\<lambda>paso.
       case paso of Fin st \<Rightarrow> Some st | Sigue lp' \<Rightarrow> cpu_main C A junk analizadorLinea senales (Suc n) lp')"

section \<open>Signals\<close>

lemma signals: "fold handlerDesconexion ss st = st\<lparr>flagDesconeccion := flagDesconeccion st \<or> SIGUSR1 \<in> set ss\<rparr>"
  by (induction ss arbitrary: st) (auto simp: handlerDesconexion_def)

lemma ejecutar_flag:
  assumes "ejecutar_instruccion C junk analizadorLinea st = Some st'"
    and keep: "\<forall>s t t'. analizadorLinea s t = Some t' \<longrightarrow> flagDesconeccion t' = flagDesconeccion t"
  shows "flagDesconeccion st' = flagDesconeccion st"
  using assms(1)
  by (auto simp: ejecutar_instruccion_def getNextPosStack_def fetch_instruction_def nuevoContexto_def stack_push_def Let_def
      split: bind_splits if_splits dest!: keep [rule_format])

lemma recibir_flag: "recibir_PCB C A junk lp = Some (b, lp') \<Longrightarrow> flagDesconeccion (cl_cpu lp') = flagDesconeccion (cl_cpu lp)"
  by (auto simp: recibir_PCB_def Let_def split: bind_splits if_splits option.splits payload.splits)

lemma informar_cases:
  assumes "informar A junk lp = Some (Sigue lp')"
  shows "report_code (cl_cpu lp) \<noteq> OC_DESCONEX_CPU" "pcb (cl_cpu lp') = pcb (cl_cpu lp)"
    "flagDesconeccion (cl_cpu lp') = flagDesconeccion (cl_cpu lp)"
  using assms by (auto simp: informar_def serializar_y_enviar_PCB_def kernel_send_def split: bind_splits if_splits)

lemma vuelta_flag:
  assumes "cpu_vuelta C A junk analizadorLinea ss lp = Some (Sigue lp')"
    and keep: "\<forall>s t t'. analizadorLinea s t = Some t' \<longrightarrow> flagDesconeccion t' = flagDesconeccion t"
  shows "flagDesconeccion (cl_cpu lp') \<longleftrightarrow> flagDesconeccion (cl_cpu lp) \<or> SIGUSR1 \<in> set ss"
    "flagDesconeccion (cl_cpu lp') \<Longrightarrow> exit_code (pcb (cl_cpu lp')) = ucast OC_TERMINA_PROGRAMA"
proof -
  obtain salir lp1 st where r: "(if continuar lp = - 1 then recibir_PCB C A junk lp
        else Some (False, lp\<lparr>quantum_sleep := ucast (continuar lp)\<rparr>)) = Some (salir, lp1)"
    and e: "ejecutar_instruccion C junk analizadorLinea (cl_cpu lp1) = Some st"
    and i: "informar A junk (lp1\<lparr>cl_cpu := fold handlerDesconexion ss st, continuar := - 1\<rparr>) = Some (Sigue lp')"
    using assms(1) unfolding cpu_vuelta_def by (auto split: bind_splits if_splits)
  have "flagDesconeccion (cl_cpu lp1) = flagDesconeccion (cl_cpu lp)"
    using r by (auto split: if_splits dest: recibir_flag)
  then have f: "flagDesconeccion st = flagDesconeccion (cl_cpu lp)" using ejecutar_flag [OF e keep] by simp
  then show flag: "flagDesconeccion (cl_cpu lp') \<longleftrightarrow> flagDesconeccion (cl_cpu lp) \<or> SIGUSR1 \<in> set ss"
    using informar_cases(3) [OF i] by (simp add: signals)
  show "exit_code (pcb (cl_cpu lp')) = ucast OC_TERMINA_PROGRAMA" if "flagDesconeccion (cl_cpu lp')"
    using that informar_cases [OF i] by (auto simp: report_code_def split: if_splits)
qed

section \<open>The end of the loop\<close>

text \<open>The first \<open>m\<close> rounds, when the loop lasts as long.\<close>

primrec cpu_vueltas ::
    "cpu_lib \<Rightarrow> abi \<Rightarrow> storage \<Rightarrow> (c_str \<Rightarrow> cpu_state \<Rightarrow> cpu_state option) \<Rightarrow> (nat \<Rightarrow> int list) \<Rightarrow> nat \<Rightarrow> cpu_loop \<Rightarrow> cpu_paso option" where
  "cpu_vueltas C A junk analizadorLinea senales 0 lp = Some (Sigue lp)"
| "cpu_vueltas C A junk analizadorLinea senales (Suc m) lp = do {
     paso \<leftarrow> cpu_vueltas C A junk analizadorLinea senales m lp;
     (case paso of Fin st \<Rightarrow> Some (Fin st) | Sigue lp' \<Rightarrow> cpu_vuelta C A junk analizadorLinea (senales m) lp') }"

lemma main_step:
  "cpu_main C A junk analizadorLinea senales n lp = Option.bind (cpu_vuelta C A junk analizadorLinea (senales n) lp) (\<lambda>paso.
     case paso of Fin st \<Rightarrow> Some st | Sigue lp' \<Rightarrow> cpu_main C A junk analizadorLinea senales (Suc n) lp')"
  by (rule cpu_main.simps)

lemma main_vueltas:
  "cpu_vueltas C A junk analizadorLinea senales m lp = Some paso \<Longrightarrow>
   cpu_main C A junk analizadorLinea senales 0 lp =
     (case paso of Fin st \<Rightarrow> Some st | Sigue lp' \<Rightarrow> cpu_main C A junk analizadorLinea senales m lp')"
proof (induction m arbitrary: paso)
  case (Suc m)
  then obtain paso' where p: "cpu_vueltas C A junk analizadorLinea senales m lp = Some paso'"
    by (auto split: bind_splits)
  from Suc.IH [OF p] Suc.prems p show ?case
    by (cases paso') (auto simp: main_step [of _ _ _ _ _ m])
qed simp

lemma vueltas_flag:
  assumes keep: "\<forall>s t t'. analizadorLinea s t = Some t' \<longrightarrow> flagDesconeccion t' = flagDesconeccion t"
  shows "cpu_vueltas C A junk analizadorLinea senales m lp = Some (Sigue lp') \<Longrightarrow> j < m \<Longrightarrow> SIGUSR1 \<in> set (senales j) \<Longrightarrow>
    flagDesconeccion (cl_cpu lp') \<and> exit_code (pcb (cl_cpu lp')) = ucast OC_TERMINA_PROGRAMA"
proof (induction m arbitrary: lp')
  case (Suc m)
  then obtain lp1 where p: "cpu_vueltas C A junk analizadorLinea senales m lp = Some (Sigue lp1)"
    and v: "cpu_vuelta C A junk analizadorLinea (senales m) lp1 = Some (Sigue lp')"
    by (auto split: bind_splits cpu_paso.splits)
  have "flagDesconeccion (cl_cpu lp')"
    using vuelta_flag(1) [OF v keep] Suc.IH [OF p] Suc.prems(2,3) by (auto simp: less_Suc_eq)
  then show ?case using vuelta_flag(2) [OF v keep] by blast
qed simp

text \<open>
  C14: A CPU that is told to disconnect does end.  Let \<open>SIGUSR1\<close> arrive in round \<open>j\<close> of the loop, and let the parser leave the flag of the handler
  alone.  After any later round, the loop has ended (and \<open>main\<close> returns with the state that round left), or the instruction of that round
  was the last of its program, so that the kernel already has the process control block back: the CPU never starts a second instruction of the
  same process after the signal.
\<close>

theorem cpu_main_exits:
  assumes "\<forall>s t t'. analizadorLinea s t = Some t' \<longrightarrow> flagDesconeccion t' = flagDesconeccion t"
    and "cpu_vueltas C A junk analizadorLinea senales m lp = Some paso" and "j < m" "SIGUSR1 \<in> set (senales j)"
  shows "(\<exists>st. paso = Fin st \<and> cpu_main C A junk analizadorLinea senales 0 lp = Some st) \<or>
    (\<exists>lp'. paso = Sigue lp' \<and> exit_code (pcb (cl_cpu lp')) = ucast OC_TERMINA_PROGRAMA)"
proof (cases paso)
  case (Sigue lp')
  then show ?thesis using vueltas_flag [OF assms(1)] assms(2-4) by blast
next
  case (Fin st)
  then show ?thesis using main_vueltas [OF assms(2)] by simp
qed

text \<open>The small process that the witnesses use can be sent.\<close>

lemma demo_stream:
  obtains stream where "pcb_serializer (sz_pcb abi32) (\<lambda>_. 0) demo_pcb = Some stream" "st_length stream = 106" "length (st_data stream) = 106"
proof -
  obtain stream where s: "pcb_serializer 24 (\<lambda>_. 0) demo_pcb = Some stream" "st_length stream = 106"
    using pcb_serializer_eq(1) [OF demo_pcb_ok _ refl refl, of 24 "\<lambda>_. 0"] by (auto simp: demo_pcb_length)
  with seq_dict.pcb_roundtrip [OF demo_pcb_ok _ s(1)] have "length (st_data stream) = 106" by auto
  with s that show ?thesis by (simp add: abi32_def)
qed

text \<open>A CPU that has the small process at its first instruction, with the answer of the memory process to its one request.\<close>

definition demo_loop :: cpu_loop where
  "demo_loop = \<lparr>cl_cpu = demo_cpu\<lparr>pcb := demo_pcb\<lparr>pcb_PC := 0\<rparr>,
       server_socket_memoria := \<lparr>sk_in = code_bytes SUCCESS @ u32_bytes 12 @ replicate 12 97, sk_out = []\<rparr>\<rparr>,
     operation_code = OC_RESP_TERMINO_INSTRUCCION, continuar = 0, quantum_sleep = 0\<rparr>"

lemma demo_read:
  assumes "length bytes = 12"
  shows "memory_read (\<lambda>_. 0) 7 0 0 12 \<lparr>sk_in = code_bytes SUCCESS @ u32_bytes 12 @ bytes @ rest, sk_out = []\<rparr> =
    (\<lparr>rr_exec_code = SUCCESS, rr_buffer_size = 12, rr_buffer = Some bytes\<rparr>,
     \<lparr>sk_in = rest, sk_out = [oc_byte READ_OC] @ u32_bytes 7 @ u32_bytes 0 @ u32_bytes 0 @ u32_bytes 12\<rparr>)"
proof -
  have "unat (12 :: u32) = 12" "bytes \<noteq> []" using assms by auto
  then show ?thesis using assms by (simp add: memory_read_def socket_send_def bytes_i16_code_bytes source_consts)
qed

definition demo_executed :: cpu_state where
  "demo_executed = demo_cpu\<lparr>nextPageOffsetInStack := \<lparr>po_page = 3, po_offset = 4\<rparr>,
     server_socket_memoria := \<lparr>sk_in = [], sk_out = [oc_byte READ_OC] @ u32_bytes 7 @ u32_bytes 0 @ u32_bytes 0 @ u32_bytes 12\<rparr>\<rparr>"

lemma demo_executes: "ejecutar_instruccion seq_cpu_lib (\<lambda>_. 0) (\<lambda>_. Some) (cl_cpu demo_loop) = Some demo_executed"
proof -
  have r: "fetch_requests 16 \<lparr>ic_offset = 0, ic_size = 12\<rparr> = [(0, 0, 12)]" by code_simp
  have l: "length (replicate 12 97) = 12" by simp
  show ?thesis
    by (simp add: ejecutar_instruccion_def getNextPosStack_def fetch_instruction_def r demo_read [OF l, of "[]", simplified] demo_executed_def demo_loop_def demo_cpu_def
        demo_pcb_def seq_cpu_lib_def seq_list_ops_def Let_def pid_int_def buscoPos_recursiva.simps last_pos_def)
qed

theorem cpu_main_exits_witness:
  "\<exists>st. cpu_main seq_cpu_lib abi32 (\<lambda>_. 0) (\<lambda>_. Some) (\<lambda>_. [SIGUSR1]) 0 demo_loop = Some st"
proof -
  let ?st = "demo_executed\<lparr>flagDesconeccion := True\<rparr>"
  have c: "report_code ?st = OC_DESCONEX_CPU"
    by (simp add: report_code_def demo_executed_def demo_cpu_def demo_pcb_def source_consts)
  have h: "handlerDesconexion SIGUSR1 demo_executed = ?st" and l: "continuar demo_loop = 0"
    by (simp_all add: handlerDesconexion_def demo_executed_def demo_cpu_def demo_loop_def)
  have "serializar_y_enviar_PCB abi32 (\<lambda>_. 0) OC_DESCONEX_CPU ?st \<noteq> None"
    by (rule demo_stream) (simp add: serializar_y_enviar_PCB_def kernel_send_def connection_send_def stream_codes_def demo_executed_def demo_cpu_def)
  then obtain st where "serializar_y_enviar_PCB abi32 (\<lambda>_. 0) OC_DESCONEX_CPU ?st = Some st" by auto
  then have "cpu_vueltas seq_cpu_lib abi32 (\<lambda>_. 0) (\<lambda>_. Some) (\<lambda>_. [SIGUSR1]) 1 demo_loop = Some (Fin st)"
    using demo_executes c h by (simp add: cpu_vuelta_def l informar_def)
  from cpu_main_exits [OF _ this, of 0] show ?thesis by simp
qed

end
