(* ===== verification/Kernel_State.thy ===== *)
theory Kernel_State
  imports CPU
begin

text \<open>
  The state of the kernel process (\<open>kernel/src/kernel_generales.h\<close>, \<open>solicitudes.h\<close>) and the small
  look-up and book-keeping functions its handlers share.

  The global variables are the record \<open>kernel\<close>.  Queues and lists of so-commons are sequences; the
  collection functions the kernel calls are the parameter \<open>kernel_lib\<close>, a record \<open>coll\<close> of operations
  for every element type.  A pointer that \<open>list_find\<close> returns and through which the code then changes
  the element is represented by the position of the element.  \<open>clientes\<close> gives the connection behind
  each file descriptor; the connections to the memory process and to the file system have fields of
  their own.  The counting semaphores of the scheduler are natural numbers; the binary ones and the
  mutexes that protect a table are left out: every handler runs as one step.

  \<open>None\<close> is undefined behaviour (a null pointer that is followed, an access outside an object) or a
  wait that is never satisfied.  Logging is left out.  \<open>int\<close>s are 32-bit words, read with \<open>sint\<close> where
  the sign matters; \<open>size_t\<close> has 32 bits, as on the platform the program was written for.
\<close>

section \<open>Collections\<close>

record 'a coll =
  kl_add :: "'a list \<Rightarrow> 'a \<Rightarrow> 'a list"
  kl_find :: "'a list \<Rightarrow> ('a \<Rightarrow> bool) \<Rightarrow> nat option"
  kl_filter :: "'a list \<Rightarrow> ('a \<Rightarrow> bool) \<Rightarrow> 'a list"
  kl_remove_by_condition :: "'a list \<Rightarrow> ('a \<Rightarrow> bool) \<Rightarrow> 'a option \<times> 'a list"
  kq_push :: "'a list \<Rightarrow> 'a \<Rightarrow> 'a list"
  kq_pop :: "'a list \<Rightarrow> 'a option \<times> 'a list"

definition remove_first :: "('a \<Rightarrow> bool) \<Rightarrow> 'a list \<Rightarrow> 'a option \<times> 'a list" where
  "remove_first P l = (case find_index P l of None \<Rightarrow> (None, l) | Some i \<Rightarrow> (Some (l ! i), remove_at i l))"

definition pop_front :: "'a list \<Rightarrow> 'a option \<times> 'a list" where
  "pop_front l = (case l of [] \<Rightarrow> (None, []) | x # xs \<Rightarrow> (Some x, xs))"

locale coll_laws =
  fixes C :: "'a coll"
  assumes kl_add: "kl_add C l x = l @ [x]"
    and kl_find: "kl_find C l P = find_index P l"
    and kl_filter: "kl_filter C l P = filter P l"
    and kl_remove_by_condition: "kl_remove_by_condition C l P = remove_first P l"
    and kq_push: "kq_push C l x = l @ [x]"
    and kq_pop: "kq_pop C l = pop_front l"

definition seq_coll :: "'a coll" where
  "seq_coll = \<lparr>kl_add = (\<lambda>l x. l @ [x]), kl_find = (\<lambda>l P. find_index P l), kl_filter = (\<lambda>l P. filter P l),
     kl_remove_by_condition = (\<lambda>l P. remove_first P l), kq_push = (\<lambda>l x. l @ [x]), kq_pop = pop_front\<rparr>"

interpretation seq_coll: coll_laws seq_coll
  by unfold_locales (simp_all add: seq_coll_def)

lemma remove_first_None: "(\<forall>x \<in> set l. \<not> P x) \<Longrightarrow> remove_first P l = (None, l)"
  by (simp add: remove_first_def find_index_None_iff [symmetric])

lemma remove_first_Some:
  assumes "remove_first P l = (Some x, l')"
  shows "P x \<and> (\<exists>xs ys. l = xs @ x # ys \<and> l' = xs @ ys \<and> (\<forall>y \<in> set xs. \<not> P y))"
proof -
  obtain i where i: "find_index P l = Some i" "x = l ! i" "l' = take i l @ drop (Suc i) l"
    using assms by (auto simp: remove_first_def remove_at_def split: option.splits)
  then have "i < length l" "P x" "\<forall>j < i. \<not> P (l ! j)" by (auto simp: find_index_Some_iff)
  moreover from this have "l = take i l @ x # drop (Suc i) l" by (simp add: i(2) id_take_nth_drop)
  moreover have "\<forall>y \<in> set (take i l). \<not> P y" using calculation by (auto simp: in_set_conv_nth)
  ultimately show ?thesis using i(3) by blast
qed

lemma remove_first_NoneD: "remove_first P l = (None, l') \<Longrightarrow> l' = l \<and> (\<forall>x \<in> set l. \<not> P x)"
  by (auto simp: remove_first_def find_index_None_iff split: option.splits)

lemma find_index_update_same:
  "i < length l \<Longrightarrow> P x = P (l ! i) \<Longrightarrow> find_index P (l[i := x]) = find_index P l"
  by (induction l arbitrary: i) (auto split: nat.splits)

section \<open>Structures\<close>

record t_pagina_heap =
  ph_pid :: u32
  ph_nro_pagina :: u32
  espacio_libre :: u32

record t_codigo_proceso =
  cp_pid :: u32
  paginas_codigo :: u32

record t_shared_var =
  sv_nombre :: c_str
  sv_valor :: u32

record t_process_file =
  proceso_fd :: u32
  pf_global_fd :: u32
  pf_flags :: t_banderas
  offset_cursor :: u32

record t_table_file =
  tf_pid :: u32
  tabla_archivos :: "t_process_file list"
  contador_fd :: u8

record t_global_file =
  gf_file :: c_str
  gf_open :: u32
  gf_global_fd :: u32

record t_par_socket_pid =
  par_pid :: u32
  par_socket :: u32
  cantidad_syscalls :: u32
  memoria_reservada :: u32
  memoria_liberada :: u32

record t_semaphore =
  cuenta :: u32
  sem_cola :: "u16 list"

record t_nuevo_proceso =
  np_pcb :: t_PCB
  np_cantidad_paginas :: u32
  np_codigo :: c_str

text \<open>\<open>nombre_semaforo\<close> and \<open>proceso_asignado\<close> are pointers; \<open>None\<close> is the null pointer.\<close>

record t_cpu =
  libre :: bool
  nombre_semaforo :: "c_str option"
  file_descriptor :: u32
  proceso_asignado :: "t_PCB option"
  cpu_quantum :: u32
  matar_proceso :: bool
  proceso_desbloqueado_por_signal :: bool
  proceso_bloqueado_por_wait :: bool

record t_kernel_conf =
  conf_quantum :: u32
  conf_quantum_sleep :: u32
  conf_algoritmo :: c_str
  conf_grado_multiprog :: u32
  conf_stack_size :: u32

record kernel =
  tabla_paginas_heap :: "t_pagina_heap list"
  tabla_global_archivos :: "t_global_file list"
  tabla_variables_compartidas :: "t_shared_var list"
  contador_fd_global :: u8
  listaDeTablasDeArchivosDeProcesos :: "t_table_file list"
  tabla_paginas_por_proceso :: "t_codigo_proceso list"
  tabla_sockets_procesos :: "t_par_socket_pid list"
  semaforos :: "(c_str \<times> t_semaphore) list"
  registro_pid :: u32
  cola_nuevos :: "t_nuevo_proceso list"
  cola_listos :: "t_PCB list"
  cola_bloqueados :: "t_PCB list"
  cola_finalizados :: "t_PCB option list"
  lista_cpu :: "t_cpu list"
  semPlanificarLargoPlazo :: nat
  semCantidadProgramasPlanificados :: nat
  semCantidadElementosColaListos :: nat
  semCantidadCpuLibres :: nat
  kernel_conf :: t_kernel_conf
  TAMANIO_PAGINAS :: u32
  memory_socket :: sock
  fs_socket :: sock
  clientes :: "u32 \<Rightarrow> sock"

text \<open>\<open>dictionary_get\<close> on the semaphores returns the semaphore itself, here its position.\<close>

record kernel_lib =
  heap_c :: "t_pagina_heap coll"
  cod_c :: "t_codigo_proceso coll"
  var_c :: "t_shared_var coll"
  pf_c :: "t_process_file coll"
  tf_c :: "t_table_file coll"
  gf_c :: "t_global_file coll"
  par_c :: "t_par_socket_pid coll"
  pid_c :: "u16 coll"
  nuevo_c :: "t_nuevo_proceso coll"
  pcb_c :: "t_PCB coll"
  fin_c :: "t_PCB option coll"
  cpu_c :: "t_cpu coll"
  sem_get :: "(c_str \<times> t_semaphore) list \<Rightarrow> c_str \<Rightarrow> nat option"
  label_dict :: dict_ops

locale kernel_commons =
  fixes K :: kernel_lib
  assumes heap_c: "coll_laws (heap_c K)" and cod_c: "coll_laws (cod_c K)" and var_c: "coll_laws (var_c K)"
    and pf_c: "coll_laws (pf_c K)" and tf_c: "coll_laws (tf_c K)" and gf_c: "coll_laws (gf_c K)"
    and par_c: "coll_laws (par_c K)" and pid_c: "coll_laws (pid_c K)" and nuevo_c: "coll_laws (nuevo_c K)"
    and pcb_c: "coll_laws (pcb_c K)" and fin_c: "coll_laws (fin_c K)" and cpu_c: "coll_laws (cpu_c K)"
    and sem_get: "sem_get K d name = find_index (\<lambda>(n, _). n = name) d"
    and label_dict: "dictionary_laws (label_dict K)"

sublocale kernel_commons \<subseteq> heap: coll_laws "heap_c K" by (rule heap_c)
sublocale kernel_commons \<subseteq> cod: coll_laws "cod_c K" by (rule cod_c)
sublocale kernel_commons \<subseteq> var: coll_laws "var_c K" by (rule var_c)
sublocale kernel_commons \<subseteq> pf: coll_laws "pf_c K" by (rule pf_c)
sublocale kernel_commons \<subseteq> tf: coll_laws "tf_c K" by (rule tf_c)
sublocale kernel_commons \<subseteq> gf: coll_laws "gf_c K" by (rule gf_c)
sublocale kernel_commons \<subseteq> par: coll_laws "par_c K" by (rule par_c)
sublocale kernel_commons \<subseteq> pid: coll_laws "pid_c K" by (rule pid_c)
sublocale kernel_commons \<subseteq> nuevo: coll_laws "nuevo_c K" by (rule nuevo_c)
sublocale kernel_commons \<subseteq> pcbs: coll_laws "pcb_c K" by (rule pcb_c)
sublocale kernel_commons \<subseteq> fin: coll_laws "fin_c K" by (rule fin_c)
sublocale kernel_commons \<subseteq> cpus: coll_laws "cpu_c K" by (rule cpu_c)
sublocale kernel_commons \<subseteq> labels: dictionary_laws "label_dict K" by (rule label_dict)

context kernel_commons
begin

lemmas coll_simps =
  heap.kl_add heap.kl_find heap.kl_filter heap.kl_remove_by_condition
  cod.kl_add cod.kl_find var.kl_find
  pf.kl_add pf.kl_find pf.kl_remove_by_condition tf.kl_add tf.kl_find
  gf.kl_add gf.kl_find gf.kl_remove_by_condition
  par.kl_add par.kl_find par.kl_remove_by_condition
  pid.kq_push pid.kq_pop pid.kl_remove_by_condition
  nuevo.kq_push nuevo.kq_pop nuevo.kl_remove_by_condition
  pcbs.kq_push pcbs.kq_pop pcbs.kl_find pcbs.kl_remove_by_condition
  fin.kq_push cpus.kl_add cpus.kl_find cpus.kl_remove_by_condition sem_get

end

definition seq_kernel_lib :: kernel_lib where
  "seq_kernel_lib = \<lparr>heap_c = seq_coll, cod_c = seq_coll, var_c = seq_coll, pf_c = seq_coll, tf_c = seq_coll,
     gf_c = seq_coll, par_c = seq_coll, pid_c = seq_coll, nuevo_c = seq_coll, pcb_c = seq_coll, fin_c = seq_coll,
     cpu_c = seq_coll, sem_get = (\<lambda>d name. find_index (\<lambda>(n, _). n = name) d), label_dict = seq_dict_ops\<rparr>"

interpretation seq_kernel: kernel_commons seq_kernel_lib
  by unfold_locales
    (simp_all add: seq_kernel_lib_def seq_coll_def seq_dict.put_lookup seq_dict.put_distinct seq_dict.get_lookup)

section \<open>Messages to the processes of the system\<close>

definition send_to :: "abi \<Rightarrow> byte \<Rightarrow> message \<Rightarrow> u32 \<Rightarrow> kernel \<Rightarrow> kernel option" where
  "send_to A oc msg fd k =
     map_option (\<lambda>(_, s). k\<lparr>clientes := (clientes k)(fd := s)\<rparr>) (connection_send A oc msg (clientes k fd))"

definition finalizar_en_memoria :: "storage \<Rightarrow> u32 \<Rightarrow> kernel \<Rightarrow> kernel" where
  "finalizar_en_memoria junk pid k = k\<lparr>memory_socket := snd (memory_finalize_process junk pid (memory_socket k))\<rparr>"

section \<open>Look-ups and accounting\<close>

definition buscar_codigo_de_proceso :: "kernel_lib \<Rightarrow> u32 \<Rightarrow> kernel \<Rightarrow> t_codigo_proceso option" where
  "buscar_codigo_de_proceso K pid k =
     map_option ((!) (tabla_paginas_por_proceso k)) (kl_find (cod_c K) (tabla_paginas_por_proceso k) (\<lambda>c. cp_pid c = pid))"

definition encontrar_consola_de_pcb :: "kernel_lib \<Rightarrow> u32 \<Rightarrow> kernel \<Rightarrow> nat option" where
  "encontrar_consola_de_pcb K pid k = kl_find (par_c K) (tabla_sockets_procesos k) (\<lambda>p. pid = par_pid p)"

definition obtener_cpu :: "kernel_lib \<Rightarrow> u32 \<Rightarrow> kernel \<Rightarrow> nat option" where
  "obtener_cpu K fd k = kl_find (cpu_c K) (lista_cpu k) (\<lambda>c. file_descriptor c = fd)"

definition runs_pid :: "u32 \<Rightarrow> t_cpu \<Rightarrow> bool" where
  "runs_pid pid c = (case proceso_asignado c of None \<Rightarrow> False | Some p \<Rightarrow> ucast (pcb_pid p) = pid)"

definition obtener_cpu_por_proceso :: "kernel_lib \<Rightarrow> u32 \<Rightarrow> kernel \<Rightarrow> nat option" where
  "obtener_cpu_por_proceso K pid k = kl_find (cpu_c K) (lista_cpu k) (runs_pid pid)"

definition pid_of_cpu :: "kernel \<Rightarrow> nat option \<Rightarrow> u32 option" where
  "pid_of_cpu k ci = do { i \<leftarrow> ci; p \<leftarrow> proceso_asignado (lista_cpu k ! i); Some (ucast (pcb_pid p)) }"

text \<open>
  The three accounting functions look for the entry of the process running on a CPU.  The CPU is only
  looked at by the test that \<open>list_find\<close> calls on an element of the table.
\<close>

definition update_par :: "kernel_lib \<Rightarrow> nat option \<Rightarrow> (t_par_socket_pid \<Rightarrow> t_par_socket_pid) \<Rightarrow> kernel \<Rightarrow> kernel option" where
  "update_par K ci f k =
     (if tabla_sockets_procesos k = [] then Some k
      else do {
        pid \<leftarrow> pid_of_cpu k ci;
        (case kl_find (par_c K) (tabla_sockets_procesos k) (\<lambda>p. pid = par_pid p) of
           None \<Rightarrow> Some k
         | Some i \<Rightarrow> Some (k\<lparr>tabla_sockets_procesos := (tabla_sockets_procesos k)[i := f (tabla_sockets_procesos k ! i)]\<rparr>)) })"

definition sumar_syscall :: "kernel_lib \<Rightarrow> u32 \<Rightarrow> kernel \<Rightarrow> kernel option" where
  "sumar_syscall K fd k = update_par K (obtener_cpu K fd k) (\<lambda>p. p\<lparr>cantidad_syscalls := cantidad_syscalls p + 1\<rparr>) k"

definition sumar_espacio_reservado :: "kernel_lib \<Rightarrow> u32 \<Rightarrow> u32 \<Rightarrow> kernel \<Rightarrow> kernel option" where
  "sumar_espacio_reservado K espacio fd k =
     update_par K (obtener_cpu K fd k) (\<lambda>p. p\<lparr>memoria_reservada := memoria_reservada p + espacio\<rparr>) k"

definition sumar_espacio_liberado :: "kernel_lib \<Rightarrow> u32 \<Rightarrow> u32 \<Rightarrow> kernel \<Rightarrow> kernel option" where
  "sumar_espacio_liberado K pid espacio k =
     update_par K (obtener_cpu_por_proceso K pid k) (\<lambda>p. p\<lparr>memoria_liberada := memoria_liberada p + espacio\<rparr>) k"

section \<open>Shared variables\<close>

definition find_var :: "kernel_lib \<Rightarrow> c_str \<Rightarrow> kernel \<Rightarrow> nat option" where
  "find_var K nombre k = kl_find (var_c K) (tabla_variables_compartidas k) (\<lambda>v. sv_nombre v = nombre)"

definition asignarValorVariable :: "kernel_lib \<Rightarrow> t_shared_var \<Rightarrow> kernel \<Rightarrow> kernel option" where
  "asignarValorVariable K recibida k =
     map_option (\<lambda>i. k\<lparr>tabla_variables_compartidas := (tabla_variables_compartidas k)
         [i := (tabla_variables_compartidas k ! i)\<lparr>sv_valor := sv_valor recibida\<rparr>]\<rparr>) (find_var K (sv_nombre recibida) k)"

definition leerValorVariable :: "kernel_lib \<Rightarrow> c_str \<Rightarrow> kernel \<Rightarrow> u32 option" where
  "leerValorVariable K nombre k = map_option (\<lambda>i. sv_valor (tabla_variables_compartidas k ! i)) (find_var K nombre k)"

text \<open>
  The request \<open>OC_FUNCION_ESCRIBIR_VARIABLE\<close>: the length of the name is taken from the first byte of
  the buffer alone, a \<open>char\<close>.
\<close>

definition escribir_variable :: "kernel_lib \<Rightarrow> u32 \<Rightarrow> byte list \<Rightarrow> kernel \<Rightarrow> kernel option" where
  "escribir_variable K fd buffer k = do {
     k1 \<leftarrow> sumar_syscall K fd k;
     (case buffer of [] \<Rightarrow> None | b # _ \<Rightarrow>
        if sint b < 0 \<or> length buffer < 8 + unat b then None
        else asignarValorVariable K
          \<lparr>sv_nombre = takeWhile (\<lambda>c. c \<noteq> 0) (take (unat b) (drop 4 buffer)),
           sv_valor = bytes_u32 (take 4 (drop (4 + unat b) buffer))\<rparr> k1) }"

definition leer_variable :: "kernel_lib \<Rightarrow> abi \<Rightarrow> u32 \<Rightarrow> byte list \<Rightarrow> kernel \<Rightarrow> kernel option" where
  "leer_variable K A fd buffer k = do {
     k1 \<leftarrow> sumar_syscall K fd k;
     (if 0 \<notin> set buffer then None
      else do {
        valor \<leftarrow> leerValorVariable K (takeWhile (\<lambda>c. c \<noteq> 0) buffer) k1;
        send_to A OC_RESP_LEER_VARIABLE (Mem (u32_bytes valor)) fd k1 }) }"

section \<open>Lemmas\<close>

lemma update_par_other:
  "update_par K ci f k = Some k' \<Longrightarrow> \<exists>t. k' = k\<lparr>tabla_sockets_procesos := t\<rparr>"
  by (auto simp: update_par_def split: if_splits bind_splits option.splits intro: exI [of _ "tabla_sockets_procesos k"])

lemma update_par_Some:
  assumes "ci = Some c" "proceso_asignado (lista_cpu k ! c) = Some p"
  shows "\<exists>t. update_par K ci f k = Some (k\<lparr>tabla_sockets_procesos := t\<rparr>)"
proof (cases "update_par K ci f k")
  case None
  then show ?thesis
    using assms by (simp add: update_par_def pid_of_cpu_def split: if_splits option.splits)
next
  case (Some k')
  then show ?thesis using update_par_other [OF Some] by blast
qed

text \<open>What a handler has to find for a request of the program running on a CPU.\<close>

definition request_from :: "kernel_lib \<Rightarrow> u32 \<Rightarrow> kernel \<Rightarrow> bool" where
  "request_from K fd k \<longleftrightarrow> (\<exists>c p. obtener_cpu K fd k = Some c \<and> proceso_asignado (lista_cpu k ! c) = Some p)"

lemma sumar_Some:
  assumes "request_from K fd k"
  shows "\<exists>t. sumar_syscall K fd k = Some (k\<lparr>tabla_sockets_procesos := t\<rparr>)"
    "\<exists>t. sumar_espacio_reservado K espacio fd k = Some (k\<lparr>tabla_sockets_procesos := t\<rparr>)"
  using assms update_par_Some unfolding request_from_def sumar_syscall_def sumar_espacio_reservado_def by blast+

lemma sint_of_nat_u32: "n < 2 ^ 31 \<Longrightarrow> sint (word_of_nat n :: u32) = int n"
  by (simp add: signed_of_nat signed_take_bit_int_eq_self)

lemma sint_u32: "unat (T :: u32) < 2 ^ 31 \<Longrightarrow> sint T = int (unat T)"
  using sint_of_nat_u32 [of "unat T"] by simp

lemma unat_of_nat_u32: "n < 2 ^ 32 \<Longrightarrow> unat (word_of_nat n :: u32) = n"
  by (simp add: unat_of_nat)

section \<open>An example state\<close>

text \<open>A kernel with one program, pid 1, running on the CPU connected as 7; pages of 64 bytes, two of code.\<close>

definition demo_conf :: t_kernel_conf where
  "demo_conf = \<lparr>conf_quantum = 3, conf_quantum_sleep = 0, conf_algoritmo = [82, 82], conf_grado_multiprog = 4, conf_stack_size = 2\<rparr>"

definition demo_cpu_entry :: t_cpu where
  "demo_cpu_entry = \<lparr>libre = False, nombre_semaforo = None, file_descriptor = 7,
     proceso_asignado = Some (demo_pcb\<lparr>pcb_pid := 1\<rparr>), cpu_quantum = 0, matar_proceso = False,
     proceso_desbloqueado_por_signal = False, proceso_bloqueado_por_wait = False\<rparr>"

definition demo_kernel :: "t_pagina_heap list \<Rightarrow> byte list \<Rightarrow> kernel" where
  "demo_kernel heap answers = \<lparr>tabla_paginas_heap = heap, tabla_global_archivos = [], tabla_variables_compartidas = [],
     contador_fd_global = 10, listaDeTablasDeArchivosDeProcesos = [],
     tabla_paginas_por_proceso = [\<lparr>cp_pid = 1, paginas_codigo = 2\<rparr>], tabla_sockets_procesos = [], semaforos = [],
     registro_pid = 2, cola_nuevos = [], cola_listos = [], cola_bloqueados = [], cola_finalizados = [],
     lista_cpu = [demo_cpu_entry], semPlanificarLargoPlazo = 0, semCantidadProgramasPlanificados = 1,
     semCantidadElementosColaListos = 0, semCantidadCpuLibres = 0, kernel_conf = demo_conf, TAMANIO_PAGINAS = 64,
     memory_socket = \<lparr>sk_in = answers, sk_out = []\<rparr>, fs_socket = \<lparr>sk_in = [], sk_out = []\<rparr>,
     clientes = (\<lambda>_. \<lparr>sk_in = [], sk_out = []\<rparr>)\<rparr>"

lemmas demo_simps = demo_kernel_def demo_cpu_entry_def seq_kernel_lib_def seq_coll_def

lemma demo_kernel_fields [simp]:
  "tabla_paginas_heap (demo_kernel heap answers) = heap" "TAMANIO_PAGINAS (demo_kernel heap answers) = 64"
  "clientes (demo_kernel heap answers) fd = \<lparr>sk_in = [], sk_out = []\<rparr>"
  by (simp_all add: demo_kernel_def)

end
