(* ===== verification/Kernel_Code.thy ===== *)
theory Kernel_Code
  imports Kernel_State
begin

text \<open>
  How the kernel takes a new program (\<open>kernel/src/solicitudes.c\<close>): the number of pages its code needs, the
  tables built from the parser's description of the program, the PCB, the request
  \<open>OC_SOLICITUD_PROGRAMA_NUEVO\<close>, and the upload of the code to the memory process.  The parser of the
  language (\<open>metadata_desde_literal\<close>) is not part of the repository: what it returns is the argument
  \<open>t_metadata_program\<close>.
\<close>

section \<open>Pages of code\<close>

text \<open>\<open>T\<close> is \<open>TAMANIO_PAGINAS\<close>; \<open>None\<close> is the division by zero.\<close>

definition calcular_paginas_de_codigo :: "u32 \<Rightarrow> c_str \<Rightarrow> int option" where
  "calcular_paginas_de_codigo T codigo =
     (let tamanio_codigo = int (length codigo); paginas = c_div tamanio_codigo (sint T) in
      if T = 0 \<or> 2 ^ 31 \<le> length codigo then None
      else Some (if paginas * sint T < tamanio_codigo then paginas + 1 else paginas))"

definition calcular_paginas_necesarias :: "c_str \<Rightarrow> kernel \<Rightarrow> int option" where
  "calcular_paginas_necesarias codigo k =
     map_option (\<lambda>n. n + sint (conf_stack_size (kernel_conf k))) (calcular_paginas_de_codigo (TAMANIO_PAGINAS k) codigo)"

text \<open>
  The upload, for a positive page size \<open>T\<close>: \<open>i\<close> is the number of the next page and \<open>codigo\<close> the code still
  to be sent.  With pages of size zero the loop does not end.
\<close>

function mandar_paginas :: "storage \<Rightarrow> nat \<Rightarrow> u32 \<Rightarrow> u32 \<Rightarrow> c_str \<Rightarrow> sock \<Rightarrow> sock option" where
  "mandar_paginas junk T pid i codigo s =
     (if T < length codigo then
        if T = 0 then None
        else Option.bind (memory_write junk pid i 0 (word_of_nat T) (word_of_nat T) codigo s)
          (\<lambda>(_, s1). mandar_paginas junk T pid (i + 1) (drop T codigo) s1)
      else if 0 < length codigo then
        map_option snd (memory_write junk pid i 0 (word_of_nat (length codigo)) (word_of_nat (length codigo)) codigo s)
      else Some s)"
  by pat_completeness auto
termination
  by (relation "measure (\<lambda>(junk, T, pid, i, codigo, s). length codigo)") auto

declare mandar_paginas.simps [simp del]

definition mandar_codigo_a_memoria :: "storage \<Rightarrow> c_str \<Rightarrow> u32 \<Rightarrow> kernel \<Rightarrow> kernel option" where
  "mandar_codigo_a_memoria junk codigo pid k =
     (if sint (TAMANIO_PAGINAS k) < 0 \<or> 2 ^ 31 \<le> length codigo then None
      else map_option (\<lambda>s. k\<lparr>memory_socket := s\<rparr>)
        (mandar_paginas junk (unat (TAMANIO_PAGINAS k)) pid 0 codigo (memory_socket k)))"

definition notificar_memoria_inicio_programa :: "storage \<Rightarrow> u32 \<Rightarrow> u32 \<Rightarrow> c_str \<Rightarrow> kernel \<Rightarrow> (int \<times> kernel) option" where
  "notificar_memoria_inicio_programa junk pid cant_paginas codigo_completo k =
     (case memory_init_process junk pid cant_paginas (memory_socket k) of
        (status, s) \<Rightarrow>
          (let k1 = k\<lparr>memory_socket := s\<rparr> in
           if status = - 203 then Some (status, k1)
           else map_option (Pair status) (mandar_codigo_a_memoria junk codigo_completo pid k1)))"

section \<open>The tables of a program\<close>

record t_metadata_program =
  instrucciones_size :: u32
  instrucciones_serializado :: "t_indice_codigo list"
  md_etiquetas :: "byte list"
  cantidad_de_etiquetas :: u32
  cantidad_de_funciones :: u32

definition obtener_indice_codigo :: "t_metadata_program \<Rightarrow> t_indice_codigo list option" where
  "obtener_indice_codigo m =
     (if length (instrucciones_serializado m) < unat (instrucciones_size m) then None
      else Some (take (unat (instrucciones_size m)) (instrucciones_serializado m)))"

fun leer_etiquetas :: "dict_ops \<Rightarrow> nat \<Rightarrow> byte list \<Rightarrow> t_dictionary \<Rightarrow> t_dictionary option" where
  "leer_etiquetas D 0 b d = Some d"
| "leer_etiquetas D (Suc n) b d =
     (let key = takeWhile (\<lambda>c. c \<noteq> 0) b; rest = drop (length key + 1) b in
      if 0 \<notin> set b \<or> length rest < 4 then None
      else leer_etiquetas D n (drop 4 rest) (dictionary_put D d key (bytes_u32 (take 4 rest))))"

definition obtener_indice_etiquetas :: "dict_ops \<Rightarrow> t_metadata_program \<Rightarrow> t_dictionary option" where
  "obtener_indice_etiquetas D m =
     leer_etiquetas D (nat (sint (cantidad_de_etiquetas m + cantidad_de_funciones m))) (md_etiquetas m) []"

section \<open>A new program\<close>

text \<open>
  \<open>pid\<close> is a \<open>uint16_t\<close>, the counter an \<open>int\<close>.  The fields that \<open>crear_PCB\<close> does not assign have the content
  of fresh storage; the tables are assigned by its only caller.
\<close>

definition crear_PCB :: "storage \<Rightarrow> kernel \<Rightarrow> t_PCB \<times> kernel" where
  "crear_PCB junk k =
     (\<lparr>pcb_pid = ucast (registro_pid k), pcb_PC = bytes_u16 [junk 2, junk 3], cantidad_paginas = 0, exit_code = 0,
       pcb_SP = 0, cantidad_instrucciones = bytes_u16 [junk 10, junk 11], indice_stack = [], indice_codigo = [],
       indice_etiquetas = []\<rparr>,
      k\<lparr>registro_pid := registro_pid k + 1\<rparr>)"

definition solicitud_programa_nuevo ::
    "kernel_lib \<Rightarrow> abi \<Rightarrow> storage \<Rightarrow> (c_str \<Rightarrow> t_metadata_program) \<Rightarrow> u32 \<Rightarrow> c_str \<Rightarrow> kernel \<Rightarrow> kernel option" where
  "solicitud_programa_nuevo K A junk metadata_desde_literal fd codigo k = do {
     cant \<leftarrow> calcular_paginas_necesarias codigo k;
     let cant_paginas = (word_of_int cant :: u32);
     let (p, k1) = crear_PCB junk k;
     let pid = (ucast (pcb_pid p) :: u32);
     let k2 = k1\<lparr>tabla_sockets_procesos := kl_add (par_c K) (tabla_sockets_procesos k1)
       \<lparr>par_pid = pid, par_socket = fd, cantidad_syscalls = 0, memoria_reservada = 0, memoria_liberada = 0\<rparr>\<rparr>;
     let k3 = k2\<lparr>tabla_paginas_por_proceso := kl_add (cod_c K) (tabla_paginas_por_proceso k2)
       \<lparr>cp_pid = pid, paginas_codigo = cant_paginas\<rparr>\<rparr>;
     k4 \<leftarrow> send_to A OC_NUEVA_CONSOLA_PID (Mem (u16_bytes (pcb_pid p))) fd k3;
     let metadata = metadata_desde_literal codigo;
     codigo_index \<leftarrow> obtener_indice_codigo metadata;
     etiquetas \<leftarrow> obtener_indice_etiquetas (label_dict K) metadata;
     let p1 = p\<lparr>cantidad_paginas := ucast (cant_paginas - conf_stack_size (kernel_conf k)), pcb_PC := 0, pcb_SP := 0,
       cantidad_instrucciones := ucast (instrucciones_size metadata), indice_codigo := codigo_index,
       indice_etiquetas := etiquetas\<rparr>;
     let k5 = k4\<lparr>listaDeTablasDeArchivosDeProcesos := kl_add (tf_c K) (listaDeTablasDeArchivosDeProcesos k4)
       \<lparr>tf_pid = pid, tabla_archivos = [], contador_fd = 10\<rparr>\<rparr>;
     Some (k5\<lparr>cola_nuevos := kq_push (nuevo_c K) (cola_nuevos k5) \<lparr>np_pcb = p1, np_cantidad_paginas = cant_paginas, np_codigo = codigo\<rparr>,
       semPlanificarLargoPlazo := semPlanificarLargoPlazo k5 + 1\<rparr>) }"

section \<open>The upload covers the code\<close>

text \<open>The pages a piece of code is cut into.\<close>

function chunks :: "nat \<Rightarrow> 'a list \<Rightarrow> 'a list list" where
  "chunks T xs = (if T = 0 \<or> length xs \<le> T then (if xs = [] then [] else [xs]) else take T xs # chunks T (drop T xs))"
  by pat_completeness auto
termination
  by (relation "measure (\<lambda>(T, xs). length xs)") auto

declare chunks.simps [simp del]

definition code_write :: "u32 \<Rightarrow> nat \<Rightarrow> byte list \<Rightarrow> byte list" where
  "code_write pid i chunk = [oc_byte WRITE_OC] @ u32_bytes pid @ u32_bytes (word_of_nat i) @ u32_bytes 0
     @ u32_bytes (word_of_nat (length chunk)) @ u32_bytes (word_of_nat (length chunk)) @ chunk"

lemma concat_chunks: "concat (chunks T xs) = xs"
proof (induction T xs rule: chunks.induct)
  case (1 T xs)
  then show ?case by (subst chunks.simps) auto
qed

lemma chunk_size: "0 < T \<Longrightarrow> c \<in> set (chunks T xs) \<Longrightarrow> 0 < length c \<and> length c \<le> T"
proof (induction T xs rule: chunks.induct)
  case (1 T xs)
  then have "c \<in> set (if length xs \<le> T then (if xs = [] then [] else [xs]) else take T xs # chunks T (drop T xs))"
    by (simp add: chunks.simps [of T xs])
  with 1 show ?case by (auto split: if_splits)
qed

lemma memory_write_out:
  assumes "unat n \<le> length bytes"
  shows "\<exists>c s'. memory_write junk pid page 0 n n bytes s = Some (c, s') \<and> sk_out s' = sk_out s @ [oc_byte WRITE_OC]
    @ u32_bytes pid @ u32_bytes page @ u32_bytes 0 @ u32_bytes n @ u32_bytes n @ take (unat n) bytes"
proof -
  obtain c s' where r: "recv_code junk (socket_send ([oc_byte WRITE_OC] @ u32_bytes pid @ u32_bytes page @ u32_bytes 0
      @ u32_bytes n @ u32_bytes n @ take (unat n) bytes) s) = (c, s')" by fastforce
  then have "sk_out s' = sk_out s @ [oc_byte WRITE_OC] @ u32_bytes pid @ u32_bytes page @ u32_bytes 0
      @ u32_bytes n @ u32_bytes n @ take (unat n) bytes"
    by (auto simp: recv_code_def socket_send_def dest: recv_storage_out split: prod.splits option.splits)
  with r assms show ?thesis
    by (intro exI [of _ c] exI [of _ s']) (simp add: memory_write_def)
qed

lemma mandar_paginas_out:
  assumes "0 < T" "length codigo < 2 ^ 31"
  shows "\<exists>s'. mandar_paginas junk T pid (word_of_nat i) codigo s = Some s' \<and>
    sk_out s' = sk_out s @ concat (map (\<lambda>(j, c). code_write pid (i + j) c) (enumerate 0 (chunks T codigo)))"
  using assms
proof (induction "length codigo" arbitrary: codigo i s rule: less_induct)
  case less
  have w: "unat (word_of_nat n :: u32) = n" if "n \<le> length codigo" for n
    using less.prems that by (simp add: unat_of_nat)
  show ?case
  proof (cases "T < length codigo")
    case True
    obtain c s1 where m: "memory_write junk pid (word_of_nat i) 0 (word_of_nat T) (word_of_nat T) codigo s = Some (c, s1)"
      and o: "sk_out s1 = sk_out s @ code_write pid i (take T codigo)"
      using memory_write_out [of "word_of_nat T" codigo junk pid "word_of_nat i" s] True w [of T]
      by (auto simp: code_write_def)
    have "length (drop T codigo) < length codigo" using True less.prems(1) by simp
    then obtain s' where s': "mandar_paginas junk T pid (word_of_nat (Suc i)) (drop T codigo) s1 = Some s'"
      "sk_out s' = sk_out s1 @ concat (map (\<lambda>(j, c). code_write pid (Suc i + j) c) (enumerate 0 (chunks T (drop T codigo))))"
      using less.hyps [of "drop T codigo" "Suc i" s1] less.prems by auto
    have "concat (map (\<lambda>(j, c). code_write pid (Suc i + j) c) (enumerate 0 cs)) =
        concat (map (\<lambda>(j, c). code_write pid (i + j) c) (enumerate (Suc 0) cs))" for cs
      by (simp add: enumerate_Suc_eq comp_def case_prod_unfold)
    with s' o True less.prems(1) m show ?thesis
      by (subst mandar_paginas.simps, subst chunks.simps) (simp add: add.commute)
  next
    case False
    show ?thesis
    proof (cases "codigo = []")
      case True
      then show ?thesis by (subst mandar_paginas.simps, subst chunks.simps) simp
    next
      case nonempty: False
      show ?thesis
        using memory_write_out [of "word_of_nat (length codigo)" codigo junk pid "word_of_nat i" s] w [of "length codigo"] False nonempty
        by (subst mandar_paginas.simps, subst chunks.simps) (auto simp: code_write_def)
    qed
  qed
qed

lemma one_page: "0 < r \<Longrightarrow> r \<le> T \<Longrightarrow> (r + T - Suc 0) div T = Suc 0"
proof -
  assume r: "0 < r" "r \<le> T"
  then have "(r + T - Suc 0) div T = (r - 1 + T) div T" by simp
  also have "\<dots> = Suc ((r - 1) div T)" using r by (subst div_add_self2) simp_all
  finally show ?thesis using r by simp
qed

lemma ceil_div: "0 < T \<Longrightarrow> (if n div T * T < n then n div T + 1 else n div T) = (n + T - 1) div (T :: nat)"
proof -
  assume T: "0 < T"
  have n: "n = n div T * T + n mod T" by simp
  have "(n + T - 1) div T = (n mod T + T - 1 + n div T * T) div T" by (subst n) (use T in \<open>simp add: algebra_simps\<close>)
  also have "\<dots> = n div T + (n mod T + T - 1) div T" using T by (subst div_mult_self1) simp_all
  also have "(n mod T + T - 1) div T = (if n mod T = 0 then 0 else 1)"
    using T by (auto simp: one_page)
  finally have "(n + T - 1) div T = n div T + (if n mod T = 0 then 0 else 1)" .
  moreover have "n div T * T < n \<longleftrightarrow> n mod T \<noteq> 0" using n by (intro iffI) linarith+
  ultimately show ?thesis by simp
qed

lemma length_chunks: "0 < T \<Longrightarrow> length (chunks T xs) = (length xs + T - 1) div T"
proof (induction T xs rule: chunks.induct)
  case (1 T xs)
  show ?case
  proof (cases "length xs \<le> T")
    case True
    with 1(2) show ?thesis by (subst chunks.simps) (auto simp: one_page)
  next
    case False
    then have e: "length xs + T - 1 = length (drop T xs) + T - 1 + T" using 1(2) by simp
    have "(length xs + T - 1) div T = Suc ((length (drop T xs) + T - 1) div T)"
      using 1(2) unfolding e by (subst div_add_self2) simp_all
    with False 1 show ?thesis by (subst chunks.simps) simp
  qed
qed

text \<open>
  C27: The upload and the page count agree.  For a positive page size, \<open>mandar_codigo_a_memoria\<close> ends and
  sends one write request for each of the pages \<open>0 ... n - 1\<close>, where \<open>n\<close> is the number
  \<open>calcular_paginas_de_codigo\<close> gives, each at offset 0 and with at most a page of bytes; together the
  requests carry the whole code, in order.
\<close>

theorem code_upload_covers_code:
  assumes "0 < unat (TAMANIO_PAGINAS k)" "length codigo < 2 ^ 31" "unat (TAMANIO_PAGINAS k) < 2 ^ 31"
  shows "\<exists>k' cs. mandar_codigo_a_memoria junk codigo pid k = Some k' \<and>
    sk_out (memory_socket k') = sk_out (memory_socket k) @ concat (map (\<lambda>(i, c). code_write pid i c) (enumerate 0 cs)) \<and>
    concat cs = codigo \<and> (\<forall>c \<in> set cs. 0 < length c \<and> length c \<le> unat (TAMANIO_PAGINAS k)) \<and>
    calcular_paginas_de_codigo (TAMANIO_PAGINAS k) codigo = Some (int (length cs))"
proof -
  let ?T = "unat (TAMANIO_PAGINAS k)"
  have T: "sint (TAMANIO_PAGINAS k) = int ?T" "0 < ?T" using assms(1,3) by (simp_all add: sint_u32)
  obtain s' where s': "mandar_paginas junk ?T pid 0 codigo (memory_socket k) = Some s'"
    "sk_out s' = sk_out (memory_socket k) @ concat (map (\<lambda>(i, c). code_write pid i c) (enumerate 0 (chunks ?T codigo)))"
    using mandar_paginas_out [OF T(2) assms(2), of junk pid 0 "memory_socket k"] by auto
  have "c_div (int (length codigo)) (int ?T) = int (length codigo div ?T)"
    unfolding zdiv_int using T(2) by (intro c_div_nonneg) linarith+
  moreover have "(int (length codigo div ?T) * int ?T < int (length codigo)) = (length codigo div ?T * ?T < length codigo)"
    by (metis of_nat_less_iff of_nat_mult)
  moreover have "TAMANIO_PAGINAS k \<noteq> 0" using T(2) by auto
  ultimately have "calcular_paginas_de_codigo (TAMANIO_PAGINAS k) codigo = Some (int (length (chunks ?T codigo)))"
    using assms(2) unfolding length_chunks [OF T(2)] ceil_div [OF T(2), symmetric]
    by (simp add: calcular_paginas_de_codigo_def T(1) Let_def)
  moreover have "\<forall>c \<in> set (chunks ?T codigo). 0 < length c \<and> length c \<le> ?T" using chunk_size [OF T(2)] by blast
  ultimately show ?thesis using s' T(1) assms(2)
    by (intro exI [of _ "k\<lparr>memory_socket := s'\<rparr>"] exI [of _ "chunks ?T codigo"])
      (simp add: mandar_codigo_a_memoria_def concat_chunks)
qed


theorem code_upload_covers_code_witness:
  "\<exists>k' cs. mandar_codigo_a_memoria (\<lambda>_. 0) (replicate 100 9) 1 (demo_kernel [] []) = Some k' \<and> concat cs = replicate 100 (9 :: byte) \<and>
    calcular_paginas_de_codigo 64 (replicate 100 9) = Some (int (length cs))"
proof -
  have "0 < unat (TAMANIO_PAGINAS (demo_kernel [] []))" "length (replicate 100 (9 :: byte)) < 2 ^ 31"
    "unat (TAMANIO_PAGINAS (demo_kernel [] [])) < 2 ^ 31" by simp_all
  from code_upload_covers_code [OF this, of "\<lambda>_. 0" 1] show ?thesis
    unfolding demo_kernel_fields(2) by (elim exE conjE) (intro exI conjI)
qed

end
