(* ===== verification/Kernel_Sched.thy ===== *)
theory Kernel_Sched
  imports Kernel_Code
begin

text \<open>
  The scheduler of the kernel (\<open>kernel/src/kernel.c\<close>, \<open>kernel_generales.c\<close>, and the requests of
  \<open>solicitudes.c\<close> that move processes): the queues of new, ready, blocked and finished processes, the CPUs,
  and the semaphores of the programs.  Every transition is one function on the state; \<open>None\<close> includes a
  \<open>sem_wait\<close> on a counter that is zero, which blocks the thread, and the overflow of a semaphore's count.  A CPU is referred to by its position in
  \<open>lista_cpu\<close>.  The PCB a CPU sends back is deserialised before these functions are called.
\<close>

section \<open>CPUs\<close>

definition cpu_create :: "u32 \<Rightarrow> t_cpu" where
  "cpu_create fd = \<lparr>libre = True, nombre_semaforo = None, file_descriptor = fd, proceso_asignado = None, cpu_quantum = 0,
     matar_proceso = False, proceso_desbloqueado_por_signal = False, proceso_bloqueado_por_wait = False\<rparr>"

definition update_cpu :: "nat \<Rightarrow> (t_cpu \<Rightarrow> t_cpu) \<Rightarrow> kernel \<Rightarrow> kernel" where
  "update_cpu i f k = k\<lparr>lista_cpu := (lista_cpu k)[i := f (lista_cpu k ! i)]\<rparr>"

text \<open>A CPU connects: the branch of \<open>manage_select\<close> for the CPU port.\<close>

definition conectar_cpu :: "kernel_lib \<Rightarrow> abi \<Rightarrow> u32 \<Rightarrow> kernel \<Rightarrow> kernel option" where
  "conectar_cpu K A fd k =
     map_option (\<lambda>k1. k1\<lparr>lista_cpu := kl_add (cpu_c K) (lista_cpu k1) (cpu_create fd),
         semCantidadCpuLibres := semCantidadCpuLibres k1 + 1\<rparr>)
       (send_to A HANDSHAKE_CPU (Mem (u32_bytes (conf_stack_size (kernel_conf k)))) fd k)"

definition liberar_cpu :: "nat \<Rightarrow> kernel \<Rightarrow> kernel" where
  "liberar_cpu i k = update_cpu i (\<lambda>c. c\<lparr>libre := True, cpu_quantum := 0, proceso_asignado := None, matar_proceso := False,
     proceso_desbloqueado_por_signal := False, proceso_bloqueado_por_wait := False\<rparr>) k"

definition eliminar_cpu :: "kernel_lib \<Rightarrow> u32 \<Rightarrow> kernel \<Rightarrow> kernel" where
  "eliminar_cpu K fd k = k\<lparr>lista_cpu := snd (kl_remove_by_condition (cpu_c K) (lista_cpu k) (\<lambda>c. file_descriptor c = fd))\<rparr>"

definition buscar_pcb_en_lista_cpu :: "kernel_lib \<Rightarrow> u16 \<Rightarrow> kernel \<Rightarrow> nat option" where
  "buscar_pcb_en_lista_cpu K pid k = kl_find (cpu_c K) (lista_cpu k)
     (\<lambda>c. case proceso_asignado c of None \<Rightarrow> False | Some p \<Rightarrow> pcb_pid p = pid)"

section \<open>Moving processes between the queues\<close>

definition cola_listos_push :: "kernel_lib \<Rightarrow> t_PCB \<Rightarrow> kernel \<Rightarrow> kernel" where
  "cola_listos_push K p k = k\<lparr>cola_listos := kq_push (pcb_c K) (cola_listos k) p,
     semCantidadElementosColaListos := semCantidadElementosColaListos k + 1\<rparr>"

definition pasarDeNewAReady :: "kernel_lib \<Rightarrow> storage \<Rightarrow> kernel \<Rightarrow> kernel option" where
  "pasarDeNewAReady K junk k =
     (let cantidadProgramasPlanificados = semCantidadProgramasPlanificados k;
          hay_lugar = int cantidadProgramasPlanificados < sint (conf_grado_multiprog (kernel_conf k)) in
      if \<not> hay_lugar then Some k
      else (case kq_pop (nuevo_c K) (cola_nuevos k) of
              (None, _) \<Rightarrow> Some k
            | (Some np, resto) \<Rightarrow> do {
                let k1 = k\<lparr>cola_nuevos := resto\<rparr>;
                (respuesta, k2) \<leftarrow> notificar_memoria_inicio_programa junk (ucast (pcb_pid (np_pcb np)))
                  (np_cantidad_paginas np) (np_codigo np) k1;
                Some (if respuesta = ENOSPC
                  then k2\<lparr>cola_finalizados := kq_push (fin_c K) (cola_finalizados k2) (Some ((np_pcb np)\<lparr>exit_code := - 1\<rparr>)),
                          semPlanificarLargoPlazo := semPlanificarLargoPlazo k2 + 1\<rparr>
                  else (let k3 = cola_listos_push K (np_pcb np) k2 in
                    k3\<lparr>semCantidadProgramasPlanificados := semCantidadProgramasPlanificados k3 + 1,
                       semPlanificarLargoPlazo := semPlanificarLargoPlazo k3 + 1\<rparr>)) }))"

text \<open>One round of the long-term scheduler.\<close>

definition planificador_largo_plazo :: "kernel_lib \<Rightarrow> storage \<Rightarrow> kernel \<Rightarrow> kernel option" where
  "planificador_largo_plazo K junk k =
     (if semPlanificarLargoPlazo k = 0 then None
      else pasarDeNewAReady K junk (k\<lparr>semPlanificarLargoPlazo := semPlanificarLargoPlazo k - 1\<rparr>))"

definition enviar_PCB :: "abi \<Rightarrow> storage \<Rightarrow> t_PCB \<Rightarrow> u32 \<Rightarrow> kernel \<Rightarrow> kernel option" where
  "enviar_PCB A junk p fd k = do {
     paquete \<leftarrow> pcb_serializer (sz_pcb A) junk p;
     send_to A OC_PCB (Stream paquete) fd k }"

text \<open>One round of the short-term scheduler; the loop over the CPUs stops at the first free one.\<close>

definition pasarDeReadyAExecute :: "kernel_lib \<Rightarrow> abi \<Rightarrow> storage \<Rightarrow> kernel \<Rightarrow> kernel option" where
  "pasarDeReadyAExecute K A junk k =
     (if semCantidadElementosColaListos k = 0 \<or> semCantidadCpuLibres k = 0 then None
      else
        (let k1 = k\<lparr>semCantidadElementosColaListos := semCantidadElementosColaListos k - 1,
                    semCantidadCpuLibres := semCantidadCpuLibres k - 1\<rparr> in
         case kq_pop (pcb_c K) (cola_listos k1) of (p, resto) \<Rightarrow>
           let k2 = k1\<lparr>cola_listos := resto\<rparr> in
           case (kl_find (cpu_c K) (lista_cpu k2) libre, p) of
             (None, _) \<Rightarrow> Some k2
           | (Some i, None) \<Rightarrow> Some (k2\<lparr>semCantidadCpuLibres := semCantidadCpuLibres k2 + 1\<rparr>)
           | (Some i, Some p) \<Rightarrow>
               enviar_PCB A junk p (file_descriptor (lista_cpu k2 ! i))
                 (update_cpu i (\<lambda>c. c\<lparr>libre := False, proceso_asignado := Some p\<rparr>) k2)))"

definition pasarDeExecuteAReady :: "kernel_lib \<Rightarrow> nat \<Rightarrow> kernel \<Rightarrow> kernel option" where
  "pasarDeExecuteAReady K i k =
     map_option (\<lambda>p. cola_listos_push K p (liberar_cpu i k)) (proceso_asignado (lista_cpu k ! i))"

definition pasarDeExecuteAExit :: "kernel_lib \<Rightarrow> nat \<Rightarrow> kernel \<Rightarrow> kernel option" where
  "pasarDeExecuteAExit K i k =
     (let k1 = liberar_cpu i (k\<lparr>cola_finalizados := kq_push (fin_c K) (cola_finalizados k) (proceso_asignado (lista_cpu k ! i))\<rparr>);
          k2 = k1\<lparr>semPlanificarLargoPlazo := semPlanificarLargoPlazo k1 + 1\<rparr> in
      if semCantidadProgramasPlanificados k2 = 0 then None
      else Some (k2\<lparr>semCantidadProgramasPlanificados := semCantidadProgramasPlanificados k2 - 1\<rparr>))"

definition sacar_pcb :: "kernel_lib \<Rightarrow> t_PCB list \<Rightarrow> u16 \<Rightarrow> t_PCB option \<times> t_PCB list" where
  "sacar_pcb K cola pid = kl_remove_by_condition (pcb_c K) cola (\<lambda>p. pcb_pid p = pid)"

definition sacar_pcb_de_nuevo :: "kernel_lib \<Rightarrow> t_nuevo_proceso list \<Rightarrow> u16 \<Rightarrow> t_PCB option \<times> t_nuevo_proceso list" where
  "sacar_pcb_de_nuevo K cola pid =
     (case kl_remove_by_condition (nuevo_c K) cola (\<lambda>p. pcb_pid (np_pcb p) = pid) of
        (encontrado, resto) \<Rightarrow> (map_option np_pcb encontrado, resto))"

definition pasarDeBlockedAReady :: "kernel_lib \<Rightarrow> u16 \<Rightarrow> kernel \<Rightarrow> kernel option" where
  "pasarDeBlockedAReady K pid k =
     (case sacar_pcb K (cola_bloqueados k) pid of
        (None, _) \<Rightarrow> None
      | (Some p, resto) \<Rightarrow> Some (k\<lparr>cola_bloqueados := resto, cola_listos := kq_push (pcb_c K) (cola_listos k) p\<rparr>))"

definition pasarDeExecuteABlocked :: "kernel_lib \<Rightarrow> nat \<Rightarrow> kernel \<Rightarrow> kernel option" where
  "pasarDeExecuteABlocked K i k =
     map_option (\<lambda>p. update_cpu i (\<lambda>c. c\<lparr>proceso_asignado := None\<rparr>) (k\<lparr>cola_bloqueados := kq_push (pcb_c K) (cola_bloqueados k) p\<rparr>))
       (proceso_asignado (lista_cpu k ! i))"

definition es_round_robin :: "kernel \<Rightarrow> bool" where
  "es_round_robin k \<longleftrightarrow> conf_algoritmo (kernel_conf k) = [82, 82]"

definition continuar_procesando :: "nat \<Rightarrow> kernel \<Rightarrow> bool \<times> kernel" where
  "continuar_procesando i k =
     (if es_round_robin k
      then (let k1 = update_cpu i (\<lambda>c. c\<lparr>cpu_quantum := cpu_quantum c + 1\<rparr>) k
            in (sint (cpu_quantum (lista_cpu k1 ! i)) < sint (conf_quantum (kernel_conf k)), k1))
      else (True, k))"

section \<open>The semaphores of the programs\<close>

definition update_sem :: "nat \<Rightarrow> (t_semaphore \<Rightarrow> t_semaphore) \<Rightarrow> kernel \<Rightarrow> kernel" where
  "update_sem si f k = k\<lparr>semaforos := (semaforos k)[si := (fst (semaforos k ! si), f (snd (semaforos k ! si)))]\<rparr>"

definition funcion_signal :: "kernel_lib \<Rightarrow> abi \<Rightarrow> u32 \<Rightarrow> c_str \<Rightarrow> kernel \<Rightarrow> kernel option" where
  "funcion_signal K A fd nombre k = do {
     k1 \<leftarrow> sumar_syscall K fd k;
     si \<leftarrow> sem_get K (semaforos k1) nombre;
     (if int_ok (sint (cuenta (snd (semaforos k1 ! si))) + 1) then Some () else None);
     let k2 = update_sem si (\<lambda>s. s\<lparr>cuenta := cuenta s + 1\<rparr>) k1;
     k4 \<leftarrow> (if sint (cuenta (snd (semaforos k2 ! si))) \<le> 0
            then (case kq_pop (pid_c K) (sem_cola (snd (semaforos k2 ! si))) of
                    (None, _) \<Rightarrow> None
                  | (Some pid, resto) \<Rightarrow> do {
                      k3 \<leftarrow> pasarDeBlockedAReady K pid (update_sem si (\<lambda>s. s\<lparr>sem_cola := resto\<rparr>) k2);
                      Some (k3\<lparr>semCantidadElementosColaListos := semCantidadElementosColaListos k3 + 1\<rparr>) })
            else Some k2);
     send_to A OC_RESP_SIGNAL (Mem (u32_bytes 1)) fd k4 }"

definition funcion_wait :: "kernel_lib \<Rightarrow> abi \<Rightarrow> u32 \<Rightarrow> c_str \<Rightarrow> kernel \<Rightarrow> kernel option" where
  "funcion_wait K A fd nombre k = do {
     k1 \<leftarrow> sumar_syscall K fd k;
     i \<leftarrow> obtener_cpu K fd k1;
     send_to A OC_RESP_WAIT (Mem (u32_bytes 1)) fd
       (update_cpu i (\<lambda>c. c\<lparr>nombre_semaforo := Some nombre, proceso_bloqueado_por_wait := True\<rparr>) k1) }"

text \<open>
  The part of \<open>OC_TERMINO_INSTRUCCION\<close> for a pending \<open>wait\<close>.  \<open>p\<close> is the PCB the CPU returned; the blocked
  queue holds the same object, so an exit code assigned to it later is seen there too.
\<close>

definition aplicar_wait :: "kernel_lib \<Rightarrow> nat \<Rightarrow> kernel \<Rightarrow> kernel option" where
  "aplicar_wait K i k =
     (if \<not> proceso_bloqueado_por_wait (lista_cpu k ! i) then Some k
      else do {
        nombre \<leftarrow> nombre_semaforo (lista_cpu k ! i);
        si \<leftarrow> sem_get K (semaforos k) nombre;
        (if int_ok (sint (cuenta (snd (semaforos k ! si))) - 1) then Some () else None);
        let k1 = update_sem si (\<lambda>s. s\<lparr>cuenta := cuenta s - 1\<rparr>) k;
        (if sint (cuenta (snd (semaforos k1 ! si))) < 0
         then do {
           p \<leftarrow> proceso_asignado (lista_cpu k1 ! i);
           pasarDeExecuteABlocked K i (update_sem si (\<lambda>s. s\<lparr>sem_cola := kq_push (pid_c K) (sem_cola s) (pcb_pid p)\<rparr>) k1) }
         else Some (update_cpu i (\<lambda>c. c\<lparr>proceso_bloqueado_por_wait := False\<rparr>) k1)) })"

definition avisar_consola :: "kernel_lib \<Rightarrow> abi \<Rightarrow> u32 \<Rightarrow> kernel \<Rightarrow> kernel option" where
  "avisar_consola K A pid k =
     (case encontrar_consola_de_pcb K pid k of
        None \<Rightarrow> Some k
      | Some j \<Rightarrow> send_to A OC_MUERE_PROGRAMA (Mem (u32_bytes 1)) (par_socket (tabla_sockets_procesos k ! j)) k)"

definition termino_instruccion :: "kernel_lib \<Rightarrow> abi \<Rightarrow> storage \<Rightarrow> u32 \<Rightarrow> t_PCB \<Rightarrow> kernel \<Rightarrow> kernel option" where
  "termino_instruccion K A junk fd p k = do {
     i \<leftarrow> obtener_cpu K fd k;
     let matar = matar_proceso (lista_cpu k ! i);
     let p1 = (if matar then p\<lparr>exit_code := - 77\<rparr> else p);
     k1 \<leftarrow> aplicar_wait K i (update_cpu i (\<lambda>c. c\<lparr>proceso_asignado := Some p1\<rparr>) k);
     (if matar then do {
        k2 \<leftarrow> avisar_consola K A (ucast (pcb_pid p)) k1;
        k3 \<leftarrow> send_to A OC_RESP_TERMINO_INSTRUCCION (Mem (u32_bytes (- 1))) fd (finalizar_en_memoria junk (ucast (pcb_pid p)) k2);
        k4 \<leftarrow> pasarDeExecuteAExit K i k3;
        Some (k4\<lparr>semCantidadCpuLibres := semCantidadCpuLibres k4 + 1\<rparr>) }
      else if proceso_bloqueado_por_wait (lista_cpu k1 ! i) then do {
        k2 \<leftarrow> send_to A OC_RESP_TERMINO_INSTRUCCION (Mem (u32_bytes (- 1))) fd k1;
        let k3 = liberar_cpu i k2;
        Some (k3\<lparr>semCantidadCpuLibres := semCantidadCpuLibres k3 + 1\<rparr>) }
      else (case continuar_procesando i k1 of (continua, k2) \<Rightarrow>
        if continua then
          send_to A OC_RESP_TERMINO_INSTRUCCION (Mem (u32_bytes (conf_quantum_sleep (kernel_conf k2)))) fd k2
        else do {
          k3 \<leftarrow> send_to A OC_RESP_TERMINO_INSTRUCCION (Mem (u32_bytes (- 1))) fd (cola_listos_push K p1 k2);
          let k4 = liberar_cpu i k3;
          Some (k4\<lparr>semCantidadCpuLibres := semCantidadCpuLibres k4 + 1\<rparr>) })) }"

section \<open>The end of a process\<close>

text \<open>\<open>OC_TERMINA_PROGRAMA\<close> and \<open>OC_ERROR_EJECUCION_CPU\<close>; the console must be known.\<close>

definition terminar_en_cpu :: "kernel_lib \<Rightarrow> abi \<Rightarrow> u32 \<Rightarrow> t_PCB \<Rightarrow> kernel \<Rightarrow> kernel option" where
  "terminar_en_cpu K A fd p k = do {
     i \<leftarrow> obtener_cpu K fd k;
     let k1 = update_cpu i (\<lambda>c. c\<lparr>proceso_asignado := Some p\<rparr>) k;
     j \<leftarrow> encontrar_consola_de_pcb K (ucast (pcb_pid p)) k1;
     k2 \<leftarrow> send_to A OC_MUERE_PROGRAMA (Mem (u32_bytes 1)) (par_socket (tabla_sockets_procesos k1 ! j)) k1;
     k3 \<leftarrow> pasarDeExecuteAExit K i k2;
     Some (k3\<lparr>semCantidadCpuLibres := semCantidadCpuLibres k3 + 1\<rparr>) }"

definition termina_programa :: "kernel_lib \<Rightarrow> abi \<Rightarrow> storage \<Rightarrow> u32 \<Rightarrow> t_PCB \<Rightarrow> kernel \<Rightarrow> kernel option" where
  "termina_programa K A junk fd p k = terminar_en_cpu K A fd p (finalizar_en_memoria junk (ucast (pcb_pid p)) k)"

definition error_ejecucion_cpu :: "kernel_lib \<Rightarrow> abi \<Rightarrow> storage \<Rightarrow> u32 \<Rightarrow> t_PCB \<Rightarrow> kernel \<Rightarrow> kernel option" where
  "error_ejecucion_cpu K A junk fd p k =
     terminar_en_cpu K A fd p
       (if sint (exit_code p) \<noteq> EC_ALOCAR_MUY_GRANDE \<and> sint (exit_code p) \<noteq> EC_SIN_ESPACIO_MEMORIA
        then finalizar_en_memoria junk (ucast (pcb_pid p)) k else k)"

definition desconex_cpu :: "kernel_lib \<Rightarrow> u32 \<Rightarrow> t_PCB \<Rightarrow> kernel \<Rightarrow> kernel option" where
  "desconex_cpu K fd p k = do {
     i \<leftarrow> obtener_cpu K fd k;
     k1 \<leftarrow> pasarDeExecuteAReady K i (update_cpu i (\<lambda>c. c\<lparr>proceso_asignado := Some p\<rparr>) k);
     Some (eliminar_cpu K fd k1) }"

text \<open>The connection of a CPU ends: the branch of \<open>manage_select\<close>.\<close>

definition desconexion_cpu :: "kernel_lib \<Rightarrow> u32 \<Rightarrow> kernel \<Rightarrow> kernel option" where
  "desconexion_cpu K fd k =
     map_option (\<lambda>i. eliminar_cpu K fd
         (case proceso_asignado (lista_cpu k ! i) of None \<Rightarrow> k | Some p \<Rightarrow> cola_listos_push K p k))
       (obtener_cpu K fd k)"

text \<open>A killed process leaves the queue of the semaphore it waits for, whose count is corrected.\<close>

definition sacar_de_semaforos :: "kernel_lib \<Rightarrow> u16 \<Rightarrow> kernel \<Rightarrow> kernel" where
  "sacar_de_semaforos K pid k = k\<lparr>semaforos := map (\<lambda>(n, s).
     case kl_remove_by_condition (pid_c K) (sem_cola s) (\<lambda>q. q = pid) of
       (None, _) \<Rightarrow> (n, s)
     | (Some _, resto) \<Rightarrow> (n, s\<lparr>sem_cola := resto, cuenta := cuenta s + 1\<rparr>)) (semaforos k)\<rparr>"

definition finalizar_sacado :: "kernel_lib \<Rightarrow> storage \<Rightarrow> u32 \<Rightarrow> t_PCB \<Rightarrow> kernel \<Rightarrow> (bool \<times> kernel) option" where
  "finalizar_sacado K junk pid p k =
     (let k1 = finalizar_en_memoria junk pid k;
          k2 = k1\<lparr>cola_finalizados := kq_push (fin_c K) (cola_finalizados k1) (Some (p\<lparr>exit_code := - 77\<rparr>)),
                  semPlanificarLargoPlazo := semPlanificarLargoPlazo k1 + 1\<rparr> in
      if semCantidadProgramasPlanificados k2 = 0 then None
      else Some (True, k2\<lparr>semCantidadProgramasPlanificados := semCantidadProgramasPlanificados k2 - 1\<rparr>))"

definition pasar_proceso_a_exit :: "kernel_lib \<Rightarrow> storage \<Rightarrow> u32 \<Rightarrow> kernel \<Rightarrow> (bool \<times> kernel) option" where
  "pasar_proceso_a_exit K junk pid k =
     (case sacar_pcb_de_nuevo K (cola_nuevos k) (ucast pid) of
        (Some p, resto) \<Rightarrow> finalizar_sacado K junk pid p (k\<lparr>cola_nuevos := resto\<rparr>)
      | (None, _) \<Rightarrow>
     (case sacar_pcb K (cola_listos k) (ucast pid) of
        (Some p, resto) \<Rightarrow> finalizar_sacado K junk pid p (k\<lparr>cola_listos := resto\<rparr>)
      | (None, _) \<Rightarrow>
     (case sacar_pcb K (cola_bloqueados k) (ucast pid) of
        (Some p, resto) \<Rightarrow> finalizar_sacado K junk pid p (sacar_de_semaforos K (pcb_pid p) (k\<lparr>cola_bloqueados := resto\<rparr>))
      | (None, _) \<Rightarrow>
     (case buscar_pcb_en_lista_cpu K (ucast pid) k of
        None \<Rightarrow> Some (False, k)
      | Some i \<Rightarrow> Some (False, update_cpu i (\<lambda>c. c\<lparr>matar_proceso := True\<rparr>) k)))))"

definition kill_consola :: "kernel_lib \<Rightarrow> abi \<Rightarrow> storage \<Rightarrow> u32 \<Rightarrow> kernel \<Rightarrow> kernel option" where
  "kill_consola K A junk pid k = do {
     (sacado, k1) \<leftarrow> pasar_proceso_a_exit K junk pid k;
     (if sacado then do {
        j \<leftarrow> encontrar_consola_de_pcb K pid k1;
        send_to A OC_MUERE_PROGRAMA (Mem (u32_bytes 1)) (par_socket (tabla_sockets_procesos k1 ! j)) k1 }
      else Some k1) }"

text \<open>The connection of a console ends: all its programs are killed.\<close>

definition buscar_proceso_por_socket :: "kernel_lib \<Rightarrow> u32 \<Rightarrow> kernel \<Rightarrow> t_par_socket_pid option \<times> kernel" where
  "buscar_proceso_por_socket K socket k =
     (case kl_remove_by_condition (par_c K) (tabla_sockets_procesos k) (\<lambda>p. par_socket p = socket) of
        (par, resto) \<Rightarrow> (par, k\<lparr>tabla_sockets_procesos := resto\<rparr>))"

partial_function (option) desconexion_consola :: "kernel_lib \<Rightarrow> storage \<Rightarrow> u32 \<Rightarrow> kernel \<Rightarrow> kernel option" where
  "desconexion_consola K junk fd k =
     (case buscar_proceso_por_socket K fd k of
        (par, k1) \<Rightarrow> (case par of
          None \<Rightarrow> Some k1
        | Some par \<Rightarrow> Option.bind (pasar_proceso_a_exit K junk (par_pid par) k1) (\<lambda>(_, k2). desconexion_consola K junk fd k2)))"

end
