(* ===== verification/Kernel_Sched_Props.thy ===== *)
theory Kernel_Sched_Props
  imports Kernel_Sched "HOL-Library.Multiset"
begin

text \<open>
  The scheduler as a transition system.  \<open>procs\<close> is the multiset of the pids in the system, in whatever
  place they are; \<open>sched_inv\<close> relates the queues, the CPUs, the counters of the scheduler and the semaphores
  of the programs; \<open>kstep\<close> has a rule for every transition, with the conditions under which the kernel
  keeps its books.  The transitions outside those conditions are the subject of the last theorems.
\<close>

section \<open>Processes and their places\<close>

definition cpu_pids :: "t_cpu \<Rightarrow> u16 list" where
  "cpu_pids c = (case proceso_asignado c of None \<Rightarrow> [] | Some p \<Rightarrow> [pcb_pid p])"

definition running :: "t_cpu list \<Rightarrow> u16 list" where
  "running cs = concat (map cpu_pids cs)"

definition finished :: "t_PCB option list \<Rightarrow> u16 list" where
  "finished ps = concat (map (\<lambda>p. case p of None \<Rightarrow> [] | Some p \<Rightarrow> [pcb_pid p]) ps)"

definition procs :: "kernel \<Rightarrow> u16 multiset" where
  "procs k = mset (map (pcb_pid \<circ> np_pcb) (cola_nuevos k)) + mset (map pcb_pid (cola_listos k)) + mset (running (lista_cpu k))
     + mset (map pcb_pid (cola_bloqueados k)) + mset (finished (cola_finalizados k))"

definition sem_ok :: "t_semaphore \<Rightarrow> bool" where
  "sem_ok s \<longleftrightarrow> int (length (sem_cola s)) = max 0 (- sint (cuenta s))"

definition waiting :: "(c_str \<times> t_semaphore) list \<Rightarrow> u16 multiset" where
  "waiting ss = sum_list (map (mset \<circ> sem_cola \<circ> snd) ss)"

definition cpu_ok :: "t_cpu \<Rightarrow> bool" where
  "cpu_ok c \<longleftrightarrow> (libre c \<longleftrightarrow> proceso_asignado c = None)"

definition sched_inv :: "kernel \<Rightarrow> bool" where
  "sched_inv k \<longleftrightarrow> (\<forall>c \<in> set (lista_cpu k). cpu_ok c) \<and>
     length (filter libre (lista_cpu k)) = semCantidadCpuLibres k \<and>
     length (cola_listos k) \<le> semCantidadElementosColaListos k \<and>
     (\<forall>s \<in> snd ` set (semaforos k). sem_ok s) \<and>
     mset (map pcb_pid (cola_bloqueados k)) = waiting (semaforos k) \<and>
     semCantidadProgramasPlanificados k = length (cola_listos k) + length (running (lista_cpu k)) + length (cola_bloqueados k) \<and>
     None \<notin> set (cola_finalizados k)"

text \<open>Two states that differ only in tables and connections.\<close>

definition same_sched :: "kernel \<Rightarrow> kernel \<Rightarrow> bool" where
  "same_sched k k' \<longleftrightarrow> cola_nuevos k' = cola_nuevos k \<and> cola_listos k' = cola_listos k \<and> cola_bloqueados k' = cola_bloqueados k \<and>
     cola_finalizados k' = cola_finalizados k \<and> lista_cpu k' = lista_cpu k \<and> semaforos k' = semaforos k \<and>
     semCantidadProgramasPlanificados k' = semCantidadProgramasPlanificados k \<and>
     semCantidadElementosColaListos k' = semCantidadElementosColaListos k \<and> semCantidadCpuLibres k' = semCantidadCpuLibres k"

lemma same_sched_inv: "same_sched k k' \<Longrightarrow> sched_inv k' = sched_inv k" "same_sched k k' \<Longrightarrow> procs k' = procs k"
  by (simp_all add: same_sched_def sched_inv_def procs_def)

lemma same_schedD: "same_sched k k' \<Longrightarrow> sched_inv k \<Longrightarrow> sched_inv k'" "same_sched k k' \<Longrightarrow> lista_cpu k' = lista_cpu k"
  by (simp_all add: same_sched_inv) (simp add: same_sched_def)

lemma same_sched_refl [simp]: "same_sched k k"
  by (simp add: same_sched_def)

lemma same_sched_trans: "same_sched k k1 \<Longrightarrow> same_sched k1 k2 \<Longrightarrow> same_sched k k2"
  by (simp add: same_sched_def)

lemma same_sched_fields [simp]:
  "same_sched k (k\<lparr>clientes := x1\<rparr>)" "same_sched k (k\<lparr>memory_socket := x2\<rparr>)" "same_sched k (k\<lparr>tabla_sockets_procesos := x3\<rparr>)"
  "same_sched k (k\<lparr>semPlanificarLargoPlazo := x4\<rparr>)" "same_sched k (finalizar_en_memoria junk pid k)"
  by (simp_all add: same_sched_def finalizar_en_memoria_def)

lemma send_to_same: "send_to A oc m fd k = Some k' \<Longrightarrow> same_sched k k'"
  by (auto simp: send_to_def)

lemma sumar_syscall_same: "sumar_syscall K fd k = Some k' \<Longrightarrow> same_sched k k'"
  by (auto simp: sumar_syscall_def dest!: update_par_other)

lemma avisar_consola_same: "avisar_consola K A pid k = Some k' \<Longrightarrow> same_sched k k'"
  by (auto simp: avisar_consola_def split: option.splits dest: send_to_same)

lemma mandar_codigo_same: "mandar_codigo_a_memoria junk codigo pid k = Some k' \<Longrightarrow> same_sched k k'"
  by (auto simp: mandar_codigo_a_memoria_def split: if_splits)

lemma notificar_same: "notificar_memoria_inicio_programa junk pid n codigo k = Some (r, k') \<Longrightarrow> same_sched k k'"
  by (auto simp: notificar_memoria_inicio_programa_def Let_def split: prod.splits if_splits
      dest!: mandar_codigo_same intro: same_sched_trans [OF same_sched_fields(2)])

section \<open>Counting\<close>

lemma running_simps [simp]: "running [] = []" "running (c # cs) = cpu_pids c @ running cs" "running (xs @ ys) = running xs @ running ys"
  by (simp_all add: running_def)

lemma finished_simps [simp]:
  "finished [] = []" "finished (p # ps) = (case p of None \<Rightarrow> [] | Some p \<Rightarrow> [pcb_pid p]) @ finished ps"
  "finished (xs @ ys) = finished xs @ finished ys"
  by (simp_all add: finished_def)

lemma waiting_simps [simp]:
  "waiting [] = {#}" "waiting (s # ss) = mset (sem_cola (snd s)) + waiting ss" "waiting (xs @ ys) = waiting xs + waiting ys"
  by (simp_all add: waiting_def)

lemma list_split_at: "i < length l \<Longrightarrow> \<exists>xs ys. l = xs @ l ! i # ys \<and> length xs = i \<and> (\<forall>y. l[i := y] = xs @ y # ys)"
  by (intro exI [of _ "take i l"] exI [of _ "drop (Suc i) l"]) (simp add: id_take_nth_drop upd_conv_take_nth_drop)

context kernel_commons
begin

lemma obtener_cpu_SomeD: "obtener_cpu K fd k = Some i \<Longrightarrow> i < length (lista_cpu k) \<and> file_descriptor (lista_cpu k ! i) = fd"
  by (simp add: obtener_cpu_def coll_simps find_index_Some_iff)

end

section \<open>The transitions that keep every book\<close>

definition keeps :: "kernel \<Rightarrow> kernel \<Rightarrow> bool" where
  "keeps k k' \<longleftrightarrow> sched_inv k' \<and> procs k' = procs k"

lemma keeps_same: "sched_inv k \<Longrightarrow> same_sched k k' \<Longrightarrow> keeps k k'"
  by (simp add: keeps_def same_sched_inv)

lemma keeps_same_left: "keeps k1 k' \<Longrightarrow> same_sched k k1 \<Longrightarrow> keeps k k'"
  by (simp add: keeps_def same_sched_inv)

lemma keeps_same_right: "keeps k k1 \<Longrightarrow> same_sched k1 k' \<Longrightarrow> keeps k k'"
  by (simp add: keeps_def same_sched_inv)

lemma sint_step:
  "int_ok (sint (x :: u32) + 1) \<Longrightarrow> sint (x + 1) = sint x + 1"
  "int_ok (sint (x :: u32) - 1) \<Longrightarrow> sint (x - 1) = sint x - 1"
  by (simp_all add: int_ok_def sint_word_ariths signed_take_bit_int_eq_self)

context kernel_commons
begin

lemma solicitud_keeps:
  assumes "sched_inv k" "solicitud_programa_nuevo K A junk meta fd codigo k = Some k'"
  shows "sched_inv k' \<and> procs k' = add_mset (ucast (registro_pid k)) (procs k)"
proof -
  from assms(2) obtain k4 np where k4: "same_sched k k4" "pcb_pid (np_pcb np) = ucast (registro_pid k)"
    and k': "same_sched (k4\<lparr>cola_nuevos := cola_nuevos k4 @ [np]\<rparr>) k'"
    by (auto simp: solicitud_programa_nuevo_def crear_PCB_def Let_def coll_simps split: bind_splits dest!: send_to_same)
      (auto simp: same_sched_def)
  then show ?thesis using assms(1) by (auto simp: same_sched_def sched_inv_def procs_def)
qed

lemma conectar_keeps: "sched_inv k \<Longrightarrow> conectar_cpu K A fd k = Some k' \<Longrightarrow> keeps k k'"
  by (auto simp: conectar_cpu_def coll_simps keeps_def cpu_create_def cpu_ok_def cpu_pids_def same_sched_def sched_inv_def procs_def
      dest!: send_to_same)

lemma new_ready_keeps:
  assumes "sched_inv k" "pasarDeNewAReady K junk k = Some k'"
  shows "keeps k k'"
proof (cases "cola_nuevos k")
  case Nil
  then show ?thesis
    using assms by (auto simp: pasarDeNewAReady_def coll_simps pop_front_def keeps_def Let_def split: if_splits)
next
  case (Cons np resto)
  let ?n = "notificar_memoria_inicio_programa junk (ucast (pcb_pid (np_pcb np))) (np_cantidad_paginas np) (np_codigo np) (k\<lparr>cola_nuevos := resto\<rparr>)"
  show ?thesis
  proof (cases "int (semCantidadProgramasPlanificados k) < sint (conf_grado_multiprog (kernel_conf k))")
    case False
    then show ?thesis using assms by (simp add: pasarDeNewAReady_def keeps_def)
  next
    case True
    then obtain r k2 where n: "?n = Some (r, k2)"
      using assms(2) Cons by (cases ?n) (auto simp: pasarDeNewAReady_def coll_simps pop_front_def)
    have "k' = (if r = ENOSPC
        then k2\<lparr>cola_finalizados := cola_finalizados k2 @ [Some ((np_pcb np)\<lparr>exit_code := - 1\<rparr>)],
                semPlanificarLargoPlazo := semPlanificarLargoPlazo k2 + 1\<rparr>
        else k2\<lparr>cola_listos := cola_listos k2 @ [np_pcb np],
                semCantidadElementosColaListos := semCantidadElementosColaListos k2 + 1,
                semCantidadProgramasPlanificados := semCantidadProgramasPlanificados k2 + 1,
                semPlanificarLargoPlazo := semPlanificarLargoPlazo k2 + 1\<rparr>)"
      using assms(2) Cons True n
      by (auto simp: pasarDeNewAReady_def coll_simps pop_front_def Let_def cola_listos_push_def)
    then show ?thesis
      using assms(1) Cons notificar_same [OF n] by (auto simp: keeps_def same_sched_def sched_inv_def procs_def)
  qed
qed

lemma ready_execute_keeps:
  assumes "sched_inv k" "pasarDeReadyAExecute K A junk k = Some k'"
  shows "keeps k k'"
proof -
  have c: "semCantidadElementosColaListos k \<noteq> 0" "semCantidadCpuLibres k \<noteq> 0"
    using assms(2) by (auto simp: pasarDeReadyAExecute_def split: if_splits)
  then have "\<exists>x \<in> set (lista_cpu k). libre x"
    using assms(1) by (metis sched_inv_def filter_empty_conv length_0_conv)
  then obtain i where i: "find_index libre (lista_cpu k) = Some i"
    by (metis find_index_None_iff option.exhaust)
  then have il: "i < length (lista_cpu k)" "libre (lista_cpu k ! i)" by (simp_all add: find_index_Some_iff)
  obtain xs ys where l: "lista_cpu k = xs @ lista_cpu k ! i # ys" "length xs = i" "\<And>y. (lista_cpu k)[i := y] = xs @ y # ys"
    using list_split_at [OF il(1)] by blast
  define c0 where "c0 = lista_cpu k ! i"
  have n0: "proceso_asignado c0 = None" using assms(1) il by (simp add: sched_inv_def cpu_ok_def c0_def)
  show ?thesis
  proof (cases "cola_listos k")
    case Nil
    then show ?thesis
      using assms c i by (auto simp: pasarDeReadyAExecute_def coll_simps pop_front_def keeps_def sched_inv_def procs_def Let_def)
  next
    case (Cons p resto)
    let ?k2 = "k\<lparr>semCantidadElementosColaListos := semCantidadElementosColaListos k - 1,
      semCantidadCpuLibres := semCantidadCpuLibres k - 1, cola_listos := resto,
      lista_cpu := xs @ c0\<lparr>libre := False, proceso_asignado := Some p\<rparr> # ys\<rparr>"
    have "same_sched ?k2 k'"
      using assms(2) c i Cons l(3)
      by (auto simp: pasarDeReadyAExecute_def coll_simps pop_front_def Let_def enviar_PCB_def update_cpu_def c0_def
          split: bind_splits dest!: send_to_same)
    moreover have "keeps k ?k2"
      using assms(1) c Cons l(1) n0 il(2) unfolding c0_def [symmetric]
      by (auto simp: keeps_def sched_inv_def procs_def cpu_ok_def cpu_pids_def)
    ultimately show ?thesis by (rule keeps_same_right [rotated])
  qed
qed

text \<open>Blocked processes are exactly those the semaphores hold.\<close>

lemma blocked_ready:
  assumes "pid \<in># mset (map pcb_pid (cola_bloqueados k))"
  shows "\<exists>p xs ys. cola_bloqueados k = xs @ p # ys \<and> pcb_pid p = pid \<and>
    pasarDeBlockedAReady K pid k = Some (k\<lparr>cola_bloqueados := xs @ ys, cola_listos := cola_listos k @ [p]\<rparr>)"
proof (cases "remove_first (\<lambda>p. pcb_pid p = pid) (cola_bloqueados k)")
  case (Pair r l')
  show ?thesis
  proof (cases r)
    case None
    have "\<forall>p \<in> set (cola_bloqueados k). pcb_pid p \<noteq> pid" using remove_first_NoneD [OF Pair [unfolded None]] by blast
    then show ?thesis using assms by auto
  next
    case (Some p)
    then obtain xs ys where "pcb_pid p = pid" "cola_bloqueados k = xs @ p # ys" "l' = xs @ ys"
      using remove_first_Some [of "\<lambda>p. pcb_pid p = pid" "cola_bloqueados k" p l'] Pair by auto
    then show ?thesis
      using Pair Some by (intro exI [of _ p] exI [of _ xs] exI [of _ ys]) (simp add: pasarDeBlockedAReady_def sacar_pcb_def coll_simps)
  qed
qed

lemma signal_keeps:
  assumes inv: "sched_inv k" and "funcion_signal K A fd nombre k = Some k'"
  shows "keeps k k'"
proof -
  from assms(2) obtain k1 si where k1: "sumar_syscall K fd k = Some k1" "find_index (\<lambda>(n, _). n = nombre) (semaforos k1) = Some si"
    and io: "int_ok (sint (cuenta (snd (semaforos k1 ! si))) + 1)"
    by (auto simp: funcion_signal_def coll_simps split: bind_splits if_splits)
  note same = sumar_syscall_same [OF k1(1)]
  have inv1: "sched_inv k1" using inv same by (simp add: same_sched_inv)
  have si: "si < length (semaforos k1)" using k1(2) by (simp add: find_index_Some_iff)
  obtain us vs where l: "semaforos k1 = us @ semaforos k1 ! si # vs" "\<And>y. (semaforos k1)[si := y] = us @ y # vs" "length us = si"
    using list_split_at [OF si] by blast
  obtain n s where s: "semaforos k1 ! si = (n, s)" by fastforce
  have "(n, s) \<in> set (semaforos k1)" using si s by (metis nth_mem)
  then have ok: "sem_ok s" using inv1 by (force simp: sched_inv_def)
  have cu: "sint (cuenta s + 1) = sint (cuenta s) + 1" using io s by (simp add: sint_step)
  let ?k2 = "k1\<lparr>semaforos := us @ (n, s\<lparr>cuenta := cuenta s + 1\<rparr>) # vs\<rparr>"
  have k2: "update_sem si (\<lambda>s. s\<lparr>cuenta := cuenta s + 1\<rparr>) k1 = ?k2" by (simp add: update_sem_def s l(2))
  have "keeps k1 k'"
  proof (cases "sint (cuenta s) + 1 \<le> 0")
    case False
    then have "same_sched ?k2 k'"
      using assms(2) k1 io k2 cu l(3)
      by (auto simp: funcion_signal_def coll_simps Let_def nth_append split: bind_splits dest!: send_to_same)
    moreover have "keeps k1 ?k2"
      using inv1 ok cu False l(1) s by (auto simp: keeps_def sched_inv_def procs_def sem_ok_def)
    ultimately show ?thesis by (rule keeps_same_right [rotated])
  next
    case True
    then obtain pid resto where c: "sem_cola s = pid # resto"
      using ok by (cases "sem_cola s") (auto simp: sem_ok_def)
    let ?k3 = "k1\<lparr>semaforos := us @ (n, s\<lparr>cuenta := cuenta s + 1, sem_cola := resto\<rparr>) # vs\<rparr>"
    have "pid \<in># mset (map pcb_pid (cola_bloqueados ?k3))"
      using inv1 l(1) s c by (simp add: sched_inv_def)
    then obtain p xs ys where p: "cola_bloqueados k1 = xs @ p # ys" "pcb_pid p = pid"
      "pasarDeBlockedAReady K pid ?k3 = Some (?k3\<lparr>cola_bloqueados := xs @ ys, cola_listos := cola_listos ?k3 @ [p]\<rparr>)"
      using blocked_ready [of pid ?k3] by auto
    let ?k4 = "?k3\<lparr>cola_bloqueados := xs @ ys, cola_listos := cola_listos k1 @ [p],
      semCantidadElementosColaListos := semCantidadElementosColaListos k1 + 1\<rparr>"
    have k3: "update_sem si (\<lambda>s. s\<lparr>sem_cola := resto\<rparr>) ?k2 = ?k3"
      using l(3) by (simp add: update_sem_def list_update_append nth_append)
    have "same_sched ?k4 k'"
      using assms(2) k1 io k2 cu True c p(3) k3 l(3)
      by (auto simp: funcion_signal_def coll_simps Let_def pop_front_def nth_append split: bind_splits dest!: send_to_same)
    moreover have "keeps k1 ?k4"
      using inv1 ok cu True l(1) s c p(1,2) by (auto simp: keeps_def sched_inv_def procs_def sem_ok_def)
    ultimately show ?thesis by (rule keeps_same_right [rotated])
  qed
  then show ?thesis using same by (rule keeps_same_left)
qed

text \<open>Changes of a CPU that leave its process and its state alone.\<close>

lemma update_cpu_keeps:
  assumes "sched_inv k" "\<And>c. libre (f c) = libre c" "cpu_pids (f (lista_cpu k ! i)) = cpu_pids (lista_cpu k ! i)"
    "proceso_asignado (f (lista_cpu k ! i)) = None \<longleftrightarrow> proceso_asignado (lista_cpu k ! i) = None"
  shows "keeps k (update_cpu i f k)"
proof (cases "i < length (lista_cpu k)")
  case True
  obtain xs ys where l: "lista_cpu k = xs @ lista_cpu k ! i # ys" "\<And>y. (lista_cpu k)[i := y] = xs @ y # ys"
    using list_split_at [OF True] by blast
  obtain c where c: "lista_cpu k ! i = c" by simp
  have "update_cpu i f k = k\<lparr>lista_cpu := xs @ f c # ys\<rparr>" by (simp add: update_cpu_def l(2) c)
  then show ?thesis
    using assms l(1) unfolding c by (auto simp: keeps_def sched_inv_def procs_def cpu_ok_def)
next
  case False
  then show ?thesis using assms(1) by (intro keeps_same) (simp_all add: same_sched_def update_cpu_def list_update_beyond)
qed

lemma wait_keeps:
  assumes "sched_inv k" "funcion_wait K A fd nombre k = Some k'"
  shows "keeps k k'"
proof -
  obtain k1 i where k1: "sumar_syscall K fd k = Some k1"
    "send_to A OC_RESP_WAIT (Mem (u32_bytes 1)) fd
       (update_cpu i (\<lambda>c. c\<lparr>nombre_semaforo := Some nombre, proceso_bloqueado_por_wait := True\<rparr>) k1) = Some k'"
    using assms(2) by (auto simp: funcion_wait_def split: bind_splits)
  note same = sumar_syscall_same [OF k1(1)]
  have "sched_inv k1" using assms(1) same by (simp add: same_sched_inv)
  then have "keeps k1 (update_cpu i (\<lambda>c. c\<lparr>nombre_semaforo := Some nombre, proceso_bloqueado_por_wait := True\<rparr>) k1)"
    by (rule update_cpu_keeps) (simp_all add: cpu_pids_def)
  from keeps_same_left [OF keeps_same_right [OF this send_to_same [OF k1(2)]] same] show ?thesis .
qed

text \<open>A busy CPU is given free and its process goes to another place.\<close>

definition free_cpu :: "nat \<Rightarrow> kernel \<Rightarrow> kernel" where
  "free_cpu i k = (liberar_cpu i k)\<lparr>semCantidadCpuLibres := semCantidadCpuLibres (liberar_cpu i k) + 1\<rparr>"

lemma free_cpu_same: "same_sched k k' \<Longrightarrow> same_sched (free_cpu i k) (free_cpu i k')"
  by (simp add: same_sched_def free_cpu_def liberar_cpu_def update_cpu_def)

lemma busy_split:
  assumes "sched_inv k" "i < length (lista_cpu k)" "proceso_asignado (lista_cpu k ! i) = Some p"
  shows "\<exists>xs c ys. lista_cpu k = xs @ c # ys \<and> (\<forall>y. (lista_cpu k)[i := y] = xs @ y # ys) \<and> lista_cpu k ! i = c \<and>
    proceso_asignado c = Some p \<and> \<not> libre c \<and> length xs = i"
  using list_split_at [OF assms(2)] assms by (fastforce simp: sched_inv_def cpu_ok_def)

lemma to_ready_keeps:
  assumes "sched_inv k" "i < length (lista_cpu k)" "proceso_asignado (lista_cpu k ! i) = Some p"
  shows "keeps k (free_cpu i (cola_listos_push K p k))"
proof -
  obtain xs c ys where c: "lista_cpu k = xs @ c # ys" "\<forall>y. (lista_cpu k)[i := y] = xs @ y # ys" "lista_cpu k ! i = c"
    "proceso_asignado c = Some p" "\<not> libre c" "length xs = i"
    using busy_split [OF assms] by blast
  show ?thesis
    using assms(1) c
    by (auto simp: keeps_def sched_inv_def procs_def free_cpu_def liberar_cpu_def update_cpu_def cola_listos_push_def coll_simps
        cpu_ok_def cpu_pids_def)
qed

lemma to_exit_keeps:
  assumes "sched_inv k" "i < length (lista_cpu k)" "proceso_asignado (lista_cpu k ! i) = Some p"
    and "pasarDeExecuteAExit K i k = Some k1"
  shows "keeps k (k1\<lparr>semCantidadCpuLibres := semCantidadCpuLibres k1 + 1\<rparr>)"
proof -
  obtain xs c ys where c: "lista_cpu k = xs @ c # ys" "\<forall>y. (lista_cpu k)[i := y] = xs @ y # ys" "lista_cpu k ! i = c"
    "proceso_asignado c = Some p" "\<not> libre c" "length xs = i"
    using busy_split [OF assms(1-3)] by blast
  have "k1 = k\<lparr>cola_finalizados := cola_finalizados k @ [Some p],
      lista_cpu := xs @ c\<lparr>libre := True, cpu_quantum := 0, proceso_asignado := None, matar_proceso := False,
        proceso_desbloqueado_por_signal := False, proceso_bloqueado_por_wait := False\<rparr> # ys,
      semPlanificarLargoPlazo := semPlanificarLargoPlazo k + 1,
      semCantidadProgramasPlanificados := semCantidadProgramasPlanificados k - 1\<rparr>"
    using assms(4) c
    by (auto simp: pasarDeExecuteAExit_def liberar_cpu_def update_cpu_def coll_simps Let_def split: if_splits)
  then show ?thesis
    using assms(1) c by (auto simp: keeps_def sched_inv_def procs_def cpu_ok_def cpu_pids_def)
qed

lemma keeps_trans: "keeps k k1 \<Longrightarrow> keeps k1 k2 \<Longrightarrow> keeps k k2"
  by (simp add: keeps_def)

lemma keeps_inv: "keeps k k1 \<Longrightarrow> sched_inv k1"
  by (simp add: keeps_def)

text \<open>
  The three outcomes of a pending wait: there is none; the semaphore is free and the process goes on; or
  the process is blocked and its CPU is to be given free.
\<close>

lemma aplicar_wait_outcome:
  assumes inv: "sched_inv k" and i: "i < length (lista_cpu k)" and p: "proceso_asignado (lista_cpu k ! i) = Some p"
    and "aplicar_wait K i k = Some k1"
  shows "if proceso_bloqueado_por_wait (lista_cpu k1 ! i) then keeps k (free_cpu i k1)
    else keeps k k1 \<and> length (lista_cpu k1) = length (lista_cpu k) \<and> proceso_asignado (lista_cpu k1 ! i) = Some p"
proof (cases "proceso_bloqueado_por_wait (lista_cpu k ! i)")
  case False
  then show ?thesis using assms by (simp add: aplicar_wait_def keeps_def)
next
  case w: True
  obtain nombre si where n: "nombre_semaforo (lista_cpu k ! i) = Some nombre"
    "find_index (\<lambda>(n, _). n = nombre) (semaforos k) = Some si" and io: "int_ok (sint (cuenta (snd (semaforos k ! si))) - 1)"
    using assms(4) w by (auto simp: aplicar_wait_def coll_simps split: bind_splits if_splits)
  have si: "si < length (semaforos k)" using n(2) by (simp add: find_index_Some_iff)
  obtain us vs where l: "semaforos k = us @ semaforos k ! si # vs" "\<And>y. (semaforos k)[si := y] = us @ y # vs" "length us = si"
    using list_split_at [OF si] by blast
  obtain m s where s: "semaforos k ! si = (m, s)" by fastforce
  have "(m, s) \<in> set (semaforos k)" using si s by (metis nth_mem)
  then have ok: "sem_ok s" using inv by (force simp: sched_inv_def)
  have cu: "sint (cuenta s - 1) = sint (cuenta s) - 1" using io s by (simp add: sint_step)
  obtain xs c ys where c: "lista_cpu k = xs @ c # ys" "\<forall>y. (lista_cpu k)[i := y] = xs @ y # ys" "lista_cpu k ! i = c"
    "proceso_asignado c = Some p" "\<not> libre c" "length xs = i"
    using busy_split [OF inv i p] by blast
  have nth: "(xs @ c' # ys) ! i = c'" "(xs @ c' # ys)[i := c''] = xs @ c'' # ys" for c' c''
    using c(6) by (auto simp: nth_append list_update_append)
  have up: "update_sem si (\<lambda>s. s\<lparr>cuenta := cuenta s - 1\<rparr>) k = k\<lparr>semaforos := us @ (m, s\<lparr>cuenta := cuenta s - 1\<rparr>) # vs\<rparr>"
    by (simp add: update_sem_def s l(2))
  have ap: "aplicar_wait K i k = (let k1 = k\<lparr>semaforos := us @ (m, s\<lparr>cuenta := cuenta s - 1\<rparr>) # vs\<rparr> in
      if sint (cuenta s) - 1 < 0
      then pasarDeExecuteABlocked K i (update_sem si (\<lambda>s. s\<lparr>sem_cola := sem_cola s @ [pcb_pid p]\<rparr>) k1)
      else Some (update_cpu i (\<lambda>c. c\<lparr>proceso_bloqueado_por_wait := False\<rparr>) k1))"
    using w n io up cu l(3) p by (simp add: aplicar_wait_def coll_simps Let_def nth_append)
  show ?thesis
  proof (cases "sint (cuenta s) - 1 < 0")
    case False
    then have k1: "k1 = k\<lparr>semaforos := us @ (m, s\<lparr>cuenta := cuenta s - 1\<rparr>) # vs,
        lista_cpu := xs @ c\<lparr>proceso_bloqueado_por_wait := False\<rparr> # ys\<rparr>"
      using assms(4) ap c(2,3) by (simp add: Let_def update_cpu_def)
    have "keeps k k1"
      using inv ok cu False l(1) s c(1,4,5) unfolding k1
      by (auto simp: keeps_def sched_inv_def procs_def sem_ok_def cpu_ok_def cpu_pids_def)
    then show ?thesis using c(1,4) by (simp add: k1 nth)
  next
    case True
    then have k1: "k1 = k\<lparr>semaforos := us @ (m, s\<lparr>cuenta := cuenta s - 1, sem_cola := sem_cola s @ [pcb_pid p]\<rparr>) # vs,
        cola_bloqueados := cola_bloqueados k @ [p], lista_cpu := xs @ c\<lparr>proceso_asignado := None\<rparr> # ys\<rparr>"
      using assms(4) ap c(2,3,4) l(3)
      by (simp add: Let_def update_cpu_def update_sem_def nth_append list_update_append pasarDeExecuteABlocked_def coll_simps)
    have "keeps k (free_cpu i k1)"
      using inv ok cu True l(1) s c(1,4,5) nth unfolding k1
      by (auto simp: keeps_def sched_inv_def procs_def sem_ok_def cpu_ok_def cpu_pids_def free_cpu_def liberar_cpu_def update_cpu_def)
    then show ?thesis using w c(3) by (simp add: k1 nth)
  qed
qed

lemma assign_keeps:
  assumes "sched_inv k" "proceso_asignado (lista_cpu k ! i) = Some q" "pcb_pid q = pcb_pid p"
  shows "keeps k (update_cpu i (\<lambda>c. c\<lparr>proceso_asignado := Some p\<rparr>) k)"
  by (rule update_cpu_keeps [OF assms(1)]) (use assms in \<open>simp_all add: cpu_pids_def\<close>)

lemma continuar_keeps:
  assumes "sched_inv k" "continuar_procesando i k = (b, k1)"
  shows "keeps k k1 \<and> length (lista_cpu k1) = length (lista_cpu k) \<and>
    (i < length (lista_cpu k) \<longrightarrow> proceso_asignado (lista_cpu k1 ! i) = proceso_asignado (lista_cpu k ! i))"
proof (cases "es_round_robin k")
  case True
  then have k1: "k1 = update_cpu i (\<lambda>c. c\<lparr>cpu_quantum := cpu_quantum c + 1\<rparr>) k"
    using assms(2) by (simp add: continuar_procesando_def Let_def)
  have "keeps k k1" unfolding k1 by (rule update_cpu_keeps [OF assms(1)]) (simp_all add: cpu_pids_def)
  then show ?thesis by (simp add: k1 update_cpu_def)
next
  case False
  then show ?thesis using assms by (simp add: continuar_procesando_def keeps_def)
qed

lemma termino_keeps:
  assumes inv: "sched_inv k" and i: "obtener_cpu K fd k = Some i" and q: "proceso_asignado (lista_cpu k ! i) = Some q"
    and pid: "pcb_pid q = pcb_pid p" and nk: "\<not> (matar_proceso (lista_cpu k ! i) \<and> proceso_bloqueado_por_wait (lista_cpu k ! i))"
    and res: "termino_instruccion K A junk fd p k = Some k'"
  shows "keeps k k'"
proof -
  define p1 where "p1 = (if matar_proceso (lista_cpu k ! i) then p\<lparr>exit_code := - 77\<rparr> else p)"
  define k0 where "k0 = update_cpu i (\<lambda>c. c\<lparr>proceso_asignado := Some p1\<rparr>) k"
  have il: "i < length (lista_cpu k)" using obtener_cpu_SomeD [OF i] by simp
  have k0: "keeps k k0" unfolding k0_def by (rule assign_keeps [OF inv q]) (simp add: p1_def pid)
  have l0: "i < length (lista_cpu k0)" "proceso_asignado (lista_cpu k0 ! i) = Some p1"
    "proceso_bloqueado_por_wait (lista_cpu k0 ! i) = proceso_bloqueado_por_wait (lista_cpu k ! i)"
    using il by (simp_all add: k0_def update_cpu_def)
  obtain k1 where k1: "aplicar_wait K i k0 = Some k1"
    using res i by (auto simp: termino_instruccion_def Let_def k0_def p1_def split: bind_splits)
  note out = aplicar_wait_outcome [OF keeps_inv [OF k0] l0(1,2) k1]
  have "keeps k0 k'"
  proof (cases "matar_proceso (lista_cpu k ! i)")
    case True
    then have "k1 = k0" using k1 l0(3) nk by (simp add: aplicar_wait_def)
    then obtain k2 k3 k4 where k2: "avisar_consola K A (ucast (pcb_pid p)) k0 = Some k2"
      "send_to A OC_RESP_TERMINO_INSTRUCCION (Mem (u32_bytes (- 1))) fd (finalizar_en_memoria junk (ucast (pcb_pid p)) k2) = Some k3"
      "pasarDeExecuteAExit K i k3 = Some k4" "k' = k4\<lparr>semCantidadCpuLibres := semCantidadCpuLibres k4 + 1\<rparr>"
      using res i k1 True by (auto simp: termino_instruccion_def Let_def k0_def p1_def split: bind_splits)
    have same: "same_sched k0 k3"
      by (rule same_sched_trans [OF avisar_consola_same [OF k2(1)] same_sched_trans [OF same_sched_fields(5) send_to_same [OF k2(2)]]])
    have "keeps k3 k'" unfolding k2(4)
      using l0 by (intro to_exit_keeps [OF same_schedD(1) [OF same keeps_inv [OF k0]] _ _ k2(3)])
        (simp_all only: same_schedD(2) [OF same])
    then show ?thesis using same by (rule keeps_same_left)
  next
    case False
    show ?thesis
    proof (cases "proceso_bloqueado_por_wait (lista_cpu k1 ! i)")
      case True
      then obtain k2 where k2: "send_to A OC_RESP_TERMINO_INSTRUCCION (Mem (u32_bytes (- 1))) fd k1 = Some k2" "k' = free_cpu i k2"
        using res i k1 False by (auto simp: termino_instruccion_def Let_def k0_def p1_def free_cpu_def split: bind_splits)
      show ?thesis unfolding k2(2)
        using out True free_cpu_same [OF send_to_same [OF k2(1)]] by (simp add: keeps_same_right)
    next
      case nw: False
      obtain b k2 where k2: "continuar_procesando i k1 = (b, k2)" by fastforce
      have k01: "keeps k0 k1" and l1: "length (lista_cpu k1) = length (lista_cpu k0)" "proceso_asignado (lista_cpu k1 ! i) = Some p1"
        using out nw by simp_all
      note co = continuar_keeps [OF keeps_inv [OF k01] k2]
      have k02: "keeps k0 k2" using keeps_trans [OF k01] co by blast
      show ?thesis
      proof (cases b)
        case True
        then have "\<exists>m. send_to A OC_RESP_TERMINO_INSTRUCCION m fd k2 = Some k'"
          using res i k1 False nw k2 by (auto simp: termino_instruccion_def Let_def k0_def p1_def split: bind_splits)
        then obtain m where "send_to A OC_RESP_TERMINO_INSTRUCCION m fd k2 = Some k'" ..
        from keeps_same_right [OF k02 send_to_same [OF this]] show ?thesis .
      next
        case nb: False
        then obtain k3 where k3: "send_to A OC_RESP_TERMINO_INSTRUCCION (Mem (u32_bytes (- 1))) fd (cola_listos_push K p1 k2) = Some k3"
          "k' = free_cpu i k3"
          using res i k1 False nw k2 by (auto simp: termino_instruccion_def Let_def k0_def p1_def free_cpu_def split: bind_splits)
        have "keeps k2 (free_cpu i (cola_listos_push K p1 k2))"
          using co l0 l1 by (intro to_ready_keeps [OF keeps_inv [OF k02]]) auto
        from keeps_same_right [OF keeps_trans [OF k02 this] free_cpu_same [OF send_to_same [OF k3(1)]]]
        show ?thesis unfolding k3(2) .
      qed
    qed
  qed
  with k0 show ?thesis by (rule keeps_trans)
qed

lemma terminar_keeps:
  assumes inv: "sched_inv k" and i: "obtener_cpu K fd k = Some i" and q: "proceso_asignado (lista_cpu k ! i) = Some q"
    and pid: "pcb_pid q = pcb_pid p" and res: "terminar_en_cpu K A fd p k = Some k'"
  shows "keeps k k'"
proof -
  define k0 where "k0 = update_cpu i (\<lambda>c. c\<lparr>proceso_asignado := Some p\<rparr>) k"
  have il: "i < length (lista_cpu k)" using obtener_cpu_SomeD [OF i] by simp
  have k0: "keeps k k0" unfolding k0_def by (rule assign_keeps [OF inv q pid])
  have l0: "i < length (lista_cpu k0)" "proceso_asignado (lista_cpu k0 ! i) = Some p"
    using il by (simp_all add: k0_def update_cpu_def)
  obtain s k2 k3 where k2: "send_to A OC_MUERE_PROGRAMA (Mem (u32_bytes 1)) s k0 = Some k2"
    "pasarDeExecuteAExit K i k2 = Some k3" "k' = k3\<lparr>semCantidadCpuLibres := semCantidadCpuLibres k3 + 1\<rparr>"
    using res i by (auto simp: terminar_en_cpu_def Let_def k0_def split: bind_splits)
  note same = send_to_same [OF k2(1)]
  have "keeps k2 k'" unfolding k2(3)
    using l0 by (intro to_exit_keeps [OF same_schedD(1) [OF same keeps_inv [OF k0]] _ _ k2(2)])
      (simp_all only: same_schedD(2) [OF same])
  from keeps_trans [OF k0 keeps_same_left [OF this same]] show ?thesis .
qed

lemma finalize_first:
  assumes "sched_inv k" "obtener_cpu K fd k = Some i" "proceso_asignado (lista_cpu k ! i) = Some q" "pcb_pid q = pcb_pid p"
    and "k1 = k \<or> k1 = finalizar_en_memoria junk n k" "terminar_en_cpu K A fd p k1 = Some k'"
  shows "keeps k k'"
proof -
  have same: "same_sched k k1" using assms(5) by auto
  have "keeps k1 k'"
    using assms(2,3) by (intro terminar_keeps [OF same_schedD(1) [OF same assms(1)] _ _ assms(4,6)])
      (simp_all only: obtener_cpu_def same_schedD(2) [OF same])
  from keeps_same_left [OF this same] show ?thesis .
qed

lemma termina_keeps:
  assumes "sched_inv k" "obtener_cpu K fd k = Some i" "proceso_asignado (lista_cpu k ! i) = Some q" "pcb_pid q = pcb_pid p"
    "termina_programa K A junk fd p k = Some k' \<or> error_ejecucion_cpu K A junk fd p k = Some k'"
  shows "keeps k k'"
proof -
  let ?f = "finalizar_en_memoria junk (ucast (pcb_pid p)) k"
  obtain k1 where "k1 = k \<or> k1 = ?f" "terminar_en_cpu K A fd p k1 = Some k'"
    using assms(5) by (auto simp: termina_programa_def error_ejecucion_cpu_def split: if_splits)
  then show ?thesis by (rule finalize_first [OF assms(1-4)])
qed

lemma finalizar_sacado_keeps:
  assumes "finalizar_sacado K junk n p k = Some (b, k')"
  shows "same_sched (k\<lparr>cola_finalizados := cola_finalizados k @ [Some (p\<lparr>exit_code := - 77\<rparr>)],
      semCantidadProgramasPlanificados := semCantidadProgramasPlanificados k - 1\<rparr>) k' \<and> semCantidadProgramasPlanificados k \<noteq> 0"
  using assms
  by (auto simp: finalizar_sacado_def Let_def coll_simps finalizar_en_memoria_def same_sched_def split: if_splits)

text \<open>Taking a blocked process out of its semaphore.\<close>

definition drop_waiter :: "u16 \<Rightarrow> c_str \<times> t_semaphore \<Rightarrow> c_str \<times> t_semaphore" where
  "drop_waiter pid = (\<lambda>(n, s). case remove_first (\<lambda>q. q = pid) (sem_cola s) of
     (None, _) \<Rightarrow> (n, s) | (Some _, resto) \<Rightarrow> (n, s\<lparr>sem_cola := resto, cuenta := cuenta s + 1\<rparr>))"

lemma sacar_de_semaforos_eq: "sacar_de_semaforos K pid k = k\<lparr>semaforos := map (drop_waiter pid) (semaforos k)\<rparr>"
  by (simp add: sacar_de_semaforos_def drop_waiter_def coll_simps)

lemma drop_waiter_absent: "pid \<notin> set (sem_cola (snd s)) \<Longrightarrow> drop_waiter pid s = s"
proof -
  assume "pid \<notin> set (sem_cola (snd s))"
  then have "remove_first (\<lambda>q. q = pid) (sem_cola (snd s)) = (None, sem_cola (snd s))" by (intro remove_first_None) auto
  then show ?thesis by (cases s) (simp add: drop_waiter_def)
qed

lemma drop_waiter_present:
  assumes "pid \<in> set (sem_cola (snd s))" "sem_ok (snd s)"
  shows "sem_ok (snd (drop_waiter pid s)) \<and> mset (sem_cola (snd s)) = add_mset pid (mset (sem_cola (snd (drop_waiter pid s))))"
proof -
  obtain n t where s: "s = (n, t)" by fastforce
  obtain r resto where r: "remove_first (\<lambda>q. q = pid) (sem_cola t) = (r, resto)" by fastforce
  show ?thesis
  proof (cases r)
    case None
    then show ?thesis using remove_first_NoneD [OF r [unfolded None]] assms(1) s by auto
  next
    case (Some q)
    obtain xs ys where q: "q = pid" "sem_cola t = xs @ pid # ys" "resto = xs @ ys"
      using remove_first_Some [OF r [unfolded Some]] by auto
    have neg: "sint (cuenta t) < 0" using assms(2) q(2) s by (auto simp: sem_ok_def max_def split: if_splits)
    then have "int_ok (sint (cuenta t) + 1)" using sint_ge [of "cuenta t"] by (simp add: int_ok_def)
    then have "sint (cuenta t + 1) = sint (cuenta t) + 1" by (rule sint_step)
    then show ?thesis using assms(2) neg q r Some s by (auto simp: sem_ok_def drop_waiter_def)
  qed
qed

text \<open>A blocked pid that occurs once among the waiting ones.\<close>

lemma drop_waiter_all:
  assumes "\<forall>s \<in> snd ` set ss. sem_ok s" "count (waiting ss) pid = 1"
  shows "(\<forall>s \<in> snd ` set (map (drop_waiter pid) ss). sem_ok s) \<and> waiting ss = add_mset pid (waiting (map (drop_waiter pid) ss))"
  using assms
proof (induction ss)
  case Nil
  then show ?case by simp
next
  case (Cons s ss)
  show ?case
  proof (cases "pid \<in> set (sem_cola (snd s))")
    case True
    then have "0 < count (mset (sem_cola (snd s))) pid" by (simp only: count_greater_zero_iff set_mset_mset)
    moreover have "count (mset (sem_cola (snd s))) pid + count (waiting ss) pid = 1" using Cons.prems(2) by simp
    ultimately have "count (waiting ss) pid = 0" by linarith
    then have "\<forall>t \<in> set ss. pid \<notin> set (sem_cola (snd t))"
      by (induction ss) auto
    then have "map (drop_waiter pid) ss = ss" by (simp add: drop_waiter_absent map_idI)
    with drop_waiter_present [OF True] Cons.prems(1) show ?thesis by auto
  next
    case False
    then have "count (waiting ss) pid = 1" using Cons.prems(2) by (simp add: count_mset)
    with Cons False show ?thesis by (auto simp: drop_waiter_absent)
  qed
qed

lemma sacar_pcb_SomeD:
  "sacar_pcb K l n = (Some p, l') \<Longrightarrow> \<exists>xs ys. pcb_pid p = n \<and> l = xs @ p # ys \<and> l' = xs @ ys"
  using remove_first_Some [of "\<lambda>p. pcb_pid p = n" l p l'] by (auto simp: sacar_pcb_def coll_simps)

lemma kill_keeps:
  assumes inv: "sched_inv k" and nn: "\<forall>np \<in> set (cola_nuevos k). pcb_pid (np_pcb np) \<noteq> ucast pid"
    and one: "count (procs k) (ucast pid) \<le> 1" and res: "pasar_proceso_a_exit K junk pid k = Some (b, k')"
  shows "keeps k k'"
proof -
  have nuevo: "sacar_pcb_de_nuevo K (cola_nuevos k) (ucast pid) = (None, cola_nuevos k)"
    using nn by (simp add: sacar_pcb_de_nuevo_def coll_simps remove_first_None)
  obtain r l where listos: "sacar_pcb K (cola_listos k) (ucast pid) = (r, l)" by fastforce
  show ?thesis
  proof (cases r)
    case (Some p)
    then obtain xs ys where p: "pcb_pid p = ucast pid" "cola_listos k = xs @ p # ys" "l = xs @ ys"
      using sacar_pcb_SomeD listos by blast
    have "finalizar_sacado K junk pid p (k\<lparr>cola_listos := l\<rparr>) = Some (b, k')"
      using res nuevo listos Some by (simp add: pasar_proceso_a_exit_def)
    from finalizar_sacado_keeps [OF this] show ?thesis
      using inv p by (auto simp: keeps_def sched_inv_def procs_def same_sched_def)
  next
    case None
    obtain r2 l2 where bloq: "sacar_pcb K (cola_bloqueados k) (ucast pid) = (r2, l2)" by fastforce
    show ?thesis
    proof (cases r2)
      case (Some p)
      then obtain xs ys where p: "pcb_pid p = ucast pid" "cola_bloqueados k = xs @ p # ys" "l2 = xs @ ys"
        using sacar_pcb_SomeD bloq by blast
      have w: "mset (map pcb_pid (cola_bloqueados k)) = waiting (semaforos k)" using inv by (simp add: sched_inv_def)
      have "count (mset (map pcb_pid (cola_bloqueados k))) (ucast pid) \<le> count (procs k) (ucast pid)"
        unfolding procs_def by simp
      moreover have "0 < count (mset (map pcb_pid (cola_bloqueados k))) (ucast pid)" using p by simp
      ultimately have "count (waiting (semaforos k)) (ucast pid) = 1" using one unfolding w by linarith
      then have d: "(\<forall>s \<in> snd ` set (map (drop_waiter (ucast pid)) (semaforos k)). sem_ok s)"
          "waiting (semaforos k) = add_mset (ucast pid) (waiting (map (drop_waiter (ucast pid)) (semaforos k)))"
        using drop_waiter_all [of "semaforos k" "ucast pid"] inv by (auto simp: sched_inv_def)
      have "finalizar_sacado K junk pid p (k\<lparr>cola_bloqueados := l2, semaforos := map (drop_waiter (ucast pid)) (semaforos k)\<rparr>) = Some (b, k')"
        using res nuevo listos None bloq Some p(1) by (simp add: pasar_proceso_a_exit_def sacar_de_semaforos_eq)
      from finalizar_sacado_keeps [OF this] show ?thesis
        using inv p d w by (auto simp: keeps_def sched_inv_def procs_def same_sched_def)
    next
      case none2: None
      then have "k' = k \<or> (\<exists>i. k' = update_cpu i (\<lambda>c. c\<lparr>matar_proceso := True\<rparr>) k)"
        using res nuevo listos None bloq by (auto simp: pasar_proceso_a_exit_def split: option.splits)
      then show ?thesis
      proof (elim disjE exE)
        assume "k' = k"
        then show ?thesis using inv by (simp add: keeps_def)
      next
        fix i assume k': "k' = update_cpu i (\<lambda>c. c\<lparr>matar_proceso := True\<rparr>) k"
        show ?thesis unfolding k' by (rule update_cpu_keeps [OF inv]) (simp_all add: cpu_pids_def)
      qed
    qed
  qed
qed

text \<open>A busy CPU leaves; its process goes back to the ready queue.\<close>

lemma eliminar_at: "obtener_cpu K fd k = Some i \<Longrightarrow> eliminar_cpu K fd k = k\<lparr>lista_cpu := remove_at i (lista_cpu k)\<rparr>"
  by (simp add: obtener_cpu_def eliminar_cpu_def coll_simps remove_first_def)

lemma leave_keeps:
  assumes inv: "sched_inv k" and i: "i < length (lista_cpu k)" and q: "proceso_asignado (lista_cpu k ! i) = Some q"
    and pid: "pcb_pid q = pcb_pid p"
    and k': "k' = (cola_listos_push K p k)\<lparr>lista_cpu := remove_at i (lista_cpu k)\<rparr>"
  shows "keeps k k'"
proof -
  obtain xs c ys where c: "lista_cpu k = xs @ c # ys" "\<forall>y. (lista_cpu k)[i := y] = xs @ y # ys" "lista_cpu k ! i = c"
    "proceso_asignado c = Some q" "\<not> libre c" "length xs = i"
    using busy_split [OF inv i q] by blast
  have r: "remove_at i (lista_cpu k) = xs @ ys" using c(1,6) remove_at_split by metis
  show ?thesis
    using inv c pid unfolding k' r
    by (auto simp: keeps_def sched_inv_def procs_def cola_listos_push_def coll_simps cpu_ok_def cpu_pids_def)
qed

lemma desconexion_keeps:
  assumes "sched_inv k" "obtener_cpu K fd k = Some i" "proceso_asignado (lista_cpu k ! i) = Some q"
    "desconexion_cpu K fd k = Some k'"
  shows "keeps k k'"
proof -
  have "obtener_cpu K fd (cola_listos_push K q k) = Some i" using assms(2) by (simp add: obtener_cpu_def cola_listos_push_def)
  from eliminar_at [OF this] have "k' = (cola_listos_push K q k)\<lparr>lista_cpu := remove_at i (lista_cpu k)\<rparr>"
    using assms(2-4) by (auto simp: desconexion_cpu_def cola_listos_push_def)
  with assms obtener_cpu_SomeD [OF assms(2)] show ?thesis by (intro leave_keeps [of k i q q]) simp_all
qed

lemma desconex_keeps:
  assumes "sched_inv k" "obtener_cpu K fd k = Some i" "proceso_asignado (lista_cpu k ! i) = Some q" "pcb_pid q = pcb_pid p"
    "desconex_cpu K fd p k = Some k'"
  shows "keeps k k'"
proof -
  have i: "i < length (lista_cpu k)" "file_descriptor (lista_cpu k ! i) = fd" using obtener_cpu_SomeD [OF assms(2)] by auto
  define k1 where "k1 = cola_listos_push K p (liberar_cpu i (update_cpu i (\<lambda>c. c\<lparr>proceso_asignado := Some p\<rparr>) k))"
  have k1: "k1 = (cola_listos_push K p k)\<lparr>lista_cpu := (lista_cpu k)[i := (lista_cpu k ! i)\<lparr>libre := True, cpu_quantum := 0,
      proceso_asignado := None, matar_proceso := False, proceso_desbloqueado_por_signal := False, proceso_bloqueado_por_wait := False\<rparr>]\<rparr>"
    using i by (simp add: k1_def cola_listos_push_def liberar_cpu_def update_cpu_def)
  have "obtener_cpu K fd k1 = Some i"
    using assms(2) i find_index_update_same [OF i(1), of "\<lambda>c. file_descriptor c = fd"] by (simp add: obtener_cpu_def k1 coll_simps)
  moreover have "k' = eliminar_cpu K fd k1"
    using assms(2,5) i by (simp add: desconex_cpu_def pasarDeExecuteAReady_def k1_def update_cpu_def)
  ultimately have "k' = (cola_listos_push K p k)\<lparr>lista_cpu := remove_at i (lista_cpu k)\<rparr>"
    using eliminar_at [of fd k1 i] by (simp add: k1 remove_at_def)
  with assms i show ?thesis by (intro leave_keeps [of k i q p]) simp_all
qed

end

section \<open>The transition system\<close>

text \<open>
  \<open>runs K fd p k\<close>: the CPU connected as \<open>fd\<close> holds a process with the pid of \<open>p\<close>, as it does when it returns
  the PCB it was given.
\<close>

definition runs :: "kernel_lib \<Rightarrow> u32 \<Rightarrow> u16 \<Rightarrow> kernel \<Rightarrow> bool" where
  "runs K fd pid k = (case obtener_cpu K fd k of None \<Rightarrow> False | Some i \<Rightarrow>
     (case proceso_asignado (lista_cpu k ! i) of None \<Rightarrow> False | Some q \<Rightarrow> pcb_pid q = pid))"

definition killed_while_waiting :: "kernel_lib \<Rightarrow> u32 \<Rightarrow> kernel \<Rightarrow> bool" where
  "killed_while_waiting K fd k = (case obtener_cpu K fd k of None \<Rightarrow> False | Some i \<Rightarrow>
     matar_proceso (lista_cpu k ! i) \<and> proceso_bloqueado_por_wait (lista_cpu k ! i))"

inductive kstep :: "kernel_lib \<Rightarrow> abi \<Rightarrow> storage \<Rightarrow> (c_str \<Rightarrow> t_metadata_program) \<Rightarrow> kernel \<Rightarrow> kernel \<Rightarrow> bool"
  for K A junk meta where
  new: "solicitud_programa_nuevo K A junk meta fd codigo k = Some k' \<Longrightarrow> ucast (registro_pid k) \<notin># procs k \<Longrightarrow> kstep K A junk meta k k'"
| connect: "conectar_cpu K A fd k = Some k' \<Longrightarrow> kstep K A junk meta k k'"
| admit: "planificador_largo_plazo K junk k = Some k' \<Longrightarrow> kstep K A junk meta k k'"
| dispatch: "pasarDeReadyAExecute K A junk k = Some k' \<Longrightarrow> kstep K A junk meta k k'"
| signal: "funcion_signal K A fd nombre k = Some k' \<Longrightarrow> kstep K A junk meta k k'"
| wait: "funcion_wait K A fd nombre k = Some k' \<Longrightarrow> kstep K A junk meta k k'"
| instruction: "termino_instruccion K A junk fd p k = Some k' \<Longrightarrow> runs K fd (pcb_pid p) k \<Longrightarrow> \<not> killed_while_waiting K fd k \<Longrightarrow>
    kstep K A junk meta k k'"
| finish: "termina_programa K A junk fd p k = Some k' \<Longrightarrow> runs K fd (pcb_pid p) k \<Longrightarrow> kstep K A junk meta k k'"
| fail: "error_ejecucion_cpu K A junk fd p k = Some k' \<Longrightarrow> runs K fd (pcb_pid p) k \<Longrightarrow> kstep K A junk meta k k'"
| leave: "desconex_cpu K fd p k = Some k' \<Longrightarrow> runs K fd (pcb_pid p) k \<Longrightarrow> kstep K A junk meta k k'"
| lost: "desconexion_cpu K fd k = Some k' \<Longrightarrow> runs K fd pid k \<Longrightarrow> kstep K A junk meta k k'"
| kill: "pasar_proceso_a_exit K junk pid k = Some (b, k') \<Longrightarrow> \<forall>np \<in> set (cola_nuevos k). pcb_pid (np_pcb np) \<noteq> ucast pid \<Longrightarrow>
    kstep K A junk meta k k'"

inductive_cases kstepE: "kstep K A junk meta k k'"

inductive kreach :: "kernel_lib \<Rightarrow> abi \<Rightarrow> storage \<Rightarrow> (c_str \<Rightarrow> t_metadata_program) \<Rightarrow> kernel \<Rightarrow> kernel \<Rightarrow> bool"
  for K A junk meta k where
  start: "kreach K A junk meta k k"
| step: "kreach K A junk meta k k1 \<Longrightarrow> kstep K A junk meta k1 k2 \<Longrightarrow> kreach K A junk meta k k2"

definition once_each :: "kernel \<Rightarrow> bool" where
  "once_each k \<longleftrightarrow> (\<forall>pid. count (procs k) pid \<le> 1)"

lemma once_eachD: "once_each k \<Longrightarrow> count (procs k) pid \<le> 1"
  by (simp add: once_each_def)

lemma keeps_once: "keeps k k' \<Longrightarrow> once_each k \<Longrightarrow> sched_inv k' \<and> once_each k' \<and> procs k \<subseteq># procs k'"
  by (simp add: keeps_def once_each_def)

lemma kstep_keeps:
  assumes "kernel_commons K" "kstep K A junk meta k k'" "sched_inv k" "once_each k"
  shows "sched_inv k' \<and> once_each k' \<and> procs k \<subseteq># procs k'"
  using assms(2)
proof cases
  case (new fd codigo)
  have "sched_inv k'" "procs k' = add_mset (ucast (registro_pid k)) (procs k)"
    using kernel_commons.solicitud_keeps [OF assms(1,3) new(1)] by auto
  then show ?thesis using assms(4) new(2) by (auto simp: once_each_def count_eq_zero_iff)
next
  case (connect fd)
  from keeps_once [OF kernel_commons.conectar_keeps [OF assms(1,3) connect] assms(4)] show ?thesis .
next
  case admit
  then have "pasarDeNewAReady K junk (k\<lparr>semPlanificarLargoPlazo := semPlanificarLargoPlazo k - 1\<rparr>) = Some k'"
    by (simp add: planificador_largo_plazo_def split: if_splits)
  from keeps_same_left [OF kernel_commons.new_ready_keeps [OF assms(1) same_schedD(1) [OF same_sched_fields(4) assms(3)] this] same_sched_fields(4)]
  have "keeps k k'" .
  from keeps_once [OF this assms(4)] show ?thesis .
next
  case dispatch
  from keeps_once [OF kernel_commons.ready_execute_keeps [OF assms(1,3) dispatch] assms(4)] show ?thesis .
next
  case (signal fd nombre)
  from keeps_once [OF kernel_commons.signal_keeps [OF assms(1,3) signal] assms(4)] show ?thesis .
next
  case (wait fd nombre)
  from keeps_once [OF kernel_commons.wait_keeps [OF assms(1,3) wait] assms(4)] show ?thesis .
next
  case (instruction fd p)
  then obtain i q where "obtener_cpu K fd k = Some i" "proceso_asignado (lista_cpu k ! i) = Some q" "pcb_pid q = pcb_pid p"
    "\<not> (matar_proceso (lista_cpu k ! i) \<and> proceso_bloqueado_por_wait (lista_cpu k ! i))"
    by (auto simp: runs_def killed_while_waiting_def split: option.splits)
  from keeps_once [OF kernel_commons.termino_keeps [OF assms(1,3) this instruction(1)] assms(4)] show ?thesis .
next
  case (finish fd p)
  then obtain i q where "obtener_cpu K fd k = Some i" "proceso_asignado (lista_cpu k ! i) = Some q" "pcb_pid q = pcb_pid p"
    by (auto simp: runs_def split: option.splits)
  from keeps_once [OF kernel_commons.termina_keeps [OF assms(1,3) this disjI1 [OF finish(1)]] assms(4)] show ?thesis .
next
  case (fail fd p)
  then obtain i q where "obtener_cpu K fd k = Some i" "proceso_asignado (lista_cpu k ! i) = Some q" "pcb_pid q = pcb_pid p"
    by (auto simp: runs_def split: option.splits)
  from keeps_once [OF kernel_commons.termina_keeps [OF assms(1,3) this disjI2 [OF fail(1)]] assms(4)] show ?thesis .
next
  case (leave fd p)
  then obtain i q where "obtener_cpu K fd k = Some i" "proceso_asignado (lista_cpu k ! i) = Some q" "pcb_pid q = pcb_pid p"
    by (auto simp: runs_def split: option.splits)
  from keeps_once [OF kernel_commons.desconex_keeps [OF assms(1,3) this leave(1)] assms(4)] show ?thesis .
next
  case (lost fd pid)
  then obtain i q where "obtener_cpu K fd k = Some i" "proceso_asignado (lista_cpu k ! i) = Some q"
    by (auto simp: runs_def split: option.splits)
  from keeps_once [OF kernel_commons.desconexion_keeps [OF assms(1,3) this lost(1)] assms(4)] show ?thesis .
next
  case (kill pid b)
  from keeps_once [OF kernel_commons.kill_keeps [OF assms(1,3) kill(2) once_eachD [OF assms(4)] kill(1)] assms(4)] show ?thesis .
qed

text \<open>The state \<open>main\<close> builds, with semaphores of non-negative initial count.\<close>

lemma start_inv:
  assumes "cola_nuevos k = []" "cola_listos k = []" "cola_bloqueados k = []" "cola_finalizados k = []" "lista_cpu k = []"
    "\<forall>(n, s) \<in> set (semaforos k). sem_cola s = [] \<and> 0 \<le> sint (cuenta s)"
    "semCantidadProgramasPlanificados k = 0" "semCantidadCpuLibres k = 0"
  shows "sched_inv k \<and> once_each k"
proof -
  have "waiting ss = {#}" if "\<forall>(n, s) \<in> set ss. sem_cola s = [] \<and> 0 \<le> sint (cuenta s)" for ss
    using that by (induction ss) auto
  from this [OF assms(6)] show ?thesis
    using assms by (auto simp: sched_inv_def once_each_def procs_def sem_ok_def split: prod.splits)
qed



section \<open>Where the books are not kept\<close>

text \<open>
  Killing a program that has not been admitted takes it off the number of planned programs, in which
  it was never counted.  When no program is planned the kill never returns (it waits for the counter while
  it holds the kill lock); otherwise the counter is one less than the number of ready, running and blocked
  programs, so one program too many will be admitted.
\<close>

theorem kill_new_process_miscounts:
  assumes "kernel_commons K" "sched_inv k" "np \<in> set (cola_nuevos k)" "pcb_pid (np_pcb np) = ucast pid"
  shows "if semCantidadProgramasPlanificados k = 0 then pasar_proceso_a_exit K junk pid k = None
    else \<exists>k'. pasar_proceso_a_exit K junk pid k = Some (True, k') \<and> procs k' = procs k \<and>
      semCantidadProgramasPlanificados k' + 1 = length (cola_listos k') + length (running (lista_cpu k')) + length (cola_bloqueados k')"
proof -
  note coll = kernel_commons.coll_simps [OF assms(1)]
  obtain r l where r: "remove_first (\<lambda>p. pcb_pid (np_pcb p) = ucast pid) (cola_nuevos k) = (r, l)" by fastforce
  have "r \<noteq> None" using assms(3,4) r remove_first_NoneD [of "\<lambda>p. pcb_pid (np_pcb p) = ucast pid" "cola_nuevos k" l] by auto
  then obtain np' where np': "r = Some np'" by blast
  obtain xs ys where s: "cola_nuevos k = xs @ np' # ys" "l = xs @ ys" "pcb_pid (np_pcb np') = ucast pid"
    using remove_first_Some [OF r [unfolded np']] by auto
  have e: "pasar_proceso_a_exit K junk pid k = finalizar_sacado K junk pid (np_pcb np') (k\<lparr>cola_nuevos := l\<rparr>)"
    by (simp add: pasar_proceso_a_exit_def sacar_pcb_de_nuevo_def coll r np')
  show ?thesis
    using assms(2) s
    by (auto simp: e finalizar_sacado_def Let_def finalizar_en_memoria_def coll sched_inv_def procs_def)
qed

theorem kill_new_process_miscounts_witness:
  "pasar_proceso_a_exit seq_kernel_lib (\<lambda>_. 0) 3 ((demo_kernel [] [])\<lparr>lista_cpu := [], semCantidadProgramasPlanificados := 0,
     cola_nuevos := [\<lparr>np_pcb = demo_pcb\<lparr>pcb_pid := 3\<rparr>, np_cantidad_paginas = 3, np_codigo = [1]\<rparr>]\<rparr>) = None"
  using kill_new_process_miscounts [OF seq_kernel.kernel_commons_axioms,
      of "(demo_kernel [] [])\<lparr>lista_cpu := [], semCantidadProgramasPlanificados := 0,
        cola_nuevos := [\<lparr>np_pcb = demo_pcb\<lparr>pcb_pid := 3\<rparr>, np_cantidad_paginas = 3, np_codigo = [1]\<rparr>]\<rparr>"
      "\<lparr>np_pcb = demo_pcb\<lparr>pcb_pid := 3\<rparr>, np_cantidad_paginas = 3, np_codigo = [1]\<rparr>" 3 "\<lambda>_. 0"]
  by (simp add: sched_inv_def demo_kernel_def)

text \<open>
  A process is lost after an idle CPU has gone.  \<open>eliminar_cpu\<close> does not take the CPU off the counter of
  free CPUs.  When the only CPU was idle and disconnects, the next round of the short-term scheduler still
  passes both semaphores, takes the first ready process out of the queue, finds no CPU for it, and drops it.
\<close>

theorem idle_cpu_disconnect_loses_process:
  assumes "kernel_commons K" "sched_inv k" "lista_cpu k = [c]" "libre c" "file_descriptor c = fd" "cola_listos k = p # resto"
  shows "\<exists>k1 k2. desconexion_cpu K fd k = Some k1 \<and> pasarDeReadyAExecute K A junk k1 = Some k2 \<and>
    procs k = add_mset (pcb_pid p) (procs k2)"
proof -
  note coll = kernel_commons.coll_simps [OF assms(1)]
  have n: "proceso_asignado c = None" "semCantidadCpuLibres k = 1" "semCantidadElementosColaListos k \<noteq> 0"
    using assms by (auto simp: sched_inv_def cpu_ok_def)
  have "desconexion_cpu K fd k = Some (k\<lparr>lista_cpu := []\<rparr>)"
    using assms n by (simp add: desconexion_cpu_def obtener_cpu_def eliminar_cpu_def coll remove_first_def remove_at_def)
  moreover have "pasarDeReadyAExecute K A junk (k\<lparr>lista_cpu := []\<rparr>) =
      Some (k\<lparr>lista_cpu := [], semCantidadElementosColaListos := semCantidadElementosColaListos k - 1,
        semCantidadCpuLibres := 0, cola_listos := resto\<rparr>)"
    using assms n by (simp add: pasarDeReadyAExecute_def coll pop_front_def Let_def)
  ultimately show ?thesis using assms n by (simp add: procs_def cpu_pids_def)
qed

theorem idle_cpu_disconnect_loses_process_witness:
  "\<exists>k1 k2. desconexion_cpu seq_kernel_lib 7 ((demo_kernel [] [])\<lparr>lista_cpu := [cpu_create 7], cola_listos := [demo_pcb],
      semCantidadCpuLibres := 1, semCantidadElementosColaListos := 1\<rparr>) = Some k1 \<and>
    pasarDeReadyAExecute seq_kernel_lib abi32 (\<lambda>_. 0) k1 = Some k2"
proof -
  let ?k = "(demo_kernel [] [])\<lparr>lista_cpu := [cpu_create 7], cola_listos := [demo_pcb],
      semCantidadCpuLibres := 1, semCantidadElementosColaListos := 1\<rparr>"
  have "sched_inv ?k" by (simp add: sched_inv_def demo_kernel_def cpu_create_def cpu_ok_def cpu_pids_def)
  moreover have "lista_cpu ?k = [cpu_create 7]" "libre (cpu_create 7)" "file_descriptor (cpu_create 7) = 7" "cola_listos ?k = [demo_pcb]"
    by (simp_all add: cpu_create_def)
  ultimately obtain k1 k2 where "desconexion_cpu seq_kernel_lib 7 ?k = Some k1" "pasarDeReadyAExecute seq_kernel_lib abi32 (\<lambda>_. 0) k1 = Some k2"
    using idle_cpu_disconnect_loses_process [OF seq_kernel.kernel_commons_axioms, of ?k "cpu_create 7" 7 demo_pcb "[]" abi32 "\<lambda>_. 0"]
    by (elim meta_impE exE conjE)
  then show ?thesis by (intro exI conjI)
qed

text \<open>
  A process that is killed in the instruction that blocks it on a semaphore stays in the blocked queue with
  its memory released, and a null pointer enters the queue of finished processes.
\<close>

lemma killed_while_waiting_stays:
  assumes "kernel_commons K" "obtener_cpu K fd k = Some i" "matar_proceso (lista_cpu k ! i)"
    "proceso_bloqueado_por_wait (lista_cpu k ! i)" "nombre_semaforo (lista_cpu k ! i) = Some nombre"
    "find_index (\<lambda>(n, _). n = nombre) (semaforos k) = Some si" "sint (cuenta (snd (semaforos k ! si))) \<le> 0"
    "termino_instruccion K A junk fd p k = Some k'"
  shows "None \<in> set (cola_finalizados k') \<and> p\<lparr>exit_code := - 77\<rparr> \<in> set (cola_bloqueados k')"
proof -
  note coll = kernel_commons.coll_simps [OF assms(1)]
  have il: "i < length (lista_cpu k)" using kernel_commons.obtener_cpu_SomeD [OF assms(1,2)] by simp
  have si: "si < length (semaforos k)" using assms(6) by (simp add: find_index_Some_iff)
  let ?p = "p\<lparr>exit_code := - 77\<rparr>"
  obtain k1 where k1: "aplicar_wait K i (update_cpu i (\<lambda>c. c\<lparr>proceso_asignado := Some ?p\<rparr>) k) = Some k1"
    and rest: "Option.bind (avisar_consola K A (ucast (pcb_pid p)) k1) (\<lambda>k2. Option.bind
       (send_to A OC_RESP_TERMINO_INSTRUCCION (Mem (u32_bytes (- 1))) fd (finalizar_en_memoria junk (ucast (pcb_pid p)) k2)) (\<lambda>k3.
       Option.bind (pasarDeExecuteAExit K i k3) (\<lambda>k4. Some (k4\<lparr>semCantidadCpuLibres := semCantidadCpuLibres k4 + 1\<rparr>)))) = Some k'"
    using assms(2,3,8) by (auto simp: termino_instruccion_def Let_def split: bind_splits)
  have "?p \<in> set (cola_bloqueados k1)" "proceso_asignado (lista_cpu k1 ! i) = None"
    using k1 assms(4-7) il si sint_step(2) [of "cuenta (snd (semaforos k ! si))"]
    by (auto simp: aplicar_wait_def coll update_cpu_def update_sem_def pasarDeExecuteABlocked_def Let_def split: bind_splits if_splits)
  moreover obtain k3 k4 where "same_sched k1 k3" "pasarDeExecuteAExit K i k3 = Some k4"
    "k' = k4\<lparr>semCantidadCpuLibres := semCantidadCpuLibres k4 + 1\<rparr>"
    using rest by (auto split: bind_splits dest!: avisar_consola_same send_to_same intro: same_sched_trans [OF _ same_sched_trans [OF same_sched_fields(5)]])
  ultimately show ?thesis
    by (auto simp: pasarDeExecuteAExit_def liberar_cpu_def update_cpu_def coll Let_def same_sched_def split: if_splits)
qed

end
