(* ===== verification/Kernel_Heap.thy ===== *)
theory Kernel_Heap
  imports Kernel_State
begin

text \<open>
  The dynamic memory of the processes (\<open>kernel/src/solicitudes.c\<close>): a heap page is a sequence of
  blocks, each a \<open>t_heapMetadata\<close> (eight bytes: the size, the flag \<open>isFree\<close>, three bytes of padding)
  followed by its data; the kernel keeps the free space of every heap page in \<open>tabla_paginas_heap\<close>.
  Here are the functions on one page, the table, and the two request handlers
  \<open>OC_FUNCION_RESERVAR\<close> and \<open>OC_FUNCION_LIBERAR\<close>.  The two loops over the blocks of a page follow the
  sizes found in the page, so they are partial functions: \<open>None\<close> when the loop does not end or leaves
  the page.  The proofs are in \<open>Kernel_Heap_Props\<close>.
\<close>

section \<open>Block metadata\<close>

record t_heapMetadata =
  hm_size :: u32
  hm_isFree :: bool
  hm_padding :: "byte list"

definition metadata_bytes :: "t_heapMetadata \<Rightarrow> byte list" where
  "metadata_bytes m = u32_bytes (hm_size m) @ [if hm_isFree m then 1 else 0] @ hm_padding m"

definition fresh_padding :: "storage \<Rightarrow> byte list" where
  "fresh_padding junk = map junk [5..<8]"

definition leer_metadata :: "storage \<Rightarrow> byte list \<Rightarrow> nat \<Rightarrow> t_heapMetadata option" where
  "leer_metadata junk pagina off =
     (if length pagina < off + 5 then None
      else Some \<lparr>hm_size = bytes_u32 (mem_read off 4 pagina), hm_isFree = pagina ! (off + 4) \<noteq> 0,
                 hm_padding = fresh_padding junk\<rparr>)"

definition poner_metadata :: "nat \<Rightarrow> t_heapMetadata \<Rightarrow> byte list \<Rightarrow> byte list option" where
  "poner_metadata off m pagina = (if length pagina < off + 8 then None else Some (mem_write off (metadata_bytes m) pagina))"

definition crear_metadata_libre :: "storage \<Rightarrow> u32 \<Rightarrow> t_heapMetadata" where
  "crear_metadata_libre junk espacio = \<lparr>hm_size = espacio - 8, hm_isFree = True, hm_padding = fresh_padding junk\<rparr>"

section \<open>Reserving and freeing a block of a page\<close>

partial_function (option) buscar_desde :: "u32 \<Rightarrow> storage \<Rightarrow> byte list \<Rightarrow> u32 \<Rightarrow> u32 \<Rightarrow> u32 option" where
  "buscar_desde T junk pagina espacio_pedido offset =
     (if offset < T then
        Option.bind (leer_metadata junk pagina (unat offset)) (\<lambda>m.
          if hm_isFree m \<and> espacio_pedido + 8 \<le> hm_size m then Some offset
          else buscar_desde T junk pagina espacio_pedido (offset + 8 + hm_size m))
      else Some 0)"

definition buscar_bloque_disponible :: "u32 \<Rightarrow> storage \<Rightarrow> byte list \<Rightarrow> u32 \<Rightarrow> u32 option" where
  "buscar_bloque_disponible T junk pagina espacio_pedido = buscar_desde T junk pagina espacio_pedido 0"

definition marcar_bloque_ocupado :: "storage \<Rightarrow> u32 \<Rightarrow> byte list \<Rightarrow> u32 \<Rightarrow> byte list option" where
  "marcar_bloque_ocupado junk bloque_heap_ptr pagina espacio_pedido = do {
     m \<leftarrow> leer_metadata junk pagina (unat bloque_heap_ptr);
     let sobrante = hm_size m - espacio_pedido;
     let m1 = m\<lparr>hm_isFree := False, hm_size := espacio_pedido\<rparr>;
     pagina1 \<leftarrow> poner_metadata (unat bloque_heap_ptr) m1 pagina;
     poner_metadata (unat bloque_heap_ptr + 8 + unat (hm_size m1)) (crear_metadata_libre junk sobrante) pagina1 }"

definition marcar_bloque_libre :: "t_heapMetadata \<Rightarrow> nat \<Rightarrow> byte list \<Rightarrow> byte list option" where
  "marcar_bloque_libre m off pagina = poner_metadata off (m\<lparr>hm_isFree := True\<rparr>) pagina"

definition juntar_bloques :: "t_heapMetadata \<Rightarrow> t_heapMetadata \<Rightarrow> t_heapMetadata" where
  "juntar_bloques m1 m2 = m2\<lparr>hm_size := hm_size m2 + (8 + hm_size m1)\<rparr>"

text \<open>
  The loop of \<open>defragmentar\<close>: the page, and whether two blocks have been joined (the table of heap pages
  is then credited with the space of one metadata).  \<open>offset\<close> is an \<open>int\<close>.
\<close>

partial_function (option) defragmentar_desde ::
    "u32 \<Rightarrow> storage \<Rightarrow> byte list \<Rightarrow> t_heapMetadata \<Rightarrow> u32 \<Rightarrow> (byte list \<times> bool) option" where
  "defragmentar_desde T junk pagina m offset =
     (if sint offset < sint T then
        if sint offset < 0 then None
        else Option.bind (leer_metadata junk pagina (unat offset)) (\<lambda>m2.
          if hm_isFree m \<and> hm_isFree m2 then
            (if unat offset < 8 + unat (hm_size m) then None
             else map_option (\<lambda>p. (p, True))
               (poner_metadata (unat offset - 8 - unat (hm_size m)) (juntar_bloques m m2) pagina))
          else defragmentar_desde T junk pagina m2 (offset + 8 + hm_size m2))
      else Some (pagina, False))"

definition defragmentar_pagina :: "u32 \<Rightarrow> storage \<Rightarrow> byte list \<Rightarrow> (byte list \<times> bool) option" where
  "defragmentar_pagina T junk pagina = do {
     m \<leftarrow> leer_metadata junk pagina 0;
     defragmentar_desde T junk pagina m (8 + hm_size m) }"

section \<open>Addresses\<close>

text \<open>The products of \<open>int\<close>s must not overflow.\<close>

definition obtener_direccion_relativa :: "u32 \<Rightarrow> u32 \<Rightarrow> u32 \<Rightarrow> u32 \<Rightarrow> u32 option" where
  "obtener_direccion_relativa T puntero nro_pagina_heap cantidad_paginas_codigo =
     (if int_ok (sint T * sint nro_pagina_heap) \<and> int_ok (sint T * sint cantidad_paginas_codigo)
      then Some (puntero + 8 + T * nro_pagina_heap + T * cantidad_paginas_codigo) else None)"

record t_pedido_liberar_memoria =
  pl_pid :: u32
  pl_nro_pagina :: u32
  pl_posicion :: u32

definition obtener_direccion_de_bloque_verdadera ::
    "u32 \<Rightarrow> t_pedido_liberar_memoria \<Rightarrow> u32 \<Rightarrow> t_pedido_liberar_memoria option" where
  "obtener_direccion_de_bloque_verdadera T pedido cantidad_paginas_codigo =
     (let q = c_div (sint (pl_posicion pedido)) (sint T) in
      if T = 0 \<or> \<not> int_ok q \<or> \<not> int_ok (q - sint cantidad_paginas_codigo) then None
      else Some (pedido\<lparr>pl_nro_pagina := word_of_int (q - sint cantidad_paginas_codigo),
                        pl_posicion := word_of_int (sint (pl_posicion pedido) - sint T * q) - 8\<rparr>))"

section \<open>The table of heap pages\<close>

definition obtener_pagina_con_suficiente_espacio :: "kernel_lib \<Rightarrow> u32 \<Rightarrow> u32 \<Rightarrow> kernel \<Rightarrow> nat option" where
  "obtener_pagina_con_suficiente_espacio K pid espacio k =
     kl_find (heap_c K) (tabla_paginas_heap k) (\<lambda>p. ph_pid p = pid \<and> espacio + 8 \<le> espacio_libre p)"

definition crear_pagina_heap :: "u32 \<Rightarrow> u32 \<Rightarrow> u32 \<Rightarrow> t_pagina_heap" where
  "crear_pagina_heap T pid nro_pagina = \<lparr>ph_pid = pid, ph_nro_pagina = nro_pagina, espacio_libre = T - 8\<rparr>"

definition tabla_heap_agregar_pagina :: "kernel_lib \<Rightarrow> u32 \<Rightarrow> kernel \<Rightarrow> kernel" where
  "tabla_heap_agregar_pagina K pid k =
     (let filtrados = kl_filter (heap_c K) (tabla_paginas_heap k) (\<lambda>p. ph_pid p = pid);
          ultimo_nro_pag = (if filtrados = [] then - 1 else ph_nro_pagina (filtrados ! (length filtrados - 1)))
      in k\<lparr>tabla_paginas_heap := kl_add (heap_c K) (tabla_paginas_heap k)
             (crear_pagina_heap (TAMANIO_PAGINAS k) pid (ultimo_nro_pag + 1))\<rparr>)"

definition buscar_pagina_heap :: "kernel_lib \<Rightarrow> u32 \<Rightarrow> u32 \<Rightarrow> kernel \<Rightarrow> nat option" where
  "buscar_pagina_heap K pid nro_pagina k =
     kl_find (heap_c K) (tabla_paginas_heap k) (\<lambda>p. ph_pid p = pid \<and> ph_nro_pagina p = nro_pagina)"

definition update_pagina :: "nat \<Rightarrow> (u32 \<Rightarrow> u32) \<Rightarrow> kernel \<Rightarrow> kernel" where
  "update_pagina i f k = k\<lparr>tabla_paginas_heap := (tabla_paginas_heap k)
     [i := (tabla_paginas_heap k ! i)\<lparr>espacio_libre := f (espacio_libre (tabla_paginas_heap k ! i))\<rparr>]\<rparr>"

definition tabla_heap_cambiar_espacio_libre :: "kernel_lib \<Rightarrow> t_pedido_liberar_memoria \<Rightarrow> u32 \<Rightarrow> kernel \<Rightarrow> kernel option" where
  "tabla_heap_cambiar_espacio_libre K pedido espacio_liberado k =
     map_option (\<lambda>i. update_pagina i (\<lambda>e. e + espacio_liberado) k) (buscar_pagina_heap K (pl_pid pedido) (pl_nro_pagina pedido) k)"

definition modificar_pagina :: "nat \<Rightarrow> u32 \<Rightarrow> kernel \<Rightarrow> kernel" where
  "modificar_pagina i espacio_ocupado k = update_pagina i (\<lambda>e. e - (espacio_ocupado + 8)) k"

definition tabla_heap_sacar_pagina :: "kernel_lib \<Rightarrow> t_pedido_liberar_memoria \<Rightarrow> kernel \<Rightarrow> kernel" where
  "tabla_heap_sacar_pagina K pedido k = k\<lparr>tabla_paginas_heap := snd (kl_remove_by_condition (heap_c K) (tabla_paginas_heap k)
     (\<lambda>p. ph_pid p = pl_pid pedido \<and> ph_nro_pagina p = pl_nro_pagina pedido))\<rparr>"

definition pagina_vacia :: "kernel_lib \<Rightarrow> u32 \<Rightarrow> u32 \<Rightarrow> kernel \<Rightarrow> bool option" where
  "pagina_vacia K pid nro_pagina k =
     map_option (\<lambda>i. espacio_libre (tabla_paginas_heap k ! i) = TAMANIO_PAGINAS k - 8) (buscar_pagina_heap K pid nro_pagina k)"

definition liberar_pagina :: "storage \<Rightarrow> t_pedido_liberar_memoria \<Rightarrow> u32 \<Rightarrow> kernel \<Rightarrow> kernel" where
  "liberar_pagina junk pedido offset_de_paginas k =
     k\<lparr>memory_socket := snd (memory_delete_page junk (pl_pid pedido) (pl_nro_pagina pedido + offset_de_paginas) (memory_socket k))\<rparr>"

definition defragmentar :: "kernel_lib \<Rightarrow> storage \<Rightarrow> byte list \<Rightarrow> t_pedido_liberar_memoria \<Rightarrow> kernel \<Rightarrow> (byte list \<times> kernel) option" where
  "defragmentar K junk pagina pedido k = do {
     (pagina1, joined) \<leftarrow> defragmentar_pagina (TAMANIO_PAGINAS k) junk pagina;
     k1 \<leftarrow> (if joined then tabla_heap_cambiar_espacio_libre K pedido 8 k else Some k);
     Some (pagina1, k1) }"

section \<open>Requests to the memory process\<close>

text \<open>A page of a process is read into a buffer, which is then used without looking at the answer code.\<close>

definition leer_pagina :: "storage \<Rightarrow> u32 \<Rightarrow> u32 \<Rightarrow> kernel \<Rightarrow> (byte list \<times> kernel) option" where
  "leer_pagina junk pid page k =
     (case memory_read junk pid page 0 (TAMANIO_PAGINAS k) (memory_socket k) of
        (r, s) \<Rightarrow> map_option (\<lambda>b. (b, k\<lparr>memory_socket := s\<rparr>)) (rr_buffer r))"

definition escribir_pagina :: "storage \<Rightarrow> u32 \<Rightarrow> u32 \<Rightarrow> u32 \<Rightarrow> byte list \<Rightarrow> kernel \<Rightarrow> kernel option" where
  "escribir_pagina junk pid page n bytes k =
     map_option (\<lambda>(_, s). k\<lparr>memory_socket := s\<rparr>) (memory_write junk pid page 0 n n bytes (memory_socket k))"

section \<open>The handlers\<close>

definition responder_reservar :: "abi \<Rightarrow> u32 \<Rightarrow> u32 \<Rightarrow> u32 \<Rightarrow> kernel \<Rightarrow> kernel option" where
  "responder_reservar A fd puntero error_heap k = send_to A OC_RESP_RESERVAR (Mem (u32_bytes puntero @ u32_bytes error_heap)) fd k"

text \<open>
  A new heap page: \<open>Inl\<close> ends the request (an error answer, or none), \<open>Inr\<close> goes on with the page.
\<close>

definition nueva_pagina_heap :: "kernel_lib \<Rightarrow> abi \<Rightarrow> storage \<Rightarrow> u32 \<Rightarrow> u32 \<Rightarrow> u32 \<Rightarrow> kernel \<Rightarrow> (kernel + nat \<times> kernel) option" where
  "nueva_pagina_heap K A junk fd pid espacio k =
     (case memory_assign_pages junk pid 1 (memory_socket k) of (status, s) \<Rightarrow>
        let k1 = k\<lparr>memory_socket := s\<rparr> in
        if status < 0 then
          (if status = - 203
           then map_option Inl (responder_reservar A fd 0 2 (finalizar_en_memoria junk pid k1))
           else Some (Inl k1))
        else do {
          let k2 = tabla_heap_agregar_pagina K pid k1;
          i \<leftarrow> obtener_pagina_con_suficiente_espacio K pid espacio k2;
          info \<leftarrow> buscar_codigo_de_proceso K pid k2;
          k3 \<leftarrow> escribir_pagina junk pid (ph_nro_pagina (tabla_paginas_heap k2 ! i) + paginas_codigo info) 8
                 (metadata_bytes (crear_metadata_libre junk (TAMANIO_PAGINAS k))) k2;
          Some (Inr (i, k3)) })"

definition reservar_en_pagina :: "kernel_lib \<Rightarrow> abi \<Rightarrow> storage \<Rightarrow> u32 \<Rightarrow> u32 \<Rightarrow> u32 \<Rightarrow> nat \<Rightarrow> kernel \<Rightarrow> kernel option" where
  "reservar_en_pagina K A junk fd pid espacio i k = do {
     info \<leftarrow> buscar_codigo_de_proceso K pid k;
     let nro = ph_nro_pagina (tabla_paginas_heap k ! i);
     (pagina, k1) \<leftarrow> leer_pagina junk pid (nro + paginas_codigo info) k;
     bloque \<leftarrow> buscar_bloque_disponible (TAMANIO_PAGINAS k) junk pagina espacio;
     pagina1 \<leftarrow> marcar_bloque_ocupado junk bloque pagina espacio;
     k2 \<leftarrow> escribir_pagina junk pid (nro + paginas_codigo info) (TAMANIO_PAGINAS k) pagina1 k1;
     let k3 = modificar_pagina i espacio k2;
     puntero \<leftarrow> obtener_direccion_relativa (TAMANIO_PAGINAS k) bloque nro (paginas_codigo info);
     k4 \<leftarrow> responder_reservar A fd puntero 0 k3;
     k5 \<leftarrow> sumar_syscall K fd k4;
     sumar_espacio_reservado K espacio fd k5 }"

definition funcion_reservar :: "kernel_lib \<Rightarrow> abi \<Rightarrow> storage \<Rightarrow> u32 \<Rightarrow> u32 \<Rightarrow> u32 \<Rightarrow> kernel \<Rightarrow> kernel option" where
  "funcion_reservar K A junk fd pid espacio k =
     (if TAMANIO_PAGINAS k - 8 < espacio then responder_reservar A fd 0 1 (finalizar_en_memoria junk pid k)
      else (case obtener_pagina_con_suficiente_espacio K pid espacio k of
              Some i \<Rightarrow> reservar_en_pagina K A junk fd pid espacio i k
            | None \<Rightarrow> do {
                r \<leftarrow> nueva_pagina_heap K A junk fd pid espacio k;
                (case r of Inl k1 \<Rightarrow> Some k1
                 | Inr (i, k1) \<Rightarrow> reservar_en_pagina K A junk fd pid espacio i k1) }))"

definition funcion_liberar :: "kernel_lib \<Rightarrow> abi \<Rightarrow> storage \<Rightarrow> u32 \<Rightarrow> t_pedido_liberar_memoria \<Rightarrow> kernel \<Rightarrow> kernel option" where
  "funcion_liberar K A junk fd pedido k = do {
     info \<leftarrow> buscar_codigo_de_proceso K (pl_pid pedido) k;
     pedido \<leftarrow> obtener_direccion_de_bloque_verdadera (TAMANIO_PAGINAS k) pedido (paginas_codigo info);
     (pagina, k1) \<leftarrow> leer_pagina junk (pl_pid pedido) (pl_nro_pagina pedido + paginas_codigo info) k;
     (if sint (pl_posicion pedido) < 0 then None else Some ());
     let off = unat (pl_posicion pedido);
     m \<leftarrow> leer_metadata junk pagina off;
     k2 \<leftarrow> sumar_espacio_liberado K (pl_pid pedido) (hm_size m) k1;
     pagina1 \<leftarrow> marcar_bloque_libre m off pagina;
     k3 \<leftarrow> tabla_heap_cambiar_espacio_libre K pedido (hm_size m) k2;
     (pagina2, k4) \<leftarrow> defragmentar K junk pagina1 pedido k3;
     vacia \<leftarrow> pagina_vacia K (pl_pid pedido) (pl_nro_pagina pedido) k4;
     (if vacia then
        send_to A OC_RESP_LIBERAR (Mem (u32_bytes 1)) fd
          (liberar_pagina junk pedido (paginas_codigo info) (tabla_heap_sacar_pagina K pedido k4))
      else do {
        k5 \<leftarrow> escribir_pagina junk (pl_pid pedido) (pl_nro_pagina pedido + paginas_codigo info) (TAMANIO_PAGINAS k) pagina2 k4;
        k6 \<leftarrow> sumar_syscall K fd k5;
        send_to A OC_RESP_LIBERAR (Mem (u32_bytes 1)) fd k6 }) }"

end
