(* ===== verification/Kernel_Files.thy ===== *)
theory Kernel_Files
  imports Kernel_Heap Kernel_Sched FS_Prot
begin

text \<open>
  The files of the processes (\<open>kernel/src/solicitudes.c\<close>): the global table of open files with its open
  counts, a table of open files per process, the requests that open, read, write, close and delete a file
  or move its cursor, and \<open>solve_request\<close>, the switch over all requests.  Both file descriptors are counters of type
  \<open>uint8_t\<close>.  A table of a process that is looked up and not found is created.  The functions that lock the
  global table do nothing.  The sizes of the \<open>malloc\<close>ed copies of a path or a text are not tracked.
\<close>

definition EC_FINALIZACION_OK :: int where [source_consts]: "EC_FINALIZACION_OK = 0"
definition EC_SIN_PERMISO_ESCRITURA :: int where [source_consts]: "EC_SIN_PERMISO_ESCRITURA = -4"
definition EC_DESCONOCIDO :: int where [source_consts]: "EC_DESCONOCIDO = -20"
definition EC_ARCHIVO_NO_ABIERTO :: int where [source_consts]: "EC_ARCHIVO_NO_ABIERTO = -21"
definition EC_FS_LLENO :: int where [source_consts]: "EC_FS_LLENO = -22"
definition EC_ARCHIVO_ABIERTO_OTROS :: int where [source_consts]: "EC_ARCHIVO_ABIERTO_OTROS = -23"

section \<open>The tables\<close>

definition getTablaArchivo :: "kernel_lib \<Rightarrow> u32 \<Rightarrow> kernel \<Rightarrow> nat \<times> kernel" where
  "getTablaArchivo K pid k =
     (case kl_find (tf_c K) (listaDeTablasDeArchivosDeProcesos k) (\<lambda>t. tf_pid t = pid) of
        Some i \<Rightarrow> (i, k)
      | None \<Rightarrow> (length (listaDeTablasDeArchivosDeProcesos k),
          k\<lparr>listaDeTablasDeArchivosDeProcesos := kl_add (tf_c K) (listaDeTablasDeArchivosDeProcesos k)
              \<lparr>tf_pid = pid, tabla_archivos = [], contador_fd = 10\<rparr>\<rparr>))"

definition update_tabla :: "nat \<Rightarrow> (t_table_file \<Rightarrow> t_table_file) \<Rightarrow> kernel \<Rightarrow> kernel" where
  "update_tabla i f k = k\<lparr>listaDeTablasDeArchivosDeProcesos := (listaDeTablasDeArchivosDeProcesos k)
     [i := f (listaDeTablasDeArchivosDeProcesos k ! i)]\<rparr>"

definition buscarArchivoTablaProceso :: "kernel_lib \<Rightarrow> t_table_file \<Rightarrow> u32 \<Rightarrow> nat option" where
  "buscarArchivoTablaProceso K tabla fd_archivo = kl_find (pf_c K) (tabla_archivos tabla) (\<lambda>f. proceso_fd f = fd_archivo)"

text \<open>The table of a process and the open file in it: the two look-ups every request begins with.\<close>

definition buscar_abierto :: "kernel_lib \<Rightarrow> u32 \<Rightarrow> u32 \<Rightarrow> kernel \<Rightarrow> nat \<times> t_process_file option \<times> kernel" where
  "buscar_abierto K pid fd k =
     (case getTablaArchivo K pid k of (i, k1) \<Rightarrow>
        let tabla = listaDeTablasDeArchivosDeProcesos k1 ! i
        in (i, map_option ((!) (tabla_archivos tabla)) (buscarArchivoTablaProceso K tabla fd), k1))"

definition buscarArchivoTablaGlobal :: "kernel_lib \<Rightarrow> c_str \<Rightarrow> kernel \<Rightarrow> int \<times> kernel" where
  "buscarArchivoTablaGlobal K direccion k =
     (case kl_find (gf_c K) (tabla_global_archivos k) (\<lambda>f. gf_file f = direccion) of
        None \<Rightarrow> (- 1, k)
      | Some i \<Rightarrow> (let f = tabla_global_archivos k ! i in
          (sint (gf_global_fd f), k\<lparr>tabla_global_archivos := (tabla_global_archivos k)[i := f\<lparr>gf_open := gf_open f + 1\<rparr>]\<rparr>)))"

definition crearArchivoTablaGlobal :: "kernel_lib \<Rightarrow> c_str \<Rightarrow> kernel \<Rightarrow> u32 \<times> kernel" where
  "crearArchivoTablaGlobal K direccion k =
     (let fd = (ucast (contador_fd_global k) :: u32) in
      (fd, k\<lparr>contador_fd_global := contador_fd_global k + 1,
             tabla_global_archivos := kl_add (gf_c K) (tabla_global_archivos k) \<lparr>gf_file = direccion, gf_open = 1, gf_global_fd = fd\<rparr>\<rparr>))"

definition cargarArchivoTablaProceso :: "kernel_lib \<Rightarrow> u32 \<Rightarrow> u32 \<Rightarrow> t_banderas \<Rightarrow> kernel \<Rightarrow> u32 \<times> kernel" where
  "cargarArchivoTablaProceso K pid fd_global flags k =
     (case getTablaArchivo K pid k of (i, k1) \<Rightarrow>
        let tabla = listaDeTablasDeArchivosDeProcesos k1 ! i; fd = (ucast (contador_fd tabla) :: u32) in
        (fd, update_tabla i (\<lambda>t. t\<lparr>contador_fd := contador_fd t + 1,
               tabla_archivos := kl_add (pf_c K) (tabla_archivos t)
                 \<lparr>proceso_fd = fd, pf_global_fd = fd_global, pf_flags = flags, offset_cursor = 0\<rparr>\<rparr>) k1))"

definition getFileFromGlobal :: "kernel_lib \<Rightarrow> u32 \<Rightarrow> kernel \<Rightarrow> nat option" where
  "getFileFromGlobal K global_fd k = kl_find (gf_c K) (tabla_global_archivos k) (\<lambda>f. gf_global_fd f = global_fd)"

definition descontarDeLaTablaGlobal :: "kernel_lib \<Rightarrow> u32 \<Rightarrow> kernel \<Rightarrow> kernel option" where
  "descontarDeLaTablaGlobal K global_fd k =
     map_option (\<lambda>i. let f = tabla_global_archivos k ! i in
         if 1 < sint (gf_open f)
         then k\<lparr>tabla_global_archivos := (tabla_global_archivos k)[i := f\<lparr>gf_open := gf_open f - 1\<rparr>]\<rparr>
         else k\<lparr>tabla_global_archivos := snd (kl_remove_by_condition (gf_c K) (tabla_global_archivos k) (\<lambda>f. gf_global_fd f = global_fd))\<rparr>)
       (getFileFromGlobal K global_fd k)"

text \<open>The pointer \<open>-1\<close> that stands for "not open" is followed by the caller.\<close>

definition getPathFrom_PID_FD :: "kernel_lib \<Rightarrow> u32 \<Rightarrow> u32 \<Rightarrow> kernel \<Rightarrow> (c_str \<times> kernel) option" where
  "getPathFrom_PID_FD K pid fdProceso k =
     (case buscar_abierto K pid fdProceso k of (_, file, k1) \<Rightarrow> do {
        file \<leftarrow> file;
        g \<leftarrow> getFileFromGlobal K (pf_global_fd file) k1;
        Some (gf_file (tabla_global_archivos k1 ! g), k1) })"

section \<open>Opening\<close>

definition registrar_archivo :: "kernel_lib \<Rightarrow> u32 \<Rightarrow> c_str \<Rightarrow> t_banderas \<Rightarrow> kernel \<Rightarrow> int \<times> kernel" where
  "registrar_archivo K pid direccion flags k =
     (case crearArchivoTablaGlobal K direccion k of (fd_global, k1) \<Rightarrow>
      case cargarArchivoTablaProceso K pid fd_global flags k1 of (fd, k2) \<Rightarrow> (sint fd, k2))"

definition abrir_archivo :: "kernel_lib \<Rightarrow> storage \<Rightarrow> u16 \<Rightarrow> c_str \<Rightarrow> t_banderas \<Rightarrow> kernel \<Rightarrow> int \<times> kernel" where
  "abrir_archivo K junk pid direccion flags k =
     (case buscarArchivoTablaGlobal K direccion k of (fd_global, k1) \<Rightarrow>
      case fs_validate_file junk direccion (fs_socket k1) of (result, s) \<Rightarrow>
        let k2 = k1\<lparr>fs_socket := s\<rparr> in
        if fd_global = - 1 then
          if (bandera_lectura flags \<or> bandera_escritura flags) \<and> result = ISREG
          then registrar_archivo K (ucast pid) direccion flags k2
          else if bandera_creacion flags then
            (case fs_create_file junk direccion (fs_socket k2) of (res, s2) \<Rightarrow>
               let k3 = k2\<lparr>fs_socket := s2\<rparr> in
               if 0 < res then registrar_archivo K (ucast pid) direccion flags k3 else (res, k3))
          else (- 1, k2)
        else
          (case cargarArchivoTablaProceso K (ucast pid) (word_of_int fd_global) flags k2 of (fd, k3) \<Rightarrow> (sint fd, k3)))"

definition c_text :: "string \<Rightarrow> byte list" where
  "c_text s = map of_char s @ [0]"

text \<open>
  The request: the length of the path, the pid, the path, the flags.  \<open>strcpy\<close> copies up to a zero byte into a block of the announced
  length and one byte; \<open>None\<close> if the text is longer than announced, which it is when the first of the flags, the one for
  creation, is set: the CPU sends no zero byte after the path.  A result that is negative and has no message is sent on with an
  unassigned pointer.
\<close>

definition funcion_abrir :: "kernel_lib \<Rightarrow> abi \<Rightarrow> storage \<Rightarrow> u32 \<Rightarrow> byte list \<Rightarrow> kernel \<Rightarrow> kernel option" where
  "funcion_abrir K A junk fd buffer k = do {
     n \<leftarrow> c_int_at buffer;
     let len = unat n;
     (if sint n < 0 \<or> length buffer < 6 + len + 3 \<or> 0 \<notin> set (drop 6 buffer) then None else Some ());
     let pid = bytes_u16 (take 2 (drop 4 buffer));
     let direccion = takeWhile (\<lambda>c. c \<noteq> 0) (drop 6 buffer);
     (if len < length direccion then None else Some ());
     let flags = \<lparr>bandera_creacion = buffer ! (6 + len) \<noteq> 0, bandera_lectura = buffer ! (6 + len + 1) \<noteq> 0,
                  bandera_escritura = buffer ! (6 + len + 2) \<noteq> 0\<rparr>;
     (case abrir_archivo K junk pid direccion flags k of (res, k1) \<Rightarrow>
        let fd_proceso = (if res = ENOSPC then EC_FS_LLENO else res) in do {
        k2 \<leftarrow> (if 0 \<le> fd_proceso then Some k1
               else if res \<noteq> - 1 \<and> res \<noteq> ENOSPC then None
               else do {
                 j \<leftarrow> encontrar_consola_de_pcb K (ucast pid) k1;
                 send_to A OC_ESCRIBIR_EN_CONSOLA
                   (Mem (c_text (if res = - 1 then ''No existe archivo o no tiene permisos'' else ''Sin espacio en filesystem'')))
                   (par_socket (tabla_sockets_procesos k1 ! j)) k1 });
        k3 \<leftarrow> sumar_syscall K fd k2;
        send_to A OC_RESP_ABRIR (Mem (u32_bytes (word_of_int fd_proceso))) fd k3 }) }"

section \<open>Reading and writing\<close>

text \<open>The answer of a write is an \<open>int8_t\<close>; so is the result of the file system before it is looked at.\<close>

definition resultado_escritura :: "int \<Rightarrow> byte" where
  "resultado_escritura code =
     (let resp2 = (word_of_int code :: byte) in
      if sint resp2 = SUCCESS then resp2
      else if sint resp2 = ENOSPC then word_of_int EC_FS_LLENO
      else word_of_int EC_DESCONOCIDO)"

text \<open>
  Text for a console is copied with \<open>strcpy\<close> into a block of \<open>strlen\<close> bytes: the zero byte at the end is written behind the block, so a
  write to descriptor 1 has no result when the kernel knows the console of the program.
\<close>

definition funcion_escribir :: "kernel_lib \<Rightarrow> abi \<Rightarrow> storage \<Rightarrow> u32 \<Rightarrow> t_archivo \<Rightarrow> kernel \<Rightarrow> kernel option" where
  "funcion_escribir K A junk fd escritura k = do {
     k1 \<leftarrow> sumar_syscall K fd k;
     (if ar_descriptor escritura = 1 then do {
        k2 \<leftarrow> (case encontrar_consola_de_pcb K (ar_pid escritura) k1 of
                 None \<Rightarrow> Some k1
               | Some j \<Rightarrow> None);
        send_to A OC_RESP_ESCRIBIR (Mem [1]) fd k2 }
      else
        (case buscar_abierto K (ar_pid escritura) (ar_descriptor escritura) k1 of (_, file, k2) \<Rightarrow>
           case file of
             None \<Rightarrow> send_to A OC_RESP_ESCRIBIR (Mem [word_of_int EC_ARCHIVO_NO_ABIERTO]) fd k2
           | Some file \<Rightarrow>
               if \<not> bandera_escritura (pf_flags file)
               then send_to A OC_RESP_ESCRIBIR (Mem [word_of_int EC_SIN_PERMISO_ESCRITURA]) fd k2
               else do {
                 g \<leftarrow> getFileFromGlobal K (pf_global_fd file) k2;
                 (code, s) \<leftarrow> fs_write junk (gf_file (tabla_global_archivos k2 ! g)) (offset_cursor file) (ar_tamanio escritura)
                   (ar_tamanio escritura) (ar_informacion escritura) (fs_socket k2);
                 send_to A OC_RESP_ESCRIBIR (Mem [resultado_escritura code]) fd (k2\<lparr>fs_socket := s\<rparr>) })) }"

record t_pedido_archivo_leer =
  le_descriptor :: u32
  le_informacion :: u32
  le_tamanio :: u32
  le_pid :: u32

text \<open>The variable \<open>pid\<close> by which the console is looked up after a failed read has not been assigned.\<close>

definition funcion_leer :: "kernel_lib \<Rightarrow> abi \<Rightarrow> storage \<Rightarrow> u32 \<Rightarrow> t_pedido_archivo_leer \<Rightarrow> kernel \<Rightarrow> kernel option" where
  "funcion_leer K A junk fd pedido k = do {
     k1 \<leftarrow> sumar_syscall K fd k;
     (if TAMANIO_PAGINAS k1 = 0 then None else Some ());
     let leer_pagina = le_informacion pedido div TAMANIO_PAGINAS k1;
     let leer_offset = le_informacion pedido mod TAMANIO_PAGINAS k1;
     (case buscar_abierto K (le_pid pedido) (le_descriptor pedido) k1 of (_, file, k2) \<Rightarrow> do {
        (path, k3) \<leftarrow> getPathFrom_PID_FD K (le_pid pedido) (le_descriptor pedido) k2;
        process_file \<leftarrow> file;
        (case fs_read junk path (offset_cursor process_file) (le_tamanio pedido) (fs_socket k3) of (r, s) \<Rightarrow>
           let k4 = k3\<lparr>fs_socket := s\<rparr> in
           if fp_resp_code r \<noteq> SUCCESS then do {
             k5 \<leftarrow> (case encontrar_consola_de_pcb K (junk_u32 junk) k4 of
                      None \<Rightarrow> Some k4
                    | Some j \<Rightarrow> send_to A OC_ESCRIBIR_EN_CONSOLA (Mem (c_text ''No se pudo leer el archivo''))
                                 (par_socket (tabla_sockets_procesos k4 ! j)) k4);
             send_to A OC_RESP_LEER_ERROR (Mem (u32_bytes (word_of_int (fp_resp_code r)))) fd k5 }
           else do {
             (resultado, s2) \<leftarrow> memory_write junk (le_pid pedido) leer_pagina leer_offset (le_tamanio pedido) (fp_buffer_size r)
               (case fp_buffer r of None \<Rightarrow> [] | Some b \<Rightarrow> b) (memory_socket k4);
             send_to A OC_RESP_LEER (Mem (u32_bytes (word_of_int resultado))) fd (k4\<lparr>memory_socket := s2\<rparr>) }) }) }"

section \<open>Closing, deleting, moving the cursor\<close>

definition funcion_cerrar :: "kernel_lib \<Rightarrow> abi \<Rightarrow> u32 \<Rightarrow> u32 \<Rightarrow> u32 \<Rightarrow> kernel \<Rightarrow> kernel option" where
  "funcion_cerrar K A fd pid descriptor k = do {
     k1 \<leftarrow> sumar_syscall K fd k;
     (case buscar_abierto K pid descriptor k1 of (i, file, k2) \<Rightarrow>
        case file of
          None \<Rightarrow> send_to A OC_RESP_CERRAR (Mem (u32_bytes (word_of_int EC_ARCHIVO_NO_ABIERTO))) fd k2
        | Some file \<Rightarrow> do {
            k3 \<leftarrow> descontarDeLaTablaGlobal K (pf_global_fd file) k2;
            send_to A OC_RESP_CERRAR (Mem (u32_bytes (word_of_int EC_FINALIZACION_OK))) fd
              (update_tabla i (\<lambda>t. t\<lparr>tabla_archivos :=
                 snd (kl_remove_by_condition (pf_c K) (tabla_archivos t) (\<lambda>f. proceso_fd f = proceso_fd file))\<rparr>) k3) }) }"

definition funcion_borrar :: "kernel_lib \<Rightarrow> abi \<Rightarrow> storage \<Rightarrow> u32 \<Rightarrow> u32 \<Rightarrow> u32 \<Rightarrow> kernel \<Rightarrow> kernel option" where
  "funcion_borrar K A junk fd pid descriptor k = do {
     k1 \<leftarrow> sumar_syscall K fd k;
     (case buscar_abierto K pid descriptor k1 of (_, file, k2) \<Rightarrow>
        case file of
          None \<Rightarrow> send_to A OC_RESP_BORRAR (Mem (u32_bytes (word_of_int EC_ARCHIVO_NO_ABIERTO))) fd k2
        | Some file \<Rightarrow> do {
            g \<leftarrow> getFileFromGlobal K (pf_global_fd file) k2;
            let global = tabla_global_archivos k2 ! g;
            (if 1 < sint (gf_open global)
             then send_to A OC_RESP_BORRAR (Mem (u32_bytes (word_of_int EC_ARCHIVO_ABIERTO_OTROS))) fd k2
             else send_to A OC_RESP_BORRAR (Mem (u32_bytes (word_of_int EC_FINALIZACION_OK))) fd
                    (k2\<lparr>fs_socket := snd (fs_delete_file junk (gf_file global) (fs_socket k2))\<rparr>)) }) }"

text \<open>Only the low byte of the pid is read.\<close>

definition funcion_mover_cursor :: "kernel_lib \<Rightarrow> u32 \<Rightarrow> byte list \<Rightarrow> kernel \<Rightarrow> kernel option" where
  "funcion_mover_cursor K fd buffer k = do {
     k1 \<leftarrow> sumar_syscall K fd k;
     (if length buffer < 12 then None else Some ());
     let pid = (ucast (buffer ! 0) :: u32);
     let descriptor = bytes_u32 (take 4 (drop 4 buffer));
     let valor = bytes_u32 (take 4 (drop 8 buffer));
     (case getTablaArchivo K pid k1 of (i, k2) \<Rightarrow>
        map_option (\<lambda>j. update_tabla i (\<lambda>t. t\<lparr>tabla_archivos := (tabla_archivos t)[j := (tabla_archivos t ! j)\<lparr>offset_cursor := valor\<rparr>]\<rparr>) k2)
          (buscarArchivoTablaProceso K (listaDeTablasDeArchivosDeProcesos k2 ! i) descriptor)) }"

section \<open>The switch over the requests\<close>

text \<open>
  A request with its operation code, as \<open>connection_recv\<close> delivers it.  The texts of semaphores, variables
  and programs end at a zero byte.  The buffer of a request that carries a PCB is deserialised.
\<close>

definition u32_at :: "nat \<Rightarrow> byte list \<Rightarrow> u32 option" where
  "u32_at i b = c_int_at (drop i b)"

definition c_string :: "byte list \<Rightarrow> c_str option" where
  "c_string b = (if 0 \<in> set b then Some (takeWhile (\<lambda>c. c \<noteq> 0) b) else None)"

definition solve_request ::
    "kernel_lib \<Rightarrow> abi \<Rightarrow> storage \<Rightarrow> (c_str \<Rightarrow> t_metadata_program) \<Rightarrow> u32 \<Rightarrow> byte \<Rightarrow> payload \<Rightarrow> kernel \<Rightarrow> kernel option" where
  "solve_request K A junk meta fd oc request k =
     (case request of
        Archivo a \<Rightarrow> if oc = OC_FUNCION_ESCRIBIR then funcion_escribir K A junk fd a k else None
      | Raw b \<Rightarrow>
          if oc = OC_SOLICITUD_PROGRAMA_NUEVO then do { s \<leftarrow> c_string b; solicitud_programa_nuevo K A junk meta fd s k }
          else if oc = OC_FUNCION_RESERVAR then do { pid \<leftarrow> u32_at 0 b; n \<leftarrow> u32_at 4 b; funcion_reservar K A junk fd pid n k }
          else if oc = OC_FUNCION_LIBERAR then do { pid \<leftarrow> u32_at 0 b; n \<leftarrow> u32_at 4 b; p \<leftarrow> u32_at 8 b;
            funcion_liberar K A junk fd \<lparr>pl_pid = pid, pl_nro_pagina = n, pl_posicion = p\<rparr> k }
          else if oc = OC_FUNCION_ABRIR then funcion_abrir K A junk fd b k
          else if oc = OC_FUNCION_LEER then do { d \<leftarrow> u32_at 0 b; i \<leftarrow> u32_at 4 b; n \<leftarrow> u32_at 8 b; pid \<leftarrow> u32_at 12 b;
            funcion_leer K A junk fd \<lparr>le_descriptor = d, le_informacion = i, le_tamanio = n, le_pid = pid\<rparr> k }
          else if oc = OC_FUNCION_CERRAR then do { d \<leftarrow> u32_at 0 b; pid \<leftarrow> u32_at (sz_archivo A - 4) b; funcion_cerrar K A fd pid d k }
          else if oc = OC_FUNCION_BORRAR then do { d \<leftarrow> u32_at 0 b; pid \<leftarrow> u32_at (sz_archivo A - 4) b; funcion_borrar K A junk fd pid d k }
          else if oc = OC_FUNCION_MOVER_CURSOR then funcion_mover_cursor K fd b k
          else if oc = OC_FUNCION_ESCRIBIR_VARIABLE then escribir_variable K fd b k
          else if oc = OC_FUNCION_LEER_VARIABLE then leer_variable K A fd b k
          else if oc = OC_FUNCION_SIGNAL then do { s \<leftarrow> c_string b; funcion_signal K A fd s k }
          else if oc = OC_FUNCION_WAIT then do { s \<leftarrow> c_string b; funcion_wait K A fd s k }
          else if oc = OC_TERMINA_PROGRAMA then do { p \<leftarrow> deserializer_pcb (label_dict K) b; termina_programa K A junk fd p k }
          else if oc = OC_DESCONEX_CPU then do { p \<leftarrow> deserializer_pcb (label_dict K) b; desconex_cpu K fd p k }
          else if oc = OC_ERROR_EJECUCION_CPU then do { p \<leftarrow> deserializer_pcb (label_dict K) b; error_ejecucion_cpu K A junk fd p k }
          else if oc = OC_TERMINO_INSTRUCCION then do { p \<leftarrow> deserializer_pcb (label_dict K) b; termino_instruccion K A junk fd p k }
          else if oc = OC_KILL_CONSOLA then do { pid \<leftarrow> u32_at 0 b; kill_consola K A junk pid k }
          else Some k)"

end
