(* ===== verification/Kernel_Files_Props.thy ===== *)
theory Kernel_Files_Props
  imports Kernel_Files
begin

text \<open>
  The two tables of open files together represent a set of open files, \<open>open_files\<close>: which process has which
  path open under which descriptor.  Opening adds one element to it and closing removes one; the open
  count of a path in the global table is the number of descriptors that refer to it.
\<close>

section \<open>The open files\<close>

definition named_by :: "t_global_file list \<Rightarrow> u32 \<Rightarrow> t_process_file \<Rightarrow> (u32 \<times> u32 \<times> c_str) set" where
  "named_by globs pid f = (\<lambda>g. (pid, proceso_fd f, gf_file g)) ` {g \<in> set globs. gf_global_fd g = pf_global_fd f}"

definition open_of :: "t_global_file list \<Rightarrow> t_table_file list \<Rightarrow> (u32 \<times> u32 \<times> c_str) set" where
  "open_of globs tabs = (\<Union>t \<in> set tabs. \<Union>f \<in> set (tabla_archivos t). named_by globs (tf_pid t) f)"

lemma open_of_simps:
  "open_of globs [] = {}"
  "open_of globs (t # ts) = (\<Union>f \<in> set (tabla_archivos t). named_by globs (tf_pid t) f) \<union> open_of globs ts"
  "open_of globs (xs @ ys) = open_of globs xs \<union> open_of globs ys"
  by (simp_all add: open_of_def)

definition refs :: "t_table_file list \<Rightarrow> u32 \<Rightarrow> nat" where
  "refs tabs g = sum_list (map (\<lambda>t. length (filter (\<lambda>f. pf_global_fd f = g) (tabla_archivos t))) tabs)"

definition tables_ok :: "t_global_file list \<Rightarrow> t_table_file list \<Rightarrow> bool" where
  "tables_ok globs tabs \<longleftrightarrow> distinct (map tf_pid tabs) \<and> (\<forall>t \<in> set tabs. distinct (map proceso_fd (tabla_archivos t))) \<and>
     distinct (map gf_global_fd globs) \<and> distinct (map gf_file globs) \<and>
     (\<forall>t \<in> set tabs. \<forall>f \<in> set (tabla_archivos t). pf_global_fd f \<in> gf_global_fd ` set globs)"

definition counts_ok :: "t_global_file list \<Rightarrow> t_table_file list \<Rightarrow> bool" where
  "counts_ok globs tabs \<longleftrightarrow> (\<forall>g \<in> set globs. unat (gf_global_fd g) < 256 \<and>
     sint (gf_open g) = int (refs tabs (gf_global_fd g)) \<and> 0 < refs tabs (gf_global_fd g))"

definition file_inv :: "kernel \<Rightarrow> bool" where
  "file_inv k \<longleftrightarrow> tables_ok (tabla_global_archivos k) (listaDeTablasDeArchivosDeProcesos k) \<and>
     counts_ok (tabla_global_archivos k) (listaDeTablasDeArchivosDeProcesos k)"

definition open_files :: "kernel \<Rightarrow> (u32 \<times> u32 \<times> c_str) set" where
  "open_files k = open_of (tabla_global_archivos k) (listaDeTablasDeArchivosDeProcesos k)"

text \<open>The counters have not come round to a descriptor in use, and no count is at its limit.\<close>

definition room_for :: "u32 \<Rightarrow> kernel \<Rightarrow> bool" where
  "room_for pid k \<longleftrightarrow> ucast (contador_fd_global k) \<notin> gf_global_fd ` set (tabla_global_archivos k) \<and>
     (\<forall>t \<in> set (listaDeTablasDeArchivosDeProcesos k). tf_pid t = pid \<longrightarrow>
       contador_fd t \<noteq> 0 \<and> ucast (contador_fd t) \<notin> proceso_fd ` set (tabla_archivos t)) \<and>
     (\<forall>g \<in> set (tabla_global_archivos k). sint (gf_open g) < 2 ^ 31 - 1)"

lemma small_fd: "unat (ucast (w :: u8) :: u32) < 256" "sint (ucast (w :: u8) :: u32) = int (unat w)"
proof -
  have w: "unat w < 256" using unsigned_less [of w, where ?'a = nat] by simp
  have u: "unat (ucast w :: u32) = unat w" using w by (simp add: unsigned_ucast_eq take_bit_nat_eq_self)
  then show "unat (ucast w :: u32) < 256" using w by simp
  show "sint (ucast w :: u32) = int (unat w)" using sint_u32 [of "ucast w"] u w by simp
qed

lemma refs_simps [simp]:
  "refs [] g = 0" "refs (t # ts) g = length (filter (\<lambda>f. pf_global_fd f = g) (tabla_archivos t)) + refs ts g"
  "refs (xs @ ys) g = refs xs g + refs ys g"
  by (simp_all add: refs_def)

lemma refs_zero: "\<forall>t \<in> set tabs. \<forall>f \<in> set (tabla_archivos t). pf_global_fd f \<noteq> g \<Longrightarrow> refs tabs g = 0"
  by (induction tabs) auto

lemma same_names:
  assumes "map (\<lambda>g. (gf_global_fd g, gf_file g)) globs' = map (\<lambda>g. (gf_global_fd g, gf_file g)) globs"
  shows "tables_ok globs' tabs = tables_ok globs tabs" "open_of globs' tabs = open_of globs tabs"
proof -
  have m: "map gf_global_fd globs' = map gf_global_fd globs" "map gf_file globs' = map gf_file globs"
    using arg_cong [OF assms, of "map fst"] arg_cong [OF assms, of "map snd"] by (simp_all add: comp_def)
  have "gf_global_fd ` set globs' = gf_global_fd ` set globs" using m(1) by (metis set_map)
  with m show "tables_ok globs' tabs = tables_ok globs tabs" by (simp add: tables_ok_def)
  have n: "named_by gs pid f = {(pid, proceso_fd f, n) | n. (pf_global_fd f, n) \<in> set (map (\<lambda>g. (gf_global_fd g, gf_file g)) gs)}" for gs pid f
    by (auto simp: named_by_def image_iff) metis
  have "named_by globs' pid f = named_by globs pid f" for pid f unfolding n assms ..
  then show "open_of globs' tabs = open_of globs tabs" by (simp add: open_of_def)
qed

lemma find_index_key:
  "distinct (map key (xs @ x # ys)) \<Longrightarrow> key x = v \<Longrightarrow> find_index (\<lambda>y. key y = v) (xs @ x # ys) = Some (length xs)"
  by (induction xs) auto

section \<open>A descriptor in the table of a process\<close>

context kernel_commons
begin

lemma getTabla_found:
  assumes "find_index (\<lambda>t. tf_pid t = pid) (listaDeTablasDeArchivosDeProcesos k) = Some i"
  shows "getTablaArchivo K pid k = (i, k)"
  using assms by (simp add: getTablaArchivo_def coll_simps)

lemma getTabla_effect:
  assumes "getTablaArchivo K pid k = (i, k1)" "tables_ok globs (listaDeTablasDeArchivosDeProcesos k)"
  shows "\<exists>us t vs. listaDeTablasDeArchivosDeProcesos k1 = us @ t # vs \<and> length us = i \<and> tf_pid t = pid \<and>
    tables_ok globs (us @ t # vs) \<and> refs (us @ t # vs) = refs (listaDeTablasDeArchivosDeProcesos k) \<and>
    open_of globs' (us @ t # vs) = open_of globs' (listaDeTablasDeArchivosDeProcesos k) \<and>
    k1 = k\<lparr>listaDeTablasDeArchivosDeProcesos := us @ t # vs\<rparr> \<and>
    (t \<in> set (listaDeTablasDeArchivosDeProcesos k) \<or> tabla_archivos t = [] \<and> contador_fd t = 10)"
proof (cases "find_index (\<lambda>t. tf_pid t = pid) (listaDeTablasDeArchivosDeProcesos k)")
  case None
  let ?t = "\<lparr>tf_pid = pid, tabla_archivos = [], contador_fd = 10\<rparr>" and ?l = "listaDeTablasDeArchivosDeProcesos k"
  have "pid \<notin> tf_pid ` set ?l" using None by (auto simp: find_index_None_iff)
  then have "tables_ok globs (?l @ [?t])" using assms(2) by (auto simp: tables_ok_def)
  moreover have "open_of globs' (?l @ [?t]) = open_of globs' ?l" "refs (?l @ [?t]) = refs ?l"
    by (simp_all add: open_of_def fun_eq_iff)
  moreover have "i = length ?l" "k1 = k\<lparr>listaDeTablasDeArchivosDeProcesos := ?l @ [?t]\<rparr>"
    using assms(1) None by (simp_all add: getTablaArchivo_def coll_simps)
  ultimately show ?thesis
    by (intro exI [of _ ?l] exI [of _ ?t] exI [of _ "[]"]) simp
next
  case (Some j)
  then have j: "j < length (listaDeTablasDeArchivosDeProcesos k)" "tf_pid (listaDeTablasDeArchivosDeProcesos k ! j) = pid"
    by (simp_all add: find_index_Some_iff)
  have l: "listaDeTablasDeArchivosDeProcesos k = take j (listaDeTablasDeArchivosDeProcesos k) @ (listaDeTablasDeArchivosDeProcesos k ! j)
      # drop (Suc j) (listaDeTablasDeArchivosDeProcesos k)"
    using j(1) by (rule id_take_nth_drop)
  have "i = j" "k1 = k" using getTabla_found [OF Some] assms(1) by auto
  then show ?thesis
    using l j assms(2)
    by (intro exI [of _ "take j (listaDeTablasDeArchivosDeProcesos k)"] exI [of _ "listaDeTablasDeArchivosDeProcesos k ! j"]
        exI [of _ "drop (Suc j) (listaDeTablasDeArchivosDeProcesos k)"]) (simp add: min_def)
qed

lemma cargar_effect:
  assumes "cargarArchivoTablaProceso K pid gfd flags k = (fd, k')"
    and tok: "tables_ok (tabla_global_archivos k) (listaDeTablasDeArchivosDeProcesos k)"
    and g: "g \<in> set (tabla_global_archivos k)" "gf_global_fd g = gfd"
    and fresh: "\<forall>t \<in> set (listaDeTablasDeArchivosDeProcesos k). tf_pid t = pid \<longrightarrow>
      contador_fd t \<noteq> 0 \<and> ucast (contador_fd t) \<notin> proceso_fd ` set (tabla_archivos t)"
  shows "tabla_global_archivos k' = tabla_global_archivos k \<and>
    tables_ok (tabla_global_archivos k') (listaDeTablasDeArchivosDeProcesos k') \<and>
    (\<forall>h. refs (listaDeTablasDeArchivosDeProcesos k') h = refs (listaDeTablasDeArchivosDeProcesos k) h + (if h = gfd then 1 else 0)) \<and>
    open_files k' = insert (pid, fd, gf_file g) (open_files k) \<and> (\<forall>p. (pid, fd, p) \<notin> open_files k) \<and> 0 < sint fd"
proof -
  obtain i k1 where t1: "getTablaArchivo K pid k = (i, k1)" by fastforce
  from getTabla_effect [OF t1 tok] obtain us t vs where t: "listaDeTablasDeArchivosDeProcesos k1 = us @ t # vs" "length us = i" "tf_pid t = pid"
    "tables_ok (tabla_global_archivos k) (us @ t # vs)" "refs (us @ t # vs) = refs (listaDeTablasDeArchivosDeProcesos k)"
    "open_of (tabla_global_archivos k) (us @ t # vs) = open_of (tabla_global_archivos k) (listaDeTablasDeArchivosDeProcesos k)"
    "k1 = k\<lparr>listaDeTablasDeArchivosDeProcesos := us @ t # vs\<rparr>"
    "t \<in> set (listaDeTablasDeArchivosDeProcesos k) \<or> tabla_archivos t = [] \<and> contador_fd t = 10"
    by blast
  let ?f = "\<lparr>proceso_fd = fd, pf_global_fd = gfd, pf_flags = flags, offset_cursor = 0\<rparr>"
  let ?t = "t\<lparr>contador_fd := contador_fd t + 1, tabla_archivos := tabla_archivos t @ [?f]\<rparr>"
  have fd: "fd = ucast (contador_fd t)" and k': "k' = k\<lparr>listaDeTablasDeArchivosDeProcesos := us @ ?t # vs\<rparr>"
    using assms(1) t(1,2,7) t1 by (auto simp: cargarArchivoTablaProceso_def update_tabla_def Let_def coll_simps nth_append list_update_append)
  have new: "fd \<notin> proceso_fd ` set (tabla_archivos t)" using fresh t(3,8) fd by auto
  have uniq: "h = g" if "h \<in> set (tabla_global_archivos k)" "gf_global_fd h = gfd" for h
    using that g tok by (auto simp: tables_ok_def distinct_map inj_on_def)
  have "{h \<in> set (tabla_global_archivos k). gf_global_fd h = gfd} = {g}" using uniq g by blast
  then have "named_by (tabla_global_archivos k) pid ?f = {(pid, fd, gf_file g)}" by (simp add: named_by_def)
  then have "open_of (tabla_global_archivos k) (us @ ?t # vs) = insert (pid, fd, gf_file g) (open_of (tabla_global_archivos k) (us @ t # vs))"
    by (simp add: open_of_simps t(3) Un_insert_right)
  moreover have "tables_ok (tabla_global_archivos k) (us @ ?t # vs)"
    using t(4) new g by (auto simp: tables_ok_def)
  moreover have "refs (us @ ?t # vs) h = refs (us @ t # vs) h + (if h = gfd then 1 else 0)" for h by simp
  moreover have "(pid, fd, p) \<notin> open_of (tabla_global_archivos k) (us @ t # vs)" for p
    using new t(3,4) by (auto simp: tables_ok_def open_of_def named_by_def)
  moreover have "0 < sint fd" using fresh t(3,8) by (auto simp: fd small_fd(2) unsigned_eq_0_iff simp del: of_nat_unat simp flip: neq0_conv)
  ultimately show ?thesis using t(5,6) by (simp add: k' open_files_def)
qed

lemma open_existing:
  assumes inv: "file_inv k" and g: "find_index (\<lambda>f. gf_file f = path) (tabla_global_archivos k) = Some i"
    and room: "room_for pid k"
    and k2: "k2 = k\<lparr>tabla_global_archivos := (tabla_global_archivos k)
      [i := (tabla_global_archivos k ! i)\<lparr>gf_open := gf_open (tabla_global_archivos k ! i) + 1\<rparr>], fs_socket := s\<rparr>"
    and c: "cargarArchivoTablaProceso K pid (gf_global_fd (tabla_global_archivos k ! i)) flags k2 = (fd, k')"
  shows "file_inv k' \<and> open_files k' = insert (pid, fd, path) (open_files k) \<and> (\<forall>p. (pid, fd, p) \<notin> open_files k) \<and> 0 < sint fd"
proof -
  let ?gs = "tabla_global_archivos k" and ?ts = "listaDeTablasDeArchivosDeProcesos k"
  let ?g = "(?gs ! i)\<lparr>gf_open := gf_open (?gs ! i) + 1\<rparr>"
  have i: "i < length ?gs" "gf_file (?gs ! i) = path" using g by (simp_all add: find_index_Some_iff)
  have "map (\<lambda>g. (gf_global_fd g, gf_file g)) (?gs[i := ?g]) = map (\<lambda>g. (gf_global_fd g, gf_file g)) ?gs"
    using i by (simp add: map_update list_update_same_conv)
  note names = same_names [OF this]
  have tok: "tables_ok ?gs ?ts" and cok: "counts_ok ?gs ?ts" using inv by (simp_all add: file_inv_def)
  have tok2: "tables_ok (tabla_global_archivos k2) (listaDeTablasDeArchivosDeProcesos k2)" using tok names(1) by (simp add: k2)
  have g2: "?g \<in> set (tabla_global_archivos k2)" "gf_global_fd ?g = gf_global_fd (?gs ! i)"
    using i by (simp_all add: k2 set_update_memI)
  have fresh: "\<forall>t \<in> set (listaDeTablasDeArchivosDeProcesos k2). tf_pid t = pid \<longrightarrow>
      contador_fd t \<noteq> 0 \<and> ucast (contador_fd t) \<notin> proceso_fd ` set (tabla_archivos t)"
    using room by (simp add: room_for_def k2)
  note e = cargar_effect [OF c tok2 g2 fresh]
  have "sint (gf_open ?g) = sint (gf_open (?gs ! i)) + 1"
  proof -
    have "?gs ! i \<in> set ?gs" using i by simp
    then have "sint (gf_open (?gs ! i)) < 2 ^ 31 - 1" "0 \<le> sint (gf_open (?gs ! i))"
      using room cok by (auto simp: room_for_def counts_ok_def)
    then show ?thesis by (simp add: sint_word_ariths signed_take_bit_int_eq_self)
  qed
  moreover have "gf_global_fd h \<noteq> gf_global_fd (?gs ! i)" if "h \<in> set ?gs" "h \<noteq> ?gs ! i" for h
    using tok that i by (auto simp: tables_ok_def distinct_map inj_on_def)
  moreover have "set (?gs[i := ?g]) = insert ?g (set ?gs - {?gs ! i})"
    using tok i by (intro set_update_distinct) (auto simp: tables_ok_def distinct_map)
  ultimately have "counts_ok (tabla_global_archivos k') (listaDeTablasDeArchivosDeProcesos k')"
    using e cok i by (auto simp: counts_ok_def k2)
  moreover have "tables_ok (tabla_global_archivos k') (listaDeTablasDeArchivosDeProcesos k')" using e by blast
  moreover have "open_files k2 = open_files k" using names(2) by (simp add: open_files_def k2)
  then have "open_files k' = insert (pid, fd, path) (open_files k) \<and> (\<forall>p. (pid, fd, p) \<notin> open_files k) \<and> 0 < sint fd"
    using e i by simp
  ultimately show ?thesis by (simp add: file_inv_def)
qed

lemma open_new:
  assumes inv: "file_inv k" and g: "find_index (\<lambda>f. gf_file f = path) (tabla_global_archivos k) = None"
    and room: "room_for pid k" and r: "registrar_archivo K pid path flags (k\<lparr>fs_socket := s\<rparr>) = (fd, k')"
  shows "file_inv k' \<and> open_files k' = insert (pid, word_of_int fd, path) (open_files k) \<and>
    (\<forall>p. (pid, word_of_int fd, p) \<notin> open_files k) \<and> 0 < fd"
proof -
  let ?gs = "tabla_global_archivos k" and ?ts = "listaDeTablasDeArchivosDeProcesos k"
  let ?g = "\<lparr>gf_file = path, gf_open = 1, gf_global_fd = ucast (contador_fd_global k)\<rparr>"
  define k2 where "k2 = k\<lparr>fs_socket := s, contador_fd_global := contador_fd_global k + 1, tabla_global_archivos := ?gs @ [?g]\<rparr>"
  obtain fdw where c: "cargarArchivoTablaProceso K pid (ucast (contador_fd_global k)) flags k2 = (fdw, k')" "fd = sint fdw"
    using r by (auto simp: registrar_archivo_def crearArchivoTablaGlobal_def Let_def coll_simps k2_def split: prod.splits)
  have tok: "tables_ok ?gs ?ts" and cok: "counts_ok ?gs ?ts" using inv by (simp_all add: file_inv_def)
  have new: "ucast (contador_fd_global k) \<notin> gf_global_fd ` set ?gs" "path \<notin> gf_file ` set ?gs"
    using room g by (auto simp: room_for_def find_index_None_iff)
  have tok2: "tables_ok (tabla_global_archivos k2) (listaDeTablasDeArchivosDeProcesos k2)"
    using tok new by (auto simp: tables_ok_def k2_def)
  have fresh: "\<forall>t \<in> set (listaDeTablasDeArchivosDeProcesos k2). tf_pid t = pid \<longrightarrow>
      contador_fd t \<noteq> 0 \<and> ucast (contador_fd t) \<notin> proceso_fd ` set (tabla_archivos t)"
    using room by (simp add: room_for_def k2_def)
  have g2: "?g \<in> set (tabla_global_archivos k2)" "gf_global_fd ?g = ucast (contador_fd_global k)" by (simp_all add: k2_def)
  note e = cargar_effect [OF c(1) tok2 g2 fresh]
  have unused: "\<forall>t \<in> set ?ts. \<forall>f \<in> set (tabla_archivos t). pf_global_fd f \<noteq> ucast (contador_fd_global k)"
    using tok new(1) unfolding tables_ok_def by metis
  then have "refs ?ts (ucast (contador_fd_global k)) = 0" by (rule refs_zero)
  then have "counts_ok (tabla_global_archivos k') (listaDeTablasDeArchivosDeProcesos k')"
    using e cok new(1) by (auto simp: counts_ok_def k2_def small_fd(1))
  moreover have "named_by (?gs @ [?g]) (tf_pid t) f = named_by ?gs (tf_pid t) f" if "t \<in> set ?ts" "f \<in> set (tabla_archivos t)" for t f
  proof -
    have "{g \<in> set (?gs @ [?g]). gf_global_fd g = pf_global_fd f} = {g \<in> set ?gs. gf_global_fd g = pf_global_fd f}"
      using bspec [OF bspec [OF unused that(1)] that(2)] by auto
    then show ?thesis by (simp only: named_by_def)
  qed
  then have "open_files k2 = open_files k" by (simp add: open_files_def open_of_def k2_def)
  then have "open_files k' = insert (pid, word_of_int fd, path) (open_files k) \<and>
      (\<forall>p. (pid, word_of_int fd, p) \<notin> open_files k) \<and> 0 < fd"
    using e c(2) by simp
  moreover have "tables_ok (tabla_global_archivos k') (listaDeTablasDeArchivosDeProcesos k')" using e by blast
  ultimately show ?thesis by (simp add: file_inv_def)
qed

end

section \<open>Closing\<close>

lemma refs_pos: "t \<in> set tabs \<Longrightarrow> f \<in> set (tabla_archivos t) \<Longrightarrow> pf_global_fd f = g \<Longrightarrow> 0 < refs tabs g"
  by (induction tabs) (auto simp: filter_empty_conv)

lemma drop_global:
  assumes "tables_ok (as @ g # bs) tabs" "refs tabs (gf_global_fd g) = 0"
  shows "tables_ok (as @ bs) tabs" "open_of (as @ bs) tabs = open_of (as @ g # bs) tabs"
proof -
  have no: "pf_global_fd f \<noteq> gf_global_fd g" if "t \<in> set tabs" "f \<in> set (tabla_archivos t)" for t f
    using refs_pos [OF that] assms(2) by auto
  show "tables_ok (as @ bs) tabs" using assms(1) no by (fastforce simp: tables_ok_def)
  have "named_by (as @ g # bs) pid f = named_by (as @ bs) pid f" if "t \<in> set tabs" "f \<in> set (tabla_archivos t)" for t f pid
  proof -
    have "{h \<in> set (as @ g # bs). gf_global_fd h = pf_global_fd f} = {h \<in> set (as @ bs). gf_global_fd h = pf_global_fd f}"
      using no [OF that] by auto
    then show ?thesis by (simp only: named_by_def)
  qed
  then show "open_of (as @ bs) tabs = open_of (as @ g # bs) tabs" by (simp add: open_of_def)
qed

lemma close_global:
  assumes tok: "tables_ok (as @ g # bs) tabs" and cok: "counts_ok (as @ g # bs) tabs"
    and tok': "tables_ok (as @ g # bs) tabs'"
    and r: "\<forall>h. refs tabs h = refs tabs' h + (if h = gf_global_fd g then 1 else 0)"
    and globs: "globs = (if 1 < sint (gf_open g) then as @ g\<lparr>gf_open := gf_open g - 1\<rparr> # bs else as @ bs)"
  shows "tables_ok globs tabs' \<and> counts_ok globs tabs' \<and> open_of globs tabs' = open_of (as @ g # bs) tabs'"
proof -
  have "gf_global_fd g \<notin> gf_global_fd ` (set as \<union> set bs)" using tok by (simp add: tables_ok_def image_Un)
  then have others: "gf_global_fd h \<noteq> gf_global_fd g" if "h \<in> set as \<union> set bs" for h
    using that by (metis image_eqI)
  have og: "sint (gf_open g) = int (refs tabs' (gf_global_fd g)) + 1" using cok r by (simp add: counts_ok_def)
  have rest: "counts_ok (as @ bs) tabs'" using cok r others by (auto simp: counts_ok_def)
  show ?thesis
  proof (cases "1 < sint (gf_open g)")
    case True
    let ?g = "g\<lparr>gf_open := gf_open g - 1\<rparr>"
    have "sint (gf_open g) < 2 ^ 31" using sint_less [of "gf_open g"] by simp
    then have "sint (gf_open g - 1) = sint (gf_open g) - 1"
      using True by (simp add: sint_word_ariths signed_take_bit_int_eq_self)
    then have "counts_ok (as @ ?g # bs) tabs'" using rest og cok True by (auto simp: counts_ok_def)
    moreover have "map (\<lambda>g. (gf_global_fd g, gf_file g)) (as @ ?g # bs) = map (\<lambda>g. (gf_global_fd g, gf_file g)) (as @ g # bs)" by simp
    ultimately show ?thesis using True tok' same_names [of "as @ ?g # bs" "as @ g # bs" tabs'] by (simp add: globs)
  next
    case False
    then have "refs tabs' (gf_global_fd g) = 0" using og by simp
    with False show ?thesis using rest drop_global [OF tok'] by (simp add: globs)
  qed
qed

lemma close_tables:
  assumes tok: "tables_ok globs (us @ t # vs)" and a: "tabla_archivos t = xs @ f # ys"
    and g: "g \<in> set globs" "gf_global_fd g = pf_global_fd f" and t': "t' = t\<lparr>tabla_archivos := xs @ ys\<rparr>"
  shows "tables_ok globs (us @ t' # vs)"
    "open_of globs (us @ t' # vs) = open_of globs (us @ t # vs) - {(tf_pid t, proceso_fd f, gf_file g)}"
    "refs (us @ t # vs) h = refs (us @ t' # vs) h + (if h = pf_global_fd f then 1 else 0)"
proof -
  show "tables_ok globs (us @ t' # vs)" using tok a by (auto simp: tables_ok_def t')
  show "refs (us @ t # vs) h = refs (us @ t' # vs) h + (if h = pf_global_fd f then 1 else 0)" by (simp add: t' a)
  have uniq: "h = g" if "h \<in> set globs" "gf_global_fd h = pf_global_fd f" for h
    using that g tok by (auto simp: tables_ok_def distinct_map inj_on_def)
  then have "{h \<in> set globs. gf_global_fd h = pf_global_fd f} = {g}" using g by blast
  then have n: "named_by globs (tf_pid t) f = {(tf_pid t, proceso_fd f, gf_file g)}" by (simp add: named_by_def)
  have others: "(tf_pid t, proceso_fd f, gf_file g) \<notin> open_of globs us" "(tf_pid t, proceso_fd f, gf_file g) \<notin> open_of globs vs"
    using tok by (auto simp: tables_ok_def open_of_def named_by_def)
  have "proceso_fd f \<notin> proceso_fd ` set (xs @ ys)" using tok a by (auto simp: tables_ok_def)
  then have same: "(tf_pid t, proceso_fd f, gf_file g) \<notin> (\<Union>f \<in> set (xs @ ys). named_by globs (tf_pid t) f)"
    by (auto simp: named_by_def)
  have "open_of globs (us @ t # vs) = insert (tf_pid t, proceso_fd f, gf_file g) (open_of globs (us @ t' # vs))"
    by (simp add: open_of_simps a t' n Un_insert_right)
  moreover have "(tf_pid t, proceso_fd f, gf_file g) \<notin> open_of globs (us @ t' # vs)"
    using others same by (simp add: open_of_simps t')
  ultimately show "open_of globs (us @ t' # vs) = open_of globs (us @ t # vs) - {(tf_pid t, proceso_fd f, gf_file g)}" by simp
qed

lemma listed_iff_open:
  assumes "tables_ok globs tabs" "counts_ok globs tabs"
  shows "path \<in> gf_file ` set globs \<longleftrightarrow> (\<exists>p e. (p, e, path) \<in> open_of globs tabs)"
proof
  assume "path \<in> gf_file ` set globs"
  then obtain g where g: "g \<in> set globs" "gf_file g = path" by auto
  then have "refs tabs (gf_global_fd g) \<noteq> 0" using assms(2) by (auto simp: counts_ok_def)
  then obtain t f where "t \<in> set tabs" "f \<in> set (tabla_archivos t)" "pf_global_fd f = gf_global_fd g"
    by (metis refs_zero)
  moreover from this have "(tf_pid t, proceso_fd f, path) \<in> named_by globs (tf_pid t) f" using g by (auto simp: named_by_def)
  ultimately have "(tf_pid t, proceso_fd f, path) \<in> open_of globs tabs" by (auto simp: open_of_def)
  then show "\<exists>p e. (p, e, path) \<in> open_of globs tabs" by blast
qed (auto simp: open_of_def named_by_def)

context kernel_commons
begin

lemma close_effect:
  assumes inv: "file_inv k" and o: "(pid, d, path) \<in> open_files k"
  shows "\<exists>i f k3. buscar_abierto K pid d k = (i, Some f, k) \<and> descontarDeLaTablaGlobal K (pf_global_fd f) k = Some k3 \<and>
    (\<exists>globs tabs. k3 = k\<lparr>tabla_global_archivos := globs\<rparr> \<and>
      update_tabla i (\<lambda>t. t\<lparr>tabla_archivos :=
        snd (kl_remove_by_condition (pf_c K) (tabla_archivos t) (\<lambda>g. proceso_fd g = proceso_fd f))\<rparr>) k3 =
        k\<lparr>tabla_global_archivos := globs, listaDeTablasDeArchivosDeProcesos := tabs\<rparr> \<and>
      tables_ok globs tabs \<and> counts_ok globs tabs \<and> open_of globs tabs = open_files k - {(pid, d, path)})"
proof -
  let ?gs = "tabla_global_archivos k" and ?ts = "listaDeTablasDeArchivosDeProcesos k"
  have tok: "tables_ok ?gs ?ts" and cok: "counts_ok ?gs ?ts" using inv by (simp_all add: file_inv_def)
  obtain t f g where in_t: "t \<in> set ?ts" "tf_pid t = pid" and in_f: "f \<in> set (tabla_archivos t)" "proceso_fd f = d"
    and in_g: "g \<in> set ?gs" "gf_global_fd g = pf_global_fd f" "gf_file g = path"
    using o by (auto simp: open_files_def open_of_def named_by_def)
  obtain us vs where ts: "?ts = us @ t # vs" using in_t(1) by (auto dest: split_list)
  obtain xs ys where fs: "tabla_archivos t = xs @ f # ys" using in_f(1) by (auto dest: split_list)
  obtain as bs where gs: "?gs = as @ g # bs" using in_g(1) by (auto dest: split_list)
  have ti: "find_index (\<lambda>t. tf_pid t = pid) ?ts = Some (length us)"
    unfolding ts using tok in_t(2) by (intro find_index_key) (simp_all only: tables_ok_def ts)
  have fi: "find_index (\<lambda>f. proceso_fd f = d) (tabla_archivos t) = Some (length xs)"
    unfolding fs using tok in_f(2) in_t(1) by (intro find_index_key) (simp_all only: tables_ok_def fs [symmetric])
  have gi: "find_index (\<lambda>h. gf_global_fd h = pf_global_fd f) ?gs = Some (length as)"
    unfolding gs using tok in_g(2) by (intro find_index_key) (simp_all only: tables_ok_def gs)
  define t' where "t' = t\<lparr>tabla_archivos := xs @ ys\<rparr>"
  note ct = close_tables [OF tok [unfolded ts gs] fs _ in_g(2) t'_def, simplified]
  define globs where "globs = (if 1 < sint (gf_open g) then as @ g\<lparr>gf_open := gf_open g - 1\<rparr> # bs else as @ bs)"
  have b: "buscar_abierto K pid d k = (length us, Some f, k)"
    by (simp add: buscar_abierto_def getTabla_found [OF ti] ts buscarArchivoTablaProceso_def coll_simps fi [unfolded fs] fs nth_append)
  have dg: "descontarDeLaTablaGlobal K (pf_global_fd f) k = Some (k\<lparr>tabla_global_archivos := globs\<rparr>)"
    by (simp add: descontarDeLaTablaGlobal_def getFileFromGlobal_def coll_simps gi gs nth_append Let_def globs_def
        remove_first_def remove_at_def gi [unfolded gs])
  have u: "update_tabla (length us) (\<lambda>t. t\<lparr>tabla_archivos :=
      snd (kl_remove_by_condition (pf_c K) (tabla_archivos t) (\<lambda>g. proceso_fd g = proceso_fd f))\<rparr>) (k\<lparr>tabla_global_archivos := globs\<rparr>) =
      k\<lparr>tabla_global_archivos := globs, listaDeTablasDeArchivosDeProcesos := us @ t' # vs\<rparr>"
    by (simp add: update_tabla_def ts nth_append coll_simps in_f(2) remove_first_def fi [unfolded fs] fs remove_at_def t'_def)
  have "tables_ok globs (us @ t' # vs) \<and> counts_ok globs (us @ t' # vs) \<and> open_of globs (us @ t' # vs) = open_files k - {(pid, d, path)}"
    using close_global [OF tok [unfolded gs] cok [unfolded gs] ct(1) _ globs_def] ct(2,3)
    by (simp add: in_t(2) in_f(2) in_g(2,3) ts open_files_def gs)
  then show ?thesis using b dg u by blast
qed

end

lemma abrir_effect:
  assumes "kernel_commons K" and "file_inv k" and "room_for (ucast pid) k"
    and "abrir_archivo K junk pid path flags k = (fd, k')"
  shows "file_inv k' \<and>
    (if 0 < fd then open_files k' = insert (ucast pid, word_of_int fd, path) (open_files k) \<and>
       (\<forall>p. (ucast pid, word_of_int fd, p) \<notin> open_files k)
     else open_files k' = open_files k)"
proof (cases "find_index (\<lambda>f. gf_file f = path) (tabla_global_archivos k)")
  case None
  note coll = kernel_commons.coll_simps [OF assms(1)]
  have b: "buscarArchivoTablaGlobal K path k = (- 1, k)" using None by (simp add: buscarArchivoTablaGlobal_def coll)
  have same: "file_inv (k\<lparr>fs_socket := s\<rparr>)" "open_files (k\<lparr>fs_socket := s\<rparr>) = open_files k" for s
    using assms(2) by (simp_all add: file_inv_def open_files_def)
  consider s where "registrar_archivo K (ucast pid) path flags (k\<lparr>fs_socket := s\<rparr>) = (fd, k')"
    | s where "fd \<le> 0" "k' = k\<lparr>fs_socket := s\<rparr>"
    using assms(4) by (auto simp: abrir_archivo_def b Let_def split: prod.splits if_splits)
  then show ?thesis
  proof cases
    case 1
    then show ?thesis using kernel_commons.open_new [OF assms(1,2) None assms(3) 1] by simp
  next
    case 2
    then show ?thesis using same by simp
  qed
next
  case (Some i)
  note coll = kernel_commons.coll_simps [OF assms(1)]
  let ?g = "tabla_global_archivos k ! i"
  have "?g \<in> set (tabla_global_archivos k)" using Some by (simp add: find_index_Some_iff)
  then have "unat (gf_global_fd ?g) < 256" using assms(2) by (auto simp: file_inv_def counts_ok_def)
  then have g: "sint (gf_global_fd ?g) \<noteq> - 1" using sint_u32 [of "gf_global_fd ?g"] by (simp del: of_nat_unat)
  obtain s fdw where c: "cargarArchivoTablaProceso K (ucast pid) (gf_global_fd ?g) flags
      (k\<lparr>tabla_global_archivos := (tabla_global_archivos k)[i := ?g\<lparr>gf_open := gf_open ?g + 1\<rparr>], fs_socket := s\<rparr>) = (fdw, k')"
      "fd = sint fdw"
    using assms(4) g by (auto simp: abrir_archivo_def buscarArchivoTablaGlobal_def coll Some Let_def split: prod.splits)
  show ?thesis using kernel_commons.open_existing [OF assms(1,2) Some assms(3) refl c(1)] c(2) by simp
qed

text \<open>
  C24: An \<open>open\<close> that yields a descriptor adds exactly one open file, under a descriptor the process did not
  use; one that does not leaves the set of open files as it was.  In both cases the tables stay
  consistent: descriptors are unique and the open count of a path is the number of descriptors for it.
  The condition is that the eight-bit counters have not come round to a number in use.
\<close>

theorem abrir_archivo_registers:
  assumes "kernel_commons K" and "file_inv k" and "room_for (ucast pid) k"
    and "abrir_archivo K junk pid path flags k = (fd, k')"
  shows "file_inv k' \<and>
    (if 0 < fd then open_files k' = insert (ucast pid, word_of_int fd, path) (open_files k) \<and>
       (\<forall>p. (ucast pid, word_of_int fd, p) \<notin> open_files k)
     else open_files k' = open_files k)"
  using assms by (rule abrir_effect)

abbreviation demo_flags :: t_banderas where
  "demo_flags \<equiv> \<lparr>bandera_creacion = False, bandera_lectura = True, bandera_escritura = False\<rparr>"

definition demo_fs :: kernel where
  "demo_fs = (demo_kernel [] [])\<lparr>fs_socket := \<lparr>sk_in = code_bytes ISREG, sk_out = []\<rparr>\<rparr>"

definition demo_abierto :: kernel where
  "demo_abierto = (demo_kernel [] [])\<lparr>contador_fd_global := 11,
     tabla_global_archivos := [\<lparr>gf_file = [47, 97], gf_open = 1, gf_global_fd = 10\<rparr>],
     listaDeTablasDeArchivosDeProcesos := [\<lparr>tf_pid = 1, tabla_archivos = [\<lparr>proceso_fd = 10, pf_global_fd = 10,
       pf_flags = demo_flags, offset_cursor = 0\<rparr>], contador_fd = 11\<rparr>]\<rparr>"

lemma demo_fs_ok: "file_inv demo_fs" "room_for pid demo_fs" "open_files demo_fs = {}"
  by (simp_all add: file_inv_def tables_ok_def counts_ok_def room_for_def open_files_def open_of_def demo_fs_def demo_kernel_def)

lemma demo_abrir: "\<exists>s. abrir_archivo seq_kernel_lib (\<lambda>_. 0) 1 [47, 97] demo_flags demo_fs = (10, demo_abierto\<lparr>fs_socket := s\<rparr>)"
proof -
  obtain s where v: "fs_validate_file (\<lambda>_. 0) [47, 97] \<lparr>sk_in = code_bytes ISREG, sk_out = []\<rparr> = (ISREG, s)"
    using recv_code_exchange [of ISREG "\<lparr>sk_in = code_bytes ISREG, sk_out = [oc_byte FS_VALIDATE_FILE_OC] @ path_bytes [47, 97]\<rparr>" "[]" "\<lambda>_. 0"]
    by (simp add: fs_validate_file_def send_request_def socket_send_def ISREG_def)
  show ?thesis
    by (rule exI [of _ s]) (simp add: demo_fs_def demo_abierto_def abrir_archivo_def demo_simps buscarArchivoTablaGlobal_def v
        registrar_archivo_def crearArchivoTablaGlobal_def cargarArchivoTablaProceso_def getTablaArchivo_def update_tabla_def Let_def)
qed

theorem abrir_archivo_registers_witness:
  "\<exists>k'. abrir_archivo seq_kernel_lib (\<lambda>_. 0) 1 [47, 97] \<lparr>bandera_creacion = False, bandera_lectura = True, bandera_escritura = False\<rparr>
      ((demo_kernel [] [])\<lparr>fs_socket := \<lparr>sk_in = code_bytes ISREG, sk_out = []\<rparr>\<rparr>) = (10, k') \<and>
    open_files k' = {(1, 10, [47, 97])}"
proof -
  obtain k' where r: "abrir_archivo seq_kernel_lib (\<lambda>_. 0) 1 [47, 97] demo_flags demo_fs = (10, k')"
    using demo_abrir by blast
  show ?thesis
    using abrir_archivo_registers [OF seq_kernel.kernel_commons_axioms demo_fs_ok(1,2) r] r demo_fs_ok(3) by (simp add: demo_fs_def)
qed

lemma send_cerrar:
  "send_to A OC_RESP_CERRAR (Mem (u32_bytes v)) fd k =
     Some (k\<lparr>clientes := (clientes k)(fd := socket_send ([OC_RESP_CERRAR] @ u32_bytes 4 @ u32_bytes v) (clientes k fd))\<rparr>)"
  by (simp add: send_to_def connection_send_def message_size_def code_lists source_consts)

text \<open>
  C25: A close request for a descriptor that a process has open is carried out: exactly that
  open file is gone, the tables stay consistent, so that the path leaves the global table exactly when nobody else
  has it open, and the answer is \<open>EC_FINALIZACION_OK\<close>.
\<close>

theorem cerrar_releases:
  assumes "kernel_commons K" and "file_inv k" and "request_from K fd k" and "(pid, d, path) \<in> open_files k"
  shows "\<exists>k'. funcion_cerrar K A fd pid d k = Some k' \<and> file_inv k' \<and> open_files k' = open_files k - {(pid, d, path)} \<and>
    (path \<in> gf_file ` set (tabla_global_archivos k') \<longleftrightarrow> (\<exists>p e. (p, e, path) \<in> open_files k - {(pid, d, path)})) \<and>
    sk_out (clientes k' fd) = sk_out (clientes k fd) @ [OC_RESP_CERRAR] @ u32_bytes 4 @ u32_bytes (word_of_int EC_FINALIZACION_OK)"
proof -
  obtain u where u: "sumar_syscall K fd k = Some (k\<lparr>tabla_sockets_procesos := u\<rparr>)" using sumar_Some(1) [OF assms(3)] by blast
  let ?k1 = "k\<lparr>tabla_sockets_procesos := u\<rparr>"
  have k1: "file_inv ?k1" "(pid, d, path) \<in> open_files ?k1" using assms(2,4) by (simp_all add: file_inv_def open_files_def)
  from kernel_commons.close_effect [OF assms(1) k1] obtain i f k3 globs tabs where
    c: "buscar_abierto K pid d ?k1 = (i, Some f, ?k1)" "descontarDeLaTablaGlobal K (pf_global_fd f) ?k1 = Some k3"
      "update_tabla i (\<lambda>t. t\<lparr>tabla_archivos :=
         snd (kl_remove_by_condition (pf_c K) (tabla_archivos t) (\<lambda>g. proceso_fd g = proceso_fd f))\<rparr>) k3 =
         ?k1\<lparr>tabla_global_archivos := globs, listaDeTablasDeArchivosDeProcesos := tabs\<rparr>"
      "tables_ok globs tabs" "counts_ok globs tabs" "open_of globs tabs = open_files ?k1 - {(pid, d, path)}"
    by blast
  have "path \<in> gf_file ` set globs \<longleftrightarrow> (\<exists>p e. (p, e, path) \<in> open_files k - {(pid, d, path)})"
    using listed_iff_open [OF c(4,5)] c(6) by (auto simp: open_files_def)
  then show ?thesis
    using c by (simp add: funcion_cerrar_def u send_cerrar file_inv_def open_files_def socket_send_def)
qed

theorem cerrar_releases_witness:
  "\<exists>k k'. open_files k = {(1, 10, [47, 97])} \<and> funcion_cerrar seq_kernel_lib abi32 7 1 10 k = Some k' \<and> open_files k' = {}"
proof -
  let ?k = "(demo_kernel [] [])\<lparr>tabla_global_archivos := [\<lparr>gf_file = [47, 97], gf_open = 1, gf_global_fd = 10\<rparr>],
    listaDeTablasDeArchivosDeProcesos := [\<lparr>tf_pid = 1, tabla_archivos = [\<lparr>proceso_fd = 10, pf_global_fd = 10,
      pf_flags = \<lparr>bandera_creacion = False, bandera_lectura = True, bandera_escritura = False\<rparr>, offset_cursor = 0\<rparr>], contador_fd = 11\<rparr>]\<rparr>"
  have inv: "file_inv ?k" by (simp add: file_inv_def tables_ok_def counts_ok_def)
  have o: "open_files ?k = {(1, 10, [47, 97])}" by (auto simp: open_files_def open_of_def named_by_def)
  have r: "request_from seq_kernel_lib 7 ?k" by (simp add: request_from_def obtener_cpu_def demo_simps)
  have "(1, 10, [47, 97]) \<in> open_files ?k" by (simp add: o)
  then show ?thesis using cerrar_releases [OF seq_kernel.kernel_commons_axioms inv r, of 1 10 "[47, 97]" abi32] o by auto
qed

section \<open>Copies that do not fit\<close>

text \<open>An \<open>open\<close> for creation, as the CPU encodes it: the path is not ended by a zero byte, so the copy runs into the flags.\<close>

lemma creation_overflows:
  assumes "length path < 2 ^ 31" and "0 \<notin> set path" and "c \<noteq> 0"
  shows "funcion_abrir K A junk fd (u32_bytes (of_nat (length path)) @ u16_bytes pid @ path @ [c, l, e]) k = None"
proof -
  let ?b = "u32_bytes (of_nat (length path)) @ u16_bytes pid @ path @ [c, l, e]"
  have n: "c_int_at ?b = Some (of_nat (length path))" by (simp add: c_int_at_def)
  have u: "unat (of_nat (length path) :: u32) = length path" using assms(1) by (simp add: unat_of_nat)
  have "takeWhile (\<lambda>c. c \<noteq> 0) (drop 6 ?b) = path @ c # takeWhile (\<lambda>c. c \<noteq> 0) [l, e]"
    using takeWhile_append2 [of path "\<lambda>c. c \<noteq> 0" "[c, l, e]"] assms(2,3) by fastforce
  then have "length path < length (takeWhile (\<lambda>c. c \<noteq> 0) (drop 6 ?b))" by simp
  then show ?thesis unfolding funcion_abrir_def n by (simp add: u Let_def del: drop_append)
qed

lemma map_update_same: "j < length l \<longrightarrow> f x = f (l ! j) \<Longrightarrow> map f (l[j := x]) = map f l"
  by (induction l arbitrary: j) (auto split: nat.splits)

lemma find_index_map: "find_index P (map f l) = find_index (P \<circ> f) l"
  by (induction l) simp_all

lemma sumar_syscall_consoles:
  assumes "kernel_commons K" "request_from K fd k"
  shows "\<exists>t. sumar_syscall K fd k = Some (k\<lparr>tabla_sockets_procesos := t\<rparr>) \<and>
    map (\<lambda>p. (par_pid p, par_socket p)) t = map (\<lambda>p. (par_pid p, par_socket p)) (tabla_sockets_procesos k)"
proof -
  obtain c p where c: "obtener_cpu K fd k = Some c" "proceso_asignado (lista_cpu k ! c) = Some p"
    using assms(2) by (auto simp: request_from_def)
  note coll = kernel_commons.coll_simps [OF assms(1)]
  show ?thesis
  proof (cases "find_index (\<lambda>q. ucast (pcb_pid p) = par_pid q) (tabla_sockets_procesos k)")
    case None
    then have "sumar_syscall K fd k = Some (k\<lparr>tabla_sockets_procesos := tabla_sockets_procesos k\<rparr>)"
      using c by (simp add: sumar_syscall_def update_par_def pid_of_cpu_def coll)
    then show ?thesis by blast
  next
    case (Some i)
    let ?t = "(tabla_sockets_procesos k)
      [i := (tabla_sockets_procesos k ! i)\<lparr>cantidad_syscalls := cantidad_syscalls (tabla_sockets_procesos k ! i) + 1\<rparr>]"
    have "map (\<lambda>p. (par_pid p, par_socket p)) ?t = map (\<lambda>p. (par_pid p, par_socket p)) (tabla_sockets_procesos k)"
      by (rule map_update_same) simp
    moreover have "sumar_syscall K fd k = Some (k\<lparr>tabla_sockets_procesos := ?t\<rparr>)"
      using Some c by (cases "tabla_sockets_procesos k = []") (simp_all add: sumar_syscall_def update_par_def pid_of_cpu_def coll)
    ultimately show ?thesis by (intro exI [of _ ?t]) (rule conjI)
  qed
qed

text \<open>A text for a console that the kernel knows is copied into a block that is one byte too small.\<close>

lemma print_overflows:
  assumes "kernel_commons K" and "request_from K fd k" and "ar_descriptor a = 1"
    and "find_index (\<lambda>p. ar_pid a = par_pid p) (tabla_sockets_procesos k) = Some j"
  shows "funcion_escribir K A junk fd a k = None"
proof -
  obtain u where u: "sumar_syscall K fd k = Some (k\<lparr>tabla_sockets_procesos := u\<rparr>)"
    "map (\<lambda>p. (par_pid p, par_socket p)) u = map (\<lambda>p. (par_pid p, par_socket p)) (tabla_sockets_procesos k)"
    using sumar_syscall_consoles [OF assms(1,2)] by blast
  have "find_index (\<lambda>p. ar_pid a = par_pid p) u = Some j"
    using assms(4) arg_cong [OF u(2), of "find_index (\<lambda>(p, _). ar_pid a = p)"] by (simp add: find_index_map comp_def)
  then show ?thesis
    using assms(3) u(1) by (simp add: funcion_escribir_def encontrar_consola_de_pcb_def kernel_commons.coll_simps [OF assms(1)])
qed

section \<open>All requests about files\<close>

definition same_files :: "kernel \<Rightarrow> kernel \<Rightarrow> bool" where
  "same_files k k' \<longleftrightarrow> tabla_global_archivos k' = tabla_global_archivos k \<and>
     listaDeTablasDeArchivosDeProcesos k' = listaDeTablasDeArchivosDeProcesos k \<and> contador_fd_global k' = contador_fd_global k"

lemma same_filesD: "same_files k k' \<Longrightarrow> file_inv k' = file_inv k \<and> room_for pid k' = room_for pid k"
  by (simp add: same_files_def file_inv_def room_for_def)

lemma same_files_steps:
  "send_to A oc msg fd k = Some k' \<Longrightarrow> same_files k k'" "sumar_syscall K fd k = Some k' \<Longrightarrow> same_files k k'"
  by (auto simp: send_to_def sumar_syscall_def same_files_def dest!: update_par_other)

lemma step_keeps_inv:
  "sumar_syscall K fd k = Some k' \<Longrightarrow> file_inv k' = file_inv k" "send_to A oc msg fd k = Some k' \<Longrightarrow> file_inv k' = file_inv k"
  using same_filesD same_files_steps by blast+

lemma file_inv_sockets [simp]:
  "file_inv (k\<lparr>fs_socket := s\<rparr>) = file_inv k" "file_inv (k\<lparr>memory_socket := s\<rparr>) = file_inv k"
  by (simp_all add: file_inv_def)

text \<open>A computation after which the tables are consistent if it has a result, and rules to find out.\<close>

definition files_kept :: "kernel option \<Rightarrow> bool" where
  "files_kept m \<longleftrightarrow> (\<forall>k'. m = Some k' \<longrightarrow> file_inv k')"

lemma files_kept_basic:
  "files_kept None" "file_inv k \<Longrightarrow> files_kept (Some k)" "file_inv k \<Longrightarrow> files_kept (send_to A oc msg fd k)" "file_inv k \<Longrightarrow> files_kept (sumar_syscall K fd k)"
  by (auto simp: files_kept_def dest: step_keeps_inv)

lemma files_kept_bind: "files_kept m \<Longrightarrow> (\<And>k1. m = Some k1 \<Longrightarrow> file_inv k1 \<Longrightarrow> files_kept (f k1)) \<Longrightarrow> files_kept (m \<bind> f)"
  by (auto simp: files_kept_def bind_eq_Some_conv)

lemma files_kept_branch:
  "(\<And>x. v = Some x \<Longrightarrow> files_kept (f x)) \<Longrightarrow> files_kept (v \<bind> f)"
  "(c \<Longrightarrow> files_kept m1) \<Longrightarrow> (\<not> c \<Longrightarrow> files_kept m2) \<Longrightarrow> files_kept (if c then m1 else m2)"
  "(\<And>x y. p = (x, y) \<Longrightarrow> files_kept (g x y)) \<Longrightarrow> files_kept (case p of (x, y) \<Rightarrow> g x y)"
  "(v = None \<Longrightarrow> files_kept m1) \<Longrightarrow> (\<And>x. v = Some x \<Longrightarrow> files_kept (h x)) \<Longrightarrow> files_kept (case v of None \<Rightarrow> m1 | Some x \<Rightarrow> h x)"
  by (auto simp: files_kept_def bind_eq_Some_conv split: prod.splits option.splits)

lemmas files_kept_rules = files_kept_basic files_kept_bind files_kept_branch

context kernel_commons
begin

lemma tabla_keeps_inv: "getTablaArchivo K pid k = (i, k1) \<Longrightarrow> file_inv k \<Longrightarrow> file_inv k1"
  using getTabla_effect [of pid k i k1 "tabla_global_archivos k" "tabla_global_archivos k"]
  by (auto simp: file_inv_def counts_ok_def)

lemma buscar_abierto_keeps_inv: "buscar_abierto K pid d k = (i, f, k1) \<Longrightarrow> file_inv k \<Longrightarrow> file_inv k1"
  by (auto simp: buscar_abierto_def Let_def split: prod.splits intro: tabla_keeps_inv)

lemma abierto_open:
  assumes "buscar_abierto K pid d k = (i, Some f, k1)" "file_inv k"
  shows "k1 = k \<and> (\<exists>path. (pid, d, path) \<in> open_files k)"
proof (cases "find_index (\<lambda>t. tf_pid t = pid) (listaDeTablasDeArchivosDeProcesos k)")
  case None
  then show ?thesis
    using assms(1) by (simp add: buscar_abierto_def getTablaArchivo_def coll_simps buscarArchivoTablaProceso_def nth_append)
next
  case (Some n)
  let ?t = "listaDeTablasDeArchivosDeProcesos k ! n"
  have "map_option ((!) (tabla_archivos ?t)) (find_index (\<lambda>f. proceso_fd f = d) (tabla_archivos ?t)) = Some f \<and> k1 = k"
    using assms(1) unfolding buscar_abierto_def getTabla_found [OF Some] buscarArchivoTablaProceso_def coll_simps Let_def prod.case Pair_inject
    by blast
  then obtain m where m: "find_index (\<lambda>f. proceso_fd f = d) (tabla_archivos ?t) = Some m" "tabla_archivos ?t ! m = f" "k1 = k"
    unfolding map_option_eq_Some by blast
  then have f: "f \<in> set (tabla_archivos ?t)" "proceso_fd f = d" by (auto simp: find_index_Some_iff)
  have t: "?t \<in> set (listaDeTablasDeArchivosDeProcesos k)" "tf_pid ?t = pid" using Some by (simp_all add: find_index_Some_iff)
  obtain g where "g \<in> set (tabla_global_archivos k)" "gf_global_fd g = pf_global_fd f"
    using assms(2) t f unfolding file_inv_def tables_ok_def by (metis imageE)
  then have "(pid, d, gf_file g) \<in> named_by (tabla_global_archivos k) (tf_pid ?t) f" using f t by (auto simp: named_by_def)
  then have "(pid, d, gf_file g) \<in> open_files k" using f t unfolding open_files_def open_of_def by blast
  then show ?thesis using m(3) by blast
qed

lemma close_keeps_inv:
  assumes "buscar_abierto K pid d k = (i, Some f, k1)" "file_inv k" "descontarDeLaTablaGlobal K (pf_global_fd f) k1 = Some k3"
  shows "file_inv (update_tabla i (\<lambda>t. t\<lparr>tabla_archivos :=
    snd (kl_remove_by_condition (pf_c K) (tabla_archivos t) (\<lambda>g. proceso_fd g = proceso_fd f))\<rparr>) k3)"
proof -
  from abierto_open [OF assms(1,2)] obtain path where o: "k1 = k" "(pid, d, path) \<in> open_files k" by blast
  from close_effect [OF assms(2) o(2)] obtain i' f' k3' globs tabs where
    c: "buscar_abierto K pid d k = (i', Some f', k)" "descontarDeLaTablaGlobal K (pf_global_fd f') k = Some k3'"
      "update_tabla i' (\<lambda>t. t\<lparr>tabla_archivos :=
         snd (kl_remove_by_condition (pf_c K) (tabla_archivos t) (\<lambda>g. proceso_fd g = proceso_fd f'))\<rparr>) k3' =
         k\<lparr>tabla_global_archivos := globs, listaDeTablasDeArchivosDeProcesos := tabs\<rparr>"
      "tables_ok globs tabs" "counts_ok globs tabs"
    by blast
  have "i' = i" "f' = f" using c(1) assms(1) by simp_all
  moreover from this have "k3' = k3" using c(2) assms(3) o(1) by simp
  ultimately show ?thesis using c(3-5) by (simp add: file_inv_def)
qed

lemma cursor_keeps_inv:
  assumes "getTablaArchivo K pid k = (i, k1)" "file_inv k"
  shows "file_inv (update_tabla i (\<lambda>t. t\<lparr>tabla_archivos := (tabla_archivos t)[j := (tabla_archivos t ! j)\<lparr>offset_cursor := v\<rparr>]\<rparr>) k1)"
proof -
  have inv: "file_inv k1" using assms by (rule tabla_keeps_inv)
  have "tables_ok (tabla_global_archivos k) (listaDeTablasDeArchivosDeProcesos k)" using assms(2) by (simp add: file_inv_def)
  from getTabla_effect [OF assms(1) this] obtain us t vs where
    t: "listaDeTablasDeArchivosDeProcesos k1 = us @ t # vs" "length us = i" by blast
  let ?l = "(tabla_archivos t)[j := (tabla_archivos t ! j)\<lparr>offset_cursor := v\<rparr>]"
  have m: "map proceso_fd ?l = map proceso_fd (tabla_archivos t)" "map pf_global_fd ?l = map pf_global_fd (tabla_archivos t)"
    by (simp_all add: map_update_same)
  have "length (filter (\<lambda>f. pf_global_fd f = g) ?l) = length (filter (\<lambda>f. pf_global_fd f = g) (tabla_archivos t))" for g
    using arg_cong [OF m(2), of "\<lambda>l. length (filter (\<lambda>x. x = g) l)"] by (simp add: filter_map comp_def)
  moreover have "pf_global_fd ` set ?l = pf_global_fd ` set (tabla_archivos t)" using m(2) by (metis set_map)
  ultimately show ?thesis
    using inv m(1) by (simp add: update_tabla_def t(1) t(2) [symmetric] nth_append file_inv_def tables_ok_def counts_ok_def
        image_subset_iff [of pf_global_fd, symmetric])
qed

lemma abrir_keeps_inv:
  assumes "file_inv k" "\<forall>pid. room_for pid k"
  shows "files_kept (funcion_abrir K A junk fd b k)"
proof -
  have "file_inv k1" if "abrir_archivo K junk pid path flags k = (res, k1)" for pid path flags res k1
    using abrir_effect [OF kernel_commons_axioms assms(1) assms(2) [rule_format] that] by blast
  then show ?thesis unfolding funcion_abrir_def Let_def by (intro files_kept_rules; assumption?)
qed

lemma escribir_keeps_inv: "file_inv k \<Longrightarrow> files_kept (funcion_escribir K A junk fd a k)"
  unfolding funcion_escribir_def by (intro files_kept_rules) (auto dest: buscar_abierto_keeps_inv)

lemma leer_keeps_inv: "file_inv k \<Longrightarrow> files_kept (funcion_leer K A junk fd p k)"
  unfolding funcion_leer_def getPathFrom_PID_FD_def Let_def
  by (intro files_kept_rules) (auto dest!: buscar_abierto_keeps_inv split: bind_splits prod.splits)

lemma cerrar_keeps_inv: "file_inv k \<Longrightarrow> files_kept (funcion_cerrar K A fd pid d k)"
  unfolding funcion_cerrar_def by (intro files_kept_rules) (auto dest: buscar_abierto_keeps_inv intro: close_keeps_inv)

lemma borrar_keeps_inv: "file_inv k \<Longrightarrow> files_kept (funcion_borrar K A junk fd pid d k)"
  unfolding funcion_borrar_def Let_def by (intro files_kept_rules) (auto dest: buscar_abierto_keeps_inv)

lemma mover_keeps_inv: "file_inv k \<Longrightarrow> files_kept (funcion_mover_cursor K fd b k)"
  unfolding funcion_mover_cursor_def Let_def by (intro files_kept_rules) (auto simp: files_kept_def intro: cursor_keeps_inv)

end

definition file_codes :: "byte list" where
  "file_codes = [OC_FUNCION_ABRIR, OC_FUNCION_ESCRIBIR, OC_FUNCION_LEER, OC_FUNCION_CERRAR, OC_FUNCION_BORRAR, OC_FUNCION_MOVER_CURSOR]"

text \<open>
  C23: The tables of open files stay well-formed under requests about files, as long as the counters of descriptors have room.  Whatever bytes a
  CPU sends with one of the six operation codes, if no eight-bit counter of descriptors has come round to a number in use and no
  open count is at its limit before the request (\<open>room_for\<close>), and if the kernel gets through the request, then afterwards the
  descriptors of each process are distinct, each refers to an entry of the global table, the paths and descriptors there are distinct, fit a
  byte, and each open count is the positive number of descriptors that refer to it.  After about 246 openings by one process, or of
  different paths, the condition can fail, and then the code does give out a descriptor twice.
\<close>

theorem file_requests_well_formed:
  assumes "kernel_commons K" and "file_inv k" and "\<forall>pid. room_for pid k" and "oc \<in> set file_codes"
    and "solve_request K A junk meta fd oc request k = Some k'"
  shows "file_inv k'"
proof -
  note km = kernel_commons.abrir_keeps_inv [OF assms(1-3)] kernel_commons.escribir_keeps_inv [OF assms(1,2)]
    kernel_commons.leer_keeps_inv [OF assms(1,2)] kernel_commons.cerrar_keeps_inv [OF assms(1,2)]
    kernel_commons.borrar_keeps_inv [OF assms(1,2)] kernel_commons.mover_keeps_inv [OF assms(1,2)]
  have "files_kept (solve_request K A junk meta fd oc request k)"
  proof (cases request)
    case (Raw b)
    consider "oc = OC_FUNCION_ABRIR" | "oc = OC_FUNCION_ESCRIBIR" | "oc = OC_FUNCION_LEER" | "oc = OC_FUNCION_CERRAR"
      | "oc = OC_FUNCION_BORRAR" | "oc = OC_FUNCION_MOVER_CURSOR"
      using assms(4) by (auto simp: file_codes_def)
    then show ?thesis
      by cases (simp_all add: solve_request_def Raw source_consts km files_kept_basic files_kept_branch assms(2))
  next
    case (Archivo a)
    then show ?thesis by (simp add: solve_request_def km files_kept_basic)
  qed
  then show ?thesis using assms(5) by (simp add: files_kept_def)
qed

theorem file_requests_well_formed_witness:
  "\<exists>k'. solve_request seq_kernel_lib abi32 (\<lambda>_. 0) (\<lambda>_. undefined) 7 OC_FUNCION_ABRIR (Raw ([2, 0, 0, 0, 1, 0] @ [47, 97] @ [0, 1, 0]))
      ((demo_kernel [] [])\<lparr>fs_socket := \<lparr>sk_in = code_bytes ISREG, sk_out = []\<rparr>\<rparr>) = Some k' \<and>
    file_inv k' \<and> open_files k' = {(1, 10, [47, 97])}"
proof -
  let ?b = "[2, 0, 0, 0, 1, 0] @ [47, 97] @ [0, 1, 0] :: byte list"
  have oc: "OC_FUNCION_ABRIR \<in> set file_codes" by (simp add: file_codes_def)
  obtain s where a: "abrir_archivo seq_kernel_lib (\<lambda>_. 0) 1 [47, 97] demo_flags demo_fs = (10, demo_abierto\<lparr>fs_socket := s\<rparr>)"
    using demo_abrir by blast
  have b: "bytes_u32 [2, 0, 0, 0] = 2" "bytes_u16 [1, 0] = 1" by code_simp+
  have f: "sumar_syscall seq_kernel_lib 7 (demo_abierto\<lparr>fs_socket := s\<rparr>) = Some (demo_abierto\<lparr>fs_socket := s\<rparr>)"
    by (simp add: sumar_syscall_def update_par_def demo_abierto_def demo_simps)
  have "c_int_at ?b = Some 2" by (simp add: c_int_at_def b)
  then have "funcion_abrir seq_kernel_lib abi32 (\<lambda>_. 0) 7 ?b demo_fs =
      send_to abi32 OC_RESP_ABRIR (Mem (u32_bytes (word_of_int 10))) 7 (demo_abierto\<lparr>fs_socket := s\<rparr>)"
    by (simp add: funcion_abrir_def a b f Let_def source_consts)
  then obtain c where r: "solve_request seq_kernel_lib abi32 (\<lambda>_. 0) (\<lambda>_. undefined) 7 OC_FUNCION_ABRIR (Raw ?b) demo_fs =
      Some (demo_abierto\<lparr>fs_socket := s, clientes := c\<rparr>)"
    by (simp add: solve_request_def source_consts send_to_def connection_send_def message_size_def code_lists)
  have "open_files (demo_abierto\<lparr>fs_socket := s, clientes := c\<rparr>) = {(1, 10, [47, 97])}"
    by (auto simp: open_files_def open_of_def named_by_def demo_abierto_def)
  moreover have "\<forall>pid. room_for pid demo_fs" by (simp add: demo_fs_ok)
  ultimately show ?thesis
    using file_requests_well_formed [OF seq_kernel.kernel_commons_axioms demo_fs_ok(1) _ oc r] r by (auto simp: demo_fs_def)
qed

end
