(* ===== verification/Kernel_Select.thy ===== *)
theory Kernel_Select
  imports Kernel_Sched_Props Kernel_Files_Props
begin

text \<open>
  The event loop of the kernel (\<open>manage_select\<close> of \<open>kernel/src/kernel.c\<close>).  Two threads run it, one on the port of the CPUs and one on the
  port of the programs; an event is a new connection, or a connection on which there is something to read or which has ended.  A
  request is handed to a thread of its own, \<open>solve_request\<close>; here every event is one atomic step, and a run is a sequence of
  events of both ports.  \<open>None\<close> is also a request whose buffer was not assigned (\<open>connection_recv\<close> knows no such code, or the
  connection ended behind the code).
\<close>

datatype puerto = Puerto_cpu | Puerto_programas

datatype evento = Conexion puerto u32 | Datos puerto u32

definition nueva_conexion :: "kernel_lib \<Rightarrow> abi \<Rightarrow> puerto \<Rightarrow> u32 \<Rightarrow> kernel \<Rightarrow> kernel option" where
  "nueva_conexion K A port fd k = (case port of Puerto_cpu \<Rightarrow> conectar_cpu K A fd k | Puerto_programas \<Rightarrow> Some k)"

definition desconexion :: "kernel_lib \<Rightarrow> storage \<Rightarrow> puerto \<Rightarrow> u32 \<Rightarrow> kernel \<Rightarrow> kernel option" where
  "desconexion K junk port fd k =
     (case port of Puerto_cpu \<Rightarrow> desconexion_cpu K fd k | Puerto_programas \<Rightarrow> desconexion_consola K junk fd k)"

definition atender ::
    "kernel_lib \<Rightarrow> abi \<Rightarrow> storage \<Rightarrow> (c_str \<Rightarrow> t_metadata_program) \<Rightarrow> puerto \<Rightarrow> u32 \<Rightarrow> kernel \<Rightarrow> kernel option" where
  "atender K A junk meta port fd k = do {
     (r, s) \<leftarrow> connection_recv A junk (clientes k fd);
     let k1 = k\<lparr>clientes := (clientes k)(fd := s)\<rparr>;
     (if rc_ret r \<le> 0 then desconexion K junk port fd k1
      else do { oc \<leftarrow> rc_oc r; request \<leftarrow> rc_msg r; solve_request K A junk meta fd oc request k1 }) }"

definition seleccionado :: "kernel_lib \<Rightarrow> abi \<Rightarrow> storage \<Rightarrow> (c_str \<Rightarrow> t_metadata_program) \<Rightarrow> evento \<Rightarrow> kernel \<Rightarrow> kernel option" where
  "seleccionado K A junk meta e k =
     (case e of Conexion port fd \<Rightarrow> nueva_conexion K A port fd k | Datos port fd \<Rightarrow> atender K A junk meta port fd k)"

fun manage_select ::
    "kernel_lib \<Rightarrow> abi \<Rightarrow> storage \<Rightarrow> (c_str \<Rightarrow> t_metadata_program) \<Rightarrow> evento list \<Rightarrow> kernel \<Rightarrow> kernel option" where
  "manage_select K A junk meta [] k = Some k"
| "manage_select K A junk meta (e # es) k = do {
     k1 \<leftarrow> seleccionado K A junk meta e k;
     manage_select K A junk meta es k1 }"

section \<open>Requests that leave the scheduler alone\<close>

definition same_kept :: "kernel \<Rightarrow> kernel option \<Rightarrow> bool" where
  "same_kept k m \<longleftrightarrow> (\<forall>k'. m = Some k' \<longrightarrow> same_sched k k')"

lemma same_keptD: "same_kept k m \<Longrightarrow> m = Some k' \<Longrightarrow> same_sched k k'"
  by (simp add: same_kept_def)

lemma same_sched_more:
  "same_sched k k1 \<Longrightarrow> same_sched k (k1\<lparr>clientes := x1\<rparr>)" "same_sched k k1 \<Longrightarrow> same_sched k (k1\<lparr>memory_socket := x2\<rparr>)"
  "same_sched k k1 \<Longrightarrow> same_sched k (k1\<lparr>fs_socket := x3\<rparr>)" "same_sched k k1 \<Longrightarrow> same_sched k (k1\<lparr>tabla_paginas_heap := x4\<rparr>)"
  "same_sched k k1 \<Longrightarrow> same_sched k (k1\<lparr>tabla_sockets_procesos := x5\<rparr>)" "same_sched k k1 \<Longrightarrow> same_sched k (k1\<lparr>tabla_global_archivos := x6\<rparr>)"
  "same_sched k k1 \<Longrightarrow> same_sched k (k1\<lparr>listaDeTablasDeArchivosDeProcesos := x7\<rparr>)" "same_sched k k1 \<Longrightarrow> same_sched k (k1\<lparr>contador_fd_global := x8\<rparr>)"
  "same_sched k k1 \<Longrightarrow> same_sched k (k1\<lparr>tabla_variables_compartidas := x9\<rparr>)" "same_sched k k1 \<Longrightarrow> same_sched k (finalizar_en_memoria junk pid k1)"
  "same_sched k k1 \<Longrightarrow> same_sched k (update_pagina i f k1)" "same_sched k k1 \<Longrightarrow> same_sched k (update_tabla i g k1)"
  by (simp_all add: same_sched_def finalizar_en_memoria_def update_pagina_def update_tabla_def)

lemma update_par_same: "update_par K ci f k1 = Some k2 \<Longrightarrow> same_sched k k1 \<Longrightarrow> same_sched k k2"
  by (auto dest!: update_par_other intro: same_sched_more)

lemma same_kept_basic:
  "same_kept k None" "same_sched k k1 \<Longrightarrow> same_kept k (Some k1)" "same_sched k k1 \<Longrightarrow> same_kept k (send_to A oc msg fd k1)"
  "same_sched k k1 \<Longrightarrow> same_kept k (sumar_syscall K fd k1)" "same_sched k k1 \<Longrightarrow> same_kept k (sumar_espacio_reservado K n fd k1)"
  "same_sched k k1 \<Longrightarrow> same_kept k (sumar_espacio_liberado K pid n k1)"
  "same_sched k k1 \<Longrightarrow> same_kept k (escribir_pagina junk pid page n bytes k1)" "same_sched k k1 \<Longrightarrow> same_kept k (responder_reservar A fd p e k1)"
  "same_sched k k1 \<Longrightarrow> same_kept k (tabla_heap_cambiar_espacio_libre K pedido n k1)"
  "same_sched k k1 \<Longrightarrow> same_kept k (descontarDeLaTablaGlobal K g k1)" "same_sched k k1 \<Longrightarrow> same_kept k (asignarValorVariable K v k1)"
  by (auto simp: same_kept_def sumar_syscall_def sumar_espacio_reservado_def sumar_espacio_liberado_def send_to_def escribir_pagina_def
      responder_reservar_def tabla_heap_cambiar_espacio_libre_def descontarDeLaTablaGlobal_def asignarValorVariable_def Let_def
      intro: same_sched_more update_par_same)

lemma same_kept_bind: "same_kept k m \<Longrightarrow> (\<And>k1. same_sched k k1 \<Longrightarrow> same_kept k (f k1)) \<Longrightarrow> same_kept k (m \<bind> f)"
  by (auto simp: same_kept_def bind_eq_Some_conv)

lemma same_kept_branch:
  "(\<And>x. v = Some x \<Longrightarrow> same_kept k (f x)) \<Longrightarrow> same_kept k (v \<bind> f)"
  "(c \<Longrightarrow> same_kept k m1) \<Longrightarrow> (\<not> c \<Longrightarrow> same_kept k m2) \<Longrightarrow> same_kept k (if c then m1 else m2)"
  "(\<And>x y. p = (x, y) \<Longrightarrow> same_kept k (g x y)) \<Longrightarrow> same_kept k (case p of (x, y) \<Rightarrow> g x y)"
  "(v = None \<Longrightarrow> same_kept k m1) \<Longrightarrow> (\<And>x. v = Some x \<Longrightarrow> same_kept k (h x)) \<Longrightarrow> same_kept k (case v of None \<Rightarrow> m1 | Some x \<Rightarrow> h x)"
  by (auto simp: same_kept_def bind_eq_Some_conv split: prod.splits option.splits)

lemmas same_kept_rules = same_kept_basic same_kept_bind same_kept_branch

lemma tabla_same: "getTablaArchivo K pid k1 = (i, k2) \<Longrightarrow> same_sched k k1 \<Longrightarrow> same_sched k k2"
  by (auto simp: getTablaArchivo_def split: option.splits intro: same_sched_more)

lemma abierto_same: "buscar_abierto K pid d k1 = (i, f, k2) \<Longrightarrow> same_sched k k1 \<Longrightarrow> same_sched k k2"
  by (auto simp: buscar_abierto_def Let_def split: prod.splits dest: tabla_same)

lemma path_same: "getPathFrom_PID_FD K pid d k1 = Some (p, k2) \<Longrightarrow> same_sched k k1 \<Longrightarrow> same_sched k k2"
  by (auto simp: getPathFrom_PID_FD_def split: prod.splits bind_splits dest: abierto_same)

lemma cargar_same: "cargarArchivoTablaProceso K pid g flags k1 = (fd, k2) \<Longrightarrow> same_sched k k1 \<Longrightarrow> same_sched k k2"
  by (auto simp: cargarArchivoTablaProceso_def Let_def split: prod.splits intro!: same_sched_more dest: tabla_same)

lemma registrar_same: "registrar_archivo K pid path flags k1 = (fd, k2) \<Longrightarrow> same_sched k k1 \<Longrightarrow> same_sched k k2"
  by (auto simp: registrar_archivo_def crearArchivoTablaGlobal_def Let_def split: prod.splits intro: same_sched_more dest!: cargar_same)

lemma abrir_archivo_same: "abrir_archivo K junk pid path flags k = (res, k1) \<Longrightarrow> same_sched k k1"
  by (auto simp: abrir_archivo_def buscarArchivoTablaGlobal_def Let_def split: prod.splits if_splits option.splits
      intro!: same_sched_more dest!: cargar_same [where k = k] registrar_same [where k = k])

lemma leer_pagina_same: "leer_pagina junk pid page k1 = Some (b, k2) \<Longrightarrow> same_sched k k1 \<Longrightarrow> same_sched k k2"
  by (auto simp: leer_pagina_def split: prod.splits intro: same_sched_more)

lemma abrir_same: "same_kept k (funcion_abrir K A junk fd b k)"
  unfolding funcion_abrir_def Let_def by (intro same_kept_rules; (drule abrir_archivo_same, assumption)?)

lemma escribir_same: "same_kept k (funcion_escribir K A junk fd a k)"
  unfolding funcion_escribir_def Let_def by (intro same_kept_rules same_sched_more) (auto dest: abierto_same)

lemma leer_same: "same_kept k (funcion_leer K A junk fd p k)"
  unfolding funcion_leer_def Let_def by (intro same_kept_rules same_sched_more) (auto dest: abierto_same path_same)

lemma cerrar_same: "same_kept k (funcion_cerrar K A fd pid d k)"
  unfolding funcion_cerrar_def Let_def by (intro same_kept_rules same_sched_more) (auto dest: abierto_same)

lemma borrar_same: "same_kept k (funcion_borrar K A junk fd pid d k)"
  unfolding funcion_borrar_def Let_def by (intro same_kept_rules same_sched_more) (auto dest: abierto_same)

lemma mover_same: "same_kept k (funcion_mover_cursor K fd b k)"
  unfolding funcion_mover_cursor_def Let_def
  by (intro same_kept_rules) (auto simp: same_kept_def intro!: same_sched_more dest: tabla_same)

lemma variables_same: "same_kept k (escribir_variable K fd b k)" "same_kept k (leer_variable K A fd b k)"
  unfolding escribir_variable_def leer_variable_def
  by (intro same_kept_rules; simp add: same_kept_rules split: list.split)+

lemma reservar_en_same: "same_sched k k1 \<Longrightarrow> same_kept k (reservar_en_pagina K A junk fd pid n i k1)"
  unfolding reservar_en_pagina_def modificar_pagina_def Let_def
  by (intro same_kept_rules same_sched_more) (auto dest: leer_pagina_same)

lemma nueva_pagina_same:
  "nueva_pagina_heap K A junk fd pid n k = Some r \<Longrightarrow> case r of Inl k1 \<Rightarrow> same_sched k k1 | Inr (i, k1) \<Rightarrow> same_sched k k1"
  unfolding nueva_pagina_heap_def tabla_heap_agregar_pagina_def
  by (auto simp: Let_def escribir_pagina_def responder_reservar_def split: prod.splits if_splits bind_splits
      intro!: same_sched_more dest!: same_keptD [OF same_kept_basic(3), rotated])

lemma reservar_same: "same_kept k (funcion_reservar K A junk fd pid n k)"
  unfolding funcion_reservar_def Let_def
  by (intro same_kept_rules same_sched_more) (auto simp: same_kept_basic dest!: nueva_pagina_same intro: reservar_en_same split: sum.splits)

lemma defragmentar_same: "defragmentar K junk pg pedido k1 = Some (pg', k2) \<Longrightarrow> same_sched k k1 \<Longrightarrow> same_sched k k2"
  by (auto simp: defragmentar_def split: bind_splits if_splits dest: same_keptD [OF same_kept_basic(9), rotated])

lemma liberar_same: "same_kept k (funcion_liberar K A junk fd pedido k)"
  unfolding funcion_liberar_def liberar_pagina_def tabla_heap_sacar_pagina_def Let_def
  by (intro same_kept_rules same_sched_more) (auto dest: leer_pagina_same [OF _ same_sched_refl] defragmentar_same)

section \<open>Events and the transitions of the scheduler\<close>

text \<open>A process that has left the queue of new programs can be killed without disturbing the books.\<close>

definition admitido :: "u32 \<Rightarrow> kernel \<Rightarrow> bool" where
  "admitido pid k \<longleftrightarrow> (\<forall>np \<in> set (cola_nuevos k). pcb_pid (np_pcb np) \<noteq> ucast pid)"

context kernel_commons
begin

lemma exit_frame:
  assumes "pasar_proceso_a_exit K junk pid k = Some (b, k')" "admitido pid k"
  shows "cola_nuevos k' = cola_nuevos k \<and> tabla_sockets_procesos k' = tabla_sockets_procesos k"
proof -
  have "remove_first (\<lambda>p. pcb_pid (np_pcb p) = ucast pid) (cola_nuevos k) = (None, cola_nuevos k)"
    using assms(2) by (intro remove_first_None) (auto simp: admitido_def)
  then show ?thesis
    using assms(1) by (auto simp: pasar_proceso_a_exit_def sacar_pcb_de_nuevo_def coll_simps finalizar_sacado_def sacar_de_semaforos_def
        finalizar_en_memoria_def update_cpu_def Let_def split: prod.splits option.splits if_splits)
qed

lemma exit_keeps:
  assumes "pasar_proceso_a_exit K junk pid k = Some (b, k')" "admitido pid k" "sched_inv k" "once_each k"
  shows "Kernel_Sched_Props.keeps k k'"
  using kill_keeps [OF assms(3) _ once_eachD [OF assms(4)] assms(1)] assms(2) by (simp add: admitido_def)

lemma kill_consola_keeps:
  assumes "kill_consola K A junk pid k = Some k'" "admitido pid k" "sched_inv k" "once_each k"
  shows "Kernel_Sched_Props.keeps k k'"
proof -
  obtain b k1 where x: "pasar_proceso_a_exit K junk pid k = Some (b, k1)"
    using assms(1) by (auto simp: kill_consola_def split: bind_splits)
  have "same_sched k1 k'" using assms(1) x by (auto simp: kill_consola_def split: bind_splits if_splits dest: send_to_same)
  then show ?thesis using keeps_same_right exit_keeps [OF x assms(2-4)] by blast
qed

lemma desconexion_consola_keeps:
  assumes "desconexion_consola K junk fd k = Some k'" "sched_inv k" "once_each k"
    "\<forall>par \<in> set (tabla_sockets_procesos k). par_socket par = fd \<longrightarrow> admitido (par_pid par) k"
  shows "Kernel_Sched_Props.keeps k k'"
proof -
  let ?P = "\<lambda>L junk fd k k'. L = K \<longrightarrow> sched_inv k \<longrightarrow> once_each k \<longrightarrow>
    (\<forall>par \<in> set (tabla_sockets_procesos k). par_socket par = fd \<longrightarrow> admitido (par_pid par) k) \<longrightarrow> Kernel_Sched_Props.keeps k k'"
  have "?P K junk fd k k'"
  proof (rule desconexion_consola.raw_induct [where P = ?P, OF _ assms(1)])
    fix rec L junk fd k k'
    assume IH: "\<And>L junk fd k k'. rec L junk fd k = Some k' \<Longrightarrow> ?P L junk fd k k'"
      and step: "(case buscar_proceso_por_socket L fd k of (None, k1) \<Rightarrow> Some k1
        | (Some q, k1) \<Rightarrow> pasar_proceso_a_exit L junk (par_pid q) k1 \<bind> (\<lambda>(_, k2). rec L junk fd k2)) = Some k'"
    show "?P L junk fd k k'"
    proof (intro impI)
      assume L: "L = K" and inv: "sched_inv k" "once_each k"
        and ok: "\<forall>par \<in> set (tabla_sockets_procesos k). par_socket par = fd \<longrightarrow> admitido (par_pid par) k"
      obtain par l where r: "remove_first (\<lambda>p. par_socket p = fd) (tabla_sockets_procesos k) = (par, l)" by fastforce
      let ?k = "k\<lparr>tabla_sockets_procesos := l\<rparr>"
      have same: "same_sched k ?k" by simp
      show "Kernel_Sched_Props.keeps k k'"
      proof (cases par)
        case None
        then show ?thesis using step r inv(1) by (auto simp add: L buscar_proceso_por_socket_def coll_simps keeps_same)
      next
        case (Some q)
        have q: "par_socket q = fd" "q \<in> set (tabla_sockets_procesos k)" "set l \<subseteq> set (tabla_sockets_procesos k)"
          using remove_first_Some [OF r [unfolded Some]] by auto
        obtain b k2 where x: "pasar_proceso_a_exit K junk (par_pid q) ?k = Some (b, k2)" and rec: "rec K junk fd k2 = Some k'"
          using step r Some by (auto simp: L buscar_proceso_por_socket_def coll_simps bind_eq_Some_conv)
        have a: "admitido (par_pid q) ?k" using ok q by (simp add: admitido_def)
        have k2: "Kernel_Sched_Props.keeps k k2"
          using exit_keeps [OF x a] inv keeps_same_left [OF _ same] by (simp add: same_sched_inv [OF same] once_each_def)
        have "\<forall>par \<in> set (tabla_sockets_procesos k2). par_socket par = fd \<longrightarrow> admitido (par_pid par) k2"
          using ok q(3) exit_frame [OF x a] by (auto simp: admitido_def)
        then have "Kernel_Sched_Props.keeps k2 k'"
          using IH [OF rec] k2 inv(2) by (auto simp: Kernel_Sched_Props.keeps_def once_each_def)
        then show ?thesis using k2 by (simp add: Kernel_Sched_Props.keeps_def)
      qed
    qed
  qed
  then show ?thesis using assms by blast
qed

end

text \<open>
  What an event must respect: a new program gets a pid that is not in use, a CPU returns the PCB it was given, a
  process whose instruction blocks it has not been killed meanwhile, a killed program has been admitted, a CPU that
  goes is busy.
\<close>

definition request_ok :: "kernel_lib \<Rightarrow> u32 \<Rightarrow> byte \<Rightarrow> payload \<Rightarrow> kernel \<Rightarrow> bool" where
  "request_ok K fd oc request k = (case request of
     Archivo a \<Rightarrow> True
   | Raw b \<Rightarrow>
       if oc = OC_SOLICITUD_PROGRAMA_NUEVO then ucast (registro_pid k) \<notin># procs k
       else if oc \<in> {OC_TERMINA_PROGRAMA, OC_DESCONEX_CPU, OC_ERROR_EJECUCION_CPU, OC_TERMINO_INSTRUCCION}
       then (case deserializer_pcb (label_dict K) b of None \<Rightarrow> True | Some p \<Rightarrow>
         runs K fd (pcb_pid p) k \<and> (oc = OC_TERMINO_INSTRUCCION \<longrightarrow> \<not> killed_while_waiting K fd k))
       else if oc = OC_KILL_CONSOLA then (case u32_at 0 b of None \<Rightarrow> True | Some pid \<Rightarrow> admitido pid k)
       else True)"

definition desconexion_ok :: "kernel_lib \<Rightarrow> puerto \<Rightarrow> u32 \<Rightarrow> kernel \<Rightarrow> bool" where
  "desconexion_ok K port fd k = (case port of
     Puerto_cpu \<Rightarrow> (\<exists>p \<in> set (map proceso_asignado (lista_cpu k)). case p of None \<Rightarrow> False | Some q \<Rightarrow> runs K fd (pcb_pid q) k)
   | Puerto_programas \<Rightarrow> (\<forall>par \<in> set (tabla_sockets_procesos k). par_socket par = fd \<longrightarrow> admitido (par_pid par) k))"

definition evento_ok :: "kernel_lib \<Rightarrow> abi \<Rightarrow> storage \<Rightarrow> evento \<Rightarrow> kernel \<Rightarrow> bool" where
  "evento_ok K A junk e k = (case e of
     Conexion port fd \<Rightarrow> True
   | Datos port fd \<Rightarrow> (case connection_recv A junk (clientes k fd) of
       None \<Rightarrow> True
     | Some (r, s) \<Rightarrow> if rc_ret r \<le> 0 then desconexion_ok K port fd k
         else (case (rc_oc r, rc_msg r) of (Some oc, Some request) \<Rightarrow> request_ok K fd oc request k | _ \<Rightarrow> True)))"

fun eventos_ok :: "kernel_lib \<Rightarrow> abi \<Rightarrow> storage \<Rightarrow> (c_str \<Rightarrow> t_metadata_program) \<Rightarrow> evento list \<Rightarrow> kernel \<Rightarrow> bool" where
  "eventos_ok K A junk meta [] k = True"
| "eventos_ok K A junk meta (e # es) k = (evento_ok K A junk e k \<and>
     (case seleccionado K A junk meta e k of None \<Rightarrow> True | Some k1 \<Rightarrow> eventos_ok K A junk meta es k1))"

definition books :: "kernel \<Rightarrow> kernel \<Rightarrow> bool" where
  "books k k' \<longleftrightarrow> sched_inv k' \<and> once_each k' \<and> procs k \<subseteq># procs k'"

definition books_kept :: "kernel \<Rightarrow> kernel option \<Rightarrow> bool" where
  "books_kept k m \<longleftrightarrow> (\<forall>k'. m = Some k' \<longrightarrow> books k k')"

lemma books_trans: "books k k1 \<Longrightarrow> books k1 k2 \<Longrightarrow> books k k2"
  using subset_mset.order_trans by (auto simp: books_def)

lemma books_same_left: "same_sched k k1 \<Longrightarrow> books k1 k2 \<Longrightarrow> books k k2"
  by (simp add: books_def same_sched_inv)

lemma books_kept_branch:
  "(\<And>x. v = Some x \<Longrightarrow> books_kept k (f x)) \<Longrightarrow> books_kept k (v \<bind> f)"
  "(c \<Longrightarrow> books_kept k m1) \<Longrightarrow> (\<not> c \<Longrightarrow> books_kept k m2) \<Longrightarrow> books_kept k (if c then m1 else m2)"
  by (auto simp: books_kept_def bind_eq_Some_conv)

context kernel_commons
begin

lemma books_kept_step: "(\<And>k'. m = Some k' \<Longrightarrow> kstep K A junk meta k k') \<Longrightarrow> sched_inv k \<Longrightarrow> once_each k \<Longrightarrow> books_kept k m"
  using kstep_keeps [OF kernel_commons_axioms] by (auto simp: books_kept_def books_def)

lemma books_kept_keeps: "(\<And>k'. m = Some k' \<Longrightarrow> Kernel_Sched_Props.keeps k k') \<Longrightarrow> once_each k \<Longrightarrow> books_kept k m"
  using keeps_once by (auto simp: books_kept_def books_def)

lemma books_kept_same: "same_kept k m \<Longrightarrow> sched_inv k \<Longrightarrow> once_each k \<Longrightarrow> books_kept k m"
  by (auto simp: same_kept_def intro: books_kept_keeps keeps_same)

lemma kill_books: "admitido pid k \<Longrightarrow> sched_inv k \<Longrightarrow> once_each k \<Longrightarrow> books_kept k (kill_consola K A junk pid k)"
  by (auto intro!: books_kept_keeps dest: kill_consola_keeps)

lemmas books_kept_quiet = same_kept_basic(1) same_kept_basic(2) [OF same_sched_refl] abrir_same escribir_same leer_same cerrar_same borrar_same
  mover_same variables_same reservar_same liberar_same

lemma request_keeps_books:
  assumes "request_ok K fd oc request k" and inv: "sched_inv k" "once_each k"
  shows "books_kept k (solve_request K A junk meta fd oc request k)"
proof (cases request)
  case (Archivo a)
  then show ?thesis by (auto simp: solve_request_def intro: books_kept_same [OF _ inv] books_kept_quiet)
next
  case (Raw b)
  show ?thesis
    unfolding solve_request_def Raw payload.case
    by (intro books_kept_branch; (rule kill_books [OF _ inv] | rule books_kept_same [OF _ inv], rule books_kept_quiet)?)
      (use assms(1) in \<open>auto simp: request_ok_def Raw source_consts intro!: books_kept_step [OF _ inv] intro: kstep.intros\<close>)
qed

lemma desconexion_keeps_books:
  assumes "desconexion_ok K port fd k" and inv: "sched_inv k" "once_each k"
  shows "books_kept k (desconexion K junk port fd k)"
proof (cases port)
  case Puerto_cpu
  with assms(1) obtain pid where "runs K fd pid k" by (auto simp: desconexion_ok_def split: option.splits)
  then show ?thesis by (auto simp: desconexion_def Puerto_cpu intro: books_kept_step [OF _ inv] kstep.lost)
next
  case Puerto_programas
  with assms(1) show ?thesis
    by (auto simp: desconexion_def desconexion_ok_def intro!: books_kept_keeps [OF _ inv(2)] desconexion_consola_keeps [OF _ inv])
qed

lemma evento_keeps_books:
  assumes "evento_ok K A junk e k" and inv: "sched_inv k" "once_each k"
  shows "books_kept k (seleccionado K A junk meta e k)"
proof (cases e)
  case (Conexion port fd)
  have "same_kept k (Some k)" by (rule same_kept_basic) simp
  then show ?thesis
    by (cases port) (auto simp: seleccionado_def Conexion nueva_conexion_def
        intro: books_kept_same [OF _ inv] books_kept_step [OF _ inv] kstep.connect)
next
  case (Datos port fd)
  show ?thesis
  proof (cases "connection_recv A junk (clientes k fd)")
    case None
    then show ?thesis by (simp add: seleccionado_def Datos atender_def books_kept_def)
  next
    case (Some rs)
    obtain r s where rs: "rs = (r, s)" by fastforce
    let ?k = "k\<lparr>clientes := (clientes k)(fd := s)\<rparr>"
    have same: "same_sched k ?k" by simp
    have inv': "sched_inv ?k" "once_each ?k" using inv by (simp_all add: same_sched_inv [OF same] once_each_def)
    have "books_kept ?k (seleccionado K A junk meta e k)"
    proof (cases "rc_ret r \<le> 0")
      case True
      then have "desconexion_ok K port fd ?k"
        using assms(1) by (cases port) (simp_all add: evento_ok_def Datos Some rs desconexion_ok_def runs_def obtener_cpu_def admitido_def
            cong: option.case_cong)
      from desconexion_keeps_books [OF this inv'] show ?thesis by (simp add: seleccionado_def Datos atender_def Some rs True)
    next
      case False
      have "request_ok K fd oc request ?k" if "rc_oc r = Some oc" "rc_msg r = Some request" for oc request
        using assms(1) that False
        by (simp add: evento_ok_def Datos Some rs request_ok_def runs_def killed_while_waiting_def obtener_cpu_def admitido_def procs_def
            cong: option.case_cong payload.case_cong if_cong)
      then show ?thesis
        by (auto simp: seleccionado_def Datos atender_def Some rs False intro!: books_kept_branch request_keeps_books inv')
    qed
    then show ?thesis using books_same_left [OF same] by (auto simp: books_kept_def)
  qed
qed

lemma select_keeps_books:
  assumes "manage_select K A junk meta es k = Some k'" "eventos_ok K A junk meta es k" "sched_inv k" "once_each k"
  shows "books k k'"
  using assms
proof (induction es arbitrary: k)
  case Nil
  then show ?case by (simp add: books_def)
next
  case (Cons e es)
  then obtain k1 where k1: "seleccionado K A junk meta e k = Some k1" "manage_select K A junk meta es k1 = Some k'"
    by (auto simp: bind_eq_Some_conv)
  have b: "books k k1"
    using evento_keeps_books [of A junk e k meta] Cons.prems(2-4) k1(1) by (simp add: books_kept_def)
  then have "books k1 k'" using Cons.IH [OF k1(2)] Cons.prems(2) k1(1) by (simp add: books_def)
  with b show ?case by (rule books_trans)
qed

end

section \<open>Properties of the event loop\<close>

text \<open>
  The event loop keeps the books of the scheduler.  Whatever events of the CPUs and of the consoles arrive in whatever order (new connections, every
  request of the protocol with whatever contents, lost connections), as long as each respects the conditions above, after
  them the invariant of the scheduler holds, no process is in two places, and every process that was in the system still is.
\<close>

theorem event_loop_keeps_books:
  assumes "kernel_commons K" and "manage_select K A junk meta es k = Some k'" and "eventos_ok K A junk meta es k"
    and "sched_inv k" and "once_each k"
  shows "sched_inv k' \<and> once_each k' \<and> procs k \<subseteq># procs k'"
  using kernel_commons.select_keeps_books [OF assms] by (simp add: books_def)

theorem event_loop_keeps_books_witness:
  "\<exists>k'. manage_select seq_kernel_lib abi32 (\<lambda>_. 0) (\<lambda>_. undefined) [Conexion Puerto_cpu 9, Conexion Puerto_programas 10, Datos Puerto_cpu 7]
      (demo_kernel [] []) = Some k' \<and> sched_inv k' \<and> once_each k' \<and> procs (demo_kernel [] []) \<subseteq># procs k'"
proof -
  let ?es = "[Conexion Puerto_cpu 9, Conexion Puerto_programas 10, Datos Puerto_cpu 7]"
  let ?k = "demo_kernel [] []"
  have inv: "sched_inv ?k" "once_each ?k"
    by (simp_all add: sched_inv_def once_each_def procs_def demo_kernel_def demo_cpu_entry_def cpu_ok_def cpu_pids_def)
  obtain k' where "manage_select seq_kernel_lib abi32 (\<lambda>_. 0) (\<lambda>_. undefined) ?es ?k = Some k'"
    and "eventos_ok seq_kernel_lib abi32 (\<lambda>_. 0) (\<lambda>_. undefined) ?es ?k"
    by (simp add: seleccionado_def nueva_conexion_def conectar_cpu_def send_to_def connection_send_def message_size_def code_lists source_consts
        socket_send_def atender_def connection_recv_def socket_recv_def desconexion_def desconexion_cpu_def evento_ok_def desconexion_ok_def
        runs_def obtener_cpu_def demo_simps cpu_create_def)
  with event_loop_keeps_books [OF seq_kernel.kernel_commons_axioms _ _ inv] show ?thesis by blast
qed

text \<open>
  A request reaches its handler as it was sent.  Let a client send a message whose code the kernel receives as raw bytes.  When these bytes are what comes next on its
  connection, the event loop runs the handler of exactly that code on exactly these bytes, and what follows them stays for the
  next event; an ended connection is handled as a disconnection of its port.
\<close>

theorem request_reaches_handler:
  assumes "connection_send A oc msg c = Some (ret, c')" and "oc \<in> set raw_codes"
  shows "\<exists>frame. sk_out c' = sk_out c @ frame \<and>
    (\<forall>K meta port fd k rest. sk_in (clientes k fd) = frame @ rest \<longrightarrow>
       atender K A junk meta port fd k = solve_request K A junk meta fd oc (Raw (sent_bytes A oc msg))
         (k\<lparr>clientes := (clientes k)(fd := (clientes k fd)\<lparr>sk_in := rest\<rparr>)\<rparr>)) \<and>
    (\<forall>K meta port fd k. sk_in (clientes k fd) = [] \<longrightarrow>
       atender K A junk meta port fd k = desconexion K junk port fd k)"
proof -
  from recv_sent [OF assms(1), of junk] obtain frame where f: "sk_out c' = sk_out c @ frame"
    "sk_in s = frame @ rest \<Longrightarrow> connection_recv A junk s =
       Some (\<lparr>rc_ret = 9, rc_oc = Some oc, rc_msg = Some (Raw (sent_bytes A oc msg))\<rparr>, s\<lparr>sk_in := rest\<rparr>)" for s rest
    by (auto simp: recv_body_raw [OF assms(2)])
  have "connection_recv A junk s = Some (\<lparr>rc_ret = 0, rc_oc = None, rc_msg = None\<rparr>, s)" if "sk_in s = []" for s
    using that by (simp add: connection_recv_def socket_recv_def)
  with f show ?thesis by (intro exI [of _ frame]) (simp add: atender_def)
qed

theorem request_reaches_handler_witness:
  "\<exists>frame. sk_out (snd (the (connection_send abi32 OC_FUNCION_LEER (Mem (replicate 16 0)) \<lparr>sk_in = [], sk_out = []\<rparr>))) = frame \<and>
    (\<forall>k. sk_in (clientes k 7) = frame \<longrightarrow> atender seq_kernel_lib abi32 (\<lambda>_. 0) (\<lambda>_. undefined) Puerto_cpu 7 k =
      solve_request seq_kernel_lib abi32 (\<lambda>_. 0) (\<lambda>_. undefined) 7 OC_FUNCION_LEER (Raw (replicate 16 0))
        (k\<lparr>clientes := (clientes k)(7 := (clientes k 7)\<lparr>sk_in := []\<rparr>)\<rparr>))"
proof -
  have m: "message_size abi32 OC_FUNCION_LEER (replicate 16 0) = Some 16"
    by (simp add: message_size_def code_lists source_consts)
  have "connection_send abi32 OC_FUNCION_LEER (Mem (replicate 16 0)) \<lparr>sk_in = [], sk_out = []\<rparr> =
     Some (21, \<lparr>sk_in = [], sk_out = [OC_FUNCION_LEER] @ u32_bytes 16 @ replicate 16 0\<rparr>)"
    by (simp add: connection_send_def m socket_send_def) (simp add: code_lists source_consts)
  from request_reaches_handler [OF this, of "\<lambda>_. 0"] this show ?thesis
    by (simp add: sent_bytes_def m) (simp add: code_lists)
qed

end
