(* ===== verification/Ejecucion.thy ===== *)
theory Ejecucion
  imports CPU_Main Kernel_Select
begin

text \<open>
  The kernel and the CPU together: a process control block goes from the short-term scheduler (\<open>pasarDeReadyAExecute\<close>) to the loop of the CPU
  (\<open>main\<close> of \<open>cpu.c\<close>), the CPU reports (\<open>serializar_y_enviar_PCB\<close>) to the event loop of the kernel (\<open>manage_select\<close>), and the kernel's answer decides
  who has the process next.  A connection joins the two processes: what one appends to \<open>sk_out\<close> is what the other finds in \<open>sk_in\<close>.
\<close>

section \<open>A process control block on a connection\<close>

lemma stream_raw: "oc \<in> set stream_codes \<Longrightarrow> oc \<in> set raw_codes"
  by (auto simp: raw_codes_def)

lemma raw_crosses:
  assumes "connection_send A oc msg c = Some (ret, c')" "oc \<in> set raw_codes"
  obtains frame where "sk_out c' = sk_out c @ frame" "sk_in c' = sk_in c"
    "\<And>s rest. sk_in s = frame @ rest \<Longrightarrow> connection_recv A junk s =
       Some (\<lparr>rc_ret = 9, rc_oc = Some oc, rc_msg = Some (Raw (sent_bytes A oc msg))\<rparr>, s\<lparr>sk_in := rest\<rparr>)"
proof -
  have "sk_in c' = sk_in c"
    using assms(1) by (auto simp: connection_send_def socket_send_def split: bind_splits if_splits prod.splits)
  then show ?thesis
    using that recv_sent [OF assms(1), of junk] by (auto simp: recv_body_raw [OF assms(2)])
qed

lemma pcb_crosses:
  assumes laws: "dictionary_laws D" and p: "pcb_ok p" "6 \<le> sz_pcb A" and oc: "oc \<in> set stream_codes"
    and send: "pcb_serializer (sz_pcb A) junk p = Some paquete" "connection_send A oc (Stream paquete) c = Some (ret, c')"
  obtains frame b d where "sk_out c' = sk_out c @ frame" "sk_in c' = sk_in c"
    "\<And>s rest. sk_in s = frame @ rest \<Longrightarrow> connection_recv A junk' s =
       Some (\<lparr>rc_ret = 9, rc_oc = Some oc, rc_msg = Some (Raw b)\<rparr>, s\<lparr>sk_in := rest\<rparr>)"
    "deserializer_pcb D b = Some (p\<lparr>indice_etiquetas := d\<rparr>)" "map_of d = map_of (indice_etiquetas p)"
proof -
  obtain d where d: "st_length paquete = length (st_data paquete)"
      "deserializer_pcb D (st_data paquete) = Some (p\<lparr>indice_etiquetas := d\<rparr>)" "map_of d = map_of (indice_etiquetas p)"
    using dictionary_laws.pcb_roundtrip [OF laws p send(1)] by auto
  have "sent_bytes A oc (Stream paquete) = st_data paquete" by (simp add: sent_bytes_def d(1))
  then show ?thesis using raw_crosses [OF send(2) stream_raw [OF oc], of junk'] that d(2,3) by metis
qed

section \<open>From the ready queue to the CPU\<close>

context kernel_commons
begin

lemma dispatch_sends:
  assumes run: "pasarDeReadyAExecute K A junk k = Some k'"
    and q: "cola_listos k = p # ps" and i: "find_index libre (lista_cpu k) = Some i"
  obtains paquete ret c' where "pcb_serializer (sz_pcb A) junk p = Some paquete"
    "connection_send A OC_PCB (Stream paquete) (clientes k (file_descriptor (lista_cpu k ! i))) = Some (ret, c')"
    "clientes k' (file_descriptor (lista_cpu k ! i)) = c'" "cola_listos k' = ps"
    "lista_cpu k' = (lista_cpu k)[i := (lista_cpu k ! i)\<lparr>libre := False, proceso_asignado := Some p\<rparr>]"
  using assms that
  by (auto simp: pasarDeReadyAExecute_def coll_simps pop_front_def Let_def enviar_PCB_def send_to_def update_cpu_def split: if_splits bind_splits)

end

text \<open>
  C11: A process that the short-term scheduler puts on a free CPU is the process that the CPU executes.  The kernel takes the head of the ready
  queue, marks the CPU as busy with it and sends exactly one message on that CPU's connection; the loop of the CPU, which waits for a process,
  takes just this message and then holds the same process control block, with the same labels (the order of the entries of their dictionary apart).
\<close>

theorem dispatch_reaches_cpu:
  assumes "kernel_commons K" "cpu_commons C" "pasarDeReadyAExecute K A junk k = Some k'"
    and "cola_listos k = p # ps" "find_index libre (lista_cpu k) = Some i" "pcb_ok p" "6 \<le> sz_pcb A"
  shows "\<exists>frame d. sk_out (clientes k' (file_descriptor (lista_cpu k ! i))) = sk_out (clientes k (file_descriptor (lista_cpu k ! i))) @ frame \<and>
    cola_listos k' = ps \<and> \<not> libre (lista_cpu k' ! i) \<and> proceso_asignado (lista_cpu k' ! i) = Some p \<and>
    map_of d = map_of (indice_etiquetas p) \<and>
    (\<forall>lp rest. sk_in (server_socket_kernel (cl_cpu lp)) = frame @ rest \<longrightarrow>
      recibir_PCB C A junk' lp = Some (False, lp\<lparr>cl_cpu := (cl_cpu lp)\<lparr>server_socket_kernel := (server_socket_kernel (cl_cpu lp))\<lparr>sk_in := rest\<rparr>,
        pcb := p\<lparr>indice_etiquetas := d\<rparr>\<rparr>, operation_code := OC_PCB\<rparr>))"
proof -
  have len: "i < length (lista_cpu k)" using assms(5) by (simp add: find_index_Some_iff)
  obtain paquete ret c' where s: "pcb_serializer (sz_pcb A) junk p = Some paquete"
    "connection_send A OC_PCB (Stream paquete) (clientes k (file_descriptor (lista_cpu k ! i))) = Some (ret, c')"
    "clientes k' (file_descriptor (lista_cpu k ! i)) = c'" "cola_listos k' = ps"
    "lista_cpu k' = (lista_cpu k)[i := (lista_cpu k ! i)\<lparr>libre := False, proceso_asignado := Some p\<rparr>]"
    using kernel_commons.dispatch_sends [OF assms(1,3-5)] by blast
  have oc: "OC_PCB \<in> set stream_codes" by (simp add: stream_codes_def)
  obtain frame b d where f: "sk_out c' = sk_out (clientes k (file_descriptor (lista_cpu k ! i))) @ frame"
    "sk_in c' = sk_in (clientes k (file_descriptor (lista_cpu k ! i)))"
    "\<And>s rest. sk_in s = frame @ rest \<Longrightarrow> connection_recv A junk' s =
       Some (\<lparr>rc_ret = 9, rc_oc = Some OC_PCB, rc_msg = Some (Raw b)\<rparr>, s\<lparr>sk_in := rest\<rparr>)"
    "deserializer_pcb (dict C) b = Some (p\<lparr>indice_etiquetas := d\<rparr>)" "map_of d = map_of (indice_etiquetas p)"
    by (rule pcb_crosses [where junk' = junk', OF cpu_commons.dict_laws [OF assms(2)] assms(6,7) oc s(1,2)]) (rule that)
  show ?thesis
    by (intro exI [of _ frame] exI [of _ d] conjI allI impI) (simp_all add: f s len recibir_PCB_def)
qed

theorem dispatch_reaches_cpu_witness:
  "\<exists>k' frame d. pasarDeReadyAExecute seq_kernel_lib abi32 (\<lambda>_. 0) ((demo_kernel [] [])\<lparr>cola_listos := [demo_pcb],
      semCantidadElementosColaListos := 1, semCantidadCpuLibres := 1, lista_cpu := [cpu_create 7]\<rparr>) = Some k' \<and>
    sk_out (clientes k' 7) = frame \<and> map_of d = map_of (indice_etiquetas demo_pcb) \<and>
    map_option fst (recibir_PCB seq_cpu_lib abi32 (\<lambda>_. 0) \<lparr>cl_cpu = demo_cpu\<lparr>server_socket_kernel := \<lparr>sk_in = frame, sk_out = []\<rparr>\<rparr>,
      operation_code = 0, continuar = - 1, quantum_sleep = 0\<rparr>) = Some False"
proof -
  let ?k = "(demo_kernel [] [])\<lparr>cola_listos := [demo_pcb], semCantidadElementosColaListos := 1, semCantidadCpuLibres := 1, lista_cpu := [cpu_create 7]\<rparr>"
  have q: "cola_listos ?k = demo_pcb # []" "find_index libre (lista_cpu ?k) = Some 0" by (simp_all add: cpu_create_def)
  have A: "6 \<le> sz_pcb abi32" by (simp add: abi32_def)
  obtain k' where k': "pasarDeReadyAExecute seq_kernel_lib abi32 (\<lambda>_. 0) ?k = Some k'"
    using that
    by (rule demo_stream) (simp add: pasarDeReadyAExecute_def seq_kernel_lib_def seq_coll_def pop_front_def cpu_create_def enviar_PCB_def
        send_to_def update_cpu_def connection_send_def stream_codes_def demo_kernel_def)
  show ?thesis
    using dispatch_reaches_cpu [OF seq_kernel.kernel_commons_axioms seq_cpu.cpu_commons_axioms k' q demo_pcb_ok A, of "\<lambda>_. 0"] k'
    by (auto simp: cpu_create_def)
qed

section \<open>From the CPU to the event loop\<close>

text \<open>
  C12: What a CPU reports, the kernel handles.  When the loop of the CPU sends its process control block, one message goes out with the code of the
  report.  When these bytes are what comes next on the CPU's connection, the event loop of the kernel runs exactly the handler of that report
  (end of the program, disconnection, error, end of an instruction) with the process control block of the CPU, the order of its
  labels apart, and what follows on the connection stays for the next event.
\<close>

theorem report_reaches_kernel:
  assumes "kernel_commons K" "serializar_y_enviar_PCB A junk (report_code st) st = Some st'" "pcb_ok (pcb st)" "6 \<le> sz_pcb A"
  shows "\<exists>frame d. sk_out (server_socket_kernel st') = sk_out (server_socket_kernel st) @ frame \<and>
    map_of d = map_of (indice_etiquetas (pcb st)) \<and>
    (\<forall>meta port fd k rest. sk_in (clientes k fd) = frame @ rest \<longrightarrow>
      atender K A junk' meta port fd k =
        (let k1 = k\<lparr>clientes := (clientes k)(fd := (clientes k fd)\<lparr>sk_in := rest\<rparr>)\<rparr>; p = (pcb st)\<lparr>indice_etiquetas := d\<rparr>
         in if exit_code (pcb st) = ucast OC_TERMINA_PROGRAMA then termina_programa K A junk' fd p k1
            else if flagDesconeccion st then desconex_cpu K fd p k1
            else if sint (exit_code (pcb st)) < 0 then error_ejecucion_cpu K A junk' fd p k1
            else termino_instruccion K A junk' fd p k1))"
proof -
  obtain paquete ret c' where s: "pcb_serializer (sz_pcb A) junk (pcb st) = Some paquete"
    "connection_send A (report_code st) (Stream paquete) (server_socket_kernel st) = Some (ret, c')" "server_socket_kernel st' = c'"
    using assms(2) by (auto simp: serializar_y_enviar_PCB_def kernel_send_def split: bind_splits)
  have oc: "report_code st \<in> set stream_codes" by (simp add: report_code_def stream_codes_def)
  obtain frame b d where f: "sk_out c' = sk_out (server_socket_kernel st) @ frame" "sk_in c' = sk_in (server_socket_kernel st)"
    "\<And>s rest. sk_in s = frame @ rest \<Longrightarrow> connection_recv A junk' s =
       Some (\<lparr>rc_ret = 9, rc_oc = Some (report_code st), rc_msg = Some (Raw b)\<rparr>, s\<lparr>sk_in := rest\<rparr>)"
    "deserializer_pcb (label_dict K) b = Some ((pcb st)\<lparr>indice_etiquetas := d\<rparr>)" "map_of d = map_of (indice_etiquetas (pcb st))"
    by (rule pcb_crosses [where junk' = junk', OF kernel_commons.label_dict [OF assms(1)] assms(3,4) oc s(1,2)]) (rule that)
  show ?thesis
    by (intro exI [of _ frame] exI [of _ d] conjI allI impI)
      (simp_all add: f s atender_def Let_def solve_request_def report_code_def source_consts)
qed

theorem report_reaches_kernel_witness:
  "\<exists>st' frame d. serializar_y_enviar_PCB abi32 (\<lambda>_. 0) OC_DESCONEX_CPU (demo_cpu\<lparr>flagDesconeccion := True\<rparr>) = Some st' \<and>
    sk_out (server_socket_kernel st') = frame \<and>
    (\<forall>k. sk_in (clientes k 7) = frame \<longrightarrow>
      atender seq_kernel_lib abi32 (\<lambda>_. 0) (\<lambda>_. undefined) Puerto_cpu 7 k =
        desconex_cpu seq_kernel_lib 7 (demo_pcb\<lparr>indice_etiquetas := d\<rparr>) (k\<lparr>clientes := (clientes k)(7 := (clientes k 7)\<lparr>sk_in := []\<rparr>)\<rparr>))"
proof -
  let ?st = "demo_cpu\<lparr>flagDesconeccion := True\<rparr>"
  have fields: "pcb ?st = demo_pcb" "flagDesconeccion ?st" "exit_code demo_pcb = 0" "sk_out (server_socket_kernel ?st) = []"
    by (simp_all add: demo_cpu_def demo_pcb_def)
  have oc: "report_code ?st = OC_DESCONEX_CPU" by (simp add: report_code_def fields source_consts)
  have "serializar_y_enviar_PCB abi32 (\<lambda>_. 0) OC_DESCONEX_CPU ?st \<noteq> None"
    by (rule demo_stream) (simp add: serializar_y_enviar_PCB_def kernel_send_def connection_send_def stream_codes_def demo_cpu_def)
  then obtain st' where st': "serializar_y_enviar_PCB abi32 (\<lambda>_. 0) (report_code ?st) ?st = Some st'" by (auto simp: oc)
  have "6 \<le> sz_pcb abi32" by (simp add: abi32_def)
  then show ?thesis
    using report_reaches_kernel [OF seq_kernel.kernel_commons_axioms st', of "\<lambda>_. 0"] st'
    unfolding oc fields(1,4) by (auto simp: fields demo_pcb_ok source_consts Let_def)
qed

section \<open>The answer of the kernel\<close>

context kernel_commons
begin

lemma aplicar_wait_frame:
  assumes "aplicar_wait K i k = Some k1"
  shows "clientes k1 = clientes k \<and> tabla_sockets_procesos k1 = tabla_sockets_procesos k \<and> kernel_conf k1 = kernel_conf k \<and>
    length (lista_cpu k1) = length (lista_cpu k) \<and> (i < length (lista_cpu k) \<longrightarrow> libre (lista_cpu k1 ! i) = libre (lista_cpu k ! i))"
  using assms by (auto simp: aplicar_wait_def pasarDeExecuteABlocked_def update_cpu_def update_sem_def Let_def split: if_splits bind_splits)

lemma avisar_consola_frame:
  assumes "avisar_consola K A pid k = Some k'" "\<forall>par \<in> set (tabla_sockets_procesos k). par_socket par \<noteq> fd"
  shows "clientes k' fd = clientes k fd \<and> lista_cpu k' = lista_cpu k \<and> kernel_conf k' = kernel_conf k"
  using assms by (auto simp: avisar_consola_def encontrar_consola_de_pcb_def coll_simps send_to_def find_index_Some_iff split: option.splits)

lemma termino_answer:
  assumes run: "termino_instruccion K A junk fd p k = Some k'" and i: "obtener_cpu K fd k = Some i" and busy: "\<not> libre (lista_cpu k ! i)"
    and consolas: "\<forall>par \<in> set (tabla_sockets_procesos k). par_socket par \<noteq> fd"
  obtains n ret where "connection_send A OC_RESP_TERMINO_INSTRUCCION (Mem (u32_bytes n)) (clientes k fd) = Some (ret, clientes k' fd)"
    "if libre (lista_cpu k' ! i) then n = - 1 else n = conf_quantum_sleep (kernel_conf k)"
proof -
  have len: "i < length (lista_cpu k)" using i by (simp add: obtener_cpu_def coll_simps find_index_Some_iff)
  define p1 where "p1 = (if matar_proceso (lista_cpu k ! i) then p\<lparr>exit_code := - 77\<rparr> else p)"
  obtain k1 where k1: "aplicar_wait K i (update_cpu i (\<lambda>c. c\<lparr>proceso_asignado := Some p1\<rparr>) k) = Some k1"
    using run i by (auto simp: termino_instruccion_def p1_def Let_def split: bind_splits)
  have f: "clientes k1 = clientes k" "tabla_sockets_procesos k1 = tabla_sockets_procesos k" "kernel_conf k1 = kernel_conf k"
      "i < length (lista_cpu k1)" "\<not> libre (lista_cpu k1 ! i)"
    using aplicar_wait_frame [OF k1] len busy by (simp_all add: update_cpu_def)
  note run' = run [unfolded termino_instruccion_def i Let_def bind.simps, folded p1_def, unfolded k1 bind.simps]
  note defs = send_to_def liberar_cpu_def update_cpu_def pasarDeExecuteAExit_def finalizar_en_memoria_def cola_listos_push_def Let_def
  consider (matar) "matar_proceso (lista_cpu k ! i)" | (wait) "\<not> matar_proceso (lista_cpu k ! i)" "proceso_bloqueado_por_wait (lista_cpu k1 ! i)"
    | (sigue) "\<not> matar_proceso (lista_cpu k ! i)" "\<not> proceso_bloqueado_por_wait (lista_cpu k1 ! i)"
    by blast
  then show ?thesis
  proof cases
    case matar
    obtain k2 where k2: "avisar_consola K A (ucast (pcb_pid p)) k1 = Some k2"
      using run' matar by (auto split: bind_splits)
    have g: "clientes k2 fd = clientes k1 fd" "lista_cpu k2 = lista_cpu k1"
      using avisar_consola_frame [OF k2, of fd] consolas f(2) by simp_all
    show ?thesis
      using run' k2 matar that [of "- 1"] f g
      by (auto simp: defs split: bind_splits if_splits)
  next
    case wait
    then show ?thesis
      using run' that [of "- 1"] f by (auto simp: defs split: bind_splits if_splits)
  next
    case sigue
    then show ?thesis
      using run' that [of "- 1"] that [of "conf_quantum_sleep (kernel_conf k)"] f
      by (auto simp: continuar_procesando_def defs split: bind_splits if_splits prod.splits)
  qed
qed

end

text \<open>
  C13: After every instruction the kernel and the CPU agree who has the process.  When the kernel handles the report of an instruction, it sends
  exactly one answer on the CPU's connection; the CPU, which waits for this answer, takes it and stops with the process (\<open>continuar = -1\<close>, so that it
  waits for another one) exactly when the kernel has marked that CPU as free (the process was killed, waits for a semaphore, or has used up its
  quantum); otherwise it goes on with the same process, after the configured pause.
\<close>

theorem answer_decides_owner:
  assumes "kernel_commons K" "termino_instruccion K A junk fd p k = Some k'" "obtener_cpu K fd k = Some i" "\<not> libre (lista_cpu k ! i)"
    and "\<forall>par \<in> set (tabla_sockets_procesos k). par_socket par \<noteq> fd" "conf_quantum_sleep (kernel_conf k) \<noteq> - 1"
  shows "\<exists>frame n. sk_out (clientes k' fd) = sk_out (clientes k fd) @ frame \<and> (n = - 1 \<longleftrightarrow> libre (lista_cpu k' ! i)) \<and>
    (n \<noteq> - 1 \<longrightarrow> n = conf_quantum_sleep (kernel_conf k)) \<and>
    (\<forall>lp st1 rest. report_code (cl_cpu lp) = OC_TERMINO_INSTRUCCION \<longrightarrow>
      serializar_y_enviar_PCB A junk' OC_TERMINO_INSTRUCCION (cl_cpu lp) = Some st1 \<longrightarrow> sk_in (server_socket_kernel st1) = frame @ rest \<longrightarrow>
      informar A junk' lp = Some (Sigue (lp\<lparr>cl_cpu := st1\<lparr>server_socket_kernel := (server_socket_kernel st1)\<lparr>sk_in := rest\<rparr>\<rparr>,
        continuar := n, operation_code := OC_RESP_TERMINO_INSTRUCCION\<rparr>)))"
proof -
  obtain n ret where s: "connection_send A OC_RESP_TERMINO_INSTRUCCION (Mem (u32_bytes n)) (clientes k fd) = Some (ret, clientes k' fd)"
    and n: "if libre (lista_cpu k' ! i) then n = - 1 else n = conf_quantum_sleep (kernel_conf k)"
    by (rule kernel_commons.termino_answer [OF assms(1-5)])
  have oc: "OC_RESP_TERMINO_INSTRUCCION \<in> set raw_codes" by (simp add: raw_codes_def)
  have b: "sent_bytes A OC_RESP_TERMINO_INSTRUCCION (Mem (u32_bytes n)) = u32_bytes n"
    by (simp add: sent_bytes_def message_size_def code_lists source_consts)
  obtain frame where f: "sk_out (clientes k' fd) = sk_out (clientes k fd) @ frame" "sk_in (clientes k' fd) = sk_in (clientes k fd)"
    "\<And>s rest. sk_in s = frame @ rest \<Longrightarrow> connection_recv A junk' s =
       Some (\<lparr>rc_ret = 9, rc_oc = Some OC_RESP_TERMINO_INSTRUCCION, rc_msg = Some (Raw (u32_bytes n))\<rparr>, s\<lparr>sk_in := rest\<rparr>)"
    by (rule raw_crosses [where junk = junk', OF s oc, unfolded b]) (rule that)
  show ?thesis
    using n assms(6) f(1)
    by (intro exI [of _ frame] exI [of _ n] conjI allI impI) (auto simp: f(3) informar_def c_int_at_def source_consts split: if_splits)
qed

theorem answer_decides_owner_witness:
  "\<exists>k' frame. termino_instruccion seq_kernel_lib abi32 (\<lambda>_. 0) 7 (demo_pcb\<lparr>pcb_pid := 1\<rparr>) (demo_kernel [] []) = Some k' \<and>
    sk_out (clientes k' 7) = frame \<and> \<not> libre (lista_cpu k' ! 0) \<and>
    (\<exists>lp. informar abi32 (\<lambda>_. 0) \<lparr>cl_cpu = demo_cpu\<lparr>server_socket_kernel := \<lparr>sk_in = frame, sk_out = []\<rparr>\<rparr>,
      operation_code = OC_PCB, continuar = - 1, quantum_sleep = 0\<rparr> = Some (Sigue lp) \<and> continuar lp = conf_quantum_sleep demo_conf)"
proof -
  let ?k = "demo_kernel [] []"
  let ?lp = "\<lambda>frame. \<lparr>cl_cpu = demo_cpu\<lparr>server_socket_kernel := \<lparr>sk_in = frame, sk_out = []\<rparr>\<rparr>, operation_code = OC_PCB, continuar = - 1, quantum_sleep = 0\<rparr>"
  have i: "obtener_cpu seq_kernel_lib 7 ?k = Some 0" "\<not> libre (lista_cpu ?k ! 0)" by (simp_all add: obtener_cpu_def demo_simps)
  have c: "\<forall>par \<in> set (tabla_sockets_procesos ?k). par_socket par \<noteq> 7" by (simp add: demo_kernel_def)
  have q: "conf_quantum_sleep (kernel_conf ?k) \<noteq> - 1" "kernel_conf ?k = demo_conf" "sk_out (clientes ?k 7) = []"
    by (simp_all add: demo_kernel_def demo_conf_def)
  have "map_option (\<lambda>k'. libre (lista_cpu k' ! 0))
      (termino_instruccion seq_kernel_lib abi32 (\<lambda>_. 0) 7 (demo_pcb\<lparr>pcb_pid := 1\<rparr>) ?k) = Some False"
    by (simp add: termino_instruccion_def obtener_cpu_def aplicar_wait_def continuar_procesando_def es_round_robin_def update_cpu_def send_to_def
        connection_send_def message_size_def code_lists source_consts socket_send_def demo_simps demo_conf_def)
  then obtain k' where k': "termino_instruccion seq_kernel_lib abi32 (\<lambda>_. 0) 7 (demo_pcb\<lparr>pcb_pid := 1\<rparr>) ?k = Some k'" "\<not> libre (lista_cpu k' ! 0)"
    by auto
  have r: "report_code (cl_cpu (?lp frame)) = OC_TERMINO_INSTRUCCION" for frame
    by (simp add: report_code_def demo_cpu_def demo_pcb_def source_consts)
  have s: "\<exists>st1. serializar_y_enviar_PCB abi32 (\<lambda>_. 0) OC_TERMINO_INSTRUCCION (cl_cpu (?lp frame)) = Some st1 \<and>
      sk_in (server_socket_kernel st1) = frame @ []" for frame
    by (rule demo_stream) (simp add: serializar_y_enviar_PCB_def kernel_send_def connection_send_def socket_send_def stream_codes_def demo_cpu_def)
  obtain frame n where f: "sk_out (clientes k' 7) = frame" "n = conf_quantum_sleep demo_conf"
    "\<forall>lp st1 rest. report_code (cl_cpu lp) = OC_TERMINO_INSTRUCCION \<longrightarrow>
      serializar_y_enviar_PCB abi32 (\<lambda>_. 0) OC_TERMINO_INSTRUCCION (cl_cpu lp) = Some st1 \<longrightarrow> sk_in (server_socket_kernel st1) = frame @ rest \<longrightarrow>
      informar abi32 (\<lambda>_. 0) lp = Some (Sigue (lp\<lparr>cl_cpu := st1\<lparr>server_socket_kernel := (server_socket_kernel st1)\<lparr>sk_in := rest\<rparr>\<rparr>,
        continuar := n, operation_code := OC_RESP_TERMINO_INSTRUCCION\<rparr>))"
    using answer_decides_owner [OF seq_kernel.kernel_commons_axioms k'(1) i c q(1), of "\<lambda>_. 0"] k'(2)
    unfolding q(2,3) by auto
  obtain st1 where "serializar_y_enviar_PCB abi32 (\<lambda>_. 0) OC_TERMINO_INSTRUCCION (cl_cpu (?lp frame)) = Some st1"
    "sk_in (server_socket_kernel st1) = frame @ []" using s by blast
  from f(3) [rule_format, OF r this] show ?thesis
    using k' f(1,2) by auto
qed

end
