(* ===== verification/Kernel_Heap_Props.thy ===== *)
theory Kernel_Heap_Props
  imports Kernel_Heap
begin

text \<open>
  What the heap functions of the kernel guarantee.  A heap page is related to the list of its blocks:
  \<open>heap_bytes\<close> lays a list of blocks out as a page, and the functions on pages are shown to compute
  functions on block lists (\<open>alloc_block\<close>, \<open>free_block\<close>, \<open>join_first\<close>).  \<open>occupied\<close> collects the address
  and the content of the blocks in use, \<open>free_space\<close> is the number the table of heap pages keeps.
\<close>

section \<open>Pages as lists of blocks\<close>

record heap_block =
  hb_free :: bool
  hb_padding :: "byte list"
  hb_data :: "byte list"

definition block_metadata :: "heap_block \<Rightarrow> t_heapMetadata" where
  "block_metadata b = \<lparr>hm_size = word_of_nat (length (hb_data b)), hm_isFree = hb_free b, hm_padding = hb_padding b\<rparr>"

definition block_bytes :: "heap_block \<Rightarrow> byte list" where
  "block_bytes b = metadata_bytes (block_metadata b) @ hb_data b"

definition heap_bytes :: "heap_block list \<Rightarrow> byte list" where
  "heap_bytes bs = concat (map block_bytes bs)"

definition heap_ok :: "u32 \<Rightarrow> heap_block list \<Rightarrow> bool" where
  "heap_ok T bs \<longleftrightarrow> (\<forall>b \<in> set bs. length (hb_padding b) = 3) \<and> length (heap_bytes bs) = unat T \<and> unat T < 2 ^ 31"

fun occupied :: "nat \<Rightarrow> heap_block list \<Rightarrow> (nat \<times> byte list) set" where
  "occupied off [] = {}"
| "occupied off (b # bs) =
     (if hb_free b then {} else {(off + 8, hb_data b)}) \<union> occupied (off + 8 + length (hb_data b)) bs"

definition free_space :: "heap_block list \<Rightarrow> nat" where
  "free_space bs = sum_list (map (\<lambda>b. if hb_free b then length (hb_data b) else 0) bs)"

definition fits :: "u32 \<Rightarrow> heap_block \<Rightarrow> bool" where
  "fits espacio b \<longleftrightarrow> hb_free b \<and> unat espacio + 8 \<le> length (hb_data b)"

definition alloc_block :: "storage \<Rightarrow> nat \<Rightarrow> heap_block \<Rightarrow> heap_block list" where
  "alloc_block junk n b =
     [\<lparr>hb_free = False, hb_padding = fresh_padding junk, hb_data = take n (hb_data b)\<rparr>,
      \<lparr>hb_free = True, hb_padding = fresh_padding junk, hb_data = drop (n + 8) (hb_data b)\<rparr>]"

definition free_block :: "storage \<Rightarrow> heap_block \<Rightarrow> heap_block" where
  "free_block junk b = b\<lparr>hb_free := True, hb_padding := fresh_padding junk\<rparr>"

definition join_blocks :: "storage \<Rightarrow> heap_block \<Rightarrow> heap_block \<Rightarrow> heap_block" where
  "join_blocks junk a b = \<lparr>hb_free = True, hb_padding = fresh_padding junk, hb_data = hb_data a @ block_bytes b\<rparr>"

fun join_first :: "storage \<Rightarrow> heap_block list \<Rightarrow> heap_block list" where
  "join_first junk (a # b # bs) =
     (if hb_free a \<and> hb_free b then join_blocks junk a b # bs else a # join_first junk (b # bs))"
| "join_first junk bs = bs"

fun adjacent_free :: "heap_block list \<Rightarrow> bool" where
  "adjacent_free (a # b # bs) = (hb_free a \<and> hb_free b \<or> adjacent_free (b # bs))"
| "adjacent_free bs = False"

section \<open>Layout lemmas\<close>

lemma length_fresh_padding [simp]: "length (fresh_padding junk) = 3"
  by (simp add: fresh_padding_def)

lemma length_metadata_bytes [simp]: "length (hm_padding m) = 3 \<Longrightarrow> length (metadata_bytes m) = 8"
  by (simp add: metadata_bytes_def)

lemma length_block_bytes [simp]:
  "length (hb_padding b) = 3 \<Longrightarrow> length (block_bytes b) = 8 + length (hb_data b)"
  by (simp add: block_bytes_def block_metadata_def)

lemma heap_bytes_simps [simp]:
  "heap_bytes [] = []" "heap_bytes (b # bs) = block_bytes b @ heap_bytes bs"
  "heap_bytes (xs @ ys) = heap_bytes xs @ heap_bytes ys"
  by (simp_all add: heap_bytes_def)

lemma free_space_simps [simp]:
  "free_space [] = 0" "free_space (b # bs) = (if hb_free b then length (hb_data b) else 0) + free_space bs"
  "free_space (xs @ ys) = free_space xs + free_space ys"
  by (simp_all add: free_space_def)

lemma occupied_append:
  "\<forall>b \<in> set xs. length (hb_padding b) = 3 \<Longrightarrow>
   occupied off (xs @ ys) = occupied off xs \<union> occupied (off + length (heap_bytes xs)) ys"
  by (induction xs arbitrary: off) (auto simp: add.assoc)

lemma occupied_bounds:
  "\<forall>b \<in> set bs. length (hb_padding b) = 3 \<Longrightarrow> (p, d) \<in> occupied off bs \<Longrightarrow>
   off + 8 \<le> p \<and> p + length d \<le> off + length (heap_bytes bs)"
proof (induction bs arbitrary: off)
  case Nil
  then show ?case by simp
next
  case (Cons b bs)
  then show ?case by (fastforce split: if_splits)
qed

lemma leer_block:
  assumes "length (hb_padding b) = 3" "length (hb_data b) < 2 ^ 31"
  shows "leer_metadata junk (ps @ block_bytes b @ qs) (length ps) =
    Some \<lparr>hm_size = word_of_nat (length (hb_data b)), hm_isFree = hb_free b, hm_padding = fresh_padding junk\<rparr>"
  using assms
  by (simp add: leer_metadata_def mem_read_def block_bytes_def block_metadata_def metadata_bytes_def nth_append)

lemma poner_at:
  assumes "length old = 8" "length (hm_padding m) = 3"
  shows "poner_metadata (length ps) m (ps @ old @ qs) = Some (ps @ metadata_bytes m @ qs)"
  using assms by (simp add: poner_metadata_def mem_write_def)

lemma heap_okD:
  assumes "heap_ok T (xs @ b # ys)"
  shows "length (hb_padding b) = 3" "length (heap_bytes xs) + 8 + length (hb_data b) + length (heap_bytes ys) = unat T"
    "unat T < 2 ^ 31" "\<forall>b \<in> set xs. length (hb_padding b) = 3" "\<forall>b \<in> set ys. length (hb_padding b) = 3"
  using assms by (auto simp: heap_ok_def)

lemma less_u32_of_nat: "n < 2 ^ 32 \<Longrightarrow> (word_of_nat n :: u32) < T \<longleftrightarrow> n < unat T"
  by (simp add: word_less_nat_alt unat_of_nat_u32)

lemma fits_word:
  assumes "length (hb_data b) < 2 ^ 31" "unat espacio + 8 < 2 ^ 32"
  shows "hb_free b \<and> espacio + 8 \<le> (word_of_nat (length (hb_data b)) :: u32) \<longleftrightarrow> fits espacio b"
proof -
  have "unat (espacio + 8) = unat espacio + 8" using assms(2) by (simp add: unat_word_ariths)
  then show ?thesis using assms(1) by (simp add: fits_def word_le_nat_alt unat_of_nat_u32)
qed

section \<open>The search for a free block\<close>

lemma buscar_desde_blocks:
  assumes "heap_ok T (xs @ ys)" "unat espacio + 8 < 2 ^ 32"
  shows "buscar_desde T junk (heap_bytes (xs @ ys)) espacio (word_of_nat (length (heap_bytes xs))) =
    Some (case find_index (fits espacio) ys of None \<Rightarrow> 0
          | Some i \<Rightarrow> word_of_nat (length (heap_bytes (xs @ take i ys))))"
  using assms(1)
proof (induction ys arbitrary: xs)
  case Nil
  then show ?case by (subst buscar_desde.simps) (simp add: heap_ok_def less_u32_of_nat)
next
  case (Cons b ys)
  note ok = heap_okD [OF Cons.prems]
  have IH: "buscar_desde T junk (heap_bytes ((xs @ [b]) @ ys)) espacio (word_of_nat (length (heap_bytes (xs @ [b])))) =
    Some (case find_index (fits espacio) ys of None \<Rightarrow> 0
          | Some i \<Rightarrow> word_of_nat (length (heap_bytes ((xs @ [b]) @ take i ys))))"
    by (rule Cons.IH) (use Cons.prems in simp)
  have next_off: "(word_of_nat (length (heap_bytes xs)) :: u32) + 8 + word_of_nat (length (hb_data b)) =
      word_of_nat (length (heap_bytes (xs @ [b])))"
    using ok(1) by simp
  have w: "unat (word_of_nat (length (heap_bytes xs)) :: u32) = length (heap_bytes xs)"
    using ok(2,3) by (intro unat_of_nat_u32) simp
  have meta: "leer_metadata junk (heap_bytes (xs @ b # ys)) (length (heap_bytes xs)) =
      Some \<lparr>hm_size = word_of_nat (length (hb_data b)), hm_isFree = hb_free b, hm_padding = fresh_padding junk\<rparr>"
    using leer_block [of b junk "heap_bytes xs" "heap_bytes ys"] ok(1,2,3) by simp
  have lt: "(word_of_nat (length (heap_bytes xs)) :: u32) < T"
    using ok(2,3) by (simp add: less_u32_of_nat)
  have f: "hb_free b \<and> espacio + 8 \<le> (word_of_nat (length (hb_data b)) :: u32) \<longleftrightarrow> fits espacio b"
    by (rule fits_word) (use ok(2,3) assms(2) in simp_all)
  have step: "buscar_desde T junk (heap_bytes (xs @ b # ys)) espacio (word_of_nat (length (heap_bytes xs))) =
      (if fits espacio b then Some (word_of_nat (length (heap_bytes xs)))
       else buscar_desde T junk (heap_bytes (xs @ b # ys)) espacio (word_of_nat (length (heap_bytes (xs @ [b])))))"
    by (subst buscar_desde.simps) (simp only: lt w meta if_True bind.simps t_heapMetadata.simps f next_off)
  show ?case using step IH by (cases "fits espacio b") (simp_all split: option.splits)
qed

lemma buscar_bloque_blocks:
  assumes "heap_ok T bs" "unat espacio + 8 < 2 ^ 32"
  shows "buscar_bloque_disponible T junk (heap_bytes bs) espacio =
    Some (case find_index (fits espacio) bs of None \<Rightarrow> 0 | Some i \<Rightarrow> word_of_nat (length (heap_bytes (take i bs))))"
  using buscar_desde_blocks [of T "[]" bs espacio junk] assms
  by (simp add: buscar_bloque_disponible_def cong: option.case_cong)

section \<open>Reserving and freeing\<close>

lemma marcar_ocupado_blocks:
  assumes "heap_ok T (xs @ b # ys)" "fits espacio b"
  shows "marcar_bloque_ocupado junk (word_of_nat (length (heap_bytes xs))) (heap_bytes (xs @ b # ys)) espacio =
    Some (heap_bytes (xs @ alloc_block junk (unat espacio) b @ ys))"
proof -
  note ok = heap_okD [OF assms(1)]
  define n where "n = unat espacio"
  define M where "M = metadata_bytes (block_metadata b)"
  define d2 where "d2 = take 8 (drop n (hb_data b))"
  define M1 where "M1 = \<lparr>hm_size = espacio, hm_isFree = False, hm_padding = fresh_padding junk\<rparr>"
  define M2 where "M2 = crear_metadata_libre junk (word_of_nat (length (hb_data b)) - espacio)"
  have n: "n + 8 \<le> length (hb_data b)" using assms(2) by (simp add: fits_def n_def)
  have w: "unat (word_of_nat (length (heap_bytes xs)) :: u32) = length (heap_bytes xs)"
    using ok(2,3) by (intro unat_of_nat_u32) simp
  have d: "hb_data b = take n (hb_data b) @ d2 @ drop (n + 8) (hb_data b)"
    by (metis d2_def append_take_drop_id drop_drop add.commute)
  have l: "length M = 8" "length d2 = 8" "length (metadata_bytes M1) = 8" "length (hm_padding M2) = 3"
    using ok(1) n by (simp_all add: M_def block_metadata_def d2_def M1_def M2_def crear_metadata_libre_def)
  have page: "heap_bytes (xs @ b # ys) = heap_bytes xs @ M @ hb_data b @ heap_bytes ys"
    by (simp add: block_bytes_def M_def)
  have meta: "leer_metadata junk (heap_bytes (xs @ b # ys)) (length (heap_bytes xs)) =
      Some \<lparr>hm_size = word_of_nat (length (hb_data b)), hm_isFree = hb_free b, hm_padding = fresh_padding junk\<rparr>"
    using leer_block [of b junk "heap_bytes xs" "heap_bytes ys"] ok(1,2,3) by simp
  have p1: "poner_metadata (length (heap_bytes xs)) M1 (heap_bytes (xs @ b # ys)) =
      Some (heap_bytes xs @ metadata_bytes M1 @ hb_data b @ heap_bytes ys)"
    unfolding page by (rule poner_at) (simp_all add: l M1_def)
  have p2: "poner_metadata (length (heap_bytes xs) + 8 + n) M2 (heap_bytes xs @ metadata_bytes M1 @ hb_data b @ heap_bytes ys) =
      Some (heap_bytes xs @ metadata_bytes M1 @ take n (hb_data b) @ metadata_bytes M2 @ drop (n + 8) (hb_data b) @ heap_bytes ys)"
    using poner_at [of d2 M2 "heap_bytes xs @ metadata_bytes M1 @ take n (hb_data b)" "drop (n + 8) (hb_data b) @ heap_bytes ys"]
    by (subst d) (use n in \<open>simp add: l add.assoc\<close>)
  have "M1 = block_metadata (alloc_block junk n b ! 0)"
    using n by (simp add: alloc_block_def block_metadata_def M1_def n_def)
  moreover have "M2 = block_metadata (alloc_block junk n b ! 1)"
    using n by (simp add: alloc_block_def block_metadata_def M2_def crear_metadata_libre_def n_def of_nat_diff)
  ultimately have "heap_bytes xs @ metadata_bytes M1 @ take n (hb_data b) @ metadata_bytes M2 @ drop (n + 8) (hb_data b) @ heap_bytes ys
      = heap_bytes (xs @ alloc_block junk n b @ ys)"
    by (simp add: block_bytes_def alloc_block_def)
  with p2 have p2': "poner_metadata (length (heap_bytes xs) + 8 + unat (hm_size M1)) M2
      (heap_bytes xs @ metadata_bytes M1 @ hb_data b @ heap_bytes ys) = Some (heap_bytes (xs @ alloc_block junk n b @ ys))"
    by (simp add: M1_def n_def)
  have m1: "\<lparr>hm_size = word_of_nat (length (hb_data b)), hm_isFree = hb_free b, hm_padding = fresh_padding junk\<rparr>
      \<lparr>hm_isFree := False, hm_size := espacio\<rparr> = M1"
    by (simp add: M1_def)
  show ?thesis
    unfolding marcar_bloque_ocupado_def w meta bind.simps Let_def m1 p1 n_def [symmetric]
    using p2' by (simp add: M2_def)
qed

lemma alloc_block_effect:
  assumes "heap_ok T (xs @ b # ys)" "fits espacio b"
  shows "heap_ok T (xs @ alloc_block junk (unat espacio) b @ ys)"
    "occupied 0 (xs @ alloc_block junk (unat espacio) b @ ys) =
       insert (length (heap_bytes xs) + 8, take (unat espacio) (hb_data b)) (occupied 0 (xs @ b # ys))"
    "free_space (xs @ alloc_block junk (unat espacio) b @ ys) + (unat espacio + 8) = free_space (xs @ b # ys)"
    "\<forall>(p, d) \<in> occupied 0 (xs @ b # ys). p + length d \<le> length (heap_bytes xs) \<or> length (heap_bytes xs) + 8 + length (hb_data b) < p"
proof -
  note ok = heap_okD [OF assms(1)]
  have n: "unat espacio + 8 \<le> length (hb_data b)" "hb_free b" using assms(2) by (simp_all add: fits_def)
  show "heap_ok T (xs @ alloc_block junk (unat espacio) b @ ys)"
    using ok n by (auto simp: heap_ok_def alloc_block_def)
  show "occupied 0 (xs @ alloc_block junk (unat espacio) b @ ys) =
       insert (length (heap_bytes xs) + 8, take (unat espacio) (hb_data b)) (occupied 0 (xs @ b # ys))"
    using n by (simp add: occupied_append [OF ok(4)] alloc_block_def ac_simps)
  show "free_space (xs @ alloc_block junk (unat espacio) b @ ys) + (unat espacio + 8) = free_space (xs @ b # ys)"
    using n by (simp add: alloc_block_def)
  show "\<forall>(p, d) \<in> occupied 0 (xs @ b # ys). p + length d \<le> length (heap_bytes xs) \<or> length (heap_bytes xs) + 8 + length (hb_data b) < p"
    using n occupied_bounds [OF ok(4), of _ _ 0]
      occupied_bounds [OF ok(5), of _ _ "length (heap_bytes xs) + 8 + length (hb_data b)"]
    by (fastforce simp: occupied_append [OF ok(4)] add.assoc)
qed

lemma marcar_libre_blocks:
  assumes "heap_ok T (xs @ b # ys)"
  shows "leer_metadata junk (heap_bytes (xs @ b # ys)) (length (heap_bytes xs)) =
      Some \<lparr>hm_size = word_of_nat (length (hb_data b)), hm_isFree = hb_free b, hm_padding = fresh_padding junk\<rparr>"
    "marcar_bloque_libre \<lparr>hm_size = word_of_nat (length (hb_data b)), hm_isFree = hb_free b, hm_padding = fresh_padding junk\<rparr>
      (length (heap_bytes xs)) (heap_bytes (xs @ b # ys)) = Some (heap_bytes (xs @ free_block junk b # ys))"
    "heap_ok T (xs @ free_block junk b # ys)"
proof -
  note ok = heap_okD [OF assms]
  show "leer_metadata junk (heap_bytes (xs @ b # ys)) (length (heap_bytes xs)) =
      Some \<lparr>hm_size = word_of_nat (length (hb_data b)), hm_isFree = hb_free b, hm_padding = fresh_padding junk\<rparr>"
    using leer_block [of b junk "heap_bytes xs" "heap_bytes ys"] ok(1,2,3) by simp
  show "marcar_bloque_libre \<lparr>hm_size = word_of_nat (length (hb_data b)), hm_isFree = hb_free b, hm_padding = fresh_padding junk\<rparr>
      (length (heap_bytes xs)) (heap_bytes (xs @ b # ys)) = Some (heap_bytes (xs @ free_block junk b # ys))"
    using ok(1) by (simp add: marcar_bloque_libre_def block_bytes_def poner_at block_metadata_def free_block_def)
  show "heap_ok T (xs @ free_block junk b # ys)"
    using ok by (auto simp: heap_ok_def free_block_def)
qed

section \<open>Joining free neighbours\<close>

lemma join_bytes:
  assumes "length (hb_padding a) = 3" "length (hb_padding b) = 3" "hb_free b"
  shows "poner_metadata (length ps) (juntar_bloques
      \<lparr>hm_size = word_of_nat (length (hb_data a)), hm_isFree = u, hm_padding = v\<rparr>
      \<lparr>hm_size = word_of_nat (length (hb_data b)), hm_isFree = hb_free b, hm_padding = fresh_padding junk\<rparr>)
      (ps @ block_bytes a @ block_bytes b @ qs) = Some (ps @ block_bytes (join_blocks junk a b) @ qs)"
proof -
  have "block_metadata (join_blocks junk a b) = juntar_bloques
      \<lparr>hm_size = word_of_nat (length (hb_data a)), hm_isFree = u, hm_padding = v\<rparr>
      \<lparr>hm_size = word_of_nat (length (hb_data b)), hm_isFree = hb_free b, hm_padding = fresh_padding junk\<rparr>"
    using assms by (simp add: block_metadata_def join_blocks_def juntar_bloques_def add.commute add.left_commute)
  then have "ps @ block_bytes (join_blocks junk a b) @ qs = ps @ metadata_bytes (juntar_bloques
      \<lparr>hm_size = word_of_nat (length (hb_data a)), hm_isFree = u, hm_padding = v\<rparr>
      \<lparr>hm_size = word_of_nat (length (hb_data b)), hm_isFree = hb_free b, hm_padding = fresh_padding junk\<rparr>) @
      hb_data a @ block_bytes b @ qs"
    by (simp add: block_bytes_def [of "join_blocks junk a b"]) (simp add: join_blocks_def)
  moreover have "block_bytes a = metadata_bytes (block_metadata a) @ hb_data a" by (simp add: block_bytes_def)
  ultimately show ?thesis
    using assms by (simp add: poner_at juntar_bloques_def block_metadata_def)
qed

lemma defragmentar_desde_blocks:
  assumes "heap_ok T (xs @ a # ys)"
  shows "defragmentar_desde T junk (heap_bytes (xs @ a # ys))
      \<lparr>hm_size = word_of_nat (length (hb_data a)), hm_isFree = hb_free a, hm_padding = fresh_padding junk\<rparr>
      (word_of_nat (length (heap_bytes (xs @ [a])))) =
    Some (heap_bytes (xs @ join_first junk (a # ys)), adjacent_free (a # ys))"
  using assms
proof (induction ys arbitrary: xs a)
  case Nil
  have T: "length (heap_bytes (xs @ [a])) = unat T" "unat T < 2 ^ 31" using Nil by (auto simp: heap_ok_def)
  have c: "\<not> sint (word_of_nat (length (heap_bytes (xs @ [a]))) :: u32) < sint T"
    unfolding T(1) by simp
  show ?case by (subst defragmentar_desde.simps) (simp only: c if_False join_first.simps adjacent_free.simps)
next
  case (Cons b ys)
  note ok = heap_okD [OF Cons.prems]
  have prems: "heap_ok T ((xs @ [a]) @ b # ys)" using Cons.prems by simp
  note okb = heap_okD [OF prems]
  let ?off = "word_of_nat (length (heap_bytes (xs @ [a]))) :: u32"
  let ?pg = "heap_bytes (xs @ a # b # ys)"
  let ?m = "\<lambda>b. \<lparr>hm_size = word_of_nat (length (hb_data b)), hm_isFree = hb_free b, hm_padding = fresh_padding junk\<rparr>"
  have n: "length (heap_bytes (xs @ [a])) < 2 ^ 31" using okb(2,3) by linarith
  have w: "unat ?off = length (heap_bytes (xs @ [a]))" using n by (intro unat_of_nat_u32) simp
  have wa: "unat (word_of_nat (length (hb_data a)) :: u32) = length (hb_data a)"
    using ok(2,3) by (intro unat_of_nat_u32) simp
  have c: "sint ?off < sint T" "\<not> sint ?off < 0"
    unfolding sint_of_nat_u32 [OF n] sint_u32 [OF ok(3)] using okb(2) by linarith+
  have meta: "leer_metadata junk ?pg (length (heap_bytes (xs @ [a]))) = Some (?m b)"
    using marcar_libre_blocks(1) [OF prems] by simp
  have next_off: "?off + 8 + word_of_nat (length (hb_data b)) = word_of_nat (length (heap_bytes ((xs @ [a]) @ [b])))"
    using okb(1) by simp
  have here: "length (heap_bytes (xs @ [a])) - 8 - length (hb_data a) = length (heap_bytes xs)"
    "\<not> length (heap_bytes (xs @ [a])) < 8 + length (hb_data a)"
    using ok(1) by simp_all
  have join: "poner_metadata (length (heap_bytes xs)) (juntar_bloques (?m a) (?m b)) ?pg =
      Some (heap_bytes (xs @ join_blocks junk a b # ys))" if "hb_free b"
    using join_bytes [of a b "heap_bytes xs" "hb_free a" "fresh_padding junk" junk "heap_bytes ys"] ok(1) okb(1) that by simp
  have IH: "defragmentar_desde T junk ?pg (?m b) (word_of_nat (length (heap_bytes ((xs @ [a]) @ [b])))) =
      Some (heap_bytes ((xs @ [a]) @ join_first junk (b # ys)), adjacent_free (b # ys))"
    using Cons.IH [OF prems] by simp
  have step: "defragmentar_desde T junk ?pg (?m a) ?off =
      (if hb_free a \<and> hb_free b then map_option (\<lambda>p. (p, True)) (poner_metadata (length (heap_bytes xs)) (juntar_bloques (?m a) (?m b)) ?pg)
       else defragmentar_desde T junk ?pg (?m b) (word_of_nat (length (heap_bytes ((xs @ [a]) @ [b])))))"
    by (subst defragmentar_desde.simps)
      (simp only: c w wa meta if_True if_False bind.simps t_heapMetadata.simps next_off here)
  show ?case using step IH join by (cases "hb_free a \<and> hb_free b") (simp_all del: heap_bytes_simps, auto)
qed

lemma defragmentar_blocks:
  assumes "heap_ok T bs" "bs \<noteq> []"
  shows "defragmentar_pagina T junk (heap_bytes bs) = Some (heap_bytes (join_first junk bs), adjacent_free bs)"
proof -
  obtain a ys where bs: "bs = a # ys" using assms(2) by (cases bs) auto
  have ok: "heap_ok T ([] @ a # ys)" using assms(1) bs by simp
  have l: "(8 + word_of_nat (length (hb_data a)) :: u32) = word_of_nat (length (heap_bytes ([] @ [a])))"
    using heap_okD(1) [OF ok] by simp
  have m: "leer_metadata junk (heap_bytes (a # ys)) 0 =
      Some \<lparr>hm_size = word_of_nat (length (hb_data a)), hm_isFree = hb_free a, hm_padding = fresh_padding junk\<rparr>"
    using marcar_libre_blocks(1) [OF ok] by simp
  show ?thesis
    unfolding bs defragmentar_pagina_def m bind.simps t_heapMetadata.simps l
    using defragmentar_desde_blocks [OF ok, of junk] by simp
qed

lemma join_first_effect:
  assumes "\<forall>b \<in> set bs. length (hb_padding b) = 3"
  shows "\<forall>b \<in> set (join_first junk bs). length (hb_padding b) = 3"
    "length (heap_bytes (join_first junk bs)) = length (heap_bytes bs)"
    "occupied off (join_first junk bs) = occupied off bs"
    "free_space (join_first junk bs) = free_space bs + (if adjacent_free bs then 8 else 0)"
  using assms
  by (induction junk bs arbitrary: off rule: join_first.induct) (auto simp: join_blocks_def ac_simps)

section \<open>The request handler\<close>

lemma responder_reservar_sent:
  "responder_reservar A fd puntero e k =
     Some (k\<lparr>clientes := (clientes k)(fd := socket_send ([OC_RESP_RESERVAR] @ u32_bytes 8 @ u32_bytes puntero @ u32_bytes e)
       (clientes k fd))\<rparr>)"
  by (simp add: responder_reservar_def send_to_def connection_send_def message_size_def code_lists source_consts)

lemma escribir_pagina_sent:
  assumes "length bytes = unat n"
  shows "\<exists>s. escribir_pagina junk pid page n bytes k = Some (k\<lparr>memory_socket := s\<rparr>) \<and>
    sk_out s = sk_out (memory_socket k) @ [oc_byte WRITE_OC] @ u32_bytes pid @ u32_bytes page @ u32_bytes 0
      @ u32_bytes n @ u32_bytes n @ bytes"
proof -
  obtain c s where r: "recv_code junk (socket_send ([oc_byte WRITE_OC] @ u32_bytes pid @ u32_bytes page @ u32_bytes 0
      @ u32_bytes n @ u32_bytes n @ bytes) (memory_socket k)) = (c, s)" by fastforce
  then have "sk_out s = sk_out (memory_socket k) @ [oc_byte WRITE_OC] @ u32_bytes pid @ u32_bytes page @ u32_bytes 0
      @ u32_bytes n @ u32_bytes n @ bytes"
    by (auto simp: recv_code_def socket_send_def dest: recv_storage_out split: prod.splits option.splits)
  with r assms show ?thesis
    by (intro exI [of _ s]) (simp add: escribir_pagina_def memory_write_def)
qed

definition reservar_reply :: "u32 \<Rightarrow> byte list" where
  "reservar_reply puntero = [OC_RESP_RESERVAR] @ u32_bytes 8 @ u32_bytes puntero @ u32_bytes 0"

definition page_write :: "u32 \<Rightarrow> u32 \<Rightarrow> byte list \<Rightarrow> byte list" where
  "page_write pid page bytes = [oc_byte WRITE_OC] @ u32_bytes pid @ u32_bytes page @ u32_bytes 0
     @ u32_bytes (word_of_nat (length bytes)) @ u32_bytes (word_of_nat (length bytes)) @ bytes"

lemma reservar_en_pagina_reply:
  assumes info: "buscar_codigo_de_proceso K pid k = Some info"
    and nro: "nro = ph_nro_pagina (tabla_paginas_heap k ! i)"
    and leer: "leer_pagina junk pid (nro + paginas_codigo info) k = Some (pagina, k1)"
    and buscar: "buscar_bloque_disponible (TAMANIO_PAGINAS k) junk pagina espacio = Some bloque"
    and marcar: "marcar_bloque_ocupado junk bloque pagina espacio = Some pagina1"
    and len: "length pagina1 = unat (TAMANIO_PAGINAS k)"
    and dir: "obtener_direccion_relativa (TAMANIO_PAGINAS k) bloque nro (paginas_codigo info) = Some puntero"
    and cpu: "request_from K fd k"
  shows "\<exists>k'. reservar_en_pagina K A junk fd pid espacio i k = Some k' \<and>
    tabla_paginas_heap k' = tabla_paginas_heap (modificar_pagina i espacio k) \<and>
    sk_out (memory_socket k') = sk_out (memory_socket k1) @ page_write pid (nro + paginas_codigo info) pagina1 \<and>
    sk_out (clientes k' fd) = sk_out (clientes k fd) @ reservar_reply puntero"
proof -
  obtain s1 where k1: "k1 = k\<lparr>memory_socket := s1\<rparr>"
    using leer by (auto simp: leer_pagina_def split: prod.splits)
  obtain s where w: "escribir_pagina junk pid (nro + paginas_codigo info) (TAMANIO_PAGINAS k) pagina1 k1 = Some (k1\<lparr>memory_socket := s\<rparr>)"
    "sk_out s = sk_out (memory_socket k1) @ page_write pid (nro + paginas_codigo info) pagina1"
    using escribir_pagina_sent [OF len, of junk pid "nro + paginas_codigo info" k1] by (auto simp: page_write_def len)
  let ?k4 = "(modificar_pagina i espacio (k1\<lparr>memory_socket := s\<rparr>))\<lparr>clientes := (clientes k)(fd := socket_send (reservar_reply puntero) (clientes k fd))\<rparr>"
  have r: "responder_reservar A fd puntero 0 (modificar_pagina i espacio (k1\<lparr>memory_socket := s\<rparr>)) = Some ?k4"
    by (simp add: responder_reservar_sent reservar_reply_def modificar_pagina_def update_pagina_def k1)
  have c: "request_from K fd ?k4" "\<And>t. request_from K fd (?k4\<lparr>tabla_sockets_procesos := t\<rparr>)"
    using cpu by (simp_all add: request_from_def obtener_cpu_def modificar_pagina_def update_pagina_def k1)
  obtain t where t: "sumar_syscall K fd ?k4 = Some (?k4\<lparr>tabla_sockets_procesos := t\<rparr>)"
    using sumar_Some(1) [OF c(1)] by blast
  obtain u where u: "sumar_espacio_reservado K espacio fd (?k4\<lparr>tabla_sockets_procesos := t\<rparr>) =
      Some (?k4\<lparr>tabla_sockets_procesos := t\<rparr>\<lparr>tabla_sockets_procesos := u\<rparr>)"
    using sumar_Some(2) [OF c(2) [of t]] by blast
  have "reservar_en_pagina K A junk fd pid espacio i k = Some (?k4\<lparr>tabla_sockets_procesos := t\<rparr>\<lparr>tabla_sockets_procesos := u\<rparr>)"
    unfolding reservar_en_pagina_def info nro [symmetric] Let_def bind.simps
    by (simp only: leer bind.simps prod.case buscar marcar w(1) dir r t u)
  then show ?thesis
    using w(2) by (auto simp: modificar_pagina_def update_pagina_def k1 socket_send_def)
qed

section \<open>Addresses\<close>

definition heap_address :: "u32 \<Rightarrow> u32 \<Rightarrow> u32 \<Rightarrow> nat \<Rightarrow> nat" where
  "heap_address T nro cod off = unat T * (unat nro + unat cod) + (off + 8)"

lemma small_factor: "(a :: nat) * (b + c + 1) < n \<Longrightarrow> 0 < a \<Longrightarrow> b < n \<and> c < n \<and> a * b < n \<and> a * c < n \<and> a * (b + c) + a < n"
proof -
  assume *: "a * (b + c + 1) < n" "0 < a"
  have e: "a * (b + c + 1) = a * b + a * c + a" by (simp add: algebra_simps)
  have "b \<le> a * b" "c \<le> a * c" using *(2) by simp_all
  then have "b < n" "c < n" "a * b < n" "a * c < n" using * e by linarith+
  then show ?thesis using * by (simp add: algebra_simps)
qed

lemma int_ok_nat: "n < 2 ^ 31 \<Longrightarrow> int_ok (int n)"
  by (simp add: int_ok_def)

lemma direccion_relativa:
  assumes "unat T * (unat nro + unat cod + 1) < 2 ^ 31" "0 < unat T"
  shows "obtener_direccion_relativa T (word_of_nat off) nro cod = Some (word_of_nat (heap_address T nro cod off))"
proof -
  note sm = small_factor [OF assms]
  have s: "sint T = int (unat T)" "sint nro = int (unat nro)" "sint cod = int (unat cod)"
    using sm by (simp_all add: sint_u32)
  have "int_ok (sint T * sint nro)" "int_ok (sint T * sint cod)"
    unfolding s int_ok_def of_nat_mult [symmetric] using sm by (simp_all del: of_nat_mult)
  then show ?thesis
    by (simp add: obtener_direccion_relativa_def heap_address_def algebra_simps)
qed

lemma direccion_verdadera:
  assumes "unat T * (unat nro + unat cod + 1) < 2 ^ 31" "off + 8 < unat T"
  shows "obtener_direccion_de_bloque_verdadera T \<lparr>pl_pid = pid, pl_nro_pagina = x, pl_posicion = word_of_nat (heap_address T nro cod off)\<rparr> cod =
    Some \<lparr>pl_pid = pid, pl_nro_pagina = nro, pl_posicion = word_of_nat off\<rparr>"
proof -
  have pos: "0 < unat T" using assms(2) by simp
  note sm = small_factor [OF assms(1) pos]
  let ?n = "heap_address T nro cod off"
  have n: "?n < 2 ^ 31" using sm assms(2) unfolding heap_address_def by linarith
  have s: "sint (word_of_nat ?n :: u32) = int ?n" "sint T = int (unat T)" "sint cod = int (unat cod)"
    using n sm by (simp_all add: sint_of_nat_u32 sint_u32)
  have dv: "?n div unat T = unat nro + unat cod" using assms(2) by (simp add: heap_address_def)
  have q: "c_div (int ?n) (int (unat T)) = int (unat nro + unat cod)"
    unfolding dv [symmetric] zdiv_int using pos by (intro c_div_nonneg) linarith+
  have r: "int ?n - int (unat T) * int (unat nro + unat cod) = int (off + 8)"
    by (simp add: heap_address_def)
  have k: "int_ok (int (unat nro + unat cod))" "int_ok (int (unat nro))"
  proof -
    have "unat nro + unat cod \<le> unat T * (unat nro + unat cod)" using pos by simp
    then have "unat nro + unat cod < 2 ^ 31" using sm by linarith
    then show "int_ok (int (unat nro + unat cod))" "int_ok (int (unat nro))"
      using sm by (simp_all only: int_ok_nat)
  qed
  have d: "int (unat nro + unat cod) - int (unat cod) = int (unat nro)" by simp
  have w: "word_of_int (int (off + 8)) - 8 = (word_of_nat off :: u32)" by simp
  have "T \<noteq> 0" using pos by auto
  then show ?thesis
    unfolding obtener_direccion_de_bloque_verdadera_def t_pedido_liberar_memoria.simps s q Let_def d r w
    using k by simp
qed

section \<open>Properties\<close>

definition heap_inv :: "u32 \<Rightarrow> heap_block list \<Rightarrow> bool" where
  "heap_inv T bs \<longleftrightarrow> heap_ok T bs \<and> bs \<noteq> [] \<and> hb_free (last bs)"

lemma new_page_inv:
  assumes "length data + 8 = unat T" "unat T < 2 ^ 31"
  shows "heap_inv T [\<lparr>hb_free = True, hb_padding = fresh_padding junk, hb_data = data\<rparr>]"
    "block_bytes \<lparr>hb_free = True, hb_padding = fresh_padding junk, hb_data = data\<rparr> =
       metadata_bytes (crear_metadata_libre junk T) @ data"
proof -
  have "(word_of_nat (length data) :: u32) = T - 8"
    using arg_cong [OF assms(1), of "word_of_nat :: nat \<Rightarrow> u32"] by (simp add: eq_diff_eq)
  then show "block_bytes \<lparr>hb_free = True, hb_padding = fresh_padding junk, hb_data = data\<rparr> =
       metadata_bytes (crear_metadata_libre junk T) @ data"
    by (simp add: block_bytes_def block_metadata_def crear_metadata_libre_def)
qed (use assms in \<open>simp add: heap_inv_def heap_ok_def\<close>)

lemma find_index_split:
  "find_index P l = Some j \<Longrightarrow> l = take j l @ l ! j # drop (Suc j) l \<and> P (l ! j)"
  by (auto simp: find_index_Some_iff id_take_nth_drop)

lemma join_first_last: "bs \<noteq> [] \<Longrightarrow> join_first junk bs \<noteq> [] \<and> (hb_free (last bs) \<longrightarrow> hb_free (last (join_first junk bs)))"
  by (induction junk bs rule: join_first.induct) (auto simp: join_blocks_def split: if_splits)

lemma size_guard: "unat espacio + 8 \<le> unat (T :: u32) \<Longrightarrow> \<not> T - 8 < espacio"
proof -
  assume *: "unat espacio + 8 \<le> unat T"
  then have "unat (T - 8) = unat T - 8" by (intro unat_sub [THEN trans]) (simp_all add: word_le_nat_alt)
  with * show ?thesis by (simp add: word_less_nat_alt)
qed

text \<open>
  C8: A reservation takes its block from the free space of the page and from nothing else.  Let the first
  heap page of the process whose recorded free space suffices consist of the blocks \<open>bs\<close>, and let one of
  them be free and large enough.  Then \<open>OC_FUNCION_RESERVAR\<close> writes back a page made of blocks \<open>bs'\<close> that
  tile it exactly, in which every block in use is still in use at the same place with the same content,
  together with the new block of the requested size; the new block overlaps none of them; the program
  receives the address of its data; and the recorded free space is again the free space of the page.
\<close>

theorem reservar_allocates:
  assumes "kernel_commons K" "request_from K fd k"
    and page: "find_index (\<lambda>p. ph_pid p = pid \<and> espacio + 8 \<le> espacio_libre p) (tabla_paginas_heap k) = Some i"
    and entry: "tabla_paginas_heap k ! i = \<lparr>ph_pid = pid, ph_nro_pagina = nro, espacio_libre = word_of_nat (free_space bs)\<rparr>"
    and info: "buscar_codigo_de_proceso K pid k = Some info"
    and leer: "leer_pagina junk pid (nro + paginas_codigo info) k = Some (heap_bytes bs, k1)"
    and inv: "heap_inv (TAMANIO_PAGINAS k) bs" and j: "find_index (fits espacio) bs = Some j"
    and off: "off = length (heap_bytes (take j bs))"
    and room: "unat (TAMANIO_PAGINAS k) * (unat nro + unat (paginas_codigo info) + 1) < 2 ^ 31"
  shows "\<exists>k' bs'. funcion_reservar K A junk fd pid espacio k = Some k' \<and>
    sk_out (memory_socket k') = sk_out (memory_socket k1) @ page_write pid (nro + paginas_codigo info) (heap_bytes bs') \<and>
    sk_out (clientes k' fd) = sk_out (clientes k fd) @
      reservar_reply (word_of_nat (heap_address (TAMANIO_PAGINAS k) nro (paginas_codigo info) off)) \<and>
    heap_inv (TAMANIO_PAGINAS k) bs' \<and>
    occupied 0 bs' = insert (off + 8, take (unat espacio) (hb_data (bs ! j))) (occupied 0 bs) \<and>
    (\<forall>(p, d) \<in> occupied 0 bs. p + length d \<le> off \<or> off + 8 + unat espacio < p) \<and>
    espacio_libre (tabla_paginas_heap k' ! i) = word_of_nat (free_space bs')"
proof -
  let ?T = "TAMANIO_PAGINAS k" and ?cod = "paginas_codigo info"
  define xs b ys where "xs = take j bs" and "b = bs ! j" and "ys = drop (Suc j) bs"
  have bs: "bs = xs @ b # ys" and fb: "fits espacio b"
    using find_index_split [OF j] by (simp_all add: xs_def b_def ys_def)
  have ok: "heap_ok ?T (xs @ b # ys)" using inv bs by (simp add: heap_inv_def)
  note okD = heap_okD [OF ok] and al = alloc_block_effect(1-3) [OF ok fb, of junk]
  let ?bs' = "xs @ alloc_block junk (unat espacio) b @ ys"
  have n: "unat espacio + 8 \<le> length (hb_data b)" using fb by (simp add: fits_def)
  have small: "\<not> ?T - 8 < espacio"
    by (rule size_guard) (use n okD(2) in linarith)
  have found: "obtener_pagina_con_suficiente_espacio K pid espacio k = Some i"
    using page by (simp add: obtener_pagina_con_suficiente_espacio_def kernel_commons.coll_simps [OF assms(1)])
  have i: "i < length (tabla_paginas_heap k)" using page by (simp add: find_index_Some_iff)
  have "unat espacio + 8 < 2 ^ 32" using n okD(2,3) by simp
  then have buscar: "buscar_bloque_disponible ?T junk (heap_bytes bs) espacio = Some (word_of_nat off)"
    using buscar_bloque_blocks [OF ok [folded bs]] j off by simp
  have marcar: "marcar_bloque_ocupado junk (word_of_nat off) (heap_bytes bs) espacio = Some (heap_bytes ?bs')"
    using marcar_ocupado_blocks [OF ok fb, of junk] by (simp only: off xs_def [symmetric] bs [symmetric])
  have len: "length (heap_bytes ?bs') = unat ?T" using al(1) by (simp add: heap_ok_def)
  have dir: "obtener_direccion_relativa ?T (word_of_nat off) nro ?cod = Some (word_of_nat (heap_address ?T nro ?cod off))"
    by (rule direccion_relativa [OF room]) (use okD(2) in linarith)
  obtain k' where k': "reservar_en_pagina K A junk fd pid espacio i k = Some k'"
    "tabla_paginas_heap k' = tabla_paginas_heap (modificar_pagina i espacio k)"
    "sk_out (memory_socket k') = sk_out (memory_socket k1) @ page_write pid (nro + ?cod) (heap_bytes ?bs')"
    "sk_out (clientes k' fd) = sk_out (clientes k fd) @ reservar_reply (word_of_nat (heap_address ?T nro ?cod off))"
    using reservar_en_pagina_reply [OF info _ leer buscar marcar len dir assms(2), of i A] entry by auto
  have "hb_free (last ?bs')" using inv bs by (auto simp: heap_inv_def alloc_block_def split: if_splits)
  then have inv': "heap_inv ?T ?bs'" using al(1) by (simp add: heap_inv_def alloc_block_def)
  have occ: "occupied 0 ?bs' = insert (off + 8, take (unat espacio) (hb_data (bs ! j))) (occupied 0 bs)"
    using al(2) by (simp only: bs [symmetric] off xs_def [symmetric] b_def [symmetric])
  have disj: "\<forall>(p, d) \<in> occupied 0 bs. p + length d \<le> off \<or> off + 8 + unat espacio < p"
    using alloc_block_effect(4) [OF ok fb] n unfolding bs [symmetric] off xs_def [symmetric] by fastforce
  have "(word_of_nat (free_space bs) :: u32) - (espacio + 8) = word_of_nat (free_space ?bs')"
    unfolding bs al(3) [symmetric] by simp
  then have "espacio_libre (tabla_paginas_heap k' ! i) = word_of_nat (free_space ?bs')"
    using i entry by (simp add: k'(2) modificar_pagina_def update_pagina_def)
  then show ?thesis
    using k' inv' occ disj small found by (intro exI [of _ k'] exI [of _ ?bs']) (simp add: funcion_reservar_def)
qed


definition demo_block :: "bool \<Rightarrow> nat \<Rightarrow> heap_block" where
  "demo_block f n = \<lparr>hb_free = f, hb_padding = [0, 0, 0], hb_data = replicate n 5\<rparr>"

lemma demo_leer:
  assumes "length bytes = 64"
  shows "leer_pagina (\<lambda>_. 0) 1 page (demo_kernel heap (code_bytes SUCCESS @ u32_bytes 64 @ bytes @ rest)) =
    Some (bytes, (demo_kernel heap (code_bytes SUCCESS @ u32_bytes 64 @ bytes @ rest))
      \<lparr>memory_socket := \<lparr>sk_in = rest, sk_out = [oc_byte READ_OC] @ u32_bytes 1 @ u32_bytes page @ u32_bytes 0 @ u32_bytes 64\<rparr>\<rparr>)"
proof -
  have "bytes \<noteq> []" using assms by auto
  moreover have "unat (64 :: u32) = 64" by simp
  ultimately have "memory_read (\<lambda>_. 0) 1 page 0 64 \<lparr>sk_in = code_bytes SUCCESS @ u32_bytes 64 @ bytes @ rest, sk_out = []\<rparr> =
      (\<lparr>rr_exec_code = SUCCESS, rr_buffer_size = 64, rr_buffer = Some bytes\<rparr>,
       \<lparr>sk_in = rest, sk_out = [oc_byte READ_OC] @ u32_bytes 1 @ u32_bytes page @ u32_bytes 0 @ u32_bytes 64\<rparr>)"
    using assms by (simp add: memory_read_def socket_send_def bytes_i16_code_bytes source_consts)
  then show ?thesis by (simp add: leer_pagina_def demo_kernel_def)
qed

lemma demo_request: "request_from seq_kernel_lib 7 (demo_kernel heap answers)"
  by (simp add: request_from_def obtener_cpu_def demo_simps)

lemma demo_info: "buscar_codigo_de_proceso seq_kernel_lib 1 (demo_kernel heap answers) = Some \<lparr>cp_pid = 1, paginas_codigo = 2\<rparr>"
  by (simp add: buscar_codigo_de_proceso_def demo_simps)

theorem reservar_allocates_witness:
  "\<exists>k'. funcion_reservar seq_kernel_lib abi32 (\<lambda>_. 0) 7 1 10
      (demo_kernel [\<lparr>ph_pid = 1, ph_nro_pagina = 0, espacio_libre = 44\<rparr>]
        (code_bytes SUCCESS @ u32_bytes 64 @ heap_bytes [demo_block False 4, demo_block True 44] @ code_bytes SUCCESS)) = Some k' \<and>
    sk_out (clientes k' 7) = reservar_reply 148"
proof -
  let ?bs = "[demo_block False 4, demo_block True 44]"
  let ?ans = "code_bytes SUCCESS @ u32_bytes 64 @ heap_bytes ?bs @ code_bytes SUCCESS"
  let ?k = "demo_kernel [\<lparr>ph_pid = 1, ph_nro_pagina = 0, espacio_libre = 44\<rparr>] ?ans"
  have len: "length (heap_bytes ?bs) = 64" by (simp add: demo_block_def)
  have inv: "heap_inv 64 ?bs" by (simp add: heap_inv_def heap_ok_def demo_block_def)
  show ?thesis
    using reservar_allocates [OF seq_kernel.kernel_commons_axioms demo_request _ _ demo_info 
        demo_leer [where heap = "[\<lparr>ph_pid = 1, ph_nro_pagina = 0, espacio_libre = 44\<rparr>]" and rest = "code_bytes SUCCESS", OF len],
        where espacio = 10 and i = 0 and nro = 0 and j = 1 and off = 12 and A = abi32]
    by (auto simp: inv [unfolded demo_block_def] fits_def demo_block_def heap_address_def)
qed

lemma marcar_ocupado_total:
  assumes "unat bloque + 16 + unat espacio \<le> length pagina"
  shows "\<exists>pagina1. marcar_bloque_ocupado junk bloque pagina espacio = Some pagina1 \<and> length pagina1 = length pagina"
  using assms
  by (simp add: marcar_bloque_ocupado_def leer_metadata_def poner_metadata_def crear_metadata_libre_def Let_def)

text \<open>
  Fragmentation hands a block out twice.  The table only knows the total free space of a page, and
  \<open>buscar_bloque_disponible\<close> answers 0 both for the first block and for "no block".  Let the page the table
  selects begin with a block in use, and let no free block of it be large enough.  Then the reservation
  succeeds and its address is the address of the block already in use.
\<close>

theorem reservar_fragmented_reuses_block:
  assumes "kernel_commons K" "request_from K fd k"
    and page: "find_index (\<lambda>p. ph_pid p = pid \<and> espacio + 8 \<le> espacio_libre p) (tabla_paginas_heap k) = Some i"
    and entry: "tabla_paginas_heap k ! i = \<lparr>ph_pid = pid, ph_nro_pagina = nro, espacio_libre = word_of_nat (free_space (b # bs))\<rparr>"
    and info: "buscar_codigo_de_proceso K pid k = Some info"
    and leer: "leer_pagina junk pid (nro + paginas_codigo info) k = Some (heap_bytes (b # bs), k1)"
    and inv: "heap_inv (TAMANIO_PAGINAS k) (b # bs)" and used: "\<not> hb_free b"
    and none: "find_index (fits espacio) (b # bs) = None" and sz: "unat espacio + 16 \<le> unat (TAMANIO_PAGINAS k)"
    and room: "unat (TAMANIO_PAGINAS k) * (unat nro + unat (paginas_codigo info) + 1) < 2 ^ 31"
  shows "(8, hb_data b) \<in> occupied 0 (b # bs) \<and>
    (\<exists>k'. funcion_reservar K A junk fd pid espacio k = Some k' \<and>
      sk_out (clientes k' fd) = sk_out (clientes k fd) @
        reservar_reply (word_of_nat (heap_address (TAMANIO_PAGINAS k) nro (paginas_codigo info) 0)))"
proof -
  let ?T = "TAMANIO_PAGINAS k" and ?cod = "paginas_codigo info"
  have ok: "heap_ok ?T (b # bs)" using inv by (simp add: heap_inv_def)
  then have T: "length (heap_bytes (b # bs)) = unat ?T" "unat ?T < 2 ^ 31" by (simp_all only: heap_ok_def)
  have small: "\<not> ?T - 8 < espacio" by (rule size_guard) (use sz in simp)
  have found: "obtener_pagina_con_suficiente_espacio K pid espacio k = Some i"
    using page by (simp add: obtener_pagina_con_suficiente_espacio_def kernel_commons.coll_simps [OF assms(1)])
  have "unat espacio + 8 < 2 ^ 32" using sz T(2) by simp
  then have buscar: "buscar_bloque_disponible ?T junk (heap_bytes (b # bs)) espacio = Some 0"
    using buscar_bloque_blocks [OF ok] none by simp
  obtain pagina1 where marcar: "marcar_bloque_ocupado junk 0 (heap_bytes (b # bs)) espacio = Some pagina1"
    and len: "length pagina1 = unat ?T"
    using marcar_ocupado_total [of 0 espacio "heap_bytes (b # bs)" junk] sz T(1) by auto
  have dir: "obtener_direccion_relativa ?T 0 nro ?cod = Some (word_of_nat (heap_address ?T nro ?cod 0))"
    using direccion_relativa [OF room, of 0] sz by simp
  obtain k' where "reservar_en_pagina K A junk fd pid espacio i k = Some k'"
    "sk_out (clientes k' fd) = sk_out (clientes k fd) @ reservar_reply (word_of_nat (heap_address ?T nro ?cod 0))"
    using reservar_en_pagina_reply [OF info _ leer buscar marcar len dir assms(2), of i A] entry by auto
  then show ?thesis using used small found by (simp add: funcion_reservar_def)
qed

theorem reservar_fragmented_reuses_block_witness:
  "\<exists>k'. funcion_reservar seq_kernel_lib abi32 (\<lambda>_. 0) 7 1 10
      (demo_kernel [\<lparr>ph_pid = 1, ph_nro_pagina = 0, espacio_libre = 24\<rparr>]
        (code_bytes SUCCESS @ u32_bytes 64 @ heap_bytes [demo_block False 4, demo_block True 12, demo_block False 4, demo_block True 12] @ [])) = Some k' \<and>
    sk_out (clientes k' 7) = reservar_reply 136"
proof -
  let ?bs = "[demo_block True 12, demo_block False 4, demo_block True 12]"
  have len: "length (heap_bytes (demo_block False 4 # ?bs)) = 64" by (simp add: demo_block_def)
  have inv: "heap_inv 64 (demo_block False 4 # ?bs)" by (simp add: heap_inv_def heap_ok_def demo_block_def)
  have fits: "find_index (fits 10) (demo_block False 4 # ?bs) = None" by (simp add: demo_block_def fits_def)
  show ?thesis
    using reservar_fragmented_reuses_block [OF seq_kernel.kernel_commons_axioms demo_request _ _ demo_info
        demo_leer [where heap = "[\<lparr>ph_pid = 1, ph_nro_pagina = 0, espacio_libre = 24\<rparr>]" and rest = "[]", OF len]
        _ _ fits, where i = 0 and nro = 0 and A = abi32] inv
    by (auto simp: demo_block_def heap_address_def)
qed

text \<open>
  A request that passes the size check can still bring the kernel down.  The check admits up to the
  page size less one metadata, but a fresh page only admits what leaves room for the metadata of the rest.
  For a request between the two bounds, when the memory grants the page, the second look-up in the table
  finds nothing and the handler follows the null pointer.
\<close>

theorem reservar_large_request_crashes:
  assumes "kernel_commons K" "16 \<le> unat (TAMANIO_PAGINAS k)" "unat (TAMANIO_PAGINAS k) < 2 ^ 31"
    and lo: "unat (TAMANIO_PAGINAS k) < unat espacio + 16" and hi: "unat espacio + 8 \<le> unat (TAMANIO_PAGINAS k)"
    and none: "find_index (\<lambda>p. ph_pid p = pid \<and> espacio + 8 \<le> espacio_libre p) (tabla_paginas_heap k) = None"
    and ans: "sk_in (memory_socket k) = code_bytes SUCCESS @ rest"
  shows "funcion_reservar K A junk fd pid espacio k = None"
proof -
  let ?T = "TAMANIO_PAGINAS k"
  note coll = kernel_commons.coll_simps [OF assms(1)]
  obtain s where s: "memory_assign_pages junk pid 1 (memory_socket k) = (1, s)"
    using ans recv_code_exchange [of 1 "socket_send ([oc_byte ASSIGN_PAGE_OC] @ u32_bytes pid @ u32_bytes 1) (memory_socket k)" rest junk]
    by (simp add: memory_assign_pages_def socket_send_def source_consts)
  have small: "\<not> ?T - 8 < espacio" by (rule size_guard [OF hi])
  have "unat (?T - 8) = unat ?T - 8" using assms(2) by (intro unat_sub [THEN trans]) (simp_all add: word_le_nat_alt)
  moreover have "unat (espacio + 8) = unat espacio + 8" using hi assms(3) by (simp add: unat_word_ariths)
  ultimately have "\<not> espacio + 8 \<le> ?T - 8" using lo assms(2) by (simp add: word_le_nat_alt)
  then have "obtener_pagina_con_suficiente_espacio K pid espacio (tabla_heap_agregar_pagina K pid (k\<lparr>memory_socket := s\<rparr>)) = None"
    using none
    by (simp add: obtener_pagina_con_suficiente_espacio_def tabla_heap_agregar_pagina_def Let_def coll
        crear_pagina_heap_def find_index_None_iff)
  then have "nueva_pagina_heap K A junk fd pid espacio k = None"
    by (simp add: nueva_pagina_heap_def s Let_def)
  then show ?thesis
    using small none by (simp add: funcion_reservar_def obtener_pagina_con_suficiente_espacio_def coll)
qed

theorem reservar_large_request_crashes_witness:
  "funcion_reservar seq_kernel_lib abi32 (\<lambda>_. 0) 7 1 56 (demo_kernel [] (code_bytes SUCCESS)) = None"
  using reservar_large_request_crashes [OF seq_kernel.kernel_commons_axioms, of "demo_kernel [] (code_bytes SUCCESS)" 56 1 "[]"]
  by (simp add: demo_kernel_def)

section \<open>Giving a block back\<close>

lemma free_block_effect:
  assumes "heap_ok T (xs @ b # ys)" "\<not> hb_free b"
  shows "occupied 0 (xs @ free_block junk b # ys) = occupied 0 (xs @ b # ys) - {(length (heap_bytes xs) + 8, hb_data b)}"
    "free_space (xs @ free_block junk b # ys) = free_space (xs @ b # ys) + length (hb_data b)"
proof -
  note ok = heap_okD [OF assms(1)]
  have "(length (heap_bytes xs) + 8, hb_data b) \<notin> occupied 0 xs"
    using occupied_bounds [OF ok(4), of "length (heap_bytes xs) + 8" "hb_data b" 0] by auto
  moreover have "(length (heap_bytes xs) + 8, hb_data b) \<notin> occupied (length (heap_bytes xs) + 8 + length (hb_data b)) ys"
    using occupied_bounds [OF ok(5), of "length (heap_bytes xs) + 8" "hb_data b" "length (heap_bytes xs) + 8 + length (hb_data b)"]
    by auto
  ultimately show "occupied 0 (xs @ free_block junk b # ys) = occupied 0 (xs @ b # ys) - {(length (heap_bytes xs) + 8, hb_data b)}"
    using assms(2) by (auto simp: occupied_append [OF ok(4)] free_block_def)
  show "free_space (xs @ free_block junk b # ys) = free_space (xs @ b # ys) + length (hb_data b)"
    using assms(2) by (simp add: free_block_def)
qed

lemma free_space_le: "\<forall>b \<in> set bs. length (hb_padding b) = 3 \<Longrightarrow> bs \<noteq> [] \<Longrightarrow> free_space bs + 8 \<le> length (heap_bytes bs)"
proof (induction bs)
  case (Cons b bs)
  then show ?case by (cases "bs = []") auto
qed simp

lemma update_pagina_entry:
  assumes "i < length (tabla_paginas_heap k)"
    "tabla_paginas_heap k ! i = \<lparr>ph_pid = pid, ph_nro_pagina = nro, espacio_libre = e\<rparr>"
  shows "tabla_paginas_heap (update_pagina i f k) = (tabla_paginas_heap k)[i := \<lparr>ph_pid = pid, ph_nro_pagina = nro, espacio_libre = f e\<rparr>]"
  using assms by (simp add: update_pagina_def)

text \<open>The part of the free request that works on the page and on its entry in the table.\<close>

lemma liberar_bloque:
  assumes "kernel_commons K" and inv: "heap_inv T (xs @ b # ys)" and used: "\<not> hb_free b" and T: "T = TAMANIO_PAGINAS k"
    and i: "find_index (\<lambda>p. ph_pid p = pid \<and> ph_nro_pagina p = nro) (tabla_paginas_heap k) = Some i"
    and entry: "tabla_paginas_heap k ! i = \<lparr>ph_pid = pid, ph_nro_pagina = nro, espacio_libre = word_of_nat (free_space (xs @ b # ys))\<rparr>"
    and bs': "bs' = join_first junk (xs @ free_block junk b # ys)"
    and m: "m = \<lparr>hm_size = word_of_nat (length (hb_data b)), hm_isFree = hb_free b, hm_padding = fresh_padding junk\<rparr>"
    and ped: "ped = \<lparr>pl_pid = pid, pl_nro_pagina = nro, pl_posicion = word_of_nat (length (heap_bytes xs))\<rparr>"
    and k4: "k4 = k\<lparr>tabla_paginas_heap := (tabla_paginas_heap k)[i := \<lparr>ph_pid = pid, ph_nro_pagina = nro, espacio_libre = word_of_nat (free_space bs')\<rparr>]\<rparr>"
  shows "leer_metadata junk (heap_bytes (xs @ b # ys)) (length (heap_bytes xs)) = Some m"
    "marcar_bloque_libre m (length (heap_bytes xs)) (heap_bytes (xs @ b # ys)) = Some (heap_bytes (xs @ free_block junk b # ys))"
    "\<exists>k3. tabla_heap_cambiar_espacio_libre K ped (hm_size m) k = Some k3 \<and>
       defragmentar K junk (heap_bytes (xs @ free_block junk b # ys)) ped k3 = Some (heap_bytes bs', k4)"
    "pagina_vacia K pid nro k4 = Some (free_space bs' + 8 = unat T)"
    "heap_inv T bs'"
    "occupied 0 bs' = occupied 0 (xs @ b # ys) - {(length (heap_bytes xs) + 8, hb_data b)}"
proof -
  note coll = kernel_commons.coll_simps [OF assms(1)]
  have ok: "heap_ok T (xs @ b # ys)" using inv by (simp add: heap_inv_def)
  note okD = heap_okD [OF ok] and fr = free_block_effect [OF ok used, of junk]
  let ?bs1 = "xs @ free_block junk b # ys"
  have ok1: "heap_ok T ?bs1" by (rule marcar_libre_blocks(3) [OF ok])
  have pads: "\<forall>b \<in> set ?bs1. length (hb_padding b) = 3" using ok1 unfolding heap_ok_def by blast
  note jf = join_first_effect [where junk = junk, OF pads]
  show "leer_metadata junk (heap_bytes (xs @ b # ys)) (length (heap_bytes xs)) = Some m"
    unfolding m by (rule marcar_libre_blocks(1) [OF ok])
  show "marcar_bloque_libre m (length (heap_bytes xs)) (heap_bytes (xs @ b # ys)) = Some (heap_bytes ?bs1)"
    unfolding m by (rule marcar_libre_blocks(2) [OF ok])
  have ok': "heap_ok T bs'" using jf(1,2) ok1 unfolding bs' heap_ok_def by (simp del: heap_bytes_simps)
  moreover have "hb_free (last ?bs1)" using inv by (auto simp: heap_inv_def free_block_def split: if_splits)
  ultimately show inv': "heap_inv T bs'"
    using join_first_last [of ?bs1 junk] by (simp add: heap_inv_def bs')
  show "occupied 0 bs' = occupied 0 (xs @ b # ys) - {(length (heap_bytes xs) + 8, hb_data b)}"
    using jf(3) [of 0] fr(1) by (simp only: bs')
  have il: "i < length (tabla_paginas_heap k)" using i by (simp add: find_index_Some_iff)
  have i': "find_index (\<lambda>p. ph_pid p = pid \<and> ph_nro_pagina p = nro)
      ((tabla_paginas_heap k)[i := \<lparr>ph_pid = pid, ph_nro_pagina = nro, espacio_libre = e\<rparr>]) = Some i" for e
    using find_index_update_same [OF il, of "\<lambda>p. ph_pid p = pid \<and> ph_nro_pagina p = nro"] i entry by simp
  let ?k3 = "k\<lparr>tabla_paginas_heap := (tabla_paginas_heap k)[i := \<lparr>ph_pid = pid, ph_nro_pagina = nro, espacio_libre = word_of_nat (free_space ?bs1)\<rparr>]\<rparr>"
  have c3: "tabla_heap_cambiar_espacio_libre K ped (hm_size m) k = Some ?k3"
    using i entry fr(2) by (simp add: tabla_heap_cambiar_espacio_libre_def buscar_pagina_heap_def coll ped m update_pagina_def del: free_space_simps)
  have d: "defragmentar_pagina (TAMANIO_PAGINAS ?k3) junk (heap_bytes ?bs1) = Some (heap_bytes bs', adjacent_free ?bs1)"
    using defragmentar_blocks [OF ok1] by (simp add: bs' T)
  have c4: "(if adjacent_free ?bs1 then tabla_heap_cambiar_espacio_libre K ped 8 ?k3 else Some ?k3) = Some k4"
  proof (cases "adjacent_free ?bs1")
    case True
    then have "free_space bs' = free_space ?bs1 + 8" using jf(4) bs' by simp
    then show ?thesis
      using True i' il by (simp add: tabla_heap_cambiar_espacio_libre_def buscar_pagina_heap_def coll ped update_pagina_def k4)
  next
    case False
    then have "free_space bs' = free_space ?bs1" using jf(4) bs' by simp
    with False show ?thesis by (simp only: k4 if_False)
  qed
  show "\<exists>k3. tabla_heap_cambiar_espacio_libre K ped (hm_size m) k = Some k3 \<and>
       defragmentar K junk (heap_bytes ?bs1) ped k3 = Some (heap_bytes bs', k4)"
    using c3 d c4 by (intro exI [of _ ?k3]) (simp only: defragmentar_def bind.simps prod.case simp_thms)
  have "free_space bs' + 8 \<le> unat T" "bs' \<noteq> []" "unat T < 2 ^ 31"
    using free_space_le [of bs'] ok' inv' by (auto simp: heap_inv_def heap_ok_def)
  then have "(word_of_nat (free_space bs') = T - 8) = (free_space bs' + 8 = unat T)"
    using unat_of_nat_u32 [of "free_space bs'"] unat_sub [of 8 T] by (auto simp: word_unat_eq_iff word_le_nat_alt)
  then show "pagina_vacia K pid nro k4 = Some (free_space bs' + 8 = unat T)"
    using i' il by (simp add: pagina_vacia_def buscar_pagina_heap_def coll k4 T)
qed

lemma send_liberar:
  "send_to A OC_RESP_LIBERAR (Mem (u32_bytes v)) fd k =
     Some (k\<lparr>clientes := (clientes k)(fd := socket_send ([OC_RESP_LIBERAR] @ u32_bytes 4 @ u32_bytes v) (clientes k fd))\<rparr>)"
  by (simp add: send_to_def connection_send_def message_size_def code_lists source_consts)

lemma memory_delete_out:
  "sk_out (snd (memory_delete_page junk pid page s)) = sk_out s @ [oc_byte DELETE_PAGE_OC] @ u32_bytes pid @ u32_bytes page"
  by (auto simp: memory_delete_page_def recv_code_def socket_send_def dest: recv_storage_out split: prod.splits option.splits)

text \<open>The end of the free request: the page goes back to the memory, or out of the table when it is empty, and the program gets its answer.\<close>

lemma liberar_termina:
  assumes "kernel_commons K" and req: "request_from K fd k"
    and i: "find_index (\<lambda>p. ph_pid p = pl_pid ped \<and> ph_nro_pagina p = pl_nro_pagina ped) (tabla_paginas_heap k) = Some i"
    and len: "length pagina = unat T"
  shows "\<exists>k'. (if vacia then
        send_to A OC_RESP_LIBERAR (Mem (u32_bytes 1)) fd (liberar_pagina junk ped cod (tabla_heap_sacar_pagina K ped k))
      else do {
        k5 \<leftarrow> escribir_pagina junk pid nro T pagina k;
        k6 \<leftarrow> sumar_syscall K fd k5;
        send_to A OC_RESP_LIBERAR (Mem (u32_bytes 1)) fd k6 }) = Some k' \<and>
    tabla_paginas_heap k' = (if vacia then remove_at i (tabla_paginas_heap k) else tabla_paginas_heap k) \<and>
    sk_out (memory_socket k') = sk_out (memory_socket k) @
      (if vacia then [oc_byte DELETE_PAGE_OC] @ u32_bytes (pl_pid ped) @ u32_bytes (pl_nro_pagina ped + cod) else page_write pid nro pagina) \<and>
    sk_out (clientes k' fd) = sk_out (clientes k fd) @ [OC_RESP_LIBERAR] @ u32_bytes 4 @ u32_bytes 1"
proof (cases vacia)
  case True
  with i show ?thesis
    by (simp add: send_liberar liberar_pagina_def tabla_heap_sacar_pagina_def kernel_commons.coll_simps [OF assms(1)] remove_first_def
        memory_delete_out socket_send_def)
next
  case False
  obtain s where e: "escribir_pagina junk pid nro T pagina k = Some (k\<lparr>memory_socket := s\<rparr>)"
    "sk_out s = sk_out (memory_socket k) @ page_write pid nro pagina"
    using escribir_pagina_sent [of pagina T junk pid nro k] len by (auto simp: page_write_def)
  have "request_from K fd (k\<lparr>memory_socket := s\<rparr>)" using req by (simp add: request_from_def obtener_cpu_def)
  then obtain u where "sumar_syscall K fd (k\<lparr>memory_socket := s\<rparr>) = Some (k\<lparr>memory_socket := s, tabla_sockets_procesos := u\<rparr>)"
    using sumar_Some(1) by blast
  with False e show ?thesis by (simp add: send_liberar socket_send_def)
qed

text \<open>
  C22: Freeing gives back exactly the block it is asked to.  Let the address a program passes to
  \<open>OC_FUNCION_LIBERAR\<close> be that of a block in use of one of its heap pages.  Then the page becomes a page of
  blocks \<open>bs'\<close>, in which the block is free and the first pair of adjacent free blocks, if there is one, is joined to one; a second
  pair, as when the middle one of three blocks is freed between two free ones, stays apart.  The blocks tile the page exactly, and the blocks in use are the
  other ones, unmoved and unchanged.  If the free space is that of one single free block over the whole page, the page leaves the table and the
  memory is asked to delete it.  Otherwise the page is written back, an empty page of two free blocks too, and the
  recorded free space is again its free space.  The program receives the answer 1 in both cases.
\<close>

theorem liberar_frees_block:
  assumes "kernel_commons K" "request_from K fd k" and run: "obtener_cpu_por_proceso K pid k = Some c"
    and info: "buscar_codigo_de_proceso K pid k = Some info"
    and i: "find_index (\<lambda>p. ph_pid p = pid \<and> ph_nro_pagina p = nro) (tabla_paginas_heap k) = Some i"
    and entry: "tabla_paginas_heap k ! i = \<lparr>ph_pid = pid, ph_nro_pagina = nro, espacio_libre = word_of_nat (free_space bs)\<rparr>"
    and leer: "leer_pagina junk pid (nro + paginas_codigo info) k = Some (heap_bytes bs, k1)"
    and inv: "heap_inv (TAMANIO_PAGINAS k) bs" and j: "j < length bs" "\<not> hb_free (bs ! j)"
    and off: "off = length (heap_bytes (take j bs))"
    and bs': "bs' = join_first junk (bs[j := free_block junk (bs ! j)])"
    and room: "unat (TAMANIO_PAGINAS k) * (unat nro + unat (paginas_codigo info) + 1) < 2 ^ 31"
  shows "\<exists>k'. funcion_liberar K A junk fd \<lparr>pl_pid = pid, pl_nro_pagina = x,
      pl_posicion = word_of_nat (heap_address (TAMANIO_PAGINAS k) nro (paginas_codigo info) off)\<rparr> k = Some k' \<and>
    heap_inv (TAMANIO_PAGINAS k) bs' \<and> occupied 0 bs' = occupied 0 bs - {(off + 8, hb_data (bs ! j))} \<and>
    (if free_space bs' + 8 = unat (TAMANIO_PAGINAS k)
     then tabla_paginas_heap k' = remove_at i (tabla_paginas_heap k) \<and>
       sk_out (memory_socket k') = sk_out (memory_socket k1) @ [oc_byte DELETE_PAGE_OC] @ u32_bytes pid @ u32_bytes (nro + paginas_codigo info)
     else espacio_libre (tabla_paginas_heap k' ! i) = word_of_nat (free_space bs') \<and>
       sk_out (memory_socket k') = sk_out (memory_socket k1) @ page_write pid (nro + paginas_codigo info) (heap_bytes bs')) \<and>
    sk_out (clientes k' fd) = sk_out (clientes k fd) @ [OC_RESP_LIBERAR] @ u32_bytes 4 @ u32_bytes 1"
proof -
  let ?T = "TAMANIO_PAGINAS k" and ?cod = "paginas_codigo info"
  note coll = kernel_commons.coll_simps [OF assms(1)]
  define xs b ys where "xs = take j bs" and "b = bs ! j" and "ys = drop (Suc j) bs"
  have bs: "bs = xs @ b # ys" using j by (simp add: xs_def b_def ys_def id_take_nth_drop)
  have used: "\<not> hb_free b" and offx: "off = length (heap_bytes xs)" using j off by (simp_all add: b_def xs_def)
  have invx: "heap_inv ?T (xs @ b # ys)" using inv by (simp only: bs [symmetric])
  then have ok: "heap_ok ?T (xs @ b # ys)" and last: "hb_free (last (xs @ b # ys))" by (simp_all add: heap_inv_def)
  note okD = heap_okD [OF ok]
  obtain y ys' where ys: "ys = ys' @ [y]" using last used by (cases ys rule: rev_cases) auto
  have "8 \<le> length (heap_bytes ys)" using okD(5) by (simp add: ys)
  then have lt: "off + 8 < unat ?T" using okD(2) by (simp add: offx)
  let ?ped = "\<lparr>pl_pid = pid, pl_nro_pagina = nro, pl_posicion = word_of_nat off\<rparr>"
  have dir: "obtener_direccion_de_bloque_verdadera ?T \<lparr>pl_pid = pid, pl_nro_pagina = x,
      pl_posicion = word_of_nat (heap_address ?T nro ?cod off)\<rparr> ?cod = Some ?ped"
    by (rule direccion_verdadera [OF room lt])
  have w: "unat (word_of_nat off :: u32) = off" "\<not> sint (word_of_nat off :: u32) < 0"
    using lt okD(3) by (simp_all add: unat_of_nat_u32 sint_of_nat_u32)
  obtain s1 where k1: "k1 = k\<lparr>memory_socket := s1\<rparr>" using leer by (auto simp: leer_pagina_def split: prod.splits)
  define m where "m = \<lparr>hm_size = word_of_nat (length (hb_data b)), hm_isFree = hb_free b, hm_padding = fresh_padding junk\<rparr>"
  have bs'_def: "bs' = join_first junk (xs @ free_block junk b # ys)"
    using j(1) by (simp add: bs' upd_conv_take_nth_drop xs_def b_def ys_def)
  have "obtener_cpu_por_proceso K pid k1 = Some c" "\<exists>p. proceso_asignado (lista_cpu k1 ! c) = Some p"
    using run by (auto simp: obtener_cpu_por_proceso_def k1 coll find_index_Some_iff runs_pid_def split: option.splits)
  then obtain t where t: "sumar_espacio_liberado K pid (hm_size m) k1 = Some (k1\<lparr>tabla_sockets_procesos := t\<rparr>)"
    using update_par_Some unfolding sumar_espacio_liberado_def by blast
  let ?k2 = "k1\<lparr>tabla_sockets_procesos := t\<rparr>"
  define k4 where "k4 = ?k2\<lparr>tabla_paginas_heap := (tabla_paginas_heap ?k2)[i := \<lparr>ph_pid = pid, ph_nro_pagina = nro, espacio_libre = word_of_nat (free_space bs')\<rparr>]\<rparr>"
  have il: "i < length (tabla_paginas_heap k)" using i by (simp add: find_index_Some_iff)
  have T2: "?T = TAMANIO_PAGINAS ?k2" and tab2: "tabla_paginas_heap ?k2 = tabla_paginas_heap k" by (simp_all add: k1)
  have i2: "find_index (\<lambda>p. ph_pid p = pid \<and> ph_nro_pagina p = nro) (tabla_paginas_heap ?k2) = Some i"
    and e2: "tabla_paginas_heap ?k2 ! i = \<lparr>ph_pid = pid, ph_nro_pagina = nro, espacio_libre = word_of_nat (free_space (xs @ b # ys))\<rparr>"
    using i entry unfolding tab2 bs [symmetric] by simp_all
  note lb = liberar_bloque [OF assms(1) invx used T2 i2 e2 bs'_def m_def refl k4_def, folded bs, folded offx]
  obtain k3 where k3: "tabla_heap_cambiar_espacio_libre K ?ped (hm_size m) ?k2 = Some k3"
    "defragmentar K junk (heap_bytes (xs @ free_block junk b # ys)) ?ped k3 = Some (heap_bytes bs', k4)"
    using lb(3) by blast
  have i4: "find_index (\<lambda>p. ph_pid p = pl_pid ?ped \<and> ph_nro_pagina p = pl_nro_pagina ?ped) (tabla_paginas_heap k4) = Some i"
    using find_index_update_same [OF il, of "\<lambda>p. ph_pid p = pid \<and> ph_nro_pagina p = nro"] i entry by (simp add: k4_def k1)
  have from4: "request_from K fd k4" using assms(2) by (simp add: request_from_def obtener_cpu_def k4_def k1)
  have "length (heap_bytes bs') = unat ?T" using lb(5) by (simp add: heap_inv_def heap_ok_def)
  from liberar_termina [OF assms(1) from4 i4 this, of "free_space bs' + 8 = unat ?T" A junk ?cod pid "nro + ?cod"] obtain k' where
    k': "funcion_liberar K A junk fd \<lparr>pl_pid = pid, pl_nro_pagina = x, pl_posicion = word_of_nat (heap_address ?T nro ?cod off)\<rparr> k = Some k'"
      "tabla_paginas_heap k' = (if free_space bs' + 8 = unat ?T then remove_at i (tabla_paginas_heap k4) else tabla_paginas_heap k4)"
      "sk_out (memory_socket k') = sk_out (memory_socket k4) @
        (if free_space bs' + 8 = unat ?T then [oc_byte DELETE_PAGE_OC] @ u32_bytes pid @ u32_bytes (nro + ?cod)
         else page_write pid (nro + ?cod) (heap_bytes bs'))"
      "sk_out (clientes k' fd) = sk_out (clientes k4 fd) @ [OC_RESP_LIBERAR] @ u32_bytes 4 @ u32_bytes 1"
    unfolding funcion_liberar_def t_pedido_liberar_memoria.simps info bind.simps dir leer prod.case w if_False Let_def
    by (simp only: w(2) if_False bind.simps prod.case lb(1) t lb(2) k3 lb(4) t_pedido_liberar_memoria.simps) blast
  moreover have "remove_at i ((tabla_paginas_heap k)[i := e]) = remove_at i (tabla_paginas_heap k)" for e
    by (simp add: remove_at_def)
  ultimately show ?thesis using lb(5,6) il by (simp add: b_def k4_def k1)
qed

theorem liberar_frees_block_witness:
  "\<exists>k'. funcion_liberar seq_kernel_lib abi32 (\<lambda>_. 0) 7 \<lparr>pl_pid = 1, pl_nro_pagina = 0, pl_posicion = 136\<rparr>
      (demo_kernel [\<lparr>ph_pid = 1, ph_nro_pagina = 0, espacio_libre = 44\<rparr>]
        (code_bytes SUCCESS @ u32_bytes 64 @ heap_bytes [demo_block False 4, demo_block True 44] @ code_bytes SUCCESS)) = Some k' \<and>
    tabla_paginas_heap k' = []"
proof -
  let ?bs = "[demo_block False 4, demo_block True 44]"
  let ?ans = "code_bytes SUCCESS @ u32_bytes 64 @ heap_bytes ?bs @ code_bytes SUCCESS"
  let ?k = "demo_kernel [\<lparr>ph_pid = 1, ph_nro_pagina = 0, espacio_libre = 44\<rparr>] ?ans"
  have len: "length (heap_bytes ?bs) = 64" by (simp add: demo_block_def)
  have inv: "heap_inv 64 ?bs" by (simp add: heap_inv_def heap_ok_def demo_block_def)
  have run: "obtener_cpu_por_proceso seq_kernel_lib 1 ?k = Some 0"
    by (simp add: obtener_cpu_por_proceso_def demo_simps runs_pid_def)
  show ?thesis
    using liberar_frees_block [OF seq_kernel.kernel_commons_axioms demo_request run demo_info _ _
        demo_leer [where heap = "[\<lparr>ph_pid = 1, ph_nro_pagina = 0, espacio_libre = 44\<rparr>]" and rest = "code_bytes SUCCESS", OF len],
        where i = 0 and nro = 0 and j = 0 and off = 0 and A = abi32 and x = 0
        and bs' = "join_first (\<lambda>_. 0) (?bs[0 := free_block (\<lambda>_. 0) (?bs ! 0)])"] inv
    by (auto simp: demo_block_def heap_address_def free_block_def join_blocks_def remove_at_def)
qed

end
