(* ===== verification/Kernel_Select_Files.thy ===== *)
theory Kernel_Select_Files
  imports Kernel_Select
begin

text \<open>
  The tables of open files along the events of the kernel: no request, connection or disconnection disturbs them, whether it is about files or about
  the heap, the semaphores or the end of a process.
\<close>

section \<open>Steps that leave the tables alone\<close>

lemma file_inv_fields [simp]:
  "file_inv (k\<lparr>tabla_paginas_heap := x1\<rparr>) = file_inv k" "file_inv (k\<lparr>tabla_variables_compartidas := x2\<rparr>) = file_inv k"
  "file_inv (k\<lparr>tabla_paginas_por_proceso := x3\<rparr>) = file_inv k" "file_inv (k\<lparr>tabla_sockets_procesos := x4\<rparr>) = file_inv k"
  "file_inv (k\<lparr>semaforos := x5\<rparr>) = file_inv k" "file_inv (k\<lparr>registro_pid := x6\<rparr>) = file_inv k"
  "file_inv (k\<lparr>cola_nuevos := x7\<rparr>) = file_inv k" "file_inv (k\<lparr>cola_listos := x8\<rparr>) = file_inv k"
  "file_inv (k\<lparr>cola_bloqueados := x9\<rparr>) = file_inv k" "file_inv (k\<lparr>cola_finalizados := x10\<rparr>) = file_inv k"
  "file_inv (k\<lparr>lista_cpu := x11\<rparr>) = file_inv k" "file_inv (k\<lparr>semPlanificarLargoPlazo := x12\<rparr>) = file_inv k"
  "file_inv (k\<lparr>semCantidadProgramasPlanificados := x13\<rparr>) = file_inv k" "file_inv (k\<lparr>semCantidadElementosColaListos := x14\<rparr>) = file_inv k"
  "file_inv (k\<lparr>semCantidadCpuLibres := x15\<rparr>) = file_inv k" "file_inv (k\<lparr>memory_socket := x16\<rparr>) = file_inv k"
  "file_inv (k\<lparr>clientes := x17\<rparr>) = file_inv k"
  by (simp_all add: file_inv_def)

lemma file_inv_steps [simp]:
  "file_inv (update_cpu i f k) = file_inv k" "file_inv (liberar_cpu i k) = file_inv k" "file_inv (eliminar_cpu K fd k) = file_inv k"
  "file_inv (cola_listos_push K p k) = file_inv k" "file_inv (update_sem i g k) = file_inv k"
  "file_inv (finalizar_en_memoria junk pid k) = file_inv k" "file_inv (sacar_de_semaforos K pid16 k) = file_inv k"
  "file_inv (update_pagina i h k) = file_inv k" "file_inv (liberar_pagina junk pedido off k) = file_inv k"
  "file_inv (modificar_pagina i n k) = file_inv k" "file_inv (tabla_heap_agregar_pagina K pid k) = file_inv k"
  "file_inv (tabla_heap_sacar_pagina K pedido k) = file_inv k"
  by (simp_all add: update_cpu_def liberar_cpu_def eliminar_cpu_def cola_listos_push_def update_sem_def finalizar_en_memoria_def
      sacar_de_semaforos_def update_pagina_def liberar_pagina_def modificar_pagina_def tabla_heap_agregar_pagina_def
      tabla_heap_sacar_pagina_def Let_def)

lemma files_kept_more:
  "file_inv k \<Longrightarrow> files_kept (sumar_espacio_reservado K n fd k)" "file_inv k \<Longrightarrow> files_kept (sumar_espacio_liberado K pid n k)"
  "file_inv k \<Longrightarrow> files_kept (escribir_pagina junk pid page n bytes k)" "file_inv k \<Longrightarrow> files_kept (responder_reservar A fd p e k)"
  "file_inv k \<Longrightarrow> files_kept (tabla_heap_cambiar_espacio_libre K pedido n k)" "file_inv k \<Longrightarrow> files_kept (asignarValorVariable K v k)"
  "file_inv k \<Longrightarrow> files_kept (pasarDeExecuteAReady K i k)" "file_inv k \<Longrightarrow> files_kept (pasarDeExecuteAExit K i k)"
  "file_inv k \<Longrightarrow> files_kept (pasarDeBlockedAReady K pid16 k)" "file_inv k \<Longrightarrow> files_kept (pasarDeExecuteABlocked K i k)"
  "file_inv k \<Longrightarrow> files_kept (avisar_consola K A pid k)"
  by (auto simp: files_kept_def sumar_espacio_reservado_def sumar_espacio_liberado_def escribir_pagina_def responder_reservar_def
      tabla_heap_cambiar_espacio_libre_def asignarValorVariable_def pasarDeExecuteAReady_def pasarDeExecuteAExit_def
      pasarDeBlockedAReady_def pasarDeExecuteABlocked_def avisar_consola_def Let_def
      split: if_splits prod.splits option.splits dest!: update_par_other dest: step_keeps_inv)

lemmas keep_rules = files_kept_rules files_kept_more

lemma leer_pagina_files: "leer_pagina junk pid page k = Some (b, k1) \<Longrightarrow> file_inv k1 = file_inv k"
  by (auto simp: leer_pagina_def split: prod.splits)

lemma continuar_files: "continuar_procesando i k = (b, k1) \<Longrightarrow> file_inv k1 = file_inv k"
  by (auto simp: continuar_procesando_def Let_def split: if_splits)

lemma defragmentar_files: "defragmentar K junk pg pedido k = Some (pg', k1) \<Longrightarrow> file_inv k \<Longrightarrow> file_inv k1"
  using files_kept_more(5) by (auto simp: defragmentar_def files_kept_def split: bind_splits if_splits)

lemma reservar_en_files: "file_inv k \<Longrightarrow> files_kept (reservar_en_pagina K A junk fd pid n i k)"
  unfolding reservar_en_pagina_def Let_def by (intro keep_rules) (auto dest: leer_pagina_files)

lemma nueva_pagina_files: "nueva_pagina_heap K A junk fd pid n k = Some r \<Longrightarrow> file_inv k \<Longrightarrow> case r of Inl k1 \<Rightarrow> file_inv k1 | Inr (i, k1) \<Rightarrow> file_inv k1"
  by (auto simp: nueva_pagina_heap_def Let_def escribir_pagina_def responder_reservar_def send_to_def split: prod.splits if_splits bind_splits)

lemma heap_files:
  "file_inv k \<Longrightarrow> files_kept (funcion_reservar K A junk fd pid n k)" "file_inv k \<Longrightarrow> files_kept (funcion_liberar K A junk fd pedido k)"
proof -
  assume inv: "file_inv k"
  show "files_kept (funcion_reservar K A junk fd pid n k)"
    unfolding funcion_reservar_def using inv
    by (intro keep_rules) (auto simp: files_kept_basic dest!: nueva_pagina_files intro: reservar_en_files split: sum.splits)
  show "files_kept (funcion_liberar K A junk fd pedido k)"
    unfolding funcion_liberar_def Let_def using inv
    by (intro keep_rules) (auto dest: leer_pagina_files defragmentar_files)
qed

lemma variables_files: "file_inv k \<Longrightarrow> files_kept (escribir_variable K fd b k)" "file_inv k \<Longrightarrow> files_kept (leer_variable K A fd b k)"
  unfolding escribir_variable_def leer_variable_def by (intro keep_rules; simp add: keep_rules split: list.split)+

lemma aplicar_wait_files: "file_inv k \<Longrightarrow> files_kept (aplicar_wait K i k)"
  unfolding aplicar_wait_def Let_def by (intro keep_rules) auto

lemma semaforos_files:
  "file_inv k \<Longrightarrow> files_kept (funcion_signal K A fd nombre k)" "file_inv k \<Longrightarrow> files_kept (funcion_wait K A fd nombre k)"
  unfolding funcion_signal_def funcion_wait_def Let_def by (intro keep_rules; auto)+

lemma termino_files: "file_inv k \<Longrightarrow> files_kept (termino_instruccion K A junk fd p k)"
  unfolding termino_instruccion_def Let_def by (intro keep_rules aplicar_wait_files) (auto dest: continuar_files)

lemma fin_files:
  "file_inv k \<Longrightarrow> files_kept (termina_programa K A junk fd p k)" "file_inv k \<Longrightarrow> files_kept (error_ejecucion_cpu K A junk fd p k)"
  "file_inv k \<Longrightarrow> files_kept (desconex_cpu K fd p k)"
  unfolding termina_programa_def error_ejecucion_cpu_def terminar_en_cpu_def desconex_cpu_def Let_def by (intro keep_rules; auto)+

section \<open>New programs and killed ones\<close>

definition tabla_nueva :: "kernel \<Rightarrow> bool" where
  "tabla_nueva k \<longleftrightarrow> (\<forall>t \<in> set (listaDeTablasDeArchivosDeProcesos k). tf_pid t \<noteq> ucast (ucast (registro_pid k) :: u16))"

lemma exit_files: "pasar_proceso_a_exit K junk pid k = Some (b, k') \<Longrightarrow> file_inv k \<Longrightarrow> file_inv k'"
  by (auto simp: pasar_proceso_a_exit_def finalizar_sacado_def Let_def split: prod.splits option.splits if_splits)

lemma exit_tables:
  "pasar_proceso_a_exit K junk pid k = Some (b, k') \<Longrightarrow> listaDeTablasDeArchivosDeProcesos k' = listaDeTablasDeArchivosDeProcesos k"
  by (auto simp: pasar_proceso_a_exit_def finalizar_sacado_def finalizar_en_memoria_def sacar_de_semaforos_def update_cpu_def Let_def
      split: prod.splits option.splits if_splits)

lemma kill_consola_files: "file_inv k \<Longrightarrow> files_kept (kill_consola K A junk pid k)"
  unfolding kill_consola_def by (intro keep_rules) (auto dest: exit_files)

lemma desconexion_consola_files:
  assumes "desconexion_consola K junk fd k = Some k'" "file_inv k"
  shows "file_inv k'"
proof -
  let ?P = "\<lambda>K junk fd k k'. file_inv k \<longrightarrow> file_inv k'"
  have "?P K junk fd k k'"
  proof (rule desconexion_consola.raw_induct [where P = ?P, OF _ assms(1)])
    fix rec K junk fd k k'
    assume IH: "\<And>K junk fd k k'. rec K junk fd k = Some k' \<Longrightarrow> ?P K junk fd k k'"
      and step: "(case buscar_proceso_por_socket K fd k of (None, k1) \<Rightarrow> Some k1
        | (Some q, k1) \<Rightarrow> pasar_proceso_a_exit K junk (par_pid q) k1 \<bind> (\<lambda>(_, k2). rec K junk fd k2)) = Some k'"
    obtain par k1 where b: "buscar_proceso_por_socket K fd k = (par, k1)" by fastforce
    have k1: "file_inv k1 = file_inv k" using b by (auto simp: buscar_proceso_por_socket_def split: prod.splits)
    show "?P K junk fd k k'"
    proof (cases par)
      case None
      then show ?thesis using step k1 by (simp add: b)
    next
      case (Some q)
      then obtain b' k2 where "pasar_proceso_a_exit K junk (par_pid q) k1 = Some (b', k2)" "rec K junk fd k2 = Some k'"
        using step b by (auto simp: bind_eq_Some_conv)
      then show ?thesis using IH exit_files k1 by blast
    qed
  qed
  then show ?thesis using assms(2) by blast
qed

context kernel_commons
begin

lemma tabla_agregada:
  assumes "file_inv k" "\<forall>t \<in> set (listaDeTablasDeArchivosDeProcesos k). tf_pid t \<noteq> pid"
  shows "file_inv (k\<lparr>listaDeTablasDeArchivosDeProcesos := kl_add (tf_c K) (listaDeTablasDeArchivosDeProcesos k)
    \<lparr>tf_pid = pid, tabla_archivos = [], contador_fd = n\<rparr>\<rparr>)"
  using assms by (auto simp: file_inv_def tables_ok_def counts_ok_def refs_def coll_simps)

lemma nuevo_files:
  assumes "file_inv k" "tabla_nueva k"
  shows "files_kept (solicitud_programa_nuevo K A junk meta fd codigo k)"
proof -
  have last: "file_inv (k4\<lparr>listaDeTablasDeArchivosDeProcesos := kl_add (tf_c K) (listaDeTablasDeArchivosDeProcesos k4)
      \<lparr>tf_pid = ucast (ucast (registro_pid k) :: u16), tabla_archivos = [], contador_fd = 10\<rparr>\<rparr>)"
    if "send_to A oc m fd (k\<lparr>registro_pid := r, tabla_sockets_procesos := ps, tabla_paginas_por_proceso := cs\<rparr>) = Some k4" for oc m r ps cs k4
  proof -
    from same_files_steps(1) [OF that] have "file_inv k4" "listaDeTablasDeArchivosDeProcesos k4 = listaDeTablasDeArchivosDeProcesos k"
      using assms(1) by (simp_all add: same_files_def file_inv_def)
    then show ?thesis using assms(2) by (intro tabla_agregada) (simp_all add: tabla_nueva_def)
  qed
  show ?thesis
    unfolding solicitud_programa_nuevo_def crear_PCB_def Let_def prod.case
    by (intro files_kept_branch(1) files_kept_basic(2)) (simp add: last)
qed

end

section \<open>Events\<close>

text \<open>
  The counters of descriptors have not come round to a descriptor in use when a file is opened, and a new program has a pid
  for which there is no table.
\<close>

definition hay_lugar :: "kernel \<Rightarrow> bool" where
  "hay_lugar k \<longleftrightarrow> ucast (contador_fd_global k) \<notin> gf_global_fd ` set (tabla_global_archivos k) \<and>
     (\<forall>t \<in> set (listaDeTablasDeArchivosDeProcesos k). contador_fd t \<noteq> 0 \<and> ucast (contador_fd t) \<notin> proceso_fd ` set (tabla_archivos t)) \<and>
     (\<forall>g \<in> set (tabla_global_archivos k). sint (gf_open g) < 2 ^ 31 - 1)"

lemma hay_lugar_room: "hay_lugar k \<Longrightarrow> \<forall>pid. room_for pid k"
  by (simp add: hay_lugar_def room_for_def)

definition archivos_ok :: "abi \<Rightarrow> storage \<Rightarrow> evento \<Rightarrow> kernel \<Rightarrow> bool" where
  "archivos_ok A junk e k = (case e of
     Conexion port fd \<Rightarrow> True
   | Datos port fd \<Rightarrow> (case connection_recv A junk (clientes k fd) of
       None \<Rightarrow> True
     | Some (r, s) \<Rightarrow> (rc_oc r = Some OC_FUNCION_ABRIR \<longrightarrow> hay_lugar k) \<and> (rc_oc r = Some OC_SOLICITUD_PROGRAMA_NUEVO \<longrightarrow> tabla_nueva k)))"

fun eventos_archivos_ok ::
    "kernel_lib \<Rightarrow> abi \<Rightarrow> storage \<Rightarrow> (c_str \<Rightarrow> t_metadata_program) \<Rightarrow> evento list \<Rightarrow> kernel \<Rightarrow> bool" where
  "eventos_archivos_ok K A junk meta [] k = True"
| "eventos_archivos_ok K A junk meta (e # es) k = (archivos_ok A junk e k \<and>
     (case seleccionado K A junk meta e k of None \<Rightarrow> True | Some k1 \<Rightarrow> eventos_archivos_ok K A junk meta es k1))"

context kernel_commons
begin

lemma request_keeps_files:
  assumes inv: "file_inv k" and "oc = OC_FUNCION_ABRIR \<longrightarrow> hay_lugar k" and "oc = OC_SOLICITUD_PROGRAMA_NUEVO \<longrightarrow> tabla_nueva k"
  shows "files_kept (solve_request K A junk meta fd oc request k)"
proof (cases request)
  case (Archivo a)
  then show ?thesis using escribir_keeps_inv [OF inv] by (simp add: solve_request_def files_kept_basic)
next
  case (Raw b)
  have abrir: "oc = OC_FUNCION_ABRIR \<Longrightarrow> files_kept (funcion_abrir K A junk fd b k)"
    using abrir_keeps_inv [OF inv hay_lugar_room] assms(2) by simp
  have nuevo: "oc = OC_SOLICITUD_PROGRAMA_NUEVO \<Longrightarrow> files_kept (solicitud_programa_nuevo K A junk meta fd c k)" for c
    using nuevo_files [OF inv] assms(3) by simp
  note handlers = heap_files [OF inv] leer_keeps_inv [OF inv] cerrar_keeps_inv [OF inv] borrar_keeps_inv [OF inv] mover_keeps_inv [OF inv]
    variables_files [OF inv] semaforos_files [OF inv] termino_files [OF inv] fin_files [OF inv] kill_consola_files [OF inv]
    files_kept_basic(1) files_kept_basic(2) [OF inv]
  show ?thesis
    unfolding solve_request_def Raw payload.case
    by (intro files_kept_branch(2); (intro files_kept_branch(1))?; (rule handlers | (rule nuevo abrir, assumption)))
qed

lemma desconexion_keeps_files: "file_inv k \<Longrightarrow> files_kept (desconexion K junk port fd k)"
  by (cases port) (auto simp: desconexion_def desconexion_cpu_def files_kept_def split: option.splits dest: desconexion_consola_files)

lemma evento_keeps_files:
  assumes "archivos_ok A junk e k" and inv: "file_inv k"
  shows "files_kept (seleccionado K A junk meta e k)"
proof (cases e)
  case (Conexion port fd)
  then show ?thesis using inv
    by (cases port) (auto simp: seleccionado_def nueva_conexion_def conectar_cpu_def files_kept_def dest: step_keeps_inv)
next
  case (Datos port fd)
  show ?thesis
    unfolding seleccionado_def Datos evento.case atender_def
  proof (intro files_kept_branch(1,2,3), goal_cases)
    case (1 rs r s)
    then show ?case unfolding Let_def
      using assms inv
      by (intro files_kept_branch desconexion_keeps_files request_keeps_files)
        (simp_all add: archivos_ok_def Datos hay_lugar_def tabla_nueva_def)
  qed
qed

lemma select_keeps_files:
  assumes "manage_select K A junk meta es k = Some k'" "eventos_archivos_ok K A junk meta es k" "file_inv k"
  shows "file_inv k'"
  using assms
proof (induction es arbitrary: k)
  case (Cons e es)
  then obtain k1 where k1: "seleccionado K A junk meta e k = Some k1" "manage_select K A junk meta es k1 = Some k'"
    by (auto simp: bind_eq_Some_conv)
  have "file_inv k1" using evento_keeps_files [of A junk e k meta] Cons.prems(2,3) k1(1) by (simp add: files_kept_def)
  then show ?case using Cons.IH [OF k1(2)] Cons.prems(2) k1(1) by simp
qed simp

end

section \<open>Property of the event loop\<close>

text \<open>
  The event loop keeps the tables of open files.  Whatever events of the CPUs and of the consoles arrive in whatever order, with whatever
  bytes in their requests, after them the descriptors of each process are distinct, each refers to an entry of the global table, the paths and
  descriptors there are distinct, and each open count is the positive number of descriptors that refer to it.  The conditions are
  that no counter of descriptors has come round when a file is opened, and that a new program has a new pid.
\<close>

theorem event_loop_keeps_files:
  assumes "kernel_commons K" and "manage_select K A junk meta es k = Some k'" and "eventos_archivos_ok K A junk meta es k"
    and "file_inv k"
  shows "file_inv k'"
  by (rule kernel_commons.select_keeps_files [OF assms])

theorem event_loop_keeps_files_witness:
  "\<exists>k'. manage_select seq_kernel_lib abi32 (\<lambda>_. 0) (\<lambda>_. undefined) [Conexion Puerto_cpu 9, Datos Puerto_cpu 7, Conexion Puerto_programas 10]
      (demo_kernel [] []) = Some k' \<and> file_inv k'"
proof -
  let ?es = "[Conexion Puerto_cpu 9, Datos Puerto_cpu 7, Conexion Puerto_programas 10]"
  let ?k = "demo_kernel [] []"
  have inv: "file_inv ?k" by (simp add: file_inv_def tables_ok_def counts_ok_def demo_kernel_def)
  obtain k' where "manage_select seq_kernel_lib abi32 (\<lambda>_. 0) (\<lambda>_. undefined) ?es ?k = Some k'"
    and "eventos_archivos_ok seq_kernel_lib abi32 (\<lambda>_. 0) (\<lambda>_. undefined) ?es ?k"
    by (simp add: seleccionado_def nueva_conexion_def conectar_cpu_def send_to_def connection_send_def message_size_def code_lists source_consts
        socket_send_def atender_def connection_recv_def socket_recv_def desconexion_def desconexion_cpu_def archivos_ok_def
        obtener_cpu_def demo_simps cpu_create_def)
  with event_loop_keeps_files [OF seq_kernel.kernel_commons_axioms _ _ inv] show ?thesis by blast
qed

end
