(* ===== verification/Consola.thy ===== *)
theory Consola
  imports Kernel_State
begin

text \<open>
  The console process (\<open>consola/src/consola.c\<close>): the commands of the user, reading a program from a file, and
  the thread that starts a program in the kernel and shows what it writes.

  The files of the host are a map from paths to contents.  The structure of a program that has just been
  started has no defined pid until its thread has received one; the pid it has until then is a parameter.  The list of
  programs and the string functions of so-commons are parameters.  Each command and each thread is modelled by itself; reading
  of the configuration, connecting, times and the log are left out.
\<close>

definition CON_ERROR_COMANDO :: int where [source_consts]: "CON_ERROR_COMANDO = -1"
definition CON_ERROR_ARG :: int where [source_consts]: "CON_ERROR_ARG = -2"
definition CON_ERROR_ARCH :: int where [source_consts]: "CON_ERROR_ARCH = -3"
definition CON_ERROR_PID :: int where [source_consts]: "CON_ERROR_PID = -4"
definition CON_ERROR_VACIO :: int where [source_consts]: "CON_ERROR_VACIO = -5"
definition CON_OK :: int where [source_consts]: "CON_OK = 1"

record threadpid =
  th_file_content :: "byte list"
  th_pid :: u32

record consola =
  thread_list :: "threadpid list"
  main_console_socket :: sock

record consola_proc_lib =
  thread_c :: "threadpid coll"
  n_split :: "string \<Rightarrow> nat \<Rightarrow> string \<Rightarrow> string list"
  string_trim :: "string \<Rightarrow> string"

section \<open>Reading a program\<close>

text \<open>
  \<open>fgets (buffer, 255, file)\<close>: up to 254 bytes, ending behind the first newline; \<open>string_append\<close> adds what comes
  before the first zero byte.
\<close>

fun fgets_line :: "nat \<Rightarrow> byte list \<Rightarrow> byte list \<times> byte list" where
  "fgets_line 0 bs = ([], bs)"
| "fgets_line (Suc n) [] = ([], [])"
| "fgets_line (Suc n) (b # bs) = (if b = 10 then ([b], bs) else (case fgets_line n bs of (l, r) \<Rightarrow> (b # l, r)))"

lemma fgets_line_append: "fgets_line n bs = (l, r) \<Longrightarrow> l @ r = bs"
  by (induction n bs arbitrary: l r rule: fgets_line.induct) (auto split: if_splits prod.splits)

lemma fgets_line_shrinks: "fgets_line n bs = (l, r) \<Longrightarrow> 0 < n \<Longrightarrow> bs \<noteq> [] \<Longrightarrow> length r < length bs"
proof (induction n bs arbitrary: l r rule: fgets_line.induct)
  case (3 n b bs)
  then show ?case using fgets_line_append [of n bs] by (auto split: if_splits prod.splits)
qed simp_all

function read_lines :: "byte list \<Rightarrow> byte list" where
  "read_lines bs =
     (if bs = [] then [] else (case fgets_line 254 bs of (l, r) \<Rightarrow> takeWhile (\<lambda>c. c \<noteq> 0) l @ read_lines r))"
  by pat_completeness auto

termination read_lines
proof (relation "measure length")
  fix bs l r assume "bs \<noteq> []" "(l, r) = fgets_line 254 bs"
  then show "(r, bs) \<in> measure length"
    using fgets_line_shrinks [of 254 bs l r] by simp
qed simp

declare read_lines.simps [simp del]

definition consola_read_file :: "consola_proc_lib \<Rightarrow> (string \<Rightarrow> byte list option) \<Rightarrow> string \<Rightarrow> byte list option" where
  "consola_read_file P files path =
     map_option read_lines (files (if path = ''1'' then ''/home/utnso/eje.ansisop'' else string_trim P path))"

section \<open>Commands\<close>

datatype resultado = Codigo int | Abortado

definition init_comando :: "consola_proc_lib \<Rightarrow> (string \<Rightarrow> byte list option) \<Rightarrow> u32 \<Rightarrow> string list \<Rightarrow> consola \<Rightarrow> int \<times> consola" where
  "init_comando P files fresh_pid palabras c =
     (if length palabras \<noteq> 2 then (CON_ERROR_ARG, c)
      else case consola_read_file P files (palabras ! 1) of
          None \<Rightarrow> (CON_ERROR_ARCH, c)
        | Some content \<Rightarrow> (CON_OK, c\<lparr>thread_list := kl_add (thread_c P) (thread_list c)
            \<lparr>th_file_content = content, th_pid = fresh_pid\<rparr>\<rparr>))"

definition kill_programa :: "consola_proc_lib \<Rightarrow> abi \<Rightarrow> string list \<Rightarrow> consola \<Rightarrow> (int \<times> consola) option" where
  "kill_programa P A palabras c =
     (if length palabras \<noteq> 2 then Some (CON_ERROR_ARG, c)
      else (let pid = atoi (palabras ! 1) in
        case kl_find (thread_c P) (thread_list c) (\<lambda>t. th_pid t = pid) of
          None \<Rightarrow> Some (CON_ERROR_PID, c)
        | Some i \<Rightarrow> do {
            (_, s) \<leftarrow> connection_send A OC_KILL_CONSOLA (Mem (u32_bytes (th_pid (thread_list c ! i)))) (main_console_socket c);
            Some (CON_OK, c\<lparr>main_console_socket := s,
              thread_list := snd (kl_remove_by_condition (thread_c P) (thread_list c) (\<lambda>t. th_pid t = pid))\<rparr>) }))"

definition read_command ::
    "consola_proc_lib \<Rightarrow> abi \<Rightarrow> (string \<Rightarrow> byte list option) \<Rightarrow> u32 \<Rightarrow> string \<Rightarrow> consola \<Rightarrow> (resultado \<times> string \<times> consola) option" where
  "read_command P A files fresh_pid command c =
     (if CHR 0x0A \<notin> set command then None
      else (let line = takeWhile (\<lambda>x. x \<noteq> CHR 0x0A) command in
        if line = [] then Some (Codigo CON_ERROR_VACIO, [], c)
        else (let palabras = n_split P line 2 '' '' in
          case palabras of [] \<Rightarrow> None | w # _ \<Rightarrow>
            if w = ''init'' then
              (case init_comando P files fresh_pid palabras c of (r, c1) \<Rightarrow> Some (Codigo r,
                 if length palabras \<noteq> 2 then ''Cantidad de parametros erronea'' @ [CHR 0x0A]
                 else (case consola_read_file P files (palabras ! 1) of None \<Rightarrow> []
                   | Some t \<Rightarrow> [CHR 0x0A] @ ''Mensaje compilado: '' @ as_chars t @ '' '' @ [CHR 0x0A]), c1))
            else if w = ''kill'' then
              map_option (\<lambda>(r, c1). (Codigo r, if length palabras \<noteq> 2 then ''Cantidad de parametros erronea'' @ [CHR 0x0A] else [], c1))
                (kill_programa P A palabras c)
            else if w = ''disconnect'' then Some (Abortado, ''Hasta Luego'', c)
            else if w = ''clean'' then Some (Codigo CON_OK, CHR 0x1B # ''[1;1H'' @ CHR 0x1B # ''[2J'', c)
            else Some (Codigo CON_ERROR_COMANDO, [], c))))"

section \<open>The thread of a program\<close>

definition inicializarPaletaDeColores :: "string list" where
  "inicializarPaletaDeColores = map (\<lambda>s. CHR 0x1B # s) [''[34m'', ''[33m'', ''[32m'', ''[35m'', ''[36m'']"

text \<open>
  The variables a thread keeps between two receives: the operation code and the message stay as they were when a receive
  does not assign them.
\<close>

record escucha =
  e_code :: byte
  e_buffer :: "payload option"
  cantidad_escrituras :: u8

definition texto :: "payload option \<Rightarrow> string option" where
  "texto b = (case b of Some (Raw bs) \<Rightarrow> if 0 \<in> set bs then Some (as_chars (takeWhile (\<lambda>c. c \<noteq> 0) bs)) else None | _ \<Rightarrow> None)"

definition mostrar :: "string \<Rightarrow> u32 \<Rightarrow> recv_result \<Rightarrow> escucha \<Rightarrow> (string \<times> int \<times> escucha) option" where
  "mostrar color pid r e =
     (let e1 = e\<lparr>e_code := (case rc_oc r of None \<Rightarrow> e_code e | Some c \<Rightarrow> c),
                 e_buffer := (case rc_msg r of None \<Rightarrow> e_buffer e | Some m \<Rightarrow> Some m)\<rparr> in
      if e_code e1 = OC_INSTRUCCION_CONSOLA then do {
        t \<leftarrow> texto (e_buffer e1);
        Some (color @ '' ['' @ dec_int (sint pid) @ ''] '' @ t @ [CHR 0x0A], rc_ret r, e1) }
      else if e_code e1 = OC_ESCRIBIR_EN_CONSOLA then do {
        t \<leftarrow> texto (e_buffer e1);
        Some (color @ '' [Process: '' @ dec_int (sint pid) @ ''] '' @ t @ '' '' @ [CHR 0x0A], rc_ret r,
              e1\<lparr>cantidad_escrituras := cantidad_escrituras e1 + 1\<rparr>) }
      else Some ([], if e_code e1 = OC_MUERE_PROGRAMA then 0 else rc_ret r, e1))"

lemma recv_body_in: "recv_body A junk oc n st s = Some (x, y, s') \<Longrightarrow> length (sk_in s') \<le> length (sk_in s)"
  by (auto simp: recv_body_def recv_archivo_def socket_recv_def Let_def split: if_splits)

lemma connection_recv_progress:
  assumes "connection_recv A junk s = Some (r, s')" "rc_ret r \<noteq> 0"
  shows "length (sk_in s') < length (sk_in s)"
  using assms by (cases "sk_in s")
    (auto simp: connection_recv_def socket_recv_def split: if_splits dest!: recv_body_in)

function escuchar :: "abi \<Rightarrow> storage \<Rightarrow> string \<Rightarrow> u32 \<Rightarrow> escucha \<Rightarrow> sock \<Rightarrow> (string \<times> escucha \<times> sock) option" where
  "escuchar A junk color pid e s =
     (case connection_recv A junk s of
        None \<Rightarrow> None
      | Some (r, s1) \<Rightarrow>
          (case mostrar color pid r e of
             None \<Rightarrow> None
           | Some (out, result, e1) \<Rightarrow>
               if result = 0 then Some (out, e1, s1)
               else (case escuchar A junk color pid e1 s1 of
                       None \<Rightarrow> None
                     | Some (rest, e2, s2) \<Rightarrow> Some (out @ rest, e2, s2))))"
  by pat_completeness auto

lemma mostrar_result: "mostrar color pid r e = Some (out, result, e1) \<Longrightarrow> result \<noteq> 0 \<Longrightarrow> rc_ret r \<noteq> 0"
  by (auto simp: mostrar_def Let_def split: if_splits bind_splits)

termination escuchar
  by (relation "measure (\<lambda>(A, junk, color, pid, e, s). length (sk_in s))")
    (auto dest: mostrar_result connection_recv_progress)

declare escuchar.simps [simp del]

definition thread_subprograma ::
    "abi \<Rightarrow> storage \<Rightarrow> threadpid \<Rightarrow> byte \<Rightarrow> sock \<Rightarrow> (string \<times> u32 \<times> escucha \<times> sock) option" where
  "thread_subprograma A junk recon fresh_code s = do {
     (_, s1) \<leftarrow> connection_send A OC_SOLICITUD_PROGRAMA_NUEVO (Mem (th_file_content recon @ [0])) s;
     (r, s2) \<leftarrow> connection_recv A junk s1;
     let code = (case rc_oc r of None \<Rightarrow> fresh_code | Some c \<Rightarrow> c);
     pid \<leftarrow> (if 1 < rc_ret r \<and> code = OC_NUEVA_CONSOLA_PID
             then (case rc_msg r of Some (Raw (b # _)) \<Rightarrow> Some (ucast b) | _ \<Rightarrow> None)
             else Some (th_pid recon));
     (if sint pid < 0 then None else Some ());
     let color = inicializarPaletaDeColores ! (unat pid mod length inicializarPaletaDeColores);
     (out, e, s3) \<leftarrow> escuchar A junk color pid \<lparr>e_code = code, e_buffer = rc_msg r, cantidad_escrituras = 0\<rparr> s2;
     Some (color @ ''PID DEL PROGRAMA: '' @ dec_int (sint pid) @ [CHR 0x0A] @ out, pid, e, s3) }"

end
