(* ===== verification/Consola_Props.thy ===== *)
theory Consola_Props
  imports Consola
begin

text \<open>
  What the console process does for its programs: a program is read completely from its file, the texts the
  kernel sends are shown once each and in order, and a kill request reaches the kernel with the right pid.
\<close>

locale consola_proc_commons =
  fixes P :: consola_proc_lib
  assumes threads: "coll_laws (thread_c P)"
    and split_one: "CHR '' '' \<notin> set w \<Longrightarrow> w \<noteq> [] \<Longrightarrow> n_split P w 2 '' '' = [w]"
    and split_two: "CHR '' '' \<notin> set w \<Longrightarrow> w \<noteq> [] \<Longrightarrow> v \<noteq> [] \<Longrightarrow> n_split P (w @ '' '' @ v) 2 '' '' = [w, v]"

sublocale consola_proc_commons \<subseteq> th: coll_laws "thread_c P" by (rule threads)

text \<open>Splitting at the first blank, the rest being one word.\<close>

definition seq_n_split :: "string \<Rightarrow> nat \<Rightarrow> string \<Rightarrow> string list" where
  "seq_n_split s n sep =
     (let w = takeWhile (\<lambda>c. [c] \<noteq> sep) s; v = drop (Suc (length w)) s in if v = [] then [w] else [w, v])"

lemma seq_n_split_laws:
  "CHR '' '' \<notin> set w \<Longrightarrow> w \<noteq> [] \<Longrightarrow> seq_n_split w 2 '' '' = [w]"
  "CHR '' '' \<notin> set w \<Longrightarrow> w \<noteq> [] \<Longrightarrow> v \<noteq> [] \<Longrightarrow> seq_n_split (w @ '' '' @ v) 2 '' '' = [w, v]"
proof -
  show "seq_n_split w 2 '' '' = [w]" if "CHR '' '' \<notin> set w"
  proof -
    have "takeWhile (\<lambda>c. [c] \<noteq> '' '') w = w" using that by (auto simp: takeWhile_eq_all_conv)
    then show ?thesis by (simp only: seq_n_split_def Let_def) simp
  qed
  show "seq_n_split (w @ '' '' @ v) 2 '' '' = [w, v]" if "CHR '' '' \<notin> set w" "v \<noteq> []"
  proof -
    have "takeWhile (\<lambda>c. [c] \<noteq> '' '') (w @ '' '' @ v) = w"
      using that by (subst takeWhile_append2) auto
    then show ?thesis using that by (simp only: seq_n_split_def Let_def) simp
  qed
qed

definition seq_consola :: consola_proc_lib where
  "seq_consola = \<lparr>thread_c = seq_coll, n_split = seq_n_split, string_trim = (\<lambda>s. s)\<rparr>"

interpretation seq_consola: consola_proc_commons seq_consola
proof (rule consola_proc_commons.intro)
  show "coll_laws (thread_c seq_consola)" by (simp add: seq_consola_def seq_coll.coll_laws_axioms)
  show "n_split seq_consola w 2 '' '' = [w]" if "CHR '' '' \<notin> set w" "w \<noteq> []" for w
    unfolding seq_consola_def consola_proc_lib.simps by (rule seq_n_split_laws(1) [OF that])
  show "n_split seq_consola (w @ '' '' @ v) 2 '' '' = [w, v]" if "CHR '' '' \<notin> set w" "w \<noteq> []" "v \<noteq> []" for w v
    unfolding seq_consola_def consola_proc_lib.simps by (rule seq_n_split_laws(2) [OF that])
qed

section \<open>Reading a program\<close>

lemma fgets_line_zero: "fgets_line n bs = (l, r) \<Longrightarrow> 0 \<notin> set bs \<Longrightarrow> 0 \<notin> set l \<and> 0 \<notin> set r"
  using fgets_line_append [of n bs l r] by auto

lemma read_lines_whole: "0 \<notin> set bs \<Longrightarrow> read_lines bs = bs"
proof (induction bs rule: read_lines.induct)
  case (1 bs)
  show ?case
  proof (cases "bs = []")
    case False
    obtain l r where lr: "fgets_line 254 bs = (l, r)" by fastforce
    have "l @ r = bs" "0 \<notin> set l" "0 \<notin> set r" using fgets_line_append [OF lr] fgets_line_zero [OF lr] 1(2) by auto
    moreover from this have tw: "takeWhile (\<lambda>c. c \<noteq> 0) l = l" by (auto simp: takeWhile_eq_all_conv)
    moreover have "read_lines r = r" using 1(1) [OF False lr [symmetric]] calculation by blast
    ultimately show ?thesis using False by (subst read_lines.simps) (simp add: lr tw del: takeWhile_eq_all_conv)
  qed (simp add: read_lines.simps)
qed

section \<open>The thread of a program\<close>

lemma small_byte: "unat (ucast (b :: byte) :: u32) = unat b" "sint (ucast (b :: byte) :: u32) = uint b"
proof -
  have b: "unat b < 256" using unsigned_less [of b, where ?'a = nat] by simp
  show u: "unat (ucast b :: u32) = unat b" using b by (simp add: unsigned_ucast_eq take_bit_nat_eq_self)
  show "sint (ucast b :: u32) = uint b" using sint_u32 [of "ucast b"] u b by simp
qed

definition frame :: "byte \<Rightarrow> byte list \<Rightarrow> byte list" where
  "frame oc body = [oc] @ u32_bytes (word_of_nat (length body)) @ body"

definition shown :: "string \<Rightarrow> u32 \<Rightarrow> byte list \<Rightarrow> string" where
  "shown color pid t = color @ '' [Process: '' @ dec_int (sint pid) @ ''] '' @ as_chars t @ '' '' @ [CHR 0x0A]"

definition text_ok :: "byte list \<Rightarrow> bool" where
  "text_ok t \<longleftrightarrow> t \<noteq> [] \<and> 0 \<notin> set t \<and> length t < 2 ^ 31"

lemma recv_text:
  assumes "sk_in s = frame OC_ESCRIBIR_EN_CONSOLA t @ rest" "length t < 2 ^ 31"
  shows "connection_recv A junk s = Some (\<lparr>rc_ret = (if t = [] then 0 else 5 + int (length t)),
    rc_oc = Some OC_ESCRIBIR_EN_CONSOLA, rc_msg = Some (Raw (t @ [0]))\<rparr>, s\<lparr>sk_in := rest\<rparr>)"
proof -
  have "recv_body A junk OC_ESCRIBIR_EN_CONSOLA (length t) 4 (s\<lparr>sk_in := t @ rest\<rparr>) =
      Some (int (length t), Some (Raw (t @ [0])), s\<lparr>sk_in := rest\<rparr>)"
    by (simp add: recv_body_def code_lists source_consts socket_recv_def fill_full)
  then show ?thesis using recv_framed [of s OC_ESCRIBIR_EN_CONSOLA "length t" "t @ rest" A junk] assms by (simp add: frame_def)
qed

lemma recv_muere:
  assumes "sk_in s = frame OC_MUERE_PROGRAMA (u32_bytes v) @ rest"
  shows "connection_recv A junk s = Some (\<lparr>rc_ret = 9, rc_oc = Some OC_MUERE_PROGRAMA, rc_msg = Some (Raw (u32_bytes v))\<rparr>, s\<lparr>sk_in := rest\<rparr>)"
proof -
  have "recv_body A junk OC_MUERE_PROGRAMA 4 4 (s\<lparr>sk_in := u32_bytes v @ rest\<rparr>) =
      Some (4, Some (Raw (u32_bytes v)), s\<lparr>sk_in := rest\<rparr>)"
    by (simp add: recv_body_def code_lists source_consts socket_recv_def fill_full)
  then show ?thesis using recv_framed [of s OC_MUERE_PROGRAMA 4 "u32_bytes v @ rest" A junk] assms by (simp add: frame_def)
qed

lemma texto_Raw: "0 \<notin> set t \<Longrightarrow> texto (Some (Raw (t @ [0]))) = Some (as_chars t)"
  by (simp add: texto_def takeWhile_append)

lemma escuchar_texts:
  assumes "\<forall>t \<in> set ts. text_ok t" "sk_in s = concat (map (frame OC_ESCRIBIR_EN_CONSOLA) ts) @ frame OC_MUERE_PROGRAMA (u32_bytes v) @ rest"
  shows "escuchar A junk color pid e s = Some (concat (map (shown color pid) ts),
    \<lparr>e_code = OC_MUERE_PROGRAMA, e_buffer = Some (Raw (u32_bytes v)), cantidad_escrituras = cantidad_escrituras e + word_of_nat (length ts)\<rparr>,
    s\<lparr>sk_in := rest\<rparr>)"
  using assms
proof (induction ts arbitrary: s e)
  case Nil
  then show ?case
    by (subst escuchar.simps) (simp add: recv_muere mostrar_def Let_def source_consts)
next
  case (Cons t ts)
  let ?rest = "concat (map (frame OC_ESCRIBIR_EN_CONSOLA) ts) @ frame OC_MUERE_PROGRAMA (u32_bytes v) @ rest"
  let ?e = "e\<lparr>e_code := OC_ESCRIBIR_EN_CONSOLA, e_buffer := Some (Raw (t @ [0])), cantidad_escrituras := cantidad_escrituras e + 1\<rparr>"
  have t: "t \<noteq> []" "0 \<notin> set t" "length t < 2 ^ 31" using Cons.prems(1) by (simp_all add: text_ok_def)
  have "sk_in s = frame OC_ESCRIBIR_EN_CONSOLA t @ ?rest" using Cons.prems(2) by simp
  note r = recv_text [OF this t(3), of A junk]
  have m: "mostrar color pid \<lparr>rc_ret = 5 + int (length t), rc_oc = Some OC_ESCRIBIR_EN_CONSOLA, rc_msg = Some (Raw (t @ [0]))\<rparr> e =
      Some (shown color pid t, 5 + int (length t), ?e)"
    using t by (simp add: mostrar_def Let_def source_consts texto_Raw shown_def)
  have "escuchar A junk color pid ?e (s\<lparr>sk_in := ?rest\<rparr>) = Some (concat (map (shown color pid) ts),
    \<lparr>e_code = OC_MUERE_PROGRAMA, e_buffer = Some (Raw (u32_bytes v)), cantidad_escrituras = cantidad_escrituras ?e + word_of_nat (length ts)\<rparr>,
    s\<lparr>sk_in := ?rest\<rparr>\<lparr>sk_in := rest\<rparr>)"
    using Cons.prems(1) by (intro Cons.IH) auto
  moreover have "escuchar A junk color pid e s = (case escuchar A junk color pid ?e (s\<lparr>sk_in := ?rest\<rparr>) of None \<Rightarrow> None
      | Some (rest, e2, s2) \<Rightarrow> Some (shown color pid t @ rest, e2, s2))"
    unfolding escuchar.simps [of A junk color pid e s] r using t(1) by (simp add: m)
  ultimately show ?case by (simp add: ac_simps)
qed

text \<open>
  C26: A program started from the console runs its course there.  The thread sends the program to the kernel; when
  the kernel answers with a pid and then sends the texts \<open>ts\<close> and the end of the program, the thread shows the
  pid and each text once, in order, with the pid in front, counts them, and ends having consumed exactly these messages.
\<close>

theorem consola_runs_program:
  assumes "0 \<notin> set content" and "length content < 2 ^ 31 - 5" and "\<forall>t \<in> set ts. text_ok t"
    and "sk_in s = frame OC_NUEVA_CONSOLA_PID [b] @ concat (map (frame OC_ESCRIBIR_EN_CONSOLA) ts)
      @ frame OC_MUERE_PROGRAMA (u32_bytes v) @ rest"
    and "color = inicializarPaletaDeColores ! (unat b mod 5)"
  shows "\<exists>e. thread_subprograma A junk \<lparr>th_file_content = content, th_pid = p\<rparr> oc s =
      Some (color @ ''PID DEL PROGRAMA: '' @ dec_int (uint b) @ [CHR 0x0A] @ concat (map (shown color (ucast b)) ts), ucast b, e,
        \<lparr>sk_in = rest, sk_out = sk_out s @ frame OC_SOLICITUD_PROGRAMA_NUEVO content\<rparr>) \<and>
    cantidad_escrituras e = word_of_nat (length ts)"
proof -
  let ?s1 = "socket_send (frame OC_SOLICITUD_PROGRAMA_NUEVO content) s"
  let ?texts = "concat (map (frame OC_ESCRIBIR_EN_CONSOLA) ts) @ frame OC_MUERE_PROGRAMA (u32_bytes v) @ rest"
  have "takeWhile (\<lambda>c. c \<noteq> 0) (content @ [0]) = content" using assms(1) by (subst takeWhile_append2) auto
  then have send: "connection_send A OC_SOLICITUD_PROGRAMA_NUEVO (Mem (content @ [0])) s = Some (5 + int (length content), ?s1)"
    using assms(2) by (simp add: connection_send_def message_size_def c_strlen_def code_lists source_consts frame_def)
  have "recv_body A junk OC_NUEVA_CONSOLA_PID 1 4 (?s1\<lparr>sk_in := [b] @ ?texts\<rparr>) =
      Some (4, Some (Raw [b]), ?s1\<lparr>sk_in := ?texts\<rparr>)"
    by (simp add: recv_body_def code_lists source_consts socket_recv_def fill_full)
  then have recv: "connection_recv A junk ?s1 =
      Some (\<lparr>rc_ret = 9, rc_oc = Some OC_NUEVA_CONSOLA_PID, rc_msg = Some (Raw [b])\<rparr>, ?s1\<lparr>sk_in := ?texts\<rparr>)"
    using recv_framed [of ?s1 OC_NUEVA_CONSOLA_PID 1 "[b] @ ?texts" A junk] assms(4) by (simp add: frame_def socket_send_def)
  have b: "unat (ucast b :: u32) = unat b" "sint (ucast b :: u32) = uint b"
    using small_byte [of b] by simp_all
  have color: "inicializarPaletaDeColores ! (unat b mod length inicializarPaletaDeColores) = color"
    by (simp add: assms(5) inicializarPaletaDeColores_def)
  have s3: "?s1\<lparr>sk_in := ?texts\<rparr>\<lparr>sk_in := rest\<rparr> = \<lparr>sk_in = rest, sk_out = sk_out s @ frame OC_SOLICITUD_PROGRAMA_NUEVO content\<rparr>"
    by (simp add: socket_send_def)
  let ?e = "\<lparr>e_code = OC_NUEVA_CONSOLA_PID, e_buffer = Some (Raw [b]), cantidad_escrituras = 0\<rparr>"
  obtain e where "escuchar A junk color (ucast b) ?e (?s1\<lparr>sk_in := ?texts\<rparr>) = Some (concat (map (shown color (ucast b)) ts), e,
      ?s1\<lparr>sk_in := ?texts\<rparr>\<lparr>sk_in := rest\<rparr>)" "cantidad_escrituras e = word_of_nat (length ts)"
    using escuchar_texts [OF assms(3), of "?s1\<lparr>sk_in := ?texts\<rparr>" v rest A junk color "ucast b" ?e] by simp
  then show ?thesis
    unfolding s3 by (simp add: thread_subprograma_def send recv Let_def b color)
qed

theorem consola_runs_program_witness:
  "\<exists>e out. thread_subprograma abi32 (\<lambda>_. 0) \<lparr>th_file_content = [98], th_pid = 0\<rparr> 0
      \<lparr>sk_in = frame OC_NUEVA_CONSOLA_PID [3] @ frame OC_ESCRIBIR_EN_CONSOLA [104, 105] @ frame OC_MUERE_PROGRAMA (u32_bytes 1), sk_out = []\<rparr> =
      Some (out, 3, e, \<lparr>sk_in = [], sk_out = frame OC_SOLICITUD_PROGRAMA_NUEVO [98]\<rparr>) \<and> cantidad_escrituras e = 1"
  using consola_runs_program [where content = "[98]" and ts = "[[104, 105]]" and b = 3 and v = 1 and rest = "[]" and A = abi32
      and junk = "\<lambda>_. 0" and p = 0 and oc = 0 and color = "inicializarPaletaDeColores ! (unat (3 :: byte) mod 5)"
      and s = "\<lparr>sk_in = frame OC_NUEVA_CONSOLA_PID [3] @ frame OC_ESCRIBIR_EN_CONSOLA [104, 105] @ frame OC_MUERE_PROGRAMA (u32_bytes 1), sk_out = []\<rparr>"]
  by (auto simp: text_ok_def)

text \<open>
  A text without characters ends the thread although the program goes on: the receive returns 0, which the loop takes for the
  end of the connection.
\<close>

lemma consola_empty_text_ends:
  assumes "sk_in s = frame OC_ESCRIBIR_EN_CONSOLA [] @ rest"
  shows "escuchar A junk color pid e s = Some (shown color pid [],
    \<lparr>e_code = OC_ESCRIBIR_EN_CONSOLA, e_buffer = Some (Raw [0]), cantidad_escrituras = cantidad_escrituras e + 1\<rparr>, s\<lparr>sk_in := rest\<rparr>)"
  using recv_text [OF assms, of A junk]
  by (subst escuchar.simps) (simp add: mostrar_def Let_def source_consts texto_def shown_def as_chars_def)

section \<open>Commands\<close>

context consola_proc_commons
begin

lemma command_line: "CHR 0x0A \<notin> set l \<Longrightarrow> takeWhile (\<lambda>x. x \<noteq> CHR 0x0A) (l @ [CHR 0x0A]) = l"
  by (subst takeWhile_append2) auto

lemma init_reads_program:
  assumes "files (string_trim P path) = Some content" "path \<noteq> []" "path \<noteq> ''1''" "CHR 0x0A \<notin> set path" "0 \<notin> set content"
  shows "\<exists>out. read_command P A files p (''init'' @ '' '' @ path @ [CHR 0x0A]) c =
    Some (Codigo CON_OK, out, c\<lparr>thread_list := thread_list c @ [\<lparr>th_file_content = content, th_pid = p\<rparr>]\<rparr>)"
proof -
  have l: "takeWhile (\<lambda>x. x \<noteq> CHR 0x0A) (''init'' @ '' '' @ path @ [CHR 0x0A]) = ''init'' @ '' '' @ path"
    using command_line [of "''init'' @ '' '' @ path"] assms(4) by simp
  have w: "n_split P (''init'' @ '' '' @ path) 2 '' '' = [''init'', path]" using assms(2) by (intro split_two) auto
  have "consola_read_file P files path = Some content" using assms by (simp add: consola_read_file_def read_lines_whole)
  then show ?thesis unfolding read_command_def Let_def l w by (simp add: init_comando_def th.kl_add)
qed

text \<open>\<open>kill\<close> sends the kernel a request for the pid and forgets the first program with it; an unknown pid changes nothing.\<close>

lemma kill_sends_request:
  assumes "arg \<noteq> []" "CHR 0x0A \<notin> set arg"
  shows "read_command P A files p (''kill'' @ '' '' @ arg @ [CHR 0x0A]) c = Some
    (if atoi arg \<in> th_pid ` set (thread_list c)
     then (Codigo CON_OK, [], c\<lparr>thread_list := snd (remove_first (\<lambda>t. th_pid t = atoi arg) (thread_list c)),
       main_console_socket := socket_send (frame OC_KILL_CONSOLA (u32_bytes (atoi arg))) (main_console_socket c)\<rparr>)
     else (Codigo CON_ERROR_PID, [], c))"
proof -
  have l: "takeWhile (\<lambda>x. x \<noteq> CHR 0x0A) (''kill'' @ '' '' @ arg @ [CHR 0x0A]) = ''kill'' @ '' '' @ arg"
    using command_line [of "''kill'' @ '' '' @ arg"] assms(2) by simp
  have w: "n_split P (''kill'' @ '' '' @ arg) 2 '' '' = [''kill'', arg]" using assms(1) by (intro split_two) auto
  have send: "connection_send A OC_KILL_CONSOLA (Mem (u32_bytes v)) s = Some (9, socket_send (frame OC_KILL_CONSOLA (u32_bytes v)) s)" for v s
    by (simp add: connection_send_def message_size_def code_lists source_consts frame_def)
  have "kill_programa P A [''kill'', arg] c = Some (if atoi arg \<in> th_pid ` set (thread_list c)
      then (CON_OK, c\<lparr>thread_list := snd (remove_first (\<lambda>t. th_pid t = atoi arg) (thread_list c)),
        main_console_socket := socket_send (frame OC_KILL_CONSOLA (u32_bytes (atoi arg))) (main_console_socket c)\<rparr>)
      else (CON_ERROR_PID, c))"
  proof (cases "find_index (\<lambda>t. th_pid t = atoi arg) (thread_list c)")
    case None
    then have "atoi arg \<notin> th_pid ` set (thread_list c)" by (auto simp: find_index_None_iff)
    then show ?thesis using None by (simp add: kill_programa_def th.kl_find)
  next
    case (Some i)
    then have i: "i < length (thread_list c)" "th_pid (thread_list c ! i) = atoi arg" by (simp_all add: find_index_Some_iff)
    then have "atoi arg \<in> th_pid ` set (thread_list c)" by (metis image_eqI nth_mem)
    then show ?thesis using Some i by (simp add: kill_programa_def th.kl_find th.kl_remove_by_condition send Let_def)
  qed
  then show ?thesis unfolding read_command_def Let_def l w by simp
qed

end

end
