(* ===== verification/Kernel_Console.thy ===== *)
theory Kernel_Console
  imports Kernel_Files_Props Kernel_Sched_Props Consola_Props
begin

text \<open>
  The console of the kernel (\<open>kernel/src/consola.c\<close>): the commands that list processes and files, kill a
  process, change the degree of multiprogramming, and stop and resume the schedulers, with what they print.
  \<open>None\<close> is undefined behaviour: a missing argument, a line without its end, a null pointer that is followed, or a
  \<open>t_nuevo_proceso\<close> that is used as a \<open>t_PCB\<close>.

  \<open>list_iterate\<close> visits the elements in order; \<open>list_any_satisfy\<close> and \<open>string_n_split\<close> of so-commons are
  parameters.
\<close>

section \<open>Parameters and state\<close>

record consola_lib =
  cl_kernel :: kernel_lib
  any_nuevo :: "t_nuevo_proceso list \<Rightarrow> (t_nuevo_proceso \<Rightarrow> bool) \<Rightarrow> bool"
  any_pcb :: "t_PCB list \<Rightarrow> (t_PCB \<Rightarrow> bool) \<Rightarrow> bool"
  any_cpu :: "t_cpu list \<Rightarrow> (t_cpu \<Rightarrow> bool) \<Rightarrow> bool"
  string_n_split :: "string \<Rightarrow> nat \<Rightarrow> string \<Rightarrow> string list"

locale consola_commons = kernel_commons "cl_kernel L" for L :: consola_lib +
  assumes any_nuevo: "any_nuevo L l P = list_ex P l"
    and any_pcb: "any_pcb L l' P' = list_ex P' l'"
    and any_cpu: "any_cpu L l'' P'' = list_ex P'' l''"
    and split_one: "CHR '' '' \<notin> set w \<Longrightarrow> w \<noteq> [] \<Longrightarrow> string_n_split L w 2 '' '' = [w]"
    and split_two: "CHR '' '' \<notin> set w \<Longrightarrow> w \<noteq> [] \<Longrightarrow> v \<noteq> [] \<Longrightarrow> string_n_split L (w @ '' '' @ v) 2 '' '' = [w, v]"

text \<open>The state with the switch of the schedulers and the semaphores on which they wait while it is off.\<close>

record consola_kernel =
  ck_kernel :: kernel
  planificar :: bool
  sem_planificar_corto_plazo :: nat
  sem_planificar_largo_plazo :: nat

section \<open>Printing\<close>

definition obtener_estado :: "consola_lib \<Rightarrow> u32 \<Rightarrow> kernel \<Rightarrow> string option" where
  "obtener_estado L pid k =
     (let tiene_mismo_pid = (\<lambda>p. ucast (pcb_pid p) = pid) in
      if any_nuevo L (cola_nuevos k) (\<lambda>p. tiene_mismo_pid (np_pcb p)) then Some ''Nuevo''
      else if any_pcb L (cola_listos k) tiene_mismo_pid then Some ''Listo''
      else if any_cpu L (lista_cpu k) (runs_pid pid) then Some ''Ejecutando''
      else if any_pcb L (cola_bloqueados k) tiene_mismo_pid then Some ''Bloqueado''
      else if None \<in> set (cola_finalizados k) then None
      else if any_pcb L (map the (cola_finalizados k)) tiene_mismo_pid then Some ''Finalizado''
      else Some ''No se encontro el Proceso'')"

definition mostrar_flags :: "t_banderas \<Rightarrow> string" where
  "mostrar_flags flags = (if bandera_creacion flags then ''c'' else []) @ (if bandera_escritura flags then ''w'' else [])
     @ (if bandera_lectura flags then ''r'' else [])"

definition mostrar_informacion_tabla_de_archivos :: "t_table_file \<Rightarrow> string" where
  "mostrar_informacion_tabla_de_archivos t = concat (map (\<lambda>f.
     [CHR 0x0A] @ '' Descriptor de archivo del proceso: '' @ dec_int (sint (proceso_fd f)) @ [CHR 0x0A]
     @ ''descriptor global: '' @ dec_int (sint (pf_global_fd f)) @ '' '' @ [CHR 0x0A] @ mostrar_flags (pf_flags f)) (tabla_archivos t))"

definition imprimir_proceso :: "consola_lib \<Rightarrow> t_PCB option \<Rightarrow> kernel \<Rightarrow> (string \<times> kernel) option" where
  "imprimir_proceso L q k =
     (case q of
        None \<Rightarrow> Some ([], k)
      | Some p \<Rightarrow>
          (case getTablaArchivo (cl_kernel L) (ucast (pcb_pid p)) k of (i, k1) \<Rightarrow>
             let tabla = listaDeTablasDeArchivosDeProcesos k1 ! i in do {
             estado \<leftarrow> obtener_estado L (ucast (pcb_pid p)) k1;
             Some (''Proceso id: '' @ dec_int (uint (pcb_pid p)) @ '' -----''
               @ (if tabla_archivos tabla \<noteq> [] then ''Tabla De Archivos del Proceso:'' @ [CHR 0x0A, CHR 0x0A]
                    @ mostrar_informacion_tabla_de_archivos tabla else [])
               @ ''Estado: '' @ estado @ '' -----''
               @ (if estado = ''Finalizado'' then '' Exit Code: '' @ dec_int (sint (exit_code p)) else [])
               @ [CHR 0x0A, CHR 0x0A], k1) }))"

fun imprimir_procesos :: "consola_lib \<Rightarrow> t_PCB option list \<Rightarrow> kernel \<Rightarrow> (string \<times> kernel) option" where
  "imprimir_procesos L [] k = Some ([], k)"
| "imprimir_procesos L (p # ps) k = do {
     (s, k1) \<leftarrow> imprimir_proceso L p k;
     (t, k2) \<leftarrow> imprimir_procesos L ps k1;
     Some (s @ t, k2) }"

datatype cola = Nuevos | Listos | Bloqueados | Ejecutando | Finalizados

definition listar_procesos_de_cola :: "consola_lib \<Rightarrow> cola \<Rightarrow> kernel \<Rightarrow> (string \<times> kernel) option" where
  "listar_procesos_de_cola L c k = imprimir_procesos L
     (case c of Nuevos \<Rightarrow> map (Some \<circ> np_pcb) (cola_nuevos k) | Ejecutando \<Rightarrow> map proceso_asignado (lista_cpu k)
      | Listos \<Rightarrow> map Some (cola_listos k) | Bloqueados \<Rightarrow> map Some (cola_bloqueados k) | Finalizados \<Rightarrow> cola_finalizados k) k"

fun listar_colas :: "consola_lib \<Rightarrow> cola list \<Rightarrow> kernel \<Rightarrow> (string \<times> kernel) option" where
  "listar_colas L [] k = Some ([], k)"
| "listar_colas L (c # cs) k = do {
     (s, k1) \<leftarrow> listar_procesos_de_cola L c k;
     (t, k2) \<leftarrow> listar_colas L cs k1;
     Some (s @ t, k2) }"

definition imprimir_tabla_global_de_archivos :: "kernel \<Rightarrow> string" where
  "imprimir_tabla_global_de_archivos k = concat (map (\<lambda>f.
     as_chars (gf_file f) @ [CHR 0x09] @ ''|'' @ [CHR 0x09] @ dec_int (sint (gf_open f)) @ [CHR 0x0A]) (tabla_global_archivos k))"

section \<open>Looking for a process\<close>

definition buscar_info_proceso :: "consola_lib \<Rightarrow> u32 \<Rightarrow> kernel \<Rightarrow> nat option" where
  "buscar_info_proceso L pid k = kl_find (par_c (cl_kernel L)) (tabla_sockets_procesos k) (\<lambda>p. par_pid p = pid)"

text \<open>An element of the queue of new processes is not a PCB; what the caller reads through it is not defined.\<close>

definition buscar_pcb_en_colas :: "consola_lib \<Rightarrow> u32 \<Rightarrow> kernel \<Rightarrow> t_PCB option" where
  "buscar_pcb_en_colas L pid k =
     (let K = cl_kernel L; mismo = (\<lambda>p. ucast (pcb_pid p) = pid) in
      case kl_find (nuevo_c K) (cola_nuevos k) (\<lambda>p. mismo (np_pcb p)) of Some _ \<Rightarrow> None | None \<Rightarrow>
     (case kl_find (pcb_c K) (cola_listos k) mismo of Some i \<Rightarrow> Some (cola_listos k ! i) | None \<Rightarrow>
     (case kl_find (pcb_c K) (cola_bloqueados k) mismo of Some i \<Rightarrow> Some (cola_bloqueados k ! i) | None \<Rightarrow>
     (if None \<in> set (cola_finalizados k) then None
      else case kl_find (pcb_c K) (map the (cola_finalizados k)) mismo of Some i \<Rightarrow> cola_finalizados k ! i | None \<Rightarrow>
        do { i \<leftarrow> buscar_pcb_en_lista_cpu K (ucast pid) k; proceso_asignado (lista_cpu k ! i) }))))"

section \<open>Commands\<close>

definition kill_comando :: "consola_lib \<Rightarrow> abi \<Rightarrow> storage \<Rightarrow> u32 \<Rightarrow> kernel \<Rightarrow> kernel option" where
  "kill_comando L A junk pid k = do {
     (sacado, k1) \<leftarrow> pasar_proceso_a_exit (cl_kernel L) junk pid k;
     (if \<not> sacado then Some k1
      else case encontrar_consola_de_pcb (cl_kernel L) pid k1 of
          None \<Rightarrow> Some k1
        | Some j \<Rightarrow> send_to A OC_MUERE_PROGRAMA (Mem (u32_bytes 1)) (par_socket (tabla_sockets_procesos k1 ! j)) k1) }"

definition play_comando :: "consola_kernel \<Rightarrow> consola_kernel" where
  "play_comando ck = ck\<lparr>planificar := True,
     sem_planificar_corto_plazo := (if sem_planificar_corto_plazo ck = 0 then 1 else 0),
     sem_planificar_largo_plazo := (if sem_planificar_largo_plazo ck = 0 then 1 else 0)\<rparr>"

definition process_list :: "consola_lib \<Rightarrow> string list \<Rightarrow> kernel \<Rightarrow> (string \<times> kernel) option" where
  "process_list L args k =
     (case args of
        [] \<Rightarrow> listar_colas L [Nuevos, Listos, Bloqueados, Ejecutando, Finalizados] k
      | a # _ \<Rightarrow>
          if a = ''nuevos'' then listar_procesos_de_cola L Nuevos k
          else if a = ''listos'' then listar_procesos_de_cola L Listos k
          else if a = ''bloqueados'' then listar_procesos_de_cola L Bloqueados k
          else if a = ''ejecutando'' then listar_procesos_de_cola L Ejecutando k
          else if a = ''finalizados'' then listar_procesos_de_cola L Finalizados k
          else Some ([], k))"

definition on_kernel :: "(kernel \<Rightarrow> (string \<times> kernel) option) \<Rightarrow> consola_kernel \<Rightarrow> (string \<times> consola_kernel) option" where
  "on_kernel f ck = map_option (\<lambda>(s, k). (s, ck\<lparr>ck_kernel := k\<rparr>)) (f (ck_kernel ck))"

definition ejecutar_comando :: "consola_lib \<Rightarrow> abi \<Rightarrow> storage \<Rightarrow> string list \<Rightarrow> consola_kernel \<Rightarrow> (string \<times> consola_kernel) option" where
  "ejecutar_comando L A junk palabras ck =
     (case palabras of
        [] \<Rightarrow> None
      | c # args \<Rightarrow>
          if c = ''process_list'' then on_kernel (process_list L args) ck
          else if c = ''process'' then
            (case args of [] \<Rightarrow> None
             | a # _ \<Rightarrow> on_kernel (\<lambda>k. do { p \<leftarrow> buscar_pcb_en_colas L (atoi a) k; imprimir_proceso L (Some p) k }) ck)
          else if c = ''global_file_table'' then
            Some (''Tabla global de Archivos:'' @ [CHR 0x0A] @ imprimir_tabla_global_de_archivos (ck_kernel ck), ck)
          else if c = ''kill'' then
            (case args of [] \<Rightarrow> None | a # _ \<Rightarrow> on_kernel (\<lambda>k. map_option (Pair []) (kill_comando L A junk (atoi a) k)) ck)
          else if c = ''multiprogramming'' then
            (case args of [] \<Rightarrow> None | a # _ \<Rightarrow> on_kernel (\<lambda>k. Some ([],
               k\<lparr>kernel_conf := (kernel_conf k)\<lparr>conf_grado_multiprog := atoi a\<rparr>,
                 semPlanificarLargoPlazo := semPlanificarLargoPlazo k + 1\<rparr>)) ck)
          else if c = ''play'' then Some ([], play_comando ck)
          else if c = ''stop'' then Some ([], ck\<lparr>planificar := False\<rparr>)
          else Some ([], ck))"

definition leer_comando :: "consola_lib \<Rightarrow> abi \<Rightarrow> storage \<Rightarrow> string \<Rightarrow> consola_kernel \<Rightarrow> (string \<times> consola_kernel) option" where
  "leer_comando L A junk command ck =
     (if CHR 0x0A \<notin> set command then None
      else ejecutar_comando L A junk (string_n_split L (takeWhile (\<lambda>c. c \<noteq> CHR 0x0A) command) 2 '' '') ck)"

section \<open>The schedulers with their switch\<close>

definition ronda_largo_plazo :: "kernel_lib \<Rightarrow> storage \<Rightarrow> consola_kernel \<Rightarrow> consola_kernel option" where
  "ronda_largo_plazo K junk ck = do {
     ck1 \<leftarrow> (if planificar ck then Some ck
             else if sem_planificar_largo_plazo ck = 0 then None
             else Some (ck\<lparr>sem_planificar_largo_plazo := sem_planificar_largo_plazo ck - 1\<rparr>));
     map_option (\<lambda>k. ck1\<lparr>ck_kernel := k\<rparr>) (planificador_largo_plazo K junk (ck_kernel ck1)) }"

definition planificador_corto_plazo :: "kernel_lib \<Rightarrow> abi \<Rightarrow> storage \<Rightarrow> consola_kernel \<Rightarrow> consola_kernel option" where
  "planificador_corto_plazo K A junk ck = do {
     ck1 \<leftarrow> (if planificar ck then Some ck
             else if sem_planificar_corto_plazo ck = 0 then None
             else Some (ck\<lparr>sem_planificar_corto_plazo := sem_planificar_corto_plazo ck - 1\<rparr>));
     map_option (\<lambda>k. ck1\<lparr>ck_kernel := k\<rparr>) (pasarDeReadyAExecute K A junk (ck_kernel ck1)) }"

section \<open>What a command leaves alone\<close>

definition quiet :: "kernel \<Rightarrow> kernel \<Rightarrow> bool" where
  "quiet k k' \<longleftrightarrow> same_sched k k' \<and> (file_inv k \<longrightarrow> file_inv k' \<and> open_files k' = open_files k)"

lemma quiet_refl [simp]: "quiet k k"
  by (simp add: quiet_def)

lemma quiet_trans: "quiet k k1 \<Longrightarrow> quiet k1 k2 \<Longrightarrow> quiet k k2"
  by (auto simp: quiet_def intro: same_sched_trans)

lemma same_files_open: "same_files k k' \<Longrightarrow> open_files k' = open_files k"
  by (simp add: same_files_def open_files_def)

context consola_commons
begin

lemma tabla_quiet:
  assumes "getTablaArchivo (cl_kernel L) pid k = (i, k1)"
  shows "quiet k k1"
proof -
  have "same_sched k k1" using assms by (auto simp: getTablaArchivo_def same_sched_def split: option.splits)
  moreover have "open_files k1 = open_files k" if "file_inv k"
  proof -
    have "tables_ok (tabla_global_archivos k) (listaDeTablasDeArchivosDeProcesos k)" using that by (simp add: file_inv_def)
    from getTabla_effect [OF assms this, of "tabla_global_archivos k"] obtain us t vs where
      "open_of (tabla_global_archivos k) (us @ t # vs) = open_of (tabla_global_archivos k) (listaDeTablasDeArchivosDeProcesos k)"
      "k1 = k\<lparr>listaDeTablasDeArchivosDeProcesos := us @ t # vs\<rparr>" by blast
    then show ?thesis by (simp add: open_files_def)
  qed
  ultimately show ?thesis using tabla_keeps_inv [OF assms] by (simp add: quiet_def)
qed

lemma imprimir_proceso_quiet: "imprimir_proceso L q k = Some (out, k') \<Longrightarrow> quiet k k'"
  by (auto simp: imprimir_proceso_def Let_def split: option.splits prod.splits bind_splits dest: tabla_quiet)

lemma imprimir_procesos_quiet: "imprimir_procesos L ps k = Some (out, k') \<Longrightarrow> quiet k k'"
proof (induction ps arbitrary: k out)
  case (Cons p ps)
  then obtain s k1 t where "imprimir_proceso L p k = Some (s, k1)" "imprimir_procesos L ps k1 = Some (t, k')" by (auto split: bind_splits)
  then show ?case by (intro quiet_trans [OF imprimir_proceso_quiet Cons.IH])
qed simp

lemma listar_colas_quiet: "listar_colas L cs k = Some (out, k') \<Longrightarrow> quiet k k'"
proof (induction cs arbitrary: k out)
  case (Cons c cs)
  then obtain s k1 t where "listar_procesos_de_cola L c k = Some (s, k1)" "listar_colas L cs k1 = Some (t, k')" by (auto split: bind_splits)
  then show ?case unfolding listar_procesos_de_cola_def by (intro quiet_trans [OF imprimir_procesos_quiet Cons.IH])
qed simp

lemma process_list_quiet: "process_list L args k = Some (out, k') \<Longrightarrow> quiet k k'"
  unfolding process_list_def listar_procesos_de_cola_def
  by (cases args) (auto split: if_splits dest: listar_colas_quiet imprimir_procesos_quiet simp del: listar_colas.simps)

lemma exit_same_files: "pasar_proceso_a_exit (cl_kernel L) junk pid k = Some (b, k') \<Longrightarrow> same_files k k'"
  by (auto simp: pasar_proceso_a_exit_def finalizar_sacado_def sacar_de_semaforos_eq finalizar_en_memoria_def update_cpu_def
      same_files_def Let_def split: prod.splits option.splits if_splits)

lemma kill_comando_effect:
  assumes "kill_comando L A junk pid k = Some k'" "sched_inv k" "once_each k" "\<forall>np \<in> set (cola_nuevos k). pcb_pid (np_pcb np) \<noteq> ucast pid"
  shows "Kernel_Sched_Props.keeps k k' \<and> same_files k k'"
proof -
  obtain b k1 where x: "pasar_proceso_a_exit (cl_kernel L) junk pid k = Some (b, k1)"
    and r: "(if \<not> b then Some k1 else case encontrar_consola_de_pcb (cl_kernel L) pid k1 of None \<Rightarrow> Some k1
      | Some j \<Rightarrow> send_to A OC_MUERE_PROGRAMA (Mem (u32_bytes 1)) (par_socket (tabla_sockets_procesos k1 ! j)) k1) = Some k'"
    using assms(1) unfolding kill_comando_def bind_eq_Some_conv by force
  then have k1: "k' = k1 \<or> (\<exists>oc m fd. send_to A oc m fd k1 = Some k')"
    by (cases b; cases "encontrar_consola_de_pcb (cl_kernel L) pid k1") auto
  have "Kernel_Sched_Props.keeps k k1" using kill_keeps [OF assms(2,4) _ x] once_eachD [OF assms(3)] by blast
  moreover have "same_files k k1" using x by (rule exit_same_files)
  moreover have "same_sched k1 k' \<and> same_files k1 k'" using k1 send_to_same same_files_steps(1) by (auto simp: same_files_def)
  ultimately show ?thesis using keeps_same_right by (auto simp: same_files_def)
qed

end

section \<open>The state of a process\<close>

lemma ucast_u16_inj: "(ucast (a :: u16) = (ucast b :: u32)) = (a = b)"
proof -
  have "unat (ucast x :: u32) = unat x" for x :: u16
    using unsigned_less [of x, where ?'a = nat] by (simp add: unsigned_ucast_eq take_bit_nat_eq_self)
  then show ?thesis by (metis word_unat_eq_iff)
qed

lemma in_running: "pid \<in> set (running cs) \<longleftrightarrow> list_ex (runs_pid (ucast pid)) cs"
  by (induction cs) (auto simp: cpu_pids_def runs_pid_def ucast_u16_inj split: option.splits)

lemma in_finished: "None \<notin> set ps \<Longrightarrow> pid \<in> set (finished ps) \<longleftrightarrow> list_ex (\<lambda>p. pcb_pid p = pid) (map the ps)"
proof (induction ps)
  case (Cons p ps)
  then show ?case by (cases p) auto
qed simp

context consola_commons
begin

lemma estado_sound:
  assumes inv: "sched_inv k" and once: "once_each k"
  shows "\<exists>e. obtener_estado L (ucast pid) k = Some e \<and>
    (e = ''Nuevo'' \<longleftrightarrow> pid \<in> set (map (pcb_pid \<circ> np_pcb) (cola_nuevos k))) \<and>
    (e = ''Listo'' \<longleftrightarrow> pid \<in> set (map pcb_pid (cola_listos k))) \<and>
    (e = ''Ejecutando'' \<longleftrightarrow> pid \<in> set (running (lista_cpu k))) \<and>
    (e = ''Bloqueado'' \<longleftrightarrow> pid \<in> set (map pcb_pid (cola_bloqueados k))) \<and>
    (e = ''Finalizado'' \<longleftrightarrow> pid \<in> set (finished (cola_finalizados k))) \<and>
    (e = ''No se encontro el Proceso'' \<longleftrightarrow> pid \<notin># procs k)"
proof -
  have fin: "None \<notin> set (cola_finalizados k)" using inv by (simp add: sched_inv_def)
  define ne li ej bl fi where "ne = (pid \<in> set (map (pcb_pid \<circ> np_pcb) (cola_nuevos k)))" and "li = (pid \<in> set (map pcb_pid (cola_listos k)))"
    and "ej = (pid \<in> set (running (lista_cpu k)))" and "bl = (pid \<in> set (map pcb_pid (cola_bloqueados k)))"
    and "fi = (pid \<in> set (finished (cola_finalizados k)))"
  note place = ne_def li_def ej_def bl_def fi_def
  have estado: "obtener_estado L (ucast pid) k = Some (if ne then ''Nuevo'' else if li then ''Listo'' else if ej then ''Ejecutando''
      else if bl then ''Bloqueado'' else if fi then ''Finalizado'' else ''No se encontro el Proceso'')"
    using fin by (simp add: obtener_estado_def any_nuevo any_pcb any_cpu place in_running in_finished ucast_u16_inj list_ex_iff image_iff Let_def)
      (auto simp: eq_commute)
  have c: "count (mset l) pid \<noteq> 0 \<longleftrightarrow> pid \<in> set l" for l by (metis count_eq_zero_iff set_mset_mset)
  have "count (procs k) pid \<le> 1" using once by (rule once_eachD)
  then have excl: "ne \<longrightarrow> \<not> li \<and> \<not> ej \<and> \<not> bl \<and> \<not> fi" "li \<longrightarrow> \<not> ej \<and> \<not> bl \<and> \<not> fi" "ej \<longrightarrow> \<not> bl \<and> \<not> fi" "bl \<longrightarrow> \<not> fi"
    unfolding place c [symmetric] procs_def count_union by linarith+
  have "pid \<in># procs k \<longleftrightarrow> ne \<or> li \<or> ej \<or> bl \<or> fi" unfolding place procs_def by (simp only: set_mset_union set_mset_mset Un_iff disj_assoc)
  with estado excl show ?thesis unfolding place [symmetric] by auto
qed

end

definition seq_consola_lib :: consola_lib where
  "seq_consola_lib = \<lparr>cl_kernel = seq_kernel_lib, any_nuevo = (\<lambda>l P. list_ex P l), any_pcb = (\<lambda>l P. list_ex P l), any_cpu = (\<lambda>l P. list_ex P l),
     string_n_split = seq_n_split\<rparr>"

interpretation seq_kconsola: consola_commons seq_consola_lib
proof (rule consola_commons.intro)
  show "kernel_commons (cl_kernel seq_consola_lib)" by (simp add: seq_consola_lib_def seq_kernel.kernel_commons_axioms)
  show "consola_commons_axioms seq_consola_lib"
  proof (rule consola_commons_axioms.intro)
    show "string_n_split seq_consola_lib w 2 '' '' = [w]" if "CHR '' '' \<notin> set w" "w \<noteq> []" for w
      unfolding seq_consola_lib_def consola_lib.simps by (rule seq_n_split_laws(1) [OF that])
    show "string_n_split seq_consola_lib (w @ '' '' @ v) 2 '' '' = [w, v]" if "CHR '' '' \<notin> set w" "w \<noteq> []" "v \<noteq> []" for w v
      unfolding seq_consola_lib_def consola_lib.simps by (rule seq_n_split_laws(2) [OF that])
  qed (simp_all add: seq_consola_lib_def)
qed

text \<open>
  What the console says about a process is true.  In a state in which the kernel's books are in order and every
  pid is in use once, \<open>obtener_estado\<close> answers with the name of a queue exactly when the process is in that queue, with
  "Ejecutando" exactly when a CPU holds it, and that it was not found exactly when it is nowhere in the system.
\<close>

theorem obtener_estado_sound:
  assumes "consola_commons L" and "sched_inv k" and "once_each k"
  shows "\<exists>e. obtener_estado L (ucast pid) k = Some e \<and>
    (e = ''Nuevo'' \<longleftrightarrow> pid \<in> set (map (pcb_pid \<circ> np_pcb) (cola_nuevos k))) \<and>
    (e = ''Listo'' \<longleftrightarrow> pid \<in> set (map pcb_pid (cola_listos k))) \<and>
    (e = ''Ejecutando'' \<longleftrightarrow> pid \<in> set (running (lista_cpu k))) \<and>
    (e = ''Bloqueado'' \<longleftrightarrow> pid \<in> set (map pcb_pid (cola_bloqueados k))) \<and>
    (e = ''Finalizado'' \<longleftrightarrow> pid \<in> set (finished (cola_finalizados k))) \<and>
    (e = ''No se encontro el Proceso'' \<longleftrightarrow> pid \<notin># procs k)"
  by (rule consola_commons.estado_sound [OF assms])

theorem obtener_estado_sound_witness:
  "obtener_estado seq_consola_lib 1 (demo_kernel [] []) = Some ''Ejecutando''"
proof -
  have inv: "sched_inv (demo_kernel [] [])"
    by (simp add: sched_inv_def demo_kernel_def demo_cpu_entry_def cpu_ok_def cpu_pids_def)
  have once: "once_each (demo_kernel [] [])"
    by (simp add: once_each_def procs_def demo_kernel_def demo_cpu_entry_def cpu_pids_def)
  have "1 \<in> set (running (lista_cpu (demo_kernel [] [])))"
    by (simp add: demo_kernel_def demo_cpu_entry_def cpu_pids_def)
  then show ?thesis using obtener_estado_sound [OF seq_kconsola.consola_commons_axioms inv once, of 1] by auto
qed

text \<open>
  No command of the console disturbs the books of the kernel.  Whatever line is entered, if the command gets through,
  the scheduler's invariant holds again with the same processes in the system, the tables of files are consistent and the same files are
  open.  The condition is that a process that is killed is not in the queue of new ones.
\<close>

theorem consola_keeps_books:
  assumes "consola_commons L" and "sched_inv (ck_kernel ck)" and "once_each (ck_kernel ck)" and "file_inv (ck_kernel ck)"
    and run: "leer_comando L A junk command ck = Some (out, ck')"
    and kill: "\<forall>a rest. string_n_split L (takeWhile (\<lambda>c. c \<noteq> CHR 0x0A) command) 2 '' '' = ''kill'' # a # rest \<longrightarrow>
      (\<forall>np \<in> set (cola_nuevos (ck_kernel ck)). pcb_pid (np_pcb np) \<noteq> ucast (atoi a))"
  shows "sched_inv (ck_kernel ck') \<and> procs (ck_kernel ck') = procs (ck_kernel ck) \<and>
    file_inv (ck_kernel ck') \<and> open_files (ck_kernel ck') = open_files (ck_kernel ck)"
proof -
  let ?k = "ck_kernel ck" and ?k' = "ck_kernel ck'"
  define palabras where "palabras = string_n_split L (takeWhile (\<lambda>c. c \<noteq> CHR 0x0A) command) 2 '' ''"
  have r: "ejecutar_comando L A junk palabras ck = Some (out, ck')"
    using run by (auto simp: leer_comando_def palabras_def split: if_splits)
  then obtain c args where w: "palabras = c # args" by (cases palabras) (auto simp: ejecutar_comando_def)
  have books: ?thesis if "quiet ?k ?k'"
    using that assms(2,4) same_sched_inv [of ?k ?k'] by (simp add: quiet_def)
  consider (list) "c = ''process_list''" | (process) "c = ''process''" | (kill) "c = ''kill''" | (other) "quiet ?k ?k'"
    using r by (auto simp: ejecutar_comando_def w on_kernel_def play_comando_def quiet_def same_sched_def file_inv_def open_files_def
        split: if_splits list.splits)
  then show ?thesis
  proof cases
    case list
    then have "process_list L args ?k = Some (out, ?k')"
      using r by (auto simp: ejecutar_comando_def w on_kernel_def)
    then show ?thesis using consola_commons.process_list_quiet [OF assms(1)] books by blast
  next
    case process
    then obtain p where "imprimir_proceso L p ?k = Some (out, ?k')"
      using r by (auto simp: ejecutar_comando_def w on_kernel_def split: list.splits bind_splits)
    then show ?thesis using consola_commons.imprimir_proceso_quiet [OF assms(1)] books by blast
  next
    case kill: kill
    then obtain a rest where a: "args = a # rest" "kill_comando L A junk (atoi a) ?k = Some ?k'"
      using r by (auto simp: ejecutar_comando_def w on_kernel_def split: list.splits)
    have "\<forall>np \<in> set (cola_nuevos ?k). pcb_pid (np_pcb np) \<noteq> ucast (atoi a)"
      using assms(6) kill a(1) w by (simp add: palabras_def)
    from consola_commons.kill_comando_effect [OF assms(1) a(2) assms(2,3) this] show ?thesis
      using assms(4) same_filesD same_files_open by (auto simp: Kernel_Sched_Props.keeps_def)
  next
    case other
    then show ?thesis by (rule books)
  qed
qed

theorem consola_keeps_books_witness:
  "\<exists>ck'. leer_comando seq_consola_lib abi32 (\<lambda>_. 0) (''multiprogramming 3'' @ [CHR 0x0A])
      \<lparr>ck_kernel = demo_kernel [] [], planificar = True, sem_planificar_corto_plazo = 0, sem_planificar_largo_plazo = 0\<rparr> = Some ([], ck') \<and>
    procs (ck_kernel ck') = {#1#}"
proof -
  let ?ck = "\<lparr>ck_kernel = demo_kernel [] [], planificar = True, sem_planificar_corto_plazo = 0, sem_planificar_largo_plazo = 0\<rparr>"
  let ?line = "''multiprogramming'' @ '' '' @ ''3''"
  have inv: "sched_inv (ck_kernel ?ck)" "once_each (ck_kernel ?ck)" "file_inv (ck_kernel ?ck)" "procs (ck_kernel ?ck) = {#1#}"
    by (simp_all add: sched_inv_def once_each_def procs_def file_inv_def tables_ok_def counts_ok_def demo_kernel_def demo_cpu_entry_def
        cpu_ok_def cpu_pids_def)
  have l: "takeWhile (\<lambda>c. c \<noteq> CHR 0x0A) (''multiprogramming 3'' @ [CHR 0x0A]) = ?line" by simp
  have w: "string_n_split seq_consola_lib ?line 2 '' '' = [''multiprogramming'', ''3'']" by (rule seq_kconsola.split_two) simp_all
  obtain ck' where r: "leer_comando seq_consola_lib abi32 (\<lambda>_. 0) (''multiprogramming 3'' @ [CHR 0x0A]) ?ck = Some ([], ck')"
    unfolding leer_comando_def l w by (simp add: ejecutar_comando_def on_kernel_def)
  have k: "\<forall>a rest. string_n_split seq_consola_lib (takeWhile (\<lambda>c. c \<noteq> CHR 0x0A) (''multiprogramming 3'' @ [CHR 0x0A])) 2 '' '' = ''kill'' # a # rest \<longrightarrow>
      (\<forall>np \<in> set (cola_nuevos (ck_kernel ?ck)). pcb_pid (np_pcb np) \<noteq> ucast (atoi a))"
    unfolding l w by simp
  show ?thesis using consola_keeps_books [OF seq_kconsola.consola_commons_axioms inv(1-3) r k] r inv(4) by auto
qed

section \<open>Stopping and resuming the schedulers\<close>

text \<open>
  While the schedulers are stopped and no token is left, neither makes a round.  \<open>play\<close> on a running system leaves one token for each
  scheduler, so that the next \<open>stop\<close> lets each of them make one more round.
\<close>

lemma stop_stops:
  "\<not> planificar ck \<Longrightarrow> sem_planificar_corto_plazo ck = 0 \<Longrightarrow> planificador_corto_plazo K A junk ck = None"
  "\<not> planificar ck \<Longrightarrow> sem_planificar_largo_plazo ck = 0 \<Longrightarrow> ronda_largo_plazo K junk ck = None"
  by (simp_all add: planificador_corto_plazo_def ronda_largo_plazo_def)

lemma play_resumes:
  "planificador_corto_plazo K A junk (play_comando ck) =
     map_option (\<lambda>k. (play_comando ck)\<lparr>ck_kernel := k\<rparr>) (pasarDeReadyAExecute K A junk (ck_kernel ck))"
  "ronda_largo_plazo K junk (play_comando ck) =
     map_option (\<lambda>k. (play_comando ck)\<lparr>ck_kernel := k\<rparr>) (planificador_largo_plazo K junk (ck_kernel ck))"
  by (simp_all add: planificador_corto_plazo_def ronda_largo_plazo_def play_comando_def)

lemma stop_after_idle_play_runs_once:
  assumes "sem_planificar_corto_plazo ck = 0" "pasarDeReadyAExecute K A junk (ck_kernel ck) = Some k'"
  shows "planificador_corto_plazo K A junk ((play_comando ck)\<lparr>planificar := False\<rparr>) =
    Some ((play_comando ck)\<lparr>planificar := False, sem_planificar_corto_plazo := 0, ck_kernel := k'\<rparr>)"
  using assms by (simp add: planificador_corto_plazo_def play_comando_def)

end
