(* ===== verification/Kernel_Init.thy ===== *)
theory Kernel_Init
  imports Kernel_Console "HOL-Library.AList"
begin

text \<open>
  Start-up of the kernel (\<open>main\<close> of \<open>kernel/src/kernel.c\<close>, \<open>crearVariablesCompartidas\<close> and \<open>crearSemaforos\<close> of
  \<open>kernel_generales.c\<close>): the shared variables and the semaphores of the configuration, and the state in which the threads start.
  The functions that read the configuration file, and the string functions of so-commons, are parameters; \<open>sem_ids\<close> and \<open>shared_vars\<close> are the
  values of the configuration as texts, with their brackets, \<open>sem_init\<close> is an array.  The page size is the answer of the memory
  process to the handshake.  \<open>None\<close> is a missing element of \<open>sem_init\<close>, which is passed to \<open>atoi\<close> as a null pointer.
\<close>

record config_lib =
  string_substring :: "string \<Rightarrow> int \<Rightarrow> int \<Rightarrow> string"
  string_split :: "string \<Rightarrow> string \<Rightarrow> string list"
  cfg_trim :: "string \<Rightarrow> string"
  sem_put :: "(c_str \<times> t_semaphore) list \<Rightarrow> c_str \<Rightarrow> t_semaphore \<Rightarrow> (c_str \<times> t_semaphore) list"

definition as_bytes :: "string \<Rightarrow> c_str" where
  "as_bytes s = map (\<lambda>c. word_of_nat (of_char c)) s"

definition value_without_brackets :: "config_lib \<Rightarrow> string \<Rightarrow> string" where
  "value_without_brackets G v = string_substring G v 1 (int (length v) - 2)"

definition crearVariablesCompartidas :: "config_lib \<Rightarrow> kernel_lib \<Rightarrow> string \<Rightarrow> t_shared_var list \<Rightarrow> t_shared_var list" where
  "crearVariablesCompartidas G K shared_vars tabla =
     fold (\<lambda>v l. let t = cfg_trim G v in
         kl_add (var_c K) l \<lparr>sv_nombre = as_bytes (string_substring G t 1 (int (length t) - 1)), sv_valor = 0\<rparr>)
       (string_split G (value_without_brackets G shared_vars) '','') tabla"

fun crear_semaforos_desde ::
    "config_lib \<Rightarrow> string list \<Rightarrow> string list \<Rightarrow> (c_str \<times> t_semaphore) list \<Rightarrow> (c_str \<times> t_semaphore) list option" where
  "crear_semaforos_desde G [] inits d = Some d"
| "crear_semaforos_desde G (s # ss) [] d = None"
| "crear_semaforos_desde G (s # ss) (i # inits) d =
     crear_semaforos_desde G ss inits (sem_put G d (as_bytes (cfg_trim G s)) \<lparr>cuenta = atoi i, sem_cola = []\<rparr>)"

definition crearSemaforos :: "config_lib \<Rightarrow> string \<Rightarrow> string list \<Rightarrow> (c_str \<times> t_semaphore) list option" where
  "crearSemaforos G sem_ids sem_init =
     crear_semaforos_desde G (string_split G (value_without_brackets G sem_ids) '','') sem_init []"

definition kernel_main ::
    "config_lib \<Rightarrow> kernel_lib \<Rightarrow> t_kernel_conf \<Rightarrow> string \<Rightarrow> string list \<Rightarrow> string \<Rightarrow> u32 \<Rightarrow> sock \<Rightarrow> sock \<Rightarrow> (u32 \<Rightarrow> sock) \<Rightarrow> consola_kernel option" where
  "kernel_main G K conf sem_ids sem_init shared_vars tamanio mem fs cl = do {
     sems \<leftarrow> crearSemaforos G sem_ids sem_init;
     Some \<lparr>ck_kernel = \<lparr>tabla_paginas_heap = [], tabla_global_archivos = [],
         tabla_variables_compartidas = crearVariablesCompartidas G K shared_vars [], contador_fd_global = 10,
         listaDeTablasDeArchivosDeProcesos = [], tabla_paginas_por_proceso = [], tabla_sockets_procesos = [], semaforos = sems,
         registro_pid = 1, cola_nuevos = [], cola_listos = [], cola_bloqueados = [], cola_finalizados = [], lista_cpu = [],
         semPlanificarLargoPlazo = 0, semCantidadProgramasPlanificados = 0, semCantidadElementosColaListos = 0,
         semCantidadCpuLibres = 0, kernel_conf = conf, TAMANIO_PAGINAS = tamanio, memory_socket = mem, fs_socket = fs, clientes = cl\<rparr>,
       planificar = True, sem_planificar_corto_plazo = 0, sem_planificar_largo_plazo = 0\<rparr> }"

section \<open>What the configuration means\<close>

text \<open>White space in the sense of \<open>isspace\<close>.  A padding of spaces is trimmed, a text with no white space at its ends is kept.\<close>

definition white :: "char \<Rightarrow> bool" where
  "white c \<longleftrightarrow> c \<in> {CHR '' '', CHR 0x09, CHR 0x0A, CHR 0x0B, CHR 0x0C, CHR 0x0D}"

definition plain_word :: "string \<Rightarrow> bool" where
  "plain_word w \<longleftrightarrow> w \<noteq> [] \<and> CHR '','' \<notin> set w \<and> (\<forall>c \<in> set w. \<not> white c)"

definition join_commas :: "string list \<Rightarrow> string" where
  "join_commas ws = concat (map (\<lambda>w. w @ '','') (butlast ws)) @ last ws"

locale config_commons =
  fixes G :: config_lib
  assumes substring: "0 \<le> a \<Longrightarrow> 0 \<le> m \<Longrightarrow> a + m \<le> int (length s) \<Longrightarrow> string_substring G s a m = take (nat m) (drop (nat a) s)"
    and split_words: "ws \<noteq> [] \<Longrightarrow> \<forall>w \<in> set ws. w \<noteq> [] \<and> CHR '','' \<notin> set w \<Longrightarrow> string_split G (join_commas ws) '','' = ws"
    and trim: "set p \<union> set q \<subseteq> {CHR '' ''} \<Longrightarrow> w \<noteq> [] \<Longrightarrow> \<not> white (hd w) \<Longrightarrow> \<not> white (last w) \<Longrightarrow> cfg_trim G (p @ w @ q) = w"
    and put_lookup: "map_of (sem_put G d nm s') = (map_of d)(nm \<mapsto> s')"
    and put_set: "set (sem_put G d nm s') \<subseteq> insert (nm, s') (set d)"
    and put_distinct: "distinct (map fst d) \<Longrightarrow> distinct (map fst (sem_put G d nm s'))"

definition idle_sems :: "(c_str \<times> t_semaphore) list \<Rightarrow> bool" where
  "idle_sems d \<longleftrightarrow> distinct (map fst d) \<and> (\<forall>(n, s) \<in> set d. sem_cola s = [] \<and> 0 \<le> sint (cuenta s))"

context config_commons
begin

lemma trim_plain: "plain_word w \<Longrightarrow> cfg_trim G w = w"
  using trim [of "[]" "[]" w] by (simp add: plain_word_def)

lemma brackets: "value_without_brackets G (''['' @ v @ '']'') = v"
  by (simp add: value_without_brackets_def substring)

lemma semaforos_desde:
  assumes "length ss \<le> length inits" "\<forall>i \<in> set inits. 0 \<le> sint (atoi i)" "idle_sems d"
  shows "\<exists>d'. crear_semaforos_desde G ss inits d = Some d' \<and> idle_sems d' \<and>
    map_of d' = (map_of d)(map (as_bytes \<circ> cfg_trim G) ss [\<mapsto>] map (\<lambda>i. \<lparr>cuenta = atoi i, sem_cola = []\<rparr>) inits)"
  using assms
proof (induction ss arbitrary: inits d)
  case (Cons s ss)
  then obtain i js where inits: "inits = i # js" by (cases inits) auto
  let ?d = "sem_put G d (as_bytes (cfg_trim G s)) \<lparr>cuenta = atoi i, sem_cola = []\<rparr>"
  have "idle_sems ?d" using Cons.prems(2,3) put_set put_distinct by (fastforce simp: idle_sems_def inits)
  moreover have "length ss \<le> length js" "\<forall>i \<in> set js. 0 \<le> sint (atoi i)" using Cons.prems(1,2) by (simp_all add: inits)
  ultimately show ?case using Cons.IH [of js ?d] by (simp add: inits put_lookup fun_upd_def)
qed simp

lemma variables_desde:
  assumes "coll_laws (var_c K)" "ws \<noteq> []" "\<forall>w \<in> set ws. plain_word w"
  shows "crearVariablesCompartidas G K (''['' @ join_commas ws @ '']'') [] = map (\<lambda>w. \<lparr>sv_nombre = as_bytes (tl w), sv_valor = 0\<rparr>) ws"
proof -
  have f: "fold (\<lambda>v l. let t = cfg_trim G v in kl_add (var_c K) l \<lparr>sv_nombre = as_bytes (string_substring G t 1 (int (length t) - 1)), sv_valor = 0\<rparr>) vs l =
      l @ map (\<lambda>w. \<lparr>sv_nombre = as_bytes (tl w), sv_valor = 0\<rparr>) vs" if "\<forall>w \<in> set vs. plain_word w" for vs l
    using that
  proof (induction vs arbitrary: l)
    case (Cons v vs)
    then have "string_substring G v 1 (int (length v) - 1) = tl v" by (cases v) (simp_all add: substring plain_word_def)
    with Cons show ?case by (simp add: trim_plain coll_laws.kl_add [OF assms(1)])
  qed simp
  have "string_split G (join_commas ws) '','' = ws" using assms(2,3) by (intro split_words) (auto simp: plain_word_def)
  then show ?thesis unfolding crearVariablesCompartidas_def brackets using f [of ws "[]"] assms(3) by simp
qed

lemma main_start:
  assumes "kernel_commons K" and vars: "vs \<noteq> []" "\<forall>w \<in> set vs. plain_word w"
    and sems: "ss \<noteq> []" "\<forall>w \<in> set ss. plain_word w"
    and inits: "length inits = length ss" "\<forall>i \<in> set inits. 0 \<le> sint (atoi i)"
  shows "\<exists>ck. kernel_main G K conf (''['' @ join_commas ss @ '']'') inits (''['' @ join_commas vs @ '']'') tam mem fs cl = Some ck \<and>
    sched_inv (ck_kernel ck) \<and> once_each (ck_kernel ck) \<and> file_inv (ck_kernel ck) \<and> open_files (ck_kernel ck) = {} \<and>
    idle_sems (semaforos (ck_kernel ck)) \<and>
    map_of (semaforos (ck_kernel ck)) = (\<lambda>_. None)(map as_bytes ss [\<mapsto>] map (\<lambda>i. \<lparr>cuenta = atoi i, sem_cola = []\<rparr>) inits) \<and>
    (\<forall>w \<in> set vs. leerValorVariable K (as_bytes (tl w)) (ck_kernel ck) = Some 0)"
proof -
  have "string_split G (join_commas ss) '','' = ss" using sems by (intro split_words) (auto simp: plain_word_def)
  moreover have tr: "map (as_bytes \<circ> cfg_trim G) ss = map as_bytes ss" using sems(2) trim_plain by simp
  ultimately obtain d where d: "crearSemaforos G (''['' @ join_commas ss @ '']'') inits = Some d" "idle_sems d"
    "map_of d = (\<lambda>_. None)(map as_bytes ss [\<mapsto>] map (\<lambda>i. \<lparr>cuenta = atoi i, sem_cola = []\<rparr>) inits)"
    unfolding crearSemaforos_def brackets using semaforos_desde [of ss inits "[]", unfolded tr] inits by (auto simp: idle_sems_def)
  have v: "crearVariablesCompartidas G K (''['' @ join_commas vs @ '']'') [] = map (\<lambda>w. \<lparr>sv_nombre = as_bytes (tl w), sv_valor = 0\<rparr>) vs"
    using kernel_commons.var_c [OF assms(1)] vars by (rule variables_desde)
  obtain ck where ck: "kernel_main G K conf (''['' @ join_commas ss @ '']'') inits (''['' @ join_commas vs @ '']'') tam mem fs cl = Some ck"
    and k: "semaforos (ck_kernel ck) = d" "cola_nuevos (ck_kernel ck) = []" "cola_listos (ck_kernel ck) = []" "cola_bloqueados (ck_kernel ck) = []"
      "cola_finalizados (ck_kernel ck) = []" "lista_cpu (ck_kernel ck) = []" "semCantidadProgramasPlanificados (ck_kernel ck) = 0"
      "semCantidadCpuLibres (ck_kernel ck) = 0" "tabla_global_archivos (ck_kernel ck) = []" "listaDeTablasDeArchivosDeProcesos (ck_kernel ck) = []"
      "tabla_variables_compartidas (ck_kernel ck) = map (\<lambda>w. \<lparr>sv_nombre = as_bytes (tl w), sv_valor = 0\<rparr>) vs"
    unfolding kernel_main_def d(1) v by (simp add: bind_eq_Some_conv)
  have "sched_inv (ck_kernel ck) \<and> once_each (ck_kernel ck)" using d(2) k by (intro start_inv) (auto simp: idle_sems_def)
  moreover have "file_inv (ck_kernel ck)" "open_files (ck_kernel ck) = {}"
    using k by (simp_all add: file_inv_def tables_ok_def counts_ok_def open_files_def open_of_def)
  moreover have "leerValorVariable K (as_bytes (tl w)) (ck_kernel ck) = Some 0" if w: "w \<in> set vs" for w
  proof -
    let ?l = "map (\<lambda>w. \<lparr>sv_nombre = as_bytes (tl w), sv_valor = (0 :: u32)\<rparr>) vs"
    obtain i where i: "find_index (\<lambda>x. sv_nombre x = as_bytes (tl w)) ?l = Some i"
      using w find_index_None_iff [of "\<lambda>x. sv_nombre x = as_bytes (tl w)" ?l] by (cases "find_index (\<lambda>x. sv_nombre x = as_bytes (tl w)) ?l") auto
    then have "i < length ?l" by (simp add: find_index_Some_iff)
    then show ?thesis using i by (simp add: leerValorVariable_def find_var_def kernel_commons.coll_simps [OF assms(1)] k(11))
  qed
  ultimately show ?thesis using ck d(2,3) k(1) by blast
qed

end

section \<open>An instance\<close>

definition seq_config :: config_lib where
  "seq_config = \<lparr>string_substring = (\<lambda>s a m. take (nat m) (drop (nat a) s)), string_split = (\<lambda>s sep. strtok_words (hd sep) [] s), 
     cfg_trim = (\<lambda>s. rev (dropWhile white (rev (dropWhile white s)))), sem_put = (\<lambda>d n s. AList.update n s d)\<rparr>"

lemma strtok_join_commas:
  "ws \<noteq> [] \<Longrightarrow> \<forall>w \<in> set ws. w \<noteq> [] \<and> CHR '','' \<notin> set w \<Longrightarrow> strtok_words (CHR '','') [] (join_commas ws) = ws"
proof (induction ws)
  case (Cons w ws)
  then have w: "strtok_words (CHR '','') [] (w @ r) = strtok_words (CHR '','') w r" for r
    using strtok_words_token [of w "CHR '',''" "[]" r] by fastforce
  show ?case using Cons w [of "[]"] w [of "'','' @ join_commas ws"] by (cases ws) (simp_all add: join_commas_def)
qed simp

lemma trim_padding:
  assumes "set a \<union> set b \<subseteq> {CHR '' ''}" "w \<noteq> []" "\<not> white (hd w)" "\<not> white (last w)"
  shows "rev (dropWhile white (rev (dropWhile white (a @ w @ b)))) = w"
proof -
  have d: "dropWhile white (x @ y) = y" if "set x \<subseteq> {CHR '' ''}" "y \<noteq> []" "\<not> white (hd y)" for x y
    using that by (induction x) (auto simp: white_def dropWhile_eq_self_iff)
  have "dropWhile white (a @ w @ b) = w @ b" using assms by (intro d) auto
  moreover have "dropWhile white (rev b @ rev w) = rev w" using assms by (intro d) (auto simp: hd_rev)
  ultimately show ?thesis by simp
qed

lemma set_update_subset: "set (AList.update k v d) \<subseteq> insert (k, v) (set d)"
  by (induction d) auto

interpretation seq_config: config_commons seq_config
  by unfold_locales (simp_all add: seq_config_def strtok_join_commas trim_padding update_conv' set_update_subset distinct_update)

text \<open>
  The state in which the kernel starts is well-formed, whatever the configuration names.  Every configured semaphore is in the dictionary once, with
  its initial count and nobody waiting; every configured shared variable can be read and has the value 0, under the configured name without
  the leading character; and the invariants on which the scheduler and the requests about files rely hold, with no file open.
\<close>

theorem kernel_main_start:
  assumes "config_commons G" and "kernel_commons K"
    and "vs \<noteq> []" and "\<forall>w \<in> set vs. plain_word w"
    and "ss \<noteq> []" and "\<forall>w \<in> set ss. plain_word w"
    and "length inits = length ss" and "\<forall>i \<in> set inits. 0 \<le> sint (atoi i)"
  shows "\<exists>ck. kernel_main G K conf (''['' @ join_commas ss @ '']'') inits (''['' @ join_commas vs @ '']'') tam mem fs cl = Some ck \<and>
    sched_inv (ck_kernel ck) \<and> once_each (ck_kernel ck) \<and> file_inv (ck_kernel ck) \<and> open_files (ck_kernel ck) = {} \<and>
    idle_sems (semaforos (ck_kernel ck)) \<and>
    map_of (semaforos (ck_kernel ck)) = (\<lambda>_. None)(map as_bytes ss [\<mapsto>] map (\<lambda>i. \<lparr>cuenta = atoi i, sem_cola = []\<rparr>) inits) \<and>
    (\<forall>w \<in> set vs. leerValorVariable K (as_bytes (tl w)) (ck_kernel ck) = Some 0)"
  using assms(2-) by (rule config_commons.main_start [OF assms(1)])

theorem kernel_main_start_witness:
  "\<exists>ck. kernel_main seq_config seq_kernel_lib demo_conf ''[A,B]'' [''0'', ''2''] ''[!X]'' 64
      \<lparr>sk_in = [], sk_out = []\<rparr> \<lparr>sk_in = [], sk_out = []\<rparr> (\<lambda>_. \<lparr>sk_in = [], sk_out = []\<rparr>) = Some ck \<and>
    sched_inv (ck_kernel ck) \<and> map_of (semaforos (ck_kernel ck)) (as_bytes ''B'') = Some \<lparr>cuenta = 2, sem_cola = []\<rparr> \<and>
    leerValorVariable seq_kernel_lib (as_bytes ''X'') (ck_kernel ck) = Some 0"
proof -
  have j: "join_commas [''A'', ''B''] = ''A,B''" "join_commas [''!X''] = ''!X''" by (simp_all add: join_commas_def)
  have c: "atoi ''0'' = 0" "atoi ''2'' = 2" by code_simp+
  have n: "as_bytes ''A'' \<noteq> as_bytes ''B''" by code_simp
  show ?thesis
    using kernel_main_start [OF seq_config.config_commons_axioms seq_kernel.kernel_commons_axioms,
      of "[''!X'']" "[''A'', ''B'']" "[''0'', ''2'']" demo_conf 64 "\<lparr>sk_in = [], sk_out = []\<rparr>" "\<lparr>sk_in = [], sk_out = []\<rparr>"
        "\<lambda>_. \<lparr>sk_in = [], sk_out = []\<rparr>"] n by (auto simp: j c plain_word_def white_def)
qed

end
