(* ===== verification/Configuracion.thy ===== *)
theory Configuracion
  imports Kernel_Init Memoria_Frames
begin

text \<open>
  The configuration files of the processes: the loaders \<open>load_memory_properties\<close> (\<open>memoria.c\<close>), \<open>load_file_system_properties\<close> (\<open>file-system.c\<close>),
  \<open>load_properties\<close> (\<open>funcionesCPU.c\<close>), \<open>load_config\<close> (\<open>consola.c\<close>) and \<open>load_kernel_properties\<close> (\<open>kernel_generales.c\<close>), and the thread
  of the kernel that reads the pause between two instructions again when the file changes (\<open>monitoriar_config\<close>,
  \<open>actualizar_quantum_sleep\<close> of \<open>kernel.c\<close>).  The configuration reader of so-commons is a parameter: a configuration is a value of a type \<open>'c\<close>,
  \<open>cfg_int\<close> is \<open>None\<close> where it follows a null pointer (no such property, or no file), and \<open>cfg_string\<close> gives the null
  pointer as \<open>None\<close>.
\<close>

unbundle bit_operations_syntax

record 'c config_reader =
  config_create :: "string \<Rightarrow> 'c option"
  config_has_property :: "'c \<Rightarrow> string \<Rightarrow> bool"
  cfg_int :: "'c \<Rightarrow> string \<Rightarrow> int option"
  cfg_string :: "'c \<Rightarrow> string \<Rightarrow> string option"
  cfg_array :: "'c \<Rightarrow> string \<Rightarrow> string list option"

definition entero :: "'c config_reader \<Rightarrow> 'c \<Rightarrow> string \<Rightarrow> u32 option" where
  "entero R conf key = map_option word_of_int (cfg_int R conf key)"

section \<open>The loaders\<close>

record memory_properties =
  mp_port :: u32
  mp_conf :: t_memory_conf
  cache_algorithm :: "string option"
  mp_logfile :: "string option"

definition load_memory_properties :: "'c config_reader \<Rightarrow> memory_properties option" where
  "load_memory_properties R = do {
     conf \<leftarrow> config_create R ''./memoria.cfg'';
     port \<leftarrow> entero R conf ''PUERTO'';
     marcos \<leftarrow> entero R conf ''MARCOS'';
     marco_size \<leftarrow> entero R conf ''MARCO_SIZE'';
     entradas \<leftarrow> entero R conf ''ENTRADAS_CACHE'';
     por_proceso \<leftarrow> entero R conf ''CACHE_X_PROC'';
     retardo \<leftarrow> entero R conf ''RETARDO_MEMORIA'';
     Some \<lparr>mp_port = port, mp_conf = \<lparr>frames = marcos, frame_size = marco_size, cache_entries = entradas, cache_x_process = por_proceso,
         memory_delay = retardo\<rparr>,
       cache_algorithm = cfg_string R conf ''REEMPLAZO_CACHE'', mp_logfile = cfg_string R conf ''LOGFILE''\<rparr> }"

record file_system_properties =
  fp_port :: u32
  fp_blocks :: u32
  mount_point :: "string option"
  fp_logfile :: "string option"

definition load_file_system_properties :: "'c config_reader \<Rightarrow> file_system_properties option" where
  "load_file_system_properties R = do {
     conf \<leftarrow> config_create R ''./file-system.cfg'';
     port \<leftarrow> entero R conf ''PUERTO'';
     bloques \<leftarrow> entero R conf ''BLOQUES'';
     Some \<lparr>fp_port = port, fp_blocks = bloques, mount_point = cfg_string R conf ''PUNTO_MONTAJE'', fp_logfile = cfg_string R conf ''LOGFILE''\<rparr> }"

record cpu_properties =
  cp_kernel_ip :: "string option"
  cp_kernel_port :: "string option"
  cp_memory_ip :: "string option"
  cp_memory_port :: "string option"

definition load_properties :: "'c config_reader \<Rightarrow> cpu_properties option" where
  "load_properties R = map_option (\<lambda>conf. \<lparr>cp_kernel_ip = cfg_string R conf ''IP_KERNEL'', cp_kernel_port = cfg_string R conf ''PUERTO_KERNEL'',
     cp_memory_ip = cfg_string R conf ''IP_MEMORIA'', cp_memory_port = cfg_string R conf ''PUERTO_MEMORIA''\<rparr>) (config_create R ''./cpu.cfg'')"

record console_properties =
  con_port :: "string option"
  con_ipAddress :: "string option"

definition load_config :: "'c config_reader \<Rightarrow> string option \<Rightarrow> console_properties option" where
  "load_config R path = map_option (\<lambda>cfg. \<lparr>con_port = cfg_string R cfg ''PORT_KERNEL'', con_ipAddress = cfg_string R cfg ''IP_KERNEL''\<rparr>)
     (config_create R (case path of None \<Rightarrow> ''./consola.cfg'' | Some p \<Rightarrow> p))"

record kernel_properties =
  program_port :: u32
  cpu_port :: u32
  kp_memory_ip :: "string option"
  kp_memory_port :: "string option"
  filesystem_ip :: "string option"
  filesystem_port :: "string option"
  kp_conf :: t_kernel_conf
  kp_sem_ids :: "string option"
  kp_sem_init :: "string list option"
  kp_shared_vars :: "string option"

text \<open>The algorithm is compared with \<open>strcmp\<close> later, where a null pointer would be followed; here it has to be there.\<close>

definition load_kernel_properties :: "'c config_reader \<Rightarrow> string option \<Rightarrow> kernel_properties option" where
  "load_kernel_properties R ruta = do {
     conf \<leftarrow> config_create R (case ruta of None \<Rightarrow> ''./kernel.cfg'' | Some r \<Rightarrow> r);
     puerto_prog \<leftarrow> entero R conf ''PUERTO_PROG'';
     puerto_cpu \<leftarrow> entero R conf ''PUERTO_CPU'';
     grado \<leftarrow> entero R conf ''GRADO_MULTIPROG'';
     algoritmo \<leftarrow> cfg_string R conf ''ALGORITMO'';
     quantum \<leftarrow> entero R conf ''QUANTUM'';
     pausa \<leftarrow> entero R conf ''QUANTUM_SLEEP'';
     stack \<leftarrow> entero R conf ''STACK_SIZE'';
     Some \<lparr>program_port = puerto_prog, cpu_port = puerto_cpu, kp_memory_ip = cfg_string R conf ''IP_MEMORIA'',
       kp_memory_port = cfg_string R conf ''PUERTO_MEMORIA'', filesystem_ip = cfg_string R conf ''IP_FS'',
       filesystem_port = cfg_string R conf ''PUERTO_FS'',
       kp_conf = \<lparr>conf_quantum = quantum, conf_quantum_sleep = pausa, conf_algoritmo = as_bytes algoritmo, conf_grado_multiprog = grado,
         conf_stack_size = stack\<rparr>,
       kp_sem_ids = cfg_string R conf ''SEM_IDS'', kp_sem_init = cfg_array R conf ''SEM_INIT'',
       kp_shared_vars = cfg_string R conf ''SHARED_VARS''\<rparr> }"

text \<open>The start of the kernel with what it has loaded.\<close>

definition kernel_arranque ::
    "'c config_reader \<Rightarrow> config_lib \<Rightarrow> kernel_lib \<Rightarrow> string option \<Rightarrow> u32 \<Rightarrow> sock \<Rightarrow> sock \<Rightarrow> (u32 \<Rightarrow> sock) \<Rightarrow> consola_kernel option" where
  "kernel_arranque R G K ruta tamanio mem fs cl = do {
     p \<leftarrow> load_kernel_properties R ruta;
     vars \<leftarrow> kp_shared_vars p;
     ids \<leftarrow> kp_sem_ids p;
     inits \<leftarrow> kp_sem_init p;
     kernel_main G K (kp_conf p) ids inits vars tamanio mem fs cl }"

section \<open>The pause between two instructions\<close>

definition actualizar_quantum_sleep :: "'c config_reader \<Rightarrow> kernel \<Rightarrow> kernel option" where
  "actualizar_quantum_sleep R k = do {
     conf \<leftarrow> config_create R ''./kernel.cfg'';
     n \<leftarrow> entero R conf ''QUANTUM_SLEEP'';
     Some (k\<lparr>kernel_conf := (kernel_conf k)\<lparr>conf_quantum_sleep := n\<rparr>\<rparr>) }"

definition recargar :: "'c config_reader \<Rightarrow> kernel \<Rightarrow> kernel option" where
  "recargar R k = do {
     conf \<leftarrow> config_create R ''./kernel.cfg'';
     (if config_has_property R conf ''QUANTUM_SLEEP'' then do {
        n \<leftarrow> entero R conf ''QUANTUM_SLEEP'';
        Some (k\<lparr>kernel_conf := (kernel_conf k)\<lparr>conf_quantum_sleep := n\<rparr>\<rparr>) }
      else Some k) }"

definition IN_MODIFY :: u32 where "IN_MODIFY = 2"
definition IN_CLOSE_WRITE :: u32 where "IN_CLOSE_WRITE = 8"

text \<open>
  The events in a buffer that \<open>read\<close> has filled: an event is a header of 16 bytes (the descriptor of the watch, the mask, a cookie and the
  length of the name) and the name.  \<open>None\<close> is also a header that is not complete.
\<close>

function procesar_eventos :: "'c config_reader \<Rightarrow> byte list \<Rightarrow> kernel \<Rightarrow> kernel option" where
  "procesar_eventos R buffer k =
     (if buffer = [] then Some k
      else if length buffer < 16 then None
      else
        (let mask = bytes_u32 (take 4 (drop 4 buffer)); len = bytes_u32 (take 4 (drop 12 buffer));
             m = (if len = 0 then Some k
                  else if mask AND IN_MODIFY \<noteq> 0 then recargar R k
                  else if mask AND IN_CLOSE_WRITE \<noteq> 0 then recargar R k
                  else Some k)
         in case m of None \<Rightarrow> None | Some k1 \<Rightarrow> procesar_eventos R (drop (16 + unat len) buffer) k1))"
  by pat_completeness auto

termination procesar_eventos
  by (relation "measure (\<lambda>(_, buffer, _). length buffer)") auto

declare procesar_eventos.simps [simp del]

text \<open>The thread, over the results of \<open>read\<close> so far: \<open>None\<close> for a read that fails.  The file may change from read to read.\<close>

fun monitoriar_config :: "('c config_reader \<times> byte list option) list \<Rightarrow> kernel \<Rightarrow> kernel option" where
  "monitoriar_config [] k = Some k"
| "monitoriar_config ((R, None) # lecturas) k = monitoriar_config lecturas k"
| "monitoriar_config ((R, Some buffer) # lecturas) k = do {
     k1 \<leftarrow> procesar_eventos R buffer k;
     monitoriar_config lecturas k1 }"

section \<open>Properties\<close>

text \<open>The event of \<open>inotify\<close> as the kernel of the operating system writes it.\<close>

record inotify_event =
  ie_wd :: u32
  ie_mask :: u32
  ie_cookie :: u32
  ie_name :: "byte list"

definition event_bytes :: "inotify_event \<Rightarrow> byte list" where
  "event_bytes e = u32_bytes (ie_wd e) @ u32_bytes (ie_mask e) @ u32_bytes (ie_cookie e) @ u32_bytes (word_of_nat (length (ie_name e))) @ ie_name e"

definition cambio :: "inotify_event \<Rightarrow> bool" where
  "cambio e \<longleftrightarrow> ie_name e \<noteq> [] \<and> (ie_mask e AND IN_MODIFY \<noteq> 0 \<or> ie_mask e AND IN_CLOSE_WRITE \<noteq> 0)"

definition pausa :: "u32 \<Rightarrow> kernel \<Rightarrow> kernel" where
  "pausa n k = k\<lparr>kernel_conf := (kernel_conf k)\<lparr>conf_quantum_sleep := n\<rparr>\<rparr>"

lemma pausa_pausa [simp]: "pausa n (pausa m k) = pausa n k" and pausa_same: "\<exists>n. k = pausa n k"
  by (simp_all add: pausa_def exI [of _ "conf_quantum_sleep (kernel_conf k)"])

lemma recargar_pausa: "recargar R k = Some k' \<Longrightarrow> \<exists>n. k' = pausa n k"
  unfolding recargar_def using pausa_same [of k] by (auto simp: pausa_def split: bind_splits if_splits)

lemma recargar_idem: "recargar R k = Some k' \<Longrightarrow> recargar R k' = Some k'"
  by (auto simp: recargar_def split: bind_splits if_splits)

lemma eventos_step:
  assumes "length (ie_name e) < 2 ^ 32"
  shows "procesar_eventos R (event_bytes e @ rest) k =
    Option.bind (if cambio e then recargar R k else Some k) (procesar_eventos R rest)"
proof -
  have n: "unat (word_of_nat (length (ie_name e)) :: u32) = length (ie_name e)" using assms by (simp add: unat_of_nat)
  then have z: "word_of_nat (length (ie_name e)) = (0 :: u32) \<longleftrightarrow> ie_name e = []" by (metis length_0_conv unat_0 unat_eq_zero)
  show ?thesis
    by (subst procesar_eventos.simps) (simp add: event_bytes_def n z cambio_def Let_def split: option.split)
qed

lemma eventos_all:
  assumes "\<forall>e \<in> set es. length (ie_name e) < 2 ^ 32" "recargar R k = Some k'"
  shows "procesar_eventos R (concat (map event_bytes es)) k = Some (if list_ex cambio es then k' else k)"
  using assms
proof (induction es arbitrary: k)
  case Nil
  then show ?case by (simp add: procesar_eventos.simps)
next
  case (Cons e es)
  show ?case using Cons.IH [of k] Cons.IH [of k'] Cons.prems recargar_idem [of R k k'] by (auto simp: eventos_step)
qed

lemma eventos_pausa: "procesar_eventos R buffer k = Some k' \<Longrightarrow> \<exists>n. k' = pausa n k"
proof (induction R buffer k arbitrary: k' rule: procesar_eventos.induct)
  case (1 R buffer k)
  show ?case
  proof (cases "buffer = [] \<or> length buffer < 16")
    case True
    then show ?thesis using "1.prems" pausa_same [of k] by (subst (asm) procesar_eventos.simps) (auto split: if_splits)
  next
    case False
    define m where "m = (let mask = bytes_u32 (take 4 (drop 4 buffer)) in if bytes_u32 (take 4 (drop 12 buffer)) = 0 then Some k
        else if mask AND IN_MODIFY \<noteq> 0 then recargar R k else if mask AND IN_CLOSE_WRITE \<noteq> 0 then recargar R k else Some k)"
    have "procesar_eventos R buffer k =
        (case m of None \<Rightarrow> None | Some k1 \<Rightarrow> procesar_eventos R (drop (16 + unat (bytes_u32 (take 4 (drop 12 buffer)))) buffer) k1)"
      using False by (subst procesar_eventos.simps) (simp add: m_def Let_def)
    then obtain k1 where m: "m = Some k1" and p: "procesar_eventos R (drop (16 + unat (bytes_u32 (take 4 (drop 12 buffer)))) buffer) k1 = Some k'"
      using "1.prems" by (auto split: option.splits)
    have "\<exists>n. k1 = pausa n k" using m recargar_pausa [of R k k1] pausa_same [of k] by (auto simp: m_def Let_def split: if_splits)
    moreover have "\<exists>n. k' = pausa n k1"
      by (rule "1.IH" [OF _ _ refl refl _ _ p]) (use False m in \<open>simp_all add: m_def Let_def\<close>)
    ultimately show ?thesis by auto
  qed
qed

lemma monitoriar_pausa: "monitoriar_config lecturas k = Some k' \<Longrightarrow> \<exists>n. k' = pausa n k"
proof (induction lecturas k rule: monitoriar_config.induct)
  case (3 R buffer lecturas k)
  then show ?case by (auto split: bind_splits dest!: eventos_pausa)
qed (use pausa_same in auto)

lemma monitoriar_append:
  "monitoriar_config (xs @ ys) k = Option.bind (monitoriar_config xs k) (monitoriar_config ys)"
proof (induction xs k rule: monitoriar_config.induct)
  case (3 R buffer lecturas k)
  then show ?case by (cases "procesar_eventos R buffer k") auto
qed simp_all

text \<open>
  C28: The pause between two instructions follows the configuration file, and nothing else of the kernel does.  Whatever the watch has read before,
  only the pause has changed; when the next read delivers complete events, of which one reports a modification of a named
  file, the pause afterwards is the value that the file has now, and without such an event it stays.
\<close>

theorem quantum_sleep_follows_file:
  assumes "monitoriar_config lecturas k = Some k1" and "\<forall>e \<in> set es. length (ie_name e) < 2 ^ 32"
    and "config_create R ''./kernel.cfg'' = Some conf" "config_has_property R conf ''QUANTUM_SLEEP''" "cfg_int R conf ''QUANTUM_SLEEP'' = Some n"
  shows "monitoriar_config (lecturas @ [(R, Some (concat (map event_bytes es)))]) k =
      Some (if list_ex cambio es then pausa (word_of_int n) k else k1) \<and> (\<exists>m. k1 = pausa m k)"
proof -
  obtain m where m: "k1 = pausa m k" using monitoriar_pausa [OF assms(1)] by blast
  have "recargar R k1 = Some (pausa (word_of_int n) k1)" using assms(3-5) by (simp add: recargar_def entero_def pausa_def)
  from eventos_all [OF assms(2) this] m show ?thesis by (auto simp: monitoriar_append assms(1))
qed

definition seq_reader :: "(string \<times> int) list config_reader" where
  "seq_reader = \<lparr>config_create = (\<lambda>path. if path = ''./kernel.cfg'' then Some [(''QUANTUM_SLEEP'', 7)] else None),
     config_has_property = (\<lambda>c key. map_of c key \<noteq> None), cfg_int = map_of, cfg_string = (\<lambda>_ _. None), cfg_array = (\<lambda>_ _. None)\<rparr>"

theorem quantum_sleep_follows_file_witness:
  "monitoriar_config [(seq_reader, None), (seq_reader, Some (concat (map event_bytes [\<lparr>ie_wd = 1, ie_mask = 8, ie_cookie = 0, ie_name = [107, 0]\<rparr>])))]
     (demo_kernel [] []) = Some (pausa 7 (demo_kernel [] []))"
proof -
  have c: "list_ex cambio [\<lparr>ie_wd = 1, ie_mask = 8, ie_cookie = 0, ie_name = [107, 0]\<rparr>]" by (simp add: cambio_def IN_CLOSE_WRITE_def)
  have r: "config_create seq_reader ''./kernel.cfg'' = Some [(''QUANTUM_SLEEP'', 7)]"
    "config_has_property seq_reader [(''QUANTUM_SLEEP'', 7)] ''QUANTUM_SLEEP''" "cfg_int seq_reader [(''QUANTUM_SLEEP'', 7)] ''QUANTUM_SLEEP'' = Some 7"
    by (simp_all add: seq_reader_def)
  have "monitoriar_config [(seq_reader, None)] (demo_kernel [] []) = Some (demo_kernel [] [])" by simp
  from quantum_sleep_follows_file [OF this _ r, of "[\<lparr>ie_wd = 1, ie_mask = 8, ie_cookie = 0, ie_name = [107, 0]\<rparr>]"] c
  show ?thesis by simp
qed

end
