(* ===== verification/Kernel_System.thy ===== *)
theory Kernel_System
  imports Kernel_Select_Files Configuracion
begin

text \<open>
  The kernel as a whole: the threads that \<open>main\<close> and \<open>kernel_planificacion\<close> of \<open>kernel.c\<close> start (the two event loops, the console, the two
  schedulers) and the watch on the configuration file, in which \<open>main\<close> itself stays.  A run is any interleaving of their steps, each of which is atomic.
\<close>

datatype 'c suceso =
    Evento evento
  | Orden string
  | Largo_plazo
  | Corto_plazo
  | Lectura "'c config_reader" "byte list option"

definition kernel_suceso ::
    "consola_lib \<Rightarrow> abi \<Rightarrow> storage \<Rightarrow> (c_str \<Rightarrow> t_metadata_program) \<Rightarrow> 'c suceso \<Rightarrow> consola_kernel \<Rightarrow> consola_kernel option" where
  "kernel_suceso L A junk meta s ck = (case s of
     Evento e \<Rightarrow> map_option (\<lambda>k. ck\<lparr>ck_kernel := k\<rparr>) (seleccionado (cl_kernel L) A junk meta e (ck_kernel ck))
   | Orden command \<Rightarrow> map_option snd (leer_comando L A junk command ck)
   | Largo_plazo \<Rightarrow> ronda_largo_plazo (cl_kernel L) junk ck
   | Corto_plazo \<Rightarrow> planificador_corto_plazo (cl_kernel L) A junk ck
   | Lectura R buffer \<Rightarrow> map_option (\<lambda>k. ck\<lparr>ck_kernel := k\<rparr>) (monitoriar_config [(R, buffer)] (ck_kernel ck)))"

fun kernel_sucesos ::
    "consola_lib \<Rightarrow> abi \<Rightarrow> storage \<Rightarrow> (c_str \<Rightarrow> t_metadata_program) \<Rightarrow> 'c suceso list \<Rightarrow> consola_kernel \<Rightarrow> consola_kernel option" where
  "kernel_sucesos L A junk meta [] ck = Some ck"
| "kernel_sucesos L A junk meta (s # ss) ck = do {
     ck1 \<leftarrow> kernel_suceso L A junk meta s ck;
     kernel_sucesos L A junk meta ss ck1 }"

text \<open>What a step must respect: an event the conditions of the two theorems about the event loop, a command that it kills no program that waits for admission.\<close>

definition suceso_ok :: "consola_lib \<Rightarrow> abi \<Rightarrow> storage \<Rightarrow> 'c suceso \<Rightarrow> consola_kernel \<Rightarrow> bool" where
  "suceso_ok L A junk s ck = (case s of
     Evento e \<Rightarrow> evento_ok (cl_kernel L) A junk e (ck_kernel ck) \<and> archivos_ok A junk e (ck_kernel ck)
   | Orden command \<Rightarrow> (case string_n_split L (takeWhile (\<lambda>c. c \<noteq> CHR 0x0A) command) 2 '' '' of
       c # a # _ \<Rightarrow> c = ''kill'' \<longrightarrow> list_all (\<lambda>np. pcb_pid (np_pcb np) \<noteq> ucast (atoi a)) (cola_nuevos (ck_kernel ck))
     | _ \<Rightarrow> True)
   | _ \<Rightarrow> True)"

fun sucesos_ok ::
    "consola_lib \<Rightarrow> abi \<Rightarrow> storage \<Rightarrow> (c_str \<Rightarrow> t_metadata_program) \<Rightarrow> 'c suceso list \<Rightarrow> consola_kernel \<Rightarrow> bool" where
  "sucesos_ok L A junk meta [] ck = True"
| "sucesos_ok L A junk meta (s # ss) ck = (suceso_ok L A junk s ck \<and>
     (case kernel_suceso L A junk meta s ck of None \<Rightarrow> True | Some ck1 \<Rightarrow> sucesos_ok L A junk meta ss ck1))"

definition kernel_ok :: "kernel \<Rightarrow> bool" where
  "kernel_ok k \<longleftrightarrow> sched_inv k \<and> once_each k \<and> file_inv k"

section \<open>Every step keeps the invariants\<close>

lemma notificar_files: "notificar_memoria_inicio_programa junk pid n codigo k = Some (r, k1) \<Longrightarrow> file_inv k1 = file_inv k"
  by (auto simp: notificar_memoria_inicio_programa_def mandar_codigo_a_memoria_def Let_def split: prod.splits if_splits)

lemma largo_files: "planificador_largo_plazo K junk k = Some k' \<Longrightarrow> file_inv k \<Longrightarrow> file_inv k'"
  by (auto simp: planificador_largo_plazo_def pasarDeNewAReady_def Let_def split: if_splits bind_splits prod.splits option.splits
      dest!: notificar_files)

lemma corto_files: "pasarDeReadyAExecute K A junk k = Some k' \<Longrightarrow> file_inv k \<Longrightarrow> file_inv k'"
  by (auto simp: pasarDeReadyAExecute_def enviar_PCB_def Let_def split: if_splits bind_splits prod.splits option.splits dest: step_keeps_inv)

lemma pausa_ok [simp]: "kernel_ok (pausa n k) = kernel_ok k" "procs (pausa n k) = procs k"
proof -
  have "same_sched k (pausa n k)" by (simp add: same_sched_def pausa_def)
  from same_sched_inv [OF this] show "kernel_ok (pausa n k) = kernel_ok k" "procs (pausa n k) = procs k"
    by (simp_all add: kernel_ok_def once_each_def) (simp add: pausa_def file_inv_def)
qed

lemma kernel_ok_step: "kernel_commons K \<Longrightarrow> kstep K A junk meta k k' \<Longrightarrow> kernel_ok k \<Longrightarrow> file_inv k' \<Longrightarrow> kernel_ok k' \<and> procs k \<subseteq># procs k'"
  using kstep_keeps [of K A junk meta k k'] by (simp add: kernel_ok_def)

lemma rondas_ok:
  assumes K: "kernel_commons K" and ok: "kernel_ok (ck_kernel ck)"
  shows "ronda_largo_plazo K junk ck = Some ck' \<Longrightarrow> kernel_ok (ck_kernel ck') \<and> procs (ck_kernel ck) \<subseteq># procs (ck_kernel ck')"
    "planificador_corto_plazo K A junk ck = Some ck' \<Longrightarrow> kernel_ok (ck_kernel ck') \<and> procs (ck_kernel ck) \<subseteq># procs (ck_kernel ck')"
proof -
  have f: "file_inv (ck_kernel ck)" using ok by (simp add: kernel_ok_def)
  show "ronda_largo_plazo K junk ck = Some ck' \<Longrightarrow> kernel_ok (ck_kernel ck') \<and> procs (ck_kernel ck) \<subseteq># procs (ck_kernel ck')"
    using kernel_ok_step [OF K kstep.admit [of K junk _ _ undefined undefined] ok] largo_files [OF _ f]
    by (auto simp: ronda_largo_plazo_def split: bind_splits if_splits)
  show "planificador_corto_plazo K A junk ck = Some ck' \<Longrightarrow> kernel_ok (ck_kernel ck') \<and> procs (ck_kernel ck) \<subseteq># procs (ck_kernel ck')"
    using kernel_ok_step [OF K kstep.dispatch [of K A junk _ _ undefined] ok] corto_files [OF _ f]
    by (auto simp: planificador_corto_plazo_def split: bind_splits if_splits)
qed

lemma suceso_keeps:
  assumes L: "consola_commons L" and run: "kernel_suceso L A junk meta s ck = Some ck'" and ok: "suceso_ok L A junk s ck" "kernel_ok (ck_kernel ck)"
  shows "kernel_ok (ck_kernel ck') \<and> procs (ck_kernel ck) \<subseteq># procs (ck_kernel ck')"
proof -
  have K: "kernel_commons (cl_kernel L)" using L by (simp add: consola_commons_def)
  have inv: "sched_inv (ck_kernel ck)" "once_each (ck_kernel ck)" "file_inv (ck_kernel ck)" using ok(2) by (simp_all add: kernel_ok_def)
  show ?thesis
  proof (cases s)
    case (Evento e)
    then obtain k' where k': "seleccionado (cl_kernel L) A junk meta e (ck_kernel ck) = Some k'" "ck' = ck\<lparr>ck_kernel := k'\<rparr>"
      using run by (auto simp: kernel_suceso_def)
    have "books (ck_kernel ck) k'"
      using kernel_commons.evento_keeps_books [OF K _ inv(1,2), of A junk e meta] ok(1) k'(1) by (simp add: suceso_ok_def Evento books_kept_def)
    moreover have "file_inv k'"
      using kernel_commons.evento_keeps_files [OF K _ inv(3), of A junk e meta] ok(1) k'(1) by (simp add: suceso_ok_def Evento files_kept_def)
    ultimately show ?thesis by (simp add: k'(2) books_def kernel_ok_def)
  next
    case (Orden command)
    then obtain out where o: "leer_comando L A junk command ck = Some (out, ck')" using run by (auto simp: kernel_suceso_def)
    have "\<forall>a rest. string_n_split L (takeWhile (\<lambda>c. c \<noteq> CHR 0x0A) command) 2 '' '' = ''kill'' # a # rest \<longrightarrow>
        (\<forall>np \<in> set (cola_nuevos (ck_kernel ck)). pcb_pid (np_pcb np) \<noteq> ucast (atoi a))"
      using ok(1) by (auto simp: suceso_ok_def Orden list_all_iff)
    from consola_keeps_books [OF L inv o this] show ?thesis using inv(2) by (simp add: kernel_ok_def once_each_def)
  next
    case (Lectura R buffer)
    then obtain k' where k': "monitoriar_config [(R, buffer)] (ck_kernel ck) = Some k'" "ck' = ck\<lparr>ck_kernel := k'\<rparr>"
      using run by (auto simp: kernel_suceso_def)
    then show ?thesis using monitoriar_pausa [OF k'(1)] ok(2) by auto
  qed (use run rondas_ok [OF K ok(2)] in \<open>simp_all add: kernel_suceso_def\<close>)
qed

lemma sucesos_keep:
  assumes "consola_commons L"
  shows "kernel_sucesos L A junk meta ss ck = Some ck' \<Longrightarrow> sucesos_ok L A junk meta ss ck \<Longrightarrow> kernel_ok (ck_kernel ck) \<Longrightarrow>
    kernel_ok (ck_kernel ck') \<and> procs (ck_kernel ck) \<subseteq># procs (ck_kernel ck')"
proof (induction ss arbitrary: ck)
  case (Cons s ss)
  then obtain ck1 where s: "kernel_suceso L A junk meta s ck = Some ck1" "kernel_sucesos L A junk meta ss ck1 = Some ck'"
    by (auto simp: bind_eq_Some_conv)
  have one: "kernel_ok (ck_kernel ck1) \<and> procs (ck_kernel ck) \<subseteq># procs (ck_kernel ck1)"
    using suceso_keeps [OF assms s(1)] Cons.prems(2,3) by simp
  then have "kernel_ok (ck_kernel ck') \<and> procs (ck_kernel ck1) \<subseteq># procs (ck_kernel ck')"
    using Cons.IH [OF s(2)] Cons.prems(2) s(1) by simp
  with one show ?case using subset_mset.order_trans by blast
qed simp

section \<open>From the start\<close>

text \<open>
  C10: The kernel keeps its books from its start on, along every run whose steps respect \<open>sucesos_ok\<close>.  With any configuration that lists semaphores and
  shared variables as words without white space or commas, and as many initial counts, none of them negative, as semaphores, the kernel starts.  After any
  interleaving of events of the CPUs and of the consoles, commands of the operator, rounds of both schedulers and changes of the configuration file
  that respects the conditions, the invariant of the scheduler holds, no process is in two places, the tables of open files are consistent,
  and every process that was in the system at an earlier moment still is.  The conditions, at each step: a CPU reports the process it runs, and
  not at the end of an instruction when that process was killed while it waited; a CPU that is lost was running a process (when an idle one is lost, the code
  does lose a process); a program that is killed, by its console, by the loss of its console or by the operator, has been admitted; a new program gets a pid
  that is not in use; and when a file is opened no counter of descriptors has come round.
\<close>

theorem kernel_system_invariant:
  assumes "config_commons G" and "consola_commons L"
    and "load_kernel_properties R ruta = Some p" and "kp_shared_vars p = Some (''['' @ join_commas vs @ '']'')"
    and "kp_sem_ids p = Some (''['' @ join_commas ss @ '']'')" and "kp_sem_init p = Some inits"
    and "vs \<noteq> []" and "\<forall>w \<in> set vs. plain_word w"
    and "ss \<noteq> []" and "\<forall>w \<in> set ss. plain_word w"
    and "length inits = length ss" and "\<forall>i \<in> set inits. 0 \<le> sint (atoi i)"
  shows "\<exists>ck. kernel_arranque R G (cl_kernel L) ruta tam mem fs cl = Some ck \<and>
    (\<forall>(xs :: 'c suceso list) (ys :: 'c suceso list) ck1 ck2. kernel_sucesos L A junk meta xs ck = Some ck1 \<and> sucesos_ok L A junk meta xs ck \<and>
        kernel_sucesos L A junk meta ys ck1 = Some ck2 \<and> sucesos_ok L A junk meta ys ck1 \<longrightarrow>
      sched_inv (ck_kernel ck2) \<and> once_each (ck_kernel ck2) \<and> file_inv (ck_kernel ck2) \<and>
      procs (ck_kernel ck1) \<subseteq># procs (ck_kernel ck2))"
proof -
  have K: "kernel_commons (cl_kernel L)" using assms(2) by (simp add: consola_commons_def)
  obtain ck where ck: "kernel_main G (cl_kernel L) (kp_conf p) (''['' @ join_commas ss @ '']'') inits (''['' @ join_commas vs @ '']'') tam mem fs cl = Some ck"
    "kernel_ok (ck_kernel ck)"
    using config_commons.main_start [OF assms(1) K assms(7-12), of "kp_conf p" tam mem fs cl] by (auto simp: kernel_ok_def)
  have "kernel_arranque R G (cl_kernel L) ruta tam mem fs cl = Some ck"
    using ck(1) assms(3-6) by (simp add: kernel_arranque_def)
  moreover have "kernel_ok (ck_kernel ck2) \<and> procs (ck_kernel ck1) \<subseteq># procs (ck_kernel ck2)"
    if "kernel_sucesos L A junk meta xs ck = Some ck1" "sucesos_ok L A junk meta xs ck"
      "kernel_sucesos L A junk meta ys ck1 = Some ck2" "sucesos_ok L A junk meta ys ck1" for xs ys ck1 ck2
    using sucesos_keep [OF assms(2) that(1,2) ck(2)] sucesos_keep [OF assms(2) that(3,4)] by blast
  ultimately show ?thesis unfolding kernel_ok_def by blast
qed

definition seq_kernel_cfg :: "unit config_reader" where
  "seq_kernel_cfg = \<lparr>config_create = (\<lambda>_. Some ()), config_has_property = (\<lambda>_ _. True), cfg_int = (\<lambda>_ _. Some 3),
     cfg_string = (\<lambda>_ key. if key = ''SEM_IDS'' then Some ''[A,B]'' else if key = ''SHARED_VARS'' then Some ''[!X]'' else Some ''RR''),
     cfg_array = (\<lambda>_ _. Some [''0'', ''2''])\<rparr>"

theorem kernel_system_invariant_witness:
  "\<exists>ck ck2. kernel_arranque seq_kernel_cfg seq_config seq_kernel_lib None 64 \<lparr>sk_in = [], sk_out = []\<rparr> \<lparr>sk_in = [], sk_out = []\<rparr>
      (\<lambda>_. \<lparr>sk_in = [], sk_out = []\<rparr>) = Some ck \<and>
    kernel_sucesos seq_consola_lib abi32 (\<lambda>_. 0) (\<lambda>_. undefined)
      [Evento (Conexion Puerto_programas 10), Lectura seq_kernel_cfg None, Evento (Datos Puerto_programas 10)] ck = Some ck2 \<and>
    sched_inv (ck_kernel ck2) \<and> file_inv (ck_kernel ck2)"
proof -
  let ?s = "\<lparr>sk_in = [], sk_out = []\<rparr>" and ?cl = "\<lambda>_ :: u32. \<lparr>sk_in = [], sk_out = []\<rparr>"
  let ?ss = "[Evento (Conexion Puerto_programas 10), Lectura seq_kernel_cfg None, Evento (Datos Puerto_programas 10)]"
  have j: "join_commas [''A'', ''B''] = ''A,B''" "join_commas [''!X''] = ''!X''" by (simp_all add: join_commas_def)
  have c: "atoi ''0'' = 0" "atoi ''2'' = 2" by code_simp+
  have L: "cl_kernel seq_consola_lib = seq_kernel_lib" by (simp add: seq_consola_lib_def)
  obtain p where p: "load_kernel_properties seq_kernel_cfg None = Some p" "kp_shared_vars p = Some ''[!X]''"
    "kp_sem_ids p = Some ''[A,B]''" "kp_sem_init p = Some [''0'', ''2'']"
    by (simp add: load_kernel_properties_def seq_kernel_cfg_def entero_def)
  note sys = kernel_system_invariant [OF seq_config.config_commons_axioms seq_kconsola.consola_commons_axioms p(1),
      of "[''!X'']" "[''A'', ''B'']" "[''0'', ''2'']" 64 ?s ?s ?cl abi32 "\<lambda>_. 0" "\<lambda>_. undefined", unfolded j L]
  obtain ck where ck: "kernel_arranque seq_kernel_cfg seq_config seq_kernel_lib None 64 ?s ?s ?cl = Some ck"
    and inv: "\<forall>(xs :: unit suceso list) (ys :: unit suceso list) ck1 ck2. kernel_sucesos seq_consola_lib abi32 (\<lambda>_. 0) (\<lambda>_. undefined) xs ck = Some ck1 \<and>
        sucesos_ok seq_consola_lib abi32 (\<lambda>_. 0) (\<lambda>_. undefined) xs ck \<and>
        kernel_sucesos seq_consola_lib abi32 (\<lambda>_. 0) (\<lambda>_. undefined) ys ck1 = Some ck2 \<and>
        sucesos_ok seq_consola_lib abi32 (\<lambda>_. 0) (\<lambda>_. undefined) ys ck1 \<longrightarrow>
      sched_inv (ck_kernel ck2) \<and> once_each (ck_kernel ck2) \<and> file_inv (ck_kernel ck2) \<and> procs (ck_kernel ck1) \<subseteq># procs (ck_kernel ck2)"
    using sys p(2-4) c by (auto simp: plain_word_def white_def)
  have k: "clientes (ck_kernel ck) = ?cl" "tabla_sockets_procesos (ck_kernel ck) = []"
    using ck by (auto simp: kernel_arranque_def kernel_main_def split: bind_splits)
  have r: "connection_recv abi32 (\<lambda>_. 0) ?s = Some (\<lparr>rc_ret = 0, rc_oc = None, rc_msg = None\<rparr>, ?s)"
    by (simp add: connection_recv_def socket_recv_def)
  have d: "desconexion_consola seq_kernel_lib (\<lambda>_. 0) 10 k' = Some k'" if "tabla_sockets_procesos k' = []" for k'
    using that by (subst desconexion_consola.simps) (simp add: buscar_proceso_por_socket_def seq_kernel_lib_def seq_coll_def remove_first_None)
  obtain ck2 where ck2: "kernel_sucesos seq_consola_lib abi32 (\<lambda>_. 0) (\<lambda>_. undefined) ?ss ck = Some ck2"
    by (simp add: kernel_suceso_def seleccionado_def nueva_conexion_def atender_def desconexion_def k r d L)
  have "sucesos_ok seq_consola_lib abi32 (\<lambda>_. 0) (\<lambda>_. undefined) ?ss ck"
    by (simp add: suceso_ok_def evento_ok_def archivos_ok_def desconexion_ok_def kernel_suceso_def seleccionado_def nueva_conexion_def
        atender_def desconexion_def k r d L)
  then show ?thesis using ck ck2 inv [THEN spec, of "[]", THEN spec, of ?ss, THEN spec, of ck, THEN spec, of ck2] by simp
qed

end
