(* ===== verification/Terminales.thy ===== *)
theory Terminales
  imports Kernel_Console Consola_Props
begin

text \<open>
  The two loops that read commands from a terminal: \<open>iniciar_consola\<close> of \<open>kernel/src/consola.c\<close> and \<open>enter_command\<close> of \<open>consola/src/consola.c\<close>.
  They run on the characters typed so far and stop where they would wait for more; the result is what they have printed and the state.  \<open>fgets\<close>
  with room for 256 characters takes a longer line in pieces, and a piece without a newline makes the search for the newline leave
  the buffer (\<open>None\<close>).
\<close>

definition LF :: char where "LF = CHR 0x0A"
definition BS :: char where "BS = CHR 0x5C"

definition fgets_terminal :: "nat \<Rightarrow> string \<Rightarrow> (string \<times> string) option" where
  "fgets_terminal n tecleado =
     (let l = take (n - 1) tecleado in
      if LF \<in> set l then (let command = takeWhile (\<lambda>c. c \<noteq> LF) l @ [LF] in Some (command, drop (length command) tecleado))
      else if 1 < n \<and> length l = n - 1 then Some (l, drop (n - 1) tecleado)
      else None)"

lemma fgets_terminal_shrinks: "fgets_terminal n s = Some (c, r) \<Longrightarrow> length r < length s"
  by (cases s) (auto simp: fgets_terminal_def Let_def split: if_splits)

lemma fgets_terminal_line:
  assumes "LF \<notin> set w" "Suc (length w) < n"
  shows "fgets_terminal n (w @ LF # s) = Some (w @ [LF], s)"
proof -
  have t: "take (n - 1) (w @ LF # s) = w @ LF # take (n - 2 - length w) s"
    using assms(2) by (cases "n - 1 - length w") (auto intro!: arg_cong [where f = "\<lambda>k. take k s"])
  have w: "takeWhile (\<lambda>c. c \<noteq> LF) (w @ LF # take (n - 2 - length w) s) = w"
    using assms(1) by (subst takeWhile_append2) auto
  show ?thesis unfolding fgets_terminal_def t Let_def w by simp
qed

section \<open>The console of the kernel\<close>

definition menu_kernel :: string where
  "menu_kernel =
     ''/'' @ replicate 57 (CHR ''*'') @ [BS] @ '' '' @ [LF] @
     ''| multiprogramming      : cambiar multiprogramacion       |'' @ [LF] @
     ''| process_list (state)  : procesos en sistema             |'' @ [LF] @
     ''| process pid           : obtener informacion de proceso  |'' @ [LF] @
     ''| global_file_table     : tabla global de archivos        |'' @ [LF] @
     ''| kill pid              : finalizar proceso               |'' @ [LF] @
     ''| stop                  : detener planificacion           |'' @ [LF] @
     [BS] @ replicate 57 (CHR ''*'') @ ''/'' @ [LF]"

function iniciar_consola :: "consola_lib \<Rightarrow> abi \<Rightarrow> storage \<Rightarrow> string \<Rightarrow> consola_kernel \<Rightarrow> (string \<times> consola_kernel) option" where
  "iniciar_consola L A junk tecleado ck =
     (case fgets_terminal 256 tecleado of
        None \<Rightarrow> Some (menu_kernel, ck)
      | Some (command, resto) \<Rightarrow>
          (case leer_comando L A junk command ck of
             None \<Rightarrow> None
           | Some (salida, ck1) \<Rightarrow>
               map_option (\<lambda>(salida', ck2). (menu_kernel @ salida @ salida', ck2)) (iniciar_consola L A junk resto ck1)))"
  by pat_completeness auto

termination iniciar_consola
  by (relation "measure (\<lambda>(_, _, _, tecleado, _). length tecleado)") (auto dest: fgets_terminal_shrinks)

declare iniciar_consola.simps [simp del]

section \<open>The console process\<close>

definition menu_consola :: string where
  "menu_consola =
     ''/'' @ replicate 39 (CHR ''*'') @ [BS] @ '' '' @ [LF] @
     ''| init path     : Iniciar Programa      |'' @ [LF] @
     ''| kill pid      : Finalizar Programa    |'' @ [LF] @
     ''| disconnect    : Desconectar Consola   |'' @ [LF] @
     ''| clean         : Limpiar Mensajes      |'' @ [LF] @
     [BS] @ replicate 39 (CHR ''*'') @ ''/'' @ [LF]"

text \<open>
  \<open>files n\<close> are the files that exist at the \<open>n\<close>th command, \<open>fresh_pid n\<close> what the storage of a new entry of \<open>thread_list\<close> holds.
  \<open>disconnect\<close> ends the process with \<open>abort\<close>; the flag tells whether it still runs.
\<close>

function enter_command ::
    "consola_proc_lib \<Rightarrow> abi \<Rightarrow> (nat \<Rightarrow> string \<Rightarrow> byte list option) \<Rightarrow> (nat \<Rightarrow> u32) \<Rightarrow> nat \<Rightarrow> string \<Rightarrow> consola \<Rightarrow> (string \<times> bool \<times> consola) option" where
  "enter_command P A files fresh_pid n tecleado c =
     (case fgets_terminal 256 tecleado of
        None \<Rightarrow> Some (menu_consola, True, c)
      | Some (command, resto) \<Rightarrow>
          (case read_command P A (files n) (fresh_pid n) command c of
             None \<Rightarrow> None
           | Some (Abortado, salida, c1) \<Rightarrow> Some (menu_consola @ salida, False, c1)
           | Some (Codigo ret, salida, c1) \<Rightarrow>
               map_option (\<lambda>(salida', vive, c2). (menu_consola @ salida @ [LF] @ dec_int ret @ '' '' @ [LF] @ salida', vive, c2))
                 (enter_command P A files fresh_pid (Suc n) resto c1)))"
  by pat_completeness auto

termination enter_command
  by (relation "measure (\<lambda>(_, _, _, _, _, tecleado, _). length tecleado)") (auto dest: fgets_terminal_shrinks)

declare enter_command.simps [simp del]

section \<open>Lines\<close>

text \<open>A line of at most 254 characters is one command; the prompt comes before each.\<close>

lemma iniciar_consola_line:
  assumes "LF \<notin> set w" "length w < 255"
  shows "iniciar_consola L A junk (w @ LF # s) ck =
    Option.bind (leer_comando L A junk (w @ [LF]) ck) (\<lambda>(salida, ck1).
      map_option (\<lambda>(salida', ck2). (menu_kernel @ salida @ salida', ck2)) (iniciar_consola L A junk s ck1))"
  using fgets_terminal_line [OF assms(1), of 256 s] assms(2)
  by (subst iniciar_consola.simps) (simp split: option.split)

lemma iniciar_consola_waits: "length s < 255 \<Longrightarrow> LF \<notin> set s \<Longrightarrow> iniciar_consola L A junk s ck = Some (menu_kernel, ck)"
  by (subst iniciar_consola.simps) (simp add: fgets_terminal_def Let_def)

lemma iniciar_consola_long_line:
  assumes "255 \<le> length s" "LF \<notin> set (take 255 s)"
  shows "iniciar_consola L A junk s ck = None"
proof -
  have "fgets_terminal 256 s = Some (take 255 s, drop 255 s)" using assms by (simp add: fgets_terminal_def Let_def)
  moreover have "leer_comando L A junk (take 255 s) ck = None" using assms(2) by (simp add: leer_comando_def LF_def)
  ultimately show ?thesis by (subst iniciar_consola.simps) simp
qed

lemma enter_command_line:
  assumes "LF \<notin> set w" "length w < 255"
  shows "enter_command P A files fresh_pid n (w @ LF # s) c =
    (case read_command P A (files n) (fresh_pid n) (w @ [LF]) c of
       None \<Rightarrow> None
     | Some (Abortado, salida, c1) \<Rightarrow> Some (menu_consola @ salida, False, c1)
     | Some (Codigo ret, salida, c1) \<Rightarrow>
         map_option (\<lambda>(salida', vive, c2). (menu_consola @ salida @ [LF] @ dec_int ret @ '' '' @ [LF] @ salida', vive, c2))
           (enter_command P A files fresh_pid (Suc n) s c1))"
  using fgets_terminal_line [OF assms(1), of 256 s] assms(2) by (subst enter_command.simps) simp

text \<open>\<open>disconnect\<close> ends the process whatever was typed behind it.\<close>

lemma disconnect_ends:
  assumes "consola_proc_commons P"
  shows "enter_command P A files fresh_pid n (''disconnect'' @ LF # s) c = Some (menu_consola @ ''Hasta Luego'', False, c)"
proof -
  have "n_split P ''disconnect'' 2 '' '' = [''disconnect'']"
    by (rule consola_proc_commons.split_one [OF assms]) simp_all
  then have "read_command P A (files n) (fresh_pid n) (''disconnect'' @ [LF]) c = Some (Abortado, ''Hasta Luego'', c)"
    by (simp add: read_command_def LF_def)
  then show ?thesis using enter_command_line [of "''disconnect''" P A files fresh_pid n s c] by (simp add: LF_def)
qed

end
