(* ===== verification/Spec2Isabelle.thy ===== *)
theory Spec2Isabelle
  imports Memoria_Console Memoria_Run Memoria_Concurrente File_System_Run CPU_Main Ejecucion Kernel_Code Kernel_Heap_Props Kernel_Sched_Props
    Kernel_Files_Props Kernel_System Configuracion Terminales
begin

text \<open>
  The repository is a small distributed operating system of five processes that talk over stream sockets.  The kernel
  (\<open>src/kernel\<close>) accepts programs from consoles (\<open>src/consola\<close>), schedules them on CPUs
  (\<open>src/cpu\<close>), and serves their system calls; the memory process (\<open>src/memoria\<close>) holds the pages of the programs behind an
  inverted page table and a cache; the file system (\<open>src/file-system\<close>) keeps files as blocks under a mount
  point.  \<open>src/shared-library\<close> has the socket wrappers, the two protocols and the serialisation of process control blocks.

  \<^bold>\<open>Theories and sources.\<close>

  \<^item> Prelude: bytes, little-endian integers, \<open>memcpy\<close>, decimal text, \<open>strtok\<close>.  Commons: the lists and dictionaries of
    so-commons as records of operations with their laws as locales.
  \<^item> Sockets, Connection: \<open>socket.c\<close> and \<open>socket.h\<close> (\<open>socket_send\<close>, \<open>socket_recv\<close>, \<open>connection_send\<close>, \<open>connection_recv\<close>, the
    operation codes).  A socket is the bytes still to arrive and the bytes sent.
  \<^item> Memory\_Prot, FS\_Prot: \<open>memory_prot.c\<close>, \<open>file_system_prot.c\<close>; every client call, server-side parser and answer.
  \<^item> Serializar: the structures of \<open>generales.h\<close> and \<open>pcb_serializer\<close>, \<open>deserializer_pcb\<close> of \<open>serializar.c\<close>.
  \<^item> Memoria\_Frames, Memoria\_Cache, Memoria\_Server, Memoria\_Console: \<open>memoria.c\<close>.  The record \<open>mem_state\<close> has one byte sequence
    for the memory block, in whose first frames the inverted table lies, as in the code.  \<open>load\<close>, \<open>get_frame\<close>, \<open>assign_pages_to_process\<close>, the cache
    (\<open>assign_cache_entry\<close>, \<open>update_cache\<close>), the handlers (\<open>read_page\<close>, \<open>write_page\<close>, ...), \<open>process_request\<close>, the commands of the console.
    Lemmas: Memoria\_Inv (the invariant \<open>frame_inv\<close>, hashed look-up against a scan, effect of every operation on the mappings),
    Memoria\_Release (release of pages, accounting of the cache), Memoria\_Access (answers and effects of reads and writes, agreement of
    cache and memory).  Memoria\_Run: the process as a server, whose run is any interleaving of single requests of its clients
    (\<open>atender_pedidos\<close>), and its invariant from \<open>load\<close> on.
  \<^item> Cerrojos, Memoria\_Hilos, Memoria\_Concurrente: the threads of \<open>memoria.c\<close> with its locks.  Cerrojos has threads as trees of actions (\<open>hilo\<close>),
    what each may do next given the locks the others hold (\<open>paso\<close>), schedules (\<open>correr\<close>), and the reason why an order of the locks excludes deadlock.
    Memoria\_Hilos has every handler and command with \<open>mutex_lock\<close>, \<open>memory_locks\<close> and \<open>cache_memory_locks\<close>
    as the code takes them; alone it is the atomic handler.  Memoria\_Concurrente: no deadlock, and two races.
  \<^item> File\_System: \<open>file-system.c\<close>; the tree of paths, the block files and the bitmap.  Lemmas: File\_System\_Inv, File\_System\_Write,
    File\_System\_Props (a file is the byte sequence of its blocks; writing refines overwriting that sequence).  File\_System\_Run: the loop
    over the clients (\<open>fs_main\<close>) and the invariant \<open>disk_inv\<close> between metadata, blocks and bitmap.
  \<^item> CPU: \<open>cpu.c\<close>, \<open>funcionesCPU.c\<close>, \<open>funcionesParser.c\<close>; the globals are the record \<open>cpu_state\<close>, each primitive of the parser
    is one function.  Lemmas: CPU\_Stack, CPU\_Props (placement of variables, calls and returns, fetch).  CPU\_Main: the loop of \<open>main\<close>
    round by round, with \<open>SIGUSR1\<close> as a list of signals that arrive in each round (\<open>cpu_main\<close>).
  \<^item> Kernel\_State: the globals of \<open>kernel_generales.h\<close> as the record \<open>kernel\<close>, look-ups and accounting.  Kernel\_Code: a new program
    (\<open>solicitudes.c\<close>).  Kernel\_Heap: pages and blocks of the heap and the two requests about it; Kernel\_Heap\_Props relates
    a page to the list of its blocks.  Kernel\_Sched: queues, CPUs, semaphores and every transition of \<open>kernel.c\<close>,
    \<open>kernel_generales.c\<close> and \<open>solicitudes.c\<close> that moves a process; Kernel\_Sched\_Props has the invariant \<open>sched_inv\<close>, the step
    relation \<open>kstep\<close> and its reachable states.  Kernel\_Files: the tables of open files, the requests about files and \<open>solve_request\<close>,
    the switch over all requests; Kernel\_Files\_Props abstracts the tables to the set \<open>open_files\<close>.  Kernel\_Select:
    the event loop \<open>manage_select\<close>; Kernel\_Select\_Files: the file tables along its events.  Kernel\_Console: \<open>kernel/src/consola.c\<close> and the
    stopping and resuming of the schedulers.  Kernel\_Init: the state \<open>main\<close> builds from the configuration.  Kernel\_System: all threads of the
    kernel (events, console, both schedulers, watch on the configuration) as an interleaving of steps (\<open>kernel_sucesos\<close>) and what holds along it.
  \<^item> Consola: \<open>consola/src/consola.c\<close>, the commands and the thread of a program; lemmas in Consola\_Props.  Terminales: the loops that read
    commands from a terminal, of both consoles (\<open>iniciar_consola\<close>, \<open>enter_command\<close>), with the menus they print.
  \<^item> Configuracion: the loaders of the five configuration files and the thread that reads the quantum sleep anew (\<open>monitoriar_config\<close>).
  \<^item> Ejecucion: kernel and CPU composed.  What \<open>pasarDeReadyAExecute\<close> sends is what the loop of the CPU executes, what the CPU reports is what
    \<open>manage_select\<close> takes up, and the answer decides whether the CPU keeps the process.
  \<^item> This theory: properties that span processes.  A call of a client is composed with the dispatcher of the memory process
    (\<open>remote_call\<close>).

  \<^bold>\<open>What the theorems show.\<close>  Each server keeps an invariant, established by its start-up code (\<open>load\<close>, \<open>fs_load\<close>, \<open>kernel_arranque\<close>), kept by
  each of its operations and so along every run: frames, cache accounting and page table of the memory process, metadata, blocks and bitmap of
  the file system, queues, CPUs and file tables of the kernel.  Kernel and CPU agree about who has a process.  Look-ups, allocations, reads, writes,
  opening, closing, calls and returns have exactly the effect they should on every branch the hypotheses allow.  Messages and control blocks arrive as
  they were sent.  Where the code does not do what it means to, a theorem says what it does: cache entries filled by a partial write or by two
  writes at once, a heap block handed
  out twice, loops that never end, processes lost or miscounted.

  \<^bold>\<open>Errors, loops, parameters.\<close>  An answer code of the protocol is a value; \<open>None\<close> is undefined behaviour of C (a null pointer that is
  followed, an access outside an object, signed overflow), a wait that blocks for ever or a loop that does not end.  So a hash of a pid and a page
  of twenty or more decimal characters together is \<open>None\<close> (\<open>hashing\<close> joins them in a \<open>char[20]\<close>; \<open>hash_ok\<close> is the condition), and so are a control block
  whose serialised size is not an \<open>int\<close> (\<open>pcb_serializer\<close>), a position on the stack that is not one (\<open>posicion_int\<close>), text for a console the kernel knows
  (\<open>funcion_escribir\<close>, whose copy is one byte longer than its block) and an \<open>open\<close> for creation (\<open>funcion_abrir\<close>, whose copy runs into the flags).
  A path with a component \<open>.\<close> or \<open>..\<close>, with a slash at its end, or longer than the operating system accepts has no meaning in the model of
  the tree of files (\<open>c_path\<close>), so that a request with one is \<open>None\<close> too.  Loops are \<open>fun\<close>
  or \<open>function\<close> with a measure; \<open>partial_function (option)\<close> is used for the loops that may run for ever on some data (the search of
  \<open>flush\<close>, the growth of a file, the walks over the blocks of a heap page, the main loop \<open>cpu_main\<close>) and for the loop over the programs of a lost console, so there
  is no fuel.  Integers have the width of the code (\<open>u8\<close>,
  \<open>u16\<close>, \<open>u32\<close>, read by \<open>sint\<close> where the code has \<open>int\<close>).  Memory that is read without having been written is the parameter
  \<open>junk\<close>; sizes and padding of C structures are the parameter \<open>abi\<close>.  so-commons, the parser of the programs and the
  configuration are parameters with the laws of the locales \<open>mem_commons\<close>, \<open>fs_commons\<close>, \<open>cpu_commons\<close>, \<open>kernel_commons\<close>, \<open>consola_commons\<close>,
  \<open>consola_proc_commons\<close>, \<open>config_commons\<close>; every locale is interpreted on executable list functions.

  \<^bold>\<open>Not modelled.\<close>  Opening, accepting and closing of sockets, \<open>select\<close>, the creation of threads and the locks of the kernel: but for the threads of the
  memory process, a handler, a command, an event and a round of a scheduler are atomic steps, and a run is a sequence of them in any order.  Logs, times, printing of the loaded configuration and freeing of memory have no state
  of their own.  \<open>fs_handshake\<close> uses the address of its parameter as a socket.  Functions nobody calls (\<open>agregar_bloque_libre\<close>,
  \<open>cambiar_metadata\<close>, \<open>obtener_puerto\<close>, \<open>proceso_bloqueado\<close>, \<open>connect_send\<close>) are left out.
\<close>

section \<open>Calls to the memory process\<close>

text \<open>
  A call of a client over its connection to the memory process: what the call sends is served by
  \<open>process_request\<close>, and what the server sends is what the call receives.
\<close>

definition remote_call ::
    "mem_lib \<Rightarrow> storage \<Rightarrow> int \<Rightarrow> (sock \<Rightarrow> 'r \<times> sock) \<Rightarrow> mem_state \<Rightarrow> ('r \<times> mem_state) option" where
  "remote_call M junk client call st = do {
     (srv, st') \<leftarrow> process_request M junk client \<lparr>sk_in = sk_out (snd (call \<lparr>sk_in = [], sk_out = []\<rparr>)), sk_out = []\<rparr> st;
     Some (fst (call \<lparr>sk_in = sk_out srv, sk_out = []\<rparr>), st') }"

lemma process_one:
  assumes "0 \<le> oc" "oc < 256" and "serve_operation M junk client oc \<lparr>sk_in = body, sk_out = []\<rparr> st = Some (\<lparr>sk_in = [], sk_out = ans\<rparr>, st')"
  shows "process_request M junk client \<lparr>sk_in = [oc_byte oc] @ body, sk_out = []\<rparr> st = Some (\<lparr>sk_in = [], sk_out = ans\<rparr>, st')"
proof -
  have oc: "recv_operation_code junk \<lparr>sk_in = [oc_byte oc] @ body, sk_out = []\<rparr> = (oc, \<lparr>sk_in = body, sk_out = []\<rparr>)"
    using oc_byte_code [OF assms(1,2)] by (simp add: recv_operation_code_def recv_storage_def socket_recv_def)
  have stop: "process_request M junk client \<lparr>sk_in = [], sk_out = ans\<rparr> st' = Some (\<lparr>sk_in = [], sk_out = ans\<rparr>, st')"
    by (subst process_request.simps) (simp add: recv_operation_code_def)
  have "oc \<noteq> DISCONNECTED_CLIENT" using assms(1) by (simp add: DISCONNECTED_CLIENT_def)
  then show ?thesis
    by (subst process_request.simps) (simp add: oc [simplified] assms(3) stop)
qed

lemma memory_read_answer:
  assumes "length bytes = unat n" "0 < unat n"
  shows "fst (memory_read junk pid page off sz \<lparr>sk_in = code_bytes SUCCESS @ u32_bytes n @ bytes, sk_out = out\<rparr>) =
    \<lparr>rr_exec_code = SUCCESS, rr_buffer_size = n, rr_buffer = Some bytes\<rparr>"
proof -
  have "bytes \<noteq> []" using assms by auto
  then have "recv_storage junk (unat n) \<lparr>sk_in = bytes, sk_out = o'\<rparr> = (Some bytes, \<lparr>sk_in = [], sk_out = o'\<rparr>)" for o'
    using recv_storage_full [of "\<lparr>sk_in = bytes, sk_out = o'\<rparr>" bytes "[]" "unat n" junk] assms by simp
  then show ?thesis
    using assms by (simp add: memory_read_def socket_send_def bytes_i16_code_bytes Let_def SUCCESS_def)
qed

lemma remote_read:
  assumes "mem_commons M" "frame_inv st" "cache_inv st" "maps st pid page f" "coherent st pid page"
    and b: "unat off + unat sz \<le> page_bytes st" "unat off < page_bytes st" "0 < unat sz"
    and "\<not> last_entry_of_other pid (victim M pid page st) st"
  shows "\<exists>st'. remote_call M junk client (memory_read junk' pid page off sz) st =
    Some (\<lparr>rr_exec_code = SUCCESS, rr_buffer_size = sz, rr_buffer = Some (mem_read (unat off) (unat sz) (page_content st f))\<rparr>, st') \<and>
    memory st' = memory st \<and> frame_inv st' \<and> cache_inv st' \<and> maps st' = maps st"
proof -
  let ?bytes = "mem_read (unat off) (unat sz) (page_content st f)"
  let ?ans = "code_bytes SUCCESS @ u32_bytes sz @ ?bytes"
  have req: "sk_out (snd (memory_read junk' pid page off sz \<lparr>sk_in = [], sk_out = []\<rparr>)) = [oc_byte READ_OC] @ read_body (pid, page, off, sz)"
    by (simp add: memory_read_def socket_send_def read_body_def Let_def)
  have "sk_in \<lparr>sk_in = read_body (pid, page, off, sz), sk_out = []\<rparr> = read_body (pid, page, off, sz) @ []" by simp
  from read_page_ok [OF assms(1-5) this b(1,2) assms(9), of junk] obtain st' where
    r: "read_page M junk \<lparr>sk_in = read_body (pid, page, off, sz), sk_out = []\<rparr> st = Some (\<lparr>sk_in = [], sk_out = ?ans\<rparr>, st')"
      "memory st' = memory st" "frame_inv st'" "cache_inv st'" "maps st' = maps st" by auto
  have "process_request M junk client \<lparr>sk_in = [oc_byte READ_OC] @ read_body (pid, page, off, sz), sk_out = []\<rparr> st =
      Some (\<lparr>sk_in = [], sk_out = ?ans\<rparr>, st')"
    by (rule process_one) (simp_all add: serve_operation_def source_consts r(1))
  moreover have "length ?bytes = unat sz"
  proof -
    have "f < n_frames st" using assms(4) maps_frame by blast
    then have "length (page_content st f) = page_bytes st"
      using frame_in_memory [OF frame_invD(1) [OF assms(2)]] by (simp add: page_content_def length_mem_read)
    then show ?thesis using b(1) by (simp add: length_mem_read)
  qed
  then have "fst (memory_read junk' pid page off sz \<lparr>sk_in = ?ans, sk_out = []\<rparr>) =
      \<lparr>rr_exec_code = SUCCESS, rr_buffer_size = sz, rr_buffer = Some ?bytes\<rparr>"
    using b(3) by (rule memory_read_answer)
  ultimately show ?thesis using r(2-5) by (simp add: remote_call_def req [simplified])
qed

lemma remote_write:
  assumes "mem_commons M" "frame_inv st" "cache_inv st" "maps st pid page f" "coherent st pid page"
    and seg: "kernel_client st = client \<or> it_segment (get_reg (memory st) f) \<noteq> CODE_SEGMENT"
    and b: "unat off + unat sz \<le> page_bytes st" "unat off < page_bytes st" "0 < unat sz" "length buf = unat sz"
    and safe: "\<not> last_entry_of_other pid (victim M pid page st) st"
    and cached: "get_cache_entry pid page st \<noteq> None \<or> unat sz = page_bytes st"
  shows "\<exists>st'. remote_call M junk client (\<lambda>s. the (memory_write junk' pid page off sz sz buf s)) st = Some (SUCCESS, st') \<and>
    frame_inv st' \<and> cache_inv st' \<and> maps st' = maps st \<and> coherent st' pid page \<and> page_bytes st' = page_bytes st \<and>
    get_cache_entry pid page st' \<noteq> None \<and> page_content st' f = mem_write (unat off) buf (page_content st f)"
proof -
  let ?e = "victim M pid page st" and ?st1 = "poke f (unat off) (take (unat sz) buf) st"
  let ?x = "mem_write (unat off) (take (unat sz) buf) (cm_content (cache_memory st ! ?e))"
  have v: "write_valid (pid, page, off, sz, buf)" using b(3,4) unat_u32_less [of sz] by (auto simp: write_valid_def)
  have req: "sk_out (snd (the (memory_write junk' pid page off sz sz buf \<lparr>sk_in = [], sk_out = []\<rparr>))) =
      [oc_byte WRITE_OC] @ write_body (pid, page, off, sz, buf)"
    using b(4) by (simp add: memory_write_def write_body_def recv_code_def socket_send_def)
  have "sk_in \<lparr>sk_in = write_body (pid, page, off, sz, buf), sk_out = []\<rparr> = write_body (pid, page, off, sz, buf) @ []" by simp
  from mem_commons.write_page_effect [OF assms(1-4) seg v this b(1,2) _ safe refl refl, of junk] b(4) obtain l t st' where
    w: "write_page M junk client \<lparr>sk_in = write_body (pid, page, off, sz, buf), sk_out = []\<rparr> st =
        Some (\<lparr>sk_in = [], sk_out = code_bytes SUCCESS\<rparr>, st')"
      "st' = fill_entry ?e pid page ?x t l ?st1" "cache_inv st'" "frame_inv ?st1" "maps ?st1 = maps st" by fastforce
  have "process_request M junk client \<lparr>sk_in = [oc_byte WRITE_OC] @ write_body (pid, page, off, sz, buf), sk_out = []\<rparr> st =
      Some (\<lparr>sk_in = [], sk_out = code_bytes SUCCESS\<rparr>, st')"
    by (rule process_one) (simp_all add: serve_operation_def source_consts w(1))
  moreover have "fst (the (memory_write junk' pid page off sz sz buf \<lparr>sk_in = code_bytes SUCCESS, sk_out = []\<rparr>)) = SUCCESS"
    using recv_code_exchange [of SUCCESS _ "[]"] b(4) by (simp add: memory_write_def socket_send_def SUCCESS_def)
  ultimately have call: "remote_call M junk client (\<lambda>s. the (memory_write junk' pid page off sz sz buf s)) st = Some (SUCCESS, st')"
    by (simp add: remote_call_def req [simplified])
  have "coherent st' pid page"
    unfolding w(2) by (rule coherent_after_write [OF assms(1-4) b(1) _ cached assms(5,5)]) (use b(4) in simp)
  moreover have "page_content st' f = mem_write (unat off) buf (page_content st f)"
  proof -
    have u: "f < n_frames st" using assms(4) maps_frame by blast
    have "unat off + length (take (unat sz) buf) \<le> page_bytes st" using b by simp
    then show ?thesis using poke_content [OF frame_invD(1) [OF assms(2)] u u] b(4) by (simp add: w(2))
  qed
  moreover have "frame_inv st'" "maps st' = maps st" "page_bytes st' = page_bytes st" using w(4,5) by (simp_all add: w(2))
  moreover have "get_cache_entry pid page st' \<noteq> None"
  proof -
    have "?e < length (cache_memory st)"
      using mem_commons.victim_ok(1) [OF assms(1,3) maps_pid [OF assms(2,4)]] by (simp add: fillable_def)
    then have "\<lparr>cm_pid = pid, cm_page = page, cm_content = ?x\<rparr> \<in> set (cache_memory st')" by (simp add: w(2) set_update_memI)
    then have "\<exists>c \<in> set (cache_memory st'). cm_pid c = pid \<and> cm_page c = page"
      by (intro bexI [of _ "\<lparr>cm_pid = pid, cm_page = page, cm_content = ?x\<rparr>"]) simp_all
    then show ?thesis by (auto simp: get_cache_entry_def find_index_None_iff)
  qed
  ultimately show ?thesis using call w(3) by blast
qed

lemma cached_not_other:
  assumes "get_cache_entry pid page st \<noteq> None"
  shows "\<not> last_entry_of_other pid (victim M pid page st) st"
proof -
  obtain e where e: "get_cache_entry pid page st = Some e" using assms by auto
  then have "cm_pid (cache_memory st ! e) = pid" using find_index_SomeD [OF e [unfolded get_cache_entry_def]] by simp
  then show ?thesis using e by (simp add: victim_def last_entry_of_other_def)
qed

text \<open>
  C20: What a process writes to the memory process it reads back.  A client writes \<open>buf\<close> to a mapped page with \<open>memory_write\<close>, over
  a connection served by \<open>process_request\<close>, and any client then reads the same bytes with \<open>memory_read\<close>: both calls
  return \<open>SUCCESS\<close>, and the read returns \<open>buf\<close>.  The conditions are those under which the cache is kept in agreement with the
  memory: the page is in the cache or is written as a whole, and the write does not take the last cache entry of another process.
\<close>

theorem remote_write_then_read:
  assumes "mem_commons M" and "frame_inv st" and "cache_inv st" and "maps st pid page f" and "coherent st pid page"
    and "kernel_client st = client \<or> it_segment (get_reg (memory st) f) \<noteq> CODE_SEGMENT"
    and "unat off + unat sz \<le> page_bytes st" and "unat off < page_bytes st" and "0 < unat sz" and "length buf = unat sz"
    and "\<not> last_entry_of_other pid (victim M pid page st) st"
    and "get_cache_entry pid page st \<noteq> None \<or> unat sz = page_bytes st"
  shows "\<exists>st1 st2. remote_call M junk client (\<lambda>s. the (memory_write junk' pid page off sz sz buf s)) st = Some (SUCCESS, st1) \<and>
    remote_call M junk client' (memory_read junk' pid page off sz) st1 =
      Some (\<lparr>rr_exec_code = SUCCESS, rr_buffer_size = sz, rr_buffer = Some buf\<rparr>, st2)"
proof -
  from remote_write [OF assms, of junk junk'] obtain st1 where
    w: "remote_call M junk client (\<lambda>s. the (memory_write junk' pid page off sz sz buf s)) st = Some (SUCCESS, st1)"
      "frame_inv st1" "cache_inv st1" "maps st1 = maps st" "coherent st1 pid page" "page_bytes st1 = page_bytes st"
      "get_cache_entry pid page st1 \<noteq> None" "page_content st1 f = mem_write (unat off) buf (page_content st f)" by blast
  have "f < n_frames st" using assms(4) maps_frame by blast
  then have "length (page_content st f) = page_bytes st"
    using frame_in_memory [OF frame_invD(1) [OF assms(2)]] by (simp add: page_content_def length_mem_read)
  then have "mem_read (unat off) (unat sz) (page_content st1 f) = buf"
    using assms(7,10) by (simp add: w(8) mem_read_write_same)
  moreover have "maps st1 pid page f" using assms(4) by (simp add: w(4))
  ultimately show ?thesis
    using remote_read [OF assms(1) w(2,3) _ w(5) _ _ assms(9) cached_not_other [OF w(7)], of f off junk client' junk'] assms(7,8) w(1,6) by auto
qed

theorem remote_write_then_read_witness:
  "\<exists>st1 st2. remote_call seq_mem_lib (\<lambda>_. 0) 0 (\<lambda>s. the (memory_write (\<lambda>_. 0) 2 0 0 32 32 (replicate 32 7) s)) tiny_state = Some (SUCCESS, st1) \<and>
    remote_call seq_mem_lib (\<lambda>_. 0) 5 (memory_read (\<lambda>_. 0) 2 0 0 32) st1 =
      Some (\<lparr>rr_exec_code = SUCCESS, rr_buffer_size = 32, rr_buffer = Some (replicate 32 7)\<rparr>, st2)"
proof -
  obtain f where f: "maps tiny_state 2 0 f" using tiny_state(3) by (auto simp: mapped_def)
  have safe: "\<not> last_entry_of_other 2 (victim seq_mem_lib 2 0 tiny_state) tiny_state" by (rule tiny_victim) simp
  show ?thesis
    using remote_write_then_read [OF seq_mem.mem_commons_axioms tiny_state(1,2) f tiny_coherent, of 0 0 32 "replicate 32 7" "\<lambda>_. 0" "\<lambda>_. 0" 5] safe
    by (auto simp: tiny_cache)
qed

end
